(* ===== verification/Prelude.thy ===== *)
theory Prelude
  imports Main "HOL-Library.Word" "HOL-Library.Sublist" "HOL-Library.AList"
begin

text \<open>
  Shared vocabulary of the development: results with errors as values, byte strings as
  Rust's \<open>String\<close>/\<open>str\<close> has them (one HOL \<open>char\<close> is one byte of the UTF-8 encoding), the clock,
  executions of a step relation and of a list of operations, and the interface of a machine
  that keeps an invariant.
\<close>

section \<open>Results, options and time\<close>

type_synonym ('e, 'a) result = "'e + 'a"

abbreviation Err :: "'e \<Rightarrow> ('e, 'a) result" where "Err \<equiv> Inl"
abbreviation Ok :: "'a \<Rightarrow> ('e, 'a) result" where "Ok \<equiv> Inr"

text \<open>
  \<open>std::time::Instant\<close> and \<open>Duration\<close> are numbers of nanoseconds. \<open>duration_since\<close> saturates
  at zero, which is subtraction on \<open>nat\<close>.
\<close>

type_synonym instant = nat
type_synonym duration = nat

definition from_secs :: "64 word \<Rightarrow> duration" where
  "from_secs s = unat s * 1000000000"

definition duration_since :: "instant \<Rightarrow> instant \<Rightarrow> duration" where
  "duration_since now earlier = now - earlier"

definition is_ok :: "('e, 'a) result \<Rightarrow> bool" where
  "is_ok r = (case r of Inl _ \<Rightarrow> False | Inr _ \<Rightarrow> True)"

lemma is_ok_simps [simp]: "is_ok (Inr x)" "\<not> is_ok (Inl e)"
  by (simp_all add: is_ok_def)

lemma is_ok_iff: "is_ok r \<longleftrightarrow> (\<exists>x. r = Inr x)"
  by (cases r) auto

section \<open>Byte strings\<close>

named_theorems rust_str \<open>facts about byte strings that component proofs share\<close>

text \<open>\<open>format!("{}", n)\<close> of an unsigned integer.\<close>

fun digit_char :: "nat \<Rightarrow> char" where
  "digit_char n = char_of (48 + n mod 10)"

fun show_nat :: "nat \<Rightarrow> string" where
  "show_nat n = (if n < 10 then [digit_char n] else show_nat (n div 10) @ [digit_char n])"

declare show_nat.simps [simp del]

text \<open>\<open>str::contains\<close> with a string pattern: some suffix starts with the pattern.\<close>

fun contains_str :: "string \<Rightarrow> string \<Rightarrow> bool" where
  "contains_str [] p = (p = [])"
| "contains_str (c # s) p = (prefix p (c # s) \<or> contains_str s p)"

lemma contains_str_sublist [rust_str]: "contains_str s p \<longleftrightarrow> sublist p s"
  by (induction s p rule: contains_str.induct) (auto simp: sublist_Cons_right)

lemma contains_str_Nil [simp]: "contains_str s []"
  by (simp add: contains_str_sublist)

text \<open>\<open>str::strip_prefix\<close> and \<open>str::strip_suffix\<close>.\<close>

definition strip_prefix :: "string \<Rightarrow> string \<Rightarrow> string option" where
  "strip_prefix p s = (if prefix p s then Some (drop (length p) s) else None)"

definition strip_suffix :: "string \<Rightarrow> string \<Rightarrow> string option" where
  "strip_suffix p s = (if suffix p s then Some (take (length s - length p) s) else None)"

lemma strip_prefix_Some [rust_str]: "strip_prefix p s = Some r \<longleftrightarrow> s = p @ r"
  by (auto simp: strip_prefix_def prefix_def)

lemma strip_prefix_append [simp]: "strip_prefix p (p @ s) = Some s"
  by (simp add: strip_prefix_Some)

lemma strip_prefix_None [rust_str]: "strip_prefix p s = None \<longleftrightarrow> \<not> prefix p s"
  by (simp add: strip_prefix_def)

lemma strip_suffix_Some [rust_str]: "strip_suffix p s = Some r \<longleftrightarrow> s = r @ p"
  by (auto simp: strip_suffix_def suffix_def)

text \<open>
  \<open>str::trim\<close> strips characters with the Unicode White\_Space property; these are their UTF-8
  encodings. \<open>eq_ignore_ascii_case\<close> folds the ASCII letters only.
\<close>

definition ws_encodings :: "string list" where
  "ws_encodings =
     map (\<lambda>n. [char_of (n :: nat)]) [9, 10, 11, 12, 13, 32]
     @ map (map (char_of :: nat \<Rightarrow> char)) ([[0xC2, 0x85], [0xC2, 0xA0], [0xE1, 0x9A, 0x80]]
         @ map (\<lambda>n. [0xE2, 0x80, n]) [0x80 ..< 0x8B]
         @ [[0xE2, 0x80, 0xA8], [0xE2, 0x80, 0xA9], [0xE2, 0x80, 0xAF], [0xE2, 0x81, 0x9F], [0xE3, 0x80, 0x80]])"

function trim_start :: "string \<Rightarrow> string" where
  "trim_start s = (case find (\<lambda>w. w \<noteq> [] \<and> prefix w s) ws_encodings of
     None \<Rightarrow> s | Some w \<Rightarrow> trim_start (drop (length w) s))"
  by pat_completeness auto

termination
  by (relation "measure length") (auto simp: find_Some_iff prefix_def)

declare trim_start.simps [simp del]

text \<open>Stripping at the end is the same walk over the reversed bytes and encodings.\<close>

function trim_rev :: "string \<Rightarrow> string" where
  "trim_rev s = (case find (\<lambda>w. w \<noteq> [] \<and> prefix (rev w) s) ws_encodings of
     None \<Rightarrow> s | Some w \<Rightarrow> trim_rev (drop (length w) s))"
  by pat_completeness auto

termination
  by (relation "measure length") (auto simp: find_Some_iff prefix_def)

declare trim_rev.simps [simp del]

definition trim_end :: "string \<Rightarrow> string" where
  "trim_end s = rev (trim_rev (rev s))"

definition trim :: "string \<Rightarrow> string" where
  "trim s = trim_end (trim_start s)"

definition ascii_lower :: "char \<Rightarrow> char" where
  "ascii_lower c = (if 65 \<le> (of_char c :: nat) \<and> (of_char c :: nat) \<le> 90 then char_of ((of_char c :: nat) + 32) else c)"

definition eq_ignore_ascii_case :: "string \<Rightarrow> string \<Rightarrow> bool" where
  "eq_ignore_ascii_case s t \<longleftrightarrow> map ascii_lower s = map ascii_lower t"

definition is_ascii_alphanumeric :: "char \<Rightarrow> bool" where
  "is_ascii_alphanumeric c \<longleftrightarrow> (let n = (of_char c :: nat) in (48 \<le> n \<and> n \<le> 57) \<or> (65 \<le> n \<and> n \<le> 90) \<or> (97 \<le> n \<and> n \<le> 122))"

text \<open>Evaluation of these functions on literals.\<close>

lemmas trim_eval = trim_def trim_end_def trim_start.simps trim_rev.simps ws_encodings_def char_of_def upt_rec

lemmas ascii_eval = eq_ignore_ascii_case_def ascii_lower_def is_ascii_alphanumeric_def char_of_def bit_Suc_0_iff

text \<open>\<open>str::split_once\<close> with a character.\<close>

fun split_once :: "char \<Rightarrow> string \<Rightarrow> (string \<times> string) option" where
  "split_once c [] = None"
| "split_once c (x # xs) =
     (if x = c then Some ([], xs)
      else case split_once c xs of None \<Rightarrow> None | Some (a, b) \<Rightarrow> Some (x # a, b))"

lemma split_once_append: "c \<notin> set a \<Longrightarrow> split_once c (a @ c # b) = Some (a, b)"
  by (induction a) auto

lemma split_once_SomeD: "split_once c s = Some (a, b) \<Longrightarrow> s = a @ c # b \<and> c \<notin> set a"
  by (induction s arbitrary: a) (auto split: if_splits option.splits)

lemma split_once_None: "split_once c s = None \<longleftrightarrow> c \<notin> set s"
  by (induction s) (auto split: option.splits)

text \<open>\<open>str::split\<close> with a character, \<open>[String]::join\<close>, \<open>format!("{}", n)\<close> of a signed integer.\<close>

fun split_on :: "char \<Rightarrow> string \<Rightarrow> string list" where
  "split_on c [] = [[]]"
| "split_on c (x # xs) =
     (if x = c then [] # split_on c xs
      else case split_on c xs of [] \<Rightarrow> [[x]] | y # ys \<Rightarrow> (x # y) # ys)"

lemma split_on_nonempty [simp]: "split_on c s \<noteq> []"
  by (induction s) (auto split: list.splits)

fun join :: "string \<Rightarrow> string list \<Rightarrow> string" where
  "join sep [] = []"
| "join sep [x] = x"
| "join sep (x # xs) = x @ sep @ join sep xs"

definition show_int :: "int \<Rightarrow> string" where
  "show_int n = (if n < 0 then CHR ''-'' # show_nat (nat (- n)) else show_nat (nat n))"

text \<open>Literals outside ASCII are written as their bytes.\<close>

definition utf8 :: "nat list \<Rightarrow> string" where
  "utf8 = map char_of"

text \<open>
  Slicing is by bytes: \<open>str::is_char_boundary\<close> says where it is allowed, and elsewhere or past the
  end it panics, which is \<open>None\<close> here. \<open>str::find\<close> with a pattern and \<open>trim_matches\<close> with a
  character; \<open>str::lines\<close> drops a carriage return only before a line feed and no empty last line.
\<close>

definition is_continuation :: "char \<Rightarrow> bool" where
  "is_continuation c \<longleftrightarrow> 128 \<le> (of_char c :: nat) \<and> (of_char c :: nat) < 192"

definition is_char_boundary :: "string \<Rightarrow> nat \<Rightarrow> bool" where
  "is_char_boundary s i \<longleftrightarrow> i = 0 \<or> i = length s \<or> (i < length s \<and> \<not> is_continuation (s ! i))"

definition slice_from :: "nat \<Rightarrow> string \<Rightarrow> string option" where
  "slice_from i s = (if i \<le> length s \<and> is_char_boundary s i then Some (drop i s) else None)"

definition slice_to :: "nat \<Rightarrow> string \<Rightarrow> string option" where
  "slice_to i s = (if i \<le> length s \<and> is_char_boundary s i then Some (take i s) else None)"

fun find_str :: "string \<Rightarrow> string \<Rightarrow> nat option" where
  "find_str p [] = (if p = [] then Some 0 else None)"
| "find_str p (c # s) = (if prefix p (c # s) then Some 0 else map_option Suc (find_str p s))"

definition newline :: string where "newline = [CHR 0x0A]"

definition quote_char :: char where "quote_char = CHR 0x22"

definition trim_matches :: "char \<Rightarrow> string \<Rightarrow> string" where
  "trim_matches c s = rev (dropWhile (\<lambda>x. x = c) (rev (dropWhile (\<lambda>x. x = c) s)))"

definition strip_cr :: "string \<Rightarrow> string" where
  "strip_cr s = (if s \<noteq> [] \<and> last s = CHR 0x0D then butlast s else s)"

definition str_lines :: "string \<Rightarrow> string list" where
  "str_lines s = (let ps = split_on (CHR 0x0A) s in map strip_cr (butlast ps) @ (if last ps = [] then [] else [last ps]))"

section \<open>Dictionaries\<close>

text \<open>
  A \<open>HashMap\<close>, \<open>DashMap\<close> or JSON object with string keys is an association list with distinct
  keys: \<open>dict_put\<close> replaces in place or appends (the order an \<open>IndexMap\<close> keeps), and nothing
  relies on the order for the unordered containers.
\<close>

type_synonym 'v dict = "(string \<times> 'v) list"

definition dict_get :: "('k \<times> 'v) list \<Rightarrow> 'k \<Rightarrow> 'v option" where
  "dict_get = map_of"

definition dict_put :: "'k \<Rightarrow> 'v \<Rightarrow> ('k \<times> 'v) list \<Rightarrow> ('k \<times> 'v) list" where
  "dict_put = AList.update"

definition dict_del :: "'k \<Rightarrow> ('k \<times> 'v) list \<Rightarrow> ('k \<times> 'v) list" where
  "dict_del = AList.delete"

definition dict_keys :: "('k \<times> 'v) list \<Rightarrow> 'k list" where
  "dict_keys d = map fst d"

definition dict_ok :: "('k \<times> 'v) list \<Rightarrow> bool" where
  "dict_ok d \<longleftrightarrow> distinct (map fst d)"

text \<open>What the clients of a keyed container rely on.\<close>

locale keyed_store =
  fixes get :: "'d \<Rightarrow> 'k \<Rightarrow> 'v option"
    and put :: "'k \<Rightarrow> 'v \<Rightarrow> 'd \<Rightarrow> 'd"
    and del :: "'k \<Rightarrow> 'd \<Rightarrow> 'd"
    and keys :: "'d \<Rightarrow> 'k list"
    and valid :: "'d \<Rightarrow> bool"
  assumes get_put: "get (put k v d) k' = (if k = k' then Some v else get d k')"
    and get_del: "valid d \<Longrightarrow> get (del k d) k' = (if k = k' then None else get d k')"
    and keys_get: "k \<in> set (keys d) \<longleftrightarrow> get d k \<noteq> None"
    and valid_put: "valid d \<Longrightarrow> valid (put k v d)"
    and valid_del: "valid d \<Longrightarrow> valid (del k d)"
begin

lemma get_put_same: "get (put k v d) k = Some v"
  by (simp add: get_put)

lemma keys_put: "set (keys (put k v d)) = insert k (set (keys d))"
  by (auto simp: keys_get get_put split: if_splits)

lemma keys_del: "valid d \<Longrightarrow> set (keys (del k d)) = set (keys d) - {k}"
  by (auto simp: keys_get get_del split: if_splits)

text \<open>A sequence of writes leaves the last value written to each key.\<close>

lemma get_put_all:
  "get (fold (\<lambda>kv. put (fst kv) (snd kv)) kvs d) k =
     (case map_of (rev kvs) k of None \<Rightarrow> get d k | Some v \<Rightarrow> Some v)"
  by (induction kvs arbitrary: d) (auto simp: get_put map_add_def split: option.splits)

lemma valid_put_all: "valid d \<Longrightarrow> valid (fold (\<lambda>kv. put (fst kv) (snd kv)) kvs d)"
  by (induction kvs arbitrary: d) (auto intro: valid_put)

end

interpretation dict: keyed_store dict_get dict_put dict_del dict_keys dict_ok
  by unfold_locales
    (auto simp: dict_get_def dict_put_def dict_del_def dict_keys_def dict_ok_def update_conv'
      delete_conv' distinct_update distinct_delete map_of_eq_None_iff)

lemmas dict_get_put [simp] = dict.get_put
lemmas dict_keys_put [simp] = dict.keys_put
lemmas dict_ok_intros [simp, intro] = dict.valid_put dict.valid_del

text \<open>Deleting removes every binding of the key, so its law needs no well-formedness here.\<close>

lemma dict_get_del [simp]: "dict_get (dict_del k d) k' = (if k = k' then None else dict_get d k')"
  by (auto simp: dict_get_def dict_del_def delete_conv')

lemma dict_get_Nil [simp]: "dict_get [] k = None"
  by (simp add: dict_get_def)

lemma dict_get_Cons [simp]: "dict_get ((k, v) # d) k' = (if k = k' then Some v else dict_get d k')"
  by (simp add: dict_get_def)

lemma dict_ok_Nil [simp]: "dict_ok []"
  by (simp add: dict_ok_def)

lemma dict_put_Nil [simp]: "dict_put k v [] = [(k, v)]"
  by (simp add: dict_put_def)

lemma dict_put_Cons [simp]:
  "dict_put k v ((k', w) # d) = (if k' = k then (k, v) # d else (k', w) # dict_put k v d)"
  by (simp add: dict_put_def)

lemma dict_del_Nil [simp]: "dict_del k [] = []"
  by (simp add: dict_del_def)

lemma dict_del_Cons [simp]:
  "dict_del k ((k', w) # d) = (if k' = k then dict_del k d else (k', w) # dict_del k d)"
  by (simp add: dict_del_def)

lemma dict_get_mem: "dict_get d k = Some v \<Longrightarrow> (k, v) \<in> set d"
  by (simp add: dict_get_def map_of_SomeD)

lemma dict_mem_get: "dict_ok d \<Longrightarrow> (k, v) \<in> set d \<longleftrightarrow> dict_get d k = Some v"
  by (simp add: dict_get_def dict_ok_def)

lemma dict_get_append [simp]:
  "dict_get (d @ e) k = (case dict_get d k of None \<Rightarrow> dict_get e k | Some v \<Rightarrow> Some v)"
  by (auto simp: dict_get_def map_add_def split: option.splits)

lemma dict_get_filter:
  "dict_ok d \<Longrightarrow> dict_get (filter P d) k = (case dict_get d k of Some v \<Rightarrow> if P (k, v) then Some v else None | None \<Rightarrow> None)"
  by (induction d) (auto simp: dict_ok_def dict_get_def map_of_eq_None_iff image_iff split: option.splits)

lemma dict_ok_filter: "dict_ok d \<Longrightarrow> dict_ok (filter P d)"
  by (simp add: dict_ok_def distinct_map_filter)

text \<open>\<open>contains_key\<close>.\<close>

definition dict_has :: "('k \<times> 'v) list \<Rightarrow> 'k \<Rightarrow> bool" where
  "dict_has d k \<longleftrightarrow> dict_get d k \<noteq> None"

section \<open>Counting over lists\<close>

definition count_if :: "('a \<Rightarrow> bool) \<Rightarrow> 'a list \<Rightarrow> nat" where
  "count_if P xs = length (filter P xs)"

lemma count_if_simps [simp]:
  "count_if P [] = 0"
  "count_if P (x # xs) = (if P x then Suc (count_if P xs) else count_if P xs)"
  "count_if P (xs @ ys) = count_if P xs + count_if P ys"
  by (simp_all add: count_if_def)

lemma count_if_le_length: "count_if P xs \<le> length xs"
  by (simp add: count_if_def)

lemma count_if_zero_iff: "count_if P xs = 0 \<longleftrightarrow> (\<forall>x\<in>set xs. \<not> P x)"
  by (simp add: count_if_def filter_empty_conv)

text \<open>What one update at an index does to the count.\<close>

lemma count_if_update:
  assumes "i < length xs"
  shows "count_if P (xs[i := v]) + (if P (xs ! i) then 1 else 0)
       = count_if P xs + (if P v then 1 else 0)"
  using assms
proof (induction xs arbitrary: i)
  case Nil
  then show ?case by simp
next
  case (Cons x xs)
  then show ?case
    by (cases i) auto
qed

lemma count_if_update_up:
  "\<lbrakk>i < length xs; \<not> P (xs ! i); P v\<rbrakk> \<Longrightarrow> count_if P (xs[i := v]) = Suc (count_if P xs)"
  using count_if_update [of i xs P v] by simp

lemma count_if_update_down:
  "\<lbrakk>i < length xs; P (xs ! i); \<not> P v\<rbrakk> \<Longrightarrow> Suc (count_if P (xs[i := v])) = count_if P xs"
  using count_if_update [of i xs P v] by simp

lemma count_if_update_same:
  "\<lbrakk>i < length xs; P (xs ! i) = P v\<rbrakk> \<Longrightarrow> count_if P (xs[i := v]) = count_if P xs"
  using count_if_update [of i xs P v] by (auto split: if_splits)

section \<open>Machine words below their bound\<close>

lemma unat_small: "n < 4294967296 \<Longrightarrow> unat (word_of_nat n :: 32 word) = n"
  by (simp add: unat_of_nat)

lemma word_less_small:
  "n < 4294967296 \<Longrightarrow> (w < (word_of_nat n :: 32 word)) = (unat w < n)"
  by (simp add: word_less_nat_alt unat_small)

lemma word_le_small:
  "n < 4294967296 \<Longrightarrow> (w \<le> (word_of_nat n :: 32 word)) = (unat w \<le> n)"
  by (simp add: word_le_nat_alt unat_small)

section \<open>Executions and invariants\<close>

text \<open>\<open>exec step s es s'\<close>: the labelled steps \<open>es\<close> lead from \<open>s\<close> to \<open>s'\<close>.\<close>

inductive exec :: "('s \<Rightarrow> 'e \<Rightarrow> 's \<Rightarrow> bool) \<Rightarrow> 's \<Rightarrow> 'e list \<Rightarrow> 's \<Rightarrow> bool"
  for step where
  exec_nil [intro!]: "exec step s [] s"
| exec_cons: "\<lbrakk>step s e s'; exec step s' es s''\<rbrakk> \<Longrightarrow> exec step s (e # es) s''"

inductive_simps exec_Nil: "exec step s [] s'"
inductive_simps exec_Cons: "exec step s (e # es) s'"

lemmas exec_simps = exec_Nil exec_Cons

inductive_cases exec_NilE [elim!]: "exec step s [] s'"
inductive_cases exec_ConsE [elim]: "exec step s (e # es) s'"

lemma exec_append:
  "\<lbrakk>exec step s es s'; exec step s' fs s''\<rbrakk> \<Longrightarrow> exec step s (es @ fs) s''"
  by (induction rule: exec.induct) (auto intro: exec_cons)

text \<open>
  The contract of a machine with an invariant: initial states have it and steps keep it. The
  components with interleaved or repeated operations interpret it with their own step relation.
\<close>

locale invariant_machine =
  fixes initial :: "'s \<Rightarrow> bool"
    and step :: "'s \<Rightarrow> 'e \<Rightarrow> 's \<Rightarrow> bool"
    and inv :: "'s \<Rightarrow> bool"
  assumes initial_inv: "initial s \<Longrightarrow> inv s"
    and step_inv: "\<lbrakk>inv s; step s e s'\<rbrakk> \<Longrightarrow> inv s'"
begin

lemma exec_inv: "\<lbrakk>exec step s es s'; inv s\<rbrakk> \<Longrightarrow> inv s'"
  by (induction rule: exec.induct) (auto intro: step_inv)

lemma reachable_inv: "\<lbrakk>initial s; exec step s es s'\<rbrakk> \<Longrightarrow> inv s'"
  by (rule exec_inv [OF _ initial_inv])

end

text \<open>The same contract for total operations applied one after the other.\<close>

locale operation_machine =
  fixes start :: "'s"
    and apply_op :: "'op \<Rightarrow> 's \<Rightarrow> 's"
    and ok :: "'s \<Rightarrow> bool"
  assumes start_ok: "ok start"
    and apply_ok: "ok s \<Longrightarrow> ok (apply_op op s)"

sublocale operation_machine \<subseteq> invariant_machine "\<lambda>s. s = start" "\<lambda>s e s'. s' = apply_op e s" ok
  by unfold_locales (auto intro: start_ok apply_ok)

context operation_machine begin

lemma fold_ok: "ok s \<Longrightarrow> ok (fold apply_op ops s)"
  by (induction ops arbitrary: s) (auto intro: apply_ok)

lemma run_ok: "ok (fold apply_op ops start)"
  by (rule fold_ok [OF start_ok])

end

end
