(* ===== verification/Json.thy ===== *)
theory Json
  imports Prelude
begin

text \<open>
  JSON values as \<open>serde_json::Value\<close> has them: integers within the \<open>i64\<close>/\<open>u64\<close> ranges, other
  numbers as the bits of an \<open>f64\<close>, and objects as insertion-ordered maps (the crate is built with
  \<open>preserve_order\<close>). The accessors are those the sources call.
\<close>

datatype json =
    JNull
  | JBool bool
  | JInt int
  | JFloat "64 word"
  | JStr string
  | JArr "json list"
  | JObj "(string \<times> json) list"

fun as_str :: "json \<Rightarrow> string option" where
  "as_str (JStr s) = Some s"
| "as_str _ = None"

fun as_array :: "json \<Rightarrow> json list option" where
  "as_array (JArr xs) = Some xs"
| "as_array _ = None"

fun as_object :: "json \<Rightarrow> (string \<times> json) list option" where
  "as_object (JObj m) = Some m"
| "as_object _ = None"

fun is_object :: "json \<Rightarrow> bool" where
  "is_object (JObj m) = True"
| "is_object _ = False"

fun as_bool :: "json \<Rightarrow> bool option" where
  "as_bool (JBool b) = Some b"
| "as_bool _ = None"

definition i64_min :: int where "i64_min = - 9223372036854775808"
definition i64_max :: int where "i64_max = 9223372036854775807"
definition u64_max :: int where "u64_max = 18446744073709551615"

fun as_i64 :: "json \<Rightarrow> int option" where
  "as_i64 (JInt n) = (if i64_min \<le> n \<and> n \<le> i64_max then Some n else None)"
| "as_i64 _ = None"

fun as_u64 :: "json \<Rightarrow> int option" where
  "as_u64 (JInt n) = (if 0 \<le> n \<and> n \<le> u64_max then Some n else None)"
| "as_u64 _ = None"

lemma as_array_Some: "as_array v = Some xs \<longleftrightarrow> v = JArr xs"
  by (cases v) auto

lemma as_str_Some: "as_str v = Some t \<longleftrightarrow> v = JStr t"
  by (cases v) auto

text \<open>\<open>value.get(key)\<close> on an object, \<open>None\<close> on anything else.\<close>

definition jget :: "json \<Rightarrow> string \<Rightarrow> json option" where
  "jget j k = (case j of JObj m \<Rightarrow> dict_get m k | _ \<Rightarrow> None)"

lemma jget_simps [simp]:
  "jget (JObj m) k = dict_get m k" "jget JNull k = None" "jget (JBool b) k = None"
  "jget (JInt n) k = None" "jget (JFloat f) k = None" "jget (JStr s) k = None" "jget (JArr xs) k = None"
  by (simp_all add: jget_def)

text \<open>The strings among array elements, as \<open>filter_map(as_str)\<close> collects them.\<close>

definition str_elems :: "json list \<Rightarrow> string list" where
  "str_elems xs = List.map_filter as_str xs"

lemma str_elems_simps [simp]:
  "str_elems [] = []"
  "str_elems (x # xs) = (case as_str x of Some s \<Rightarrow> s # str_elems xs | None \<Rightarrow> str_elems xs)"
  by (simp_all add: str_elems_def map_filter_simps split: option.splits)

lemma str_elems_JStr [simp]: "str_elems (map JStr ss) = ss"
  by (induction ss) simp_all

text \<open>\<open>from_value::<Vec<String>>\<close>: every element must be a string.\<close>

fun all_strs :: "json list \<Rightarrow> string list option" where
  "all_strs [] = Some []"
| "all_strs (JStr s # xs) = map_option (Cons s) (all_strs xs)"
| "all_strs (_ # xs) = None"

lemma all_strs_JStr [simp]: "all_strs (map JStr ss) = Some ss"
  by (induction ss) simp_all

text \<open>The well-formed values: object keys are distinct at every level, integers fit.\<close>

fun json_ok :: "json \<Rightarrow> bool" where
  "json_ok (JInt n) \<longleftrightarrow> i64_min \<le> n \<and> n \<le> u64_max"
| "json_ok (JArr xs) \<longleftrightarrow> (\<forall>x\<in>set xs. json_ok x)"
| "json_ok (JObj m) \<longleftrightarrow> dict_ok m \<and> (\<forall>kv\<in>set m. json_ok (snd kv))"
| "json_ok _ \<longleftrightarrow> True"

text \<open>Induction over a value with the children of arrays and objects at hand.\<close>

lemma json_induct [case_names null bool int float str arr obj]:
  assumes "P JNull" "\<And>b. P (JBool b)" "\<And>n. P (JInt n)" "\<And>f. P (JFloat f)" "\<And>s. P (JStr s)"
    and "\<And>xs. (\<And>x. x \<in> set xs \<Longrightarrow> P x) \<Longrightarrow> P (JArr xs)"
    and "\<And>m. (\<And>k v. (k, v) \<in> set m \<Longrightarrow> P v) \<Longrightarrow> P (JObj m)"
  shows "P j"
proof (induction j)
  case (JObj m)
  then have "P v" if "(k, v) \<in> set m" for k v
    using that by (metis snds.intros snd_conv)
  then show ?case by (rule assms(7))
qed (use assms in auto)

lemma size_arr_elem [simp]: "x \<in> set xs \<Longrightarrow> size x < size (JArr xs)"
  by (induction xs) auto

lemma size_obj_elem [simp]: "(k, v) \<in> set m \<Longrightarrow> size v < size (JObj m)"
  by (induction m) auto

end
