(* ===== verification/Channel.thy ===== *)
theory Channel
  imports Json
begin

text \<open>
  \<open>src/channel/mod.rs\<close>: channel types with their display names and length limits, the channel key,
  and the inbound message. Attachments and the delivery traits of the platforms are not modelled.
\<close>

datatype channel_type = Telegram | Slack | Discord | Whatsapp | Matrix | Signal | Imessage | Webhook

fun max_message_length :: "channel_type \<Rightarrow> nat" where
  "max_message_length Telegram = 4096"
| "max_message_length Slack = 4000"
| "max_message_length Discord = 2000"
| "max_message_length Whatsapp = 4096"
| "max_message_length Matrix = 65536"
| "max_message_length Signal = 6000"
| "max_message_length Imessage = 20000"
| "max_message_length Webhook = 65536"

fun show_channel :: "channel_type \<Rightarrow> string" where
  "show_channel Telegram = ''telegram''"
| "show_channel Slack = ''slack''"
| "show_channel Discord = ''discord''"
| "show_channel Whatsapp = ''whatsapp''"
| "show_channel Matrix = ''matrix''"
| "show_channel Signal = ''signal''"
| "show_channel Imessage = ''imessage''"
| "show_channel Webhook = ''webhook''"

record channel_key =
  ck_channel_type :: channel_type
  ck_account_id :: string

definition show_channel_key :: "channel_key \<Rightarrow> string" where
  "show_channel_key k = show_channel (ck_channel_type k) @ '':'' @ ck_account_id k"

datatype message_source = FromChannel | FromWebhook string | FromCron string

record inbound_message =
  im_channel_type :: channel_type
  im_account_id :: string
  im_sender_id :: string
  im_sender_name :: "string option"
  im_text :: string
  im_is_group :: bool
  im_group_id :: "string option"
  im_is_mention :: bool
  im_platform_message_id :: string
  im_metadata :: "json dict"
  im_source :: message_source
  im_timestamp :: int

definition plain_message :: "channel_type \<Rightarrow> string \<Rightarrow> string \<Rightarrow> inbound_message" where
  "plain_message ch sender txt =
     \<lparr>im_channel_type = ch, im_account_id = ''default'', im_sender_id = sender, im_sender_name = None,
      im_text = txt, im_is_group = False, im_group_id = None, im_is_mention = False,
      im_platform_message_id = [], im_metadata = [], im_source = FromChannel, im_timestamp = 0\<rparr>"

lemma show_channel_no_colon: "CHR '':'' \<notin> set (show_channel c)"
  by (cases c) simp_all

lemma show_channel_inj [simp]: "show_channel c = show_channel d \<longleftrightarrow> c = d"
  by (cases c; cases d) simp_all

lemma colon_split:
  assumes "CHR '':'' \<notin> set a" "CHR '':'' \<notin> set b" "a @ CHR '':'' # x = b @ CHR '':'' # y"
  shows "a = b \<and> x = y"
proof -
  have "Some (a, x) = Some (b, y)"
    using split_once_append [OF assms(1), of x] split_once_append [OF assms(2), of y] assms(3)
    by (simp only:)
  then show ?thesis by blast
qed

text \<open>The displayed form of a channel with a suffix determines both.\<close>

lemma show_channel_colon_inj:
  "show_channel c @ CHR '':'' # x = show_channel d @ CHR '':'' # y \<longleftrightarrow> c = d \<and> x = y"
  using colon_split [OF show_channel_no_colon show_channel_no_colon, of c x d y] by (metis show_channel_inj)

lemma show_channel_key_inj: "show_channel_key k = show_channel_key l \<longleftrightarrow> k = l"
  by (cases k; cases l) (simp add: show_channel_key_def show_channel_colon_inj)

end
