(* ===== verification/SessionBridge.thy ===== *)
theory SessionBridge
  imports Channel
begin

text \<open>
  \<open>src/session_bridge.rs\<close>, the bridge: which session an inbound message belongs to, and when a
  session is replaced by a new one. Times are UTC nanoseconds of the epoch; each call reads the clock
  once; the v4 UUID of a new session is an argument.
\<close>

section \<open>Configuration\<close>

datatype session_backend = InMemory | Sqlite | Postgres | Redis | Firestore

record session_reset_config =
  sr_mode :: string
  sr_at_hour :: "8 word option"
  sr_idle_minutes :: "64 word option"

record session_config =
  sn_dm_scope :: string
  sn_reset :: session_reset_config
  sn_backend :: session_backend
  sn_connection_string :: "string option"

definition default_session_reset :: session_reset_config where
  "default_session_reset = \<lparr>sr_mode = ''daily'', sr_at_hour = Some 4, sr_idle_minutes = Some 120\<rparr>"

definition default_session_config :: session_config where
  "default_session_config = \<lparr>sn_dm_scope = ''per-channel-peer'', sn_reset = default_session_reset,
     sn_backend = InMemory, sn_connection_string = None\<rparr>"

section \<open>The calendar\<close>

text \<open>\<open>date_naive\<close>, \<open>time().hour()\<close> and \<open>num_minutes\<close>, which truncates towards zero.\<close>

definition date_naive :: "int \<Rightarrow> int" where
  "date_naive t = t div 86400000000000"

definition hour_of :: "int \<Rightarrow> int" where
  "hour_of t = (t div 3600000000000) mod 24"

definition num_minutes :: "int \<Rightarrow> int" where
  "num_minutes d = (if d < 0 then - ((- d) div 60000000000) else d div 60000000000)"

section \<open>Sessions\<close>

record session_info =
  si_session_id :: string
  si_user_id :: string
  si_last_activity :: int
  si_channel_type :: channel_type

record session_bridge =
  sb_config :: session_config
  sb_sessions :: "session_info dict"
  sb_app_name :: string

definition sb_new :: "session_config \<Rightarrow> string \<Rightarrow> session_bridge" where
  "sb_new cfg app = \<lparr>sb_config = cfg, sb_sessions = [], sb_app_name = app\<rparr>"

definition channel_peer :: "inbound_message \<Rightarrow> string" where
  "channel_peer m = show_channel (im_channel_type m) @ '':'' @ im_sender_id m"

definition session_key :: "session_config \<Rightarrow> inbound_message \<Rightarrow> string" where
  "session_key cfg m =
     (if sn_dm_scope cfg = ''main'' then ''main''
      else if sn_dm_scope cfg = ''per-peer'' then im_sender_id m
      else if sn_dm_scope cfg = ''per-channel-peer'' then channel_peer m
      else if sn_dm_scope cfg = ''per-account-channel-peer''
        then (if im_account_id m = [] then ''default'' else im_account_id m) @ '':'' @ channel_peer m
      else channel_peer m)"

definition create_session :: "string \<Rightarrow> int \<Rightarrow> string \<Rightarrow> inbound_message \<Rightarrow> session_bridge \<Rightarrow> session_bridge \<times> (string \<times> string)" where
  "create_session uuid now key m b =
     (let sid = ''gw-'' @ uuid; uid = channel_peer m
      in (b\<lparr>sb_sessions := dict_put key \<lparr>si_session_id = sid, si_user_id = uid, si_last_activity = now,
             si_channel_type = im_channel_type m\<rparr> (sb_sessions b)\<rparr>, (uid, sid)))"

definition should_reset :: "session_reset_config \<Rightarrow> int \<Rightarrow> session_info \<Rightarrow> bool" where
  "should_reset c now info =
     (if sr_mode c = ''daily''
      then date_naive now > date_naive (si_last_activity info)
        \<and> hour_of now \<ge> uint (case sr_at_hour c of Some h \<Rightarrow> h | None \<Rightarrow> 4)
      else if sr_mode c = ''idle''
      then (case sr_idle_minutes c of Some mins \<Rightarrow> num_minutes (now - si_last_activity info) > sint mins | None \<Rightarrow> False)
      else False)"

definition resolve_session :: "string \<Rightarrow> int \<Rightarrow> inbound_message \<Rightarrow> session_bridge \<Rightarrow> session_bridge \<times> (string \<times> string)" where
  "resolve_session uuid now m b =
     (let key = session_key (sb_config b) m in
      case dict_get (sb_sessions b) key of
        None \<Rightarrow> create_session uuid now key m b
      | Some info \<Rightarrow>
          (if should_reset (sn_reset (sb_config b)) now info then create_session uuid now key m b
           else (b\<lparr>sb_sessions := dict_put key (info\<lparr>si_last_activity := now\<rparr>) (sb_sessions b)\<rparr>,
                 (si_user_id info, si_session_id info))))"

definition active_sessions :: "session_bridge \<Rightarrow> session_info list" where
  "active_sessions b = map snd (sb_sessions b)"

definition get_last_activity :: "inbound_message \<Rightarrow> session_bridge \<Rightarrow> int option" where
  "get_last_activity m b = map_option si_last_activity (dict_get (sb_sessions b) (session_key (sb_config b) m))"

section \<open>A run of messages\<close>

text \<open>Every message with the UUID that is drawn and the time at which it arrives.\<close>

type_synonym arrival = "string \<times> int \<times> inbound_message"

fun resolve_all :: "arrival list \<Rightarrow> session_bridge \<Rightarrow> session_bridge \<times> (string \<times> string) list" where
  "resolve_all [] b = (b, [])"
| "resolve_all ((u, t, m) # as) b =
     (case resolve_session u t m b of (b1, r) \<Rightarrow> (case resolve_all as b1 of (b2, rs) \<Rightarrow> (b2, r # rs)))"

abbreviation uuid_of :: "arrival \<Rightarrow> string" where "uuid_of a \<equiv> fst a"
abbreviation message_of :: "arrival \<Rightarrow> inbound_message" where "message_of a \<equiv> snd (snd a)"

lemma resolve_config [simp]: "sb_config (fst (resolve_session u t m b)) = sb_config b"
  by (simp add: resolve_session_def create_session_def Let_def split: option.split)

text \<open>Which earlier arrival a session comes from.\<close>

definition born_of :: "session_config \<Rightarrow> string \<Rightarrow> string \<times> string \<Rightarrow> arrival \<Rightarrow> bool" where
  "born_of cfg key r a \<longleftrightarrow> session_key cfg (message_of a) = key \<and> r = (channel_peer (message_of a), ''gw-'' @ uuid_of a)"

definition sessions_from :: "session_config \<Rightarrow> arrival list \<Rightarrow> session_info dict \<Rightarrow> bool" where
  "sessions_from cfg past d \<longleftrightarrow>
     (\<forall>k info. dict_get d k = Some info \<longrightarrow> (\<exists>a\<in>set past. born_of cfg k (si_user_id info, si_session_id info) a))"

lemma sessions_from_Nil [simp]: "sessions_from cfg past []"
  by (simp add: sessions_from_def)

lemma sessions_from_put:
  "\<lbrakk>sessions_from cfg past d; born_of cfg k (si_user_id info, si_session_id info) a; a \<in> insert x (set past)\<rbrakk> \<Longrightarrow>
     sessions_from cfg (past @ [x]) (dict_put k info d)"
  unfolding sessions_from_def by (auto simp del: bex_simps split: if_splits)

lemma resolve_from:
  assumes inv: "sessions_from (sb_config b) past (sb_sessions b)" and step: "resolve_session u t m b = (b', r)"
  shows "sessions_from (sb_config b) (past @ [(u, t, m)]) (sb_sessions b')
    \<and> (\<exists>a\<in>set (past @ [(u, t, m)]). born_of (sb_config b) (session_key (sb_config b) m) r a)"
proof -
  let ?k = "session_key (sb_config b) m"
  have new: ?thesis if "create_session u t ?k m b = (b', r)"
  proof -
    have "born_of (sb_config b) ?k r (u, t, m)" using that by (auto simp: create_session_def Let_def born_of_def)
    then show ?thesis
      using that sessions_from_put [OF inv, of ?k _ "(u, t, m)" "(u, t, m)"]
      by (auto simp: create_session_def Let_def born_of_def)
  qed
  show ?thesis
  proof (cases "dict_get (sb_sessions b) ?k")
    case None
    then show ?thesis using new step by (simp add: resolve_session_def Let_def)
  next
    case (Some info)
    then obtain a where a: "a \<in> set past" "born_of (sb_config b) ?k (si_user_id info, si_session_id info) a"
      using inv unfolding sessions_from_def by blast
    show ?thesis
    proof (cases "should_reset (sn_reset (sb_config b)) t info")
      case True
      then show ?thesis using new step Some by (simp add: resolve_session_def Let_def)
    next
      case False
      then have "b' = b\<lparr>sb_sessions := dict_put ?k (info\<lparr>si_last_activity := t\<rparr>) (sb_sessions b)\<rparr>"
        and "r = (si_user_id info, si_session_id info)"
        using step Some by (auto simp: resolve_session_def Let_def)
      then show ?thesis
        using a sessions_from_put [OF inv, of ?k "info\<lparr>si_last_activity := t\<rparr>" a "(u, t, m)"] by auto
    qed
  qed
qed

lemma resolve_all_from:
  "\<lbrakk>sessions_from cfg past (sb_sessions b); sb_config b = cfg; resolve_all as b = (b', rs)\<rbrakk> \<Longrightarrow>
     list_all2 (\<lambda>x r. \<exists>a\<in>set (past @ as). born_of cfg (session_key cfg (message_of x)) r a) as rs"
proof (induction as arbitrary: past b b' rs)
  case (Cons x as)
  obtain u t m where x: "x = (u, t, m)" by (metis prod.exhaust)
  obtain b1 r where 1: "resolve_session u t m b = (b1, r)" by (metis prod.exhaust)
  obtain rs' where 2: "resolve_all as b1 = (b', rs')" "rs = r # rs'"
    using Cons.prems(3) 1 x by (auto split: prod.splits)
  have "sb_config b1 = cfg" using resolve_config [of u t m b] 1 Cons.prems(2) by simp
  moreover note resolve_from [OF _ 1, of past] Cons.prems(1, 2)
  ultimately have "list_all2 (\<lambda>y r. \<exists>a\<in>set ((past @ [x]) @ as). born_of cfg (session_key cfg (message_of y)) r a) as rs'"
    and "\<exists>a\<in>set (past @ [x]). born_of cfg (session_key cfg m) r a"
    using Cons.IH [of "past @ [x]" b1 b' rs'] 2(1) x by auto
  then show ?case using 2(2) x by (auto simp del: bex_simps)
qed simp

lemma channel_peer_inj:
  "channel_peer m = channel_peer m' \<longleftrightarrow> im_channel_type m = im_channel_type m' \<and> im_sender_id m = im_sender_id m'"
  using show_channel_colon_inj by (auto simp: channel_peer_def)

text \<open>
  C21. Under the default scope nobody sees the session of somebody else: two messages of any run are in
  the same session only if they come from the same sender on the same channel, whatever resets happen in
  between, as long as no UUID is drawn twice; and the user of the session that a message gets is its own sender,
  named by channel and identifier.
\<close>

theorem senders_have_own_sessions:
  assumes "sn_dm_scope (sb_config b) = ''per-channel-peer''" and "sb_sessions b = []"
    and "distinct (map uuid_of as)" and "resolve_all as b = (b', rs)"
    and "i < length as" and "j < length as"
  shows "fst (rs ! i) = show_channel (im_channel_type (message_of (as ! i))) @ '':'' @ im_sender_id (message_of (as ! i))
    \<and> (snd (rs ! i) = snd (rs ! j) \<longrightarrow>
         im_channel_type (message_of (as ! i)) = im_channel_type (message_of (as ! j))
         \<and> im_sender_id (message_of (as ! i)) = im_sender_id (message_of (as ! j)))"
proof -
  let ?key = "\<lambda>n. session_key (sb_config b) (message_of (as ! n))"
  have all: "list_all2 (\<lambda>x r. \<exists>a\<in>set as. born_of (sb_config b) (session_key (sb_config b) (message_of x)) r a) as rs"
    using resolve_all_from [of "sb_config b" "[]" b as b' rs] assms(2, 4) by simp
  obtain a where a: "a \<in> set as" "born_of (sb_config b) (?key i) (rs ! i) a"
    using list_all2_nthD [OF all assms(5)] by blast
  obtain c where c: "c \<in> set as" "born_of (sb_config b) (?key j) (rs ! j) c"
    using list_all2_nthD [OF all assms(6)] by blast
  have user: "fst (rs ! i) = channel_peer (message_of (as ! i))"
    using a assms(1) by (simp add: born_of_def session_key_def)
  have "?key i = ?key j" if "snd (rs ! i) = snd (rs ! j)"
  proof -
    have "uuid_of a = uuid_of c" using a c that by (simp add: born_of_def)
    then have "a = c" using a(1) c(1) assms(3) by (metis distinct_map inj_on_def)
    then show ?thesis using a c by (simp add: born_of_def)
  qed
  then show ?thesis using assms(1) user by (simp add: session_key_def channel_peer_inj) (simp add: channel_peer_def)
qed

theorem senders_have_own_sessions_witness:
  "let as = [(''1'', 0, plain_message Telegram ''ann'' ''hi''), (''2'', 1, plain_message Slack ''ann'' ''hi''),
         (''3'', 2, plain_message Telegram ''ann'' ''again'')];
       rs = snd (resolve_all as (sb_new default_session_config ''gateway''))
   in snd (rs ! 0) = snd (rs ! 2) \<and> snd (rs ! 0) \<noteq> snd (rs ! 1)
     \<and> fst (rs ! 0) = ''telegram:ann'' \<and> im_channel_type (message_of (as ! 0)) = im_channel_type (message_of (as ! 2))"
proof -
  define as where "as = [(''1'', 0, plain_message Telegram ''ann'' ''hi''), (''2'', 1, plain_message Slack ''ann'' ''hi''),
    (''3'', 2 :: int, plain_message Telegram ''ann'' ''again'')]"
  obtain b' rs where q: "resolve_all as (sb_new default_session_config ''gateway'') = (b', rs)" by fastforce
  then have rs: "rs = [(''telegram:ann'', ''gw-1''), (''slack:ann'', ''gw-2''), (''telegram:ann'', ''gw-1'')]"
    by (simp add: as_def sb_new_def default_session_config_def default_session_reset_def resolve_session_def
        create_session_def session_key_def channel_peer_def plain_message_def should_reset_def date_naive_def Let_def)
  have "distinct (map uuid_of as)" by (simp add: as_def)
  then have "fst (rs ! 0) = show_channel (im_channel_type (message_of (as ! 0))) @ '':'' @ im_sender_id (message_of (as ! 0))
      \<and> im_channel_type (message_of (as ! 0)) = im_channel_type (message_of (as ! 2))"
    using senders_have_own_sessions [OF _ _ _ q, of 0 2] by (simp add: sb_new_def default_session_config_def as_def rs)
  then show ?thesis
    unfolding Let_def as_def [symmetric] q rs by (simp add: as_def)
qed

section \<open>Resets\<close>

text \<open>
  When the next message of a session starts a new one. In idle mode that is when a whole minute more
  than the configured minutes went by; in daily mode when a later UTC day has reached the hour.
\<close>

theorem reset_exact:
  assumes "dict_get (sb_sessions b) (session_key (sb_config b) m) = Some info"
    and "''gw-'' @ uuid \<noteq> si_session_id info" and "c = sn_reset (sb_config b)" and "si_last_activity info \<le> now"
  shows "snd (snd (resolve_session uuid now m b)) = si_session_id info \<longleftrightarrow>
      (case sr_idle_minutes c of Some mins \<Rightarrow> sr_mode c = ''idle'' \<longrightarrow> now - si_last_activity info < (sint mins + 1) * 60000000000
       | None \<Rightarrow> True)
    \<and> (sr_mode c = ''daily'' \<longrightarrow> date_naive now = date_naive (si_last_activity info)
         \<or> hour_of now < uint (case sr_at_hour c of Some h \<Rightarrow> h | None \<Rightarrow> 4))"
proof -
  let ?l = "si_last_activity info"
  have day: "date_naive ?l < date_naive now \<longleftrightarrow> date_naive now \<noteq> date_naive ?l"
    using assms(4) zdiv_mono1 [of ?l now 86400000000000] by (auto simp: date_naive_def)
  have mins: "k < num_minutes (now - ?l) \<longleftrightarrow> \<not> now - ?l < (k + 1) * 60000000000" for k
  proof -
    have whole: "k < q \<longleftrightarrow> \<not> 60000000000 * q + r < (k + 1) * 60000000000" if "0 \<le> r" "r < 60000000000" for q r :: int
      using that by auto
    have "k < d div 60000000000 \<longleftrightarrow> \<not> d < (k + 1) * 60000000000" for d
      using whole [of "d mod 60000000000" "d div 60000000000"] by simp
    then show ?thesis using assms(4) by (simp only: num_minutes_def) simp
  qed
  have "snd (snd (resolve_session uuid now m b)) = si_session_id info \<longleftrightarrow> \<not> should_reset c now info"
    using assms(1-3) by (simp add: resolve_session_def create_session_def Let_def)
  also have "should_reset c now info \<longleftrightarrow>
      (if sr_mode c = ''daily'' then date_naive now \<noteq> date_naive ?l \<and> \<not> hour_of now < uint (case sr_at_hour c of Some h \<Rightarrow> h | None \<Rightarrow> 4)
       else sr_mode c = ''idle'' \<and> (case sr_idle_minutes c of Some mins \<Rightarrow> \<not> now - ?l < (sint mins + 1) * 60000000000 | None \<Rightarrow> False))"
    unfolding should_reset_def day mins not_less by (rule refl | simp)+
  finally show ?thesis
    by (cases "sr_idle_minutes c"; cases "sr_mode c = ''daily''"; cases "sr_mode c = ''idle''") simp_all
qed

theorem reset_exact_witness:
  "let b = fst (resolve_session ''1'' 0 (plain_message Telegram ''ann'' ''hi'') (sb_new default_session_config ''gateway''))
   in snd (snd (resolve_session ''2'' (29 * 3600000000000) (plain_message Telegram ''ann'' ''hi'') b)) \<noteq> ''gw-1''"
proof -
  define b where "b = fst (resolve_session ''1'' 0 (plain_message Telegram ''ann'' ''hi'') (sb_new default_session_config ''gateway''))"
  define info where "info = \<lparr>si_session_id = ''gw-1'', si_user_id = ''telegram:ann'', si_last_activity = 0, si_channel_type = Telegram\<rparr>"
  have "dict_get (sb_sessions b) (session_key (sb_config b) (plain_message Telegram ''ann'' ''hi'')) = Some info"
    by (simp add: b_def info_def sb_new_def default_session_config_def resolve_session_def create_session_def session_key_def
        channel_peer_def plain_message_def Let_def)
  from reset_exact [OF this _ refl, of "''2''" "29 * 3600000000000"] show ?thesis
    unfolding Let_def b_def [symmetric]
    by (simp add: info_def date_naive_def hour_of_def)
      (simp add: b_def sb_new_def default_session_config_def default_session_reset_def)
qed

text \<open>Messages of one key, in order of time, none of which meets the reset condition on its own.\<close>

fun night_owl :: "int \<Rightarrow> int \<Rightarrow> int list \<Rightarrow> bool" where
  "night_owl h l [] = True"
| "night_owl h l (t # ts) = ((date_naive t = date_naive l \<or> hour_of t < h) \<and> l \<le> t \<and> night_owl h t ts)"

lemma night_owl_kept:
  assumes "sr_mode (sn_reset (sb_config b)) = ''daily''"
    and "dict_get (sb_sessions b) (session_key (sb_config b) m) = Some info"
    and "night_owl (uint (case sr_at_hour (sn_reset (sb_config b)) of Some h \<Rightarrow> h | None \<Rightarrow> 4)) (si_last_activity info) (map fst ts)"
  shows "list_all (\<lambda>r. snd r = si_session_id info) (snd (resolve_all (map (\<lambda>(t, u). (u, t, m)) ts) b))"
  using assms
proof (induction ts arbitrary: b info)
  case (Cons x ts)
  obtain t u where x: "x = (t, u)" by fastforce
  let ?info = "info\<lparr>si_last_activity := t\<rparr>" and ?k = "session_key (sb_config b) m"
  have "\<not> should_reset (sn_reset (sb_config b)) t info"
    using Cons.prems x by (auto simp: should_reset_def split: option.splits)
  then have "resolve_session u t m b = (b\<lparr>sb_sessions := dict_put ?k ?info (sb_sessions b)\<rparr>, (si_user_id info, si_session_id info))"
    using Cons.prems(2) by (simp add: resolve_session_def Let_def)
  then show ?case
    using Cons.IH [of "b\<lparr>sb_sessions := dict_put ?k ?info (sb_sessions b)\<rparr>" ?info] Cons.prems x
    by (auto split: prod.split)
qed simp

text \<open>
  The daily reset can be put off for ever: a sender whose messages come either on the day of the one
  before or earlier in the day than the hour stays in one session, though the hour passes every day.
\<close>

theorem night_messages_prevent_reset:
  assumes "sr_mode (sn_reset cfg) = ''daily''" and "sr_at_hour (sn_reset cfg) = Some h"
    and "night_owl (uint h) t0 (map fst ts)"
  shows "list_all (\<lambda>r. snd r = ''gw-'' @ uuid)
    (snd (resolve_all ((uuid, t0, m) # map (\<lambda>(t, u). (u, t, m)) ts) (sb_new cfg app)))"
proof -
  let ?b = "fst (resolve_session uuid t0 m (sb_new cfg app))"
  have "list_all (\<lambda>r. snd r = ''gw-'' @ uuid) (snd (resolve_all (map (\<lambda>(t, u). (u, t, m)) ts) ?b))"
    using night_owl_kept [of ?b m "\<lparr>si_session_id = ''gw-'' @ uuid, si_user_id = channel_peer m, si_last_activity = t0,
        si_channel_type = im_channel_type m\<rparr>" ts] assms
    by (simp add: resolve_session_def create_session_def sb_new_def Let_def)
  then show ?thesis
    by (auto simp: resolve_session_def create_session_def sb_new_def Let_def split: prod.split)
qed

theorem night_messages_prevent_reset_witness:
  "let h = 3600000000000
   in map snd (snd (resolve_all [(''1'', 1 * h, plain_message Telegram ''ann'' ''hi''), (''2'', 5 * h, plain_message Telegram ''ann'' ''hi''),
        (''3'', 25 * h, plain_message Telegram ''ann'' ''hi''), (''4'', 29 * h, plain_message Telegram ''ann'' ''hi'')]
      (sb_new default_session_config ''gateway''))) = [''gw-1'', ''gw-1'', ''gw-1'', ''gw-1'']"
proof -
  have "list_all (\<lambda>r. snd r = ''gw-'' @ ''1'') (snd (resolve_all ((''1'', 3600000000000, plain_message Telegram ''ann'' ''hi'')
      # map (\<lambda>(t, u). (u, t, plain_message Telegram ''ann'' ''hi'')) [(18000000000000, ''2''), (90000000000000, ''3''), (104400000000000, ''4'')])
      (sb_new default_session_config ''gateway'')))"
    by (rule night_messages_prevent_reset [where h = 4])
      (simp_all add: default_session_config_def default_session_reset_def date_naive_def hour_of_def)
  then show ?thesis
    by (auto simp: Let_def list_all_iff split: prod.splits)
qed

end
