(* ===== verification/SessionStores.thy ===== *)
theory SessionStores
  imports SessionBridge
begin

text \<open>
  \<open>src/session_bridge.rs\<close>, the SQLite and Postgres session services, their common interface, and the
  choice of a backend. The databases do what their statements say and do not fail; the text that a
  database adds to an error is left out. JSON text that SQLite stores is read back unchanged; what a
  JSONB column of Postgres makes of a state, or that it refuses it, is a parameter.
\<close>

section \<open>Sessions and requests\<close>

type_synonym session_name = "string \<times> string \<times> string"

record 'p session_event =
  ev_id :: string
  ev_timestamp :: int
  ev_invocation_id :: string
  ev_branch :: string
  ev_author :: string
  ev_state_delta :: "json dict"
  ev_payload :: 'p
  ev_request :: "'p option"
  ev_metadata :: "json dict"

record 'p session =
  ss_app :: string
  ss_user :: string
  ss_id :: string
  ss_state :: "json dict"
  ss_events :: "'p session_event list"
  ss_updated :: int

datatype store_error = SessionNotFound | StoreFailed string

record create_request =
  rq_app :: string
  rq_user :: string
  rq_session_id :: "string option"
  rq_state :: "json dict"

record get_request =
  gq_app :: string
  gq_user :: string
  gq_session_id :: string
  gq_num_recent :: "nat option"
  gq_after :: "int option"

record list_request =
  lq_app :: string
  lq_user :: string
  lq_limit :: "nat option"
  lq_offset :: "nat option"

definition request_name :: "string \<Rightarrow> create_request \<Rightarrow> session_name" where
  "request_name uuid r = (rq_app r, rq_user r, case rq_session_id r of Some i \<Rightarrow> i | None \<Rightarrow> uuid)"

definition created_session :: "session_name \<Rightarrow> json dict \<Rightarrow> int \<Rightarrow> 'p session" where
  "created_session k st now = \<lparr>ss_app = fst k, ss_user = fst (snd k), ss_id = snd (snd k), ss_state = st, ss_events = [], ss_updated = now\<rparr>"

text \<open>\<open>HashMap::extend\<close> with a state delta.\<close>

definition extend_state :: "json dict \<Rightarrow> json dict \<Rightarrow> json dict" where
  "extend_state delta st = fold (\<lambda>kv. dict_put (fst kv) (snd kv)) delta st"

definition page :: "list_request \<Rightarrow> 'a list \<Rightarrow> 'a list" where
  "page r xs = (case lq_limit r of Some l \<Rightarrow> take l | None \<Rightarrow> id) (drop (case lq_offset r of Some n \<Rightarrow> n | None \<Rightarrow> 0) xs)"

section \<open>SQLite\<close>

text \<open>The rows in the order of a scan; the key of a row is its primary key.\<close>

record session_row =
  sw_state :: "json dict"
  sw_created :: int
  sw_updated :: int

record 'p sqlite_db =
  sq_sessions :: "(session_name \<times> session_row) list"
  sq_events :: "(session_name \<times> 'p session_event) list"

definition sqlite_new :: "'p sqlite_db" where
  "sqlite_new = \<lparr>sq_sessions = [], sq_events = []\<rparr>"

text \<open>What the columns of the event table keep.\<close>

definition event_columns :: "'p session_event \<Rightarrow> 'p session_event" where
  "event_columns e = e\<lparr>ev_request := None, ev_metadata := []\<rparr>"

definition sqlite_create :: "string \<Rightarrow> int \<Rightarrow> create_request \<Rightarrow> 'p sqlite_db \<Rightarrow> 'p sqlite_db \<times> (store_error, 'p session) result" where
  "sqlite_create uuid now r db =
     (let k = request_name uuid r in
      if dict_has (sq_sessions db) k then (db, Err (StoreFailed ''insert failed''))
      else (db\<lparr>sq_sessions := sq_sessions db @ [(k, \<lparr>sw_state = rq_state r, sw_created = now, sw_updated = now\<rparr>)]\<rparr>,
            Ok (created_session k (rq_state r) now)))"

definition sqlite_get :: "get_request \<Rightarrow> 'p sqlite_db \<Rightarrow> (store_error, 'p session) result" where
  "sqlite_get r db =
     (let k = (gq_app r, gq_user r, gq_session_id r) in
      case dict_get (sq_sessions db) k of
        None \<Rightarrow> Err SessionNotFound
      | Some w \<Rightarrow>
          (let es = sort_key ev_timestamp (map snd (filter (\<lambda>e. fst e = k) (sq_events db)));
               recent = (case gq_num_recent r of Some n \<Rightarrow> drop (length es - n) es | None \<Rightarrow> es)
           in Ok \<lparr>ss_app = gq_app r, ss_user = gq_user r, ss_id = gq_session_id r, ss_state = sw_state w,
               ss_events = (case gq_after r of Some a \<Rightarrow> filter (\<lambda>e. ev_timestamp e \<ge> a) recent | None \<Rightarrow> recent),
               ss_updated = sw_updated w\<rparr>))"

definition sqlite_list :: "list_request \<Rightarrow> 'p sqlite_db \<Rightarrow> 'p session list" where
  "sqlite_list r db =
     map (\<lambda>((a, u, i), w). \<lparr>ss_app = a, ss_user = u, ss_id = i, ss_state = sw_state w, ss_events = [], ss_updated = sw_updated w\<rparr>)
       (page r (sort_key (\<lambda>x. - sw_updated (snd x)) (filter (\<lambda>((a, u, i), w). a = lq_app r \<and> u = lq_user r) (sq_sessions db))))"

definition sqlite_delete :: "session_name \<Rightarrow> 'p sqlite_db \<Rightarrow> 'p sqlite_db" where
  "sqlite_delete k db = db\<lparr>sq_events := filter (\<lambda>e. fst e \<noteq> k) (sq_events db), sq_sessions := filter (\<lambda>s. fst s \<noteq> k) (sq_sessions db)\<rparr>"

text \<open>The update of the session is not undone when the event cannot be inserted.\<close>

definition sqlite_append :: "string \<Rightarrow> 'p session_event \<Rightarrow> 'p sqlite_db \<Rightarrow> 'p sqlite_db \<times> (store_error, unit) result" where
  "sqlite_append sid e db =
     (case find (\<lambda>((a, u, i), w). i = sid) (sq_sessions db) of
        None \<Rightarrow> (db, Err SessionNotFound)
      | Some (k, w) \<Rightarrow>
          (let w1 = (if ev_state_delta e \<noteq> [] then w\<lparr>sw_state := extend_state (ev_state_delta e) (sw_state w), sw_updated := ev_timestamp e\<rparr>
                     else w\<lparr>sw_updated := ev_timestamp e\<rparr>);
               db1 = db\<lparr>sq_sessions := dict_put k w1 (sq_sessions db)\<rparr>
           in if list_ex (\<lambda>(k', e'). k' = k \<and> ev_id e' = ev_id e) (sq_events db)
              then (db1, Err (StoreFailed ''insert event failed''))
              else (db1\<lparr>sq_events := sq_events db @ [(k, event_columns e)]\<rparr>, Ok ())))"

definition sqlite_delete_all :: "string \<Rightarrow> string \<Rightarrow> 'p sqlite_db \<Rightarrow> 'p sqlite_db" where
  "sqlite_delete_all app user db = db\<lparr>sq_events := filter (\<lambda>((a, u, i), e). \<not> (a = app \<and> u = user)) (sq_events db),
     sq_sessions := filter (\<lambda>((a, u, i), w). \<not> (a = app \<and> u = user)) (sq_sessions db)\<rparr>"

section \<open>Postgres\<close>

text \<open>
  The primary key is the session identifier alone; times are kept to the microsecond; events are not stored.
  \<open>jsonb\<close> is what is read back of a state, \<open>None\<close> if the column refuses it; a text with a NUL character cannot
  be stored, so that no session has one in its name.
\<close>

record pg_row =
  pg_app :: string
  pg_user :: string
  pg_state :: "json dict"
  pg_created :: int
  pg_updated :: int

type_synonym pg_db = "pg_row dict"

definition pg_time :: "int \<Rightarrow> int" where
  "pg_time t = 1000 * (t div 1000)"

definition no_nul :: "string \<Rightarrow> bool" where
  "no_nul t \<longleftrightarrow> CHR 0x00 \<notin> set t"

definition pg_create :: "(json dict \<Rightarrow> json dict option) \<Rightarrow> string \<Rightarrow> int \<Rightarrow> create_request \<Rightarrow> pg_db
    \<Rightarrow> pg_db \<times> (store_error, 'p session) result" where
  "pg_create jsonb uuid now r db =
     (case request_name uuid r of (a, u, i) \<Rightarrow>
        (case jsonb (rq_state r) of
           None \<Rightarrow> (db, Err (StoreFailed ''insert failed''))
         | Some stored \<Rightarrow>
             (if dict_has db i \<or> \<not> (no_nul a \<and> no_nul u \<and> no_nul i) then (db, Err (StoreFailed ''insert failed''))
              else (db @ [(i, \<lparr>pg_app = a, pg_user = u, pg_state = stored, pg_created = pg_time now, pg_updated = pg_time now\<rparr>)],
                    Ok (created_session (a, u, i) (rq_state r) now)))))"

definition pg_get :: "get_request \<Rightarrow> pg_db \<Rightarrow> (store_error, 'p session) result" where
  "pg_get r db =
     (case dict_get db (gq_session_id r) of
        None \<Rightarrow> Err SessionNotFound
      | Some w \<Rightarrow>
          (if pg_app w = gq_app r \<and> pg_user w = gq_user r
           then Ok \<lparr>ss_app = gq_app r, ss_user = gq_user r, ss_id = gq_session_id r, ss_state = pg_state w, ss_events = [], ss_updated = pg_updated w\<rparr>
           else Err SessionNotFound))"

definition pg_list :: "list_request \<Rightarrow> pg_db \<Rightarrow> 'p session list" where
  "pg_list r db =
     map (\<lambda>(i, w). \<lparr>ss_app = lq_app r, ss_user = lq_user r, ss_id = i, ss_state = pg_state w, ss_events = [], ss_updated = pg_updated w\<rparr>)
       (page r (sort_key (\<lambda>x. - pg_updated (snd x)) (filter (\<lambda>(i, w). pg_app w = lq_app r \<and> pg_user w = lq_user r) db)))"

definition pg_delete :: "session_name \<Rightarrow> pg_db \<Rightarrow> pg_db" where
  "pg_delete k db = filter (\<lambda>(i, w). \<not> (pg_app w = fst k \<and> pg_user w = fst (snd k) \<and> i = snd (snd k))) db"

definition pg_append :: "(json dict \<Rightarrow> json dict option) \<Rightarrow> string \<Rightarrow> 'p session_event \<Rightarrow> pg_db
    \<Rightarrow> pg_db \<times> (store_error, unit) result" where
  "pg_append jsonb sid e db =
     (if ev_state_delta e \<noteq> []
      then (case dict_get db sid of
              None \<Rightarrow> (db, Err SessionNotFound)
            | Some w \<Rightarrow>
                (case jsonb (extend_state (ev_state_delta e) (pg_state w)) of
                   None \<Rightarrow> (db, Err (StoreFailed ''update failed''))
                 | Some stored \<Rightarrow> (dict_put sid (w\<lparr>pg_state := stored, pg_updated := pg_time (ev_timestamp e)\<rparr>) db, Ok ())))
      else if \<not> no_nul sid then (db, Err (StoreFailed ''update failed''))
      else (case dict_get db sid of
              None \<Rightarrow> (db, Ok ())
            | Some w \<Rightarrow> (dict_put sid (w\<lparr>pg_updated := pg_time (ev_timestamp e)\<rparr>) db, Ok ())))"

definition pg_delete_all :: "string \<Rightarrow> string \<Rightarrow> pg_db \<Rightarrow> pg_db" where
  "pg_delete_all app user db = filter (\<lambda>(i, w). \<not> (pg_app w = app \<and> pg_user w = user)) db"

section \<open>The interface\<close>

text \<open>
  What a client of a session service relies on: a created session is there with its state, a deleted one
  is gone, and neither touches a session of another name.
\<close>

locale session_store =
  fixes create :: "session_name \<Rightarrow> json dict \<Rightarrow> int \<Rightarrow> 's \<Rightarrow> 's \<times> bool"
    and look :: "session_name \<Rightarrow> 's \<Rightarrow> json dict option"
    and remove :: "session_name \<Rightarrow> 's \<Rightarrow> 's"
    and name_ok :: "session_name \<Rightarrow> bool"
    and valid :: "'s \<Rightarrow> bool"
  assumes look_create: "\<lbrakk>valid s; name_ok k; name_ok k'; create k st t s = (s', True)\<rbrakk> \<Longrightarrow> look k' s' = (if k = k' then Some st else look k' s)"
    and create_failed: "create k st t s = (s', False) \<Longrightarrow> s' = s"
    and look_remove: "\<lbrakk>valid s; name_ok k; name_ok k'\<rbrakk> \<Longrightarrow> look k' (remove k s) = (if k = k' then None else look k' s)"
    and valid_create: "\<lbrakk>valid s; name_ok k; create k st t s = (s', b)\<rbrakk> \<Longrightarrow> valid s'"
    and valid_remove: "\<lbrakk>valid s; name_ok k\<rbrakk> \<Longrightarrow> valid (remove k s)"

locale session_store_bulk = session_store create look remove name_ok valid
  for create :: "session_name \<Rightarrow> json dict \<Rightarrow> int \<Rightarrow> 's \<Rightarrow> 's \<times> bool"
    and look :: "session_name \<Rightarrow> 's \<Rightarrow> json dict option"
    and remove :: "session_name \<Rightarrow> 's \<Rightarrow> 's"
    and name_ok :: "session_name \<Rightarrow> bool"
    and valid :: "'s \<Rightarrow> bool" +
  fixes remove_user :: "string \<Rightarrow> string \<Rightarrow> 's \<Rightarrow> 's"
  assumes look_remove_user: "\<lbrakk>valid s; name_ok (a, u, i); name_ok (a', u', i')\<rbrakk> \<Longrightarrow>
      look (a', u', i') (remove_user a u s) = (if a = a' \<and> u = u' then None else look (a', u', i') s)"
    and valid_remove_user: "\<lbrakk>valid s; name_ok (a, u, i)\<rbrakk> \<Longrightarrow> valid (remove_user a u s)"

datatype session_op = OpCreate session_name "json dict" int | OpDelete session_name

fun op_name :: "session_op \<Rightarrow> session_name" where
  "op_name (OpCreate k st t) = k"
| "op_name (OpDelete k) = k"

fun creates :: "session_op \<Rightarrow> bool" where
  "creates (OpCreate k st t) = True"
| "creates (OpDelete k) = False"

fun session_op_step ::
  "(session_name \<Rightarrow> json dict \<Rightarrow> int \<Rightarrow> 's \<Rightarrow> 's \<times> bool) \<Rightarrow> (session_name \<Rightarrow> 's \<Rightarrow> 's) \<Rightarrow> session_op \<Rightarrow> 's \<Rightarrow> 's" where
  "session_op_step create remove (OpCreate k st t) s = fst (create k st t s)"
| "session_op_step create remove (OpDelete k) s = remove k s"

context session_store begin

lemma valid_step: "\<lbrakk>valid s; name_ok (op_name x)\<rbrakk> \<Longrightarrow> valid (session_op_step create remove x s)"
  by (cases x) (auto intro: valid_remove valid_create prod.collapse [symmetric])

lemma valid_run: "\<lbrakk>valid s; \<forall>x\<in>set ops. name_ok (op_name x)\<rbrakk> \<Longrightarrow> valid (fold (session_op_step create remove) ops s)"
  by (induction ops arbitrary: s) (auto intro: valid_step)

lemma look_step: "\<lbrakk>valid s; name_ok (op_name x); name_ok k; op_name x \<noteq> k\<rbrakk> \<Longrightarrow> look k (session_op_step create remove x s) = look k s"
proof (cases x)
  case (OpCreate k' st t)
  assume *: "valid s" "name_ok (op_name x)" "name_ok k" "op_name x \<noteq> k"
  obtain s' b where c: "create k' st t s = (s', b)" by fastforce
  show ?thesis
  proof (cases b)
    case True
    then show ?thesis using look_create [OF *(1) _ *(3), of k' st t s'] * c OpCreate by simp
  next
    case False
    then show ?thesis using create_failed [of k' st t s s'] c OpCreate by simp
  qed
qed (simp add: look_remove)

text \<open>Operations on other names leave a session as it is.\<close>

lemma look_run:
  "\<lbrakk>valid s; name_ok k; \<forall>x\<in>set ops. name_ok (op_name x) \<and> op_name x \<noteq> k\<rbrakk> \<Longrightarrow>
     look k (fold (session_op_step create remove) ops s) = look k s"
  by (induction ops arbitrary: s) (auto simp: look_step valid_step)

lemma absent_step: "\<lbrakk>valid s; name_ok (op_name x); name_ok k; op_name x = k \<longrightarrow> \<not> creates x; look k s = None\<rbrakk> \<Longrightarrow>
    look k (session_op_step create remove x s) = None"
proof (cases "op_name x = k")
  case True
  then show "\<lbrakk>valid s; name_ok (op_name x); name_ok k; op_name x = k \<longrightarrow> \<not> creates x; look k s = None\<rbrakk> \<Longrightarrow> ?thesis"
    by (cases x) (auto simp: look_remove)
qed (simp add: look_step)

lemma absent_run:
  "\<lbrakk>valid s; name_ok k; \<forall>x\<in>set ops. name_ok (op_name x) \<and> (op_name x = k \<longrightarrow> \<not> creates x); look k s = None\<rbrakk> \<Longrightarrow>
     look k (fold (session_op_step create remove) ops s) = None"
  by (induction ops arbitrary: s) (auto simp: absent_step valid_step)

lemma read_your_create:
  assumes "valid s" "name_ok k" "create k st t s = (s', True)" "\<forall>x\<in>set ops. name_ok (op_name x) \<and> op_name x \<noteq> k"
  shows "look k (fold (session_op_step create remove) ops s') = Some st"
  using look_run [of s' k ops] valid_create [OF assms(1-3)] look_create [OF assms(1,2,2,3)] assms(2,4) by simp

end

context session_store_bulk begin

lemma user_erased:
  assumes "valid s" "name_ok (a, u, i)" "\<forall>x\<in>set ops. name_ok (op_name x) \<and> (creates x \<longrightarrow> \<not> (fst (op_name x) = a \<and> fst (snd (op_name x)) = u))"
  shows "look (a, u, i) (fold (session_op_step create remove) ops (remove_user a u s)) = None"
  by (rule absent_run) (use assms look_remove_user [OF assms(1,2,2)] valid_remove_user [OF assms(1,2)] in auto)

end

section \<open>The SQL services keep the interface\<close>

text \<open>A client's view: creating with a given identifier, and the state of a session.\<close>

definition request_for :: "session_name \<Rightarrow> json dict \<Rightarrow> create_request" where
  "request_for k st = (case k of (a, u, i) \<Rightarrow> \<lparr>rq_app = a, rq_user = u, rq_session_id = Some i, rq_state = st\<rparr>)"

definition lookup_for :: "session_name \<Rightarrow> get_request" where
  "lookup_for k = (case k of (a, u, i) \<Rightarrow> \<lparr>gq_app = a, gq_user = u, gq_session_id = i, gq_num_recent = None, gq_after = None\<rparr>)"

definition state_of :: "(store_error, 'p session) result \<Rightarrow> json dict option" where
  "state_of r = (case r of Ok s \<Rightarrow> Some (ss_state s) | Err e \<Rightarrow> None)"

definition sqlite_add :: "session_name \<Rightarrow> json dict \<Rightarrow> int \<Rightarrow> 'p sqlite_db \<Rightarrow> 'p sqlite_db \<times> bool" where
  "sqlite_add k st t db = apsnd is_ok (sqlite_create [] t (request_for k st) db)"

definition sqlite_look :: "session_name \<Rightarrow> 'p sqlite_db \<Rightarrow> json dict option" where
  "sqlite_look k db = state_of (sqlite_get (lookup_for k) db)"

definition sqlite_ok :: "'p sqlite_db \<Rightarrow> bool" where
  "sqlite_ok db \<longleftrightarrow> dict_ok (sq_sessions db)"

text \<open>A client that stores only states that the column keeps.\<close>

definition pg_add :: "(json dict \<Rightarrow> json dict option) \<Rightarrow> session_name \<Rightarrow> json dict \<Rightarrow> int \<Rightarrow> pg_db \<Rightarrow> pg_db \<times> bool" where
  "pg_add jsonb k st t db =
     (if jsonb st = Some st then apsnd is_ok (pg_create jsonb [] t (request_for k st) db :: pg_db \<times> (store_error, unit session) result)
      else (db, False))"

definition pg_look :: "session_name \<Rightarrow> pg_db \<Rightarrow> json dict option" where
  "pg_look k db = state_of (pg_get (lookup_for k) db :: (store_error, unit session) result)"

lemma request_name_for [simp]: "request_name uuid (request_for k st) = k"
  by (cases k) (simp add: request_name_def request_for_def)

lemma request_for_state [simp]: "rq_state (request_for k st) = st"
  by (cases k) (simp add: request_for_def)

lemma sqlite_look_map: "sqlite_look k db = map_option sw_state (dict_get (sq_sessions db) k)"
  by (cases k) (simp add: sqlite_look_def sqlite_get_def lookup_for_def state_of_def Let_def split: option.split)

lemma pg_look_map: "pg_look (a, u, i) db = (case dict_get db i of Some w \<Rightarrow> if pg_app w = a \<and> pg_user w = u then Some (pg_state w) else None | None \<Rightarrow> None)"
  by (simp add: pg_look_def pg_get_def lookup_for_def state_of_def split: option.split)

lemma dict_ok_append [simp]: "dict_ok (d @ [(k, v)]) \<longleftrightarrow> dict_ok d \<and> \<not> dict_has d k"
  by (auto simp: dict_ok_def dict_has_def dict_get_def map_of_eq_None_iff)


interpretation sqlite: session_store_bulk sqlite_add sqlite_look sqlite_delete "\<lambda>k. True" sqlite_ok sqlite_delete_all
proof
  fix s :: "'a sqlite_db" and k k' st t s' b a u i a' u' i'
  show "\<lbrakk>sqlite_ok s; True; True; sqlite_add k st t s = (s', True)\<rbrakk> \<Longrightarrow> sqlite_look k' s' = (if k = k' then Some st else sqlite_look k' s)"
    by (auto simp: sqlite_add_def sqlite_create_def sqlite_look_map dict_has_def split: if_splits option.splits)
  show "sqlite_add k st t s = (s', False) \<Longrightarrow> s' = s"
    by (auto simp: sqlite_add_def sqlite_create_def Let_def split: if_splits)
  show "\<lbrakk>sqlite_ok s; True; True\<rbrakk> \<Longrightarrow> sqlite_look k' (sqlite_delete k s) = (if k = k' then None else sqlite_look k' s)"
    by (simp add: sqlite_look_map sqlite_delete_def sqlite_ok_def dict_get_filter split: option.split)
  show "\<lbrakk>sqlite_ok s; True; sqlite_add k st t s = (s', b)\<rbrakk> \<Longrightarrow> sqlite_ok s'"
    by (auto simp: sqlite_ok_def sqlite_add_def sqlite_create_def Let_def split: if_splits)
  show "\<lbrakk>sqlite_ok s; True\<rbrakk> \<Longrightarrow> sqlite_ok (sqlite_delete k s)"
    by (simp add: sqlite_ok_def sqlite_delete_def dict_ok_filter)
  show "\<lbrakk>sqlite_ok s; True; True\<rbrakk> \<Longrightarrow>
      sqlite_look (a', u', i') (sqlite_delete_all a u s) = (if a = a' \<and> u = u' then None else sqlite_look (a', u', i') s)"
    by (auto simp: sqlite_look_map sqlite_delete_all_def sqlite_ok_def dict_get_filter split: option.split)
  show "\<lbrakk>sqlite_ok s; True\<rbrakk> \<Longrightarrow> sqlite_ok (sqlite_delete_all a u s)"
    by (simp add: sqlite_ok_def sqlite_delete_all_def dict_ok_filter)
qed

interpretation postgres: session_store_bulk "pg_add jsonb" pg_look pg_delete "\<lambda>k. True" dict_ok pg_delete_all
  for jsonb :: "json dict \<Rightarrow> json dict option"
proof
  fix s :: pg_db and k k' st t s' b a u i a' u' i'
  show "\<lbrakk>dict_ok s; True; True; pg_add jsonb k st t s = (s', True)\<rbrakk> \<Longrightarrow> pg_look k' s' = (if k = k' then Some st else pg_look k' s)"
    by (cases k; cases k') (auto simp: pg_add_def pg_create_def pg_look_map dict_has_def split: if_splits option.splits,
        metis pg_row.select_convs(3))
  show "pg_add jsonb k st t s = (s', False) \<Longrightarrow> s' = s"
    by (cases k) (auto simp: pg_add_def pg_create_def Let_def split: if_splits)
  show "\<lbrakk>dict_ok s; True; True\<rbrakk> \<Longrightarrow> pg_look k' (pg_delete k s) = (if k = k' then None else pg_look k' s)"
    by (cases k; cases k') (auto simp: pg_look_map pg_delete_def dict_get_filter split: option.split)
  show "\<lbrakk>dict_ok s; True; pg_add jsonb k st t s = (s', b)\<rbrakk> \<Longrightarrow> dict_ok s'"
    by (cases k) (auto simp: pg_add_def pg_create_def Let_def split: if_splits)
  show "\<lbrakk>dict_ok s; True\<rbrakk> \<Longrightarrow> dict_ok (pg_delete k s)"
    by (simp add: pg_delete_def dict_ok_filter)
  show "\<lbrakk>dict_ok s; True; True\<rbrakk> \<Longrightarrow>
      pg_look (a', u', i') (pg_delete_all a u s) = (if a = a' \<and> u = u' then None else pg_look (a', u', i') s)"
    by (auto simp: pg_look_map pg_delete_all_def dict_get_filter split: option.split)
  show "\<lbrakk>dict_ok s; True\<rbrakk> \<Longrightarrow> dict_ok (pg_delete_all a u s)"
    by (simp add: pg_delete_all_def dict_ok_filter)
qed

section \<open>Both SQL services hold the same sessions\<close>

datatype 'p store_op = DoCreate string int create_request | DoAppend string "'p session_event"
  | DoDelete session_name | DoDeleteAll string string

fun sqlite_step :: "'p store_op \<Rightarrow> 'p sqlite_db \<Rightarrow> 'p sqlite_db" where
  "sqlite_step (DoCreate uuid now r) db = fst (sqlite_create uuid now r db)"
| "sqlite_step (DoAppend sid e) db = fst (sqlite_append sid e db)"
| "sqlite_step (DoDelete k) db = sqlite_delete k db"
| "sqlite_step (DoDeleteAll a u) db = sqlite_delete_all a u db"

fun pg_step :: "(json dict \<Rightarrow> json dict option) \<Rightarrow> 'p store_op \<Rightarrow> pg_db \<Rightarrow> pg_db" where
  "pg_step jsonb (DoCreate uuid now r) db = fst (pg_create jsonb uuid now r db :: pg_db \<times> (store_error, 'p session) result)"
| "pg_step jsonb (DoAppend sid e) db = fst (pg_append jsonb sid e db)"
| "pg_step jsonb (DoDelete k) db = pg_delete k db"
| "pg_step jsonb (DoDeleteAll a u) db = pg_delete_all a u db"

text \<open>
  States that PostgreSQL documents to keep in a JSONB column: texts without the NUL character, integers that
  JSON readers hold exactly, no other numbers (they are normalised), and a nesting that the readers of the
  stores take.
\<close>

fun plain_json :: "nat \<Rightarrow> json \<Rightarrow> bool" where
  "plain_json n JNull = True"
| "plain_json n (JBool b) = True"
| "plain_json n (JInt i) = (- (2 ^ 63) \<le> i \<and> i < 2 ^ 64)"
| "plain_json n (JFloat w) = False"
| "plain_json n (JStr t) = no_nul t"
| "plain_json 0 (JArr js) = False"
| "plain_json 0 (JObj m) = False"
| "plain_json (Suc n) (JArr js) = list_all (plain_json n) js"
| "plain_json (Suc n) (JObj m) = (distinct (map fst m) \<and> list_all (\<lambda>(k, v). no_nul k \<and> plain_json n v) m)"

definition plain_state :: "json dict \<Rightarrow> bool" where
  "plain_state st \<longleftrightarrow> list_all (\<lambda>(k, v). no_nul k \<and> plain_json 100 v) st"





















text \<open>A column that refuses everything else.\<close>

definition strict_jsonb :: "json dict \<Rightarrow> json dict option" where
  "strict_jsonb st = (if plain_state st then Some st else None)"

definition demo_event :: "unit session_event" where
  "demo_event = \<lparr>ev_id = ''e'', ev_timestamp = 7, ev_invocation_id = ''i'', ev_branch = [], ev_author = ''user'',
     ev_state_delta = [(''x'', JInt 2)], ev_payload = (), ev_request = None, ev_metadata = []\<rparr>"


text \<open>A state with a NUL character is stored by SQLite and refused by such a column.\<close>

lemma nul_only_in_sqlite:
  "let op = DoCreate ''u'' 1 (request_for (''app'', ''ann'', ''s'') [(''x'', JStr [CHR 0x00])])
   in sqlite_look (''app'', ''ann'', ''s'') (sqlite_step op sqlite_new) = Some [(''x'', JStr [CHR 0x00])]
     \<and> pg_look (''app'', ''ann'', ''s'') (pg_step strict_jsonb op []) = None"
  by (simp add: sqlite_look_map sqlite_create_def sqlite_new_def pg_look_map pg_create_def request_for_def request_name_def
      strict_jsonb_def plain_state_def no_nul_def dict_has_def Let_def)

section \<open>Events in SQLite\<close>

text \<open>One row per identifier, as the identifiers that the bridge draws give it.\<close>

definition unique_ids :: "'p sqlite_db \<Rightarrow> bool" where
  "unique_ids db \<longleftrightarrow> distinct (map (\<lambda>((a, u, i), w). i) (sq_sessions db))"

lemma unique_find:
  assumes "unique_ids db" and "dict_get (sq_sessions db) (a, u, i) = Some w"
  shows "find (\<lambda>((a, u, j), w). j = i) (sq_sessions db) = Some ((a, u, i), w)"
proof -
  have "\<lbrakk>distinct (map (\<lambda>((a, u, i), w). i) xs); ((a, u, i), w) \<in> set xs\<rbrakk> \<Longrightarrow>
      find (\<lambda>((a, u, j), w). j = i) xs = Some ((a, u, i), w)" for xs :: "(session_name \<times> session_row) list"
    by (induction xs) (auto simp: image_iff split: prod.splits)
  then show ?thesis using assms by (simp add: unique_ids_def dict_get_mem)
qed

lemma sort_key_snoc: "\<forall>x\<in>set xs. f x \<le> f y \<Longrightarrow> sort_key f (xs @ [y]) = sort_key f xs @ [y]"
proof (induction xs)
  case (Cons x xs)
  have "insort_key f x (ys @ [y]) = insort_key f x ys @ [y]" if "f x \<le> f y" for ys
    using that by (induction ys) auto
  then show ?case using Cons by simp
qed simp

text \<open>
  An appended event is read back: with identifiers unique, and an event that is new and not older than
  the stored ones, the session then has the extended state, and its events end with the new one, less
  its request and provider data, which have no column.
\<close>

theorem appended_event_is_read_back:
  assumes "unique_ids db" and "sqlite_get (lookup_for (a, u, i)) db = Ok s"
    and "list_all (\<lambda>e'. ev_id e' \<noteq> ev_id e \<and> ev_timestamp e' \<le> ev_timestamp e) (ss_events s)"
  shows "\<exists>db'. sqlite_append i e db = (db', Ok ()) \<and>
    sqlite_get (lookup_for (a, u, i)) db' = Ok (s\<lparr>ss_state := extend_state (ev_state_delta e) (ss_state s),
      ss_events := ss_events s @ [event_columns e], ss_updated := ev_timestamp e\<rparr>)"
proof -
  let ?k = "(a, u, i)" and ?old = "map snd (filter (\<lambda>e. fst e = (a, u, i)) (sq_events db))"
  obtain w where w: "dict_get (sq_sessions db) ?k = Some w"
    and s: "s = \<lparr>ss_app = a, ss_user = u, ss_id = i, ss_state = sw_state w, ss_events = sort_key ev_timestamp ?old, ss_updated = sw_updated w\<rparr>"
    using assms(2) by (auto simp: sqlite_get_def lookup_for_def Let_def split: option.splits)
  have "list_all (\<lambda>e'. ev_id e' \<noteq> ev_id e \<and> ev_timestamp e' \<le> ev_timestamp e) ?old"
    using assms(3) by (simp add: s list_all_iff)
  then have new: "\<not> list_ex (\<lambda>(k', e'). k' = ?k \<and> ev_id e' = ev_id e) (sq_events db)"
    and sorted: "sort_key ev_timestamp (?old @ [event_columns e]) = sort_key ev_timestamp ?old @ [event_columns e]"
    by (auto simp: list_all_iff list_ex_iff event_columns_def intro!: sort_key_snoc)
  show ?thesis
    using unique_find [OF assms(1) w] new sorted
    by (cases "ev_state_delta e = []")
      (simp_all add: s sqlite_append_def sqlite_get_def lookup_for_def Let_def extend_state_def)
qed

theorem appended_event_is_read_back_witness:
  "let db = fst (sqlite_create ''u'' 1 (request_for (''app'', ''ann'', ''s'') []) sqlite_new)
   in \<exists>db'. sqlite_append ''s'' demo_event db = (db', Ok ()) \<and> sqlite_get (lookup_for (''app'', ''ann'', ''s'')) db'
     = Ok \<lparr>ss_app = ''app'', ss_user = ''ann'', ss_id = ''s'', ss_state = [(''x'', JInt 2)], ss_events = [demo_event], ss_updated = 7\<rparr>"
proof -
  define db :: "unit sqlite_db" where "db = fst (sqlite_create ''u'' 1 (request_for (''app'', ''ann'', ''s'') []) sqlite_new)"
  have db: "db = \<lparr>sq_sessions = [((''app'', ''ann'', ''s''), \<lparr>sw_state = [], sw_created = 1, sw_updated = 1\<rparr>)], sq_events = []\<rparr>"
    by (simp add: db_def sqlite_create_def sqlite_new_def Let_def dict_has_def)
  have "sqlite_get (lookup_for (''app'', ''ann'', ''s'')) db
      = Ok \<lparr>ss_app = ''app'', ss_user = ''ann'', ss_id = ''s'', ss_state = [], ss_events = [], ss_updated = 1\<rparr>"
    by (simp add: db sqlite_get_def lookup_for_def)
  from appended_event_is_read_back [OF _ this, of demo_event] show ?thesis
    unfolding Let_def db_def [symmetric]
    by (simp add: unique_ids_def db demo_event_def event_columns_def extend_state_def)
qed

text \<open>
  C23. An append that fails is not undone: when the event's identifier is already stored, the caller gets
  an error, and the state of the session has been extended all the same.
\<close>

theorem failed_append_changes_state:
  assumes "unique_ids db" and "dict_get (sq_sessions db) (a, u, i) = Some w"
    and "list_ex (\<lambda>(k, e'). k = (a, u, i) \<and> ev_id e' = ev_id e) (sq_events db)"
  shows "\<exists>db'. sqlite_append i e db = (db', Err (StoreFailed ''insert event failed''))
    \<and> sqlite_look (a, u, i) db' = Some (extend_state (ev_state_delta e) (sw_state w)) \<and> sq_events db' = sq_events db"
  using unique_find [OF assms(1,2)] assms(3)
  by (simp add: sqlite_append_def sqlite_look_map Let_def extend_state_def)

theorem failed_append_changes_state_witness:
  "\<exists>db'. sqlite_append ''s'' demo_event \<lparr>sq_sessions = [((''app'', ''ann'', ''s''), \<lparr>sw_state = [], sw_created = 1, sw_updated = 1\<rparr>)],
      sq_events = [((''app'', ''ann'', ''s''), demo_event)]\<rparr> = (db', Err (StoreFailed ''insert event failed''))
    \<and> sqlite_look (''app'', ''ann'', ''s'') db' = Some (extend_state (ev_state_delta demo_event) [])
    \<and> sq_events db' = [((''app'', ''ann'', ''s''), demo_event)]"
  using failed_append_changes_state [of "\<lparr>sq_sessions = [((''app'', ''ann'', ''s''), \<lparr>sw_state = [], sw_created = 1, sw_updated = 1\<rparr>)],
      sq_events = [((''app'', ''ann'', ''s''), demo_event)]\<rparr>" "''app''" "''ann''" "''s''" "\<lparr>sw_state = [], sw_created = 1, sw_updated = 1\<rparr>" demo_event]
  by (simp add: unique_ids_def)

end
