(* ===== verification/RedisSessions.thy ===== *)
theory RedisSessions
  imports SessionStores
begin

text \<open>
  \<open>src/session_bridge.rs\<close>, the Redis session service: session blobs, the reverse keys by which an event
  finds its session, and the index of each user, every one with an expiry of its own. The three kinds of
  keys start with different words, so each kind is a map. Commands do not fail; each operation reads
  the server's clock once.
\<close>

section \<open>Keys with an expiry\<close>

type_synonym 'v expiring = "('v \<times> int option) dict"

fun alive :: "int \<Rightarrow> 'v \<times> int option \<Rightarrow> bool" where
  "alive now (v, None) = True"
| "alive now (v, Some e) = (now < e)"

definition redis_read :: "int \<Rightarrow> string \<Rightarrow> 'v expiring \<Rightarrow> 'v option" where
  "redis_read now k d = (case dict_get d k of Some x \<Rightarrow> if alive now x then Some (fst x) else None | None \<Rightarrow> None)"

definition redis_set :: "string \<Rightarrow> 'v \<Rightarrow> 'v expiring \<Rightarrow> 'v expiring" where
  "redis_set k v d = dict_put k (v, None) d"

definition expire :: "int \<Rightarrow> int \<Rightarrow> string \<Rightarrow> 'v expiring \<Rightarrow> 'v expiring" where
  "expire now secs k d =
     (case redis_read now k d of Some v \<Rightarrow> dict_put k (v, Some (now + secs * 1000000000)) d | None \<Rightarrow> d)"

definition apply_ttl :: "64 word option \<Rightarrow> int \<Rightarrow> string \<Rightarrow> 'v expiring \<Rightarrow> 'v expiring" where
  "apply_ttl ttl now k d = (case ttl of Some n \<Rightarrow> expire now (sint n) k d | None \<Rightarrow> d)"

text \<open>A set keeps its expiry; an empty set is no key.\<close>

definition sadd :: "int \<Rightarrow> string \<Rightarrow> string \<Rightarrow> string list expiring \<Rightarrow> string list expiring" where
  "sadd now k x d =
     (case dict_get d k of
        Some (xs, e) \<Rightarrow> if alive now (xs, e) then dict_put k (if x \<in> set xs then xs else xs @ [x], e) d else dict_put k ([x], None) d
      | None \<Rightarrow> dict_put k ([x], None) d)"

definition srem :: "int \<Rightarrow> string \<Rightarrow> string \<Rightarrow> string list expiring \<Rightarrow> string list expiring" where
  "srem now k x d =
     (case dict_get d k of
        Some (xs, e) \<Rightarrow> if alive now (xs, e) then (if removeAll x xs = [] then dict_del k d else dict_put k (removeAll x xs, e) d) else d
      | None \<Rightarrow> d)"

definition smembers :: "int \<Rightarrow> string \<Rightarrow> string list expiring \<Rightarrow> string list" where
  "smembers now k d = (case redis_read now k d of Some xs \<Rightarrow> xs | None \<Rightarrow> [])"

section \<open>The service\<close>

record redis_data =
  rx_app :: string
  rx_user :: string
  rx_id :: string
  rx_state :: "json dict"
  rx_created :: int
  rx_updated :: int

record redis_db =
  rd_sessions :: "redis_data expiring"
  rd_reverse :: "string expiring"
  rd_index :: "string list expiring"

definition redis_new :: redis_db where
  "redis_new = \<lparr>rd_sessions = [], rd_reverse = [], rd_index = []\<rparr>"

definition redis_session_key :: "string \<Rightarrow> string \<Rightarrow> string \<Rightarrow> string" where
  "redis_session_key app user sid = ''session:'' @ app @ '':'' @ user @ '':'' @ sid"

definition index_key :: "string \<Rightarrow> string \<Rightarrow> string" where
  "index_key app user = ''session_index:'' @ app @ '':'' @ user"

definition reverse_key :: "string \<Rightarrow> string" where
  "reverse_key sid = ''session_reverse:'' @ sid"

definition redis_session :: "redis_data \<Rightarrow> 'p session" where
  "redis_session x = \<lparr>ss_app = rx_app x, ss_user = rx_user x, ss_id = rx_id x, ss_state = rx_state x, ss_events = [], ss_updated = rx_updated x\<rparr>"

definition redis_create ::
  "64 word option \<Rightarrow> string \<Rightarrow> int \<Rightarrow> create_request \<Rightarrow> redis_db \<Rightarrow> redis_db \<times> (store_error, 'p session) result" where
  "redis_create ttl uuid now r db =
     (case request_name uuid r of (a, u, i) \<Rightarrow>
        (let key = redis_session_key a u i;
             x = \<lparr>rx_app = a, rx_user = u, rx_id = i, rx_state = rq_state r, rx_created = now, rx_updated = now\<rparr>
         in (\<lparr>rd_sessions = apply_ttl ttl now key (redis_set key x (rd_sessions db)),
              rd_reverse = apply_ttl ttl now (reverse_key i) (redis_set (reverse_key i) key (rd_reverse db)),
              rd_index = apply_ttl ttl now (index_key a u) (sadd now (index_key a u) i (rd_index db))\<rparr>,
             Ok (created_session (a, u, i) (rq_state r) now))))"

definition redis_get :: "int \<Rightarrow> get_request \<Rightarrow> redis_db \<Rightarrow> (store_error, 'p session) result" where
  "redis_get now r db =
     (case redis_read now (redis_session_key (gq_app r) (gq_user r) (gq_session_id r)) (rd_sessions db) of
        None \<Rightarrow> Err SessionNotFound | Some x \<Rightarrow> Ok (redis_session x))"

definition redis_list :: "int \<Rightarrow> list_request \<Rightarrow> redis_db \<Rightarrow> 'p session list" where
  "redis_list now r db =
     page r (sort_key (\<lambda>s. - ss_updated s) (map redis_session (List.map_filter
       (\<lambda>i. redis_read now (redis_session_key (lq_app r) (lq_user r) i) (rd_sessions db))
       (smembers now (index_key (lq_app r) (lq_user r)) (rd_index db)))))"

definition redis_delete :: "int \<Rightarrow> session_name \<Rightarrow> redis_db \<Rightarrow> redis_db" where
  "redis_delete now k db =
     (case k of (a, u, i) \<Rightarrow> \<lparr>rd_sessions = dict_del (redis_session_key a u i) (rd_sessions db),
        rd_reverse = dict_del (reverse_key i) (rd_reverse db), rd_index = srem now (index_key a u) i (rd_index db)\<rparr>)"

definition redis_append ::
  "64 word option \<Rightarrow> int \<Rightarrow> string \<Rightarrow> 'p session_event \<Rightarrow> redis_db \<Rightarrow> redis_db \<times> (store_error, unit) result" where
  "redis_append ttl now sid e db =
     (case redis_read now (reverse_key sid) (rd_reverse db) of
        None \<Rightarrow> (db, Err SessionNotFound)
      | Some key \<Rightarrow>
          (case redis_read now key (rd_sessions db) of
             None \<Rightarrow> (db, Err SessionNotFound)
           | Some x \<Rightarrow>
               (let x1 = (if ev_state_delta e \<noteq> [] then x\<lparr>rx_state := extend_state (ev_state_delta e) (rx_state x)\<rparr> else x)\<lparr>rx_updated := ev_timestamp e\<rparr>
                in (db\<lparr>rd_sessions := apply_ttl ttl now key (redis_set key x1 (rd_sessions db))\<rparr>, Ok ()))))"

fun delete_members :: "string \<Rightarrow> string \<Rightarrow> string list \<Rightarrow> redis_db \<Rightarrow> redis_db" where
  "delete_members a u [] db = db"
| "delete_members a u (i # rest) db =
     delete_members a u rest (db\<lparr>rd_sessions := dict_del (redis_session_key a u i) (rd_sessions db),
       rd_reverse := dict_del (reverse_key i) (rd_reverse db)\<rparr>)"

definition redis_delete_all :: "int \<Rightarrow> string \<Rightarrow> string \<Rightarrow> redis_db \<Rightarrow> redis_db" where
  "redis_delete_all now a u db =
     (let db1 = delete_members a u (smembers now (index_key a u) (rd_index db)) db
      in db1\<lparr>rd_index := dict_del (index_key a u) (rd_index db1)\<rparr>)"

section \<open>Without an expiry the service keeps the interface\<close>

text \<open>Names from which the keys can be told apart: no colon in the application name and in the identifier.\<close>

fun plain_name :: "session_name \<Rightarrow> bool" where
  "plain_name (a, u, i) \<longleftrightarrow> CHR '':'' \<notin> set a \<and> CHR '':'' \<notin> set i"

definition redis_add :: "session_name \<Rightarrow> json dict \<Rightarrow> int \<Rightarrow> redis_db \<Rightarrow> redis_db \<times> bool" where
  "redis_add k st t db = apsnd is_ok (redis_create None [] t (request_for k st) db :: redis_db \<times> (store_error, unit session) result)"

definition redis_look :: "session_name \<Rightarrow> redis_db \<Rightarrow> json dict option" where
  "redis_look k db = state_of (redis_get 0 (lookup_for k) db :: (store_error, unit session) result)"

lemma first_sep: fixes c :: char shows "\<lbrakk>c \<notin> set a; c \<notin> set a'\<rbrakk> \<Longrightarrow> a @ c # x = a' @ c # y \<longleftrightarrow> a = a' \<and> x = y"
  by (metis option.inject prod.inject split_once_append)

lemma last_sep: fixes c :: char shows "\<lbrakk>c \<notin> set i; c \<notin> set i'\<rbrakk> \<Longrightarrow> u @ c # i = u' @ c # i' \<longleftrightarrow> u = u' \<and> i = i'"
proof -
  assume *: "c \<notin> set i" "c \<notin> set i'"
  have "u @ c # i = u' @ c # i' \<longleftrightarrow> rev i @ c # rev u = rev i' @ c # rev u'"
    using rev_is_rev_conv [of "u @ c # i" "u' @ c # i'"] by simp
  then show ?thesis using * by (auto simp: first_sep)
qed

lemma session_key_inj:
  "\<lbrakk>plain_name (a, u, i); plain_name (a', u', i')\<rbrakk> \<Longrightarrow> redis_session_key a u i = redis_session_key a' u' i' \<longleftrightarrow> a = a' \<and> u = u' \<and> i = i'"
  by (simp add: redis_session_key_def first_sep last_sep)

lemma index_key_inj: "\<lbrakk>CHR '':'' \<notin> set a; CHR '':'' \<notin> set a'\<rbrakk> \<Longrightarrow> index_key a u = index_key a' u' \<longleftrightarrow> a = a' \<and> u = u'"
  by (simp add: index_key_def first_sep)

definition blob_key :: "redis_data \<Rightarrow> string" where
  "blob_key x = redis_session_key (rx_app x) (rx_user x) (rx_id x)"

text \<open>Every blob is under its own key and in the index of its user, and nothing expires.\<close>

definition blob_ok :: "string list expiring \<Rightarrow> string \<Rightarrow> redis_data \<times> int option \<Rightarrow> bool" where
  "blob_ok ix k b \<longleftrightarrow> snd b = None \<and> k = blob_key (fst b) \<and> plain_name (rx_app (fst b), rx_user (fst b), rx_id (fst b))
     \<and> (\<exists>xs. dict_get ix (index_key (rx_app (fst b)) (rx_user (fst b))) = Some (xs, None) \<and> rx_id (fst b) \<in> set xs)"

definition index_ok :: "string list expiring \<Rightarrow> bool" where
  "index_ok ix \<longleftrightarrow> (\<forall>k x. dict_get ix k = Some x \<longrightarrow> snd x = None \<and> (\<forall>i\<in>set (fst x). CHR '':'' \<notin> set i))"

definition redis_ok :: "redis_db \<Rightarrow> bool" where
  "redis_ok db \<longleftrightarrow> (\<forall>k b. dict_get (rd_sessions db) k = Some b \<longrightarrow> blob_ok (rd_index db) k b) \<and> index_ok (rd_index db)"

lemma redis_ok_new: "redis_ok redis_new"
  by (simp add: redis_ok_def redis_new_def index_ok_def)

lemma redis_okD: "\<lbrakk>redis_ok db; dict_get (rd_sessions db) k = Some b\<rbrakk> \<Longrightarrow> blob_ok (rd_index db) k b"
  unfolding redis_ok_def by blast

lemma index_okD: "\<lbrakk>index_ok ix; dict_get ix k = Some (xs, e)\<rbrakk> \<Longrightarrow> e = None \<and> (\<forall>i\<in>set xs. CHR '':'' \<notin> set i)"
  unfolding index_ok_def by fastforce

lemma redis_ok_index: "redis_ok db \<Longrightarrow> index_ok (rd_index db)"
  by (simp add: redis_ok_def)

lemma look_blob:
  "redis_ok db \<Longrightarrow> redis_look (a, u, i) db = map_option (\<lambda>b. rx_state (fst b)) (dict_get (rd_sessions db) (redis_session_key a u i))"
  by (auto simp: redis_look_def redis_get_def lookup_for_def state_of_def redis_read_def redis_session_def blob_ok_def
      dest!: redis_okD split: option.split)

lemma sadd_get:
  assumes "index_ok d"
  shows "dict_get (sadd now k x d) k' =
    (if k = k' then Some (case dict_get d k of Some (xs, e) \<Rightarrow> if x \<in> set xs then xs else xs @ [x] | None \<Rightarrow> [x], None) else dict_get d k')"
  by (auto simp: sadd_def split: option.split dest: index_okD [OF assms])

lemma srem_get:
  assumes "index_ok d"
  shows "dict_get (srem now k x d) k' =
    (if k = k' then (case dict_get d k of Some (xs, e) \<Rightarrow> if removeAll x xs = [] then None else Some (removeAll x xs, None) | None \<Rightarrow> None)
     else dict_get d k')"
  by (auto simp: srem_def split: option.split dest: index_okD [OF assms])

lemma index_okI: "(\<And>k xs e. dict_get ix k = Some (xs, e) \<Longrightarrow> e = None \<and> (\<forall>i\<in>set xs. CHR '':'' \<notin> set i)) \<Longrightarrow> index_ok ix"
  by (auto simp: index_ok_def)

lemma index_ok_sadd:
  assumes "index_ok d" and "CHR '':'' \<notin> set x"
  shows "index_ok (sadd now k x d)"
proof (rule index_okI)
  fix k' xs e
  assume "dict_get (sadd now k x d) k' = Some (xs, e)"
  then show "e = None \<and> (\<forall>i\<in>set xs. CHR '':'' \<notin> set i)"
    using index_okD [OF assms(1), of k'] assms(2)
    by (cases "dict_get d k") (auto simp: sadd_get [OF assms(1)] split: if_splits)
qed

lemma index_ok_srem:
  assumes "index_ok d"
  shows "index_ok (srem now k x d)"
proof (rule index_okI)
  fix k' xs e
  assume "dict_get (srem now k x d) k' = Some (xs, e)"
  then show "e = None \<and> (\<forall>i\<in>set xs. CHR '':'' \<notin> set i)"
    using index_okD [OF assms, of k']
    by (cases "dict_get d k") (auto simp: srem_get [OF assms] split: if_splits)
qed

lemma redis_add_eq:
  "redis_add (a, u, i) st t db = (\<lparr>rd_sessions = dict_put (redis_session_key a u i)
       (\<lparr>rx_app = a, rx_user = u, rx_id = i, rx_state = st, rx_created = t, rx_updated = t\<rparr>, None) (rd_sessions db),
     rd_reverse = dict_put (reverse_key i) (redis_session_key a u i, None) (rd_reverse db),
     rd_index = sadd t (index_key a u) i (rd_index db)\<rparr>, True)"
  by (simp add: redis_add_def redis_create_def apply_ttl_def redis_set_def Let_def)

lemma redis_ok_add:
  assumes "redis_ok db" and "plain_name (a, u, i)"
  shows "redis_ok (fst (redis_add (a, u, i) st t db))"
proof -
  note ix = redis_ok_index [OF assms(1)]
  have "blob_ok (sadd t (index_key a u) i (rd_index db)) k b" if "dict_get (rd_sessions db) k = Some b" for k b
    using redis_okD [OF assms(1) that] by (auto simp: blob_ok_def sadd_get [OF ix] split: option.split)
  moreover have "blob_ok (sadd t (index_key a u) i (rd_index db)) (redis_session_key a u i)
      (\<lparr>rx_app = a, rx_user = u, rx_id = i, rx_state = st, rx_created = t, rx_updated = t\<rparr>, None)"
    using assms(2) by (auto simp: blob_ok_def blob_key_def sadd_get [OF ix] split: option.split)
  ultimately have "blob_ok (rd_index (fst (redis_add (a, u, i) st t db))) k b"
    if "dict_get (rd_sessions (fst (redis_add (a, u, i) st t db))) k = Some b" for k b
    using that by (cases "k = redis_session_key a u i") (auto simp: redis_add_eq)
  moreover have "index_ok (rd_index (fst (redis_add (a, u, i) st t db)))"
    using index_ok_sadd [OF ix, of i] assms(2) by (simp add: redis_add_eq)
  ultimately show ?thesis unfolding redis_ok_def by blast
qed

lemma redis_ok_delete:
  assumes "redis_ok db" and "plain_name (a, u, i)"
  shows "redis_ok (redis_delete now (a, u, i) db)"
proof -
  note ix = redis_ok_index [OF assms(1)]
  have "blob_ok (srem now (index_key a u) i (rd_index db)) k b" if b: "dict_get (rd_sessions db) k = Some b" "k \<noteq> redis_session_key a u i" for k b
  proof -
    let ?x = "fst b"
    obtain xs where *: "snd b = None" "k = blob_key ?x" "plain_name (rx_app ?x, rx_user ?x, rx_id ?x)"
      "dict_get (rd_index db) (index_key (rx_app ?x) (rx_user ?x)) = Some (xs, None)" "rx_id ?x \<in> set xs"
      using redis_okD [OF assms(1) b(1)] by (auto simp: blob_ok_def)
    have "index_key a u = index_key (rx_app ?x) (rx_user ?x) \<Longrightarrow> rx_id ?x \<noteq> i"
      using b(2) * assms(2) by (auto simp: blob_key_def index_key_inj)
    then show ?thesis
      using * by (auto simp: blob_ok_def srem_get [OF ix] removeAll_filter_not_eq filter_empty_conv split: option.split)
  qed
  then show ?thesis
    using index_ok_srem [OF ix] unfolding redis_ok_def redis_delete_def by (auto split: if_splits)
qed

lemma delete_members_fields:
  "dict_get (rd_sessions (delete_members a u is' db)) k = (if k \<in> redis_session_key a u ` set is' then None else dict_get (rd_sessions db) k)"
  "rd_index (delete_members a u is' db) = rd_index db"
  by (induction a u is' db rule: delete_members.induct) auto

lemma delete_all_get:
  assumes "redis_ok db" and "CHR '':'' \<notin> set a" and "dict_get (rd_sessions db) k = Some b"
  shows "dict_get (rd_sessions (redis_delete_all now a u db)) k = (if rx_app (fst b) = a \<and> rx_user (fst b) = u then None else Some b)"
proof -
  let ?x = "fst b"
  obtain xs where *: "k = blob_key ?x" "plain_name (rx_app ?x, rx_user ?x, rx_id ?x)"
    "dict_get (rd_index db) (index_key (rx_app ?x) (rx_user ?x)) = Some (xs, None)" "rx_id ?x \<in> set xs"
    using redis_okD [OF assms(1,3)] by (auto simp: blob_ok_def)
  have member: "CHR '':'' \<notin> set i" if "i \<in> set (smembers now (index_key a u) (rd_index db))" for i
    using that index_okD [OF redis_ok_index [OF assms(1)]] by (auto simp: smembers_def redis_read_def split: option.splits if_splits)
  have "k \<in> redis_session_key a u ` set (smembers now (index_key a u) (rd_index db)) \<longleftrightarrow> rx_app ?x = a \<and> rx_user ?x = u"
  proof
    assume "k \<in> redis_session_key a u ` set (smembers now (index_key a u) (rd_index db))"
    then show "rx_app ?x = a \<and> rx_user ?x = u"
      using * assms(2) member by (auto simp: blob_key_def session_key_inj)
  next
    assume "rx_app ?x = a \<and> rx_user ?x = u"
    then show "k \<in> redis_session_key a u ` set (smembers now (index_key a u) (rd_index db))"
      using * by (auto simp: blob_key_def smembers_def redis_read_def)
  qed
  then show ?thesis
    using assms(3) by (simp add: redis_delete_all_def Let_def delete_members_fields)
qed

lemma delete_all_absent: "dict_get (rd_sessions db) k = None \<Longrightarrow> dict_get (rd_sessions (redis_delete_all now a u db)) k = None"
  by (simp add: redis_delete_all_def Let_def delete_members_fields)

lemma redis_ok_delete_all:
  assumes "redis_ok db" and "CHR '':'' \<notin> set a"
  shows "redis_ok (redis_delete_all now a u db)"
proof -
  let ?db = "redis_delete_all now a u db"
  have ix: "rd_index ?db = dict_del (index_key a u) (rd_index db)"
    by (simp add: redis_delete_all_def Let_def delete_members_fields)
  have "blob_ok (rd_index ?db) k b" if k: "dict_get (rd_sessions ?db) k = Some b" for k b
  proof -
    obtain c where c: "dict_get (rd_sessions db) k = Some c"
      using k delete_all_absent [of db k now a u] by (cases "dict_get (rd_sessions db) k") auto
    then have "b = c" "\<not> (rx_app (fst b) = a \<and> rx_user (fst b) = u)"
      using k delete_all_get [OF assms c] by (auto split: if_splits)
    then show ?thesis
      using redis_okD [OF assms(1) c] assms(2) by (auto simp: blob_ok_def ix index_key_inj)
  qed
  moreover have "index_ok (rd_index ?db)"
    using redis_ok_index [OF assms(1)] by (auto simp: ix index_ok_def split: if_splits)
  ultimately show ?thesis unfolding redis_ok_def by blast
qed

lemma look_delete_all:
  assumes "redis_ok db" and "CHR '':'' \<notin> set a" and "plain_name (a', u', i')"
  shows "redis_look (a', u', i') (redis_delete_all now a u db) = (if a = a' \<and> u = u' then None else redis_look (a', u', i') db)"
proof (cases "dict_get (rd_sessions db) (redis_session_key a' u' i')")
  case None
  then show ?thesis
    using look_blob [OF assms(1)] look_blob [OF redis_ok_delete_all [OF assms(1,2)]] delete_all_absent [OF None] by simp
next
  case (Some b)
  have "plain_name (rx_app (fst b), rx_user (fst b), rx_id (fst b))" "redis_session_key a' u' i' = blob_key (fst b)"
    using redis_okD [OF assms(1) Some] by (simp_all add: blob_ok_def)
  then have "rx_app (fst b) = a' \<and> rx_user (fst b) = u'" using assms(3) by (simp add: blob_key_def session_key_inj)
  then show ?thesis
    using Some delete_all_get [OF assms(1,2) Some, of now u]
    by (cases b) (auto simp: look_blob [OF assms(1)] look_blob [OF redis_ok_delete_all [OF assms(1,2)]])
qed

lemma look_delete:
  assumes "redis_ok db" and "plain_name (a, u, i)" and "plain_name (a', u', i')"
  shows "redis_look (a', u', i') (redis_delete now (a, u, i) db) = (if (a, u, i) = (a', u', i') then None else redis_look (a', u', i') db)"
  unfolding look_blob [OF redis_ok_delete [OF assms(1,2)]] look_blob [OF assms(1)]
  using assms(2,3) by (simp add: redis_delete_def session_key_inj del: plain_name.simps)

interpretation redis: session_store_bulk redis_add redis_look "redis_delete 0" plain_name redis_ok "redis_delete_all 0"
proof
  fix s k k' st t s' b a u i a' u' i'
  show "\<lbrakk>redis_ok s; plain_name k; plain_name k'; redis_add k st t s = (s', True)\<rbrakk> \<Longrightarrow> redis_look k' s' = (if k = k' then Some st else redis_look k' s)"
  proof -
    assume *: "redis_ok s" "plain_name k" "plain_name k'" "redis_add k st t s = (s', True)"
    obtain a u i a' u' i' where k: "k = (a, u, i)" "k' = (a', u', i')" by (metis prod.exhaust)
    have "redis_ok s'" using redis_ok_add [of s a u i st t] * k by simp
    then show ?thesis
      using * k by (auto simp: look_blob redis_add_eq session_key_inj)
  qed
  show "redis_add k st t s = (s', False) \<Longrightarrow> s' = s"
    by (cases k) (simp add: redis_add_eq)
  show "\<lbrakk>redis_ok s; plain_name k; plain_name k'\<rbrakk> \<Longrightarrow> redis_look k' (redis_delete 0 k s) = (if k = k' then None else redis_look k' s)"
    by (cases k; cases k') (simp add: look_delete del: plain_name.simps)
  show "\<lbrakk>redis_ok s; plain_name k; redis_add k st t s = (s', b)\<rbrakk> \<Longrightarrow> redis_ok s'"
    using redis_ok_add [of s "fst k" "fst (snd k)" "snd (snd k)" st t] by (cases k) simp
  show "\<lbrakk>redis_ok s; plain_name k\<rbrakk> \<Longrightarrow> redis_ok (redis_delete 0 k s)"
    by (cases k) (simp add: redis_ok_delete)
  show "\<lbrakk>redis_ok s; plain_name (a, u, i); plain_name (a', u', i')\<rbrakk> \<Longrightarrow>
      redis_look (a', u', i') (redis_delete_all 0 a u s) = (if a = a' \<and> u = u' then None else redis_look (a', u', i') s)"
    by (simp add: look_delete_all)
  show "\<lbrakk>redis_ok s; plain_name (a, u, i)\<rbrakk> \<Longrightarrow> redis_ok (redis_delete_all 0 a u s)"
    by (simp add: redis_ok_delete_all)
qed

text \<open>
  Erasing a user in Redis is complete as long as keys do not expire: whatever was created and deleted
  before, no session of the user can be read afterwards until one is created for that user again.
\<close>

theorem redis_user_erased:
  assumes "list_all (\<lambda>x. plain_name (op_name x)) (before @ after)" and "plain_name (a, u, i)"
    and "list_all (\<lambda>x. creates x \<longrightarrow> \<not> (fst (op_name x) = a \<and> fst (snd (op_name x)) = u)) after"
  shows "redis_look (a, u, i) (fold (session_op_step redis_add (redis_delete 0)) after
    (redis_delete_all 0 a u (fold (session_op_step redis_add (redis_delete 0)) before redis_new))) = None"
  by (rule redis.user_erased [OF redis.valid_run [OF redis_ok_new] assms(2)]) (use assms(1,3) in \<open>auto simp: list_all_iff\<close>)

theorem redis_user_erased_witness:
  "let db = fst (redis_add (''app'', ''u:1'', ''s'') [(''x'', JNull)] 5 redis_new)
   in redis_look (''app'', ''u:1'', ''s'') db = Some [(''x'', JNull)] \<and> redis_look (''app'', ''u:1'', ''s'') (redis_delete_all 0 ''app'' ''u:1'' db) = None"
proof -
  have "redis_look (''app'', ''u:1'', ''s'') (redis_delete_all 0 ''app'' ''u:1'' (fst (redis_add (''app'', ''u:1'', ''s'') [(''x'', JNull)] 5 redis_new))) = None"
    using redis_user_erased [of "[OpCreate (''app'', ''u:1'', ''s'') [(''x'', JNull)] 5]" "[]" "''app''" "''u:1''" "''s''"] by simp
  moreover have "redis_look (''app'', ''u:1'', ''s'') (fst (redis_add (''app'', ''u:1'', ''s'') [(''x'', JNull)] 5 redis_new)) = Some [(''x'', JNull)]"
    by (subst look_blob [OF redis_ok_add [OF redis_ok_new]]) (simp_all add: redis_add_eq redis_new_def)
  ultimately show ?thesis by (simp add: Let_def)
qed

section \<open>With an expiry\<close>

text \<open>
  With an expiry a session outlives the keys that lead to it. An event keeps the session alive but
  not its reverse key and its index: after the lifetime counted from the creation the session can be read,
  yet no event can be appended, it is not listed, and erasing its user leaves it there.
\<close>

theorem redis_session_outlives_its_index:
  assumes "t1 < t0 + sint n * 1000000000" and "t0 \<le> t1"
    and "t0 + sint n * 1000000000 \<le> now" and "now < t1 + sint n * 1000000000"
    and "db = fst (redis_append (Some n) t1 i e (fst (redis_create (Some n) uuid t0 (request_for (a, u, i) st) redis_new
      :: redis_db \<times> (store_error, 'p session) result)))"
  shows "redis_get now (lookup_for (a, u, i)) db = (Ok \<lparr>ss_app = a, ss_user = u, ss_id = i, ss_state = extend_state (ev_state_delta e) st,
        ss_events = [], ss_updated = ev_timestamp e\<rparr> :: (store_error, 'p session) result)
    \<and> redis_append (Some n) now i e' db = (db, Err SessionNotFound)
    \<and> redis_list now \<lparr>lq_app = a, lq_user = u, lq_limit = None, lq_offset = None\<rparr> db = ([] :: 'p session list)
    \<and> redis_get now (lookup_for (a, u, i)) (redis_delete_all now a u db) = (redis_get now (lookup_for (a, u, i)) db :: (store_error, 'p session) result)"
proof -
  let ?T = "sint n * 1000000000" and ?key = "redis_session_key a u i"
  define x where "x = \<lparr>rx_app = a, rx_user = u, rx_id = i, rx_state = st, rx_created = t0, rx_updated = t0\<rparr>"
  define x' where "x' = x\<lparr>rx_state := extend_state (ev_state_delta e) st, rx_updated := ev_timestamp e\<rparr>"
  have "fst (redis_create (Some n) uuid t0 (request_for (a, u, i) st) redis_new :: redis_db \<times> (store_error, 'p session) result)
      = \<lparr>rd_sessions = [(?key, (x, Some (t0 + ?T)))], rd_reverse = [(reverse_key i, (?key, Some (t0 + ?T)))],
         rd_index = [(index_key a u, ([i], Some (t0 + ?T)))]\<rparr>"
    by (simp add: redis_create_def redis_new_def apply_ttl_def redis_set_def expire_def redis_read_def sadd_def Let_def x_def)
  then have db: "db = \<lparr>rd_sessions = [(?key, (x', Some (t1 + ?T)))], rd_reverse = [(reverse_key i, (?key, Some (t0 + ?T)))],
      rd_index = [(index_key a u, ([i], Some (t0 + ?T)))]\<rparr>"
    using assms(1,5) by (simp add: redis_append_def redis_read_def apply_ttl_def redis_set_def expire_def Let_def x_def x'_def extend_state_def)
  have "redis_get now (lookup_for (a, u, i)) db = (Ok (redis_session x') :: (store_error, 'p session) result)"
    using assms(4) by (simp add: db redis_get_def lookup_for_def redis_read_def)
  moreover have "redis_get now (lookup_for (a, u, i)) (redis_delete_all now a u db) = (Ok (redis_session x') :: (store_error, 'p session) result)"
    using assms(3,4) by (simp add: db redis_get_def lookup_for_def redis_read_def redis_delete_all_def smembers_def)
  moreover have "redis_append (Some n) now i e' db = (db, Err SessionNotFound)"
    using assms(3) by (simp add: db redis_append_def redis_read_def)
  moreover have "redis_list now \<lparr>lq_app = a, lq_user = u, lq_limit = None, lq_offset = None\<rparr> db = ([] :: 'p session list)"
    using assms(3) by (simp add: db redis_list_def smembers_def redis_read_def page_def List.map_filter_def)
  ultimately show ?thesis by (simp add: redis_session_def x'_def x_def)
qed

theorem redis_session_outlives_its_index_witness:
  "let db = fst (redis_append (Some 60) 50000000000 ''s'' demo_event (fst (redis_create (Some 60) ''u'' 0 (request_for (''app'', ''u:1'', ''s'') []) redis_new
      :: redis_db \<times> (store_error, unit session) result)))
   in snd (redis_append (Some 60) 70000000000 ''s'' demo_event db) = Err SessionNotFound
     \<and> redis_look (''app'', ''u:1'', ''s'') db = Some [(''x'', JInt 2)]"
proof -
  define db where "db = fst (redis_append (Some 60) 50000000000 ''s'' demo_event (fst (redis_create (Some 60) ''u'' 0 (request_for (''app'', ''u:1'', ''s'') []) redis_new
      :: redis_db \<times> (store_error, unit session) result)))"
  have "sint (60 :: 64 word) = 60" by simp
  then have "redis_append (Some 60) 70000000000 ''s'' demo_event db = (db, Err SessionNotFound)"
    by (intro redis_session_outlives_its_index [OF _ _ _ _ db_def, of 70000000000 demo_event, THEN conjunct2, THEN conjunct1]) simp_all
  moreover have "redis_look (''app'', ''u:1'', ''s'') db = Some [(''x'', JInt 2)]"
    by (simp add: db_def redis_look_def redis_get_def lookup_for_def state_of_def redis_append_def redis_create_def redis_new_def
        apply_ttl_def redis_set_def expire_def redis_read_def sadd_def Let_def redis_session_def demo_event_def extend_state_def)
  ultimately show ?thesis unfolding Let_def db_def by simp
qed

end
