(* ===== verification/F64.thy ===== *)
theory F64
  imports Json
begin

text \<open>
  The \<open>f64\<close> of Rust as its 64 bits, with the operations the sources use: comparison, addition with
  rounding to nearest even, conversion from integers and \<open>str::parse\<close>. Every finite value is an
  integer times a power of two, so all roundings are one rounding of a ratio of naturals.
\<close>

section \<open>Decoding\<close>

definition f64_exp :: "64 word \<Rightarrow> nat" where
  "f64_exp w = unat w div 2 ^ 52 mod 2048"

definition f64_frac :: "64 word \<Rightarrow> nat" where
  "f64_frac w = unat w mod 2 ^ 52"

definition f64_neg :: "64 word \<Rightarrow> bool" where
  "f64_neg w \<longleftrightarrow> 2 ^ 63 \<le> unat w"

definition f64_is_nan :: "64 word \<Rightarrow> bool" where
  "f64_is_nan w \<longleftrightarrow> f64_exp w = 2047 \<and> f64_frac w \<noteq> 0"

definition f64_is_inf :: "64 word \<Rightarrow> bool" where
  "f64_is_inf w \<longleftrightarrow> f64_exp w = 2047 \<and> f64_frac w = 0"

definition f64_is_finite :: "64 word \<Rightarrow> bool" where
  "f64_is_finite w \<longleftrightarrow> f64_exp w \<noteq> 2047"

text \<open>A finite value in units of the smallest positive one, \<open>2 ^ -1074\<close>.\<close>

definition f64_units :: "64 word \<Rightarrow> int" where
  "f64_units w =
     (let m = (if f64_exp w = 0 then f64_frac w else (f64_frac w + 2 ^ 52) * 2 ^ (f64_exp w - 1))
      in if f64_neg w then - int m else int m)"

section \<open>Comparison\<close>

text \<open>The order of the bits is the order of the values once the sign is split off.\<close>

definition f64_key :: "64 word \<Rightarrow> int" where
  "f64_key w = (let m = int (unat w mod 2 ^ 63) in if f64_neg w then - m else m)"

definition f64_less :: "64 word \<Rightarrow> 64 word \<Rightarrow> bool" where
  "f64_less a b \<longleftrightarrow> \<not> f64_is_nan a \<and> \<not> f64_is_nan b \<and> f64_key a < f64_key b"

definition f64_le :: "64 word \<Rightarrow> 64 word \<Rightarrow> bool" where
  "f64_le a b \<longleftrightarrow> \<not> f64_is_nan a \<and> \<not> f64_is_nan b \<and> f64_key a \<le> f64_key b"

lemma f64_less_irrefl [simp]: "\<not> f64_less a a"
  by (simp add: f64_less_def)

lemma f64_less_trans: "\<lbrakk>f64_less a b; f64_less b c\<rbrakk> \<Longrightarrow> f64_less a c"
  by (simp add: f64_less_def)

lemma f64_less_le_total: "\<lbrakk>\<not> f64_is_nan a; \<not> f64_is_nan b\<rbrakk> \<Longrightarrow> f64_less a b \<noteq> f64_le b a"
  by (auto simp: f64_less_def f64_le_def)

section \<open>Rounding\<close>

fun bit_length :: "nat \<Rightarrow> nat" where
  "bit_length n = (if n = 0 then 0 else Suc (bit_length (n div 2)))"

declare bit_length.simps [simp del]

lemma bit_length_0 [simp]: "bit_length 0 = 0"
  by (simp add: bit_length.simps)

lemma bit_length_bounds: "n > 0 \<Longrightarrow> 2 ^ (bit_length n - 1) \<le> n \<and> n < 2 ^ bit_length n"
proof (induction n rule: bit_length.induct)
  case (1 n)
  show ?case
  proof (cases "n = 1")
    case True
    then show ?thesis by (simp add: bit_length.simps)
  next
    case False
    then have pos: "n div 2 > 0" using 1(2) by simp
    have IH: "2 ^ (bit_length (n div 2) - 1) \<le> n div 2" "n div 2 < 2 ^ bit_length (n div 2)"
      using 1(1) [OF _ pos] 1(2) by simp_all
    have b: "bit_length n = Suc (bit_length (n div 2))" using 1(2) by (simp add: bit_length.simps)
    obtain k where k: "bit_length (n div 2) = Suc k"
      using IH(2) pos by (cases "bit_length (n div 2)") auto
    have "2 ^ Suc k \<le> 2 * (n div 2)" using IH(1) by (simp add: k)
    moreover have "n < 2 * 2 ^ bit_length (n div 2)" using IH(2) by (simp add: div_less_iff_less_mult mult.commute)
    ultimately show ?thesis by (simp add: b k)
  qed
qed

text \<open>\<open>p / q\<close> to the nearest integer, ties to the even one.\<close>

definition div_even :: "nat \<Rightarrow> nat \<Rightarrow> nat" where
  "div_even p q = (let d = p div q; r = p mod q
     in if 2 * r < q \<or> (2 * r = q \<and> even d) then d else d + 1)"

text \<open>
  The bits of the positive \<open>p / q\<close> given in units: with \<open>k\<close> the number of low bits that do not fit
  into 53, the significand is rounded and put under the exponent; a carry of the rounding moves into
  the exponent by itself, and what reaches the infinite exponent is infinity.
\<close>

definition f64_pack :: "nat \<Rightarrow> nat \<Rightarrow> nat" where
  "f64_pack p q =
     (let n = p div q; k = bit_length n - 53; m = div_even p (q * 2 ^ k);
          bits = (if k = 0 then m else m + k * 2 ^ 52)
      in min bits (2047 * 2 ^ 52))"

definition f64_sign :: "bool \<Rightarrow> nat \<Rightarrow> 64 word" where
  "f64_sign neg bits = word_of_nat (if neg then bits + 2 ^ 63 else bits)"

definition f64_nan :: "64 word" where "f64_nan = 0x7FF8000000000000"

definition f64_of_units :: "int \<Rightarrow> 64 word" where
  "f64_of_units n = f64_sign (n < 0) (f64_pack (nat \<bar>n\<bar>) 1)"

definition f64_of_int :: "int \<Rightarrow> 64 word" where
  "f64_of_int n = f64_of_units (n * 2 ^ 1074)"

definition f64_add :: "64 word \<Rightarrow> 64 word \<Rightarrow> 64 word" where
  "f64_add a b =
     (if f64_is_nan a \<or> f64_is_nan b \<or> (f64_is_inf a \<and> f64_is_inf b \<and> f64_neg a \<noteq> f64_neg b) then f64_nan
      else if f64_is_inf a then a
      else if f64_is_inf b then b
      else let s = f64_units a + f64_units b
           in if s = 0 then f64_sign (f64_neg a \<and> f64_neg b) 0 else f64_of_units s)"

section \<open>Parsing\<close>

definition is_digit :: "char \<Rightarrow> bool" where
  "is_digit c \<longleftrightarrow> 48 \<le> (of_char c :: nat) \<and> (of_char c :: nat) \<le> 57"

definition digits_val :: "string \<Rightarrow> nat" where
  "digits_val s = fold (\<lambda>c n. 10 * n + (of_char c - 48)) s 0"

text \<open>A sign, if there is one, and the rest.\<close>

definition split_sign :: "string \<Rightarrow> bool \<times> string" where
  "split_sign s = (case strip_prefix ''-'' s of Some r \<Rightarrow> (True, r)
     | None \<Rightarrow> (case strip_prefix ''+'' s of Some r \<Rightarrow> (False, r) | None \<Rightarrow> (False, s)))"

text \<open>\<open>str::parse\<close> of an unsigned integer with at most \<open>max\<close>: an optional plus sign and digits.\<close>

definition parse_unsigned :: "nat \<Rightarrow> string \<Rightarrow> nat option" where
  "parse_unsigned mx s =
     (let ds = (case strip_prefix ''+'' s of Some r \<Rightarrow> r | None \<Rightarrow> s)
      in if ds \<noteq> [] \<and> list_all is_digit ds \<and> digits_val ds \<le> mx then Some (digits_val ds) else None)"

definition parse_u64 :: "string \<Rightarrow> nat option" where
  "parse_u64 = parse_unsigned 18446744073709551615"

text \<open>The exponent after an \<open>e\<close>: an optional sign and at least one digit.\<close>

definition parse_exponent :: "string \<Rightarrow> int option" where
  "parse_exponent s =
     (case split_sign s of (neg, ds) \<Rightarrow>
        if ds \<noteq> [] \<and> list_all is_digit ds
        then Some (if neg then - int (digits_val ds) else int (digits_val ds)) else None)"

text \<open>
  \<open>str::parse::<f64>\<close>: a sign, then \<open>inf\<close>, \<open>infinity\<close> or \<open>nan\<close> in any case, or digits with an
  optional point (at least one digit in all) and an optional exponent, correctly rounded.
\<close>

definition parse_decimal :: "string \<Rightarrow> (nat \<times> int) option" where
  "parse_decimal s =
     (let (mant, ex) = (case split_once (CHR ''e'') (map ascii_lower s) of
            Some (a, b) \<Rightarrow> (a, parse_exponent b) | None \<Rightarrow> (s, Some 0));
          (ip, fp) = (case split_once (CHR ''.'') mant of Some (a, b) \<Rightarrow> (a, b) | None \<Rightarrow> (mant, []))
      in if ip @ fp \<noteq> [] \<and> list_all is_digit (ip @ fp)
         then map_option (\<lambda>e. (digits_val (ip @ fp), e - int (length fp))) ex else None)"

definition parse_f64 :: "string \<Rightarrow> 64 word option" where
  "parse_f64 s =
     (case split_sign s of (neg, r) \<Rightarrow>
        if map ascii_lower r = ''nan'' then Some f64_nan
        else if map ascii_lower r \<in> {''inf'', ''infinity''} then Some (f64_sign neg (2047 * 2 ^ 52))
        else map_option (\<lambda>(m, e). f64_sign neg
               (if e \<ge> 0 then f64_pack (m * 10 ^ nat e * 2 ^ 1074) 1 else f64_pack (m * 2 ^ 1074) (10 ^ nat (- e))))
             (parse_decimal r))"

text \<open>Printed integers are read back.\<close>

lemma show_nat_digits: "list_all is_digit (show_nat n)"
proof (induction n rule: show_nat.induct)
  case (1 n)
  have "n mod 10 < 10" by simp
  then have "(48 + n mod 10) mod 256 = 48 + n mod 10" by (intro mod_less) linarith
  then have "is_digit (digit_char n)" using \<open>n mod 10 < 10\<close> by (simp add: is_digit_def)
  then show ?case using 1 by (subst show_nat.simps) auto
qed

lemma digits_val_snoc: "digits_val (s @ [c]) = 10 * digits_val s + (of_char c - 48)"
  by (simp add: digits_val_def)

lemma digit_char_val: "of_char (digit_char n) - 48 = (n mod 10 :: nat)"
proof -
  have "n mod 10 < 10" by simp
  then have "(48 + n mod 10) mod 256 = 48 + n mod 10" by (intro mod_less) linarith
  then show ?thesis by simp
qed

lemma digits_val_show: "digits_val (show_nat n) = n"
proof (induction n rule: show_nat.induct)
  case (1 n)
  have "digits_val [digit_char n] = n mod 10"
    using digits_val_snoc [of "[]" "digit_char n"] digit_char_val [of n] by (simp add: digits_val_def)
  then show ?case
    using 1 digit_char_val [of n] by (subst show_nat.simps) (simp add: digits_val_snoc del: digit_char.simps)
qed

lemma show_nat_nonempty [simp]: "show_nat n \<noteq> []"
  by (subst show_nat.simps) simp

section \<open>Numbers of JSON values\<close>

text \<open>\<open>Value::as_f64\<close>, and \<open>json!\<close> of an \<open>f64\<close>, which has no JSON form unless it is finite.\<close>

fun as_f64 :: "json \<Rightarrow> 64 word option" where
  "as_f64 (JInt n) = Some (f64_of_int n)"
| "as_f64 (JFloat w) = Some w"
| "as_f64 _ = None"

definition json_f64 :: "64 word \<Rightarrow> json" where
  "json_f64 w = (if f64_is_finite w then JFloat w else JNull)"

section \<open>Integers that fit into 53 bits\<close>

lemma bit_length_shift: "n > 0 \<Longrightarrow> bit_length (n * 2 ^ i) = bit_length n + i"
  by (induction i) (simp_all add: bit_length.simps [of "n * (2 * 2 ^ _)"])

lemma div_even_exact: "q > 0 \<Longrightarrow> div_even (m * q) q = m"
  by (simp add: div_even_def Let_def)

lemma pack_int:
  assumes "0 < n" "n < 2 ^ 53"
  shows "\<exists>k m. f64_pack (n * 2 ^ 1074) 1 = m + k * 2 ^ 52 \<and> 0 < k \<and> k \<le> 1074 \<and> 2 ^ 52 \<le> m \<and> m < 2 ^ 53 \<and>
    m * 2 ^ k = n * 2 ^ 1074"
proof -
  define b where "b = bit_length n"
  have bounds: "2 ^ (b - 1) \<le> n" "n < 2 ^ b" using bit_length_bounds [OF assms(1)] by (simp_all add: b_def)
  have "b > 0" using bounds(2) assms(1) by (cases b) auto
  have "b \<le> 53"
  proof (rule ccontr)
    assume "\<not> b \<le> 53"
    then have "(2 :: nat) ^ 53 \<le> 2 ^ (b - 1)" by (intro power_increasing) auto
    then show False using bounds(1) assms(2) by simp
  qed
  define m where "m = n * 2 ^ (53 - b)"
  define k where "k = b + 1021"
  have split: "(2 :: nat) ^ 1074 = 2 ^ (53 - b) * 2 ^ k"
    using \<open>b \<le> 53\<close> by (simp add: k_def flip: power_add)
  have mk: "m * 2 ^ k = n * 2 ^ 1074" unfolding m_def split by (simp only: mult.assoc)
  have p: "2 ^ 52 = (2 :: nat) ^ (b - 1) * 2 ^ (53 - b)" "2 ^ 53 = (2 :: nat) ^ b * 2 ^ (53 - b)"
    using \<open>b \<le> 53\<close> \<open>b > 0\<close> by (simp_all flip: power_add)
  have m: "2 ^ 52 \<le> m" "m < 2 ^ 53"
    unfolding m_def p by (rule mult_le_mono1 [OF bounds(1)]) (use bounds(2) in simp)
  have bl: "bit_length (n * 2 ^ 1074) = b + 1074" by (simp only: b_def bit_length_shift [OF assms(1)])
  have "b + 1074 - 53 = k" by (simp add: k_def)
  moreover have "div_even (n * 2 ^ 1074) (2 ^ k) = m"
    unfolding mk [symmetric] by (rule div_even_exact) simp
  moreover have "m + k * 2 ^ 52 \<le> 2047 * 2 ^ 52" using m(2) \<open>b \<le> 53\<close> by (simp add: k_def)
  moreover have "k \<noteq> 0" by (simp add: k_def)
  ultimately have "f64_pack (n * 2 ^ 1074) 1 = m + k * 2 ^ 52"
    unfolding f64_pack_def div_by_1 bl Let_def mult_1 by (simp only: if_False min.absorb1)
  then show ?thesis using m mk \<open>b \<le> 53\<close> by (intro exI [of _ k] exI [of _ m]) (simp add: k_def)
qed

text \<open>Such an integer is represented exactly, and a sum that fits is the exact sum.\<close>

lemma of_int_units:
  assumes "\<bar>n\<bar> < 2 ^ 53"
  shows "f64_units (f64_of_int n) = n * 2 ^ 1074 \<and> f64_is_finite (f64_of_int n) \<and> f64_neg (f64_of_int n) = (n < 0)"
proof (cases "n = 0")
  case True
  have "f64_of_int 0 = 0"
    by (simp add: f64_of_int_def f64_of_units_def f64_pack_def f64_sign_def div_even_def)
  then show ?thesis
    by (simp add: True f64_units_def f64_exp_def f64_frac_def f64_neg_def f64_is_finite_def)
next
  case False
  define N where "N = nat \<bar>n\<bar>"
  have N: "0 < N" "N < 2 ^ 53" using False assms by (simp_all add: N_def nat_less_iff)
  obtain k m where p: "f64_pack (N * 2 ^ 1074) 1 = m + k * 2 ^ 52" and k: "0 < k" "k \<le> 1074"
    and m: "2 ^ 52 \<le> m" "m < 2 ^ 53" and mk: "m * 2 ^ k = N * 2 ^ 1074"
    using pack_int [OF N] by blast
  define bits where "bits = m + k * 2 ^ 52"
  have b: "bits < 2 ^ 63" using m(2) k(2) by (simp add: bits_def)
  have w: "f64_of_int n = f64_sign (n < 0) bits"
    unfolding f64_of_int_def f64_of_units_def bits_def p [symmetric] N_def
    by (simp add: abs_mult nat_mult_distrib mult_less_0_iff nat_power_eq)
  have u: "unat (f64_of_int n) = (if n < 0 then bits + 2 ^ 63 else bits)"
    using b by (simp add: w f64_sign_def unat_of_nat)
  have md: "unat (f64_of_int n) mod 2 ^ 63 = bits" using b by (simp add: u)
  have d: "bits div 2 ^ 52 = Suc k" "bits mod 2 ^ 52 = m - 2 ^ 52"
  proof -
    have "bits = (m - 2 ^ 52) + Suc k * 2 ^ 52" using m(1) by (simp add: bits_def)
    moreover have "m - 2 ^ 52 < 2 ^ 52" using m(2) by simp
    ultimately show "bits div 2 ^ 52 = Suc k" "bits mod 2 ^ 52 = m - 2 ^ 52"
      by (simp_all only: div_mult_self3 div_less mod_mult_self1 mod_less) simp
  qed
  have e: "f64_exp (f64_of_int n) = Suc k"
  proof -
    have "unat (f64_of_int n) div 2 ^ 52 = (if n < 0 then Suc k + 2048 else Suc k)"
    proof -
      have "(bits + 2 ^ 63) div 2 ^ 52 = (bits + 2048 * 2 ^ 52) div 2 ^ 52" by simp
      also have "\<dots> = bits div 2 ^ 52 + 2048" by (subst div_mult_self1) simp_all
      finally show ?thesis using d(1) by (simp add: u)
    qed
    moreover have "(Suc k + 2048) mod 2048 = Suc k" "Suc k mod 2048 = Suc k"
      using k(2) by (simp_all only: mod_add_self2 mod_less)
    ultimately show ?thesis by (simp add: f64_exp_def)
  qed
  have f: "f64_frac (f64_of_int n) = m - 2 ^ 52"
  proof -
    have "(bits + 2 ^ 63) mod 2 ^ 52 = (bits + 2048 * 2 ^ 52) mod 2 ^ 52" by simp
    also have "\<dots> = bits mod 2 ^ 52" by (rule mod_mult_self1)
    finally show ?thesis using d(2) by (simp add: f64_frac_def u)
  qed
  have neg: "f64_neg (f64_of_int n) = (n < 0)" using b by (simp add: f64_neg_def u)
  have "int (m * 2 ^ k) = \<bar>n\<bar> * 2 ^ 1074" unfolding mk by (simp add: N_def)
  then have "f64_units (f64_of_int n) = n * 2 ^ 1074"
    using m(1) k(1) unfolding f64_units_def e f neg Let_def by (cases "n < 0") simp_all
  moreover have "f64_is_finite (f64_of_int n)" using k(2) by (simp add: f64_is_finite_def e)
  ultimately show ?thesis using neg by blast
qed

lemma add_int_exact:
  assumes "\<bar>a\<bar> < 2 ^ 53" "\<bar>b\<bar> < 2 ^ 53"
  shows "f64_add (f64_of_int a) (f64_of_int b) = f64_of_int (a + b)"
proof -
  have u: "f64_units (f64_of_int a) + f64_units (f64_of_int b) = (a + b) * 2 ^ 1074"
    using of_int_units [OF assms(1)] of_int_units [OF assms(2)] by (simp add: distrib_right)
  have fin: "f64_exp (f64_of_int a) \<noteq> 2047" "f64_exp (f64_of_int b) \<noteq> 2047"
    using of_int_units [OF assms(1)] of_int_units [OF assms(2)] by (simp_all add: f64_is_finite_def)
  have z: "f64_of_int 0 = f64_sign False 0"
    by (simp add: f64_of_int_def f64_of_units_def f64_pack_def div_even_def)
  have neg: "f64_neg (f64_of_int a) = (a < 0)" "f64_neg (f64_of_int b) = (b < 0)"
    using of_int_units [OF assms(1)] of_int_units [OF assms(2)] by simp_all
  show ?thesis
  proof (cases "a + b = 0")
    case True
    then have same: "(a < 0 \<and> b < 0) = False" by auto
    then show ?thesis
      unfolding f64_add_def f64_is_nan_def f64_is_inf_def Let_def u neg same using fin True by (simp add: z)
  next
    case False
    then show ?thesis
      unfolding f64_add_def f64_is_nan_def f64_is_inf_def Let_def u using fin by (simp add: f64_of_int_def)
  qed
qed

end
