(* ===== verification/FirestoreSessions.thy ===== *)
theory FirestoreSessions
  imports SessionStores F64
begin

text \<open>
  \<open>src/session_bridge.rs\<close>, the Firestore session service: JSON state as typed Firestore values and back,
  and the documents by their paths. The service answers every request: a PATCH stores the document, a
  GET gives it back, and a list gives at most one page, whose size is a parameter when the request names
  none. The RFC 3339 text of a time is a parameter.
\<close>

section \<open>Values\<close>

text \<open>Keys of an object are distinct, so inserting the fields one by one keeps their list.\<close>

function (sequential) json_to_firestore_value :: "json \<Rightarrow> json" where
  "json_to_firestore_value JNull = JObj [(''nullValue'', JNull)]"
| "json_to_firestore_value (JBool b) = JObj [(''booleanValue'', JBool b)]"
| "json_to_firestore_value (JInt n) =
     (if i64_min \<le> n \<and> n \<le> i64_max then JObj [(''integerValue'', JStr (show_int n))]
      else JObj [(''doubleValue'', json_f64 (f64_of_int n))])"
| "json_to_firestore_value (JFloat w) = JObj [(''doubleValue'', json_f64 w)]"
| "json_to_firestore_value (JStr s) = JObj [(''stringValue'', JStr s)]"
| "json_to_firestore_value (JArr xs) = JObj [(''arrayValue'', JObj [(''values'', JArr (map json_to_firestore_value xs))])]"
| "json_to_firestore_value (JObj m) = JObj [(''mapValue'', JObj [(''fields'', JObj (map (\<lambda>(k, v). (k, json_to_firestore_value v)) m))])]"
  by pat_completeness auto

termination
  by (relation "measure size") (auto dest: size_arr_elem size_obj_elem)

definition state_to_firestore_map :: "json dict \<Rightarrow> json" where
  "state_to_firestore_map st = JObj [(''mapValue'', JObj [(''fields'', JObj (map (\<lambda>(k, v). (k, json_to_firestore_value v)) st))])]"

text \<open>\<open>str::parse::<i64>\<close>.\<close>

definition parse_i64 :: "string \<Rightarrow> int option" where
  "parse_i64 s =
     (case split_sign s of (neg, ds) \<Rightarrow>
        (let n = (if neg then - int (digits_val ds) else int (digits_val ds))
         in if ds \<noteq> [] \<and> list_all is_digit ds \<and> i64_min \<le> n \<and> n \<le> i64_max then Some n else None))"

definition integer_value :: "json \<Rightarrow> json" where
  "integer_value i = (case i of JStr s \<Rightarrow> (case parse_i64 s of Some n \<Rightarrow> JInt n | None \<Rightarrow> i) | _ \<Rightarrow> i)"

definition array_values :: "json \<Rightarrow> json list" where
  "array_values a = (case jget a ''values'' of Some (JArr xs) \<Rightarrow> xs | _ \<Rightarrow> [])"

definition map_fields :: "json \<Rightarrow> (string \<times> json) list" where
  "map_fields a = (case jget a ''fields'' of Some (JObj fs) \<Rightarrow> fs | _ \<Rightarrow> [])"

lemma size_jget: "jget j k = Some v \<Longrightarrow> size v < size j"
  by (cases j) (auto dest!: dict_get_mem dest: size_obj_elem)

lemma size_array_values: "x \<in> set (array_values a) \<Longrightarrow> size x < size a"
proof -
  assume x: "x \<in> set (array_values a)"
  then obtain xs where "jget a ''values'' = Some (JArr xs)" "x \<in> set xs"
    by (auto simp: array_values_def split: option.splits json.splits) (metis option.inject)
  then show ?thesis using size_jget size_arr_elem less_trans by blast
qed

lemma size_map_fields: "(k, x) \<in> set (map_fields a) \<Longrightarrow> size x < size a"
proof -
  assume x: "(k, x) \<in> set (map_fields a)"
  then obtain fs where "jget a ''fields'' = Some (JObj fs)" "(k, x) \<in> set fs"
    by (auto simp: map_fields_def split: option.splits json.splits) (metis option.inject)
  then show ?thesis using size_jget size_obj_elem less_trans by blast
qed

function (sequential) firestore_value_to_json :: "json \<Rightarrow> json" where
  "firestore_value_to_json (JObj m) =
     (case dict_get m ''stringValue'' of Some s \<Rightarrow> s | None \<Rightarrow>
     (case dict_get m ''booleanValue'' of Some b \<Rightarrow> b | None \<Rightarrow>
     (case dict_get m ''integerValue'' of Some i \<Rightarrow> integer_value i | None \<Rightarrow>
     (case dict_get m ''doubleValue'' of Some f \<Rightarrow> f | None \<Rightarrow>
     (if dict_has m ''nullValue'' then JNull else
     (case dict_get m ''arrayValue'' of Some a \<Rightarrow> JArr (map firestore_value_to_json (array_values a)) | None \<Rightarrow>
     (case dict_get m ''mapValue'' of Some a \<Rightarrow> JObj (map (\<lambda>(k, v). (k, firestore_value_to_json v)) (map_fields a)) | None \<Rightarrow>
     (case dict_get m ''timestampValue'' of Some t \<Rightarrow> t | None \<Rightarrow> JObj m))))))))"
| "firestore_value_to_json v = v"
  by pat_completeness auto

termination
proof (relation "measure size")
  fix m a x
  assume *: "dict_get m ''arrayValue'' = Some a" "x \<in> set (array_values a)"
  then show "(x, JObj m) \<in> measure size"
    using size_jget [of "JObj m" "''arrayValue''" a] size_array_values [of x a] by simp
next
  fix m a and x :: "string \<times> json" and k v
  assume *: "dict_get m ''mapValue'' = Some a" "x \<in> set (map_fields a)" "(k, v) = x"
  then show "(v, JObj m) \<in> measure size"
    using size_jget [of "JObj m" "''mapValue''" a] size_map_fields [of k v a] by simp
qed simp

declare firestore_value_to_json.simps(1) [simp del]

definition parse_state :: "json \<Rightarrow> json dict" where
  "parse_state doc_fields =
     (case jget doc_fields ''state'' of
        Some f \<Rightarrow> (case jget f ''mapValue'' of Some a \<Rightarrow> map (\<lambda>(k, v). (k, firestore_value_to_json v)) (map_fields a) | None \<Rightarrow> [])
      | None \<Rightarrow> [])"

definition parse_updated :: "(string \<Rightarrow> int option) \<Rightarrow> int \<Rightarrow> json \<Rightarrow> int" where
  "parse_updated rfc now doc_fields =
     (case jget doc_fields ''updated_at'' of
        Some f \<Rightarrow> (case jget f ''timestampValue'' of
            Some (JStr s) \<Rightarrow> (case rfc s of Some t \<Rightarrow> t | None \<Rightarrow> now) | _ \<Rightarrow> now)
      | None \<Rightarrow> now)"

definition parse_document :: "(string \<Rightarrow> int option) \<Rightarrow> int \<Rightarrow> json \<Rightarrow> (json dict \<times> int) option" where
  "parse_document rfc now doc =
     (case jget doc ''fields'' of Some (JObj fs) \<Rightarrow> Some (parse_state (JObj fs), parse_updated rfc now (JObj fs)) | _ \<Rightarrow> None)"

section \<open>Documents\<close>

definition collection_path :: "string \<Rightarrow> string \<Rightarrow> string" where
  "collection_path app user = ''sessions/'' @ app @ ''/users/'' @ user @ ''/sessions''"

definition document_path :: "string \<Rightarrow> string \<Rightarrow> string \<Rightarrow> string" where
  "document_path app user sid = collection_path app user @ ''/'' @ sid"

type_synonym firestore_db = "json dict"

definition firestore_create ::
  "(int \<Rightarrow> string) \<Rightarrow> string \<Rightarrow> int \<Rightarrow> create_request \<Rightarrow> firestore_db \<Rightarrow> firestore_db \<times> (store_error, 'p session) result" where
  "firestore_create to_rfc uuid now r db =
     (case request_name uuid r of (a, u, i) \<Rightarrow>
        (dict_put (document_path a u i)
           (JObj [(''fields'', JObj [(''state'', state_to_firestore_map (rq_state r)),
              (''created_at'', JObj [(''timestampValue'', JStr (to_rfc now))]),
              (''updated_at'', JObj [(''timestampValue'', JStr (to_rfc now))])])]) db,
         Ok (created_session (a, u, i) (rq_state r) now)))"

definition firestore_get :: "(string \<Rightarrow> int option) \<Rightarrow> int \<Rightarrow> get_request \<Rightarrow> firestore_db \<Rightarrow> (store_error, 'p session) result" where
  "firestore_get rfc now r db =
     (case dict_get db (document_path (gq_app r) (gq_user r) (gq_session_id r)) of
        None \<Rightarrow> Err SessionNotFound
      | Some doc \<Rightarrow> (case parse_document rfc now doc of
            None \<Rightarrow> Err (StoreFailed ''firestore document parse failed'')
          | Some (st, t) \<Rightarrow> Ok \<lparr>ss_app = gq_app r, ss_user = gq_user r, ss_id = gq_session_id r, ss_state = st, ss_events = [], ss_updated = t\<rparr>))"

text \<open>The documents of a collection are those one step below it.\<close>

definition in_collection :: "string \<Rightarrow> string \<Rightarrow> bool" where
  "in_collection c p \<longleftrightarrow> (case strip_prefix (c @ ''/'') p of Some i \<Rightarrow> i \<noteq> [] \<and> CHR ''/'' \<notin> set i | None \<Rightarrow> False)"

definition last_segment :: "string \<Rightarrow> string" where
  "last_segment p = rev (takeWhile (\<lambda>c. c \<noteq> CHR ''/'') (rev p))"

definition firestore_list :: "(string \<Rightarrow> int option) \<Rightarrow> nat \<Rightarrow> int \<Rightarrow> list_request \<Rightarrow> firestore_db \<Rightarrow> 'p session list" where
  "firestore_list rfc page_size now r db =
     (let docs = take (case lq_limit r of Some l \<Rightarrow> l | None \<Rightarrow> page_size)
            (filter (\<lambda>d. in_collection (collection_path (lq_app r) (lq_user r)) (fst d)) db);
          found = List.map_filter (\<lambda>(p, doc). if last_segment p = [] then None
              else map_option (\<lambda>(st, t). \<lparr>ss_app = lq_app r, ss_user = lq_user r, ss_id = last_segment p, ss_state = st, ss_events = [], ss_updated = t\<rparr>)
                (parse_document rfc now doc)) docs
      in drop (case lq_offset r of Some n \<Rightarrow> n | None \<Rightarrow> 0) (sort_key (\<lambda>s. - ss_updated s) found))"

definition firestore_delete :: "session_name \<Rightarrow> firestore_db \<Rightarrow> firestore_db" where
  "firestore_delete k db = (case k of (a, u, i) \<Rightarrow> dict_del (document_path a u i) db)"

text \<open>The event is dropped.\<close>

definition firestore_append :: "string \<Rightarrow> 'p session_event \<Rightarrow> firestore_db \<Rightarrow> firestore_db \<times> (store_error, unit) result" where
  "firestore_append sid e db = (db, Ok ())"

definition firestore_delete_all :: "(string \<Rightarrow> int option) \<Rightarrow> nat \<Rightarrow> int \<Rightarrow> string \<Rightarrow> string \<Rightarrow> firestore_db \<Rightarrow> firestore_db" where
  "firestore_delete_all rfc page_size now a u db =
     fold (\<lambda>s. firestore_delete (a, u, ss_id s))
       (firestore_list rfc page_size now \<lparr>lq_app = a, lq_user = u, lq_limit = None, lq_offset = None\<rparr> db :: unit session list) db"

section \<open>What survives the conversion\<close>

fun firestore_exact :: "json \<Rightarrow> bool" where
  "firestore_exact (JInt n) \<longleftrightarrow> i64_min \<le> n \<and> n \<le> i64_max"
| "firestore_exact (JFloat w) \<longleftrightarrow> f64_is_finite w"
| "firestore_exact (JArr xs) \<longleftrightarrow> list_all firestore_exact xs"
| "firestore_exact (JObj m) \<longleftrightarrow> list_all (\<lambda>(k, v). firestore_exact v) m"
| "firestore_exact _ \<longleftrightarrow> True"

lemma first_digit:
  assumes "show_nat n = c # s"
  shows "c \<noteq> CHR ''-''" and "c \<noteq> CHR ''+''"
  using show_nat_digits [of n] by (auto simp: assms is_digit_def)

lemma split_sign_show: "split_sign (show_int n) = (n < 0, show_nat (nat (if n < 0 then - n else n)))"
proof (cases "n < 0")
  case True
  then show ?thesis by (simp add: split_sign_def show_int_def strip_prefix_def)
next
  case False
  obtain c s where c: "show_nat (nat n) = c # s" by (metis neq_Nil_conv show_nat_nonempty)
  then show ?thesis using False first_digit [OF c] by (simp add: split_sign_def show_int_def strip_prefix_def)
qed

lemma parse_show_i64: "\<lbrakk>i64_min \<le> n; n \<le> i64_max\<rbrakk> \<Longrightarrow> parse_i64 (show_int n) = Some n"
  by (simp add: parse_i64_def split_sign_show digits_val_show show_nat_digits)

lemma map_fixed: "map f xs = xs \<longleftrightarrow> (\<forall>x\<in>set xs. f x = x)"
  by (induction xs) auto

text \<open>
  Firestore gives back a state as it was stored if and only if every number in it fits: an integer into
  64 signed bits, a float as a finite one. Nothing else of a JSON value is changed, at any depth.
\<close>

theorem firestore_value_roundtrip:
  "firestore_value_to_json (json_to_firestore_value v) = v \<longleftrightarrow> firestore_exact v"
proof (induction v rule: json_induct)
  case (int n)
  then show ?case
    by (simp add: firestore_value_to_json.simps(1) integer_value_def parse_show_i64 json_f64_def)
next
  case (float w)
  then show ?case by (simp add: firestore_value_to_json.simps(1) json_f64_def)
next
  case (arr xs)
  then show ?case
    by (simp add: firestore_value_to_json.simps(1) dict_has_def array_values_def map_fixed list_all_iff o_def)
next
  case (obj m)
  then show ?case
    by (auto simp: firestore_value_to_json.simps(1) dict_has_def map_fields_def map_fixed list_all_iff o_def case_prod_unfold)
qed (simp_all add: firestore_value_to_json.simps(1) dict_has_def)

section \<open>The interface\<close>

definition exact_state :: "json dict \<Rightarrow> bool" where
  "exact_state st \<longleftrightarrow> list_all (\<lambda>(k, v). firestore_exact v) st"

text \<open>A client that stores exact states only; times are printed and read by a pair of inverse functions.\<close>

definition firestore_add :: "session_name \<Rightarrow> json dict \<Rightarrow> int \<Rightarrow> firestore_db \<Rightarrow> firestore_db \<times> bool" where
  "firestore_add k st t db =
     (if exact_state st
      then apsnd is_ok (firestore_create show_int [] t (request_for k st) db :: firestore_db \<times> (store_error, unit session) result)
      else (db, False))"

definition firestore_look :: "session_name \<Rightarrow> firestore_db \<Rightarrow> json dict option" where
  "firestore_look k db = state_of (firestore_get parse_i64 0 (lookup_for k) db :: (store_error, unit session) result)"

fun path_name :: "session_name \<Rightarrow> bool" where
  "path_name (a, u, i) \<longleftrightarrow> CHR ''/'' \<notin> set a \<and> CHR ''/'' \<notin> set u \<and> CHR ''/'' \<notin> set i"

lemma slash_sep: "\<lbrakk>CHR ''/'' \<notin> set a; CHR ''/'' \<notin> set a'\<rbrakk> \<Longrightarrow> a @ CHR ''/'' # x = a' @ CHR ''/'' # y \<longleftrightarrow> a = a' \<and> x = y"
  by (metis option.inject prod.inject split_once_append)

lemma document_path_inj:
  "\<lbrakk>path_name (a, u, i); path_name (a', u', i')\<rbrakk> \<Longrightarrow> document_path a u i = document_path a' u' i' \<longleftrightarrow> a = a' \<and> u = u' \<and> i = i'"
  by (simp add: document_path_def collection_path_def slash_sep)

lemma created_state:
  "parse_state (JObj [(''state'', state_to_firestore_map st), (''created_at'', x), (''updated_at'', y)]) = st \<longleftrightarrow> exact_state st"
  by (auto simp: parse_state_def state_to_firestore_map_def map_fields_def map_fixed exact_state_def list_all_iff o_def
      case_prod_unfold firestore_value_roundtrip [symmetric])

lemma firestore_look_doc:
  "firestore_look (a, u, i) db = (case dict_get db (document_path a u i) of None \<Rightarrow> None
     | Some doc \<Rightarrow> map_option fst (parse_document parse_i64 0 doc))"
  by (auto simp: firestore_look_def firestore_get_def lookup_for_def state_of_def split: option.split)

interpretation firestore: session_store firestore_add firestore_look firestore_delete path_name "\<lambda>db. True"
proof
  fix s k k' st t s'
  show "\<lbrakk>True; path_name k; path_name k'; firestore_add k st t s = (s', True)\<rbrakk> \<Longrightarrow> firestore_look k' s' = (if k = k' then Some st else firestore_look k' s)"
    using created_state [of st]
    by (cases k; cases k') (auto simp: firestore_add_def firestore_create_def firestore_look_doc document_path_inj parse_document_def
        simp del: path_name.simps split: if_splits)
  show "firestore_add k st t s = (s', False) \<Longrightarrow> s' = s"
    by (cases k) (auto simp: firestore_add_def firestore_create_def split: if_splits)
  show "\<lbrakk>True; path_name k; path_name k'\<rbrakk> \<Longrightarrow> firestore_look k' (firestore_delete k s) = (if k = k' then None else firestore_look k' s)"
    by (cases k; cases k') (auto simp: firestore_look_doc firestore_delete_def document_path_inj simp del: path_name.simps)
qed simp_all

section \<open>Erasing a user\<close>

definition user_documents :: "string \<Rightarrow> string \<Rightarrow> firestore_db \<Rightarrow> nat" where
  "user_documents a u db = length (filter (\<lambda>d. in_collection (collection_path a u) (fst d)) db)"

lemma dict_del_missing: "k \<notin> fst ` set d \<Longrightarrow> dict_del k d = d"
  by (induction d) auto

lemma length_filter_del: "dict_ok d \<Longrightarrow> length (filter P d) \<le> Suc (length (filter P (dict_del k d)))"
proof (induction d)
  case (Cons x d)
  obtain k' v where x: "x = (k', v)" by fastforce
  have d: "dict_ok d" "k' \<notin> fst ` set d" using Cons.prems x by (simp_all add: dict_ok_def)
  then show ?case
    using Cons.IH dict_del_missing [of k d] x by (cases "k' = k") (auto simp: le_Suc_eq)
qed simp

lemma length_filter_deletes:
  "dict_ok d \<Longrightarrow> length (filter P d) \<le> length ss + length (filter P (fold (\<lambda>s. firestore_delete (a, u, ss_id s)) ss d))"
proof (induction ss arbitrary: d)
  case (Cons s ss)
  have "length (filter P d) \<le> Suc (length (filter P (firestore_delete (a, u, ss_id s) d)))"
    using length_filter_del [OF Cons.prems] by (simp add: firestore_delete_def)
  moreover have "dict_ok (firestore_delete (a, u, ss_id s) d)"
    using Cons.prems by (simp add: firestore_delete_def)
  ultimately show ?case using Cons.IH [of "firestore_delete (a, u, ss_id s) d"] by simp
qed simp

lemma map_filter_length: "length (List.map_filter f xs) \<le> length xs"
  by (simp add: List.map_filter_def le_trans [OF length_filter_le])

text \<open>
  Erasing a user in Firestore stops after a page: it removes at most as many sessions as one list
  answer holds, because the token of the next page is not followed.
\<close>

theorem firestore_erases_one_page:
  assumes "dict_ok db"
  shows "user_documents a u db \<le> page_size + user_documents a u (firestore_delete_all rfc page_size now a u db)"
proof -
  define ss :: "unit session list" where
    "ss = firestore_list rfc page_size now \<lparr>lq_app = a, lq_user = u, lq_limit = None, lq_offset = None\<rparr> db"
  have "length ss \<le> page_size"
    using map_filter_length by (fastforce simp: ss_def firestore_list_def Let_def intro: order_trans)
  then show ?thesis
    using length_filter_deletes [OF assms, of "\<lambda>d. in_collection (collection_path a u) (fst d)" ss a u]
    by (simp add: user_documents_def firestore_delete_all_def ss_def)
qed

theorem firestore_erases_one_page_witness:
  "let db = fst (firestore_add (''app'', ''ann'', ''s'') [] 1 (fst (firestore_add (''app'', ''ann'', ''t'') [] 2 [])))
   in user_documents ''app'' ''ann'' db = 2 \<and> 1 \<le> user_documents ''app'' ''ann'' (firestore_delete_all parse_i64 1 3 ''app'' ''ann'' db)"
proof -
  define db where "db = fst (firestore_add (''app'', ''ann'', ''s'') [] 1 (fst (firestore_add (''app'', ''ann'', ''t'') [] 2 [])))"
  have "dict_ok db" and "user_documents ''app'' ''ann'' db = 2"
    by (simp_all add: db_def firestore_add_def firestore_create_def exact_state_def request_for_def request_name_def user_documents_def
        in_collection_def document_path_def collection_path_def strip_prefix_def dict_ok_def)
  then show ?thesis
    using firestore_erases_one_page [of db "''app''" "''ann''" 1 parse_i64 3] by (simp add: Let_def db_def [symmetric])
qed

end
