(* ===== verification/SessionBackend.thy ===== *)
theory SessionBackend
  imports SessionBridge
begin

text \<open>
  \<open>src/session_bridge.rs\<close> (\<open>create_session_service\<close>, \<open>validate_session_backend\<close>) and its use in
  \<open>src/gateway_state.rs\<close>: which session service the gateway starts with. Opening a service and its
  health check are parameters; which services are compiled in is a record.
\<close>

section \<open>Choosing and checking a service\<close>

record backend_features =
  bf_postgres :: bool
  bf_redis :: bool
  bf_firestore :: bool

datatype session_service = InMemoryService | SqliteService string | PostgresService string
  | RedisService string "64 word option" | FirestoreService string

definition opened :: "(session_service \<Rightarrow> (string, unit) result) \<Rightarrow> string \<Rightarrow> session_service \<Rightarrow> (string, session_service) result" where
  "opened connect label s = (case connect s of Ok _ \<Rightarrow> Ok s | Err e \<Rightarrow> Err (label @ '' session backend: '' @ e))"

text \<open>The lifetime of Redis keys: the idle minutes in seconds, in 64 bits.\<close>

definition redis_ttl :: "session_config \<Rightarrow> 64 word option" where
  "redis_ttl cfg = map_option (\<lambda>m. m * 60) (sr_idle_minutes (sn_reset cfg))"

definition create_session_service ::
  "backend_features \<Rightarrow> (session_service \<Rightarrow> (string, unit) result) \<Rightarrow> session_config \<Rightarrow> (string, session_service) result" where
  "create_session_service f connect cfg =
     (case sn_backend cfg of
        InMemory \<Rightarrow> Ok InMemoryService
      | Sqlite \<Rightarrow> opened connect ''sqlite'' (SqliteService (case sn_connection_string cfg of Some s \<Rightarrow> s | None \<Rightarrow> '':memory:''))
      | Postgres \<Rightarrow> (if bf_postgres f then (case sn_connection_string cfg of
            Some s \<Rightarrow> opened connect ''postgres'' (PostgresService s)
          | None \<Rightarrow> Err ''postgres session backend requires a connectionString'') else Ok InMemoryService)
      | Redis \<Rightarrow> (if bf_redis f then (case sn_connection_string cfg of
            Some s \<Rightarrow> opened connect ''redis'' (RedisService s (redis_ttl cfg))
          | None \<Rightarrow> Err ''redis session backend requires a connectionString'') else Ok InMemoryService)
      | Firestore \<Rightarrow> (if bf_firestore f then (case sn_connection_string cfg of
            Some s \<Rightarrow> opened connect ''firestore'' (FirestoreService s)
          | None \<Rightarrow> Err ''firestore session backend requires a connectionString (GCP project ID)'') else Ok InMemoryService))"

definition checked ::
  "(session_service \<Rightarrow> (string, unit) result) \<Rightarrow> (session_service \<Rightarrow> (string, unit) result) \<Rightarrow> string \<Rightarrow> session_service \<Rightarrow> (string, unit) result" where
  "checked connect health name s =
     (let failed = (\<lambda>e. Err (''session backend '' @ [CHR 0x27] @ name @ [CHR 0x27] @ '' connection failed: '' @ e))
      in case connect s of Err e \<Rightarrow> failed e | Ok _ \<Rightarrow> (case health s of Err e \<Rightarrow> failed e | Ok _ \<Rightarrow> Ok ()))"

definition backend_name :: "session_backend \<Rightarrow> string" where
  "backend_name b = (case b of InMemory \<Rightarrow> ''InMemory'' | Sqlite \<Rightarrow> ''Sqlite'' | Postgres \<Rightarrow> ''Postgres'' | Redis \<Rightarrow> ''Redis'' | Firestore \<Rightarrow> ''Firestore'')"

definition validate_session_backend ::
  "backend_features \<Rightarrow> (session_service \<Rightarrow> (string, unit) result) \<Rightarrow> (session_service \<Rightarrow> (string, unit) result) \<Rightarrow> session_config
     \<Rightarrow> (string, unit) result" where
  "validate_session_backend f connect health cfg =
     (let b = sn_backend cfg in
      if b = InMemory then Ok ()
      else case sn_connection_string cfg of
        None \<Rightarrow> Err (''session backend '' @ [CHR 0x27] @ backend_name b @ [CHR 0x27] @ '' requires a connectionString in config'')
      | Some s \<Rightarrow>
          (if b = Sqlite then checked connect health ''Sqlite'' (SqliteService s)
           else if b = Postgres \<and> bf_postgres f then checked connect health ''Postgres'' (PostgresService s)
           else if b = Redis \<and> bf_redis f then checked connect health ''Redis'' (RedisService s (redis_ttl cfg))
           else if b = Firestore \<and> bf_firestore f then checked connect health ''Firestore'' (FirestoreService s)
           else Ok ()))"

text \<open>Start-up creates the service and then validates the configuration.\<close>

definition start_sessions ::
  "backend_features \<Rightarrow> (session_service \<Rightarrow> (string, unit) result) \<Rightarrow> (session_service \<Rightarrow> (string, unit) result) \<Rightarrow> session_config
     \<Rightarrow> (string, session_service) result" where
  "start_sessions f connect health cfg =
     (case create_session_service f connect cfg of
        Err e \<Rightarrow> Err e
      | Ok s \<Rightarrow> (case validate_session_backend f connect health cfg of Err e \<Rightarrow> Err e | Ok _ \<Rightarrow> Ok s))"

section \<open>What the gateway runs with\<close>

text \<open>The service that a configuration asks for, where it is compiled in.\<close>

definition configured_service :: "backend_features \<Rightarrow> session_config \<Rightarrow> session_service option" where
  "configured_service f cfg =
     (case sn_connection_string cfg of
        None \<Rightarrow> None
      | Some s \<Rightarrow> (case sn_backend cfg of
          InMemory \<Rightarrow> None | Sqlite \<Rightarrow> Some (SqliteService s)
        | Postgres \<Rightarrow> if bf_postgres f then Some (PostgresService s) else None
        | Redis \<Rightarrow> if bf_redis f then Some (RedisService s (redis_ttl cfg)) else None
        | Firestore \<Rightarrow> if bf_firestore f then Some (FirestoreService s) else None))"

text \<open>
  The gateway starts exactly if no backend is configured, or one is with a connection string and it
  either opens and is healthy or is not compiled in; and in the last case, like in the first, it
  runs with sessions in memory.
\<close>

theorem started_service_exact:
  "start_sessions f connect health cfg = Ok s \<longleftrightarrow>
    (case configured_service f cfg of
       Some c \<Rightarrow> s = c \<and> is_ok (connect c) \<and> is_ok (health c)
     | None \<Rightarrow> s = InMemoryService \<and> (sn_backend cfg = InMemory \<or> (sn_connection_string cfg \<noteq> None \<and> sn_backend cfg \<noteq> Sqlite)))"
  by (cases "sn_backend cfg"; cases "sn_connection_string cfg")
    (auto simp: start_sessions_def create_session_service_def validate_session_backend_def configured_service_def opened_def
      checked_def Let_def is_ok_def split: sum.splits)

end
