(* ===== verification/CodingAgents.thy ===== *)
theory CodingAgents
  imports F64
begin

text \<open>
  \<open>src/coding_agent/config.rs\<close>, \<open>status.rs\<close>, \<open>error.rs\<close>, \<open>registry.rs\<close> and \<open>health_monitor.rs\<close>: the
  coding agents that tasks are delegated to, the registry of them with the events it broadcasts, and
  the monitor that probes their endpoints. The map operations of the registry are atomic.
\<close>

section \<open>Configuration\<close>

datatype agent_transport = Stdio string "string list" "string dict" | HttpTransport string

record agent_auth_config =
  aac_credentials :: "string option"
  aac_token :: "string option"
  aac_expires_at :: "int option"

record coding_agent_instance_config =
  cai_id :: string
  cai_backend_type :: string
  cai_endpoint :: string
  cai_transport :: "agent_transport option"
  cai_workspaces :: "string list"
  cai_timeout_secs :: "64 word option"
  cai_cost_cap_usd :: "64 word option"
  cai_monthly_budget_usd :: "64 word option"
  cai_alias :: "string option"
  cai_auth :: "agent_auth_config option"

datatype auth_method = ApiKey string | OAuth string string | CliLogin string | NoAuth

record agent_capabilities =
  cap_file_context :: bool
  cap_streaming_output :: bool
  cap_cost_reporting :: bool
  cap_cancellation :: bool

record backend_definition =
  bd_agent_type :: string
  bd_display_name :: string
  bd_cli_command :: string
  bd_install_check_command :: string
  bd_auth_method :: auth_method
  bd_capabilities :: agent_capabilities
  bd_install_instructions :: string
  bd_install_instructions_windows :: "string option"
  bd_install_instructions_linux :: "string option"

record coding_agents_config =
  cac_enabled :: bool
  cac_max_concurrent_tasks :: "32 word"
  cac_default_timeout_secs :: "64 word"
  cac_progress_interval_secs :: "64 word"
  cac_agents :: "coding_agent_instance_config list"
  cac_backends :: "backend_definition list"

definition default_coding_agents_config :: coding_agents_config where
  "default_coding_agents_config = \<lparr>cac_enabled = False, cac_max_concurrent_tasks = 3,
     cac_default_timeout_secs = 1800, cac_progress_interval_secs = 30, cac_agents = [], cac_backends = []\<rparr>"

definition validate_backend_definition :: "backend_definition \<Rightarrow> string list" where
  "validate_backend_definition d =
     (if trim (bd_agent_type d) = [] then [''agent_type''] else [])
     @ (if trim (bd_cli_command d) = [] then [''cli_command''] else [])
     @ (if trim (bd_install_check_command d) = [] then [''install_check_command''] else [])"

section \<open>Status and errors\<close>

datatype agent_connection_status = Connected | Disconnected int | ErrorStatus string int | Unknown

record agent_status_event =
  ase_agent_id :: string
  ase_previous_status :: agent_connection_status
  ase_new_status :: agent_connection_status
  ase_timestamp :: int

datatype coding_agent_error = ConfigValidation string | AgentNotFound string | AgentDisconnected string
  | DelegationFailed string | WorkspaceViolation string | CostCapExceeded "64 word" "64 word"

section \<open>The registry\<close>

record registered_agent =
  ra_id :: string
  ra_backend_type :: string
  ra_config :: coding_agent_instance_config
  ra_status :: agent_connection_status
  ra_last_health_check :: "int option"
  ra_last_successful_task :: "int option"
  ra_endpoint :: string

text \<open>Beside the maps: every event that was broadcast, oldest first.\<close>

record coding_agent_registry =
  cr_agents :: "registered_agent dict"
  cr_backends :: "backend_definition dict"
  cr_events :: "agent_status_event list"

definition cr_new :: coding_agent_registry where
  "cr_new = \<lparr>cr_agents = [], cr_backends = [], cr_events = []\<rparr>"

definition register_agent ::
  "coding_agent_instance_config \<Rightarrow> coding_agent_registry \<Rightarrow> coding_agent_registry \<times> (coding_agent_error, unit) result" where
  "register_agent c r =
     (if dict_has (cr_agents r) (cai_id c)
      then (r, Err (ConfigValidation (''Agent with id '' @ [CHR 0x27] @ cai_id c @ [CHR 0x27] @ '' is already registered'')))
      else (r\<lparr>cr_agents := dict_put (cai_id c) \<lparr>ra_id = cai_id c, ra_backend_type = cai_backend_type c, ra_config = c,
              ra_status = Unknown, ra_last_health_check = None, ra_last_successful_task = None,
              ra_endpoint = cai_endpoint c\<rparr> (cr_agents r)\<rparr>, Ok ()))"

definition unregister_agent ::
  "string \<Rightarrow> coding_agent_registry \<Rightarrow> coding_agent_registry \<times> (coding_agent_error, registered_agent) result" where
  "unregister_agent i r =
     (case dict_get (cr_agents r) i of
        Some a \<Rightarrow> (r\<lparr>cr_agents := dict_del i (cr_agents r)\<rparr>, Ok a) | None \<Rightarrow> (r, Err (AgentNotFound i)))"

definition get_agent :: "string \<Rightarrow> coding_agent_registry \<Rightarrow> registered_agent option" where
  "get_agent i r = dict_get (cr_agents r) i"

definition list_agents :: "coding_agent_registry \<Rightarrow> registered_agent list" where
  "list_agents r = map snd (cr_agents r)"

definition load_backends_from_config :: "backend_definition list \<Rightarrow> coding_agent_registry \<Rightarrow> coding_agent_registry" where
  "load_backends_from_config bs r =
     r\<lparr>cr_backends := fold (\<lambda>b. dict_put (bd_agent_type b) b) (filter (\<lambda>b. validate_backend_definition b = []) bs) []\<rparr>"

definition get_backend :: "string \<Rightarrow> coding_agent_registry \<Rightarrow> backend_definition option" where
  "get_backend t r = dict_get (cr_backends r) t"

definition list_backends :: "coding_agent_registry \<Rightarrow> backend_definition list" where
  "list_backends r = map snd (cr_backends r)"

definition from_config :: "coding_agents_config \<Rightarrow> coding_agent_registry" where
  "from_config cfg = fold (\<lambda>c r. fst (register_agent c r)) (cac_agents cfg) (load_backends_from_config (cac_backends cfg) cr_new)"

text \<open>\<open>str::to_lowercase\<close> is the parameter \<open>lower\<close>.\<close>

definition resolve_by_alias :: "(string \<Rightarrow> string) \<Rightarrow> string \<Rightarrow> coding_agent_registry \<Rightarrow> string option" where
  "resolve_by_alias lower alias r =
     map_option ra_id (find (\<lambda>a. case cai_alias (ra_config a) of Some b \<Rightarrow> lower b = lower alias | None \<Rightarrow> False) (list_agents r))"

definition update_status ::
  "int \<Rightarrow> string \<Rightarrow> agent_connection_status \<Rightarrow> coding_agent_registry \<Rightarrow> coding_agent_registry \<times> (coding_agent_error, unit) result" where
  "update_status now i new r =
     (case dict_get (cr_agents r) i of
        None \<Rightarrow> (r, Err (AgentNotFound i))
      | Some a \<Rightarrow>
          (if ra_status a \<noteq> new
           then (r\<lparr>cr_agents := dict_put i (a\<lparr>ra_status := new\<rparr>) (cr_agents r),
                   cr_events := cr_events r @ [\<lparr>ase_agent_id = i, ase_previous_status = ra_status a, ase_new_status = new, ase_timestamp = now\<rparr>]\<rparr>, Ok ())
           else (r, Ok ())))"

definition on_agent :: "string \<Rightarrow> (registered_agent \<Rightarrow> registered_agent) \<Rightarrow> coding_agent_registry \<Rightarrow> coding_agent_registry" where
  "on_agent i f r = (case dict_get (cr_agents r) i of Some a \<Rightarrow> r\<lparr>cr_agents := dict_put i (f a) (cr_agents r)\<rparr> | None \<Rightarrow> r)"

definition record_successful_task :: "int \<Rightarrow> string \<Rightarrow> coding_agent_registry \<Rightarrow> coding_agent_registry" where
  "record_successful_task now i = on_agent i (\<lambda>a. a\<lparr>ra_last_successful_task := Some now\<rparr>)"

definition record_health_check :: "int \<Rightarrow> string \<Rightarrow> coding_agent_registry \<Rightarrow> coding_agent_registry" where
  "record_health_check now i = on_agent i (\<lambda>a. a\<lparr>ra_last_health_check := Some now\<rparr>)"

definition agent_count :: "coding_agent_registry \<Rightarrow> nat" where
  "agent_count r = length (cr_agents r)"

definition backend_count :: "coding_agent_registry \<Rightarrow> nat" where
  "backend_count r = length (cr_backends r)"

definition reload_from_config :: "coding_agents_config \<Rightarrow> coding_agent_registry \<Rightarrow> coding_agent_registry" where
  "reload_from_config cfg r =
     fold (\<lambda>c r. if \<not> dict_has (cr_agents r) (cai_id c) then fst (register_agent c r) else r)
       (cac_agents cfg) (load_backends_from_config (cac_backends cfg) r)"

section \<open>The health monitor\<close>

record health_monitor_config =
  hm_check_interval :: duration
  hm_failure_threshold :: "32 word"

definition default_health_monitor_config :: health_monitor_config where
  "default_health_monitor_config = \<lparr>hm_check_interval = from_secs 30, hm_failure_threshold = 3\<rparr>"

text \<open>The failure counts per agent.\<close>

type_synonym failure_tracker = "32 word dict"

definition record_success :: "string \<Rightarrow> failure_tracker \<Rightarrow> failure_tracker" where
  "record_success i t = dict_put i 0 t"

definition record_failure :: "string \<Rightarrow> failure_tracker \<Rightarrow> failure_tracker \<times> 32 word" where
  "record_failure i t = (let n = (case dict_get t i of Some n \<Rightarrow> n | None \<Rightarrow> 0) + 1 in (dict_put i n t, n))"

text \<open>A probe is a GET of the endpoint; any answer counts, whatever its status code.\<close>

datatype probe_outcome = NoClient string | Answered nat | NoAnswer

definition health_check :: "(string \<Rightarrow> probe_outcome) \<Rightarrow> string option \<Rightarrow> (coding_agent_error, bool) result" where
  "health_check probe endpoint =
     (case endpoint of
        None \<Rightarrow> Ok False
      | Some e \<Rightarrow> (case probe e of
            NoClient err \<Rightarrow> Err (DelegationFailed (''failed to create HTTP client: '' @ err))
          | Answered _ \<Rightarrow> Ok True | NoAnswer \<Rightarrow> Ok False))"

definition is_probed :: "registered_agent \<Rightarrow> bool" where
  "is_probed a \<longleftrightarrow> (case cai_transport (ra_config a) of Some (Stdio _ _ _) \<Rightarrow> False | _ \<Rightarrow> True)
     \<and> \<not> prefix ''acp://'' (ra_endpoint a) \<and> ra_endpoint a \<noteq> []"

definition unreachable_text :: "nat \<Rightarrow> string" where
  "unreachable_text n = ''Unreachable after '' @ show_nat n @ '' consecutive health checks''"

definition check_agent ::
  "32 word \<Rightarrow> int \<Rightarrow> (string \<Rightarrow> probe_outcome) \<Rightarrow> registered_agent \<Rightarrow> coding_agent_registry \<times> failure_tracker
     \<Rightarrow> coding_agent_registry \<times> failure_tracker" where
  "check_agent threshold now probe a s =
     (if \<not> is_probed a then s
      else
        (let r = record_health_check now (ra_id a) (fst s) in
         case health_check probe (Some (ra_endpoint a)) of
           Ok True \<Rightarrow>
             (if ra_status a = Connected then r else fst (update_status now (ra_id a) Connected r), record_success (ra_id a) (snd s))
         | _ \<Rightarrow>
             (case record_failure (ra_id a) (snd s) of (t, failures) \<Rightarrow>
                (if failures \<ge> threshold
                 then (case ra_status a of ErrorStatus _ _ \<Rightarrow> r
                       | _ \<Rightarrow> fst (update_status now (ra_id a) (ErrorStatus (unreachable_text (unat failures)) now) r))
                 else (case ra_status a of Disconnected _ \<Rightarrow> r
                       | _ \<Rightarrow> fst (update_status now (ra_id a) (Disconnected now) r)), t))))"

text \<open>One tick of the monitor, over the agents registered when it starts.\<close>

definition monitor_round ::
  "32 word \<Rightarrow> int \<times> (string \<Rightarrow> probe_outcome) \<Rightarrow> coding_agent_registry \<times> failure_tracker \<Rightarrow> coding_agent_registry \<times> failure_tracker" where
  "monitor_round threshold tick s =
     (let agents = list_agents (fst s) in
      if agents = [] then s
      else fold (check_agent threshold (fst tick) (snd tick)) agents
        (fst s, filter (\<lambda>e. fst e \<in> ra_id ` set agents) (snd s)))"

section \<open>Lemmas\<close>

definition reg_ok :: "coding_agent_registry \<Rightarrow> bool" where
  "reg_ok r \<longleftrightarrow> dict_ok (cr_agents r) \<and> (\<forall>i a. dict_get (cr_agents r) i = Some a \<longrightarrow> ra_id a = i)"

lemma reg_ok_register: "reg_ok r \<Longrightarrow> reg_ok (fst (register_agent c r))"
  by (auto simp: reg_ok_def register_agent_def)

lemma reg_ok_put: "\<lbrakk>reg_ok r; ra_id a = i\<rbrakk> \<Longrightarrow> reg_ok (r\<lparr>cr_agents := dict_put i a (cr_agents r)\<rparr>)"
  by (auto simp: reg_ok_def)

lemma reg_ok_backends: "reg_ok (load_backends_from_config bs r) = reg_ok r"
  by (simp add: reg_ok_def load_backends_from_config_def)

lemma reg_ok_from_config: "reg_ok (from_config cfg)"
proof -
  have "reg_ok (fold (\<lambda>c r. fst (register_agent c r)) cs r)" if "reg_ok r" for cs r
    using that by (induction cs arbitrary: r) (simp_all add: reg_ok_register)
  moreover have "reg_ok cr_new" by (simp add: reg_ok_def cr_new_def)
  ultimately show ?thesis by (simp add: from_config_def reg_ok_backends)
qed

lemma unknown_registered:
  "\<lbrakk>dict_get (cr_agents (fold (\<lambda>c r. fst (register_agent c r)) cs r)) i = Some a;
    \<And>b. dict_get (cr_agents r) i = Some b \<Longrightarrow> ra_status b = Unknown\<rbrakk> \<Longrightarrow> ra_status a = Unknown"
proof (induction cs arbitrary: r)
  case (Cons c cs)
  show ?case
    by (rule Cons.IH [of "fst (register_agent c r)"])
      (use Cons.prems in \<open>auto simp: register_agent_def split: if_splits\<close>)
qed simp

lemma unknown_from_config: "dict_get (cr_agents (from_config cfg)) i = Some a \<Longrightarrow> ra_status a = Unknown"
  unfolding from_config_def
  by (erule unknown_registered) (simp add: load_backends_from_config_def cr_new_def)

lemma map_of_filter_keys: "map_of (filter (\<lambda>e. fst e \<in> S) d) k = (if k \<in> S then map_of d k else None)"
  by (induction d) auto

text \<open>What one probe makes of the status and the count of its agent.\<close>

definition probe_ok :: "(string \<Rightarrow> probe_outcome) \<Rightarrow> registered_agent \<Rightarrow> bool" where
  "probe_ok probe a \<longleftrightarrow> health_check probe (Some (ra_endpoint a)) = Ok True"

definition failures_of :: "failure_tracker \<Rightarrow> string \<Rightarrow> 32 word" where
  "failures_of t i = (case dict_get t i of Some n \<Rightarrow> n | None \<Rightarrow> 0)"

definition next_health :: "32 word \<Rightarrow> int \<Rightarrow> bool \<Rightarrow> agent_connection_status \<Rightarrow> 32 word \<Rightarrow> agent_connection_status \<times> 32 word" where
  "next_health th now ok st n =
     (if ok then (Connected, 0)
      else (if n + 1 \<ge> th then (case st of ErrorStatus _ _ \<Rightarrow> st | _ \<Rightarrow> ErrorStatus (unreachable_text (unat (n + 1))) now)
            else (case st of Disconnected _ \<Rightarrow> st | _ \<Rightarrow> Disconnected now), n + 1))"

lemma update_status_get:
  "dict_get (cr_agents (fst (update_status now i st r))) j =
     (if i = j then map_option (\<lambda>a. a\<lparr>ra_status := st\<rparr>) (dict_get (cr_agents r) i) else dict_get (cr_agents r) j)"
  by (auto simp: update_status_def split: option.split)

lemma on_agent_get:
  "dict_get (cr_agents (on_agent i f r)) j =
     (if i = j then map_option f (dict_get (cr_agents r) i) else dict_get (cr_agents r) j)"
  by (auto simp: on_agent_def split: option.split)

lemma check_agent_same:
  assumes "dict_get (cr_agents (fst s)) (ra_id a) = Some a" and "is_probed a"
  shows "dict_get (cr_agents (fst (check_agent th now probe a s))) (ra_id a) =
      Some (a\<lparr>ra_last_health_check := Some now,
        ra_status := fst (next_health th now (probe_ok probe a) (ra_status a) (failures_of (snd s) (ra_id a)))\<rparr>)"
    and "failures_of (snd (check_agent th now probe a s)) (ra_id a) =
      snd (next_health th now (probe_ok probe a) (ra_status a) (failures_of (snd s) (ra_id a)))"
  using assms
  by (auto simp: check_agent_def next_health_def probe_ok_def Let_def update_status_get on_agent_get record_health_check_def
      record_success_def record_failure_def failures_of_def split: sum.split bool.split agent_connection_status.split option.split)

lemma check_agent_other:
  assumes "i \<noteq> ra_id a"
  shows "dict_get (cr_agents (fst (check_agent th now probe a s))) i = dict_get (cr_agents (fst s)) i"
    and "failures_of (snd (check_agent th now probe a s)) i = failures_of (snd s) i"
  using assms
  by (auto simp: check_agent_def Let_def update_status_get on_agent_get record_health_check_def
      record_success_def record_failure_def failures_of_def split: sum.split bool.split agent_connection_status.split option.split)

lemma check_agents_other:
  assumes "i \<notin> ra_id ` set as"
  shows "dict_get (cr_agents (fst (fold (check_agent th now probe) as s))) i = dict_get (cr_agents (fst s)) i
    \<and> failures_of (snd (fold (check_agent th now probe) as s)) i = failures_of (snd s) i"
  using assms by (induction as arbitrary: s) (simp_all add: check_agent_other)

lemma reg_ok_check: "\<lbrakk>reg_ok (fst s)\<rbrakk> \<Longrightarrow> reg_ok (fst (check_agent th now probe a s))"
  by (auto simp: reg_ok_def check_agent_def Let_def update_status_def record_health_check_def on_agent_def
      split: sum.split bool.split agent_connection_status.split option.split prod.split)

lemma reg_ok_round: "reg_ok (fst s) \<Longrightarrow> reg_ok (fst (monitor_round th tick s))"
proof -
  have "reg_ok (fst s) \<Longrightarrow> reg_ok (fst (fold (check_agent th now probe) as s))" for as now probe s
    by (induction as arbitrary: s) (simp_all add: reg_ok_check)
  then show "reg_ok (fst s) \<Longrightarrow> reg_ok (fst (monitor_round th tick s))"
    by (simp add: monitor_round_def Let_def)
qed

lemma monitor_round_agent:
  assumes "reg_ok (fst s)" and "dict_get (cr_agents (fst s)) i = Some a" and "is_probed a"
  shows "dict_get (cr_agents (fst (monitor_round th (now, probe) s))) i =
      Some (a\<lparr>ra_last_health_check := Some now,
        ra_status := fst (next_health th now (probe_ok probe a) (ra_status a) (failures_of (snd s) i))\<rparr>)"
    and "failures_of (snd (monitor_round th (now, probe) s)) i =
      snd (next_health th now (probe_ok probe a) (ra_status a) (failures_of (snd s) i))"
proof -
  let ?ids = "ra_id ` set (list_agents (fst s))"
  have id: "ra_id a = i" using assms(1,2) by (simp add: reg_ok_def)
  have "a \<in> set (list_agents (fst s))" using dict_get_mem [OF assms(2)] by (force simp: list_agents_def)
  then obtain as bs where split: "list_agents (fst s) = as @ a # bs" by (meson split_list)
  have "map ra_id (list_agents (fst s)) = map fst (cr_agents (fst s))"
    using assms(1) by (auto simp: list_agents_def reg_ok_def dict_ok_def dict_get_def)
  then have "distinct (map ra_id (as @ a # bs))"
    using assms(1) split by (simp add: reg_ok_def dict_ok_def)
  then have out: "i \<notin> ra_id ` set as" "i \<notin> ra_id ` set bs" using id by auto
  define s0 where "s0 = (fst s, filter (\<lambda>e. fst e \<in> ?ids) (snd s))"
  have f0: "failures_of (snd s0) i = failures_of (snd s) i"
    using \<open>a \<in> set (list_agents (fst s))\<close> id
    by (auto simp: s0_def failures_of_def dict_get_def map_of_filter_keys)
  define s1 where "s1 = fold (check_agent th now probe) as s0"
  have s1: "dict_get (cr_agents (fst s1)) i = Some a" "failures_of (snd s1) i = failures_of (snd s) i"
    using check_agents_other [OF out(1), of th now probe s0] assms(2) f0 by (simp_all add: s1_def s0_def)
  have r: "monitor_round th (now, probe) s = fold (check_agent th now probe) bs (check_agent th now probe a s1)"
    using split by (simp add: monitor_round_def Let_def s1_def s0_def)
  note same = check_agent_same [of s1 a th now probe, unfolded id, OF s1(1) assms(3)]
  show "dict_get (cr_agents (fst (monitor_round th (now, probe) s))) i =
      Some (a\<lparr>ra_last_health_check := Some now,
        ra_status := fst (next_health th now (probe_ok probe a) (ra_status a) (failures_of (snd s) i))\<rparr>)"
    using check_agents_other [OF out(2), of th now probe "check_agent th now probe a s1"] same(1) s1(2) by (simp add: r)
  show "failures_of (snd (monitor_round th (now, probe) s)) i =
      snd (next_health th now (probe_ok probe a) (ra_status a) (failures_of (snd s) i))"
    using check_agents_other [OF out(2), of th now probe "check_agent th now probe a s1"] same(2) s1(2) by (simp add: r)
qed

section \<open>Status follows the probes\<close>

definition trailing_failures :: "bool list \<Rightarrow> nat" where
  "trailing_failures oks = length (takeWhile Not (rev oks))"

text \<open>The status after rounds at the given times, with the given answers.\<close>

definition health_spec :: "32 word \<Rightarrow> (int \<times> bool) list \<Rightarrow> agent_connection_status" where
  "health_spec th rounds =
     (let n = length rounds; k = trailing_failures (map snd rounds); m = max (unat th) 1
      in if n = 0 then Unknown
         else if k = 0 then Connected
         else if k < m then Disconnected (fst (rounds ! (n - k)))
         else ErrorStatus (unreachable_text m) (fst (rounds ! (n - k + m - 1))))"

lemma trailing_snoc: "trailing_failures (oks @ [b]) = (if b then 0 else trailing_failures oks + 1)"
  by (simp add: trailing_failures_def)

lemma trailing_le: "trailing_failures oks \<le> length oks"
  using length_takeWhile_le [of Not "rev oks"] by (simp add: trailing_failures_def)

lemma health_spec_snoc:
  assumes "length rounds < 4294967295"
  shows "next_health th now ok (health_spec th rounds) (word_of_nat (trailing_failures (map snd rounds)))
    = (health_spec th (rounds @ [(now, ok)]), word_of_nat (trailing_failures (map snd (rounds @ [(now, ok)]))))"
proof -
  let ?k = "trailing_failures (map snd rounds)"
  have k: "?k \<le> length rounds" using trailing_le [of "map snd rounds"] by simp
  have w: "(word_of_nat ?k :: 32 word) + 1 = word_of_nat (?k + 1)" by simp
  have u: "unat (word_of_nat (?k + 1) :: 32 word) = ?k + 1"
    using k assms by (intro unat_small) simp
  have le: "th \<le> (word_of_nat (?k + 1) :: 32 word) \<longleftrightarrow> unat th \<le> ?k + 1"
    by (simp only: word_le_nat_alt u)
  have none: "rounds = [] \<Longrightarrow> ?k = 0" by (simp add: trailing_failures_def)
  show ?thesis
    unfolding next_health_def w le u
  proof (cases "Suc ?k = unat th")
    case True
    then show "(if ok then (Connected, 0) else (if unat th \<le> ?k + 1
          then case health_spec th rounds of ErrorStatus _ _ \<Rightarrow> health_spec th rounds | _ \<Rightarrow> ErrorStatus (unreachable_text (?k + 1)) now
          else case health_spec th rounds of Disconnected _ \<Rightarrow> health_spec th rounds | _ \<Rightarrow> Disconnected now, word_of_nat (?k + 1)))
      = (health_spec th (rounds @ [(now, ok)]), word_of_nat (trailing_failures (map snd (rounds @ [(now, ok)]))))"
      using k none by (auto simp: health_spec_def Let_def trailing_snoc nth_append max_def True [symmetric])
  next
    case False
    then have "\<not> (?k < unat th \<and> \<not> Suc ?k < unat th)" by linarith
    then show "(if ok then (Connected, 0) else (if unat th \<le> ?k + 1
          then case health_spec th rounds of ErrorStatus _ _ \<Rightarrow> health_spec th rounds | _ \<Rightarrow> ErrorStatus (unreachable_text (?k + 1)) now
          else case health_spec th rounds of Disconnected _ \<Rightarrow> health_spec th rounds | _ \<Rightarrow> Disconnected now, word_of_nat (?k + 1)))
      = (health_spec th (rounds @ [(now, ok)]), word_of_nat (trailing_failures (map snd (rounds @ [(now, ok)]))))"
      using k none False by (auto simp: health_spec_def Let_def trailing_snoc nth_append max_def)
  qed
qed

lemma rounds_health:
  fixes th :: "32 word" and ticks :: "(int \<times> (string \<Rightarrow> probe_outcome)) list"
  assumes "dict_get (cr_agents (from_config cfg)) i = Some a" and "is_probed a" and "length ticks < 4294967296"
  defines "s \<equiv> fold (monitor_round th) ticks (from_config cfg, [])"
    and "seen \<equiv> map (\<lambda>t. (fst t, probe_ok (snd t) a)) ticks"
  shows "reg_ok (fst s) \<and> failures_of (snd s) i = word_of_nat (trailing_failures (map snd seen)) \<and>
    (\<exists>b. dict_get (cr_agents (fst s)) i = Some b \<and> ra_status b = health_spec th seen
       \<and> ra_endpoint b = ra_endpoint a \<and> ra_config b = ra_config a)"
  using assms(3) unfolding s_def seen_def
proof (induction ticks rule: rev_induct)
  case Nil
  then show ?case
    using assms(1) unknown_from_config [OF assms(1)]
    by (simp add: reg_ok_from_config failures_of_def trailing_failures_def health_spec_def)
next
  case (snoc t ts)
  obtain now probe where t: "t = (now, probe)" by (cases t)
  let ?s = "fold (monitor_round th) ts (from_config cfg, [])"
  let ?seen = "map (\<lambda>t. (fst t, probe_ok (snd t) a)) ts"
  obtain b where ok: "reg_ok (fst ?s)" and f: "failures_of (snd ?s) i = word_of_nat (trailing_failures (map snd ?seen))"
      and b: "dict_get (cr_agents (fst ?s)) i = Some b" "ra_status b = health_spec th ?seen"
        "ra_endpoint b = ra_endpoint a" "ra_config b = ra_config a"
    using snoc by auto
  have p: "is_probed b" "probe_ok probe b = probe_ok probe a"
    using assms(2) b(3,4) by (simp_all add: is_probed_def probe_ok_def)
  have n: "next_health th now (probe_ok probe a) (health_spec th ?seen) (word_of_nat (trailing_failures (map snd ?seen)))
      = (health_spec th (?seen @ [(now, probe_ok probe a)]), word_of_nat (trailing_failures (map snd (?seen @ [(now, probe_ok probe a)]))))"
    using snoc.prems by (intro health_spec_snoc) simp
  show ?case
    using monitor_round_agent [OF ok b(1) p(1), of th now probe] reg_ok_round [OF ok, of th "(now, probe)"]
    by (simp add: t b(2-4) p(2) f n [unfolded map_map map_append list.map prod.sel])
qed

text \<open>
  C34. The monitor's status of a probed agent is a function of the probes alone: \<open>Connected\<close> after an
  answer, \<open>Disconnected\<close> since the first failure while fewer probes than the threshold have failed in a
  row, and \<open>Error\<close> since the failure that reached it; the other agents play no part.
\<close>

theorem status_follows_probes:
  assumes "dict_get (cr_agents (from_config cfg)) i = Some a" and "is_probed a" and "length ticks < 4294967296"
  shows "map_option ra_status (dict_get (cr_agents (fst (fold (monitor_round th) ticks (from_config cfg, [])))) i) =
    Some (health_spec th (map (\<lambda>t. (fst t, probe_ok (snd t) a)) ticks))"
  using rounds_health [OF assms, of th] by auto

definition demo_agent :: coding_agent_instance_config where
  "demo_agent = \<lparr>cai_id = ''cc'', cai_backend_type = ''claude-code'', cai_endpoint = ''http://h'', cai_transport = None,
     cai_workspaces = [''/w''], cai_timeout_secs = None, cai_cost_cap_usd = None, cai_monthly_budget_usd = None,
     cai_alias = Some ''c'', cai_auth = None\<rparr>"

definition demo_agents :: coding_agents_config where
  "demo_agents = default_coding_agents_config\<lparr>cac_agents := [demo_agent]\<rparr>"

lemma demo_registered:
  "dict_get (cr_agents (from_config demo_agents)) ''cc'' = Some \<lparr>ra_id = ''cc'', ra_backend_type = ''claude-code'',
     ra_config = demo_agent, ra_status = Unknown, ra_last_health_check = None, ra_last_successful_task = None,
     ra_endpoint = ''http://h''\<rparr>"
  by (simp add: from_config_def demo_agents_def default_coding_agents_config_def load_backends_from_config_def cr_new_def
      register_agent_def dict_has_def demo_agent_def)

theorem status_follows_probes_witness:
  "map_option ra_status (dict_get (cr_agents (fst (fold (monitor_round 2)
      [(10, \<lambda>e. Answered 500), (40, \<lambda>e. NoAnswer), (70, \<lambda>e. NoAnswer), (100, \<lambda>e. NoAnswer)] (from_config demo_agents, [])))) ''cc'')
    = Some (ErrorStatus ''Unreachable after 2 consecutive health checks'' 70)"
proof -
  have m: "max (unat (2 :: 32 word)) 1 = 2" by simp
  have t: "unreachable_text (Suc (Suc 0)) = ''Unreachable after 2 consecutive health checks''"
    by (simp add: unreachable_text_def show_nat.simps char_of_def bit_Suc_0_iff)
  show ?thesis
    using status_follows_probes [OF demo_registered,
        of "[(10, \<lambda>e. Answered 500), (40, \<lambda>e. NoAnswer), (70, \<lambda>e. NoAnswer), (100, \<lambda>e. NoAnswer)]" 2]
    by (simp add: is_probed_def demo_agent_def probe_ok_def health_check_def health_spec_def trailing_failures_def Let_def m t)
qed

section \<open>Events follow the status\<close>

fun event_chain :: "agent_connection_status \<Rightarrow> agent_status_event list \<Rightarrow> agent_connection_status \<Rightarrow> bool" where
  "event_chain s [] t \<longleftrightarrow> s = t"
| "event_chain s (e # es) t \<longleftrightarrow> ase_previous_status e = s \<and> ase_new_status e \<noteq> s \<and> event_chain (ase_new_status e) es t"

lemma event_chain_snoc:
  "event_chain s (es @ [e]) t \<longleftrightarrow> event_chain s es (ase_previous_status e) \<and> ase_new_status e \<noteq> ase_previous_status e \<and> ase_new_status e = t"
  by (induction es arbitrary: s) auto

definition events_of :: "coding_agent_registry \<Rightarrow> string \<Rightarrow> agent_status_event list" where
  "events_of r i = filter (\<lambda>e. ase_agent_id e = i) (cr_events r)"

definition status_or_unknown :: "coding_agent_registry \<Rightarrow> string \<Rightarrow> agent_connection_status" where
  "status_or_unknown r i = (case dict_get (cr_agents r) i of Some a \<Rightarrow> ra_status a | None \<Rightarrow> Unknown)"

definition events_ok :: "coding_agent_registry \<Rightarrow> bool" where
  "events_ok r \<longleftrightarrow> (\<forall>i. event_chain Unknown (events_of r i) (status_or_unknown r i))"

datatype registry_op = Register coding_agent_instance_config | SetStatus int string agent_connection_status
  | TaskDone int string | Reload coding_agents_config | Tick int "string \<Rightarrow> probe_outcome"

fun registry_step :: "32 word \<Rightarrow> registry_op \<Rightarrow> coding_agent_registry \<times> failure_tracker \<Rightarrow> coding_agent_registry \<times> failure_tracker" where
  "registry_step th (Register c) s = (fst (register_agent c (fst s)), snd s)"
| "registry_step th (SetStatus now i st) s = (fst (update_status now i st (fst s)), snd s)"
| "registry_step th (TaskDone now i) s = (record_successful_task now i (fst s), snd s)"
| "registry_step th (Reload cfg) s = (reload_from_config cfg (fst s), snd s)"
| "registry_step th (Tick now probe) s = monitor_round th (now, probe) s"

lemma events_ok_same: "\<lbrakk>events_ok r; cr_events r' = cr_events r; status_or_unknown r' = status_or_unknown r\<rbrakk> \<Longrightarrow> events_ok r'"
  by (simp add: events_ok_def events_of_def)

lemma events_ok_register: "events_ok r \<Longrightarrow> events_ok (fst (register_agent c r))"
  by (erule events_ok_same) (auto simp: register_agent_def status_or_unknown_def dict_has_def fun_eq_iff)

lemma events_ok_update: "events_ok r \<Longrightarrow> events_ok (fst (update_status now i st r))"
  by (auto simp: events_ok_def events_of_def update_status_def status_or_unknown_def event_chain_snoc split: option.split)
    (metis option.case(2))

lemma events_ok_record: "events_ok r \<Longrightarrow> events_ok (record_health_check now i r) \<and> events_ok (record_successful_task now i r)"
  by (auto simp: record_health_check_def record_successful_task_def on_agent_def status_or_unknown_def fun_eq_iff
      split: option.split elim!: events_ok_same)

lemma events_ok_check: "events_ok (fst s) \<Longrightarrow> events_ok (fst (check_agent th now probe a s))"
  by (auto simp: check_agent_def Let_def events_ok_record events_ok_update
      split: sum.split bool.split agent_connection_status.split prod.split)

lemma events_ok_backends: "events_ok (load_backends_from_config bs r) = events_ok r"
  by (simp add: events_ok_def events_of_def status_or_unknown_def load_backends_from_config_def)

lemma events_ok_fold: "\<lbrakk>events_ok r; \<And>x r. events_ok r \<Longrightarrow> events_ok (f x r)\<rbrakk> \<Longrightarrow> events_ok (fold f xs r)"
  by (induction xs arbitrary: r) auto

lemma events_ok_step: "events_ok (fst s) \<Longrightarrow> events_ok (fst (registry_step th op s))"
proof (cases op)
  case (Tick now probe)
  assume "events_ok (fst s)"
  moreover have "events_ok (fst s') \<Longrightarrow> events_ok (fst (fold (check_agent th now probe) as s'))" for as s'
    by (induction as arbitrary: s') (simp_all add: events_ok_check)
  ultimately show ?thesis by (simp add: Tick monitor_round_def Let_def)
next
  case (Reload cfg)
  assume "events_ok (fst s)"
  then show ?thesis
    by (auto simp: Reload reload_from_config_def events_ok_backends events_ok_register intro!: events_ok_fold)
qed (simp_all add: events_ok_register events_ok_update events_ok_record)

interpretation registry_machine: operation_machine "(cr_new, [])" "registry_step th" "\<lambda>s. events_ok (fst s)" for th
  by unfold_locales (simp_all add: events_ok_step, simp add: events_ok_def events_of_def status_or_unknown_def cr_new_def)

text \<open>
  The events broadcast for an agent tell its whole history: in any sequence of registrations,
  reloads, status changes and monitor rounds they form a chain from \<open>Unknown\<close> to its present status,
  each starting where the one before ended and none without a change.
\<close>

theorem events_tell_status:
  "event_chain Unknown (events_of (fst (fold (registry_step th) ops (cr_new, []))) i)
     (status_or_unknown (fst (fold (registry_step th) ops (cr_new, []))) i)"
  using registry_machine.run_ok [of th ops] by (simp add: events_ok_def)

end
