(* ===== verification/CodingModels.thy ===== *)
theory CodingModels
  imports Prelude
begin

text \<open>
  \<open>src/coding_agent/models.rs\<close>: requests, results, states and history entries of the tasks that are
  delegated to coding agents. Times are numbers, paths are strings, and a cost is the 64-bit pattern
  of an \<open>f64\<close>.
\<close>

record reply_target =
  rt_channel_type :: string
  rt_channel_id :: string
  rt_message_id :: "string option"

datatype task_trigger = UserCommand string string | FromCronJob string | AgentDelegation string | ControlPanel string

record task_request =
  tr_description :: string
  tr_trigger :: task_trigger
  tr_workspace :: "string option"
  tr_file_context :: "string list option"
  tr_reply_to :: reply_target

datatype file_change_type = Added | Modified | Deleted

record file_change =
  fch_path :: string
  fch_change_type :: file_change_type
  fch_lines_added :: "32 word"
  fch_lines_removed :: "32 word"

record token_usage =
  tu_input_tokens :: "64 word"
  tu_output_tokens :: "64 word"
  tu_estimated_cost_usd :: "64 word"

record task_result =
  tk_output :: string
  tk_modified_files :: "file_change list"
  tk_duration_ms :: "64 word"
  tk_token_usage :: "token_usage option"

datatype task_error = TaskTimeout "64 word" "64 word" | CostCap "64 word" "64 word" | RateLimit "64 word option"
  | ExecutionError string "string option" | TaskAgentDisconnected string | TaskWorkspaceViolation string "string list"

datatype cancellation_reason = UserRequested | TimedOutTask | CostCapReached | LostAgent | SystemShutdown

datatype task_state = Queued int | Running int "8 word option" | Completed int int task_result
  | Failed int int task_error | CancelledTask "int option" int cancellation_reason

record task_history_entry =
  he_task_id :: string
  he_agent_id :: string
  he_description :: string
  he_trigger :: task_trigger
  he_state :: task_state
  he_workspace :: string
  he_created_at :: int

end
