(* ===== verification/Delivery.thy ===== *)
theory Delivery
  imports Channel
begin

text \<open>
  \<open>src/delivery.rs\<close>: how partial and final texts reach a channel, and the splitting of long replies.
  The platform behind the channel is a parameter: sending may give the identifier of the new message,
  and sends and edits change the world and may fail.
\<close>

section \<open>Strategies\<close>

record outbound_message =
  om_channel_type :: channel_type
  om_account_id :: string
  om_recipient_id :: string
  om_text :: string
  om_reply_to :: "string option"
  om_is_partial :: bool

record edit_message =
  em_channel_type :: channel_type
  em_account_id :: string
  em_message_id :: string
  em_recipient_id :: string
  em_text :: string

record message_ref =
  mr_channel_type :: channel_type
  mr_account_id :: string
  mr_recipient_id :: string
  mr_message_id :: "string option"
  mr_reply_to :: "string option"

record 'w channel_io =
  ci_send :: "outbound_message \<Rightarrow> 'w \<Rightarrow> 'w \<times> (string, string option) result"
  ci_edit :: "edit_message \<Rightarrow> 'w \<Rightarrow> 'w \<times> (string, unit) result"
  ci_sleep :: "duration \<Rightarrow> 'w \<Rightarrow> 'w"
  ci_now :: "'w \<Rightarrow> instant"
  ci_supports_editing :: bool

record streaming_state =
  ss_sent_message_id :: "string option"
  ss_last_edit :: "instant option"
  ss_latest_text :: string

definition edit_interval :: duration where
  "edit_interval = from_secs 1"

definition sd_new :: streaming_state where
  "sd_new = \<lparr>ss_sent_message_id = None, ss_last_edit = None, ss_latest_text = []\<rparr>"

definition outbound :: "message_ref \<Rightarrow> string \<Rightarrow> bool \<Rightarrow> outbound_message" where
  "outbound m txt partial = \<lparr>om_channel_type = mr_channel_type m, om_account_id = mr_account_id m,
     om_recipient_id = mr_recipient_id m, om_text = txt, om_reply_to = mr_reply_to m, om_is_partial = partial\<rparr>"

definition edit_of :: "message_ref \<Rightarrow> string \<Rightarrow> string \<Rightarrow> edit_message" where
  "edit_of m i txt = \<lparr>em_channel_type = mr_channel_type m, em_account_id = mr_account_id m, em_message_id = i,
     em_recipient_id = mr_recipient_id m, em_text = txt\<rparr>"

text \<open>The state is the one the retry reads; one task delivers at a time.\<close>

definition try_edit :: "'w channel_io \<Rightarrow> message_ref \<Rightarrow> string \<Rightarrow> string \<Rightarrow> streaming_state \<Rightarrow> 'w \<Rightarrow> 'w \<times> (string, unit) result" where
  "try_edit io m txt i s w =
     (case ci_edit io (edit_of m i txt) w of
        (w1, Ok _) \<Rightarrow> (w1, Ok ())
      | (w1, Err e) \<Rightarrow>
          (if contains_str e ''message is not modified'' then (w1, Ok ())
           else ci_edit io (edit_of m i (if ss_latest_text s = [] then txt else ss_latest_text s)) (ci_sleep io edit_interval w1)))"

definition streaming_partial ::
  "'w channel_io \<Rightarrow> message_ref \<Rightarrow> string \<Rightarrow> streaming_state \<Rightarrow> 'w \<Rightarrow> 'w \<times> streaming_state \<times> (string, unit) result" where
  "streaming_partial io m txt s w =
     (let s1 = s\<lparr>ss_latest_text := txt\<rparr> in
      case ss_sent_message_id s of
        None \<Rightarrow>
          (case ci_send io (outbound m txt True) w of
             (w1, Err e) \<Rightarrow> (w1, s1, Err e)
           | (w1, Ok sent) \<Rightarrow>
               (w1, s1\<lparr>ss_sent_message_id := (case sent of Some i \<Rightarrow> Some i | None \<Rightarrow> mr_message_id m),
                  ss_last_edit := Some (ci_now io w1)\<rparr>, Ok ()))
      | Some i \<Rightarrow>
          (if (case ss_last_edit s of Some l \<Rightarrow> duration_since (ci_now io w) l < edit_interval | None \<Rightarrow> False)
           then (w, s1, Ok ())
           else (let s2 = s1\<lparr>ss_last_edit := Some (ci_now io w)\<rparr> in
                 case try_edit io m txt i s2 w of (w1, r) \<Rightarrow> (w1, s2, r))))"

definition streaming_complete ::
  "'w channel_io \<Rightarrow> message_ref \<Rightarrow> string \<Rightarrow> streaming_state \<Rightarrow> 'w \<Rightarrow> 'w \<times> streaming_state \<times> (string, unit) result" where
  "streaming_complete io m txt s w =
     (let s1 = s\<lparr>ss_latest_text := txt\<rparr> in
      case ss_sent_message_id s of
        Some i \<Rightarrow> (case try_edit io m txt i s1 w of (w1, r) \<Rightarrow> (w1, s1, r))
      | None \<Rightarrow> (case ci_send io (outbound m txt False) w of
          (w1, Err e) \<Rightarrow> (w1, s1, Err e) | (w1, Ok _) \<Rightarrow> (w1, s1, Ok ())))"

definition batch_complete :: "'w channel_io \<Rightarrow> message_ref \<Rightarrow> string \<Rightarrow> 'w \<Rightarrow> 'w \<times> (string, unit) result" where
  "batch_complete io m txt w =
     (case ci_send io (outbound m txt False) w of (w1, Err e) \<Rightarrow> (w1, Err e) | (w1, Ok _) \<Rightarrow> (w1, Ok ()))"

definition selects_streaming :: "'w channel_io \<Rightarrow> string option \<Rightarrow> bool" where
  "selects_streaming io mode \<longleftrightarrow> ci_supports_editing io \<and> (case mode of Some s \<Rightarrow> s \<noteq> ''complete'' | None \<Rightarrow> True)"

text \<open>The strategy that was selected; batch delivery ignores partial texts.\<close>

definition on_partial ::
  "bool \<Rightarrow> 'w channel_io \<Rightarrow> message_ref \<Rightarrow> string \<Rightarrow> streaming_state \<Rightarrow> 'w \<Rightarrow> 'w \<times> streaming_state \<times> (string, unit) result" where
  "on_partial streaming io m txt s w = (if streaming then streaming_partial io m txt s w else (w, s, Ok ()))"

definition on_complete ::
  "bool \<Rightarrow> 'w channel_io \<Rightarrow> message_ref \<Rightarrow> string \<Rightarrow> streaming_state \<Rightarrow> 'w \<Rightarrow> 'w \<times> streaming_state \<times> (string, unit) result" where
  "on_complete streaming io m txt s w =
     (if streaming then streaming_complete io m txt s w
      else case batch_complete io m txt w of (w1, r) \<Rightarrow> (w1, s, r))"

section \<open>Splitting\<close>

definition rfind :: "char \<Rightarrow> string \<Rightarrow> nat option" where
  "rfind c s = (if c \<in> set s then Some (length s - 1 - length (takeWhile (\<lambda>x. x \<noteq> c) (rev s))) else None)"

definition split_point :: "nat \<Rightarrow> string \<Rightarrow> nat" where
  "split_point max_len piece =
     (let at = (case rfind (CHR 0x0A) piece of Some i \<Rightarrow> i | None \<Rightarrow> (case rfind (CHR '' '') piece of Some i \<Rightarrow> i | None \<Rightarrow> max_len))
      in if at = 0 then max_len else at)"

lemma trim_start_suffix: "suffix (trim_start s) s"
proof (induction s rule: trim_start.induct)
  case (1 s)
  show ?case
  proof (cases "find (\<lambda>w. w \<noteq> [] \<and> prefix w s) ws_encodings")
    case None
    then show ?thesis by (simp add: trim_start.simps)
  next
    case (Some w)
    then show ?thesis
      using 1 [OF Some] suffix_drop [of "length w" s] by (simp add: trim_start.simps suffix_order.trans)
  qed
qed

lemma trim_start_length: "length (trim_start s) \<le> length s"
  using trim_start_suffix by (rule suffix_length_le)

text \<open>The loop runs only with a positive bound; \<open>None\<close> is the panic of a slice inside a character.\<close>

function split_loop :: "nat \<Rightarrow> string \<Rightarrow> string list option" where
  "split_loop max_len remaining =
     (if max_len = 0 \<or> remaining = [] then Some []
      else if length remaining \<le> max_len then Some [remaining]
      else if \<not> is_char_boundary remaining max_len then None
      else (let at = split_point max_len (take max_len remaining)
            in map_option (Cons (take at remaining)) (split_loop max_len (trim_start (drop at remaining)))))"
  by pat_completeness auto

termination
proof (relation "measure (\<lambda>(m, s). length s)")
  fix m :: nat and s :: string and at
  assume "\<not> (m = 0 \<or> s = [])" "at = split_point m (take m s)"
  then have "at > 0" "s \<noteq> []" by (auto simp: split_point_def Let_def)
  then have "length (drop at s) < length s" by simp
  then show "((m, trim_start (drop at s)), m, s) \<in> measure (\<lambda>(m, s). length s)"
    using trim_start_length [of "drop at s"] by simp
qed simp

declare split_loop.simps [simp del]

definition split_message :: "string \<Rightarrow> nat \<Rightarrow> string list option" where
  "split_message txt max_len =
     (if max_len = 0 then Some [txt] else if length txt \<le> max_len then Some [txt] else split_loop max_len txt)"

section \<open>The final text is what is shown\<close>

text \<open>
  What a platform promises: a send shows a new message under a fresh identifier, an edit replaces the
  text of its message, the complaint that a message is not modified means that it shows that text
  already, and a failure changes nothing.
\<close>

definition faithful_channel :: "'w channel_io \<Rightarrow> ('w \<Rightarrow> string \<Rightarrow> string option) \<Rightarrow> bool" where
  "faithful_channel io shown \<longleftrightarrow>
     (\<forall>m w. case ci_send io m w of
        (w', Ok (Some i)) \<Rightarrow> shown w i = None \<and> shown w' = (shown w)(i \<mapsto> om_text m)
      | (w', Ok None) \<Rightarrow> False
      | (w', Err e) \<Rightarrow> shown w' = shown w) \<and>
     (\<forall>e w. case ci_edit io e w of
        (w', Ok _) \<Rightarrow> shown w' = (shown w)(em_message_id e \<mapsto> em_text e)
      | (w', Err x) \<Rightarrow> shown w' = shown w \<and>
          (contains_str x ''message is not modified'' \<longrightarrow> shown w (em_message_id e) = Some (em_text e))) \<and>
     (\<forall>d w. shown (ci_sleep io d w) = shown w)"

fun partials :: "'w channel_io \<Rightarrow> message_ref \<Rightarrow> string list \<Rightarrow> streaming_state \<Rightarrow> 'w \<Rightarrow> 'w \<times> streaming_state" where
  "partials io m [] s w = (w, s)"
| "partials io m (t # ts) s w = (case streaming_partial io m t s w of (w', s', r) \<Rightarrow> partials io m ts s' w')"

definition one_shown :: "('w \<Rightarrow> string \<Rightarrow> string option) \<Rightarrow> 'w \<Rightarrow> streaming_state \<Rightarrow> 'w \<Rightarrow> bool" where
  "one_shown shown w0 s w \<longleftrightarrow>
     (case ss_sent_message_id s of
        None \<Rightarrow> shown w = shown w0
      | Some i \<Rightarrow> shown w0 i = None \<and> (\<exists>t. shown w = (shown w0)(i \<mapsto> t)))"

lemma faithful_send:
  assumes "faithful_channel io shown" "ci_send io m w = (w', r)"
  shows "(\<exists>i. r = Ok (Some i) \<and> shown w i = None \<and> shown w' = (shown w)(i \<mapsto> om_text m))
    \<or> (\<exists>e. r = Err e \<and> shown w' = shown w)"
  using assms(1) [unfolded faithful_channel_def, THEN conjunct1, THEN spec, of m, THEN spec, of w] assms(2)
  by (auto split: sum.splits option.splits)

lemma faithful_edit:
  assumes "faithful_channel io shown" "ci_edit io e w = (w', r)"
  shows "(\<exists>u. r = Ok u \<and> shown w' = (shown w)(em_message_id e \<mapsto> em_text e))
    \<or> (\<exists>x. r = Err x \<and> shown w' = shown w \<and>
        (contains_str x ''message is not modified'' \<longrightarrow> shown w (em_message_id e) = Some (em_text e)))"
  using assms(1) [unfolded faithful_channel_def, THEN conjunct2, THEN conjunct1, THEN spec, of e, THEN spec, of w] assms(2)
  by (auto split: sum.splits)

lemma faithful_sleep: "faithful_channel io shown \<Longrightarrow> shown (ci_sleep io d w) = shown w"
  by (simp add: faithful_channel_def)

text \<open>An edit that reports success shows its text, and the others leave the message as it was.\<close>

lemma try_edit_shown:
  assumes "faithful_channel io shown" "try_edit io m txt i s w = (w', r)" "ss_latest_text s = txt"
  shows "(shown w' = (shown w)(i \<mapsto> txt)) \<or> (\<exists>e. r = Err e \<and> shown w' = shown w)"
proof -
  obtain w1 r1 where e1: "ci_edit io (edit_of m i txt) w = (w1, r1)" by (cases "ci_edit io (edit_of m i txt) w")
  note f1 = faithful_edit [OF assms(1) e1]
  show ?thesis
  proof (cases r1)
    case (Inr u)
    then show ?thesis using f1 assms(2) e1 by (simp add: try_edit_def edit_of_def)
  next
    case (Inl x)
    show ?thesis
    proof (cases "contains_str x ''message is not modified''")
      case True
      then have "shown w' = shown w" "shown w i = Some txt"
        using f1 assms(2) e1 Inl by (simp_all add: try_edit_def edit_of_def)
      then show ?thesis by (metis fun_upd_triv)
    next
      case False
      then have e2: "ci_edit io (edit_of m i txt) (ci_sleep io edit_interval w1) = (w', r)"
        using assms(2,3) e1 Inl by (auto simp: try_edit_def)
      show ?thesis
        using faithful_edit [OF assms(1) e2] f1 Inl faithful_sleep [OF assms(1)] by (auto simp: edit_of_def)
    qed
  qed
qed

lemma one_shown_partial:
  assumes "faithful_channel io shown" "one_shown shown w0 s w" "streaming_partial io m t s w = (w', s', r)"
  shows "one_shown shown w0 s' w'"
proof (cases "ss_sent_message_id s")
  case None
  obtain w1 r1 where e: "ci_send io (outbound m t True) w = (w1, r1)" by (cases "ci_send io (outbound m t True) w")
  show ?thesis
    using faithful_send [OF assms(1) e] assms(2,3) None e
    by (auto simp: streaming_partial_def one_shown_def Let_def outbound_def intro!: exI [of _ t])
next
  case (Some i)
  define s2 where "s2 = s\<lparr>ss_latest_text := t, ss_last_edit := Some (ci_now io w)\<rparr>"
  obtain w1 r1 where e: "try_edit io m t i s2 w = (w1, r1)" by (cases "try_edit io m t i s2 w")
  have l: "ss_latest_text s2 = t" "ss_sent_message_id s2 = Some i" by (simp_all add: s2_def Some)
  have "(w' = w \<and> ss_sent_message_id s' = Some i) \<or> (w' = w1 \<and> s' = s2)"
    using assms(3) e Some by (auto simp: streaming_partial_def Let_def s2_def split: if_splits)
  then show ?thesis
    using try_edit_shown [OF assms(1) e l(1)] assms(2) l(2) Some by (auto simp: one_shown_def)
qed

lemma one_shown_partials:
  "\<lbrakk>faithful_channel io shown; one_shown shown w0 s w; partials io m ts s w = (w', s')\<rbrakk> \<Longrightarrow> one_shown shown w0 s' w'"
proof (induction ts arbitrary: s w)
  case (Cons t ts)
  obtain w1 s1 r where p: "streaming_partial io m t s w = (w1, s1, r)" by (cases "streaming_partial io m t s w") auto
  show ?case
    using Cons.IH [OF Cons.prems(1) one_shown_partial [OF Cons.prems(1,2) p]] Cons.prems(3) by (simp add: p)
qed simp

text \<open>
  Whatever partial texts a streaming delivery was given, throttled, failed or sent, a completion that
  reports success leaves exactly one new message on the channel, and it shows the complete text.
\<close>

theorem final_text_shown:
  assumes "faithful_channel io shown"
    and "partials io m ts sd_new w = (w1, s)" and "streaming_complete io m txt s w1 = (w2, s', Ok ())"
  shows "\<exists>i. shown w i = None \<and> shown w2 = (shown w)(i \<mapsto> txt)"
proof -
  have one: "one_shown shown w s w1"
    using one_shown_partials [OF assms(1) _ assms(2), of w] by (simp add: one_shown_def sd_new_def)
  show ?thesis
  proof (cases "ss_sent_message_id s")
    case None
    obtain w3 r where e: "ci_send io (outbound m txt False) w1 = (w3, r)" by (cases "ci_send io (outbound m txt False) w1")
    show ?thesis
      using faithful_send [OF assms(1) e] assms(3) one None e
      by (auto simp: streaming_complete_def one_shown_def outbound_def Let_def)
  next
    case (Some i)
    obtain w3 r where e: "try_edit io m txt i (s\<lparr>ss_latest_text := txt\<rparr>) w1 = (w3, r)"
      by (cases "try_edit io m txt i (s\<lparr>ss_latest_text := txt\<rparr>) w1")
    then have "w3 = w2" "r = Ok ()" using assms(3) Some by (simp_all add: streaming_complete_def Let_def)
    then show ?thesis
      using try_edit_shown [OF assms(1) e] one Some by (auto simp: one_shown_def)
  qed
qed

text \<open>A platform on which messages are numbered in unary.\<close>

definition unary :: "string \<Rightarrow> bool" where
  "unary i \<longleftrightarrow> set i \<subseteq> {CHR ''m''}"

definition demo_io :: "string list channel_io" where
  "demo_io = \<lparr>ci_send = (\<lambda>m w. (w @ [om_text m], Ok (Some (replicate (length w) (CHR ''m''))))),
     ci_edit = (\<lambda>e w. let i = em_message_id e in
       if unary i \<and> length i < length w then (w[length i := em_text e], Ok ())
       else (w, Err ''gone'')),
     ci_sleep = (\<lambda>d w. w), ci_now = (\<lambda>w. 0), ci_supports_editing = True\<rparr>"

definition demo_shown :: "string list \<Rightarrow> string \<Rightarrow> string option" where
  "demo_shown w i = (if unary i \<and> length i < length w then Some (w ! length i) else None)"

lemma unary_replicate: "unary i \<Longrightarrow> i = replicate (length i) (CHR ''m'')"
  by (induction i) (auto simp: unary_def)

lemma unary_same: "\<lbrakk>unary i; unary j; length i = length j\<rbrakk> \<Longrightarrow> i = j"
  using unary_replicate [of i] unary_replicate [of j] by metis

lemma demo_faithful: "faithful_channel demo_io demo_shown"
proof -
  have not_modified: "\<not> contains_str ''gone'' ''message is not modified''" by simp
  have edit: "demo_shown (w[length i := t]) = (demo_shown w)(i \<mapsto> t)"
    if u: "unary i" "length i < length w" for w :: "string list" and i t
  proof
    fix j
    show "demo_shown (w[length i := t]) j = ((demo_shown w)(i \<mapsto> t)) j"
    proof (cases "j = i")
      case True
      then show ?thesis using u by (simp add: demo_shown_def)
    next
      case False
      then have "unary j \<Longrightarrow> length i \<noteq> length j" using unary_same [OF _ u(1)] by metis
      then show ?thesis using False by (simp add: demo_shown_def)
    qed
  qed
  have send: "demo_shown (w @ [t]) = (demo_shown w)(replicate (length w) (CHR ''m'') \<mapsto> t)" for w t
  proof
    fix j
    have u: "unary (replicate (length w) (CHR ''m''))" by (auto simp: unary_def)
    show "demo_shown (w @ [t]) j = ((demo_shown w)(replicate (length w) (CHR ''m'') \<mapsto> t)) j"
    proof (cases "j = replicate (length w) (CHR ''m'')")
      case True
      then show ?thesis using u by (simp add: demo_shown_def)
    next
      case False
      then have "unary j \<Longrightarrow> length j \<noteq> length w" using unary_replicate [of j] by metis
      then show ?thesis using False by (auto simp: demo_shown_def nth_append less_Suc_eq)
    qed
  qed
  have fresh: "demo_shown w (replicate (length w) (CHR ''m'')) = None" for w
    by (simp add: demo_shown_def)
  show ?thesis
    unfolding faithful_channel_def
  proof (intro conjI allI)
    fix m w
    show "case ci_send demo_io m w of (w', Err e) \<Rightarrow> demo_shown w' = demo_shown w | (w', Ok None) \<Rightarrow> False
      | (w', Ok (Some i)) \<Rightarrow> demo_shown w i = None \<and> demo_shown w' = (demo_shown w)(i \<mapsto> om_text m)"
      by (simp add: demo_io_def send fresh)
  next
    fix e w
    show "case ci_edit demo_io e w of
        (w', Err x) \<Rightarrow> demo_shown w' = demo_shown w \<and>
          (contains_str x ''message is not modified'' \<longrightarrow> demo_shown w (em_message_id e) = Some (em_text e))
      | (w', Ok _) \<Rightarrow> demo_shown w' = (demo_shown w)(em_message_id e \<mapsto> em_text e)"
      using edit not_modified by (simp add: demo_io_def Let_def del: contains_str.simps)
  qed (simp add: demo_io_def)
qed

definition demo_ref :: message_ref where
  "demo_ref = \<lparr>mr_channel_type = Telegram, mr_account_id = ''default'', mr_recipient_id = ''7'', mr_message_id = None, mr_reply_to = None\<rparr>"

theorem final_text_shown_witness:
  "(case partials demo_io demo_ref [''On'', ''On it''] sd_new [''hello''] of (w1, s) \<Rightarrow>
      case streaming_complete demo_io demo_ref ''On it: done'' s w1 of (w2, s', r) \<Rightarrow>
        r = Ok () \<and> w2 = [''hello'', ''On it: done'']
        \<and> (\<exists>i. demo_shown [''hello''] i = None \<and> demo_shown w2 = (demo_shown [''hello''])(i \<mapsto> ''On it: done'')))"
proof -
  obtain w1 s where p: "partials demo_io demo_ref [''On'', ''On it''] sd_new [''hello''] = (w1, s)"
    by (cases "partials demo_io demo_ref [''On'', ''On it''] sd_new [''hello'']")
  obtain w2 s' r where c: "streaming_complete demo_io demo_ref ''On it: done'' s w1 = (w2, s', r)"
    by (cases "streaming_complete demo_io demo_ref ''On it: done'' s w1") auto
  have "w1 = [''hello'', ''On''] \<and> ss_sent_message_id s = Some ''m''"
    using p by (auto simp: demo_io_def sd_new_def streaming_partial_def outbound_def Let_def duration_since_def edit_interval_def from_secs_def)
  then have "r = Ok () \<and> w2 = [''hello'', ''On it: done'']"
    using c by (auto simp: streaming_complete_def try_edit_def demo_io_def edit_of_def Let_def unary_def)
  then show ?thesis
    using final_text_shown [OF demo_faithful p, of "''On it: done''" w2 s'] p c by simp
qed

section \<open>Long replies\<close>

definition is_ascii :: "string \<Rightarrow> bool" where
  "is_ascii s \<longleftrightarrow> list_all (\<lambda>c. (of_char c :: nat) < 128) s"

definition is_space :: "char \<Rightarrow> bool" where
  "is_space c \<longleftrightarrow> (of_char c :: nat) \<in> {9, 10, 11, 12, 13, 32}"

definition words_of :: "string \<Rightarrow> string" where
  "words_of s = filter (\<lambda>c. \<not> is_space c) s"

lemma ws_encoding_ascii: "\<lbrakk>w \<in> set ws_encodings; is_ascii w\<rbrakk> \<Longrightarrow> words_of w = []"
  by (auto simp: ws_encodings_def is_ascii_def words_of_def is_space_def)

lemma is_ascii_append [simp]: "is_ascii (a @ b) \<longleftrightarrow> is_ascii a \<and> is_ascii b"
  by (simp add: is_ascii_def)

lemma words_of_append [simp]: "words_of (a @ b) = words_of a @ words_of b"
  by (simp add: words_of_def)

lemma trim_start_words: "is_ascii s \<Longrightarrow> words_of (trim_start s) = words_of s \<and> is_ascii (trim_start s)"
proof (induction s rule: trim_start.induct)
  case (1 s)
  show ?case
  proof (cases "find (\<lambda>w. w \<noteq> [] \<and> prefix w s) ws_encodings")
    case None
    then show ?thesis using 1 by (simp add: trim_start.simps)
  next
    case (Some w)
    then have "w \<in> set ws_encodings" "prefix w s" by (auto simp: find_Some_iff in_set_conv_nth)
    then obtain t where t: "s = w @ t" "w \<in> set ws_encodings" by (auto simp: prefix_def)
    then have "words_of w = []" "is_ascii t" using 1(2) ws_encoding_ascii by auto
    then show ?thesis using 1(1) [OF Some] t Some by (simp add: trim_start.simps [of "w @ t"])
  qed
qed

lemma ascii_boundary: "is_ascii s \<Longrightarrow> i \<le> length s \<Longrightarrow> is_char_boundary s i"
  by (cases "i = length s") (auto simp: is_char_boundary_def is_ascii_def is_continuation_def list_all_length dest!: spec [of _ i])

lemma split_point_bounds: "m > 0 \<Longrightarrow> 0 < split_point m (take m s) \<and> split_point m (take m s) \<le> m"
proof -
  have "rfind c (take m s) = Some i \<Longrightarrow> i \<le> m" for c i
    by (auto simp: rfind_def split: if_splits)
  then show "m > 0 \<Longrightarrow> 0 < split_point m (take m s) \<and> split_point m (take m s) \<le> m"
    by (auto simp: split_point_def Let_def split: option.split)
qed

lemma split_loop_ascii:
  "\<lbrakk>is_ascii s; m > 0\<rbrakk> \<Longrightarrow> \<exists>chunks. split_loop m s = Some chunks \<and> list_all (\<lambda>c. length c \<le> m) chunks
     \<and> words_of (concat chunks) = words_of s"
proof (induction m s rule: split_loop.induct)
  case (1 m s)
  show ?case
  proof (cases "s = [] \<or> length s \<le> m")
    case True
    then show ?thesis using 1(3) by (auto simp: split_loop.simps [of m s])
  next
    case False
    define at where "at = split_point m (take m s)"
    have at: "0 < at" "at \<le> m" using split_point_bounds [OF 1(3)] by (simp_all add: at_def)
    have s: "is_ascii (take at s)" "is_ascii (drop at s)"
      using 1(2) is_ascii_append [of "take at s" "drop at s"] by simp_all
    have b: "is_char_boundary s m" using 1(2) False by (intro ascii_boundary) auto
    obtain chunks where c: "split_loop m (trim_start (drop at s)) = Some chunks" "list_all (\<lambda>c. length c \<le> m) chunks"
        "words_of (concat chunks) = words_of (trim_start (drop at s))"
      using 1(1) [OF _ _ _ at_def] 1(3) False b trim_start_words [OF s(2)] by auto
    have "words_of (take at s) @ words_of (trim_start (drop at s)) = words_of s"
      using trim_start_words [OF s(2)] words_of_append [of "take at s" "drop at s"] by simp
    then show ?thesis
      using c at False 1(3) b by (simp add: split_loop.simps [of m s] at_def [symmetric])
  qed
qed

text \<open>
  Splitting an ASCII reply succeeds, keeps every chunk within the limit of the channel, and loses
  nothing but white space.
\<close>

theorem ascii_reply_split:
  assumes "is_ascii txt" and "0 < max_len"
  shows "\<exists>chunks. split_message txt max_len = Some chunks \<and> list_all (\<lambda>c. length c \<le> max_len) chunks
     \<and> words_of (concat chunks) = words_of txt"
  using split_loop_ascii [OF assms] assms by (cases "length txt \<le> max_len") (simp_all add: split_message_def)

theorem ascii_reply_split_witness:
  "is_ascii ''one two three'' \<and> (\<exists>chunks. split_message ''one two three'' 8 = Some chunks
     \<and> list_all (\<lambda>c. length c \<le> 8) chunks \<and> words_of (concat chunks) = words_of ''one two three'')"
proof
  show a: "is_ascii ''one two three''" by (simp add: is_ascii_def)
  show "\<exists>chunks. split_message ''one two three'' 8 = Some chunks
     \<and> list_all (\<lambda>c. length c \<le> 8) chunks \<and> words_of (concat chunks) = words_of ''one two three''"
    by (rule ascii_reply_split [OF a]) simp
qed

text \<open>
  A reply in which a multi-byte character lies across the limit is not split: slicing it there
  panics.
\<close>

theorem unicode_reply_panics:
  "split_message (replicate 4095 (CHR ''a'') @ utf8 [0xC3, 0xA9]) (max_message_length Telegram) = None"
proof -
  let ?s = "replicate 4095 (CHR ''a'') @ [char_of (0xC3 :: nat), char_of (0xA9 :: nat)]"
  have "?s ! 4096 = char_of (0xA9 :: nat)" by (simp add: nth_append)
  then have "\<not> is_char_boundary ?s 4096" by (simp add: is_char_boundary_def is_continuation_def)
  then have "split_loop 4096 ?s = None" by (simp add: split_loop.simps [of 4096 ?s])
  then show ?thesis unfolding utf8_def list.map by (simp add: split_message_def)
qed

end
