(* ===== verification/CodingStreaming.thy ===== *)
theory CodingStreaming
  imports CodingAgents CodingModels Delivery
begin

text \<open>
  \<open>src/coding_agent/acp_streaming.rs\<close> and \<open>streaming_executor.rs\<close>: running a task in a coding agent that
  is a child process, the updates it streams, and their delivery to a chat. The ACP library is a
  parameter: it starts the agent or fails, and then yields chunks.
\<close>

section \<open>Updates\<close>

datatype agent_status_kind = StatusStarting | StatusRunning | StatusWaitingPermission | StatusIdle | StatusError | StatusStopped

datatype coding_agent_update =
    UpStatus agent_status_kind string
  | UpText string
  | UpThought string
  | UpToolStarted string
  | UpToolCompleted string
  | UpPermission string bool
  | UpDone string duration bool "string option"

datatype output_chunk = ChunkText string | ChunkThought string | ChunkToolCall string | ChunkToolCallComplete string
  | ChunkPermission string bool | ChunkDone | ChunkError string

datatype permission_policy = AutoApprove | CustomPolicy

record acp_launch =
  al_command :: string
  al_working_dir :: string
  al_env :: "string dict"
  al_prompt :: string
  al_policy :: permission_policy

record 'w acp_env =
  ap_stream :: "acp_launch \<Rightarrow> 'w \<Rightarrow> 'w \<times> (string, output_chunk list) result \<times> duration"

text \<open>The policy of \<open>StreamingAcpClient::new\<close>.\<close>

definition default_policy :: permission_policy where
  "default_policy = AutoApprove"

definition build_prompt :: "task_request \<Rightarrow> string" where
  "build_prompt r =
     (let p1 = (case tr_workspace r of
            Some ws \<Rightarrow> ''Working directory: '' @ ws @ newline @ newline @ tr_description r | None \<Rightarrow> tr_description r)
      in case tr_file_context r of
           Some files \<Rightarrow> if files \<noteq> [] then p1 @ newline @ newline @ ''Relevant files:'' @ newline @ join newline files else p1
         | None \<Rightarrow> p1)"

text \<open>The loop over the chunks: the updates it sends, the output, and the error that ended it.\<close>

fun chunk_updates :: "output_chunk list \<Rightarrow> coding_agent_update list \<times> string \<times> string option" where
  "chunk_updates [] = ([], [], None)"
| "chunk_updates (ChunkText t # cs) = (case chunk_updates cs of (us, out, e) \<Rightarrow> (UpText t # us, t @ out, e))"
| "chunk_updates (ChunkThought t # cs) = apfst (Cons (UpThought t)) (chunk_updates cs)"
| "chunk_updates (ChunkToolCall t # cs) = apfst (Cons (UpToolStarted t)) (chunk_updates cs)"
| "chunk_updates (ChunkToolCallComplete t # cs) = apfst (Cons (UpToolCompleted t)) (chunk_updates cs)"
| "chunk_updates (ChunkPermission t approved # cs) =
     apfst (\<lambda>us. (if approved then [] else [UpStatus StatusWaitingPermission (''Permission denied: '' @ t)])
         @ UpPermission t approved # us) (chunk_updates cs)"
| "chunk_updates (ChunkDone # cs) = ([], [], None)"
| "chunk_updates (ChunkError e # cs) = ([], [], Some e)"

definition stream_updates :: "(string, output_chunk list) result \<Rightarrow> duration \<Rightarrow> coding_agent_update list" where
  "stream_updates started d =
     UpStatus StatusStarting ''Starting coding agent...'' #
     (case started of
        Err e \<Rightarrow> [UpDone [] d False (Some e)]
      | Ok chunks \<Rightarrow> (case chunk_updates chunks of (us, out, err) \<Rightarrow>
          UpStatus StatusRunning ''Agent is working...'' # us @ [UpDone out d (err = None) err]))"

definition failed_with :: "string \<Rightarrow> string \<Rightarrow> task_error" where
  "failed_with message output = ExecutionError message (if output = [] then None else Some output)"

definition execute_streaming ::
  "'w acp_env \<Rightarrow> string \<Rightarrow> coding_agent_instance_config \<Rightarrow> task_request \<Rightarrow> 'w \<Rightarrow> 'w \<times> (task_error, coding_agent_update list) result" where
  "execute_streaming env i c r w =
     (case cai_transport c of
        None \<Rightarrow> (w, Err (ExecutionError (''Agent '' @ [CHR 0x27] @ i @ [CHR 0x27] @ '' has no transport configured'') None))
      | Some (HttpTransport url) \<Rightarrow> (w, Err (ExecutionError (''Agent '' @ [CHR 0x27] @ i @ [CHR 0x27] @ '' has non-stdio transport ''
          @ utf8 [0xE2, 0x80, 0x94] @ '' streaming requires stdio'') None))
      | Some (Stdio command args envs) \<Rightarrow>
          (let launch = \<lparr>al_command = (if args = [] then command else command @ '' '' @ join '' '' args),
                 al_working_dir = (case tr_workspace r of Some p \<Rightarrow> p
                   | None \<Rightarrow> (case cai_workspaces c of p # _ \<Rightarrow> p | [] \<Rightarrow> ''.'')),
                 al_env = envs, al_prompt = build_prompt r, al_policy = default_policy\<rparr>
           in case ap_stream env launch w of (w', started, d) \<Rightarrow> (w', Ok (stream_updates started d))))"

definition status_emoji :: "agent_status_kind \<Rightarrow> string" where
  "status_emoji k = utf8 (case k of
       StatusStarting \<Rightarrow> [0xF0, 0x9F, 0x9A, 0x80] | StatusRunning \<Rightarrow> [0xE2, 0x9A, 0x99, 0xEF, 0xB8, 0x8F]
     | StatusWaitingPermission \<Rightarrow> [0xF0, 0x9F, 0x94, 0x90] | StatusIdle \<Rightarrow> [0xF0, 0x9F, 0x92, 0xA4]
     | StatusError \<Rightarrow> [0xE2, 0x9D, 0x8C] | StatusStopped \<Rightarrow> [0xF0, 0x9F, 0x9B, 0x91])"

text \<open>The seconds with one decimal that \<open>format!("{:.1}", ..)\<close> prints are the parameter \<open>secs\<close>.\<close>

definition format_update_for_display :: "(duration \<Rightarrow> string) \<Rightarrow> coding_agent_update \<Rightarrow> string option" where
  "format_update_for_display secs u =
     (case u of
        UpStatus k d \<Rightarrow> Some (status_emoji k @ '' '' @ d)
      | UpToolStarted t \<Rightarrow> Some (utf8 [0xF0, 0x9F, 0x94, 0xA7] @ '' '' @ t)
      | UpToolCompleted t \<Rightarrow> Some (utf8 [0xE2, 0x9C, 0x85] @ '' '' @ t)
      | UpPermission t approved \<Rightarrow>
          Some (if approved then utf8 [0xF0, 0x9F, 0x94, 0x93] @ '' Approved: '' @ t else utf8 [0xF0, 0x9F, 0x94, 0x92] @ '' Denied: '' @ t)
      | UpDone _ d success err \<Rightarrow>
          Some (if success then utf8 [0xE2, 0x9C, 0x85] @ '' Completed in '' @ secs d @ ''s''
                else utf8 [0xE2, 0x9D, 0x8C] @ '' Failed after '' @ secs d @ ''s: '' @ (case err of Some e \<Rightarrow> e | None \<Rightarrow> ''unknown error''))
      | UpText _ \<Rightarrow> None | UpThought _ \<Rightarrow> None)"

section \<open>The streaming executor\<close>

record streaming_config =
  sc_update_interval :: duration
  sc_show_thoughts :: bool
  sc_stream_text :: bool
  sc_text_chunk_size :: nat

definition default_streaming_config :: streaming_config where
  "default_streaming_config = \<lparr>sc_update_interval = 500000000, sc_show_thoughts = False, sc_stream_text = True, sc_text_chunk_size = 100\<rparr>"

definition done_result :: "string \<Rightarrow> duration \<Rightarrow> bool \<Rightarrow> string option \<Rightarrow> (task_error, task_result) result" where
  "done_result output d success err =
     (if success then Ok \<lparr>tk_output = output, tk_modified_files = [], tk_duration_ms = word_of_nat (d div 1000000), tk_token_usage = None\<rparr>
      else Err (failed_with (case err of Some e \<Rightarrow> e | None \<Rightarrow> ''Unknown error'') output))"

definition ended_early :: "string \<Rightarrow> (task_error, task_result) result" where
  "ended_early acc = Err (failed_with ''Stream ended unexpectedly'' acc)"

text \<open>The lines that an update adds to the pending status block.\<close>

definition status_lines :: "streaming_config \<Rightarrow> coding_agent_update \<Rightarrow> string list" where
  "status_lines cfg u =
     (case u of
        UpThought t \<Rightarrow> if sc_show_thoughts cfg then [utf8 [0xF0, 0x9F, 0x92, 0xAD] @ '' _'' @ trim t @ ''_''] else []
      | UpStatus k d \<Rightarrow> (case format_update_for_display (\<lambda>_. []) (UpStatus k d) of Some l \<Rightarrow> [l] | None \<Rightarrow> [])
      | UpToolStarted t \<Rightarrow> [utf8 [0xF0, 0x9F, 0x94, 0xA7] @ '' '' @ t]
      | UpToolCompleted t \<Rightarrow> [utf8 [0xE2, 0x9C, 0x85] @ '' '' @ t]
      | UpPermission t approved \<Rightarrow> [if approved then utf8 [0xF0, 0x9F, 0x94, 0x93] @ '' '' @ t else utf8 [0xF0, 0x9F, 0x94, 0x92] @ '' Denied: '' @ t]
      | _ \<Rightarrow> [])"

text \<open>
  The state of a delivery is its strategy's; the errors of deliveries are dropped. Every update comes
  with the time at which the loop looks at the clock after it.
\<close>

fun process_stream ::
  "streaming_config \<Rightarrow> bool \<Rightarrow> 'w channel_io \<Rightarrow> message_ref \<Rightarrow> (coding_agent_update \<times> instant) list \<Rightarrow> string \<Rightarrow> instant \<Rightarrow> string list
     \<Rightarrow> streaming_state \<Rightarrow> 'w \<Rightarrow> 'w \<times> (task_error, task_result) result" where
  "process_stream cfg streaming io m [] acc l0 pending s w = (w, ended_early acc)"
| "process_stream cfg streaming io m ((u, now) # us) acc l0 pending s w =
     (case u of
        UpDone output d success err \<Rightarrow>
          (case on_complete streaming io m (if success then output
               else utf8 [0xE2, 0x9D, 0x8C] @ '' Task failed: '' @ (case err of Some e \<Rightarrow> e | None \<Rightarrow> ''Unknown error'')) s w of
             (w1, _) \<Rightarrow> (w1, done_result output d success err))
      | _ \<Rightarrow>
          (let acc1 = (case u of UpText t \<Rightarrow> acc @ t | _ \<Rightarrow> acc);
               sent = (case u of
                   UpText _ \<Rightarrow> if sc_stream_text cfg \<and> length acc1 \<ge> sc_text_chunk_size cfg
                     then (case on_partial streaming io m acc1 s w of (w1, s1, _) \<Rightarrow> (w1, s1)) else (w, s)
                 | _ \<Rightarrow> (w, s));
               pending1 = pending @ status_lines cfg u
           in if pending1 \<noteq> [] \<and> duration_since now l0 \<ge> sc_update_interval cfg
              then (let block = join newline pending1;
                        combined = (if acc1 = [] then block else block @ newline @ newline @ ''---'' @ newline @ acc1)
                    in case on_partial streaming io m combined (snd sent) (fst sent) of
                         (w2, s2, _) \<Rightarrow> process_stream cfg streaming io m us acc1 now [] s2 w2)
              else process_stream cfg streaming io m us acc1 l0 pending1 (snd sent) (fst sent)))"

fun process_stream_no_delivery :: "coding_agent_update list \<Rightarrow> string \<Rightarrow> (task_error, task_result) result" where
  "process_stream_no_delivery [] acc = ended_early acc"
| "process_stream_no_delivery (UpText t # us) acc = process_stream_no_delivery us (acc @ t)"
| "process_stream_no_delivery (UpDone output d success err # us) acc = done_result output d success err"
| "process_stream_no_delivery (_ # us) acc = process_stream_no_delivery us acc"

definition msg_ref_from_request :: "(string \<Rightarrow> string) \<Rightarrow> task_request \<Rightarrow> message_ref" where
  "msg_ref_from_request lower r =
     (let t = lower (rt_channel_type (tr_reply_to r));
          ch = (if t = ''telegram'' then Telegram else if t = ''slack'' then Slack else if t = ''discord'' then Discord
                else if t = ''whatsapp'' then Whatsapp else if t = ''matrix'' then Matrix else Telegram)
      in \<lparr>mr_channel_type = ch, mr_account_id = ''default'', mr_recipient_id = rt_channel_id (tr_reply_to r),
          mr_message_id = rt_message_id (tr_reply_to r), mr_reply_to = rt_message_id (tr_reply_to r)\<rparr>)"

text \<open>\<open>clock\<close> gives the time at the start and after each update.\<close>

definition execute_with_streaming ::
  "(string \<Rightarrow> string) \<Rightarrow> 'w acp_env \<Rightarrow> (channel_key \<Rightarrow> 'w channel_io option) \<Rightarrow> (nat \<Rightarrow> instant) \<Rightarrow> coding_agent_registry
     \<Rightarrow> string \<Rightarrow> task_request \<Rightarrow> 'w \<Rightarrow> 'w \<times> (task_error, task_result) result" where
  "execute_with_streaming lower env channels clock reg i r w =
     (case get_agent i reg of
        None \<Rightarrow> (w, Err (TaskAgentDisconnected i))
      | Some a \<Rightarrow>
          (let m = msg_ref_from_request lower r;
               delivery = channels \<lparr>ck_channel_type = mr_channel_type m, ck_account_id = mr_account_id m\<rparr>
           in case execute_streaming env i (ra_config a) r w of
                (w1, Err e) \<Rightarrow> (w1, Err e)
              | (w1, Ok us) \<Rightarrow>
                  (case delivery of
                     Some io \<Rightarrow> process_stream default_streaming_config (selects_streaming io (Some ''partial'')) io m
                       (zip us (map (\<lambda>k. clock (k + 1)) [0..<length us])) [] (clock 0) [] sd_new w1
                   | None \<Rightarrow> (w1, process_stream_no_delivery us []))))"

definition execute_with_delivery ::
  "'w acp_env \<Rightarrow> coding_agent_registry \<Rightarrow> (nat \<Rightarrow> instant) \<Rightarrow> bool \<Rightarrow> 'w channel_io \<Rightarrow> message_ref \<Rightarrow> string \<Rightarrow> task_request \<Rightarrow> 'w
     \<Rightarrow> 'w \<times> (task_error, task_result) result" where
  "execute_with_delivery env reg clock streaming io m i r w =
     (case get_agent i reg of
        None \<Rightarrow> (w, Err (TaskAgentDisconnected i))
      | Some a \<Rightarrow>
          (case execute_streaming env i (ra_config a) r w of
             (w1, Err e) \<Rightarrow> (w1, Err e)
           | (w1, Ok us) \<Rightarrow> process_stream default_streaming_config streaming io m
               (zip us (map (\<lambda>k. clock (k + 1)) [0..<length us])) [] (clock 0) [] sd_new w1))"

text \<open>\<open>StreamingAcpClient::execute_task\<close>: the loop gives output, duration and error.\<close>

fun collect_updates :: "coding_agent_update list \<Rightarrow> string \<Rightarrow> string \<times> duration \<times> string option" where
  "collect_updates [] out = (out, 0, None)"
| "collect_updates (UpText t # us) out = collect_updates us (out @ t)"
| "collect_updates (UpDone final d success err # us) out = (final, d, if success then None else err)"
| "collect_updates (_ # us) out = collect_updates us out"

definition execute_task ::
  "'w acp_env \<Rightarrow> string \<Rightarrow> coding_agent_instance_config \<Rightarrow> task_request \<Rightarrow> 'w \<Rightarrow> 'w \<times> (task_error, task_result) result" where
  "execute_task env i c r w =
     (case execute_streaming env i c r w of
        (w1, Err e) \<Rightarrow> (w1, Err e)
      | (w1, Ok us) \<Rightarrow>
          (case collect_updates us [] of (out, d, err) \<Rightarrow>
             (w1, case err of Some e \<Rightarrow> Err (failed_with e out)
                | None \<Rightarrow> Ok \<lparr>tk_output = out, tk_modified_files = [], tk_duration_ms = word_of_nat (d div 1000000), tk_token_usage = None\<rparr>)))"

section \<open>What the executor gives\<close>

lemma no_delivery_same:
  "snd (process_stream cfg streaming io m us acc l0 pending s w) = process_stream_no_delivery (map fst us) acc"
proof (induction us arbitrary: acc l0 pending s w)
  case (Cons ut us)
  then show ?case
    by (cases ut; cases "fst ut") (auto simp: Let_def split: prod.split)
qed simp

lemma done_result_usage: "done_result output d success err = Ok r \<Longrightarrow> tk_token_usage r = None"
  by (auto simp: done_result_def split: if_splits)

lemma no_delivery_usage: "process_stream_no_delivery us acc = Ok r \<Longrightarrow> tk_token_usage r = None"
  by (induction us acc rule: process_stream_no_delivery.induct) (auto simp: ended_early_def dest: done_result_usage)

lemma streaming_usage: "execute_with_streaming lower env channels clock reg i r w = (w', Ok t) \<Longrightarrow> tk_token_usage t = None"
proof -
  have "snd (process_stream cfg streaming io m us acc l0 pending s w) = Ok t \<Longrightarrow> tk_token_usage t = None"
    for cfg streaming io m us acc l0 pending s and w :: 'a
    by (simp add: no_delivery_same no_delivery_usage)
  then show "execute_with_streaming lower env channels clock reg i r w = (w', Ok t) \<Longrightarrow> tk_token_usage t = None"
    by (auto simp: execute_with_streaming_def Let_def no_delivery_usage split: option.splits prod.splits sum.splits) (metis sndI)
qed

text \<open>The updates of a launched agent end with \<open>Done\<close>, and its result is that of the chunks.\<close>

lemma no_delivery_done:
  "list_all (\<lambda>u. case u of UpDone _ _ _ _ \<Rightarrow> False | _ \<Rightarrow> True) us \<Longrightarrow>
     process_stream_no_delivery (us @ [UpDone out d ok err]) acc = done_result out d ok err"
  by (induction us acc rule: process_stream_no_delivery.induct) simp_all

lemma chunk_updates_not_done:
  "list_all (\<lambda>u. case u of UpDone _ _ _ _ \<Rightarrow> False | _ \<Rightarrow> True) (fst (chunk_updates cs))"
  by (induction cs rule: chunk_updates.induct) (auto split: prod.split)

definition chunks_result :: "(string, output_chunk list) result \<Rightarrow> duration \<Rightarrow> (task_error, task_result) result" where
  "chunks_result started d =
     (case started of
        Err e \<Rightarrow> done_result [] d False (Some e)
      | Ok cs \<Rightarrow> (case chunk_updates cs of (us, out, err) \<Rightarrow> done_result out d (err = None) err))"

lemma stream_updates_result: "process_stream_no_delivery (stream_updates started d) [] = chunks_result started d"
  using chunk_updates_not_done
  by (cases started) (auto simp: stream_updates_def chunks_result_def split: prod.split intro!: no_delivery_done, metis fst_conv)

lemma collect_done:
  "list_all (\<lambda>u. case u of UpDone _ _ _ _ \<Rightarrow> False | _ \<Rightarrow> True) us \<Longrightarrow>
     collect_updates (us @ [UpDone out d ok err]) acc = (out, d, if ok then None else err)"
  by (induction us acc rule: collect_updates.induct) simp_all

lemma collect_stream:
  "collect_updates (stream_updates started d) acc =
    (case started of Err e \<Rightarrow> ([], d, Some e) | Ok cs \<Rightarrow> (fst (snd (chunk_updates cs)), d, snd (snd (chunk_updates cs))))"
proof (cases started)
  case (Inr cs)
  obtain us out err where c: "chunk_updates cs = (us, out, err)" by (metis prod.exhaust)
  then have "list_all (\<lambda>u. case u of UpDone _ _ _ _ \<Rightarrow> False | _ \<Rightarrow> True) us"
    using chunk_updates_not_done [of cs] by simp
  then show ?thesis using c Inr by (auto simp: stream_updates_def collect_done)
qed (simp add: stream_updates_def)

text \<open>
  The three ways to run a streaming agent give the same result: collecting the updates, delivering
  them with a given strategy, and delivering them to the channel that the request names.
\<close>

theorem entry_points_agree:
  assumes "get_agent i reg = Some a"
  shows "snd (execute_task env i (ra_config a) r w) = snd (execute_with_streaming lower env channels clock reg i r w)
    \<and> snd (execute_with_delivery env reg clock streaming io m i r w) = snd (execute_with_streaming lower env channels clock reg i r w)"
proof -
  obtain w1 res where e: "execute_streaming env i (ra_config a) r w = (w1, res)" by fastforce
  show ?thesis
  proof (cases res)
    case (Inl err)
    then show ?thesis using assms e by (simp add: execute_task_def execute_with_delivery_def execute_with_streaming_def Let_def)
  next
    case (Inr us)
    obtain started d where us: "us = stream_updates started d"
      using e Inr by (auto simp: execute_streaming_def Let_def split: option.splits agent_transport.splits prod.splits)
    have "(case collect_updates us [] of (out, d, err) \<Rightarrow> (case err of Some e \<Rightarrow> Err (failed_with e out)
        | None \<Rightarrow> Ok \<lparr>tk_output = out, tk_modified_files = [], tk_duration_ms = word_of_nat (d div 1000000), tk_token_usage = None\<rparr>))
      = process_stream_no_delivery us []"
      by (auto simp: us collect_stream stream_updates_result chunks_result_def done_result_def split: sum.split prod.split option.split)
    then show ?thesis
      using assms e Inr
      by (auto simp: execute_task_def execute_with_delivery_def execute_with_streaming_def Let_def no_delivery_same
          split: prod.split option.split)
  qed
qed

theorem entry_points_agree_witness:
  "let env = \<lparr>ap_stream = \<lambda>l w. (w + 1, Ok [ChunkText ''hi'', ChunkError ''lost''], 5)\<rparr>;
       reg = fst (register_agent (demo_agent\<lparr>cai_transport := Some (Stdio ''cc'' [] [])\<rparr>) cr_new);
       c = demo_agent\<lparr>cai_transport := Some (Stdio ''cc'' [] [])\<rparr>;
       r = \<lparr>tr_description = ''fix the bug'', tr_trigger = FromCronJob ''j'', tr_workspace = None, tr_file_context = None,
         tr_reply_to = \<lparr>rt_channel_type = ''telegram'', rt_channel_id = ''7'', rt_message_id = None\<rparr>\<rparr>
   in snd (execute_task env ''cc'' c r (0 :: nat)) = Err (ExecutionError ''lost'' (Some ''hi''))
     \<and> snd (execute_task env ''cc'' c r 0) = snd (execute_with_streaming id env (\<lambda>_. None) id reg ''cc'' r 0)"
proof -
  define c where "c = demo_agent\<lparr>cai_transport := Some (Stdio ''cc'' [] [])\<rparr>"
  define reg where "reg = fst (register_agent c cr_new)"
  have a: "get_agent ''cc'' reg = Some \<lparr>ra_id = ''cc'', ra_backend_type = cai_backend_type c, ra_config = c,
      ra_status = Unknown, ra_last_health_check = None, ra_last_successful_task = None, ra_endpoint = cai_endpoint c\<rparr>"
    by (simp add: reg_def c_def register_agent_def get_agent_def cr_new_def demo_agent_def dict_has_def)
  define env where "env = \<lparr>ap_stream = \<lambda>(l :: acp_launch) (w :: nat). (w + 1, Ok [ChunkText ''hi'', ChunkError ''lost''] :: (string, output_chunk list) result, 5 :: duration)\<rparr>"
  define r where "r = \<lparr>tr_description = ''fix the bug'', tr_trigger = FromCronJob ''j'', tr_workspace = None, tr_file_context = None,
    tr_reply_to = \<lparr>rt_channel_type = ''telegram'', rt_channel_id = ''7'', rt_message_id = None\<rparr>\<rparr>"
  have "snd (execute_task env ''cc'' c r 0) = Err (ExecutionError ''lost'' (Some ''hi''))"
    by (simp add: env_def c_def demo_agent_def execute_task_def execute_streaming_def stream_updates_def failed_with_def Let_def)
  moreover have "snd (execute_task env ''cc'' c r 0) = snd (execute_with_streaming id env (\<lambda>_. None) id reg ''cc'' r 0)"
    using conjunct1 [OF entry_points_agree [OF a]] by simp
  ultimately show ?thesis
    unfolding env_def r_def c_def reg_def Let_def by blast
qed

text \<open>
  Delivery is only an observer: a task has the result the agent's chunks give, its whole output or
  the error with the partial output, whatever channel its updates go to, however its sends and edits
  behave, and if there is no channel at all.
\<close>

theorem delivery_observes:
  "snd (execute_with_streaming lower env channels clock reg i r w) =
    snd (execute_with_streaming lower env (\<lambda>_. None) clock reg i r w)"
  by (simp add: execute_with_streaming_def Let_def no_delivery_same split: option.split prod.split sum.split)

text \<open>
  The agents whose connection the health monitor watches are the ones that cannot run tasks: for an
  agent it probes every execution fails, before anything is launched.
\<close>

theorem probed_agents_cannot_run:
  assumes "get_agent i reg = Some a" and "is_probed a"
  shows "\<exists>e. execute_with_streaming lower env channels clock reg i r w = (w, Err (ExecutionError e None))"
  using assms
  by (auto simp: execute_with_streaming_def execute_streaming_def is_probed_def Let_def
      split: option.splits agent_transport.splits)

theorem probed_agents_cannot_run_witness:
  "\<exists>e. execute_with_streaming id \<lparr>ap_stream = \<lambda>l w. (w + 1, Ok [ChunkText ''hi''], 5)\<rparr> (\<lambda>_. None) id (from_config demo_agents) ''cc''
     \<lparr>tr_description = ''fix the bug'', tr_trigger = FromCronJob ''j'', tr_workspace = None, tr_file_context = None,
       tr_reply_to = \<lparr>rt_channel_type = ''telegram'', rt_channel_id = ''7'', rt_message_id = None\<rparr>\<rparr> (0 :: nat)
     = (0, Err (ExecutionError e None))"
  by (rule probed_agents_cannot_run [OF demo_registered [folded get_agent_def]])
    (simp add: is_probed_def demo_agent_def)

end
