(* ===== verification/TaskQueue.thy ===== *)
theory TaskQueue
  imports Prelude "HOL-Library.Sublist"
begin

text \<open>
  \<open>src/coding_agent/queue.rs\<close>: the bounded task queue of the coding agents. The semaphore, the
  pending queue behind its lock and the concurrent map of active tasks are touched one after the
  other, so the operations are the atomic parts between which other calls run. Task identifiers
  come from \<open>Uuid::new_v4\<close> and do not repeat.
\<close>

section \<open>State\<close>

record 'r queued_task =
  qt_task_id :: string
  qt_agent_id :: string
  qt_request :: 'r
  qt_queued_at :: int

record 'r active_task =
  at_task_id :: string
  at_agent_id :: string
  at_request :: 'r
  at_started_at :: int

text \<open>
  Beside the fields of \<open>TaskQueue\<close>: the calls of \<open>try_dequeue\<close> that hold a permit and have not yet
  looked at the queue, the tasks popped but not yet active, and the identifiers given out.
\<close>

record 'r task_queue =
  tq_pending :: "'r queued_task list"
  tq_active :: "'r active_task dict"
  tq_max_concurrent :: "32 word"
  tq_slots :: nat
  tq_notified :: bool
  tq_acquired :: nat
  tq_in_hand :: "'r queued_task list"
  tq_issued :: "string set"

definition default_max_concurrent :: "32 word" where
  "default_max_concurrent = 3"

definition tq_new :: "32 word option \<Rightarrow> 'r task_queue" where
  "tq_new mc = (let m = (case mc of Some m \<Rightarrow> m | None \<Rightarrow> default_max_concurrent)
     in \<lparr>tq_pending = [], tq_active = [], tq_max_concurrent = m, tq_slots = unat m, tq_notified = False,
         tq_acquired = 0, tq_in_hand = [], tq_issued = {}\<rparr>)"

section \<open>Operations\<close>

definition enqueue :: "string \<Rightarrow> string \<Rightarrow> 'r \<Rightarrow> int \<Rightarrow> 'r task_queue \<Rightarrow> 'r task_queue" where
  "enqueue i agent req now q =
     q\<lparr>tq_pending := tq_pending q @ [\<lparr>qt_task_id = i, qt_agent_id = agent, qt_request = req, qt_queued_at = now\<rparr>],
       tq_notified := True, tq_issued := insert i (tq_issued q)\<rparr>"

text \<open>The three parts of \<open>try_dequeue\<close>.\<close>

definition acquire_slot :: "'r task_queue \<Rightarrow> 'r task_queue \<times> bool" where
  "acquire_slot q = (if tq_slots q > 0
     then (q\<lparr>tq_slots := tq_slots q - 1, tq_acquired := tq_acquired q + 1\<rparr>, True) else (q, False))"

definition pop_pending :: "'r task_queue \<Rightarrow> 'r task_queue \<times> 'r queued_task option" where
  "pop_pending q =
     (case tq_pending q of
        [] \<Rightarrow> (q\<lparr>tq_acquired := tq_acquired q - 1, tq_slots := tq_slots q + 1\<rparr>, None)
      | t # ts \<Rightarrow> (q\<lparr>tq_pending := ts, tq_acquired := tq_acquired q - 1, tq_in_hand := tq_in_hand q @ [t]\<rparr>, Some t))"

definition activate :: "'r queued_task \<Rightarrow> int \<Rightarrow> 'r task_queue \<Rightarrow> 'r task_queue" where
  "activate t now q =
     q\<lparr>tq_in_hand := remove1 t (tq_in_hand q),
       tq_active := dict_put (qt_task_id t) \<lparr>at_task_id = qt_task_id t, at_agent_id = qt_agent_id t,
         at_request = qt_request t, at_started_at = now\<rparr> (tq_active q)\<rparr>"

definition try_dequeue :: "int \<Rightarrow> 'r task_queue \<Rightarrow> 'r task_queue \<times> string option" where
  "try_dequeue now q =
     (case acquire_slot q of
        (q1, False) \<Rightarrow> (q1, None)
      | (q1, True) \<Rightarrow>
        (case pop_pending q1 of
           (q2, None) \<Rightarrow> (q2, None)
         | (q2, Some t) \<Rightarrow> (activate t now q2, Some (qt_task_id t))))"

text \<open>Removing an active task drops its permit; completion and the first part of cancellation.\<close>

definition remove_active :: "string \<Rightarrow> 'r task_queue \<Rightarrow> 'r task_queue \<times> bool" where
  "remove_active i q =
     (if dict_has (tq_active q) i
      then (q\<lparr>tq_active := dict_del i (tq_active q), tq_slots := tq_slots q + 1, tq_notified := True\<rparr>, True)
      else (q, False))"

definition complete_task :: "string \<Rightarrow> 'r task_queue \<Rightarrow> 'r task_queue \<times> bool" where
  "complete_task i q = remove_active i q"

fun remove_first :: "('a \<Rightarrow> bool) \<Rightarrow> 'a list \<Rightarrow> 'a list option" where
  "remove_first P [] = None"
| "remove_first P (x # xs) = (if P x then Some xs else map_option (Cons x) (remove_first P xs))"

definition cancel_pending :: "string \<Rightarrow> 'r task_queue \<Rightarrow> 'r task_queue \<times> bool" where
  "cancel_pending i q =
     (case remove_first (\<lambda>t. qt_task_id t = i) (tq_pending q) of
        Some ts \<Rightarrow> (q\<lparr>tq_pending := ts\<rparr>, True) | None \<Rightarrow> (q, False))"

definition cancel_task :: "string \<Rightarrow> 'r task_queue \<Rightarrow> 'r task_queue \<times> bool" where
  "cancel_task i q =
     (case remove_active i q of (q', True) \<Rightarrow> (q', True) | (q', False) \<Rightarrow> cancel_pending i q')"

definition active_count :: "'r task_queue \<Rightarrow> nat" where
  "active_count q = length (tq_active q)"

section \<open>Interleavings\<close>

datatype 'r queue_event =
    Enqueued string string 'r int
  | Acquired bool
  | Popped "string option"
  | Activated string int
  | Removed string bool
  | CancelledPending string bool

inductive queue_step :: "'r task_queue \<Rightarrow> 'r queue_event \<Rightarrow> 'r task_queue \<Rightarrow> bool" where
  enq: "i \<notin> tq_issued q \<Longrightarrow> queue_step q (Enqueued i agent req now) (enqueue i agent req now q)"
| acquire: "acquire_slot q = (q', b) \<Longrightarrow> queue_step q (Acquired b) q'"
| pop: "\<lbrakk>tq_acquired q > 0; pop_pending q = (q', t)\<rbrakk> \<Longrightarrow> queue_step q (Popped (map_option qt_task_id t)) q'"
| act: "t \<in> set (tq_in_hand q) \<Longrightarrow> queue_step q (Activated (qt_task_id t) now) (activate t now q)"
| remove: "remove_active i q = (q', b) \<Longrightarrow> queue_step q (Removed i b) q'"
| cancel: "cancel_pending i q = (q', b) \<Longrightarrow> queue_step q (CancelledPending i b) q'"

inductive_cases queue_stepE: "queue_step q e q'"

definition pending_ids :: "'r task_queue \<Rightarrow> string list" where
  "pending_ids q = map qt_task_id (tq_pending q)"

definition in_hand_ids :: "'r task_queue \<Rightarrow> string list" where
  "in_hand_ids q = map qt_task_id (tq_in_hand q)"

text \<open>A task is in one place, and every slot is free, held by a call or held by an active task.\<close>

definition tq_inv :: "'r task_queue \<Rightarrow> bool" where
  "tq_inv q \<longleftrightarrow> distinct (pending_ids q @ in_hand_ids q @ dict_keys (tq_active q)) \<and>
     set (pending_ids q @ in_hand_ids q @ dict_keys (tq_active q)) \<subseteq> tq_issued q \<and>
     tq_slots q + tq_acquired q + length (tq_in_hand q) + active_count q = unat (tq_max_concurrent q)"

lemma remove_first_Some:
  "remove_first P xs = Some ys \<Longrightarrow> \<exists>a x b. xs = a @ x # b \<and> ys = a @ b \<and> P x"
proof (induction xs arbitrary: ys)
  case (Cons y xs)
  show ?case
  proof (cases "P y")
    case True
    then show ?thesis using Cons.prems by (intro exI [of _ "[]"]) auto
  next
    case False
    then obtain zs where "remove_first P xs = Some zs" "ys = y # zs" using Cons.prems by auto
    with Cons.IH obtain a x b where "xs = a @ x # b" "zs = a @ b" "P x" by blast
    then show ?thesis using \<open>ys = y # zs\<close> by (intro exI [of _ "y # a"]) auto
  qed
qed simp

lemma remove_first_None: "remove_first P xs = None \<longleftrightarrow> (\<forall>x\<in>set xs. \<not> P x)"
  by (induction xs) auto

lemma dict_keys_put_new: "dict_get d k = None \<Longrightarrow> dict_keys (dict_put k v d) = dict_keys d @ [k]"
  by (induction d) (auto simp: dict_keys_def split: if_splits)

lemma dict_keys_del_all: "dict_keys (dict_del k d) = removeAll k (dict_keys d)"
  by (induction d) (auto simp: dict_keys_def split: if_splits)

lemma dict_has_keys: "dict_has d k \<longleftrightarrow> k \<in> set (dict_keys d)"
  by (induction d) (auto simp: dict_has_def dict_keys_def)

lemma length_keys: "length (dict_keys d) = length d"
  by (simp add: dict_keys_def)

lemma map_remove1_inj:
  "inj_on f (insert x (set xs)) \<Longrightarrow> map f (remove1 x xs) = remove1 (f x) (map f xs)"
  by (induction xs) (auto simp: inj_on_def)

lemma remove_active_cases:
  "remove_active i q = (q', b) \<Longrightarrow>
     (b \<and> dict_has (tq_active q) i \<and>
      q' = q\<lparr>tq_active := dict_del i (tq_active q), tq_slots := tq_slots q + 1, tq_notified := True\<rparr>) \<or>
     (\<not> b \<and> \<not> dict_has (tq_active q) i \<and> q' = q)"
  by (auto simp: remove_active_def split: if_splits)

lemma cancel_pending_cases:
  "cancel_pending i q = (q', b) \<Longrightarrow>
     (b \<and> (\<exists>a t c. tq_pending q = a @ t # c \<and> qt_task_id t = i \<and> q' = q\<lparr>tq_pending := a @ c\<rparr>)) \<or>
     (\<not> b \<and> i \<notin> set (pending_ids q) \<and> q' = q)"
  using remove_first_Some [of "\<lambda>t. qt_task_id t = i" "tq_pending q"]
  by (auto simp: cancel_pending_def remove_first_None pending_ids_def split: option.splits)

lemma tq_inv_step: "\<lbrakk>tq_inv q; queue_step q e q'\<rbrakk> \<Longrightarrow> tq_inv q' \<and> tq_max_concurrent q' = tq_max_concurrent q"
proof -
  assume inv: "tq_inv q" and st: "queue_step q e q'"
  have d: "distinct (pending_ids q @ in_hand_ids q @ dict_keys (tq_active q))"
    and i: "set (pending_ids q @ in_hand_ids q @ dict_keys (tq_active q)) \<subseteq> tq_issued q"
    and n: "tq_slots q + tq_acquired q + length (tq_in_hand q) + active_count q = unat (tq_max_concurrent q)"
    using inv unfolding tq_inv_def by blast+
  from st show ?thesis
  proof (cases rule: queue_step.cases)
    case (enq j agent req now)
    then have "pending_ids q' = pending_ids q @ [j]" "in_hand_ids q' = in_hand_ids q" "tq_active q' = tq_active q"
      "tq_issued q' = insert j (tq_issued q)" "tq_in_hand q' = tq_in_hand q"
      "tq_slots q' = tq_slots q" "tq_acquired q' = tq_acquired q" "tq_max_concurrent q' = tq_max_concurrent q"
      by (simp_all add: enqueue_def pending_ids_def in_hand_ids_def)
    moreover have "j \<notin> set (pending_ids q @ in_hand_ids q @ dict_keys (tq_active q))" using enq(3) i by blast
    ultimately show ?thesis using d i n by (auto simp: tq_inv_def active_count_def)
  next
    case (acquire b)
    then have "pending_ids q' = pending_ids q" "in_hand_ids q' = in_hand_ids q" "tq_active q' = tq_active q"
      "tq_issued q' = tq_issued q" "tq_in_hand q' = tq_in_hand q"
      "tq_slots q' + tq_acquired q' = tq_slots q + tq_acquired q" "tq_max_concurrent q' = tq_max_concurrent q"
      by (auto simp: acquire_slot_def pending_ids_def in_hand_ids_def split: if_splits)
    then show ?thesis using d i n by (simp add: tq_inv_def active_count_def)
  next
    case (pop t)
    show ?thesis
    proof (cases "tq_pending q")
      case Nil
      then have "q' = q\<lparr>tq_acquired := tq_acquired q - 1, tq_slots := tq_slots q + 1\<rparr>"
        using pop(3) by (simp add: pop_pending_def)
      then show ?thesis using d i n pop(2) by (simp add: tq_inv_def active_count_def pending_ids_def in_hand_ids_def)
    next
      case (Cons t ts)
      then have q': "q' = q\<lparr>tq_pending := ts, tq_acquired := tq_acquired q - 1, tq_in_hand := tq_in_hand q @ [t]\<rparr>"
        using pop(3) by (simp add: pop_pending_def)
      have "pending_ids q = qt_task_id t # pending_ids q'" "in_hand_ids q' = in_hand_ids q @ [qt_task_id t]"
        "tq_active q' = tq_active q" "tq_issued q' = tq_issued q"
        by (simp_all add: q' pending_ids_def in_hand_ids_def Cons)
      then have "tq_inv q'" using d i n pop(2) by (simp add: tq_inv_def active_count_def q')
      then show ?thesis by (simp add: q')
    qed
  next
    case (act t now)
    have new: "dict_get (tq_active q) (qt_task_id t) = None"
    proof -
      have "qt_task_id t \<in> set (in_hand_ids q)" using act(3) by (simp add: in_hand_ids_def)
      then have "\<not> dict_has (tq_active q) (qt_task_id t)" using d by (auto simp: dict_has_keys)
      then show ?thesis by (simp add: dict_has_def)
    qed
    have k: "dict_keys (tq_active q') = dict_keys (tq_active q) @ [qt_task_id t]"
      by (simp add: act(2) activate_def dict_keys_put_new [OF new])
    have h: "in_hand_ids q' = remove1 (qt_task_id t) (in_hand_ids q)"
    proof -
      have "inj_on qt_task_id (insert t (set (tq_in_hand q)))"
        using d act(3) by (simp add: distinct_map in_hand_ids_def insert_absorb)
      then show ?thesis by (simp add: act(2) activate_def in_hand_ids_def map_remove1_inj)
    qed
    have p: "pending_ids q' = pending_ids q" "tq_issued q' = tq_issued q" "tq_slots q' = tq_slots q"
      "tq_acquired q' = tq_acquired q" "tq_max_concurrent q' = tq_max_concurrent q"
      by (simp_all add: act(2) activate_def pending_ids_def)
    have mem: "qt_task_id t \<in> set (in_hand_ids q)" using act(3) by (simp add: in_hand_ids_def)
    have l: "Suc (length (tq_in_hand q')) = length (tq_in_hand q)"
      using act(3) by (simp add: act(2) activate_def length_remove1) (metis Suc_pred length_pos_if_in_set)
    have "active_count q' = Suc (active_count q)"
      using k by (metis active_count_def length_append_singleton length_keys)
    then show ?thesis
      using d i n l p mem unfolding tq_inv_def k h p by (auto dest: set_remove1_subset [THEN subsetD])
  next
    case (remove j b)
    from remove_active_cases [OF remove(2)] show ?thesis
    proof (elim disjE conjE)
      assume has: "dict_has (tq_active q) j"
        and q': "q' = q\<lparr>tq_active := dict_del j (tq_active q), tq_slots := tq_slots q + 1, tq_notified := True\<rparr>"
      have k: "dict_keys (tq_active q') = removeAll j (dict_keys (tq_active q))" by (simp add: q' dict_keys_del_all)
      have "distinct (dict_keys (tq_active q))" using d by simp
      then have "length (dict_keys (tq_active q')) = length (dict_keys (tq_active q)) - 1"
        using has unfolding k by (simp add: dict_has_keys distinct_remove1_removeAll [symmetric] length_remove1)
      moreover have "length (dict_keys (tq_active q)) > 0" using has by (auto simp: dict_has_keys)
      ultimately have "Suc (active_count q') = active_count q" by (simp add: active_count_def length_keys)
      moreover have "pending_ids q' = pending_ids q" "in_hand_ids q' = in_hand_ids q"
        by (simp_all add: q' pending_ids_def in_hand_ids_def)
      ultimately show ?thesis
        using d i n unfolding tq_inv_def k by (auto simp: q' distinct_removeAll)
    qed (use inv in simp)
  next
    case (cancel j b)
    from cancel_pending_cases [OF cancel(2)] show ?thesis
    proof (elim disjE conjE exE)
      fix a t c
      assume p: "tq_pending q = a @ t # c" and q': "q' = q\<lparr>tq_pending := a @ c\<rparr>"
      then have "pending_ids q = map qt_task_id a @ qt_task_id t # map qt_task_id c"
        "pending_ids q' = map qt_task_id a @ map qt_task_id c" "in_hand_ids q' = in_hand_ids q"
        by (simp_all add: pending_ids_def in_hand_ids_def)
      then show ?thesis using d i n unfolding tq_inv_def by (auto simp: q' active_count_def)
    qed (use inv in simp)
  qed
qed

lemma tq_inv_new: "tq_inv (tq_new mc)"
  by (simp add: tq_inv_def tq_new_def Let_def pending_ids_def in_hand_ids_def active_count_def dict_keys_def)

interpretation tq: invariant_machine "\<lambda>q. \<exists>mc. q = tq_new mc" queue_step tq_inv
  by unfold_locales (use tq_inv_new tq_inv_step in blast)+

lemma max_run: "\<lbrakk>exec queue_step q es q'; tq_inv q\<rbrakk> \<Longrightarrow> tq_max_concurrent q' = tq_max_concurrent q"
  by (induction rule: exec.induct) (auto dest: tq_inv_step)

section \<open>Order\<close>

fun enqueued_ids :: "'r queue_event list \<Rightarrow> string list" where
  "enqueued_ids [] = []"
| "enqueued_ids (Enqueued i _ _ _ # es) = i # enqueued_ids es"
| "enqueued_ids (_ # es) = enqueued_ids es"

fun popped_ids :: "'r queue_event list \<Rightarrow> string list" where
  "popped_ids [] = []"
| "popped_ids (Popped (Some i) # es) = i # popped_ids es"
| "popped_ids (_ # es) = popped_ids es"

lemma fifo: "exec queue_step q es q' \<Longrightarrow> subseq (popped_ids es @ pending_ids q') (pending_ids q @ enqueued_ids es)"
proof (induction rule: exec.induct)
  case (exec_cons q e q1 es q2)
  from exec_cons.hyps(1) show ?case
  proof (cases rule: queue_step.cases)
    case (enq i agent req now)
    then show ?thesis using exec_cons.IH by (simp add: enqueue_def pending_ids_def)
  next
    case (acquire b)
    then show ?thesis using exec_cons.IH by (auto simp: acquire_slot_def pending_ids_def split: if_splits)
  next
    case (pop t)
    then show ?thesis using exec_cons.IH by (auto simp: pop_pending_def pending_ids_def split: list.splits)
  next
    case (act t now)
    then show ?thesis using exec_cons.IH by (simp add: activate_def pending_ids_def)
  next
    case (remove i b)
    then show ?thesis using exec_cons.IH remove_active_cases [OF remove(2)] by (auto simp: pending_ids_def)
  next
    case (cancel i b)
    have "subseq (pending_ids q1) (pending_ids q)"
      using cancel_pending_cases [OF cancel(2)]
      by (auto simp: pending_ids_def intro!: list_emb_append_mono list_emb_Cons)
    then have "subseq (pending_ids q1 @ enqueued_ids es) (pending_ids q @ enqueued_ids es)" by simp
    then show ?thesis using exec_cons.IH cancel(1) by (auto intro: subseq_order.trans)
  qed
qed simp

lemma issued_grow: "queue_step q e q' \<Longrightarrow> tq_issued q \<subseteq> tq_issued q'"
  by (erule queue_stepE)
    (auto simp: enqueue_def acquire_slot_def pop_pending_def activate_def remove_active_def cancel_pending_def
      split: if_splits list.splits option.splits)

lemma enqueued_fresh:
  "exec queue_step q es q' \<Longrightarrow> distinct (enqueued_ids es) \<and> set (enqueued_ids es) \<inter> tq_issued q = {}"
proof (induction rule: exec.induct)
  case (exec_cons q e q1 es q2)
  note g = issued_grow [OF exec_cons.hyps(1)]
  show ?case
  proof (cases "\<exists>i agent req now. e = Enqueued i agent req now")
    case True
    then obtain i agent req now where e: "e = Enqueued i agent req now" by blast
    have "i \<notin> tq_issued q" "i \<in> tq_issued q1"
      using exec_cons.hyps(1) unfolding e by (auto elim!: queue_stepE simp: enqueue_def)
    then show ?thesis using exec_cons.IH g by (auto simp: e)
  next
    case False
    then have "enqueued_ids (e # es) = enqueued_ids es" by (cases e) auto
    then show ?thesis using exec_cons.IH g by auto
  qed
qed simp

lemma subseq_distinct: "\<lbrakk>subseq xs ys; distinct ys\<rbrakk> \<Longrightarrow> distinct xs"
proof (induction rule: list_emb.induct)
  case (list_emb_Cons2 x y xs ys)
  have "set xs \<subseteq> set ys" using list_emb_Cons2.hyps(2) by (auto elim: list_emb_set)
  then show ?case using list_emb_Cons2 by auto
qed simp_all

section \<open>Properties\<close>

text \<open>
  C31. In every interleaving of enqueues, dequeues, completions and cancellations, each of the slots is
  free, held by a dequeue in progress or held by one active task, so no more tasks than the
  configured maximum are ever active, and no task is in two places.
\<close>

theorem slots_conserved:
  assumes "exec queue_step (tq_new mc) es q"
  shows "tq_slots q + tq_acquired q + length (tq_in_hand q) + active_count q
       = unat (case mc of Some m \<Rightarrow> m | None \<Rightarrow> 3) \<and>
    active_count q \<le> unat (case mc of Some m \<Rightarrow> m | None \<Rightarrow> 3) \<and>
    distinct (pending_ids q @ in_hand_ids q @ dict_keys (tq_active q))"
proof -
  have inv: "tq_inv q" by (rule tq.reachable_inv [OF _ assms]) blast
  have "tq_max_concurrent q = (case mc of Some m \<Rightarrow> m | None \<Rightarrow> 3)"
    using max_run [OF assms tq_inv_new] by (simp add: tq_new_def Let_def default_max_concurrent_def split: option.splits)
  then show ?thesis using inv by (simp add: tq_inv_def)
qed

lemma demo_run:
  "\<exists>q. exec queue_step (tq_new None) [Enqueued ''a'' ''x'' r 0, Acquired True, Popped (Some ''a''),
      Removed ''a'' False, CancelledPending ''a'' False, Activated ''a'' 1] q \<and> dict_has (tq_active q) ''a''"
proof -
  let ?t = "\<lparr>qt_task_id = ''a'', qt_agent_id = ''x'', qt_request = r, qt_queued_at = 0\<rparr>"
  let ?q1 = "enqueue ''a'' ''x'' r 0 (tq_new None)"
  let ?q2 = "fst (acquire_slot ?q1)"
  let ?q3 = "fst (pop_pending ?q2)"
  note evals = acquire_slot_def enqueue_def tq_new_def Let_def default_max_concurrent_def
  have s1: "queue_step (tq_new None) (Enqueued ''a'' ''x'' r 0) ?q1"
    by (rule enq) (simp add: evals)
  have s2: "queue_step ?q1 (Acquired True) ?q2"
    by (rule acquire) (simp add: evals)
  have s3: "queue_step ?q2 (Popped (Some ''a'')) ?q3"
    using queue_step.pop [of ?q2 ?q3 "Some ?t"] by (simp add: pop_pending_def evals)
  have s4: "queue_step ?q3 (Removed ''a'' False) ?q3"
    by (rule remove) (simp add: remove_active_def pop_pending_def evals dict_has_def)
  have s5: "queue_step ?q3 (CancelledPending ''a'' False) ?q3"
    by (rule cancel) (simp add: cancel_pending_def pop_pending_def evals)
  have s6: "queue_step ?q3 (Activated ''a'' 1) (activate ?t 1 ?q3)"
    using queue_step.act [of ?t ?q3 1] by (simp add: pop_pending_def evals)
  have "exec queue_step ?q3 [Activated ''a'' 1] (activate ?t 1 ?q3)"
    by (rule exec_cons [where step = queue_step, OF s6 exec_nil])
  note e5 = exec_cons [where step = queue_step, OF s5 this]
  note e4 = exec_cons [where step = queue_step, OF s4 e5]
  note e3 = exec_cons [where step = queue_step, OF s3 e4]
  note e2 = exec_cons [where step = queue_step, OF s2 e3]
  show ?thesis
  proof (intro exI conjI)
    show "exec queue_step (tq_new None) [Enqueued ''a'' ''x'' r 0, Acquired True, Popped (Some ''a''),
      Removed ''a'' False, CancelledPending ''a'' False, Activated ''a'' 1] (activate ?t 1 ?q3)"
      by (rule exec_cons [where step = queue_step, OF s1 e2])
    show "dict_has (tq_active (activate ?t 1 ?q3)) ''a''" by (simp add: activate_def dict_has_def)
  qed
qed

theorem slots_conserved_witness:
  "\<exists>q :: nat task_queue. dict_has (tq_active q) ''a'' \<and>
     tq_slots q + tq_acquired q + length (tq_in_hand q) + active_count q = 3"
proof -
  obtain q :: "nat task_queue" where q: "exec queue_step (tq_new None) [Enqueued ''a'' ''x'' 0 0, Acquired True,
      Popped (Some ''a''), Removed ''a'' False, CancelledPending ''a'' False, Activated ''a'' 1] q"
    "dict_has (tq_active q) ''a''"
    using demo_run [where r = "0 :: nat"] by (elim exE conjE) (rule that)
  show ?thesis
  proof (intro exI conjI)
    show "dict_has (tq_active q) ''a''" by (rule q(2))
    show "tq_slots q + tq_acquired q + length (tq_in_hand q) + active_count q = 3"
      using slots_conserved [OF q(1)] by simp
  qed
qed

text \<open>
  Tasks start in the order in which they were enqueued, and at most once: whatever runs in
  between, the tasks taken from the queue followed by those still waiting are a subsequence of the
  enqueued ones, the missing ones having been cancelled while they waited.
\<close>

theorem tasks_start_in_order:
  assumes "exec queue_step (tq_new mc) es q"
  shows "subseq (popped_ids es @ pending_ids q) (enqueued_ids es) \<and> distinct (popped_ids es)"
proof -
  have s: "subseq (popped_ids es @ pending_ids q) (enqueued_ids es)"
    using fifo [OF assms] by (simp add: pending_ids_def tq_new_def Let_def)
  moreover have "distinct (popped_ids es @ pending_ids q)"
    using subseq_distinct [OF s] enqueued_fresh [OF assms] by (elim conjE)
  ultimately show ?thesis by simp
qed

theorem tasks_start_in_order_witness:
  "\<exists>q :: nat task_queue. \<exists>es. exec queue_step (tq_new None) es q \<and> popped_ids es = [''a''] \<and>
     subseq (popped_ids es @ pending_ids q) (enqueued_ids es)"
proof -
  let ?es = "[Enqueued ''a'' ''x'' 0 0, Acquired True, Popped (Some ''a''), Removed ''a'' False,
      CancelledPending ''a'' False, Activated ''a'' 1] :: nat queue_event list"
  obtain q :: "nat task_queue" where q: "exec queue_step (tq_new None) ?es q"
    using demo_run [where r = "0 :: nat"] by (elim exE conjE) (rule that)
  show ?thesis
  proof (intro exI conjI)
    show "exec queue_step (tq_new None) ?es q" by (rule q)
    show "subseq (popped_ids ?es @ pending_ids q) (enqueued_ids ?es)"
      using tasks_start_in_order [OF q] by (elim conjE)
  qed simp
qed

text \<open>
  A cancellation can miss a task that is alive: between the moment a dequeue has popped a task and
  the moment it is recorded as active, cancel_task finds it in neither place, reports that there is
  no such task, and the task then runs.
\<close>

theorem cancel_misses_task_in_transit:
  "\<exists>q. exec queue_step (tq_new None) [Enqueued ''a'' ''x'' r 0, Acquired True, Popped (Some ''a''),
      Removed ''a'' False, CancelledPending ''a'' False, Activated ''a'' 1] q \<and> dict_has (tq_active q) ''a''"
  by (rule demo_run)

end
