(* ===== verification/ToolApproval.thy ===== *)
theory ToolApproval
  imports Json
begin

text \<open>
  \<open>src/tool_approval.rs\<close>: which tool calls need an approval, and the life of an approval request.
  The oneshot channel of a request is part of the state, as is the timer task the request spawns;
  requests, timers, callbacks, expiry sweeps and dropped receivers are interleaved freely. The
  identifiers are drawn from \<open>Uuid::new_v4\<close> and do not repeat.
\<close>

section \<open>Which calls need approval\<close>

datatype approval_decision = Required | NotRequired

record approval_config =
  apc_require_approval :: "string list"
  apc_timeout_secs :: "64 word"

definition default_dangerous_tools :: "string list" where
  "default_dangerous_tools = [''fs_write'', ''fs_delete'', ''shell_exec'', ''run_command'']"

definition starts_with_star :: "string \<Rightarrow> bool" where
  "starts_with_star p \<longleftrightarrow> prefix ''*'' p"

definition ends_with_star :: "string \<Rightarrow> bool" where
  "ends_with_star p \<longleftrightarrow> suffix ''*'' p"

definition matches_pattern :: "string \<Rightarrow> string \<Rightarrow> bool" where
  "matches_pattern tool p =
     (if p = ''*'' then True
      else case (starts_with_star p, ends_with_star p) of
        (True, True) \<Rightarrow> (let inner = butlast (tl p) in if inner = [] then True else contains_str tool inner)
      | (True, False) \<Rightarrow> suffix (tl p) tool
      | (False, True) \<Rightarrow> prefix (butlast p) tool
      | (False, False) \<Rightarrow> tool = p)"

definition check_requires_approval :: "string \<Rightarrow> approval_config \<Rightarrow> approval_decision" where
  "check_requires_approval tool c =
     (if apc_require_approval c \<noteq> [] then
        (if \<exists>p\<in>set (apc_require_approval c). matches_pattern tool p then Required else NotRequired)
      else if \<exists>p\<in>set default_dangerous_tools. matches_pattern tool p then Required else NotRequired)"

section \<open>The approval service\<close>

datatype approval_state = Approved | Rejected | TimedOut

record pending_approval =
  pa_id :: string
  pa_tool_name :: string
  pa_tool_args :: json
  pa_user_id :: string
  pa_requested_at :: instant
  pa_expires_at :: instant

text \<open>The two ends of a oneshot channel as the sender finds them.\<close>

datatype channel = Waiting | ReceiverDropped | Delivered approval_state

record approval_service =
  tas_pending :: "pending_approval dict"
  tas_timeout :: duration
  tas_channels :: "channel dict"
  tas_timers :: "(string \<times> instant) list"

datatype callback_error = UnknownApproval string | ReceiverGone

definition tas_new :: "64 word \<Rightarrow> approval_service" where
  "tas_new secs = \<lparr>tas_pending = [], tas_timeout = from_secs secs, tas_channels = [], tas_timers = []\<rparr>"

definition tas_with_defaults :: approval_service where
  "tas_with_defaults = tas_new 120"

definition pending_count :: "approval_service \<Rightarrow> nat" where
  "pending_count s = length (tas_pending s)"

definition is_pending :: "approval_service \<Rightarrow> string \<Rightarrow> bool" where
  "is_pending s i \<longleftrightarrow> dict_has (tas_pending s) i"

definition send_state :: "string \<Rightarrow> approval_state \<Rightarrow> approval_service \<Rightarrow> approval_service \<times> bool" where
  "send_state i st s =
     (if dict_get (tas_channels s) i = Some Waiting
      then (s\<lparr>tas_channels := dict_put i (Delivered st) (tas_channels s)\<rparr>, True) else (s, False))"

definition take_pending :: "string \<Rightarrow> approval_service \<Rightarrow> approval_service" where
  "take_pending i s = s\<lparr>tas_pending := dict_del i (tas_pending s)\<rparr>"

definition request_approval ::
  "string \<Rightarrow> instant \<Rightarrow> string \<Rightarrow> json \<Rightarrow> string \<Rightarrow> approval_service \<Rightarrow> approval_service" where
  "request_approval i now tool args user s =
     (let expires = now + tas_timeout s in
      s\<lparr>tas_pending := dict_put i \<lparr>pa_id = i, pa_tool_name = tool, pa_tool_args = args, pa_user_id = user,
           pa_requested_at = now, pa_expires_at = expires\<rparr> (tas_pending s),
        tas_channels := dict_put i Waiting (tas_channels s),
        tas_timers := tas_timers s @ [(i, expires)]\<rparr>)"

text \<open>The removal with a timeout that the timer task and the sweep make.\<close>

definition time_out :: "string \<Rightarrow> approval_service \<Rightarrow> approval_service" where
  "time_out i s =
     (case dict_get (tas_pending s) i of
        None \<Rightarrow> s
      | Some a \<Rightarrow> fst (send_state i TimedOut (take_pending i s)))"

definition expire_stale :: "instant \<Rightarrow> approval_service \<Rightarrow> approval_service" where
  "expire_stale now s =
     (let expired = map fst (filter (\<lambda>e. now \<ge> pa_expires_at (snd e)) (tas_pending s))
      in fold time_out expired s)"

definition handle_callback ::
  "string \<Rightarrow> bool \<Rightarrow> approval_service \<Rightarrow> approval_service \<times> (callback_error, unit) result" where
  "handle_callback i approved s =
     (case dict_get (tas_pending s) i of
        None \<Rightarrow> (s, Err (UnknownApproval i))
      | Some a \<Rightarrow>
          (case send_state i (if approved then Approved else Rejected) (take_pending i s) of
             (s', True) \<Rightarrow> (s', Ok ())
           | (s', False) \<Rightarrow> (s', Err ReceiverGone)))"

definition parse_callback_data :: "string \<Rightarrow> (string \<times> bool) option" where
  "parse_callback_data d =
     (case strip_prefix ''approve:'' d of Some i \<Rightarrow> Some (i, True)
      | None \<Rightarrow> (case strip_prefix ''reject:'' d of Some i \<Rightarrow> Some (i, False) | None \<Rightarrow> None))"

section \<open>Interleavings\<close>

definition chan :: "approval_service \<Rightarrow> string \<Rightarrow> channel option" where
  "chan s i = dict_get (tas_channels s) i"

datatype approval_event =
    ReqApproval string instant string json string
  | TimerFires string instant
  | Sweep instant
  | Callback string bool
  | DropReceiver string

inductive approval_step :: "approval_service \<Rightarrow> approval_event \<Rightarrow> approval_service \<Rightarrow> bool" where
  request: "chan s i = None \<Longrightarrow>
    approval_step s (ReqApproval i now tool args user) (request_approval i now tool args user s)"
| timer: "\<lbrakk>(i, t) \<in> set (tas_timers s); t \<le> now\<rbrakk> \<Longrightarrow>
    approval_step s (TimerFires i now) (time_out i (s\<lparr>tas_timers := removeAll (i, t) (tas_timers s)\<rparr>))"
| sweep: "approval_step s (Sweep now) (expire_stale now s)"
| callback: "approval_step s (Callback i b) (fst (handle_callback i b s))"
| drop: "chan s i = Some Waiting \<Longrightarrow>
    approval_step s (DropReceiver i) (s\<lparr>tas_channels := dict_put i ReceiverDropped (tas_channels s)\<rparr>)"

inductive_cases approval_stepE: "approval_step s e s'"
inductive_simps approval_step_simps:
  "approval_step s (ReqApproval i now tool args user) s'" "approval_step s (TimerFires i now) s'"
  "approval_step s (Sweep now) s'" "approval_step s (Callback i b) s'" "approval_step s (DropReceiver i) s'"

text \<open>
  A pending request has an undelivered channel and its timer still to come; a request whose channel
  waits is pending.
\<close>

definition tas_inv :: "approval_service \<Rightarrow> bool" where
  "tas_inv s \<longleftrightarrow>
     (\<forall>i a. dict_get (tas_pending s) i = Some a \<longrightarrow>
        chan s i \<in> {Some Waiting, Some ReceiverDropped} \<and> (i, pa_expires_at a) \<in> set (tas_timers s) \<and>
        (\<forall>t. (i, t) \<in> set (tas_timers s) \<longrightarrow> t = pa_expires_at a)) \<and>
     (\<forall>i. chan s i = Some Waiting \<longrightarrow> dict_has (tas_pending s) i) \<and>
     (\<forall>i t. (i, t) \<in> set (tas_timers s) \<longrightarrow> chan s i \<noteq> None) \<and> dict_ok (tas_pending s)"

section \<open>Effects\<close>

lemma request_fields [simp]:
  "tas_timeout (request_approval i now tool args user s) = tas_timeout s"
  "tas_timers (request_approval i now tool args user s) = tas_timers s @ [(i, now + tas_timeout s)]"
  "chan (request_approval i now tool args user s) j = (if j = i then Some Waiting else chan s j)"
  "tas_pending (request_approval i now tool args user s) =
     dict_put i \<lparr>pa_id = i, pa_tool_name = tool, pa_tool_args = args, pa_user_id = user,
           pa_requested_at = now, pa_expires_at = now + tas_timeout s\<rparr> (tas_pending s)"
  by (simp_all add: request_approval_def Let_def chan_def)

lemma send_fields [simp]:
  "tas_pending (fst (send_state i st s)) = tas_pending s" "tas_timers (fst (send_state i st s)) = tas_timers s"
  "tas_timeout (fst (send_state i st s)) = tas_timeout s"
  "chan (fst (send_state i st s)) j = (if j = i \<and> chan s i = Some Waiting then Some (Delivered st) else chan s j)"
  by (simp_all add: send_state_def chan_def)

lemma take_fields [simp]:
  "tas_pending (take_pending i s) = dict_del i (tas_pending s)" "tas_timers (take_pending i s) = tas_timers s"
  "tas_timeout (take_pending i s) = tas_timeout s" "chan (take_pending i s) j = chan s j"
  by (simp_all add: take_pending_def chan_def)

lemma time_out_fields [simp]:
  "tas_timers (time_out i s) = tas_timers s" "tas_timeout (time_out i s) = tas_timeout s"
  "dict_get (tas_pending (time_out i s)) j = (if j = i then None else dict_get (tas_pending s) j)"
  "chan (time_out i s) j =
     (if j = i \<and> dict_has (tas_pending s) i \<and> chan s i = Some Waiting then Some (Delivered TimedOut) else chan s j)"
  "dict_ok (tas_pending s) \<Longrightarrow> dict_ok (tas_pending (time_out i s))"
  by (auto simp: time_out_def dict_has_def split: option.split)

lemma time_outs_fields:
  "tas_timers (fold time_out is s) = tas_timers s" "tas_timeout (fold time_out is s) = tas_timeout s"
  "dict_get (tas_pending (fold time_out is s)) j = (if j \<in> set is then None else dict_get (tas_pending s) j)"
  "chan (fold time_out is s) j =
     (if j \<in> set is \<and> dict_has (tas_pending s) j \<and> chan s j = Some Waiting then Some (Delivered TimedOut) else chan s j)"
  "dict_ok (tas_pending s) \<Longrightarrow> dict_ok (tas_pending (fold time_out is s))"
  by (induction "is" arbitrary: s) (auto simp: dict_has_def)

lemma expired_mem:
  "dict_ok d \<Longrightarrow> j \<in> set (map fst (filter (\<lambda>e. P (snd e)) d)) \<longleftrightarrow> (\<exists>a. dict_get d j = Some a \<and> P a)"
proof -
  assume ok: "dict_ok d"
  have "j \<in> set (map fst (filter (\<lambda>e. P (snd e)) d)) \<longleftrightarrow> (\<exists>a. (j, a) \<in> set d \<and> P a)" by force
  then show ?thesis by (simp add: dict_mem_get [OF ok])
qed

lemma expire_stale_fields:
  assumes "dict_ok (tas_pending s)"
  shows "tas_timers (expire_stale now s) = tas_timers s" "tas_timeout (expire_stale now s) = tas_timeout s"
    "dict_ok (tas_pending (expire_stale now s))"
    "dict_get (tas_pending (expire_stale now s)) j =
       (case dict_get (tas_pending s) j of Some a \<Rightarrow> if now \<ge> pa_expires_at a then None else Some a | None \<Rightarrow> None)"
    "chan (expire_stale now s) j =
       (if (\<exists>a. dict_get (tas_pending s) j = Some a \<and> now \<ge> pa_expires_at a) \<and> chan s j = Some Waiting
        then Some (Delivered TimedOut) else chan s j)"
  using expired_mem [OF assms, of j "\<lambda>a. now \<ge> pa_expires_at a"] assms
  unfolding expire_stale_def Let_def time_outs_fields
  by (auto simp: time_outs_fields(5) dict_has_def split: option.split)

lemma callback_fields [simp]:
  "tas_timers (fst (handle_callback i b s)) = tas_timers s"
  "tas_timeout (fst (handle_callback i b s)) = tas_timeout s"
  "dict_get (tas_pending (fst (handle_callback i b s))) j = (if j = i then None else dict_get (tas_pending s) j)"
  "chan (fst (handle_callback i b s)) j =
     (if j = i \<and> dict_has (tas_pending s) i \<and> chan s i = Some Waiting
      then Some (Delivered (if b then Approved else Rejected)) else chan s j)"
  "dict_ok (tas_pending s) \<Longrightarrow> dict_ok (tas_pending (fst (handle_callback i b s)))"
proof -
  have f: "fst (handle_callback i b s) =
      (if dict_has (tas_pending s) i then fst (send_state i (if b then Approved else Rejected) (take_pending i s)) else s)"
    by (auto simp: handle_callback_def dict_has_def split: option.split prod.split bool.split)
  show "tas_timers (fst (handle_callback i b s)) = tas_timers s"
    "tas_timeout (fst (handle_callback i b s)) = tas_timeout s"
    "dict_get (tas_pending (fst (handle_callback i b s))) j = (if j = i then None else dict_get (tas_pending s) j)"
    "chan (fst (handle_callback i b s)) j =
       (if j = i \<and> dict_has (tas_pending s) i \<and> chan s i = Some Waiting
        then Some (Delivered (if b then Approved else Rejected)) else chan s j)"
    "dict_ok (tas_pending s) \<Longrightarrow> dict_ok (tas_pending (fst (handle_callback i b s)))"
    unfolding f by (auto simp: dict_has_def)
qed

lemma timers_update [simp]:
  "chan (s\<lparr>tas_timers := ts\<rparr>) j = chan s j"
  "chan (s\<lparr>tas_channels := dict_put i c (tas_channels s)\<rparr>) j = (if j = i then Some c else chan s j)"
  by (simp_all add: chan_def)

lemma tas_inv_step: "\<lbrakk>tas_inv s; approval_step s e s'\<rbrakk> \<Longrightarrow> tas_inv s'"
proof -
  assume inv: "tas_inv s" and st: "approval_step s e s'"
  have ok: "dict_ok (tas_pending s)" using inv by (simp add: tas_inv_def)
  from st show ?thesis
  proof (cases rule: approval_step.cases)
    case (request i now tool args user)
    then show ?thesis using inv unfolding request(2) tas_inv_def by (auto simp: dict_has_def)
  next
    case (timer i t now)
    then show ?thesis using inv unfolding timer(2) tas_inv_def by (auto simp: dict_has_def)
  next
    case (sweep now)
    show ?thesis
      using inv expire_stale_fields(3) [OF ok] unfolding sweep(2) tas_inv_def expire_stale_fields(1,2,4,5) [OF ok] dict_has_def
      by (auto split: option.splits if_splits)
  next
    case (callback i b)
    then show ?thesis using inv unfolding callback(2) tas_inv_def by (auto simp: dict_has_def)
  next
    case (drop i)
    then show ?thesis using inv unfolding drop(2) tas_inv_def by (auto simp: dict_has_def)
  qed
qed

lemma tas_inv_new: "tas_inv (tas_new secs)"
  by (simp add: tas_inv_def tas_new_def chan_def)

interpretation ta: invariant_machine "\<lambda>s. \<exists>secs. s = tas_new secs" approval_step tas_inv
  by unfold_locales (use tas_inv_new tas_inv_step in blast)+

section \<open>What a delivered state says about the past\<close>

lemma step_timeout: "approval_step s e s' \<Longrightarrow> tas_inv s \<Longrightarrow> tas_timeout s' = tas_timeout s"
  by (erule approval_stepE) (auto simp: expire_stale_fields tas_inv_def)

lemma step_delivered:
  assumes "approval_step s e s'" "tas_inv s" "chan s i = Some (Delivered st)"
  shows "chan s' i = Some (Delivered st)"
  using assms
  by (cases rule: approval_step.cases) (auto simp: tas_inv_def expire_stale_fields)

lemma step_pending:
  assumes "approval_step s e s'" "tas_inv s" "dict_get (tas_pending s') i = Some a"
  shows "dict_get (tas_pending s) i = Some a \<or>
    (\<exists>t tool args user. e = ReqApproval i t tool args user \<and> pa_expires_at a = t + tas_timeout s)"
  using assms
  by (cases rule: approval_step.cases)
    (auto simp: tas_inv_def expire_stale_fields split: if_splits option.splits)

text \<open>The event that resolves a waiting request, given the deadline of the request.\<close>

definition resolves :: "string \<Rightarrow> approval_state \<Rightarrow> instant \<Rightarrow> approval_event \<Rightarrow> bool" where
  "resolves i st deadline e \<longleftrightarrow>
     (case st of Approved \<Rightarrow> e = Callback i True | Rejected \<Rightarrow> e = Callback i False
      | TimedOut \<Rightarrow> \<exists>now\<ge>deadline. e = TimerFires i now \<or> e = Sweep now)"

lemma step_resolves:
  assumes "approval_step s e s'" "tas_inv s" "chan s' i = Some (Delivered st)" "chan s i \<noteq> Some (Delivered st)"
  shows "\<exists>a. dict_get (tas_pending s) i = Some a \<and> resolves i st (pa_expires_at a) e"
  using assms(1)
proof (cases rule: approval_step.cases)
  case (request j now tool args user)
  then show ?thesis using assms(3,4) by (simp split: if_splits)
next
  case (timer j t now)
  then have j: "j = i" "dict_has (tas_pending s) i" "st = TimedOut"
    using assms(3,4) by (simp_all split: if_splits)
  then obtain a where a: "dict_get (tas_pending s) i = Some a" by (auto simp: dict_has_def)
  then have "t = pa_expires_at a" using assms(2) timer(3) j(1) unfolding tas_inv_def by blast
  then show ?thesis using a j timer(1,4) by (auto simp: resolves_def)
next
  case (sweep now)
  have ok: "dict_ok (tas_pending s)" using assms(2) by (simp add: tas_inv_def)
  show ?thesis
    using assms(3,4) unfolding sweep(2) expire_stale_fields(5) [OF ok]
    by (auto simp: resolves_def sweep(1) split: if_splits)
next
  case (callback j b)
  then have j: "j = i" "dict_has (tas_pending s) i" "st = (if b then Approved else Rejected)"
    using assms(3,4) by (simp_all split: if_splits)
  then show ?thesis using callback(1) by (auto simp: resolves_def dict_has_def)
next
  case (drop j)
  then show ?thesis using assms(3,4) by (simp split: if_splits)
qed

definition deadline :: "approval_service \<Rightarrow> approval_event list \<Rightarrow> string \<Rightarrow> instant \<Rightarrow> bool" where
  "deadline s es i d \<longleftrightarrow> (\<exists>a. dict_get (tas_pending s) i = Some a \<and> pa_expires_at a = d) \<or>
     (\<exists>t tool args user. ReqApproval i t tool args user \<in> set es \<and> d = t + tas_timeout s)"

lemma delivered_cause:
  "\<lbrakk>exec approval_step s es s'; tas_inv s; chan s' i = Some (Delivered st); chan s i \<noteq> Some (Delivered st)\<rbrakk>
   \<Longrightarrow> \<exists>d e. deadline s es i d \<and> e \<in> set es \<and> resolves i st d e"
proof (induction rule: exec.induct)
  case (exec_cons s e s1 es s2)
  note inv1 = tas_inv_step [OF exec_cons.prems(1) exec_cons.hyps(1)]
  show ?case
  proof (cases "chan s1 i = Some (Delivered st)")
    case True
    with step_resolves [OF exec_cons.hyps(1) exec_cons.prems(1) _ exec_cons.prems(3)]
    obtain a where "dict_get (tas_pending s) i = Some a" "resolves i st (pa_expires_at a) e" by blast
    then have "deadline s (e # es) i (pa_expires_at a)" "e \<in> set (e # es)" "resolves i st (pa_expires_at a) e"
      by (auto simp: deadline_def)
    then show ?thesis by blast
  next
    case False
    with exec_cons.IH inv1 exec_cons.prems(2) obtain d x
      where d: "deadline s1 es i d" and x: "x \<in> set es" "resolves i st d x" by blast
    note to = step_timeout [OF exec_cons.hyps(1) exec_cons.prems(1)]
    from d consider a where "dict_get (tas_pending s1) i = Some a" "pa_expires_at a = d"
      | t tool args user where "ReqApproval i t tool args user \<in> set es" "d = t + tas_timeout s1"
      unfolding deadline_def by blast
    then have "deadline s (e # es) i d"
    proof cases
      case (1 a)
      from step_pending [OF exec_cons.hyps(1) exec_cons.prems(1) 1(1)] show ?thesis
      proof (elim disjE exE conjE)
        assume "dict_get (tas_pending s) i = Some a"
        then show ?thesis using 1(2) unfolding deadline_def by blast
      next
        fix t tool args user
        assume "e = ReqApproval i t tool args user" "pa_expires_at a = t + tas_timeout s"
        then have "ReqApproval i t tool args user \<in> set (e # es)" "d = t + tas_timeout s" using 1(2) by simp_all
        then show ?thesis unfolding deadline_def by blast
      qed
    next
      case 2
      then show ?thesis using to by (auto simp: deadline_def)
    qed
    then show ?thesis using x by auto
  qed
qed auto

lemma delivered_stays:
  "\<lbrakk>exec approval_step s es s'; tas_inv s; chan s i = Some (Delivered st)\<rbrakk> \<Longrightarrow> chan s' i = Some (Delivered st)"
  by (induction rule: exec.induct) (auto intro: step_delivered tas_inv_step)

lemma delivered_callback:
  "\<lbrakk>tas_inv s; chan s i = Some (Delivered st)\<rbrakk> \<Longrightarrow> handle_callback i b s = (s, Err (UnknownApproval i))"
proof -
  assume inv: "tas_inv s" and d: "chan s i = Some (Delivered st)"
  have "dict_get (tas_pending s) i = None"
  proof (rule ccontr)
    assume "dict_get (tas_pending s) i \<noteq> None"
    then have "chan s i \<in> {Some Waiting, Some ReceiverDropped}" using inv unfolding tas_inv_def by blast
    then show False using d by simp
  qed
  then show ?thesis by (simp add: handle_callback_def)
qed

section \<open>Patterns\<close>

text \<open>Only a star at either end is a wildcard; \<open>core\<close> is what lies between.\<close>

definition core :: "string \<Rightarrow> string" where
  "core p = (if p = ''*'' then [] else (let q = (if starts_with_star p then tl p else p)
     in if ends_with_star p then butlast q else q))"

lemma star_cons: "starts_with_star p \<longleftrightarrow> (\<exists>q. p = CHR ''*'' # q)"
  by (cases p) (auto simp: starts_with_star_def)

lemma star_snoc: "ends_with_star p \<longleftrightarrow> (\<exists>q. p = q @ ''*'')"
  by (auto simp: ends_with_star_def suffix_def)

section \<open>Properties\<close>

text \<open>
  C30. In every interleaving of requests, timers, sweeps, button presses and dropped receivers: a
  caller is told Approved only after an approving press for its own request, Rejected only after a
  rejecting one, and TimedOut only by a timer or sweep at or after the deadline of the request.
  The first answer is final: nothing changes it, and any later press for it is an error.
\<close>

theorem approval_has_a_cause:
  assumes "exec approval_step (tas_new secs) es s" and "chan s i = Some (Delivered st)"
    and "exec approval_step s es' s'"
  shows "(\<exists>t tool args user e. ReqApproval i t tool args user \<in> set es \<and> e \<in> set es \<and>
      resolves i st (t + from_secs secs) e) \<and>
    chan s' i = Some (Delivered st) \<and> snd (handle_callback i b s') = Err (UnknownApproval i)"
proof -
  have inv: "tas_inv s" by (rule ta.reachable_inv [OF _ assms(1)]) blast
  have inv': "tas_inv s'" by (rule ta.exec_inv [OF assms(3) inv])
  note stays = delivered_stays [OF assms(3) inv assms(2)]
  have "chan (tas_new secs) i \<noteq> Some (Delivered st)" by (simp add: chan_def tas_new_def)
  from delivered_cause [OF assms(1) tas_inv_new assms(2) this] obtain d e
    where "deadline (tas_new secs) es i d" "e \<in> set es" "resolves i st d e" by blast
  then show ?thesis
    using stays delivered_callback [OF inv' stays, of b] by (auto simp: deadline_def tas_new_def)
qed

theorem approval_has_a_cause_witness:
  "\<exists>s. exec approval_step (tas_new 120) [ReqApproval ''r'' 0 ''fs_write'' JNull ''u'', Callback ''r'' True] s \<and>
     chan s ''r'' = Some (Delivered Approved) \<and> snd (handle_callback ''r'' False s) = Err (UnknownApproval ''r'')"
proof -
  let ?s1 = "request_approval ''r'' 0 ''fs_write'' JNull ''u'' (tas_new 120)"
  let ?s = "fst (handle_callback ''r'' True ?s1)"
  have "approval_step (tas_new 120) (ReqApproval ''r'' 0 ''fs_write'' JNull ''u'') ?s1"
    by (rule approval_step.request) (simp add: tas_new_def chan_def)
  then have e: "exec approval_step (tas_new 120) [ReqApproval ''r'' 0 ''fs_write'' JNull ''u'', Callback ''r'' True] ?s"
    by (auto simp: exec_simps intro: approval_step.callback)
  have c: "chan ?s ''r'' = Some (Delivered Approved)" by (simp add: dict_has_def)
  from approval_has_a_cause [OF e c exec_nil] e c show ?thesis by blast
qed

text \<open>
  No request waits for ever: once the timer of a request has fired, whatever else happened, the
  request is no longer pending and its caller has an answer unless it stopped listening.
\<close>

theorem fired_timer_resolves:
  assumes "exec approval_step (tas_new secs) es s" and "ReqApproval i t tool args user \<in> set es"
    and "i \<notin> fst ` set (tas_timers s)"
  shows "\<not> is_pending s i \<and> (chan s i = Some ReceiverDropped \<or> (\<exists>st. chan s i = Some (Delivered st)))"
proof -
  have inv: "tas_inv s" by (rule ta.reachable_inv [OF _ assms(1)]) blast
  have known: "chan s2 i \<noteq> None"
    if "exec approval_step s1 es s2" "ReqApproval i t tool args user \<in> set es \<or> chan s1 i \<noteq> None" "tas_inv s1" for s1 es s2
    using that
  proof (induction rule: exec.induct)
    case (exec_cons s1 e s2 es s3)
    have ok: "dict_ok (tas_pending s1)" using exec_cons.prems by (simp add: tas_inv_def)
    have "ReqApproval i t tool args user \<in> set es \<or> chan s2 i \<noteq> None"
      using exec_cons.hyps(1) exec_cons.prems(1)
      by (cases rule: approval_step.cases) (auto simp: expire_stale_fields [OF ok])
    then show ?case using exec_cons.IH tas_inv_step [OF exec_cons.prems(2) exec_cons.hyps(1)] by blast
  qed simp
  then have "chan s i \<noteq> None" using assms(1,2) tas_inv_new by blast
  moreover have none: "dict_get (tas_pending s) i = None"
    using inv assms(3) by (cases "dict_get (tas_pending s) i") (force simp: tas_inv_def)+
  moreover have "chan s i \<noteq> Some Waiting" using inv none by (auto simp: tas_inv_def dict_has_def)
  ultimately show ?thesis by (cases "the (chan s i)") (auto simp: is_pending_def dict_has_def)
qed

theorem fired_timer_resolves_witness:
  "\<exists>s. exec approval_step (tas_new 120)
      [ReqApproval ''r'' 0 ''fs_write'' JNull ''u'', TimerFires ''r'' (from_secs 120)] s \<and> \<not> is_pending s ''r''"
proof -
  let ?s1 = "request_approval ''r'' 0 ''fs_write'' JNull ''u'' (tas_new 120)"
  let ?s = "time_out ''r'' (?s1\<lparr>tas_timers := []\<rparr>)"
  have t: "tas_timers ?s1 = [(''r'', from_secs 120)]" by (simp add: tas_new_def)
  have "approval_step (tas_new 120) (ReqApproval ''r'' 0 ''fs_write'' JNull ''u'') ?s1"
    by (rule approval_step.request) (simp add: tas_new_def chan_def)
  moreover have "approval_step ?s1 (TimerFires ''r'' (from_secs 120)) ?s"
    using approval_step.timer [of "''r''" "from_secs 120" ?s1 "from_secs 120"] unfolding t by simp
  ultimately have e: "exec approval_step (tas_new 120)
      [ReqApproval ''r'' 0 ''fs_write'' JNull ''u'', TimerFires ''r'' (from_secs 120)] ?s"
    by (auto simp: exec_simps)
  have "\<not> is_pending ?s ''r''"
    using fired_timer_resolves [OF e, of "''r''" 0 "''fs_write''" JNull "''u''"] by simp
  then show ?thesis using e by blast
qed

text \<open>
  A pattern matches exactly the tool names that are its core with anything before it if the
  pattern starts with a star and anything after it if it ends with one; with configured patterns a
  call needs approval exactly when one of them matches, without any exactly for the four dangerous
  tools.
\<close>

theorem approval_rule:
  "(matches_pattern tool p \<longleftrightarrow> (\<exists>a b. tool = a @ core p @ b \<and>
      (a = [] \<or> starts_with_star p) \<and> (b = [] \<or> ends_with_star p))) \<and>
   (check_requires_approval tool c = Required \<longleftrightarrow>
      (if apc_require_approval c = [] then tool \<in> {''fs_write'', ''fs_delete'', ''shell_exec'', ''run_command''}
       else tool \<in> {t. list_ex (matches_pattern t) (apc_require_approval c)}))"
proof
  show "matches_pattern tool p \<longleftrightarrow> (\<exists>a b. tool = a @ core p @ b \<and>
      (a = [] \<or> starts_with_star p) \<and> (b = [] \<or> ends_with_star p))"
  proof (cases "p = ''*''")
    case True
    then show ?thesis by (simp add: matches_pattern_def core_def starts_with_star_def) blast
  next
    case False
    consider "starts_with_star p" "ends_with_star p" | "starts_with_star p" "\<not> ends_with_star p"
      | "\<not> starts_with_star p" "ends_with_star p" | "\<not> starts_with_star p" "\<not> ends_with_star p" by blast
    then show ?thesis
    proof cases
      case 1
      then obtain q where q: "p = CHR ''*'' # q @ ''*''"
        using False by (auto simp: star_cons star_snoc Cons_eq_append_conv)
      then show ?thesis
        using 1 False by (auto simp: matches_pattern_def core_def contains_str_sublist sublist_def)
    qed (use False in \<open>auto simp: matches_pattern_def core_def prefix_def suffix_def\<close>)
  qed
  show "check_requires_approval tool c = Required \<longleftrightarrow>
      (if apc_require_approval c = [] then tool \<in> {''fs_write'', ''fs_delete'', ''shell_exec'', ''run_command''}
       else tool \<in> {t. list_ex (matches_pattern t) (apc_require_approval c)})"
    by (auto simp: check_requires_approval_def default_dangerous_tools_def matches_pattern_def
        starts_with_star_def ends_with_star_def suffix_def list_ex_iff)
qed

end
