(* ===== verification/CodingTasks.thy ===== *)
theory CodingTasks
  imports CodingStreaming TaskQueue ToolApproval
begin

text \<open>
  \<open>src/coding_agent/workspace.rs\<close>, \<open>cost.rs\<close>, \<open>history.rs\<close>, \<open>delegator.rs\<close> and \<open>executor.rs\<close>: accepting
  a task for a coding agent, and the loop that takes tasks from the queue, runs them and records how
  they ended.
\<close>

section \<open>Workspaces\<close>

text \<open>\<open>Path::components\<close> on Unix, by which paths are compared.\<close>

datatype path_component = RootDir | CurDir | ParentDir | NormalComp string

definition path_components :: "string \<Rightarrow> path_component list" where
  "path_components p =
     (let parts = split_on (CHR ''/'') p
      in (if prefix ''/'' p then [RootDir] else if hd parts = ''.'' then [CurDir] else [])
         @ map (\<lambda>s. if s = ''..'' then ParentDir else NormalComp s) (filter (\<lambda>s. s \<noteq> [] \<and> s \<noteq> ''.'') parts))"

definition path_starts_with :: "string \<Rightarrow> string \<Rightarrow> bool" where
  "path_starts_with p base \<longleftrightarrow> prefix (path_components base) (path_components p)"

text \<open>A validator is its list of allowed directories; \<open>canonicalize\<close> is the file system's.\<close>

definition wv_new :: "(string \<Rightarrow> string option) \<Rightarrow> string list \<Rightarrow> string list" where
  "wv_new canonicalize ws = List.map_filter canonicalize ws"

definition is_within_workspace :: "string list \<Rightarrow> string \<Rightarrow> bool" where
  "is_within_workspace allowed p \<longleftrightarrow> list_ex (path_starts_with p) allowed"

definition validate_path :: "(string \<Rightarrow> string option) \<Rightarrow> string list \<Rightarrow> string \<Rightarrow> (coding_agent_error, unit) result" where
  "validate_path canonicalize allowed p =
     (case canonicalize p of
        None \<Rightarrow> Err (WorkspaceViolation p)
      | Some c \<Rightarrow> if is_within_workspace allowed c then Ok () else Err (WorkspaceViolation p))"

fun validate_paths :: "(string \<Rightarrow> string option) \<Rightarrow> string list \<Rightarrow> string list \<Rightarrow> (coding_agent_error, unit) result" where
  "validate_paths canonicalize allowed [] = Ok ()"
| "validate_paths canonicalize allowed (p # ps) =
     (case validate_path canonicalize allowed p of Err e \<Rightarrow> Err e | Ok _ \<Rightarrow> validate_paths canonicalize allowed ps)"

section \<open>Costs\<close>

record agent_cost_record =
  acr_agent_id :: string
  acr_total_input_tokens :: "64 word"
  acr_total_output_tokens :: "64 word"
  acr_estimated_total_cost_usd :: "64 word"
  acr_task_count :: "64 word"
  acr_period_start :: int

record cost_tracker =
  ct_agent_costs :: "agent_cost_record dict"
  ct_task_caps :: "64 word dict"

definition ct_new :: cost_tracker where
  "ct_new = \<lparr>ct_agent_costs = [], ct_task_caps = []\<rparr>"

definition record_usage :: "int \<Rightarrow> string \<Rightarrow> token_usage \<Rightarrow> cost_tracker \<Rightarrow> cost_tracker" where
  "record_usage now i u ct = ct\<lparr>ct_agent_costs :=
     (case dict_get (ct_agent_costs ct) i of
        Some r \<Rightarrow> dict_put i (r\<lparr>acr_total_input_tokens := acr_total_input_tokens r + tu_input_tokens u,
            acr_total_output_tokens := acr_total_output_tokens r + tu_output_tokens u,
            acr_estimated_total_cost_usd := f64_add (acr_estimated_total_cost_usd r) (tu_estimated_cost_usd u),
            acr_task_count := acr_task_count r + 1\<rparr>) (ct_agent_costs ct)
      | None \<Rightarrow> dict_put i \<lparr>acr_agent_id = i, acr_total_input_tokens = tu_input_tokens u,
            acr_total_output_tokens = tu_output_tokens u, acr_estimated_total_cost_usd = tu_estimated_cost_usd u,
            acr_task_count = 1, acr_period_start = now\<rparr> (ct_agent_costs ct))\<rparr>"

definition check_cost_cap :: "64 word \<Rightarrow> 64 word \<Rightarrow> (coding_agent_error, unit) result" where
  "check_cost_cap current cap = (if f64_less cap current then Err (CostCapExceeded current cap) else Ok ())"

definition get_agent_stats :: "string \<Rightarrow> cost_tracker \<Rightarrow> agent_cost_record option" where
  "get_agent_stats i ct = dict_get (ct_agent_costs ct) i"

definition reset_period :: "int \<Rightarrow> string \<Rightarrow> cost_tracker \<Rightarrow> cost_tracker" where
  "reset_period now i ct =
     (case dict_get (ct_agent_costs ct) i of
        None \<Rightarrow> ct
      | Some r \<Rightarrow> ct\<lparr>ct_agent_costs := dict_put i (r\<lparr>acr_total_input_tokens := 0, acr_total_output_tokens := 0,
          acr_estimated_total_cost_usd := 0, acr_task_count := 0, acr_period_start := now\<rparr>) (ct_agent_costs ct)\<rparr>)"

definition set_task_cap :: "string \<Rightarrow> 64 word \<Rightarrow> cost_tracker \<Rightarrow> cost_tracker" where
  "set_task_cap i cap ct = ct\<lparr>ct_task_caps := dict_put i cap (ct_task_caps ct)\<rparr>"

definition get_task_cap :: "string \<Rightarrow> cost_tracker \<Rightarrow> 64 word option" where
  "get_task_cap i ct = dict_get (ct_task_caps ct) i"

section \<open>Histories\<close>

text \<open>The history the executor keeps, most recent entry first.\<close>

record task_history =
  th_entries :: "task_history_entry list dict"
  th_max :: nat

definition th_new :: "nat \<Rightarrow> task_history" where
  "th_new m = \<lparr>th_entries = [], th_max = m\<rparr>"

definition th_record :: "task_history_entry \<Rightarrow> task_history \<Rightarrow> task_history" where
  "th_record e h = h\<lparr>th_entries :=
     (case dict_get (th_entries h) (he_agent_id e) of
        Some es \<Rightarrow> dict_put (he_agent_id e) (take (th_max h) (e # es)) (th_entries h)
      | None \<Rightarrow> dict_put (he_agent_id e) [e] (th_entries h))\<rparr>"

definition th_get_recent :: "string \<Rightarrow> nat \<Rightarrow> task_history \<Rightarrow> task_history_entry list" where
  "th_get_recent a limit h = (case dict_get (th_entries h) a of Some es \<Rightarrow> take limit es | None \<Rightarrow> [])"

definition th_get_task :: "string \<Rightarrow> task_history \<Rightarrow> task_history_entry option" where
  "th_get_task t h = find (\<lambda>e. he_task_id e = t) (concat (map snd (th_entries h)))"

text \<open>The history the control panel reads, oldest entry first.\<close>

definition max_entries_per_agent :: nat where
  "max_entries_per_agent = 200"

type_synonym panel_history = "task_history_entry list dict"

definition ph_record :: "task_history_entry \<Rightarrow> panel_history \<Rightarrow> panel_history" where
  "ph_record e h =
     (let es = (case dict_get h (he_agent_id e) of Some es \<Rightarrow> es | None \<Rightarrow> []) @ [e];
          es' = (if length es > max_entries_per_agent then drop (length es - max_entries_per_agent) es else es)
      in dict_put (he_agent_id e) es' h)"

definition ph_get_recent :: "string \<Rightarrow> nat \<Rightarrow> panel_history \<Rightarrow> task_history_entry list" where
  "ph_get_recent a limit h =
     (case dict_get h a of
        None \<Rightarrow> []
      | Some es \<Rightarrow> sort_key (\<lambda>e. - he_created_at e) (take (min limit (length es)) (rev es)))"

definition ph_get_task :: "string \<Rightarrow> panel_history \<Rightarrow> task_history_entry option" where
  "ph_get_task t h = find (\<lambda>e. he_task_id e = t) (concat (map snd h))"

section \<open>Delegation\<close>

record delegation_command =
  dc_agent_name :: string
  dc_task_description :: string

record delegator_state =
  ds_registry :: coding_agent_registry
  ds_queue :: "task_request task_queue"
  ds_costs :: cost_tracker

definition resolve_agent_id :: "(string \<Rightarrow> string) \<Rightarrow> string \<Rightarrow> coding_agent_registry \<Rightarrow> (coding_agent_error, string) result" where
  "resolve_agent_id lower i r =
     (if get_agent i r \<noteq> None then Ok i
      else case resolve_by_alias lower i r of
        Some j \<Rightarrow> Ok j
      | None \<Rightarrow> (case find (\<lambda>a. lower (ra_id a) = lower i) (list_agents r) of
          Some a \<Rightarrow> Ok (ra_id a) | None \<Rightarrow> Err (AgentNotFound i)))"

definition check_connection :: "string \<Rightarrow> agent_connection_status \<Rightarrow> (coding_agent_error, unit) result" where
  "check_connection i st =
     (case st of
        Connected \<Rightarrow> Ok ()
      | Disconnected _ \<Rightarrow> Err (AgentDisconnected i)
      | ErrorStatus message _ \<Rightarrow> Err (AgentDisconnected (i @ '': '' @ message))
      | Unknown \<Rightarrow> Ok ())"

definition admit :: "(string \<Rightarrow> string option) \<Rightarrow> registered_agent \<Rightarrow> string \<Rightarrow> task_request \<Rightarrow> cost_tracker \<Rightarrow> (coding_agent_error, unit) result" where
  "admit canonicalize a i task costs =
     (case check_connection i (ra_status a) of
        Err e \<Rightarrow> Err e
      | Ok _ \<Rightarrow>
        (case (case tr_workspace task of None \<Rightarrow> Ok () | Some p \<Rightarrow> validate_path canonicalize (cai_workspaces (ra_config a)) p) of
           Err e \<Rightarrow> Err e
         | Ok _ \<Rightarrow>
           (case (case tr_file_context task of None \<Rightarrow> Ok () | Some ps \<Rightarrow> validate_paths canonicalize (cai_workspaces (ra_config a)) ps) of
              Err e \<Rightarrow> Err e
            | Ok _ \<Rightarrow>
              (case (cai_cost_cap_usd (ra_config a), get_agent_stats i costs) of
                 (Some cap, Some st) \<Rightarrow> check_cost_cap (acr_estimated_total_cost_usd st) cap
               | _ \<Rightarrow> Ok ()))))"

definition delegate ::
  "(string \<Rightarrow> string) \<Rightarrow> (string \<Rightarrow> string option) \<Rightarrow> string \<Rightarrow> int \<Rightarrow> string \<Rightarrow> task_request \<Rightarrow> delegator_state
     \<Rightarrow> delegator_state \<times> (coding_agent_error, string) result" where
  "delegate lower canonicalize task_id now agent_id task s =
     (case resolve_agent_id lower agent_id (ds_registry s) of
        Err e \<Rightarrow> (s, Err e)
      | Ok i \<Rightarrow>
        (case get_agent i (ds_registry s) of
           None \<Rightarrow> (s, Err (AgentNotFound agent_id))
         | Some a \<Rightarrow>
           (case admit canonicalize a i task (ds_costs s) of
              Err e \<Rightarrow> (s, Err e)
            | Ok _ \<Rightarrow> (s\<lparr>ds_queue := enqueue task_id i task now (ds_queue s)\<rparr>, Ok task_id))))"

text \<open>The slice after the prefix is taken at byte 12.\<close>

definition parse_delegation_command :: "(string \<Rightarrow> string) \<Rightarrow> string \<Rightarrow> delegation_command option" where
  "parse_delegation_command lower input =
     (let trimmed = trim input in
      if \<not> prefix ''delegate to '' (lower trimmed) then None
      else case split_once (CHR '':'') (drop 12 trimmed) of
        None \<Rightarrow> None
      | Some (agent, task) \<Rightarrow>
          (let agent_name = trim agent; task_description = trim task
           in if agent_name = [] \<or> task_description = [] then None
              else Some \<lparr>dc_agent_name = agent_name, dc_task_description = task_description\<rparr>))"

definition cancel_delegated :: "string \<Rightarrow> delegator_state \<Rightarrow> delegator_state \<times> (coding_agent_error, unit) result" where
  "cancel_delegated t s =
     (case cancel_task t (ds_queue s) of
        (q, True) \<Rightarrow> (s\<lparr>ds_queue := q\<rparr>, Ok ())
      | (q, False) \<Rightarrow> (s\<lparr>ds_queue := q\<rparr>, Err (DelegationFailed (''Task '' @ [CHR 0x27] @ t @ [CHR 0x27] @ '' not found in queue''))))"

section \<open>Execution\<close>

record 'w executor_env =
  xe_execute :: "string \<Rightarrow> string \<Rightarrow> task_request \<Rightarrow> 'w \<Rightarrow> 'w \<times> (task_error, task_result) result"
  xe_sleep :: "64 word \<Rightarrow> 'w \<Rightarrow> 'w"
  xe_deadline :: "64 word \<Rightarrow> 'w \<Rightarrow> 'w \<Rightarrow> 'w option"
  xe_now :: "'w \<Rightarrow> int"

record executor_state =
  es_queue :: "task_request task_queue"
  es_registry :: coding_agent_registry
  es_costs :: cost_tracker
  es_history :: task_history
  es_panel_history :: panel_history

record executor_config =
  ec_default_timeout_secs :: "64 word"
  ec_approval_config :: approval_config

definition extract_operation_keywords :: "(string \<Rightarrow> string) \<Rightarrow> string \<Rightarrow> string list" where
  "extract_operation_keywords lower d =
     (let l = lower d in
        (if contains_str l ''delete'' \<or> contains_str l ''remove'' then [''fs_delete''] else [])
      @ (if contains_str l ''write'' \<or> contains_str l ''create'' \<or> contains_str l ''modify'' then [''fs_write''] else [])
      @ (if contains_str l ''execute'' \<or> contains_str l ''run'' \<or> contains_str l ''shell'' then [''shell_exec''] else [])
      @ (if contains_str l ''command'' then [''run_command''] else []))"

text \<open>The operations that are logged as needing approval, and the outcome of the check.\<close>

definition check_approval :: "(string \<Rightarrow> string) \<Rightarrow> approval_config \<Rightarrow> task_request \<Rightarrow> string list \<times> (task_error, unit) result" where
  "check_approval lower c r =
     (filter (\<lambda>k. check_requires_approval k c = Required) (extract_operation_keywords lower (tr_description r)), Ok ())"

definition validate_workspace :: "string list \<Rightarrow> string \<Rightarrow> (task_error, unit) result" where
  "validate_workspace allowed w =
     (if allowed = [] then Ok ()
      else if list_ex (\<lambda>a. path_starts_with w a \<or> path_components w = path_components a) allowed then Ok ()
      else Err (TaskWorkspaceViolation w allowed))"

definition task_workspace :: "task_request \<Rightarrow> registered_agent option \<Rightarrow> string" where
  "task_workspace r a =
     (case tr_workspace r of
        Some p \<Rightarrow> p
      | None \<Rightarrow> (case a of
          Some a \<Rightarrow> (case cai_workspaces (ra_config a) of p # _ \<Rightarrow> p | [] \<Rightarrow> ''.'') | None \<Rightarrow> ''.''))"

definition max_retries :: nat where
  "max_retries = 3"

function execute_with_rate_limit_retry ::
  "'w executor_env \<Rightarrow> string \<Rightarrow> string \<Rightarrow> task_request \<Rightarrow> nat \<Rightarrow> 'w \<Rightarrow> 'w \<times> (task_error, task_result) result" where
  "execute_with_rate_limit_retry env i ep r attempts w =
     (case xe_execute env i ep r w of
        (w1, Err (RateLimit after)) \<Rightarrow>
          (if attempts + 1 \<ge> max_retries then (w1, Err (RateLimit after))
           else execute_with_rate_limit_retry env i ep r (attempts + 1)
             (xe_sleep env (case after of Some s \<Rightarrow> s | None \<Rightarrow> 30) w1))
      | (w1, res) \<Rightarrow> (w1, res))"
  by pat_completeness auto

termination
  by (relation "measure (\<lambda>(env, i, ep, r, attempts, w). max_retries - attempts)") (auto simp: max_retries_def)

declare execute_with_rate_limit_retry.simps [simp del]

text \<open>
  \<open>xe_deadline\<close> tells whether the deadline passed before the run came to an end, and the world in
  which the abandoned run leaves things.
\<close>

definition execute_with_timeout ::
  "'w executor_env \<Rightarrow> string \<Rightarrow> string \<Rightarrow> task_request \<Rightarrow> 64 word \<Rightarrow> 'w \<Rightarrow> 'w \<times> (task_error, task_result) result" where
  "execute_with_timeout env i ep r secs w =
     (case execute_with_rate_limit_retry env i ep r 0 w of (w1, res) \<Rightarrow>
        (case xe_deadline env secs w w1 of
           Some w2 \<Rightarrow> (w2, Err (TaskTimeout secs secs)) | None \<Rightarrow> (w1, res)))"

definition track_cost :: "int \<Rightarrow> string \<Rightarrow> token_usage \<Rightarrow> 64 word option \<Rightarrow> cost_tracker \<Rightarrow> cost_tracker \<times> (task_error, unit) result" where
  "track_cost now i u cap ct =
     (let ct1 = record_usage now i u ct in
      case cap of
        None \<Rightarrow> (ct1, Ok ())
      | Some c \<Rightarrow> (case check_cost_cap (tu_estimated_cost_usd u) c of
          Err _ \<Rightarrow> (ct1, Err (CostCap (tu_estimated_cost_usd u) c)) | Ok _ \<Rightarrow> (ct1, Ok ())))"

definition execute_with_orchestration ::
  "(string \<Rightarrow> string) \<Rightarrow> 'w executor_env \<Rightarrow> executor_config \<Rightarrow> string \<Rightarrow> task_request \<Rightarrow> executor_state \<Rightarrow> 'w
     \<Rightarrow> 'w \<times> executor_state \<times> (task_error, task_result) result" where
  "execute_with_orchestration lower env cfg i r s w =
     (case get_agent i (es_registry s) of
        None \<Rightarrow> (w, s, Err (TaskAgentDisconnected i))
      | Some a \<Rightarrow>
        (case validate_workspace (cai_workspaces (ra_config a)) (task_workspace r (Some a)) of
           Err e \<Rightarrow> (w, s, Err e)
         | Ok _ \<Rightarrow>
           (case snd (check_approval lower (ec_approval_config cfg) r) of
              Err e \<Rightarrow> (w, s, Err e)
            | Ok _ \<Rightarrow>
              (case execute_with_timeout env i (ra_endpoint a) r
                  (case cai_timeout_secs (ra_config a) of Some t \<Rightarrow> t | None \<Rightarrow> ec_default_timeout_secs cfg) w of
                 (w1, Err e) \<Rightarrow> (w1, s, Err e)
               | (w1, Ok t) \<Rightarrow>
                   (case tk_token_usage t of
                      None \<Rightarrow> (w1, s, Ok t)
                    | Some u \<Rightarrow>
                        (case track_cost (xe_now env w1) i u (cai_cost_cap_usd (ra_config a)) (es_costs s) of
                           (ct, Err e) \<Rightarrow> (w1, s\<lparr>es_costs := ct\<rparr>, Err e)
                         | (ct, Ok _) \<Rightarrow> (w1, s\<lparr>es_costs := ct\<rparr>, Ok t)))))))"

definition outcome_state :: "int \<Rightarrow> (task_error, task_result) result \<Rightarrow> task_state" where
  "outcome_state now res = (case res of Ok t \<Rightarrow> Completed now now t | Err e \<Rightarrow> Failed now now e)"

definition finalize_task ::
  "int \<Rightarrow> string \<Rightarrow> string \<Rightarrow> task_request \<Rightarrow> (task_error, task_result) result \<Rightarrow> executor_state \<Rightarrow> executor_state" where
  "finalize_task now t i r res s =
     (let reg = (case res of Ok _ \<Rightarrow> record_successful_task now i (es_registry s) | Err _ \<Rightarrow> es_registry s);
          e = \<lparr>he_task_id = t, he_agent_id = i, he_description = tr_description r, he_trigger = tr_trigger r,
                he_state = outcome_state now res, he_workspace = task_workspace r (get_agent i reg), he_created_at = now\<rparr>
      in s\<lparr>es_registry := reg, es_history := th_record e (es_history s), es_panel_history := ph_record e (es_panel_history s),
           es_queue := fst (complete_task t (es_queue s))\<rparr>)"

definition get_active_task_details :: "string \<Rightarrow> executor_state \<Rightarrow> (string \<times> task_request) option" where
  "get_active_task_details t s = map_option (\<lambda>a. (at_agent_id a, at_request a)) (dict_get (tq_active (es_queue s)) t)"

text \<open>One turn of the loop, when nothing else happens in between.\<close>

definition process_next_task ::
  "(string \<Rightarrow> string) \<Rightarrow> 'w executor_env \<Rightarrow> executor_config \<Rightarrow> (duration \<Rightarrow> 'w \<Rightarrow> 'w) \<Rightarrow> executor_state \<Rightarrow> 'w \<Rightarrow> 'w \<times> executor_state" where
  "process_next_task lower env cfg pause s w =
     (case try_dequeue (xe_now env w) (es_queue s) of
        (q, None) \<Rightarrow> (pause 100000000 w, s\<lparr>es_queue := q\<rparr>)
      | (q, Some t) \<Rightarrow>
          (let s1 = s\<lparr>es_queue := q\<rparr> in
           case get_active_task_details t s1 of
             None \<Rightarrow> (w, s1)
           | Some (i, r) \<Rightarrow>
               (case execute_with_orchestration lower env cfg i r s1 w of
                  (w1, s2, res) \<Rightarrow> (w1, finalize_task (xe_now env w1) t i r res s2))))"

section \<open>The two histories\<close>

definition entries_of :: "string \<Rightarrow> task_history_entry list \<Rightarrow> task_history_entry list" where
  "entries_of a es = filter (\<lambda>e. he_agent_id e = a) es"

lemma entries_of_snoc: "entries_of a (es @ [e]) = entries_of a es @ (if he_agent_id e = a then [e] else [])"
  by (simp add: entries_of_def)

lemma take_Cons_take: "take n (x # take n xs) = take n (x # xs)"
  by (cases n) (simp_all add: min_def)

definition keep_last :: "nat \<Rightarrow> 'a list \<Rightarrow> 'a list" where
  "keep_last n xs = drop (length xs - n) xs"

lemma rev_keep_last: "rev (keep_last n xs) = take n (rev xs)"
  by (cases "n \<le> length xs") (simp_all add: keep_last_def rev_drop)

lemma keep_last_snoc: "keep_last n (keep_last n xs @ [x]) = keep_last n (xs @ [x])"
proof -
  have "rev (keep_last n (keep_last n xs @ [x])) = rev (keep_last n (xs @ [x]))"
    by (simp add: rev_keep_last take_Cons_take)
  then show ?thesis by simp
qed

lemma ph_record_keep:
  "ph_record e h = dict_put (he_agent_id e) (keep_last max_entries_per_agent
     ((case dict_get h (he_agent_id e) of Some es \<Rightarrow> es | None \<Rightarrow> []) @ [e])) h"
  by (simp add: ph_record_def keep_last_def Let_def)

lemma th_record_fields:
  "th_max (th_record e h) = th_max h"
  "dict_get (th_entries (th_record e h)) a =
     (if a = he_agent_id e
      then Some (case dict_get (th_entries h) a of Some es \<Rightarrow> take (th_max h) (e # es) | None \<Rightarrow> [e])
      else dict_get (th_entries h) a)"
  by (auto simp: th_record_def split: option.split)

lemma th_entries_run:
  assumes "m > 0"
  shows "th_max (fold th_record es (th_new m)) = m \<and> dict_get (th_entries (fold th_record es (th_new m))) a =
    (if entries_of a es = [] then None else Some (take m (rev (entries_of a es))))"
proof (induction es arbitrary: a rule: rev_induct)
  case (snoc e es)
  obtain k where m: "m = Suc k" using assms by (cases m) simp_all
  have take_k: "take k (take (Suc k) xs) = take k xs" for xs :: "task_history_entry list" by (simp add: min_def)
  show ?case
    using snoc [of a] snoc [of "he_agent_id e"]
    by (simp add: th_record_fields entries_of_snoc m take_k del: take_take)
qed (simp add: th_new_def entries_of_def)

lemma ph_entries_run:
  "dict_get (fold ph_record es []) a =
     (if entries_of a es = [] then None else Some (keep_last max_entries_per_agent (entries_of a es)))"
proof (induction es arbitrary: a rule: rev_induct)
  case (snoc e es)
  have "keep_last max_entries_per_agent [e] = [e]" by (simp add: keep_last_def max_entries_per_agent_def)
  then show ?case
    using snoc [of a] snoc [of "he_agent_id e"]
    by (simp add: ph_record_keep entries_of_snoc keep_last_snoc)
qed (simp add: entries_of_def)

text \<open>
  The executor's own history and the history that the control panel and the status tool read give
  the same recent tasks of every agent, when the tasks were recorded in the order of their times.
\<close>

theorem histories_agree:
  assumes "sorted (map he_created_at es)"
  shows "th_get_recent a limit (fold th_record es (th_new max_entries_per_agent)) = ph_get_recent a limit (fold ph_record es [])"
proof (cases "entries_of a es = []")
  case True
  then show ?thesis
    using th_entries_run [of max_entries_per_agent es a]
    by (simp add: th_get_recent_def ph_get_recent_def ph_entries_run max_entries_per_agent_def)
next
  case False
  let ?es = "entries_of a es" and ?m = max_entries_per_agent
  have "sorted (map he_created_at ?es)" using assms unfolding entries_of_def by (rule sorted_filter)
  then have "sorted_wrt (\<lambda>x y. he_created_at y \<le> he_created_at x) (rev ?es)"
    by (simp add: sorted_wrt_rev sorted_map)
  then have sorted: "sorted (map (\<lambda>e. - he_created_at e) (take n (rev ?es)))" for n
    by (simp add: sorted_map sorted_wrt_take)
  have m: "take (min n (length xs)) xs = take n xs" for n and xs :: "task_history_entry list"
    by (cases "n \<le> length xs") (simp_all add: min_def)
  have "take (min limit (length (keep_last ?m ?es))) (rev (keep_last ?m ?es)) = take limit (take ?m (rev ?es))"
    using m [of limit "rev (keep_last ?m ?es)"] unfolding length_rev by (simp only: rev_keep_last)
  then have "ph_get_recent a limit (fold ph_record es []) = sort_key (\<lambda>e. - he_created_at e) (take limit (take ?m (rev ?es)))"
    using False by (simp add: ph_get_recent_def ph_entries_run)
  also have "\<dots> = take limit (take ?m (rev ?es))"
    using sort_key_id_if_sorted [OF sorted [of "min limit ?m"]] by simp
  also have "\<dots> = th_get_recent a limit (fold th_record es (th_new ?m))"
    using False th_entries_run [of ?m es a] by (simp add: th_get_recent_def max_entries_per_agent_def)
  finally show ?thesis ..
qed

definition demo_entry :: "string \<Rightarrow> int \<Rightarrow> task_history_entry" where
  "demo_entry t now = \<lparr>he_task_id = t, he_agent_id = ''cc'', he_description = ''fix'', he_trigger = FromCronJob ''j'',
     he_state = Running now None, he_workspace = ''/w'', he_created_at = now\<rparr>"

theorem histories_agree_witness:
  "th_get_recent ''cc'' 1 (fold th_record [demo_entry ''a'' 1, demo_entry ''b'' 2] (th_new max_entries_per_agent)) = [demo_entry ''b'' 2]
   \<and> ph_get_recent ''cc'' 1 (fold ph_record [demo_entry ''a'' 1, demo_entry ''b'' 2] []) = [demo_entry ''b'' 2]"
proof -
  have "th_get_recent ''cc'' 1 (fold th_record [demo_entry ''a'' 1, demo_entry ''b'' 2] (th_new max_entries_per_agent)) = [demo_entry ''b'' 2]"
    by (simp add: th_get_recent_def th_record_fields th_new_def max_entries_per_agent_def demo_entry_def)
  moreover have "sorted (map he_created_at [demo_entry ''a'' 1, demo_entry ''b'' 2])" by (simp add: demo_entry_def)
  ultimately show ?thesis
    using histories_agree [of "[demo_entry ''a'' 1, demo_entry ''b'' 2]" "''cc''" 1] by metis
qed

section \<open>Admission\<close>

definition task_paths :: "task_request \<Rightarrow> string list" where
  "task_paths r = (case tr_workspace r of Some p \<Rightarrow> [p] | None \<Rightarrow> []) @ (case tr_file_context r of Some ps \<Rightarrow> ps | None \<Rightarrow> [])"

definition resolves_within :: "(string \<Rightarrow> string option) \<Rightarrow> string list \<Rightarrow> string \<Rightarrow> bool" where
  "resolves_within canonicalize allowed p =
     (case canonicalize p of Some c \<Rightarrow> list_ex (\<lambda>a. prefix (path_components a) (path_components c)) allowed | None \<Rightarrow> False)"

text \<open>The policy that delegation is to enforce, for a registered agent.\<close>

definition permitted :: "(string \<Rightarrow> string option) \<Rightarrow> string \<Rightarrow> task_request \<Rightarrow> delegator_state \<Rightarrow> bool" where
  "permitted canonicalize i task s =
     (case get_agent i (ds_registry s) of
        None \<Rightarrow> False
      | Some a \<Rightarrow> (ra_status a = Connected \<or> ra_status a = Unknown)
          \<and> list_all (resolves_within canonicalize (cai_workspaces (ra_config a))) (task_paths task)
          \<and> (case (cai_cost_cap_usd (ra_config a), get_agent_stats i (ds_costs s)) of
               (Some cap, Some st) \<Rightarrow> \<not> f64_less cap (acr_estimated_total_cost_usd st) | _ \<Rightarrow> True))"

lemma within_prefix: "is_within_workspace allowed p \<longleftrightarrow> list_ex (\<lambda>a. prefix (path_components a) (path_components p)) allowed"
  by (simp add: is_within_workspace_def path_starts_with_def list_ex_iff)

lemma validate_path_ok: "is_ok (validate_path canonicalize allowed p) \<longleftrightarrow> resolves_within canonicalize allowed p"
  by (simp add: validate_path_def resolves_within_def within_prefix split: option.split)

lemma validate_paths_ok: "is_ok (validate_paths canonicalize allowed ps) \<longleftrightarrow> list_all (resolves_within canonicalize allowed) ps"
proof (induction ps)
  case (Cons p ps)
  then show ?case
    using validate_path_ok [of canonicalize allowed p] by (cases "validate_path canonicalize allowed p") simp_all
qed simp

lemma check_connection_ok: "is_ok (check_connection i st) \<longleftrightarrow> st = Connected \<or> st = Unknown"
  by (simp add: check_connection_def split: agent_connection_status.split)

lemma is_ok_seq: "is_ok (case x of Inl e \<Rightarrow> Inl e | Inr u \<Rightarrow> y) \<longleftrightarrow> is_ok x \<and> is_ok y"
  by (cases x) simp_all

lemma is_ok_optional: "is_ok (case x of None \<Rightarrow> Ok () | Some p \<Rightarrow> f p) \<longleftrightarrow> (case x of None \<Rightarrow> True | Some p \<Rightarrow> is_ok (f p))"
  by (cases x) simp_all

lemma admit_ok:
  assumes "get_agent i (ds_registry s) = Some a"
  shows "is_ok (admit canonicalize a i task (ds_costs s)) \<longleftrightarrow> permitted canonicalize i task s"
proof -
  let ?ws = "cai_workspaces (ra_config a)"
  have cap: "is_ok (case (cai_cost_cap_usd (ra_config a), get_agent_stats i (ds_costs s)) of
        (Some cap, Some st) \<Rightarrow> check_cost_cap (acr_estimated_total_cost_usd st) cap | _ \<Rightarrow> Ok ())
      = (case (cai_cost_cap_usd (ra_config a), get_agent_stats i (ds_costs s)) of
           (Some cap, Some st) \<Rightarrow> \<not> f64_less cap (acr_estimated_total_cost_usd st) | _ \<Rightarrow> True)"
    by (simp add: check_cost_cap_def split: option.split)
  have paths: "list_all (resolves_within canonicalize ?ws) (task_paths task) \<longleftrightarrow>
      (case tr_workspace task of None \<Rightarrow> True | Some p \<Rightarrow> resolves_within canonicalize ?ws p) \<and>
      (case tr_file_context task of None \<Rightarrow> True | Some ps \<Rightarrow> list_all (resolves_within canonicalize ?ws) ps)"
    by (simp add: task_paths_def split: option.split)
  show ?thesis
    unfolding admit_def is_ok_seq is_ok_optional cap check_connection_ok validate_path_ok validate_paths_ok
    by (simp add: permitted_def assms paths)
qed

text \<open>
  C32. Delegation enforces the policy exactly: a task is accepted if and only if its agent resolves, is
  connected or was never checked, every path of the task resolves into a directory the agent is
  configured for, and the recorded cost is within the cap; then it is the last in the queue under the
  agent's id, and otherwise nothing has changed.
\<close>

theorem delegation_exact:
  "delegate lower canonicalize t now agent_id task s =
     (s\<lparr>ds_queue := (if is_ok (snd (delegate lower canonicalize t now agent_id task s))
        then enqueue t (projr (resolve_agent_id lower agent_id (ds_registry s))) task now (ds_queue s) else ds_queue s)\<rparr>,
      snd (delegate lower canonicalize t now agent_id task s))
   \<and> is_ok (snd (delegate lower canonicalize t now agent_id task s)) =
     (case resolve_agent_id lower agent_id (ds_registry s) of Ok i \<Rightarrow> permitted canonicalize i task s | Err _ \<Rightarrow> False)"
proof (cases "resolve_agent_id lower agent_id (ds_registry s)")
  case (Inl e)
  then show ?thesis by (simp add: delegate_def)
next
  case (Inr i)
  show ?thesis
  proof (cases "get_agent i (ds_registry s)")
    case None
    then show ?thesis using Inr by (simp add: delegate_def permitted_def)
  next
    case (Some a)
    then show ?thesis
      using Inr admit_ok [OF Some, of canonicalize task]
      by (cases "admit canonicalize a i task (ds_costs s)") (simp_all add: delegate_def)
  qed
qed

section \<open>Costs are never recorded\<close>

text \<open>The executor that the gateway runs tasks with.\<close>

definition streaming_env ::
  "(string \<Rightarrow> string) \<Rightarrow> 'w acp_env \<Rightarrow> (channel_key \<Rightarrow> 'w channel_io option) \<Rightarrow> (nat \<Rightarrow> instant) \<Rightarrow> coding_agent_registry
     \<Rightarrow> 'w executor_env \<Rightarrow> 'w executor_env" where
  "streaming_env lower acp channels clock reg env =
     env\<lparr>xe_execute := \<lambda>i ep r. execute_with_streaming lower acp channels clock reg i r\<rparr>"

text \<open>The result is that of one of the calls.\<close>

lemma retry_result:
  "\<exists>w1 w2. xe_execute env i ep r w1 = (w2, snd (execute_with_rate_limit_retry env i ep r n w))"
proof (induction env i ep r n w rule: execute_with_rate_limit_retry.induct)
  case (1 env i ep r n w)
  obtain w1 res where e: "xe_execute env i ep r w = (w1, res)" by fastforce
  show ?case
  proof (cases "(\<exists>a. res = Err (RateLimit a)) \<and> \<not> max_retries \<le> n + 1")
    case True
    then obtain a where res: "res = Err (RateLimit a)" by blast
    then have "execute_with_rate_limit_retry env i ep r n w =
        execute_with_rate_limit_retry env i ep r (n + 1) (xe_sleep env (case a of Some s \<Rightarrow> s | None \<Rightarrow> 30) w1)"
      using True by (simp add: execute_with_rate_limit_retry.simps [of env i ep r n w] e)
    then show ?thesis using 1 [OF e [symmetric]] True res by simp
  next
    case False
    then have "execute_with_rate_limit_retry env i ep r n w = (w1, res)"
      by (auto simp: execute_with_rate_limit_retry.simps [of env i ep r n w] e split: sum.split task_error.split)
    then show ?thesis using e by auto
  qed
qed

lemma orchestration_costs:
  assumes "\<And>w w' t. xe_execute env i ep r w = (w', Ok t) \<Longrightarrow> tk_token_usage t = None"
    and "\<And>a. get_agent i (es_registry s) = Some a \<Longrightarrow> ra_endpoint a = ep"
  shows "es_costs (fst (snd (execute_with_orchestration lower env cfg i r s w))) = es_costs s"
proof -
  have timeout: "tk_token_usage t = None" if "execute_with_timeout env i ep r secs w = (w', Ok t)" for secs w w' t
    using that retry_result [of env i ep r 0 w] assms(1)
    by (auto simp: execute_with_timeout_def split: prod.splits option.splits)
  show ?thesis
    using assms(2) timeout
    by (auto simp: execute_with_orchestration_def split: option.split sum.split prod.split)
qed

lemma finalize_costs: "es_costs (finalize_task now t i r res s) = es_costs s"
  by (simp add: finalize_task_def Let_def)

lemma turn_costs:
  assumes "\<And>i ep r w w' t. xe_execute env i ep r w = (w', Ok t) \<Longrightarrow> tk_token_usage t = None"
  shows "es_costs (snd (process_next_task lower env cfg pause s w)) = es_costs s"
proof -
  have "es_costs s2 = es_costs s1" if "execute_with_orchestration lower env cfg i r s1 w = (w1, s2, res)" for i r s1 w1 s2 res
    using orchestration_costs [of env i "case get_agent i (es_registry s1) of Some a \<Rightarrow> ra_endpoint a | None \<Rightarrow> []" r s1 lower cfg w]
      assms that by (auto split: option.splits)
  then show ?thesis
    by (auto simp: process_next_task_def Let_def finalize_costs split: prod.split option.split)
qed

text \<open>
  Cost caps never take effect: the executor the gateway runs reports no token usage, so no number of
  tasks changes the recorded costs that both cap checks look at.
\<close>

theorem costs_never_recorded:
  "es_costs (snd (((\<lambda>(w, s). process_next_task lower (streaming_env lower acp channels clock reg env) cfg pause s w) ^^ n) (w, s)))
    = es_costs s"
proof (induction n)
  case (Suc n)
  obtain w1 s1 where q: "((\<lambda>(w, s). process_next_task lower (streaming_env lower acp channels clock reg env) cfg pause s w) ^^ n) (w, s) = (w1, s1)"
    by fastforce
  have "es_costs (snd (process_next_task lower (streaming_env lower acp channels clock reg env) cfg pause s1 w1)) = es_costs s1"
    by (rule turn_costs) (auto simp: streaming_env_def dest: streaming_usage)
  then show ?case using Suc q by simp
qed simp

section \<open>Retries\<close>

text \<open>An environment whose world counts the calls.\<close>

definition counted :: "'w executor_env \<Rightarrow> ('w \<times> nat) executor_env" where
  "counted env = \<lparr>xe_execute = \<lambda>i ep r wk. (case xe_execute env i ep r (fst wk) of (w', res) \<Rightarrow> ((w', snd wk + 1), res)),
     xe_sleep = \<lambda>s wk. (xe_sleep env s (fst wk), snd wk),
     xe_deadline = \<lambda>s wk wk'. map_option (\<lambda>w. (w, snd wk')) (xe_deadline env s (fst wk) (fst wk')),
     xe_now = \<lambda>wk. xe_now env (fst wk)\<rparr>"

definition is_rate_limit :: "(task_error, 'a) result \<Rightarrow> bool" where
  "is_rate_limit res = (case res of Err (RateLimit _) \<Rightarrow> True | _ \<Rightarrow> False)"

lemma retry_counts:
  "\<lbrakk>execute_with_rate_limit_retry (counted env) i ep r n wk = (wk', res); n < max_retries\<rbrakk> \<Longrightarrow>
     snd wk < snd wk' \<and> snd wk' \<le> snd wk + (max_retries - n) \<and> (is_rate_limit res \<longrightarrow> snd wk' = snd wk + (max_retries - n))"
proof (induction "counted env" i ep r n wk rule: execute_with_rate_limit_retry.induct)
  case (1 i ep r n wk)
  obtain w1 res1 where e: "xe_execute (counted env) i ep r wk = ((w1, snd wk + 1), res1)"
    by (cases "xe_execute env i ep r (fst wk)") (simp add: counted_def)
  show ?case
  proof (cases "is_rate_limit res1 \<and> \<not> max_retries \<le> n + 1")
    case True
    then obtain a where res: "res1 = Err (RateLimit a)" by (auto simp: is_rate_limit_def split: sum.splits task_error.splits)
    let ?w = "xe_sleep (counted env) (case a of Some s \<Rightarrow> s | None \<Rightarrow> 30) (w1, snd wk + 1)"
    have "execute_with_rate_limit_retry (counted env) i ep r (n + 1) ?w = (wk', res)"
      using 1(2) True res by (simp add: execute_with_rate_limit_retry.simps [of "counted env" i ep r n wk] e)
    then show ?thesis
      using 1(1) [OF e [symmetric] res refl] True by (force simp: counted_def)
  next
    case False
    then have "(wk', res) = ((w1, snd wk + 1), res1)"
      using 1(2) by (auto simp: execute_with_rate_limit_retry.simps [of "counted env" i ep r n wk] e is_rate_limit_def
        split: sum.splits task_error.splits if_splits)
    then show ?thesis using False 1(3) by auto
  qed
qed

text \<open>
  A task is tried once to three times, and it fails with the rate limit only when the third try met
  the limit as well.
\<close>

theorem retries_bounded:
  assumes "execute_with_rate_limit_retry (counted env) i ep r 0 (w, 0) = ((w', calls), res)"
  shows "1 \<le> calls \<and> calls \<le> 3 \<and> (is_rate_limit res \<longrightarrow> calls = 3)"
  using retry_counts [OF assms] by (simp add: max_retries_def)

theorem retries_bounded_witness:
  "let env = \<lparr>xe_execute = \<lambda>i ep r w. (w, Err (RateLimit (Some 5))), xe_sleep = \<lambda>s w. w + s, xe_deadline = \<lambda>s w w'. None, xe_now = \<lambda>w. 0\<rparr>;
       r = \<lparr>tr_description = ''fix'', tr_trigger = FromCronJob ''j'', tr_workspace = None, tr_file_context = None,
         tr_reply_to = \<lparr>rt_channel_type = ''telegram'', rt_channel_id = ''7'', rt_message_id = None\<rparr>\<rparr>;
       res = execute_with_rate_limit_retry (counted env) ''cc'' ''ep'' r 0 (0, 0)
   in fst (fst res) = 10 \<and> 1 \<le> snd (fst res) \<and> snd (fst res) \<le> 3 \<and> (is_rate_limit (snd res) \<longrightarrow> snd (fst res) = 3)"
proof -
  define env where "env = \<lparr>xe_execute = \<lambda>(i :: string) (ep :: string) (r :: task_request) (w :: 64 word). (w, Err (RateLimit (Some 5)) :: (task_error, task_result) result),
    xe_sleep = \<lambda>s w. w + s, xe_deadline = \<lambda>s w w'. None, xe_now = \<lambda>w. 0 :: int\<rparr>"
  define r where "r = \<lparr>tr_description = ''fix'', tr_trigger = FromCronJob ''j'', tr_workspace = None, tr_file_context = None,
    tr_reply_to = \<lparr>rt_channel_type = ''telegram'', rt_channel_id = ''7'', rt_message_id = None\<rparr>\<rparr>"
  obtain w' calls res where q: "execute_with_rate_limit_retry (counted env) ''cc'' ''ep'' r 0 (0, 0) = ((w', calls), res)"
    by (metis prod.exhaust)
  have "w' = 10"
    using q by (simp add: execute_with_rate_limit_retry.simps counted_def env_def max_retries_def)
  then show ?thesis
    using retries_bounded [OF q] q by (simp add: env_def r_def Let_def)
qed

section \<open>The loop beside its callers\<close>

text \<open>
  The executor is one loop: what it holds between two accesses to the queue is its phase. Delegations
  and both parts of a cancellation come in between; the outcome of a run is arbitrary.
\<close>

datatype executor_phase = Idle | HoldsSlot | InHand "task_request queued_task" | Dequeued string
  | Executing string string task_request

record executor_machine =
  em_state :: executor_state
  em_phase :: executor_phase

definition with_queue :: "task_request task_queue \<Rightarrow> executor_state \<Rightarrow> executor_state" where
  "with_queue q s = s\<lparr>es_queue := q\<rparr>"

datatype executor_event = Delegated string | CancelledActive string bool | CancelledQueued string bool
  | SlotTaken | NothingPending | TaskPopped string | TaskActivated string | TaskLookedUp string bool | TaskFinished string

inductive executor_step :: "executor_machine \<Rightarrow> executor_event \<Rightarrow> executor_machine \<Rightarrow> bool" where
  delegated: "executor_step m (Delegated t) (m\<lparr>em_state := with_queue (enqueue t i req now (es_queue (em_state m))) (em_state m)\<rparr>)"
| cancel_active: "remove_active t (es_queue (em_state m)) = (q, b) \<Longrightarrow>
    executor_step m (CancelledActive t b) (m\<lparr>em_state := with_queue q (em_state m)\<rparr>)"
| cancel_queued: "cancel_pending t (es_queue (em_state m)) = (q, b) \<Longrightarrow>
    executor_step m (CancelledQueued t b) (m\<lparr>em_state := with_queue q (em_state m)\<rparr>)"
| take_slot: "\<lbrakk>em_phase m = Idle; acquire_slot (es_queue (em_state m)) = (q, True)\<rbrakk> \<Longrightarrow>
    executor_step m SlotTaken \<lparr>em_state = with_queue q (em_state m), em_phase = HoldsSlot\<rparr>"
| none_pending: "\<lbrakk>em_phase m = HoldsSlot; pop_pending (es_queue (em_state m)) = (q, None)\<rbrakk> \<Longrightarrow>
    executor_step m NothingPending \<lparr>em_state = with_queue q (em_state m), em_phase = Idle\<rparr>"
| popped: "\<lbrakk>em_phase m = HoldsSlot; pop_pending (es_queue (em_state m)) = (q, Some t)\<rbrakk> \<Longrightarrow>
    executor_step m (TaskPopped (qt_task_id t)) \<lparr>em_state = with_queue q (em_state m), em_phase = InHand t\<rparr>"
| activated: "em_phase m = InHand t \<Longrightarrow>
    executor_step m (TaskActivated (qt_task_id t))
      \<lparr>em_state = with_queue (activate t now (es_queue (em_state m))) (em_state m), em_phase = Dequeued (qt_task_id t)\<rparr>"
| found: "\<lbrakk>em_phase m = Dequeued t; get_active_task_details t (em_state m) = Some (i, r)\<rbrakk> \<Longrightarrow>
    executor_step m (TaskLookedUp t True) (m\<lparr>em_phase := Executing t i r\<rparr>)"
| gone: "\<lbrakk>em_phase m = Dequeued t; get_active_task_details t (em_state m) = None\<rbrakk> \<Longrightarrow>
    executor_step m (TaskLookedUp t False) (m\<lparr>em_phase := Idle\<rparr>)"
| finished: "em_phase m = Executing t i r \<Longrightarrow>
    executor_step m (TaskFinished t) \<lparr>em_state = finalize_task now t i r res ((em_state m)\<lparr>es_costs := ct\<rparr>), em_phase = Idle\<rparr>"

definition phase_task :: "executor_phase \<Rightarrow> string list" where
  "phase_task p = (case p of Dequeued t \<Rightarrow> [t] | Executing t _ _ \<Rightarrow> [t] | _ \<Rightarrow> [])"

definition em_inv :: "executor_machine \<Rightarrow> bool" where
  "em_inv m \<longleftrightarrow> dict_ok (tq_active (es_queue (em_state m)))
     \<and> set (dict_keys (tq_active (es_queue (em_state m)))) \<subseteq> set (phase_task (em_phase m))"

definition em_start :: "executor_machine \<Rightarrow> bool" where
  "em_start m \<longleftrightarrow> em_phase m = Idle \<and> tq_active (es_queue (em_state m)) = []"

lemma with_queue_simps [simp]: "es_queue (with_queue q s) = q"
  by (simp add: with_queue_def)

lemma finalize_queue: "es_queue (finalize_task now t i r res s) = fst (complete_task t (es_queue s))"
  by (simp add: finalize_task_def Let_def)

lemma remove_active_map:
  "tq_active (fst (remove_active t q)) = dict_del t (tq_active q)"
proof (cases "dict_has (tq_active q) t")
  case False
  then have "t \<notin> set (dict_keys (tq_active q))" by (simp add: dict_has_keys)
  then have "dict_del t (tq_active q) = tq_active q"
    by (simp add: dict_del_def dict_keys_def)
  then show ?thesis using False by (simp add: remove_active_def)
qed (simp add: remove_active_def)

lemma keys_after_del: "set (dict_keys (dict_del t d)) = set (dict_keys d) - {t}"
  by (simp add: dict_keys_del_all)

lemma em_invI:
  "\<lbrakk>dict_ok d; set (dict_keys d) \<subseteq> set (phase_task p); tq_active (es_queue (em_state m)) = d; em_phase m = p\<rbrakk> \<Longrightarrow> em_inv m"
  by (simp add: em_inv_def)

lemma em_inv_step: "\<lbrakk>em_inv m; executor_step m e m'\<rbrakk> \<Longrightarrow> em_inv m'"
proof -
  assume "em_inv m" and st: "executor_step m e m'"
  then have ok: "dict_ok (tq_active (es_queue (em_state m)))"
    and keys: "set (dict_keys (tq_active (es_queue (em_state m)))) \<subseteq> set (phase_task (em_phase m))"
    by (simp_all add: em_inv_def)
  from st show ?thesis
  proof (cases rule: executor_step.cases)
    case (delegated t i req now)
    then show ?thesis using ok keys by (simp add: em_inv_def enqueue_def)
  next
    case (cancel_active t q b)
    then have "tq_active q = dict_del t (tq_active (es_queue (em_state m)))" using remove_active_map by (metis fst_conv)
    then show ?thesis using cancel_active ok keys by (auto simp: em_inv_def keys_after_del)
  next
    case (cancel_queued t q b)
    then have "tq_active q = tq_active (es_queue (em_state m))" by (auto simp: cancel_pending_def split: option.splits)
    then show ?thesis using cancel_queued ok keys by (simp add: em_inv_def)
  next
    case (take_slot q)
    then have "tq_active q = tq_active (es_queue (em_state m))" by (auto simp: acquire_slot_def split: if_splits)
    then show ?thesis using take_slot ok keys by (simp add: em_inv_def phase_task_def)
  next
    case (none_pending q)
    then have "tq_active q = tq_active (es_queue (em_state m))" by (auto simp: pop_pending_def split: list.splits)
    then show ?thesis using none_pending ok keys by (simp add: em_inv_def phase_task_def)
  next
    case (popped q t)
    then have "tq_active q = tq_active (es_queue (em_state m))" by (auto simp: pop_pending_def split: list.splits)
    then show ?thesis using popped ok keys by (simp add: em_inv_def phase_task_def)
  next
    case (activated t now)
    then show ?thesis using ok keys by (simp add: em_inv_def phase_task_def activate_def)
  next
    case (found t i r)
    then show ?thesis using ok keys by (simp add: em_inv_def phase_task_def)
  next
    case (gone t)
    then have "dict_get (tq_active (es_queue (em_state m))) t = None" by (simp add: get_active_task_details_def)
    then have "t \<notin> set (dict_keys (tq_active (es_queue (em_state m))))" by (simp add: dict.keys_get)
    then have "x \<notin> set (dict_keys (tq_active (es_queue (em_state m))))" for x
      using keys gone by (auto simp: phase_task_def)
    then have "dict_keys (tq_active (es_queue (em_state m))) = []" by (metis last_in_set)
    then show ?thesis using gone ok by (simp add: em_inv_def)
  next
    case (finished t i r now res ct)
    have "tq_active (es_queue (em_state m')) = dict_del t (tq_active (es_queue (em_state m)))"
      using finished by (simp add: finalize_queue complete_task_def remove_active_map)
    then show ?thesis using finished ok keys by (simp add: em_inv_def phase_task_def keys_after_del)
  qed
qed

interpretation executor_loop: invariant_machine em_start executor_step em_inv
  by unfold_locales (simp add: em_start_def em_inv_def dict_keys_def, rule em_inv_step)

text \<open>
  Tasks run one at a time whatever the configured concurrency: in every interleaving of the loop with
  delegations and cancellations at most one task is active.
\<close>

theorem one_task_at_a_time:
  assumes "em_start m" and "exec executor_step m es m'"
  shows "active_count (es_queue (em_state m')) \<le> 1"
proof -
  have inv: "em_inv m'" using executor_loop.reachable_inv [OF assms] .
  then have "distinct (dict_keys (tq_active (es_queue (em_state m'))))"
    by (simp add: em_inv_def dict_ok_def dict_keys_def)
  then have "active_count (es_queue (em_state m')) = card (set (dict_keys (tq_active (es_queue (em_state m')))))"
    by (simp add: active_count_def distinct_card length_keys)
  also have "\<dots> \<le> card (set (phase_task (em_phase m')))" using inv by (intro card_mono) (simp_all add: em_inv_def)
  also have "\<dots> \<le> 1" by (cases "em_phase m'") (simp_all add: phase_task_def)
  finally show ?thesis .
qed

definition demo_request :: task_request where
  "demo_request = \<lparr>tr_description = ''fix'', tr_trigger = FromCronJob ''j'', tr_workspace = None, tr_file_context = None,
     tr_reply_to = \<lparr>rt_channel_type = ''telegram'', rt_channel_id = ''7'', rt_message_id = None\<rparr>\<rparr>"

definition demo_machine :: "task_request task_queue \<Rightarrow> executor_phase \<Rightarrow> executor_machine" where
  "demo_machine q p = \<lparr>em_state = \<lparr>es_queue = q, es_registry = cr_new, es_costs = ct_new, es_history = th_new 200,
     es_panel_history = []\<rparr>, em_phase = p\<rparr>"

lemma demo_machine_queue:
  "(demo_machine q p)\<lparr>em_state := with_queue q' (em_state (demo_machine q p))\<rparr> = demo_machine q' p"
  "\<lparr>em_state = with_queue q' (em_state (demo_machine q p)), em_phase = p'\<rparr> = demo_machine q' p'"
  "es_queue (em_state (demo_machine q p)) = q" "em_phase (demo_machine q p) = p"
  "(demo_machine q p)\<lparr>em_phase := p'\<rparr> = demo_machine q p'"
  by (simp_all add: demo_machine_def with_queue_def)

theorem one_task_at_a_time_witness:
  "\<exists>m. exec executor_step (demo_machine (tq_new (Some 3)) Idle)
       [Delegated ''a'', Delegated ''b'', SlotTaken, TaskPopped ''a'', TaskActivated ''a'', TaskLookedUp ''a'' True] m
     \<and> tq_slots (es_queue (em_state m)) = 2 \<and> pending_ids (es_queue (em_state m)) = [''b'']
     \<and> active_count (es_queue (em_state m)) \<le> 1"
proof -
  define t where "t = (\<lambda>i. \<lparr>qt_task_id = i, qt_agent_id = ''cc'', qt_request = demo_request, qt_queued_at = 0\<rparr>)"
  define q1 where "q1 = enqueue ''a'' ''cc'' demo_request 0 (tq_new (Some 3))"
  define q2 where "q2 = enqueue ''b'' ''cc'' demo_request 0 q1"
  define q3 where "q3 = fst (acquire_slot q2)"
  define q4 where "q4 = fst (pop_pending q3)"
  define q5 where "q5 = activate (t ''a'') 0 q4"
  have q2: "tq_pending q2 = [t ''a'', t ''b'']" "tq_slots q2 = 3" "tq_active q2 = []"
    by (simp_all add: q2_def q1_def enqueue_def tq_new_def t_def)
  have q3: "acquire_slot q2 = (q3, True)" "tq_pending q3 = [t ''a'', t ''b'']" "tq_slots q3 = 2" "tq_active q3 = []"
    using q2 by (simp_all add: q3_def acquire_slot_def)
  have q4: "pop_pending q3 = (q4, Some (t ''a''))" "tq_pending q4 = [t ''b'']" "tq_slots q4 = 2" "tq_active q4 = []"
    using q3 by (simp_all add: q4_def pop_pending_def)
  have q5: "tq_slots q5 = 2" "pending_ids q5 = [''b'']"
      "tq_active q5 = [(''a'', \<lparr>at_task_id = ''a'', at_agent_id = ''cc'', at_request = demo_request, at_started_at = 0\<rparr>)]"
    using q4 by (simp_all add: q5_def activate_def pending_ids_def t_def)
  have "executor_step (demo_machine (tq_new (Some 3)) Idle) (Delegated ''a'') (demo_machine q1 Idle)"
    using executor_step.delegated [of "demo_machine (tq_new (Some 3)) Idle" "''a''" "''cc''" demo_request 0]
    by (simp add: demo_machine_queue q1_def)
  moreover have "executor_step (demo_machine q1 Idle) (Delegated ''b'') (demo_machine q2 Idle)"
    using executor_step.delegated [of "demo_machine q1 Idle" "''b''" "''cc''" demo_request 0]
    by (simp add: demo_machine_queue q2_def)
  moreover have "executor_step (demo_machine q2 Idle) SlotTaken (demo_machine q3 HoldsSlot)"
    using executor_step.take_slot [of "demo_machine q2 Idle" q3] q3(1) by (simp add: demo_machine_queue)
  moreover have "executor_step (demo_machine q3 HoldsSlot) (TaskPopped ''a'') (demo_machine q4 (InHand (t ''a'')))"
    using executor_step.popped [of "demo_machine q3 HoldsSlot" q4 "t ''a''"] q4(1) by (simp add: demo_machine_queue t_def)
  moreover have "executor_step (demo_machine q4 (InHand (t ''a''))) (TaskActivated ''a'') (demo_machine q5 (Dequeued ''a''))"
    using executor_step.activated [of "demo_machine q4 (InHand (t ''a''))" "t ''a''" 0]
    by (simp add: demo_machine_queue t_def q5_def)
  moreover have "executor_step (demo_machine q5 (Dequeued ''a'')) (TaskLookedUp ''a'' True) (demo_machine q5 (Executing ''a'' ''cc'' demo_request))"
    using executor_step.found [of "demo_machine q5 (Dequeued ''a'')" "''a''" "''cc''" demo_request] q5(3)
    by (simp add: demo_machine_queue get_active_task_details_def)
  ultimately have run: "exec executor_step (demo_machine (tq_new (Some 3)) Idle)
       [Delegated ''a'', Delegated ''b'', SlotTaken, TaskPopped ''a'', TaskActivated ''a'', TaskLookedUp ''a'' True]
       (demo_machine q5 (Executing ''a'' ''cc'' demo_request))"
    by - ((rule exec_cons, assumption)+, rule exec_nil)
  have "em_start (demo_machine (tq_new (Some 3)) Idle)"
    by (simp add: em_start_def demo_machine_queue tq_new_def Let_def)
  then show ?thesis
    using one_task_at_a_time [OF _ run] run q5 by (auto simp: demo_machine_queue intro!: exI [of _ "demo_machine q5 (Executing ''a'' ''cc'' demo_request)"])
qed

text \<open>
  Cancelling a task that runs does not stop it: when the run ends, the task is recorded as completed
  with its result, as if it had not been cancelled.
\<close>

theorem cancelled_task_completes:
  "map he_state (ph_get_recent i 1 (es_panel_history
     (finalize_task now t i r (Ok res) (with_queue (fst (cancel_task t (es_queue s))) s)))) = [Completed now now res]"
proof -
  define e where "e = \<lparr>he_task_id = t, he_agent_id = i, he_description = tr_description r, he_trigger = tr_trigger r,
    he_state = outcome_state now (Ok res :: (task_error, task_result) result),
    he_workspace = task_workspace r (get_agent i (record_successful_task now i (es_registry s))), he_created_at = now\<rparr>"
  have h: "es_panel_history (finalize_task now t i r (Ok res) (with_queue (fst (cancel_task t (es_queue s))) s))
      = ph_record e (es_panel_history s)"
    by (simp add: finalize_task_def Let_def e_def with_queue_def)
  obtain es where "dict_get (ph_record e (es_panel_history s)) i = Some (keep_last max_entries_per_agent (es @ [e]))"
    by (simp add: ph_record_keep e_def)
  moreover have "take (min 1 (length (keep_last max_entries_per_agent (es @ [e])))) (rev (keep_last max_entries_per_agent (es @ [e]))) = [e]"
    by (simp add: rev_keep_last) (simp add: keep_last_def max_entries_per_agent_def)
  ultimately show ?thesis
    by (simp add: h ph_get_recent_def) (simp add: e_def outcome_state_def)
qed

end
