(* ===== verification/RateLimiter.thy ===== *)
theory RateLimiter
  imports Prelude
begin

text \<open>
  \<open>src/rate_limiter.rs\<close>: the sliding-window limiter of tool invocations of one request, with
  the configuration record of \<open>src/config.rs\<close>. \<open>record_invocation\<close> prunes the deque, appends
  the new time stamp and decides. The abstract view keeps every invocation of the request and
  counts those inside the window; the decisions of the two agree.
\<close>

section \<open>State\<close>

record rate_limit_config =
  rl_max_calls :: "32 word"
  rl_window_secs :: "64 word"
  rl_cooldown_secs :: "64 word"
  rl_max_triggers :: "32 word"

definition default_rate_limit_config :: rate_limit_config where
  "default_rate_limit_config =
     \<lparr>rl_max_calls = 100, rl_window_secs = 30, rl_cooldown_secs = 5, rl_max_triggers = 10\<rparr>"

datatype rate_limit_decision =
    Allow
  | Pause (pause_duration: duration)
  | Terminate (terminate_reason: string)

record rate_limiter =
  rl_window :: "instant list"
  rl_trigger_count :: "32 word"
  rl_config :: rate_limit_config

definition rl_new :: "rate_limit_config \<Rightarrow> rate_limiter" where
  "rl_new cfg = \<lparr>rl_window = [], rl_trigger_count = 0, rl_config = cfg\<rparr>"

definition rl_with_defaults :: rate_limiter where
  "rl_with_defaults = rl_new default_rate_limit_config"

section \<open>Operations\<close>

definition window_duration :: "rate_limit_config \<Rightarrow> duration" where
  "window_duration cfg = from_secs (rl_window_secs cfg)"

text \<open>The loop that pops the front while it lies outside the window.\<close>

definition prune :: "duration \<Rightarrow> instant \<Rightarrow> instant list \<Rightarrow> instant list" where
  "prune w now ts = dropWhile (\<lambda>t. duration_since now t > w) ts"

definition terminate_text :: "nat \<Rightarrow> string \<Rightarrow> nat \<Rightarrow> nat \<Rightarrow> string" where
  "terminate_text triggers tool cnt secs =
     ''Rate limit triggered '' @ show_nat triggers @ '' times in this request (tool: '' @ [CHR 0x27]
     @ tool @ [CHR 0x27] @ '', '' @ show_nat cnt @ '' calls in '' @ show_nat secs
     @ ''s window). Terminating to prevent runaway loop.''"

definition record_invocation ::
  "string \<Rightarrow> instant \<Rightarrow> rate_limiter \<Rightarrow> rate_limiter \<times> rate_limit_decision" where
  "record_invocation tool now rl =
    (let cfg = rl_config rl;
         win = prune (window_duration cfg) now (rl_window rl) @ [now];
         cnt = word_of_nat (length win) :: 32 word
     in if cnt > rl_max_calls cfg
        then let trig = rl_trigger_count rl + 1;
                 rl' = rl\<lparr>rl_window := win, rl_trigger_count := trig\<rparr>
             in if trig \<ge> rl_max_triggers cfg
                then (rl', Terminate (terminate_text (unat trig) tool (unat cnt) (unat (rl_window_secs cfg))))
                else (rl', Pause (from_secs (rl_cooldown_secs cfg)))
        else (rl\<lparr>rl_window := win\<rparr>, Allow))"

definition window_count :: "instant \<Rightarrow> rate_limiter \<Rightarrow> 32 word" where
  "window_count now rl =
     word_of_nat (length (filter (\<lambda>t. duration_since now t \<le> window_duration (rl_config rl)) (rl_window rl)))"

definition rl_reset :: "rate_limiter \<Rightarrow> rate_limiter" where
  "rl_reset rl = rl\<lparr>rl_window := [], rl_trigger_count := 0\<rparr>"

section \<open>The abstract limiter\<close>

text \<open>
  All invocation times of the request, oldest first, and the triggers so far as plain numbers.
\<close>

definition recent :: "duration \<Rightarrow> instant \<Rightarrow> instant list \<Rightarrow> instant list" where
  "recent w now ts = filter (\<lambda>t. now \<le> t + w) ts"

definition spec_record ::
  "rate_limit_config \<Rightarrow> string \<Rightarrow> instant \<Rightarrow> instant list \<times> nat \<Rightarrow> (instant list \<times> nat) \<times> rate_limit_decision" where
  "spec_record cfg tool now st =
    (let hist = fst st @ [now];
         cnt = length (recent (window_duration cfg) now hist)
     in if cnt \<le> unat (rl_max_calls cfg) then ((hist, snd st), Allow)
        else ((hist, Suc (snd st)),
              if Suc (snd st) < unat (rl_max_triggers cfg) then Pause (from_secs (rl_cooldown_secs cfg))
              else Terminate (terminate_text (Suc (snd st)) tool cnt (unat (rl_window_secs cfg)))))"

fun run_limiter :: "(string \<times> instant) list \<Rightarrow> rate_limiter \<Rightarrow> rate_limiter \<times> rate_limit_decision list" where
  "run_limiter [] rl = (rl, [])"
| "run_limiter ((tool, now) # es) rl =
     (let (rl1, d) = record_invocation tool now rl; (rl2, ds) = run_limiter es rl1 in (rl2, d # ds))"

fun run_spec ::
  "rate_limit_config \<Rightarrow> (string \<times> instant) list \<Rightarrow> instant list \<times> nat \<Rightarrow> (instant list \<times> nat) \<times> rate_limit_decision list" where
  "run_spec cfg [] st = (st, [])"
| "run_spec cfg ((tool, now) # es) st =
     (let (st1, d) = spec_record cfg tool now st; (st2, ds) = run_spec cfg es st1 in (st2, d # ds))"

section \<open>The pruning loop is a filter on sorted deques\<close>

lemma prune_eq_recent:
  assumes "sorted ts"
  shows "prune w now ts = recent w now ts"
  using assms
proof (induction ts)
  case Nil
  then show ?case by (simp add: prune_def recent_def)
next
  case (Cons t ts)
  show ?case
  proof (cases "now \<le> t + w")
    case True
    then have "filter (\<lambda>t. now \<le> t + w) (t # ts) = t # ts"
      using Cons.prems by (intro filter_True) auto
    then show ?thesis
      using True by (simp add: prune_def recent_def duration_since_def)
  next
    case False
    then show ?thesis
      using Cons by (simp add: prune_def recent_def duration_since_def)
  qed
qed

lemma recent_recent:
  "now \<le> now' \<Longrightarrow> recent w now' (recent w now ts) = recent w now' ts"
  by (auto simp: recent_def intro: filter_cong)

lemma recent_append [simp]: "recent w now (xs @ ys) = recent w now xs @ recent w now ys"
  by (simp add: recent_def)

lemma recent_now [simp]: "recent w now [now] = [now]"
  by (simp add: recent_def)

lemma length_recent_le: "length (recent w now ts) \<le> length ts"
  by (simp add: recent_def)

lemma set_recent: "set (recent w now ts) \<subseteq> set ts"
  by (auto simp: recent_def)

lemma sorted_recent: "sorted ts \<Longrightarrow> sorted (recent w now ts)"
  unfolding recent_def by (induction ts) auto

section \<open>Refinement\<close>

text \<open>
  The concrete deque is what the window of the last invocation leaves of the history, in order.
\<close>

definition rl_rel :: "rate_limiter \<Rightarrow> rate_limit_config \<Rightarrow> instant list \<times> nat \<Rightarrow> bool" where
  "rl_rel rl cfg st \<longleftrightarrow>
     rl_config rl = cfg \<and> rl_trigger_count rl = word_of_nat (snd st) \<and> sorted (fst st) \<and>
     snd st \<le> length (fst st) \<and>
     (if fst st = [] then rl_window rl = []
      else rl_window rl = recent (window_duration cfg) (last (fst st)) (fst st))"

lemma rl_rel_new: "rl_rel (rl_new cfg) cfg ([], 0)"
  by (simp add: rl_rel_def rl_new_def)

lemma rl_rel_reset: "rl_rel rl cfg st \<Longrightarrow> rl_rel (rl_reset rl) cfg ([], 0)"
  by (simp add: rl_rel_def rl_reset_def)

lemma rl_rel_window:
  assumes rel: "rl_rel rl cfg st" and mono: "\<forall>t\<in>set (fst st). t \<le> now"
  shows "prune (window_duration cfg) now (rl_window rl) = recent (window_duration cfg) now (fst st)"
proof (cases "fst st = []")
  case True
  then show ?thesis using rel by (simp add: rl_rel_def prune_def recent_def)
next
  case False
  then have "last (fst st) \<le> now" using mono by simp
  then show ?thesis
    using rel False by (simp add: rl_rel_def prune_eq_recent sorted_recent recent_recent)
qed

lemma record_refines:
  assumes rel: "rl_rel rl cfg st" and mono: "\<forall>t\<in>set (fst st). t \<le> now"
    and small: "Suc (length (fst st)) < 4294967296"
  shows "rl_rel (fst (record_invocation tool now rl)) cfg (fst (spec_record cfg tool now st))"
    and "snd (record_invocation tool now rl) = snd (spec_record cfg tool now st)"
proof -
  let ?r = "recent (window_duration cfg) now (fst st)"
  have cfg: "rl_config rl = cfg" and trig: "rl_trigger_count rl = word_of_nat (snd st)"
    and srt: "sorted (fst st)" and le: "snd st \<le> length (fst st)"
    using rel by (auto simp: rl_rel_def)
  have trig1: "rl_trigger_count rl + 1 = word_of_nat (Suc (snd st))"
    by (simp add: trig)
  have b1: "Suc (length ?r) < 4294967296"
    using small length_recent_le [of "window_duration cfg" now "fst st"] by linarith
  have b2: "Suc (snd st) < 4294967296" using small le by linarith
  have srt': "sorted (fst st @ [now])" using srt mono by (simp add: sorted_append)
  note win = rl_rel_window [OF rel mono]
  show "rl_rel (fst (record_invocation tool now rl)) cfg (fst (spec_record cfg tool now st))"
    using srt' le cfg
    by (auto simp del: of_nat_Suc simp: record_invocation_def spec_record_def Let_def win trig1 rl_rel_def trig
        word_less_small [OF b1] word_le_small [OF b2]) simp_all
  show "snd (record_invocation tool now rl) = snd (spec_record cfg tool now st)"
    by (auto simp del: of_nat_Suc simp: record_invocation_def spec_record_def Let_def cfg win trig1
        word_less_small [OF b1] word_le_small [OF b2] unat_small [OF b1] unat_small [OF b2])
qed

lemma spec_record_hist: "fst (fst (spec_record cfg tool now st)) = fst st @ [now]"
  by (simp add: spec_record_def Let_def)

lemma run_refines:
  assumes "rl_rel rl cfg st" "sorted (fst st @ map snd es)"
    "length (fst st) + length es < 4294967296"
  shows "rl_rel (fst (run_limiter es rl)) cfg (fst (run_spec cfg es st)) \<and>
         snd (run_limiter es rl) = snd (run_spec cfg es st)"
  using assms
proof (induction es arbitrary: rl st)
  case Nil
  then show ?case by simp
next
  case (Cons e es)
  obtain tool now where e: "e = (tool, now)" by (cases e)
  have mono: "\<forall>t\<in>set (fst st). t \<le> now" and small: "Suc (length (fst st)) < 4294967296"
    using Cons.prems by (auto simp: e sorted_append)
  note r = record_refines [OF Cons.prems(1) mono small, of tool]
  have "sorted (fst (fst (spec_record cfg tool now st)) @ map snd es)"
    using Cons.prems(2) by (simp add: spec_record_hist e)
  moreover have "length (fst (fst (spec_record cfg tool now st))) + length es < 4294967296"
    using Cons.prems(3) by (simp add: spec_record_hist)
  ultimately show ?case
    using Cons.IH [OF r(1)] r(2) by (auto simp: e split: prod.splits)
qed

section \<open>Properties\<close>

text \<open>
  For every request of fewer than $2^{32}$ invocations with a monotone clock, the limiter's decisions are exactly
  those of the abstract limiter, which keeps every invocation ever made. A call beyond the limit is a trigger;
  triggers are counted over the whole request, calls that are allowed in between do not set the count back, and
  the trigger with number \<open>max_triggers\<close> already terminates.
\<close>

theorem limiter_decisions:
  assumes "sorted (map snd es)" and "length es < 4294967296"
  shows "snd (run_limiter es (rl_new cfg)) = snd (run_spec cfg es ([], 0))"
  using run_refines [OF rl_rel_new, of es cfg] assms by simp

theorem limiter_decisions_witness:
  "let cfg = \<lparr>rl_max_calls = 1, rl_window_secs = 5, rl_cooldown_secs = 3, rl_max_triggers = 2\<rparr>;
       es = [(''sh'', 0), (''sh'', 1000000000), (''fs'', 2000000000), (''fs'', 9000000000)]
   in sorted (map snd es) \<and>
      snd (run_limiter es (rl_new cfg)) = snd (run_spec cfg es ([], 0)) \<and>
      map (\<lambda>d. d = Allow) (snd (run_limiter es (rl_new cfg))) = [True, False, False, True]"
proof -
  let ?cfg = "\<lparr>rl_max_calls = 1, rl_window_secs = 5, rl_cooldown_secs = 3, rl_max_triggers = 2\<rparr> :: rate_limit_config"
  let ?es = "[(''sh'', 0), (''sh'', 1000000000), (''fs'', 2000000000), (''fs'', 9000000000)] :: (string \<times> instant) list"
  have 1: "sorted (map snd ?es)" by simp
  have 2: "snd (run_limiter ?es (rl_new ?cfg)) = snd (run_spec ?cfg ?es ([], 0))"
    by (rule limiter_decisions) simp_all
  have 3: "map (\<lambda>d. d = Allow) (snd (run_spec ?cfg ?es ([], 0))) = [True, False, False, True]"
    by (simp add: spec_record_def Let_def recent_def window_duration_def from_secs_def)
  show ?thesis using 1 2 3 by (simp only: Let_def)
qed

lemma run_spec_allows:
  "map (\<lambda>d. d = Allow) (snd (run_spec cfg es st)) =
     map (\<lambda>i. length (recent (window_duration cfg) (snd (es ! i)) (fst st @ map snd (take (Suc i) es))) \<le> unat (rl_max_calls cfg))
       [0..<length es]
   \<and> (\<forall>d\<in>set (snd (run_spec cfg es st)). d = Allow \<or> d = Pause (from_secs (rl_cooldown_secs cfg)) \<or> (\<exists>r. d = Terminate r))"
proof (induction es arbitrary: st)
  case Nil
  then show ?case by simp
next
  case (Cons e es)
  obtain tool now where e: "e = (tool, now)" by (cases e)
  let ?st = "fst (spec_record cfg tool now st)" and ?d = "snd (spec_record cfg tool now st)"
  have d: "?d = Allow \<longleftrightarrow> length (recent (window_duration cfg) now (fst st @ [now])) \<le> unat (rl_max_calls cfg)"
    "?d = Allow \<or> ?d = Pause (from_secs (rl_cooldown_secs cfg)) \<or> (\<exists>r. ?d = Terminate r)"
    by (simp_all add: spec_record_def Let_def)
  have u: "[0..<length (e # es)] = 0 # map Suc [0..<length es]" by (simp add: upt_conv_Cons map_Suc_upt del: upt_Suc)
  show ?case
    using Cons.IH [of ?st] d unfolding u
    by (auto simp: e spec_record_hist comp_def split: prod.splits)
qed

text \<open>
  C1. In every request of fewer than $2^{32}$ invocations with a monotone clock, a call is allowed exactly when at
  most \<open>max_calls\<close> calls, this one included, were made in the window that ends with it, whatever was decided
  before; every other call is answered with the configured pause or with a termination.
\<close>

theorem calls_allowed_within_window:
  assumes "sorted (map snd es)" and "length es < 4294967296"
  shows "map (\<lambda>d. d = Allow) (snd (run_limiter es (rl_new cfg))) =
      map (\<lambda>i. length (recent (window_duration cfg) (snd (es ! i)) (map snd (take (Suc i) es))) \<le> unat (rl_max_calls cfg))
        [0..<length es]
    \<and> (\<forall>d\<in>set (snd (run_limiter es (rl_new cfg))).
         d = Allow \<or> d = Pause (from_secs (rl_cooldown_secs cfg)) \<or> (\<exists>r. d = Terminate r))"
  using run_spec_allows [of cfg es "([], 0)"] run_refines [OF rl_rel_new, of es cfg] assms by simp

theorem calls_allowed_within_window_witness:
  "map (\<lambda>d. d = Allow) (snd (run_limiter [(''sh'', 0), (''sh'', 1000000000), (''fs'', 9000000000)]
     (rl_new \<lparr>rl_max_calls = 1, rl_window_secs = 5, rl_cooldown_secs = 3, rl_max_triggers = 2\<rparr>))) = [True, False, True]"
  by (subst calls_allowed_within_window [THEN conjunct1])
    (simp_all add: upt_rec recent_def window_duration_def from_secs_def)

end
