(* ===== verification/Reconnect.thy ===== *)
theory Reconnect
  imports Prelude
begin

text \<open>
  \<open>src/reconnect.rs\<close>: exponential back-off of a channel's reconnection attempts. A \<open>Duration\<close>
  is a number of nanoseconds up to \<open>Duration::MAX\<close>, where \<open>saturating_mul\<close> stops.
\<close>

section \<open>State and operations\<close>

datatype channel_status = Connected | Reconnecting | Failed | Disconnected

record reconnect_policy =
  initial_delay :: duration
  max_delay :: duration
  max_attempts :: "32 word"

definition default_policy :: reconnect_policy where
  "default_policy = \<lparr>initial_delay = from_secs 1, max_delay = from_secs 300, max_attempts = 10\<rparr>"

record reconnect_state =
  attempts :: "32 word"
  last_attempt :: "instant option"
  current_delay :: duration
  policy :: reconnect_policy

definition duration_max :: duration where
  "duration_max = 18446744073709551615 * 1000000000 + 999999999"

definition saturating_mul :: "duration \<Rightarrow> nat \<Rightarrow> duration" where
  "saturating_mul d k = min (d * k) duration_max"

definition rc_new :: "reconnect_policy \<Rightarrow> reconnect_state" where
  "rc_new p = \<lparr>attempts = 0, last_attempt = None, current_delay = initial_delay p, policy = p\<rparr>"

definition next_delay :: "instant \<Rightarrow> reconnect_state \<Rightarrow> reconnect_state \<times> duration" where
  "next_delay now s =
     (s\<lparr>attempts := attempts s + 1, last_attempt := Some now,
        current_delay := min (saturating_mul (current_delay s) 2) (max_delay (policy s))\<rparr>,
      current_delay s)"

definition should_mark_failed :: "reconnect_state \<Rightarrow> bool" where
  "should_mark_failed s \<longleftrightarrow> attempts s \<ge> max_attempts (policy s)"

definition rc_reset :: "reconnect_state \<Rightarrow> reconnect_state" where
  "rc_reset s = s\<lparr>attempts := 0, last_attempt := None, current_delay := initial_delay (policy s)\<rparr>"

definition rc_channel_status :: "reconnect_state \<Rightarrow> channel_status" where
  "rc_channel_status s =
     (if should_mark_failed s then Failed else if attempts s > 0 then Reconnecting else Connected)"

section \<open>Sequences of failures\<close>

text \<open>The delays handed out by failures at the times \<open>ts\<close>.\<close>

fun failures :: "instant list \<Rightarrow> reconnect_state \<Rightarrow> reconnect_state \<times> duration list" where
  "failures [] s = (s, [])"
| "failures (t # ts) s =
     (let (s1, d) = next_delay t s; (s2, ds) = failures ts s1 in (s2, d # ds))"

definition backoff :: "reconnect_policy \<Rightarrow> nat \<Rightarrow> duration" where
  "backoff p k = (if k = 0 then initial_delay p else min (initial_delay p * 2 ^ k) (max_delay p))"

lemma backoff_Suc:
  "max_delay p \<le> duration_max \<Longrightarrow>
   min (saturating_mul (backoff p k) 2) (max_delay p) = backoff p (Suc k)"
  by (auto simp: backoff_def saturating_mul_def min_def mult.assoc) 

definition rc_after :: "reconnect_policy \<Rightarrow> nat \<Rightarrow> reconnect_state \<Rightarrow> bool" where
  "rc_after p k s \<longleftrightarrow> policy s = p \<and> attempts s = word_of_nat k \<and> current_delay s = backoff p k"

lemma rc_after_new: "rc_after p 0 (rc_new p)"
  by (simp add: rc_after_def rc_new_def backoff_def)

lemma rc_after_reset: "rc_after p k s \<Longrightarrow> rc_after p 0 (rc_reset s)"
  by (simp add: rc_after_def rc_reset_def backoff_def)

lemma rc_after_next:
  "\<lbrakk>rc_after p k s; max_delay p \<le> duration_max\<rbrakk>
   \<Longrightarrow> rc_after p (Suc k) (fst (next_delay t s)) \<and> snd (next_delay t s) = backoff p k"
  by (simp add: rc_after_def next_delay_def backoff_Suc)

lemma failures_backoff:
  assumes "rc_after p k s" "max_delay p \<le> duration_max"
  shows "rc_after p (k + length ts) (fst (failures ts s)) \<and>
         snd (failures ts s) = map (backoff p) [k ..< k + length ts]"
  using assms(1)
proof (induction ts arbitrary: k s)
  case Nil
  then show ?case by simp
next
  case (Cons t ts)
  note n = rc_after_next [OF Cons.prems assms(2), of t]
  then have "rc_after p (Suc k) (fst (next_delay t s))" by simp
  moreover have "[k ..< k + length (t # ts)] = k # [Suc k ..< Suc k + length ts]"
    by (simp add: upt_conv_Cons del: upt_Suc)
  ultimately show ?case
    using Cons.IH [of "Suc k" "fst (next_delay t s)"] n
    by (auto simp del: upt_Suc split: prod.splits)
qed

lemma rc_after_status:
  assumes "rc_after p k s" "k < 4294967296"
  shows "rc_channel_status s =
    (if unat (max_attempts p) \<le> k then Failed else if 0 < k then Reconnecting else Connected)"
proof -
  have a: "unat (attempts s) = k"
    using assms by (simp add: rc_after_def unat_of_nat)
  show ?thesis
    using assms a
    by (auto simp: rc_channel_status_def should_mark_failed_def rc_after_def word_le_nat_alt
        word_less_nat_alt)
qed

section \<open>Properties\<close>

text \<open>
  C3. For a policy whose first delay is not above its maximum, whatever state a channel has reached, a reset and
  then \<open>n\<close> consecutive failures hand out the delays $d, 2d, 4d, \ldots$, each capped at the maximum, and the
  reported status is Failed exactly from \<open>max_attempts\<close> failures on and Reconnecting before that.
\<close>

theorem reconnect_schedule:
  assumes "initial_delay (policy s) \<le> max_delay (policy s)"
    and "max_delay (policy s) \<le> duration_max" and "length ts < 4294967296"
  shows "let r = failures ts (rc_reset s); p = policy s; n = length ts in
     snd r = map (\<lambda>k. min (initial_delay p * 2 ^ k) (max_delay p)) [0..<n] \<and>
     rc_channel_status (fst r) =
       (if unat (max_attempts p) \<le> n then Failed else if 0 < n then Reconnecting else Connected)"
proof -
  have r: "rc_after (policy s) 0 (rc_reset s)"
    by (simp add: rc_after_def rc_reset_def backoff_def)
  have "backoff (policy s) = (\<lambda>k. min (initial_delay (policy s) * 2 ^ k) (max_delay (policy s)))"
    using assms(1) by (auto simp: backoff_def)
  then show ?thesis
    using failures_backoff [OF r assms(2), of ts] rc_after_status [OF _ assms(3)] by (simp add: Let_def)
qed

theorem reconnect_schedule_witness:
  "let s = rc_new \<lparr>initial_delay = 1, max_delay = 5, max_attempts = 3\<rparr>; r = failures [10, 20, 30, 40] (rc_reset s)
   in snd r = [1, 2, 4, 5] \<and> rc_channel_status (fst r) = Failed"
proof -
  let ?s = "rc_new \<lparr>initial_delay = 1, max_delay = 5, max_attempts = 3\<rparr>"
  have "initial_delay (policy ?s) \<le> max_delay (policy ?s)" "max_delay (policy ?s) \<le> duration_max"
    "length [10, 20, 30, 40 :: nat] < 4294967296"
    by (simp_all add: rc_new_def duration_max_def)
  from reconnect_schedule [OF this] show ?thesis
    by (simp add: Let_def rc_new_def upt_rec)
qed

text \<open>The first delay after a reset is handed out as it is, above the maximum as well.\<close>

theorem first_delay_not_capped:
  "snd (next_delay t (rc_reset s)) = initial_delay (policy s)"
  by (simp add: next_delay_def rc_reset_def)

end
