(* ===== verification/Shutdown.thy ===== *)
theory Shutdown
  imports Prelude
begin

text \<open>
  \<open>src/shutdown.rs\<close>: the in-flight counter, the message guards and the drain of a graceful
  shutdown or restart. Messages and drain calls run concurrently and share the coordinator's
  atomics, so the model interleaves them: every atomic load, store or read-modify-write of the
  source is one step. The counter is the \<open>AtomicU32\<close> of the source and wraps.
\<close>

section \<open>State\<close>

record coordinator =
  in_flight :: "32 word"
  accepting :: bool
  token_cancelled :: bool
  drain_timeout :: duration
  restart_initiated :: bool

definition sc_with_drain_timeout :: "duration \<Rightarrow> coordinator" where
  "sc_with_drain_timeout d =
     \<lparr>in_flight = 0, accepting = True, token_cancelled = False, drain_timeout = d, restart_initiated = False\<rparr>"

definition sc_new :: coordinator where
  "sc_new = sc_with_drain_timeout (from_secs 30)"

text \<open>Where a message is in \<open>acquire\<close>, with its guard, or after dropping it.\<close>

datatype acquire_pc =
    AcqEntry     \<comment> \<open>before the first load of \<open>accepting\<close>\<close>
  | AcqChecked   \<comment> \<open>the first load gave true\<close>
  | AcqCounted   \<comment> \<open>after \<open>fetch_add\<close>\<close>
  | AcqUndo      \<comment> \<open>the second load gave false\<close>
  | AcqNone      \<comment> \<open>returned \<open>None\<close>\<close>
  | AcqGuard     \<comment> \<open>returned a guard that is alive\<close>
  | AcqDropped   \<comment> \<open>the guard was dropped\<close>

inductive acquire_step :: "acquire_pc \<times> coordinator \<Rightarrow> acquire_pc \<times> coordinator \<Rightarrow> bool" where
  refuse: "\<not> accepting c \<Longrightarrow> acquire_step (AcqEntry, c) (AcqNone, c)"
| check: "accepting c \<Longrightarrow> acquire_step (AcqEntry, c) (AcqChecked, c)"
| increment: "acquire_step (AcqChecked, c) (AcqCounted, c\<lparr>in_flight := in_flight c + 1\<rparr>)"
| admit: "accepting c \<Longrightarrow> acquire_step (AcqCounted, c) (AcqGuard, c)"
| recheck: "\<not> accepting c \<Longrightarrow> acquire_step (AcqCounted, c) (AcqUndo, c)"
| undo: "acquire_step (AcqUndo, c) (AcqNone, c\<lparr>in_flight := in_flight c - 1\<rparr>)"

inductive guard_drop :: "acquire_pc \<times> coordinator \<Rightarrow> acquire_pc \<times> coordinator \<Rightarrow> bool" where
  drop_guard: "guard_drop (AcqGuard, c) (AcqDropped, c\<lparr>in_flight := in_flight c - 1\<rparr>)"

inductive_cases acquire_stepE: "acquire_step (p, c) (p', c')"
inductive_cases guard_dropE: "guard_drop (p, c) (p', c')"

datatype restart_phase = DrainStart "32 word" | DrainComplete | ShutdownPhase

datatype log_event =
    Phase restart_phase
  | ForceTerminated (request_id: string) (elapsed: duration)

datatype drain_kind = ShutdownCall | RestartCall

text \<open>
  Where a call of \<open>initiate_shutdown\<close> or \<open>initiate_restart\<close> is; the flag says whether the drain
  loop saw a zero counter (true) or the timeout fired.
\<close>

datatype drain_pc =
    DrEntry drain_kind
  | DrMarked
  | DrAnnounced
  | DrPolling drain_kind
  | DrDecided drain_kind bool
  | DrCompleting bool
  | DrCompleted bool
  | DrDone drain_kind bool

definition force_terminated :: "coordinator \<Rightarrow> log_event list" where
  "force_terminated c =
     map (\<lambda>i. ForceTerminated (''in-flight-'' @ show_nat i) (drain_timeout c)) [0 ..< unat (in_flight c)]"

inductive shutdown_step ::
  "drain_pc \<times> log_event list \<times> coordinator \<Rightarrow> drain_pc \<times> log_event list \<times> coordinator \<Rightarrow> bool" where
  sd_store: "shutdown_step (DrEntry ShutdownCall, l, c) (DrPolling ShutdownCall, l, c\<lparr>accepting := False\<rparr>)"
| sd_cancel: "shutdown_step (DrDecided ShutdownCall d, l, c) (DrDone ShutdownCall d, l, c\<lparr>token_cancelled := True\<rparr>)"

inductive restart_step ::
  "drain_pc \<times> log_event list \<times> coordinator \<Rightarrow> drain_pc \<times> log_event list \<times> coordinator \<Rightarrow> bool" where
  rs_mark: "restart_step (DrEntry RestartCall, l, c) (DrMarked, l, c\<lparr>restart_initiated := True\<rparr>)"
| rs_announce: "restart_step (DrMarked, l, c) (DrAnnounced, l @ [Phase (DrainStart (in_flight c))], c)"
| rs_store: "restart_step (DrAnnounced, l, c) (DrPolling RestartCall, l, c\<lparr>accepting := False\<rparr>)"
| rs_drained: "restart_step (DrDecided RestartCall True, l, c) (DrCompleting True, l, c)"
| rs_forced: "restart_step (DrDecided RestartCall False, l, c) (DrCompleting False, l @ force_terminated c, c)"
| rs_complete: "restart_step (DrCompleting d, l, c) (DrCompleted d, l @ [Phase DrainComplete], c)"
| rs_cancel: "restart_step (DrCompleted d, l, c)
     (DrDone RestartCall d, l @ [Phase ShutdownPhase], c\<lparr>token_cancelled := True\<rparr>)"

text \<open>The drain loop under its timeout, which both calls contain.\<close>

inductive drain_loop ::
  "drain_pc \<times> log_event list \<times> coordinator \<Rightarrow> drain_pc \<times> log_event list \<times> coordinator \<Rightarrow> bool" where
  poll_busy: "in_flight c > 0 \<Longrightarrow> drain_loop (DrPolling k, l, c) (DrPolling k, l, c)"
| poll_zero: "\<not> in_flight c > 0 \<Longrightarrow> drain_loop (DrPolling k, l, c) (DrDecided k True, l, c)"
| poll_timeout: "drain_loop (DrPolling k, l, c) (DrDecided k False, l, c)"

inductive_cases shutdown_stepE: "shutdown_step (p, l, c) (p', l', c')"
inductive_cases restart_stepE: "restart_step (p, l, c) (p', l', c')"
inductive_cases drain_loopE: "drain_loop (p, l, c) (p', l', c')"

definition drainer_step ::
  "drain_pc \<times> log_event list \<times> coordinator \<Rightarrow> drain_pc \<times> log_event list \<times> coordinator \<Rightarrow> bool" where
  "drainer_step x y \<longleftrightarrow> shutdown_step x y \<or> restart_step x y \<or> drain_loop x y"

definition message_step :: "acquire_pc \<times> coordinator \<Rightarrow> acquire_pc \<times> coordinator \<Rightarrow> bool" where
  "message_step x y \<longleftrightarrow> acquire_step x y \<or> guard_drop x y"

section \<open>The interleaved system\<close>

record gateway =
  coord :: coordinator
  messages :: "acquire_pc list"
  drainers :: "(drain_pc \<times> log_event list) list"

datatype gw_label = Msg nat | Drain nat

inductive gw_step :: "gateway \<Rightarrow> gw_label \<Rightarrow> gateway \<Rightarrow> bool" where
  gw_msg: "\<lbrakk>i < length (messages g); message_step (messages g ! i, coord g) (p, c)\<rbrakk>
     \<Longrightarrow> gw_step g (Msg i) (g\<lparr>coord := c, messages := (messages g)[i := p]\<rparr>)"
| gw_drain: "\<lbrakk>j < length (drainers g); drainers g ! j = (p0, l0); drainer_step (p0, l0, coord g) (p, l, c)\<rbrakk>
     \<Longrightarrow> gw_step g (Drain j) (g\<lparr>coord := c, drainers := (drainers g)[j := (p, l)]\<rparr>)"

inductive_cases gw_stepE: "gw_step g e g'"
inductive_simps gw_step_Msg: "gw_step g (Msg i) g'"
inductive_simps gw_step_Drain: "gw_step g (Drain j) g'"

text \<open>Any number of messages and drain calls, none of which has started.\<close>

definition gw_initial :: "gateway \<Rightarrow> bool" where
  "gw_initial g \<longleftrightarrow>
     (\<exists>d. coord g = sc_with_drain_timeout d) \<and> length (messages g) < 4294967296 \<and>
     (\<forall>m\<in>set (messages g). m = AcqEntry) \<and> (\<forall>x\<in>set (drainers g). \<exists>k. x = (DrEntry k, []))"

section \<open>What single steps do\<close>

text \<open>A message is counted from its increment to its decrement.\<close>

fun counted :: "acquire_pc \<Rightarrow> bool" where
  "counted AcqCounted = True"
| "counted AcqUndo = True"
| "counted AcqGuard = True"
| "counted _ = False"

text \<open>A call has stopped the intake once its store of \<open>accepting\<close> is done.\<close>

fun stopped :: "drain_pc \<Rightarrow> bool" where
  "stopped (DrEntry _) = False"
| "stopped DrMarked = False"
| "stopped DrAnnounced = False"
| "stopped _ = True"

fun drained :: "drain_pc \<Rightarrow> bool" where
  "drained (DrDecided _ d) = d"
| "drained (DrCompleting d) = d"
| "drained (DrCompleted d) = d"
| "drained (DrDone _ d) = d"
| "drained _ = False"

definition forced_part :: "bool \<Rightarrow> log_event list \<Rightarrow> bool" where
  "forced_part d fs \<longleftrightarrow> (if d then fs = [] else (\<exists>c. fs = force_terminated c))"

text \<open>The log lines that a call has written at each point.\<close>

fun log_ok :: "drain_pc \<Rightarrow> log_event list \<Rightarrow> bool" where
  "log_ok (DrEntry _) l = (l = [])"
| "log_ok DrMarked l = (l = [])"
| "log_ok DrAnnounced l = (\<exists>n. l = [Phase (DrainStart n)])"
| "log_ok (DrPolling k) l = (case k of ShutdownCall \<Rightarrow> l = [] | RestartCall \<Rightarrow> \<exists>n. l = [Phase (DrainStart n)])"
| "log_ok (DrDecided k d) l = (case k of ShutdownCall \<Rightarrow> l = [] | RestartCall \<Rightarrow> \<exists>n. l = [Phase (DrainStart n)])"
| "log_ok (DrCompleting d) l = (\<exists>n fs. l = Phase (DrainStart n) # fs \<and> forced_part d fs)"
| "log_ok (DrCompleted d) l = (\<exists>n fs. l = Phase (DrainStart n) # fs @ [Phase DrainComplete] \<and> forced_part d fs)"
| "log_ok (DrDone k d) l = (case k of ShutdownCall \<Rightarrow> l = []
     | RestartCall \<Rightarrow> \<exists>n fs. l = Phase (DrainStart n) # fs @ [Phase DrainComplete, Phase ShutdownPhase] \<and> forced_part d fs)"

lemma message_step_effect:
  assumes "message_step (p, c) (p', c')"
  shows "accepting c' = accepting c" "p' \<noteq> AcqEntry" "p' = AcqGuard \<Longrightarrow> accepting c"
    "token_cancelled c' = token_cancelled c"
    "p = AcqEntry \<Longrightarrow> \<not> accepting c \<Longrightarrow> p' = AcqNone" "p \<noteq> AcqNone"
    "in_flight c' + of_bool (counted p) = in_flight c + of_bool (counted p')"
  using assms unfolding message_step_def
  by (auto elim!: acquire_stepE guard_dropE)

lemma drainer_step_effect:
  assumes "drainer_step (p, l, c) (p', l', c')"
  shows "in_flight c' = in_flight c" "accepting c' \<Longrightarrow> accepting c"
    "stopped p \<Longrightarrow> stopped p'" "stopped p' \<Longrightarrow> stopped p \<or> \<not> accepting c'"
    "drained p \<Longrightarrow> drained p'" "drained p' \<Longrightarrow> drained p \<or> in_flight c = 0 \<and> stopped p"
    "token_cancelled c' \<Longrightarrow> token_cancelled c \<or> stopped p"
  using assms unfolding drainer_step_def
  by (auto elim!: shutdown_stepE restart_stepE drain_loopE simp: word_gt_0)

lemma drainer_step_log:
  assumes "drainer_step (p, l, c) (p', l', c')" "log_ok p l"
  shows "log_ok p' l'"
  using assms unfolding drainer_step_def
  by (auto elim!: shutdown_stepE restart_stepE drain_loopE simp: forced_part_def split: drain_kind.splits) blast

section \<open>The invariant\<close>

definition gw_inv :: "gateway \<Rightarrow> bool" where
  "gw_inv g \<longleftrightarrow>
     in_flight (coord g) = word_of_nat (count_if counted (messages g)) \<and>
     length (messages g) < 4294967296 \<and>
     (\<forall>(p, l)\<in>set (drainers g). log_ok p l) \<and>
     (\<forall>(p, l)\<in>set (drainers g). stopped p \<longrightarrow> \<not> accepting (coord g)) \<and>
     (\<forall>(p, l)\<in>set (drainers g). drained p \<longrightarrow> AcqGuard \<notin> set (messages g)) \<and>
     (token_cancelled (coord g) \<longrightarrow> \<not> accepting (coord g))"

lemma gw_inv_initial: "gw_initial g \<Longrightarrow> gw_inv g"
proof -
  assume i: "gw_initial g"
  then have m: "\<forall>m\<in>set (messages g). m = AcqEntry" and d: "\<forall>x\<in>set (drainers g). \<exists>k. x = (DrEntry k, [])"
    by (auto simp: gw_initial_def)
  have "count_if counted (messages g) = 0"
    using m by (auto simp: count_if_zero_iff)
  moreover have "AcqGuard \<notin> set (messages g)" using m by auto
  moreover have "log_ok p l \<and> \<not> stopped p" if "(p, l) \<in> set (drainers g)" for p l
    using d that by fastforce
  ultimately show "gw_inv g"
    using i by (auto simp: gw_inv_def gw_initial_def sc_with_drain_timeout_def)
qed

lemma counter_update:
  assumes "i < length ms" and "f = word_of_nat (count_if counted ms)"
    and "f' + of_bool (counted (ms ! i)) = f + of_bool (counted p)"
  shows "(f' :: 32 word) = word_of_nat (count_if counted (ms[i := p]))"
proof -
  have "f' + of_bool (counted (ms ! i)) = word_of_nat (count_if counted ms + of_bool (counted p))"
    using assms(2,3) by simp
  also have "count_if counted ms + of_bool (counted p) = count_if counted (ms[i := p]) + of_bool (counted (ms ! i))"
    using count_if_update [OF assms(1), of counted p] by (auto split: if_splits)
  finally show ?thesis by simp
qed

lemma gw_inv_msg:
  assumes inv: "gw_inv g" and i: "i < length (messages g)"
    and st: "message_step (messages g ! i, coord g) (p, c)"
  shows "gw_inv (g\<lparr>coord := c, messages := (messages g)[i := p]\<rparr>)"
proof -
  note e = message_step_effect [OF st]
  have fl: "in_flight c = word_of_nat (count_if counted ((messages g)[i := p]))"
    using inv by (intro counter_update [OF i _ e(7)]) (simp add: gw_inv_def)
  have gd: "AcqGuard \<notin> set ((messages g)[i := p])" if "(q, l) \<in> set (drainers g)" "drained q" for q l
  proof -
    have "stopped q" using that(2) by (cases q) auto
    then have "\<not> accepting (coord g)" using inv that(1) by (auto simp: gw_inv_def)
    then have "p \<noteq> AcqGuard" using e(3) by auto
    then show ?thesis
      using inv that set_update_subset_insert [of "messages g" i p] by (auto simp: gw_inv_def)
  qed
  show ?thesis
    using inv fl gd e(1,4) by (auto simp: gw_inv_def)
qed

lemma count_small:
  "\<lbrakk>length ms < 4294967296; (word_of_nat (count_if P ms) :: 32 word) = 0\<rbrakk> \<Longrightarrow> \<forall>m\<in>set ms. \<not> P m"
proof -
  assume len: "length ms < 4294967296" and z: "(word_of_nat (count_if P ms) :: 32 word) = 0"
  have "unat (word_of_nat (count_if P ms) :: 32 word) = count_if P ms"
    using len count_if_le_length [of P ms] by (intro unat_small) simp
  then show ?thesis using z by (simp add: count_if_zero_iff)
qed

lemma gw_inv_drain:
  assumes inv: "gw_inv g" and j: "j < length (drainers g)" "drainers g ! j = (p0, l0)"
    and st: "drainer_step (p0, l0, coord g) (p, l, c)"
  shows "gw_inv (g\<lparr>coord := c, drainers := (drainers g)[j := (p, l)]\<rparr>)"
proof -
  note e = drainer_step_effect [OF st]
  have mem: "(p0, l0) \<in> set (drainers g)" using j nth_mem by metis
  have sub: "set ((drainers g)[j := (p, l)]) \<subseteq> insert (p, l) (set (drainers g))"
    by (rule set_update_subset_insert)
  have p0: "log_ok p0 l0" "stopped p0 \<longrightarrow> \<not> accepting (coord g)" "drained p0 \<longrightarrow> AcqGuard \<notin> set (messages g)"
    using inv mem by (auto simp: gw_inv_def)
  have stp: "stopped p \<longrightarrow> \<not> accepting c" using e(2,4) p0(2) by blast
  have "AcqGuard \<notin> set (messages g)" if "in_flight (coord g) = 0"
    using inv that count_small [of "messages g" counted] by (fastforce simp: gw_inv_def)
  then have dr: "drained p \<longrightarrow> AcqGuard \<notin> set (messages g)" using e(6) p0(3) by blast
  have tk: "token_cancelled c \<longrightarrow> \<not> accepting c"
    using inv e(2,7) p0(2) by (auto simp: gw_inv_def)
  have a: "\<forall>x\<in>set ((drainers g)[j := (p, l)]). log_ok (fst x) (snd x)"
    using inv sub drainer_step_log [OF st p0(1)] by (fastforce simp: gw_inv_def)
  have b: "\<forall>x\<in>set ((drainers g)[j := (p, l)]). stopped (fst x) \<longrightarrow> \<not> accepting c"
    using inv sub stp e(2) by (fastforce simp: gw_inv_def)
  have d: "\<forall>x\<in>set ((drainers g)[j := (p, l)]). drained (fst x) \<longrightarrow> AcqGuard \<notin> set (messages g)"
    using inv sub dr by (fastforce simp: gw_inv_def)
  show ?thesis
    using inv e(1) tk a b d by (simp add: gw_inv_def case_prod_beta)
qed

interpretation gw: invariant_machine gw_initial gw_step gw_inv
  by unfold_locales (auto intro: gw_inv_initial gw_inv_msg gw_inv_drain elim!: gw_stepE)

lemma gw_reachable: "\<lbrakk>gw_initial g; exec gw_step g es g'\<rbrakk> \<Longrightarrow> gw_inv g'"
  by (rule gw.reachable_inv)

section \<open>What later steps cannot change\<close>

lemma gw_step_stopped:
  "\<lbrakk>gw_step g e g'; j < length (drainers g); stopped (fst (drainers g ! j))\<rbrakk>
   \<Longrightarrow> j < length (drainers g') \<and> stopped (fst (drainers g' ! j))"
  by (auto elim!: gw_stepE simp: nth_list_update) (erule (1) drainer_step_effect(3))

lemma gw_step_drained:
  "\<lbrakk>gw_step g e g'; j < length (drainers g); drained (fst (drainers g ! j))\<rbrakk>
   \<Longrightarrow> j < length (drainers g') \<and> drained (fst (drainers g' ! j))"
  by (auto elim!: gw_stepE simp: nth_list_update) (erule (1) drainer_step_effect(5))

lemma gw_exec_drained:
  "\<lbrakk>exec gw_step g es g'; j < length (drainers g); drained (fst (drainers g ! j))\<rbrakk>
   \<Longrightarrow> j < length (drainers g') \<and> drained (fst (drainers g' ! j))"
  by (induction rule: exec.induct) (auto dest: gw_step_drained)

text \<open>A message that has not entered \<open>acquire\<close> when the intake is closed never gets a guard.\<close>

definition turned_away :: "nat \<Rightarrow> gateway \<Rightarrow> bool" where
  "turned_away i g \<longleftrightarrow> \<not> accepting (coord g) \<and> i < length (messages g) \<and> messages g ! i \<in> {AcqEntry, AcqNone}"

lemma turned_away_step: "\<lbrakk>turned_away i g; gw_step g e g'\<rbrakk> \<Longrightarrow> turned_away i g'"
proof (erule gw_stepE)
  fix k p c
  assume t: "turned_away i g" and g': "g' = g\<lparr>coord := c, messages := (messages g)[k := p]\<rparr>"
    and k: "k < length (messages g)" and st: "message_step (messages g ! k, coord g) (p, c)"
  note e = message_step_effect [OF st]
  show "turned_away i g'"
    using t e(1,5,6) k by (auto simp: turned_away_def g' nth_list_update)
next
  fix j p0 l0 p l c
  assume t: "turned_away i g" and g': "g' = g\<lparr>coord := c, drainers := (drainers g)[j := (p, l)]\<rparr>"
    and st: "drainer_step (p0, l0, coord g) (p, l, c)"
  show "turned_away i g'"
    using t drainer_step_effect(2) [OF st] by (auto simp: turned_away_def g')
qed

interpretation away: invariant_machine "turned_away i" gw_step "turned_away i"
  by unfold_locales (auto intro: turned_away_step)

section \<open>The drain can always finish\<close>

text \<open>Atomic steps a message still has to make once the intake is closed.\<close>

fun work :: "acquire_pc \<Rightarrow> nat" where
  "work AcqEntry = 1"
| "work AcqChecked = 3"
| "work AcqCounted = 2"
| "work AcqUndo = 1"
| "work AcqGuard = 1"
| "work _ = 0"

definition total_work :: "gateway \<Rightarrow> nat" where
  "total_work g = sum_list (map work (messages g))"

lemma work_step:
  assumes "\<not> accepting c" "work p > 0"
  shows "\<exists>p' c'. message_step (p, c) (p', c') \<and> \<not> accepting c' \<and> work p = Suc (work p')"
  using assms unfolding message_step_def
  by (cases p) (force intro: acquire_step.intros guard_drop.intros)+

lemma sum_list_update_less:
  "\<lbrakk>i < length xs; f (xs ! i) = Suc (f v)\<rbrakk> \<Longrightarrow> sum_list (map f xs) = Suc (sum_list (map f (xs[i := v])))"
proof (induction xs arbitrary: i)
  case (Cons x xs)
  then show ?case by (cases i) auto
qed simp

lemma drain_schedule:
  "\<lbrakk>\<not> accepting (coord g); total_work g = n\<rbrakk>
   \<Longrightarrow> \<exists>es g'. exec gw_step g es g' \<and> length es = n \<and> (\<forall>e\<in>set es. \<exists>i. e = Msg i) \<and>
        total_work g' = 0 \<and> drainers g' = drainers g"
proof (induction n arbitrary: g)
  case 0
  then show ?case by (metis exec_nil list.size(3) empty_iff list.set(1))
next
  case (Suc n)
  have "\<exists>m\<in>set (messages g). work m \<noteq> 0"
  proof (rule ccontr)
    assume "\<not> ?thesis"
    then have "total_work g = 0" by (simp add: total_work_def sum_list_eq_0_iff)
    then show False using Suc.prems(2) by simp
  qed
  then obtain i where i: "i < length (messages g)" "work (messages g ! i) > 0"
    by (metis in_set_conv_nth neq0_conv)
  obtain p c where st: "message_step (messages g ! i, coord g) (p, c)" and "\<not> accepting c"
    and w: "work (messages g ! i) = Suc (work p)"
    using work_step [OF Suc.prems(1) i(2)] by blast
  let ?g = "g\<lparr>coord := c, messages := (messages g)[i := p]\<rparr>"
  have "total_work g = Suc (total_work ?g)"
    unfolding total_work_def using sum_list_update_less [OF i(1), of work p] w by simp
  then obtain es g' where *: "exec gw_step ?g es g'" "length es = n" "\<forall>e\<in>set es. \<exists>i. e = Msg i"
    "total_work g' = 0" "drainers g' = drainers ?g"
    using Suc.IH [of ?g] Suc.prems(2) \<open>\<not> accepting c\<close> by auto
  have "exec gw_step g (Msg i # es) g'"
    by (rule exec_cons [OF gw_msg [OF i(1) st] *(1)])
  then show ?case using * by (intro exI [of _ "Msg i # es"] exI [of _ g']) simp
qed

lemma total_work_le: "total_work g \<le> 3 * length (messages g)"
proof -
  have "sum_list (map work ms) \<le> 3 * length ms" for ms
  proof (induction ms)
    case (Cons m ms)
    then show ?case by (cases m) auto
  qed simp
  then show ?thesis by (simp add: total_work_def)
qed

lemma no_work_no_count: "total_work g = 0 \<Longrightarrow> count_if counted (messages g) = 0"
proof -
  assume "total_work g = 0"
  then have "\<forall>m\<in>set (messages g). work m = 0" by (auto simp: total_work_def sum_list_eq_0_iff)
  moreover have "counted m \<Longrightarrow> work m \<noteq> 0" for m by (cases m) auto
  ultimately show ?thesis unfolding count_if_zero_iff by blast
qed

section \<open>A concrete restart\<close>

text \<open>Two messages and one restart call, used by the witnesses.\<close>

definition demo_coord :: "32 word \<Rightarrow> bool \<Rightarrow> bool \<Rightarrow> bool \<Rightarrow> coordinator" where
  "demo_coord n acc canc rest =
     \<lparr>in_flight = n, accepting = acc, token_cancelled = canc, drain_timeout = 7, restart_initiated = rest\<rparr>"

definition demo_start :: gateway where
  "demo_start = \<lparr>coord = demo_coord 0 True False False, messages = [AcqEntry, AcqEntry],
                 drainers = [(DrEntry RestartCall, [])]\<rparr>"

definition demo_polling :: gateway where
  "demo_polling = \<lparr>coord = demo_coord 1 False False True, messages = [AcqGuard, AcqEntry],
                   drainers = [(DrPolling RestartCall, [Phase (DrainStart 1)])]\<rparr>"

definition demo_drained :: gateway where
  "demo_drained = \<lparr>coord = demo_coord 0 False False True, messages = [AcqDropped, AcqEntry],
                   drainers = [(DrDecided RestartCall True, [Phase (DrainStart 1)])]\<rparr>"

definition demo_done :: gateway where
  "demo_done = \<lparr>coord = demo_coord 0 False True True, messages = [AcqDropped, AcqNone],
                drainers = [(DrDone RestartCall True,
                  [Phase (DrainStart 1), Phase DrainComplete, Phase ShutdownPhase])]\<rparr>"

lemmas demo_defs = demo_coord_def demo_start_def demo_polling_def demo_drained_def demo_done_def

lemmas step_rules = message_step_def drainer_step_def acquire_step.simps guard_drop.simps
  shutdown_step.simps restart_step.simps drain_loop.simps

lemma demo_initial: "gw_initial demo_start"
  by (simp add: gw_initial_def demo_defs sc_with_drain_timeout_def)

lemmas run_simps = exec_simps gw_step_Msg gw_step_Drain step_rules

lemma demo_to_polling:
  "exec gw_step demo_start [Msg 0, Msg 0, Msg 0, Drain 0, Drain 0, Drain 0] demo_polling"
  by (simp add: demo_defs run_simps)

lemma demo_to_drained: "exec gw_step demo_polling [Msg 0, Drain 0] demo_drained"
  by (simp add: demo_defs run_simps)

lemma demo_to_done: "exec gw_step demo_drained ([Msg 1, Drain 0, Drain 0] @ [Drain 0]) demo_done"
proof -
  let ?g = "demo_done\<lparr>coord := demo_coord 0 False False True,
    drainers := [(DrCompleted True, [Phase (DrainStart 1), Phase DrainComplete])]\<rparr>"
  have "exec gw_step demo_drained [Msg 1, Drain 0, Drain 0] ?g"
    by (simp add: demo_defs run_simps) blast
  moreover have "exec gw_step ?g [Drain 0] demo_done"
    by (simp add: demo_defs run_simps) blast
  ultimately show ?thesis by (rule exec_append)
qed

section \<open>Properties\<close>

text \<open>
  In every interleaving of any number (below $2^{32}$) of messages and of shutdown and restart
  calls, the atomic counter is the number of messages that have incremented and not yet
  decremented it; every message that holds a guard is one of them.
\<close>

theorem in_flight_exact:
  assumes "gw_initial g" and "exec gw_step g es g'"
  shows "unat (in_flight (coord g')) = length (filter counted (messages g'))"
proof -
  have "gw_inv g'" by (rule gw_reachable [OF assms])
  moreover from this have "count_if counted (messages g') < 4294967296"
    using count_if_le_length [of counted "messages g'"] by (simp add: gw_inv_def)
  ultimately show ?thesis
    by (simp add: gw_inv_def count_if_def unat_small)
qed

theorem in_flight_exact_witness:
  "gw_initial demo_start \<and> in_flight (coord demo_polling) = 1 \<and>
   unat (in_flight (coord demo_polling)) = length (filter counted (messages demo_polling))"
  using in_flight_exact [OF demo_initial demo_to_polling] demo_initial
  by (simp add: demo_polling_def demo_coord_def)

text \<open>
  C2. Once a shutdown or restart call has seen the counter drained, no message holds a guard, then
  or at any later point, however the remaining messages and other calls are interleaved: the
  token is never cancelled on a drained call with a message still being processed.
\<close>

theorem drained_stays_idle:
  assumes "gw_initial g" and "exec gw_step g es g'" and "j < length (drainers g')"
    and "drained (fst (drainers g' ! j))" and "exec gw_step g' fs g''"
  shows "AcqGuard \<notin> set (messages g'')"
proof -
  have inv: "gw_inv g''" by (rule gw_reachable [OF assms(1) exec_append [OF assms(2,5)]])
  have j: "j < length (drainers g'')" "drained (fst (drainers g'' ! j))"
    using gw_exec_drained [OF assms(5,3,4)] by auto
  then show ?thesis using inv nth_mem [OF j(1)] by (auto simp: gw_inv_def split_beta)
qed

theorem drained_stays_idle_witness:
  "drained (fst (drainers demo_drained ! 0)) \<and> AcqGuard \<notin> set (messages demo_done)"
proof -
  have d: "0 < length (drainers demo_drained)" "drained (fst (drainers demo_drained ! 0))"
    by (simp_all add: demo_defs)
  from drained_stays_idle [OF demo_initial exec_append [OF demo_to_polling demo_to_drained] d demo_to_done] d(2)
  show ?thesis by simp
qed

text \<open>
  A message that enters \<open>acquire\<close> after some call has stopped the intake is refused: it never
  gets a guard and never touches the counter.
\<close>

theorem late_message_refused:
  assumes "gw_initial g" and "exec gw_step g es g'" and "j < length (drainers g')"
    and "stopped (fst (drainers g' ! j))" and "i < length (messages g')"
    and "messages g' ! i = AcqEntry" and "exec gw_step g' fs g''"
  shows "messages g'' ! i \<in> {AcqEntry, AcqNone} \<and> \<not> counted (messages g'' ! i)"
proof -
  have "gw_inv g'" by (rule gw_reachable [OF assms(1,2)])
  then have "\<not> accepting (coord g')"
    using assms(4) nth_mem [OF assms(3)] by (auto simp: gw_inv_def split_beta)
  then have "turned_away i g'" using assms(5,6) by (simp add: turned_away_def)
  then have "turned_away i g''" by (rule away.exec_inv [OF assms(7)])
  then show ?thesis by (auto simp: turned_away_def)
qed

theorem late_message_refused_witness:
  "messages demo_polling ! 1 = AcqEntry \<and> messages demo_done ! 1 \<in> {AcqEntry, AcqNone}"
proof -
  have d: "0 < length (drainers demo_polling)" "stopped (fst (drainers demo_polling ! 0))"
    "1 < length (messages demo_polling)" "messages demo_polling ! 1 = AcqEntry"
    by (simp_all add: demo_defs)
  from late_message_refused [OF demo_initial demo_to_polling d exec_append [OF demo_to_drained demo_to_done]] d(4)
  show ?thesis by simp
qed

text \<open>
  A drain is never stuck: when the intake is closed, at most three atomic steps per message,
  without any step of the drain calls, lead to a zero counter, where the next poll of a waiting
  call reports the drain complete.
\<close>

theorem drain_reachable:
  assumes "gw_initial g" and "exec gw_step g es g'" and "j < length (drainers g')"
    and "drainers g' ! j = (DrPolling k, l)"
  shows "\<exists>fs g''. exec gw_step g' (fs @ [Drain j]) g'' \<and> length fs \<le> 3 * length (messages g') \<and>
           in_flight (coord g'') = 0 \<and> drainers g'' ! j = (DrDecided k True, l)"
proof -
  have "gw_inv g'" by (rule gw_reachable [OF assms(1,2)])
  then have "\<not> accepting (coord g')"
    using assms(3,4) nth_mem [OF assms(3)] by (fastforce simp: gw_inv_def)
  from drain_schedule [OF this refl] obtain fs h
    where h: "exec gw_step g' fs h" "length fs = total_work g'" "total_work h = 0" "drainers h = drainers g'"
    by blast
  have "gw_inv h" by (rule gw_reachable [OF assms(1) exec_append [OF assms(2) h(1)]])
  then have z: "in_flight (coord h) = 0"
    using no_work_no_count [OF h(3)] by (simp add: gw_inv_def)
  have "drainer_step (DrPolling k, l, coord h) (DrDecided k True, l, coord h)"
    by (simp add: drainer_step_def drain_loop.simps z)
  then have "gw_step h (Drain j) (h\<lparr>coord := coord h, drainers := (drainers h)[j := (DrDecided k True, l)]\<rparr>)"
    using assms(3,4) h(4) by (intro gw_drain) auto
  then show ?thesis
    using exec_append [OF h(1) exec_cons [OF _ exec_nil]] h(2) z total_work_le [of g'] assms(3) h(4)
    by fastforce
qed

theorem drain_reachable_witness:
  "\<exists>fs g. exec gw_step demo_polling (fs @ [Drain 0]) g \<and> length fs \<le> 6 \<and> in_flight (coord g) = 0"
proof -
  have d: "0 < length (drainers demo_polling)"
    "drainers demo_polling ! 0 = (DrPolling RestartCall, [Phase (DrainStart 1)])"
    and m: "length (messages demo_polling) = 2"
    by (simp_all add: demo_defs)
  from drain_reachable [OF demo_initial demo_to_polling d] m show ?thesis by auto
qed

text \<open>
  A finished restart has logged exactly one drain-start, then one line per remaining request
  when the timeout fired (none when the drain completed), then drain-complete and shutdown.
\<close>

theorem restart_phase_log:
  assumes "gw_initial g" and "exec gw_step g es g'" and "(DrDone RestartCall d, l) \<in> set (drainers g')"
  shows "\<exists>n fs. l = Phase (DrainStart n) # fs @ [Phase DrainComplete, Phase ShutdownPhase] \<and>
           (if d then fs = [] else \<exists>c. fs = force_terminated c)"
proof -
  have "gw_inv g'" by (rule gw_reachable [OF assms(1,2)])
  then have "log_ok (DrDone RestartCall d) l" using assms(3) by (auto simp: gw_inv_def)
  then show ?thesis by (simp add: forced_part_def)
qed

theorem restart_phase_log_witness:
  "\<exists>n fs. snd (drainers demo_done ! 0) = Phase (DrainStart n) # fs @ [Phase DrainComplete, Phase ShutdownPhase] \<and> fs = []"
proof -
  have "(DrDone RestartCall True, snd (drainers demo_done ! 0)) \<in> set (drainers demo_done)"
    by (simp add: demo_defs)
  from restart_phase_log [OF demo_initial exec_append [OF demo_to_polling exec_append [OF demo_to_drained demo_to_done]] this]
  show ?thesis by simp
qed


end
