(* ===== verification/AccessControl.thy ===== *)
theory AccessControl
  imports Channel
begin

text \<open>
  \<open>src/access_control.rs\<close>: DM policies per channel, roles, paired users, tool checks with scope
  resolvers, and the hot reload, with the parts of \<open>src/config.rs\<close> they read.
\<close>

section \<open>Configuration\<close>

datatype dm_policy = Pairing | Allowlist | OpenPolicy | Disabled

record role =
  role_name :: string
  role_permissions :: "string list"
  role_scopes :: "string list"

record channel_override =
  co_dm_policy :: "dm_policy option"
  co_roles :: "role list"

record auth_config =
  au_roles :: "role list"
  au_user_mappings :: "(string \<times> string) list"
  au_channel_overrides :: "channel_override dict"

text \<open>The DM settings of a channel section; its credentials are not read here.\<close>

record dm_settings =
  dm_policy_of :: dm_policy
  dm_allow_from :: "string list"

record access_settings =
  as_auth :: "auth_config option"
  as_telegram :: "dm_settings option"
  as_slack :: "dm_settings option"

section \<open>State\<close>

record channel_policy =
  cp_dm_policy :: dm_policy
  cp_allow_list :: "string set"
  cp_roles :: "role list"

record auth_identity =
  ai_canonical_id :: string
  ai_platform_id :: string
  ai_channel_type :: channel_type

datatype auth_decision = Allowed | Denied string | RequiresPairing

datatype tool_access_decision = ToolAllowed | ToolDenied string

record access_bridge =
  ab_roles :: "role dict"
  ab_user_roles :: "string set dict"
  ab_paired_users :: "string set"
  ab_channel_policies :: "channel_policy dict"
  ab_default_policy :: channel_policy

section \<open>Building the bridge\<close>

text \<open>\<open>entry(k).or_default().insert(x)\<close> on a map of sets, and \<open>entry(k).or_insert(v)\<close>.\<close>

definition grant :: "string \<Rightarrow> string \<Rightarrow> string set dict \<Rightarrow> string set dict" where
  "grant u r m = dict_put u (insert r (case dict_get m u of Some s \<Rightarrow> s | None \<Rightarrow> {})) m"

definition or_insert :: "string \<Rightarrow> 'v \<Rightarrow> 'v dict \<Rightarrow> 'v dict" where
  "or_insert k v m = (if dict_has m k then m else dict_put k v m)"

definition load_auth_roles :: "auth_config \<Rightarrow> role dict" where
  "load_auth_roles a = fold (\<lambda>r. dict_put (role_name r) r) (au_roles a) []"

definition load_user_mappings :: "auth_config \<Rightarrow> string set dict" where
  "load_user_mappings a = fold (\<lambda>m. grant (fst m) (snd m)) (au_user_mappings a) []"

definition build_channel_policy_from_override :: "channel_override \<Rightarrow> channel_policy" where
  "build_channel_policy_from_override ov =
     \<lparr>cp_dm_policy = (case co_dm_policy ov of Some p \<Rightarrow> p | None \<Rightarrow> Pairing),
      cp_allow_list = {}, cp_roles = co_roles ov\<rparr>"

definition policy_of_settings :: "dm_settings \<Rightarrow> channel_policy" where
  "policy_of_settings d = \<lparr>cp_dm_policy = dm_policy_of d, cp_allow_list = set (dm_allow_from d), cp_roles = []\<rparr>"

text \<open>The overrides come first; the channel's own settings fill in where there is none.\<close>

definition build_channel_policies :: "access_settings \<Rightarrow> channel_policy dict" where
  "build_channel_policies c =
     (let m0 = (case as_auth c of None \<Rightarrow> []
                | Some a \<Rightarrow> fold (\<lambda>kv. dict_put (fst kv) (build_channel_policy_from_override (snd kv)))
                              (au_channel_overrides a) []);
          m1 = (case as_telegram c of None \<Rightarrow> m0 | Some d \<Rightarrow> or_insert ''telegram'' (policy_of_settings d) m0)
      in (case as_slack c of None \<Rightarrow> m1 | Some d \<Rightarrow> or_insert ''slack'' (policy_of_settings d) m1))"

definition ab_new :: "access_settings \<Rightarrow> access_bridge" where
  "ab_new c =
     \<lparr>ab_roles = (case as_auth c of None \<Rightarrow> [] | Some a \<Rightarrow> load_auth_roles a),
      ab_user_roles = (case as_auth c of None \<Rightarrow> [] | Some a \<Rightarrow> load_user_mappings a),
      ab_paired_users = {},
      ab_channel_policies = build_channel_policies c,
      ab_default_policy = \<lparr>cp_dm_policy = Pairing, cp_allow_list = {}, cp_roles = []\<rparr>\<rparr>"

section \<open>Operations\<close>

definition map_identity :: "inbound_message \<Rightarrow> auth_identity" where
  "map_identity m = \<lparr>ai_canonical_id = show_channel (im_channel_type m) @ '':'' @ im_sender_id m,
     ai_platform_id = im_sender_id m, ai_channel_type = im_channel_type m\<rparr>"

definition evaluate_policy :: "channel_policy \<Rightarrow> auth_identity \<Rightarrow> string set \<Rightarrow> auth_decision" where
  "evaluate_policy p i paired =
     (case cp_dm_policy p of
        OpenPolicy \<Rightarrow> Allowed
      | Allowlist \<Rightarrow>
          if ai_canonical_id i \<in> cp_allow_list p \<or> ai_platform_id i \<in> cp_allow_list p then Allowed
          else Denied ''user not in allow list''
      | Pairing \<Rightarrow> if ai_canonical_id i \<in> paired then Allowed else RequiresPairing
      | Disabled \<Rightarrow> Denied ''DMs are disabled for this channel'')"

definition policy_for :: "access_bridge \<Rightarrow> channel_type \<Rightarrow> channel_policy" where
  "policy_for ab ch =
     (case dict_get (ab_channel_policies ab) (show_channel ch) of Some p \<Rightarrow> p | None \<Rightarrow> ab_default_policy ab)"

definition check_message_access :: "access_bridge \<Rightarrow> inbound_message \<Rightarrow> auth_decision" where
  "check_message_access ab m =
     evaluate_policy (policy_for ab (im_channel_type m)) (map_identity m) (ab_paired_users ab)"

definition mark_paired :: "string \<Rightarrow> access_bridge \<Rightarrow> access_bridge" where
  "mark_paired cid ab = ab\<lparr>ab_paired_users := insert cid (ab_paired_users ab),
                          ab_user_roles := grant cid ''paired'' (ab_user_roles ab)\<rparr>"

definition is_paired :: "access_bridge \<Rightarrow> string \<Rightarrow> bool" where
  "is_paired ab cid \<longleftrightarrow> cid \<in> ab_paired_users ab"

text \<open>The paired users are a hash set; \<open>order\<close> is the order in which the loop meets them.\<close>

definition ab_rebuild :: "string list \<Rightarrow> access_settings \<Rightarrow> access_bridge \<Rightarrow> access_bridge" where
  "ab_rebuild order c ab =
     ab\<lparr>ab_roles := ab_roles (ab_new c),
        ab_user_roles := fold (\<lambda>u. grant u ''paired'') order (ab_user_roles (ab_new c)),
        ab_channel_policies := build_channel_policies c\<rparr>"

definition user_role_names :: "access_bridge \<Rightarrow> string \<Rightarrow> string set" where
  "user_role_names ab cid = (case dict_get (ab_user_roles ab) cid of Some s \<Rightarrow> s | None \<Rightarrow> {})"

definition get_role :: "access_bridge \<Rightarrow> string \<Rightarrow> role option" where
  "get_role ab n = dict_get (ab_roles ab) n"

section \<open>Tool protection\<close>

type_synonym scope_resolver = "string \<Rightarrow> string set"

definition static_resolver :: "string set dict \<Rightarrow> scope_resolver" where
  "static_resolver m cid = (case dict_get m cid of Some s \<Rightarrow> s | None \<Rightarrow> {})"

definition chained_resolver :: "scope_resolver list \<Rightarrow> scope_resolver" where
  "chained_resolver rs cid = fold (\<lambda>r acc. acc \<union> r cid) rs {}"

definition quoted :: "string \<Rightarrow> string" where
  "quoted s = CHR 0x27 # s @ [CHR 0x27]"

definition check_tool_access ::
  "string set \<Rightarrow> string set \<Rightarrow> string \<Rightarrow> string option \<Rightarrow> string list \<Rightarrow> tool_access_decision" where
  "check_tool_access roles scopes tool required_role required_scopes =
     (let role_missing = (case required_role of Some r \<Rightarrow> r \<notin> roles | None \<Rightarrow> False);
          missing = filter (\<lambda>s. s \<notin> scopes) required_scopes
      in if role_missing
         then ToolDenied (''tool '' @ quoted tool @ '' requires role '' @ quoted (the required_role)
                @ '' which the user does not have'')
         else if missing \<noteq> []
         then ToolDenied (''tool '' @ quoted tool @ '' requires scopes ['' @ join '', '' missing
                @ ''] which the user is missing'')
         else ToolAllowed)"

definition wrap_tool_check ::
  "access_bridge \<Rightarrow> string \<Rightarrow> string \<Rightarrow> string option \<Rightarrow> string list \<Rightarrow> scope_resolver \<Rightarrow> tool_access_decision" where
  "wrap_tool_check ab cid tool rr rs resolver =
     check_tool_access (user_role_names ab cid) (resolver cid) tool rr rs"

section \<open>Roles of users\<close>

lemma get_grant:
  "dict_get (grant u r m) v =
     (if v = u then Some (insert r (case dict_get m u of Some s \<Rightarrow> s | None \<Rightarrow> {})) else dict_get m v)"
  by (simp add: grant_def)

definition roles_in :: "string set dict \<Rightarrow> string \<Rightarrow> string set" where
  "roles_in m u = (case dict_get m u of Some s \<Rightarrow> s | None \<Rightarrow> {})"

lemma roles_in_grant: "roles_in (grant u r m) v = (if v = u then insert r (roles_in m v) else roles_in m v)"
  by (simp add: roles_in_def get_grant)

lemma roles_in_grants:
  "roles_in (fold (\<lambda>u. grant u r) us m) v = (if v \<in> set us then insert r (roles_in m v) else roles_in m v)"
  by (induction us arbitrary: m) (auto simp: roles_in_grant)

lemma roles_in_mappings:
  "roles_in (fold (\<lambda>p. grant (fst p) (snd p)) ps m) v = roles_in m v \<union> {r. (v, r) \<in> set ps}"
  by (induction ps arbitrary: m) (auto simp: roles_in_grant)

lemma user_role_names_roles_in: "user_role_names ab u = roles_in (ab_user_roles ab) u"
  by (simp add: user_role_names_def roles_in_def)

section \<open>Pairing and hot reload\<close>

lemma fold_mark_paired:
  "fold mark_paired us ab = ab\<lparr>ab_paired_users := set us \<union> ab_paired_users ab,
      ab_user_roles := fold (\<lambda>u. grant u ''paired'') us (ab_user_roles ab)\<rparr>"
  by (induction us arbitrary: ab) (auto simp: mark_paired_def)

text \<open>What every bridge satisfies: the default policy is fixed and paired users hold the role.\<close>

definition ab_inv :: "access_bridge \<Rightarrow> bool" where
  "ab_inv ab \<longleftrightarrow> ab_default_policy ab = \<lparr>cp_dm_policy = Pairing, cp_allow_list = {}, cp_roles = []\<rparr> \<and>
     (\<forall>u\<in>ab_paired_users ab. ''paired'' \<in> user_role_names ab u)"

datatype ab_op = AbMarkPaired string | AbRebuild "string list" access_settings

inductive ab_step :: "access_bridge \<Rightarrow> ab_op \<Rightarrow> access_bridge \<Rightarrow> bool" where
  ab_mark: "ab_step ab (AbMarkPaired u) (mark_paired u ab)"
| ab_reload: "set order = ab_paired_users ab \<Longrightarrow> ab_step ab (AbRebuild order c) (ab_rebuild order c ab)"

inductive_cases ab_stepE: "ab_step ab op ab'"

lemma ab_inv_step: "\<lbrakk>ab_inv ab; ab_step ab op ab'\<rbrakk> \<Longrightarrow> ab_inv ab'"
  by (auto elim!: ab_stepE simp: ab_inv_def mark_paired_def ab_rebuild_def user_role_names_roles_in
      roles_in_grant roles_in_grants)

lemma ab_inv_new: "ab_inv (ab_new c)"
  by (simp add: ab_inv_def ab_new_def)

interpretation ab: invariant_machine "\<lambda>ab. \<exists>c. ab = ab_new c" ab_step ab_inv
  by unfold_locales (auto intro: ab_inv_new ab_inv_step)

lemma rebuild_eq_new:
  "\<lbrakk>ab_inv ab; set order = ab_paired_users ab\<rbrakk> \<Longrightarrow> ab_rebuild order c ab = fold mark_paired order (ab_new c)"
  by (simp add: fold_mark_paired ab_rebuild_def ab_new_def ab_inv_def)

section \<open>Effective policies\<close>

lemma fold_put_map:
  "fold (\<lambda>kv. dict_put (fst kv) (f (snd kv))) kvs d =
   fold (\<lambda>kv. dict_put (fst kv) (snd kv)) (map (\<lambda>kv. (fst kv, f (snd kv))) kvs) d"
  by (induction kvs arbitrary: d) simp_all

lemma map_of_map_snd: "map_of (map (\<lambda>kv. (fst kv, f (snd kv))) kvs) k = map_option f (map_of kvs k)"
  by (induction kvs) auto

lemma map_of_rev:
  assumes "distinct (map fst kvs)"
  shows "map_of (rev kvs) k = map_of kvs k"
proof (cases "map_of kvs k")
  case None
  then have "map_of (rev kvs) k = None" by (simp add: map_of_eq_None_iff)
  then show ?thesis using None by simp
next
  case (Some v)
  then have "(k, v) \<in> set (rev kvs)" by (simp add: map_of_SomeD)
  moreover have "distinct (map fst (rev kvs))" using assms by (simp add: rev_map [symmetric])
  ultimately show ?thesis using Some by (simp add: map_of_is_SomeI)
qed

lemma get_fold_put:
  "dict_ok kvs \<Longrightarrow> dict_get (fold (\<lambda>kv. dict_put (fst kv) (f (snd kv))) kvs []) k = map_option f (dict_get kvs k)"
proof -
  assume "dict_ok kvs"
  then have "map_of (rev (map (\<lambda>kv. (fst kv, f (snd kv))) kvs)) k = map_of (map (\<lambda>kv. (fst kv, f (snd kv))) kvs) k"
    by (intro map_of_rev) (simp add: dict_ok_def comp_def)
  moreover have "dict_get (fold (\<lambda>kv. dict_put (fst kv) (f (snd kv))) kvs []) k =
      (case map_of (rev (map (\<lambda>kv. (fst kv, f (snd kv))) kvs)) k of None \<Rightarrow> dict_get [] k | Some v \<Rightarrow> Some v)"
    unfolding fold_put_map by (rule dict.get_put_all)
  ultimately show ?thesis
    by (simp add: dict_get_def map_of_map_snd split: option.splits)
qed

text \<open>The policy of a channel read off the settings: an override wins over the channel's section.\<close>

definition effective_policy :: "access_settings \<Rightarrow> channel_type \<Rightarrow> channel_policy" where
  "effective_policy c ch =
     (let override = (case as_auth c of None \<Rightarrow> None
                      | Some a \<Rightarrow> dict_get (au_channel_overrides a) (show_channel ch));
          settings = (if ch = Telegram then as_telegram c else if ch = Slack then as_slack c else None)
      in case override of
           Some ov \<Rightarrow> build_channel_policy_from_override ov
         | None \<Rightarrow> (case settings of Some d \<Rightarrow> policy_of_settings d
                     | None \<Rightarrow> \<lparr>cp_dm_policy = Pairing, cp_allow_list = {}, cp_roles = []\<rparr>))"

lemma get_or_insert: "dict_get (or_insert k v m) k' =
   (if k' = k \<and> dict_get m k = None then Some v else dict_get m k')"
  by (auto simp: or_insert_def dict_has_def)

definition settings_ok :: "access_settings \<Rightarrow> bool" where
  "settings_ok c \<longleftrightarrow> (case as_auth c of None \<Rightarrow> True | Some a \<Rightarrow> dict_ok (au_channel_overrides a))"

lemma get_channel_policies:
  assumes "settings_ok c"
  shows "(case dict_get (build_channel_policies c) (show_channel ch) of Some p \<Rightarrow> p
          | None \<Rightarrow> \<lparr>cp_dm_policy = Pairing, cp_allow_list = {}, cp_roles = []\<rparr>) = effective_policy c ch"
proof -
  define m0 where "m0 = (case as_auth c of None \<Rightarrow> [] | Some a \<Rightarrow>
      fold (\<lambda>kv. dict_put (fst kv) (build_channel_policy_from_override (snd kv))) (au_channel_overrides a) [])"
  have m0: "dict_get m0 k = map_option build_channel_policy_from_override
      (case as_auth c of None \<Rightarrow> None | Some a \<Rightarrow> dict_get (au_channel_overrides a) k)" for k
    using assms by (auto simp: m0_def settings_ok_def get_fold_put split: option.splits)
  have n: "''telegram'' = show_channel Telegram" "''slack'' = show_channel Slack" by simp_all
  show ?thesis
    unfolding build_channel_policies_def Let_def m0_def [symmetric] effective_policy_def n
    by (cases "as_telegram c"; cases "as_slack c")
      (auto simp: get_or_insert m0 simp del: show_channel.simps split: option.splits)
qed

section \<open>Properties\<close>

text \<open>
  C8. A message is let in exactly when the policy in force for its channel says so: open channels
  admit everyone, allow-listed ones the listed canonical or platform identifiers, pairing channels
  the paired canonical identities, disabled ones nobody; a user is asked to pair exactly on a
  pairing channel while not paired. The policy in force is an override if the auth section has
  one, else the channel's own settings, else pairing.
\<close>

theorem access_decision:
  assumes "settings_ok c" and "ab = fold mark_paired us (ab_new c)"
  shows "let p = effective_policy c (im_channel_type m); cid = ai_canonical_id (map_identity m) in
    (check_message_access ab m = Allowed \<longleftrightarrow>
       (case cp_dm_policy p of OpenPolicy \<Rightarrow> True | Disabled \<Rightarrow> False | Pairing \<Rightarrow> cid \<in> set us
        | Allowlist \<Rightarrow> cid \<in> cp_allow_list p \<or> im_sender_id m \<in> cp_allow_list p)) \<and>
    (check_message_access ab m = RequiresPairing \<longleftrightarrow> cp_dm_policy p = Pairing \<and> cid \<notin> set us)"
proof -
  have p: "policy_for ab (im_channel_type m) = effective_policy c (im_channel_type m)"
    using get_channel_policies [OF assms(1), of "im_channel_type m"]
    by (auto simp: assms(2) fold_mark_paired policy_for_def ab_new_def split: option.splits)
  have u: "ab_paired_users ab = set us" by (simp add: assms(2) fold_mark_paired ab_new_def)
  show ?thesis
    by (auto simp: Let_def check_message_access_def p u evaluate_policy_def map_identity_def split: dm_policy.splits)
qed

theorem access_decision_witness:
  "let c = \<lparr>as_auth = None, as_telegram = Some \<lparr>dm_policy_of = Allowlist, dm_allow_from = [''7'']\<rparr>, as_slack = None\<rparr>;
       ab = fold mark_paired [''slack:U1''] (ab_new c)
   in settings_ok c \<and>
      check_message_access ab (plain_message Telegram ''7'' ''hi'') = Allowed \<and>
      check_message_access ab (plain_message Slack ''U1'' ''hi'') = Allowed \<and>
      check_message_access ab (plain_message Slack ''U2'' ''hi'') = RequiresPairing"
proof -
  let ?c = "\<lparr>as_auth = None, as_telegram = Some \<lparr>dm_policy_of = Allowlist, dm_allow_from = [''7'']\<rparr>, as_slack = None\<rparr>"
  have ok: "settings_ok ?c" by (simp add: settings_ok_def)
  note a = access_decision [OF ok refl, where us = "[''slack:U1'']"]
  show ?thesis
    using ok a [where m = "plain_message Telegram ''7'' ''hi''"] a [where m = "plain_message Slack ''U1'' ''hi''"]
      a [where m = "plain_message Slack ''U2'' ''hi''"]
    by (simp add: Let_def effective_policy_def policy_of_settings_def plain_message_def map_identity_def)
qed

text \<open>
  A hot reload is the same as a restart with the new configuration followed by pairing the
  users that were paired before: after any sequence of pairings and reloads, the whole bridge
  (roles, user roles, policies, paired users) is equal to that one.
\<close>

theorem reload_keeps_paired_users:
  assumes "exec ab_step (ab_new c0) ops ab" and "set order = ab_paired_users ab"
  shows "ab_rebuild order c ab = fold mark_paired order (ab_new c)"
  by (rule rebuild_eq_new [OF ab.reachable_inv [OF exI [of _ c0, OF refl] assms(1)] assms(2)])

theorem reload_keeps_paired_users_witness:
  "\<exists>ab. exec ab_step (ab_new \<lparr>as_auth = None, as_telegram = None, as_slack = None\<rparr>) [AbMarkPaired ''slack:U1''] ab \<and>
     ab_rebuild [''slack:U1''] \<lparr>as_auth = None, as_telegram = None, as_slack = None\<rparr> ab =
     fold mark_paired [''slack:U1''] (ab_new \<lparr>as_auth = None, as_telegram = None, as_slack = None\<rparr>)"
proof -
  let ?c = "\<lparr>as_auth = None, as_telegram = None, as_slack = None\<rparr>"
  have e: "exec ab_step (ab_new ?c) [AbMarkPaired ''slack:U1''] (mark_paired ''slack:U1'' (ab_new ?c))"
    by (simp add: exec_simps ab_step.simps)
  have o: "set [''slack:U1''] = ab_paired_users (mark_paired ''slack:U1'' (ab_new ?c))"
    by (simp add: mark_paired_def ab_new_def)
  from e reload_keeps_paired_users [OF e o, of ?c] show ?thesis by blast
qed

text \<open>
  An override that sets no policy, added only to give a channel roles, turns a disabled channel
  into a pairing channel, and an override to the allow-list policy admits nobody, because the
  channel's own settings are not consulted once an override exists.
\<close>

theorem override_drops_channel_settings:
  "let ov = (\<lambda>p. \<lparr>co_dm_policy = p, co_roles = []\<rparr>);
       c = (\<lambda>p d. \<lparr>as_auth = Some \<lparr>au_roles = [], au_user_mappings = [], au_channel_overrides = [(''telegram'', ov p)]\<rparr>,
                   as_telegram = Some d, as_slack = None\<rparr>)
   in check_message_access (ab_new (c None \<lparr>dm_policy_of = Disabled, dm_allow_from = []\<rparr>)) (plain_message Telegram u t)
        = RequiresPairing \<and>
      check_message_access (ab_new (c (Some Allowlist) \<lparr>dm_policy_of = Allowlist, dm_allow_from = [u]\<rparr>)) (plain_message Telegram u t)
        = Denied ''user not in allow list''"
  by (simp add: Let_def check_message_access_def policy_for_def ab_new_def build_channel_policies_def or_insert_def
      dict_has_def build_channel_policy_from_override_def evaluate_policy_def map_identity_def plain_message_def)

text \<open>
  A tool call is allowed exactly when the user holds the required role, if one is required, and
  every required scope is granted by some resolver of the chain.
\<close>

theorem tool_access_exact:
  "wrap_tool_check ab cid tool rr rs (chained_resolver resolvers) = ToolAllowed \<longleftrightarrow>
     set_option rr \<subseteq> user_role_names ab cid \<and> set rs \<subseteq> \<Union> ((\<lambda>f. f cid) ` set resolvers)"
proof -
  have "fold (\<lambda>r acc. acc \<union> r cid) resolvers A = A \<union> (\<Union>f\<in>set resolvers. f cid)" for A
    by (induction resolvers arbitrary: A) auto
  then have c: "chained_resolver resolvers cid = (\<Union>f\<in>set resolvers. f cid)"
    by (simp add: chained_resolver_def)
  show ?thesis
    unfolding wrap_tool_check_def check_tool_access_def c Let_def
    by (cases rr) (auto simp: filter_empty_conv)
qed

end
