(* ===== verification/DmPairing.thy ===== *)
theory DmPairing
  imports Prelude
begin

text \<open>
  \<open>src/pairing.rs\<close>: single-use pairing codes, failure counting with lockout, and the paired users.
  Times are nanoseconds since the epoch. \<open>validate_code\<close> takes its locks one after the other, so
  it is modelled twice: as one call that nothing interrupts, made of the reads (lockout check and a
  copy of the code entry) and the writes, and lock by lock in a machine in which any calls overlap. The random code is an argument of
  \<open>generate_code\<close>.
\<close>

section \<open>State\<close>

record pairing_code =
  pc_code :: string
  pc_created_at :: int
  pc_expires_at :: int
  pc_used :: bool

record lockout_info =
  li_failed_attempts :: nat
  li_locked_until :: "int option"

record paired_user =
  pu_user_id :: string
  pu_paired_at :: int
  pu_channel_type :: string

datatype pairing_result =
    Success
  | InvalidCode nat
  | Locked int
  | AlreadyUsed
  | Expired

record pairing_service =
  ps_codes :: "pairing_code dict"
  ps_paired_users :: "paired_user dict"
  ps_lockouts :: "lockout_info dict"

definition max_pairing_attempts :: nat where "max_pairing_attempts = 3"
definition lockout_time :: int where "lockout_time = 15 * 60 * 1000000000"
definition code_expiry :: int where "code_expiry = 24 * 3600 * 1000000000"

definition ps_new :: pairing_service where
  "ps_new = \<lparr>ps_codes = [], ps_paired_users = [], ps_lockouts = []\<rparr>"

definition code_is_valid :: "int \<Rightarrow> pairing_code \<Rightarrow> bool" where
  "code_is_valid now pc \<longleftrightarrow> \<not> pc_used pc \<and> now < pc_expires_at pc"

definition lockout_new :: lockout_info where
  "lockout_new = \<lparr>li_failed_attempts = 0, li_locked_until = None\<rparr>"

definition is_locked :: "int \<Rightarrow> lockout_info \<Rightarrow> bool" where
  "is_locked now li = (case li_locked_until li of Some u \<Rightarrow> now < u | None \<Rightarrow> False)"

section \<open>Operations\<close>

definition generate_code :: "string \<Rightarrow> int \<Rightarrow> pairing_service \<Rightarrow> pairing_service" where
  "generate_code code now ps = ps\<lparr>ps_codes := dict_put code
     \<lparr>pc_code = code, pc_created_at = now, pc_expires_at = now + code_expiry, pc_used = False\<rparr> (ps_codes ps)\<rparr>"

definition has_paired :: "pairing_service \<Rightarrow> string \<Rightarrow> bool" where
  "has_paired ps u = dict_has (ps_paired_users ps) u"

definition record_failure :: "string \<Rightarrow> int \<Rightarrow> pairing_service \<Rightarrow> pairing_service \<times> pairing_result" where
  "record_failure u now ps =
     (let li = (case dict_get (ps_lockouts ps) u of Some li \<Rightarrow> li | None \<Rightarrow> lockout_new);
          li1 = (if \<not> is_locked now li \<and> li_locked_until li \<noteq> None then lockout_new else li);
          n = li_failed_attempts li1 + 1;
          li2 = (if n \<ge> max_pairing_attempts
                 then \<lparr>li_failed_attempts = n, li_locked_until = Some (now + lockout_time)\<rparr>
                 else li1\<lparr>li_failed_attempts := n\<rparr>)
      in (ps\<lparr>ps_lockouts := dict_put u li2 (ps_lockouts ps)\<rparr>,
          if n \<ge> max_pairing_attempts then Locked (now + lockout_time)
          else InvalidCode (max_pairing_attempts - n)))"

text \<open>The read part: \<open>Inl\<close> when locked, otherwise a copy of the code entry.\<close>

definition validate_read ::
  "string \<Rightarrow> string \<Rightarrow> int \<Rightarrow> pairing_service \<Rightarrow> pairing_result + pairing_code option" where
  "validate_read u code now ps =
     (case dict_get (ps_lockouts ps) u of
        Some li \<Rightarrow> if is_locked now li then Inl (Locked (the (li_locked_until li))) else Inr (dict_get (ps_codes ps) code)
      | None \<Rightarrow> Inr (dict_get (ps_codes ps) code))"

definition mark_used :: "string \<Rightarrow> pairing_code dict \<Rightarrow> pairing_code dict" where
  "mark_used code codes =
     (case dict_get codes code of Some pc \<Rightarrow> dict_put code (pc\<lparr>pc_used := True\<rparr>) codes | None \<Rightarrow> codes)"

definition validate_write ::
  "string \<Rightarrow> string \<Rightarrow> string \<Rightarrow> int \<Rightarrow> pairing_result + pairing_code option \<Rightarrow> pairing_service
   \<Rightarrow> pairing_service \<times> pairing_result" where
  "validate_write u code ch now seen ps =
     (case seen of
        Inl r \<Rightarrow> (ps, r)
      | Inr None \<Rightarrow> record_failure u now ps
      | Inr (Some pc) \<Rightarrow>
          if pc_used pc then (ps, AlreadyUsed)
          else if \<not> code_is_valid now pc then (ps, Expired)
          else (ps\<lparr>ps_codes := mark_used code (ps_codes ps),
                   ps_paired_users := dict_put u \<lparr>pu_user_id = u, pu_paired_at = now, pu_channel_type = ch\<rparr>
                     (ps_paired_users ps),
                   ps_lockouts := dict_del u (ps_lockouts ps)\<rparr>, Success))"

definition validate_code ::
  "string \<Rightarrow> string \<Rightarrow> string \<Rightarrow> int \<Rightarrow> pairing_service \<Rightarrow> pairing_service \<times> pairing_result" where
  "validate_code u code ch now ps = validate_write u code ch now (validate_read u code now ps) ps"

definition restore_paired_users :: "paired_user list \<Rightarrow> pairing_service \<Rightarrow> pairing_service" where
  "restore_paired_users us ps =
     ps\<lparr>ps_paired_users := fold (\<lambda>u. dict_put (pu_user_id u) u) us (ps_paired_users ps)\<rparr>"

definition paired_users_list :: "pairing_service \<Rightarrow> paired_user list" where
  "paired_users_list ps = map snd (ps_paired_users ps)"

definition active_codes :: "int \<Rightarrow> pairing_service \<Rightarrow> pairing_code list" where
  "active_codes now ps = filter (code_is_valid now) (map snd (ps_codes ps))"

definition ps_cleanup :: "int \<Rightarrow> pairing_service \<Rightarrow> pairing_service" where
  "ps_cleanup now ps =
     ps\<lparr>ps_codes := filter (\<lambda>e. \<not> pc_used (snd e) \<and> now < pc_expires_at (snd e)) (ps_codes ps),
        ps_lockouts := filter (\<lambda>e. is_locked now (snd e)) (ps_lockouts ps)\<rparr>"

section \<open>Sequences of calls\<close>

datatype ps_op =
    PsGenerate string int
  | PsValidate string string string int
  | PsRestore "paired_user list"
  | PsCleanup int

fun ps_apply :: "ps_op \<Rightarrow> pairing_service \<Rightarrow> pairing_service" where
  "ps_apply (PsGenerate c t) ps = generate_code c t ps"
| "ps_apply (PsValidate u c ch t) ps = fst (validate_code u c ch t ps)"
| "ps_apply (PsRestore us) ps = restore_paired_users us ps"
| "ps_apply (PsCleanup t) ps = ps_cleanup t ps"

fun op_time :: "ps_op \<Rightarrow> int option" where
  "op_time (PsGenerate c t) = Some t"
| "op_time (PsValidate u c ch t) = Some t"
| "op_time (PsRestore us) = None"
| "op_time (PsCleanup t) = Some t"

fun generates :: "string \<Rightarrow> ps_op \<Rightarrow> bool" where
  "generates c (PsGenerate c' t) = (c' = c)"
| "generates c _ = False"

lemma dict_get_filter_val:
  "dict_ok d \<Longrightarrow> dict_get (filter (\<lambda>e. P (snd e)) d) k =
     (case dict_get d k of Some v \<Rightarrow> if P v then Some v else None | None \<Rightarrow> None)"
  by (induction d) (auto simp: dict_ok_def dict_get_def map_of_eq_None_iff split: option.splits)

lemma cleanup_get:
  "dict_ok (ps_codes ps) \<Longrightarrow> dict_get (ps_codes (ps_cleanup now ps)) c =
     (case dict_get (ps_codes ps) c of Some pc \<Rightarrow> if code_is_valid now pc then Some pc else None | None \<Rightarrow> None)"
  "dict_ok (ps_lockouts ps) \<Longrightarrow> dict_get (ps_lockouts (ps_cleanup now ps)) u =
     (case dict_get (ps_lockouts ps) u of Some li \<Rightarrow> if is_locked now li then Some li else None | None \<Rightarrow> None)"
  by (simp_all add: ps_cleanup_def code_is_valid_def
      dict_get_filter_val [where P = "\<lambda>pc. \<not> pc_used pc \<and> now < pc_expires_at pc"]
      dict_get_filter_val [where P = "is_locked now"] split: option.split)

section \<open>Well-formedness\<close>

text \<open>
  Maps have distinct keys and a user who is not locked has at most two failures on record, so the
  counter, a \<open>u32\<close> in the source, never exceeds three.
\<close>

definition ps_inv :: "pairing_service \<Rightarrow> bool" where
  "ps_inv ps \<longleftrightarrow> dict_ok (ps_codes ps) \<and> dict_ok (ps_lockouts ps) \<and>
     (\<forall>u li. dict_get (ps_lockouts ps) u = Some li \<longrightarrow>
        li_failed_attempts li \<le> max_pairing_attempts \<and>
        (li_locked_until li = None \<longrightarrow> li_failed_attempts li < max_pairing_attempts))"

lemma record_failure_inv:
  assumes "ps_inv ps" "\<forall>li. dict_get (ps_lockouts ps) u = Some li \<longrightarrow> \<not> is_locked now li"
  shows "ps_inv (fst (record_failure u now ps))"
proof -
  let ?li = "case dict_get (ps_lockouts ps) u of Some li \<Rightarrow> li | None \<Rightarrow> lockout_new"
  have "\<not> is_locked now ?li" "li_locked_until ?li = None \<Longrightarrow> li_failed_attempts ?li < max_pairing_attempts"
    using assms by (auto simp: ps_inv_def lockout_new_def is_locked_def max_pairing_attempts_def split: option.splits)
  then show ?thesis
    using assms(1)
    by (auto simp: record_failure_def Let_def ps_inv_def lockout_new_def max_pairing_attempts_def)
qed

lemma validate_inv: "ps_inv ps \<Longrightarrow> ps_inv (fst (validate_code u c ch now ps))"
proof -
  assume inv: "ps_inv ps"
  show ?thesis
  proof (cases "\<exists>li. dict_get (ps_lockouts ps) u = Some li \<and> is_locked now li")
    case True
    then show ?thesis using inv by (auto simp: validate_code_def validate_read_def validate_write_def)
  next
    case False
    then have r: "validate_read u c now ps = Inr (dict_get (ps_codes ps) c)"
      by (auto simp: validate_read_def split: option.splits)
    show ?thesis
      using inv record_failure_inv [OF inv, of u now] False
      by (auto simp: validate_code_def r validate_write_def ps_inv_def mark_used_def split: option.splits)
  qed
qed

lemma ps_apply_inv: "ps_inv ps \<Longrightarrow> ps_inv (ps_apply op ps)"
proof (cases op)
  case (PsValidate u c ch t)
  then show "ps_inv ps \<Longrightarrow> ?thesis" by (simp add: validate_inv)
qed (auto simp: generate_code_def restore_paired_users_def ps_cleanup_def ps_inv_def
      dict_ok_filter dict_get_filter_val split: option.splits if_splits)

lemma ps_inv_new: "ps_inv ps_new"
  by (simp add: ps_inv_def ps_new_def)

interpretation ps: operation_machine ps_new ps_apply ps_inv
  by unfold_locales (auto intro: ps_inv_new ps_apply_inv)

section \<open>Codes are spent\<close>

definition spent :: "string \<Rightarrow> pairing_service \<Rightarrow> bool" where
  "spent c ps \<longleftrightarrow> (case dict_get (ps_codes ps) c of None \<Rightarrow> True | Some pc \<Rightarrow> pc_used pc)"

lemma validate_codes:
  "ps_codes (fst (validate_code u c ch now ps)) =
     (if snd (validate_code u c ch now ps) = Success then mark_used c (ps_codes ps) else ps_codes ps)"
  by (auto simp: validate_code_def validate_read_def validate_write_def record_failure_def Let_def
      split: option.splits)

lemma get_mark_used:
  "dict_get (mark_used c codes) k =
     (if k = c then map_option (\<lambda>pc. pc\<lparr>pc_used := True\<rparr>) (dict_get codes c) else dict_get codes k)"
  by (auto simp: mark_used_def split: option.splits)

lemma spent_not_success: "spent c ps \<Longrightarrow> snd (validate_code u c ch now ps) \<noteq> Success"
  by (auto simp: spent_def validate_code_def validate_read_def validate_write_def record_failure_def Let_def
      split: option.splits)

lemma success_spends: "snd (validate_code u c ch now ps) = Success \<Longrightarrow> spent c (fst (validate_code u c ch now ps))"
  by (auto simp: spent_def validate_codes get_mark_used split: option.splits)

lemma spent_step: "\<lbrakk>ps_inv ps; spent c ps; \<not> generates c op\<rbrakk> \<Longrightarrow> spent c (ps_apply op ps)"
  by (cases op)
    (auto simp: spent_def generate_code_def restore_paired_users_def cleanup_get validate_codes get_mark_used
      code_is_valid_def ps_inv_def split: option.splits if_splits)

lemma spent_run:
  "\<lbrakk>ps_inv ps; spent c ps; \<forall>op\<in>set ops. \<not> generates c op\<rbrakk> \<Longrightarrow> spent c (fold ps_apply ops ps)"
  by (induction ops arbitrary: ps) (auto simp: ps_apply_inv spent_step)

section \<open>Lockouts hold\<close>

definition locked_until :: "string \<Rightarrow> int \<Rightarrow> pairing_service \<Rightarrow> bool" where
  "locked_until u l ps \<longleftrightarrow> (\<exists>li. dict_get (ps_lockouts ps) u = Some li \<and> li_locked_until li = Some l)"

lemma locked_until_refuses:
  "\<lbrakk>locked_until u l ps; now < l\<rbrakk> \<Longrightarrow> validate_code u c ch now ps = (ps, Locked l)"
  by (auto simp: locked_until_def validate_code_def validate_read_def validate_write_def is_locked_def)

lemma validate_other_lockout:
  "u \<noteq> v \<Longrightarrow> dict_get (ps_lockouts (fst (validate_code v c ch now ps))) u = dict_get (ps_lockouts ps) u"
  by (auto simp: validate_code_def validate_read_def validate_write_def record_failure_def Let_def
      split: option.splits)

lemma locked_step:
  assumes "ps_inv ps" "locked_until u l ps" "\<forall>t. op_time op = Some t \<longrightarrow> t < l"
  shows "locked_until u l (ps_apply op ps)"
proof (cases op)
  case (PsValidate v c ch t)
  then show ?thesis
    using assms locked_until_refuses [OF assms(2), of t c ch] validate_other_lockout [of u v c ch t ps]
    by (cases "v = u") (auto simp: locked_until_def)
qed (use assms in \<open>auto simp: locked_until_def generate_code_def restore_paired_users_def cleanup_get
       ps_inv_def is_locked_def\<close>)

lemma locked_run:
  "\<lbrakk>ps_inv ps; locked_until u l ps; \<forall>op\<in>set ops. \<forall>t. op_time op = Some t \<longrightarrow> t < l\<rbrakk>
   \<Longrightarrow> locked_until u l (fold ps_apply ops ps)"
  by (induction ops arbitrary: ps) (auto simp: ps_apply_inv locked_step)

lemma Locked_locks:
  "validate_code u c ch now ps = (ps', Locked l) \<Longrightarrow> locked_until u l ps'"
  by (auto simp: locked_until_def validate_code_def validate_read_def validate_write_def record_failure_def
      Let_def is_locked_def split: option.splits if_splits)

section \<open>The guess budget\<close>

fun guesses :: "string \<Rightarrow> string \<Rightarrow> (string \<times> int) list \<Rightarrow> pairing_service \<Rightarrow> pairing_result list" where
  "guesses u ch [] ps = []"
| "guesses u ch ((c, t) # gs) ps =
     snd (validate_code u c ch t ps) # guesses u ch gs (fst (validate_code u c ch t ps))"

fun is_invalid :: "pairing_result \<Rightarrow> bool" where
  "is_invalid (InvalidCode n) = True"
| "is_invalid _ = False"

text \<open>Wrong guesses a user has left in a window that ends at \<open>e\<close>.\<close>

definition budget :: "string \<Rightarrow> int \<Rightarrow> pairing_service \<Rightarrow> nat" where
  "budget u e ps =
     (case dict_get (ps_lockouts ps) u of
        None \<Rightarrow> 2
      | Some li \<Rightarrow> (case li_locked_until li of
          None \<Rightarrow> 2 - li_failed_attempts li
        | Some l \<Rightarrow> if l \<ge> e then 0 else 2))"

lemma budget_step:
  assumes "ps_inv ps" "e \<le> t + lockout_time" "t < e" "snd (validate_code u c ch t ps) \<noteq> Success"
  shows "budget u e (fst (validate_code u c ch t ps)) + (if is_invalid (snd (validate_code u c ch t ps)) then 1 else 0)
    \<le> budget u e ps"
proof (cases "dict_get (ps_lockouts ps) u")
  case None
  then show ?thesis
    using assms
    by (auto simp: validate_code_def validate_read_def validate_write_def record_failure_def Let_def
        lockout_new_def is_locked_def max_pairing_attempts_def budget_def split: option.splits)
next
  case (Some li)
  have f: "li_locked_until li = None \<Longrightarrow> li_failed_attempts li < 3"
    using assms(1) Some by (auto simp: ps_inv_def max_pairing_attempts_def)
  show ?thesis
    using assms Some f
    by (auto simp: validate_code_def validate_read_def validate_write_def record_failure_def Let_def
        lockout_new_def is_locked_def max_pairing_attempts_def budget_def split: option.splits if_splits)
qed

lemma budget_le: "budget u e ps \<le> 2"
  by (auto simp: budget_def split: option.splits)

lemma guesses_budget:
  assumes "ps_inv ps" "\<forall>g\<in>set gs. snd g < e \<and> e \<le> snd g + lockout_time" "Success \<notin> set (guesses u ch gs ps)"
  shows "length (filter is_invalid (guesses u ch gs ps)) \<le> budget u e ps"
  using assms
proof (induction gs arbitrary: ps)
  case (Cons g gs)
  obtain c t where g: "g = (c, t)" by (cases g)
  have "budget u e (fst (validate_code u c ch t ps)) + (if is_invalid (snd (validate_code u c ch t ps)) then 1 else 0)
    \<le> budget u e ps"
    using Cons.prems by (intro budget_step) (auto simp: g)
  moreover have "length (filter is_invalid (guesses u ch gs (fst (validate_code u c ch t ps))))
    \<le> budget u e (fst (validate_code u c ch t ps))"
    using Cons.prems by (intro Cons.IH) (auto simp: g validate_inv)
  ultimately show ?case by (cases "is_invalid (snd (validate_code u c ch t ps))") (auto simp: g)
qed simp

section \<open>Properties\<close>

definition demo_code :: pairing_service where
  "demo_code = generate_code ''ABC234'' 0 ps_new"

text \<open>
  A pairing code is single-use for calls that do not overlap: once a call has succeeded with it, no later
  call does, by whatever user and after whatever sequence of calls, unless the same code is generated again.
\<close>

theorem code_single_use:
  assumes "ps = fold ps_apply pre ps_new" and "validate_code u c ch t ps = (ps', Success)"
    and "\<forall>op\<in>set ops. \<not> generates c op"
  shows "snd (validate_code v c ch' t' (fold ps_apply ops ps')) \<noteq> Success"
proof (rule spent_not_success [OF spent_run])
  have inv: "ps_inv ps" unfolding assms(1) by (rule ps.run_ok)
  then show "ps_inv ps'" using validate_inv [of ps u c ch t] assms(2) by simp
  show "spent c ps'" using success_spends [of u c ch t ps] assms(2) by simp
qed (use assms in auto)

theorem code_single_use_witness:
  "snd (validate_code ''u1'' ''ABC234'' ''slack'' 5 demo_code) = Success \<and>
   snd (validate_code ''u2'' ''ABC234'' ''slack'' 6 (fst (validate_code ''u1'' ''ABC234'' ''slack'' 5 demo_code))) \<noteq> Success"
proof -
  have d: "demo_code = fold ps_apply [PsGenerate ''ABC234'' 0] ps_new" by (simp add: demo_code_def)
  obtain ps' where v: "validate_code ''u1'' ''ABC234'' ''slack'' 5 demo_code = (ps', Success)"
    by (simp add: demo_code_def generate_code_def ps_new_def validate_code_def validate_read_def validate_write_def
        code_is_valid_def code_expiry_def)
  from code_single_use [OF d v, of "[]" "''u2''" "''slack''" 6] v show ?thesis by simp
qed

text \<open>
  Once a call is answered with a lockout, every call of that user before the lockout ends is
  answered with the same lockout, with the right code too, whatever other calls, cleanups and
  restores happen in between.
\<close>

theorem lockout_holds:
  assumes "ps = fold ps_apply pre ps_new" and "validate_code u c ch t ps = (ps', Locked l)"
    and "\<forall>op\<in>set ops. \<forall>t. op_time op = Some t \<longrightarrow> t < l" and "t' < l"
  shows "snd (validate_code u c' ch' t' (fold ps_apply ops ps')) = Locked l"
proof -
  have "ps_inv ps" unfolding assms(1) by (rule ps.run_ok)
  then have "ps_inv ps'" using validate_inv [of ps u c ch t] assms(2) by simp
  from locked_until_refuses [OF locked_run [OF this Locked_locks [OF assms(2)] assms(3)] assms(4)]
  show ?thesis by simp
qed

theorem lockout_holds_witness:
  "\<exists>l > 3. let ps = fold ps_apply [PsGenerate ''ABC234'' 0, PsValidate ''u'' ''x'' ''slack'' 1, PsValidate ''u'' ''y'' ''slack'' 2] ps_new
    in snd (validate_code ''u'' ''z'' ''slack'' 3 ps) = Locked l \<and>
       snd (validate_code ''u'' ''ABC234'' ''slack'' 4 (fst (validate_code ''u'' ''z'' ''slack'' 3 ps))) = Locked l"
proof -
  let ?pre = "[PsGenerate ''ABC234'' 0, PsValidate ''u'' ''x'' ''slack'' 1, PsValidate ''u'' ''y'' ''slack'' 2]"
  let ?ps = "fold ps_apply ?pre ps_new"
  obtain ps' where v: "validate_code ''u'' ''z'' ''slack'' 3 ?ps = (ps', Locked (3 + lockout_time))"
    by (simp add: generate_code_def ps_new_def validate_code_def validate_read_def validate_write_def
        record_failure_def Let_def lockout_new_def is_locked_def max_pairing_attempts_def)
  have l: "4 < 3 + lockout_time" by (simp add: lockout_time_def)
  have "snd (validate_code ''u'' ''ABC234'' ''slack'' 4 (fold ps_apply [] ps')) = Locked (3 + lockout_time)"
    by (rule lockout_holds [OF refl v _ l]) simp
  then show ?thesis
    using v l by (intro exI [of _ "3 + lockout_time"]) (simp add: Let_def del: fold_simps(2))
qed

text \<open>
  In any window of fifteen minutes a user who does not succeed is told at most twice that a code
  is invalid; every further wrong guess is answered with a lockout.
\<close>

theorem guesses_bounded:
  assumes "ps = fold ps_apply pre ps_new" and "\<forall>g\<in>set gs. t0 \<le> snd g \<and> snd g < t0 + lockout_time"
    and "Success \<notin> set (guesses u ch gs ps)"
  shows "length (filter is_invalid (guesses u ch gs ps)) \<le> 2"
proof -
  have "ps_inv ps" unfolding assms(1) by (rule ps.run_ok)
  from guesses_budget [OF this _ assms(3), of "t0 + lockout_time"] assms(2) budget_le
  show ?thesis by (meson order.trans add_right_mono)
qed

theorem guesses_bounded_witness:
  "length (filter is_invalid (guesses ''u'' ''slack'' [(''a'', 1), (''b'', 2), (''c'', 3), (''d'', 4)] ps_new)) = 2"
proof -
  let ?gs = "[(''a'', 1), (''b'', 2), (''c'', 3), (''d'', 4)] :: (string \<times> int) list"
  have g: "guesses ''u'' ''slack'' ?gs ps_new = [InvalidCode 2, InvalidCode 1, Locked (3 + lockout_time), Locked (3 + lockout_time)]"
    by (simp add: ps_new_def validate_code_def validate_read_def validate_write_def lockout_time_def
        record_failure_def Let_def lockout_new_def is_locked_def max_pairing_attempts_def)
  have "length (filter is_invalid (guesses ''u'' ''slack'' ?gs ps_new)) \<le> 2"
  proof (rule guesses_bounded [of _ "[]" _ 0])
    show "Success \<notin> set (guesses ''u'' ''slack'' ?gs ps_new)" unfolding g by simp
  qed (simp_all add: lockout_time_def)
  then show ?thesis unfolding g by simp
qed

text \<open>
  The reads and the writes of a validation are separate critical sections: when two users
  present the same fresh code and both reads come before the first write, both calls succeed and
  both users end up paired by one single-use code.
\<close>

theorem concurrent_double_use:
  assumes "dict_get (ps_codes ps) c = Some pc" and "code_is_valid t pc" and "u \<noteq> v"
    and "dict_get (ps_lockouts ps) u = None" and "dict_get (ps_lockouts ps) v = None"
  shows "let ru = validate_read u c t ps; rv = validate_read v c t ps;
             (ps1, resu) = validate_write u c chu t ru ps;
             (ps2, resv) = validate_write v c chv t rv ps1
         in resu = Success \<and> resv = Success \<and> has_paired ps2 u \<and> has_paired ps2 v"
  using assms
  by (auto simp: Let_def validate_read_def validate_write_def code_is_valid_def has_paired_def dict_has_def)

theorem concurrent_double_use_witness:
  "let ru = validate_read ''u'' ''ABC234'' 5 demo_code; rv = validate_read ''v'' ''ABC234'' 5 demo_code;
       (ps1, resu) = validate_write ''u'' ''ABC234'' ''slack'' 5 ru demo_code;
       (ps2, resv) = validate_write ''v'' ''ABC234'' ''slack'' 5 rv ps1
   in resu = Success \<and> resv = Success \<and> has_paired ps2 ''u'' \<and> has_paired ps2 ''v''"
  by (rule concurrent_double_use [where pc =
      "\<lparr>pc_code = ''ABC234'', pc_created_at = 0, pc_expires_at = code_expiry, pc_used = False\<rparr>"])
    (simp_all add: demo_code_def generate_code_def ps_new_def code_is_valid_def code_expiry_def)

section \<open>Overlapping calls\<close>

text \<open>
  A call of \<open>validate_code\<close> before each of its locks: the lockouts and the codes are read, the code is marked (or
  the failure recorded), the user is entered, the lockout is removed.
\<close>

datatype validation_phase = AtLockout | AtLookup | AtDecision "pairing_code option" | AtPairing | AtReset | Finished pairing_result

record validation =
  va_user :: string
  va_code :: string
  va_channel :: string
  va_phase :: validation_phase

definition validation_start :: "string \<Rightarrow> string \<Rightarrow> string \<Rightarrow> validation" where
  "validation_start u c ch = \<lparr>va_user = u, va_code = c, va_channel = ch, va_phase = AtLockout\<rparr>"

definition validation_step :: "int \<Rightarrow> validation \<Rightarrow> pairing_service \<Rightarrow> validation \<times> pairing_service" where
  "validation_step now v ps = (case va_phase v of
     AtLockout \<Rightarrow> (case dict_get (ps_lockouts ps) (va_user v) of
         Some li \<Rightarrow> if is_locked now li then (v\<lparr>va_phase := Finished (Locked (the (li_locked_until li)))\<rparr>, ps)
                    else (v\<lparr>va_phase := AtLookup\<rparr>, ps)
       | None \<Rightarrow> (v\<lparr>va_phase := AtLookup\<rparr>, ps))
   | AtLookup \<Rightarrow> (v\<lparr>va_phase := AtDecision (dict_get (ps_codes ps) (va_code v))\<rparr>, ps)
   | AtDecision None \<Rightarrow> (case record_failure (va_user v) now ps of (ps', r) \<Rightarrow> (v\<lparr>va_phase := Finished r\<rparr>, ps'))
   | AtDecision (Some pc) \<Rightarrow>
       if pc_used pc then (v\<lparr>va_phase := Finished AlreadyUsed\<rparr>, ps)
       else if \<not> code_is_valid now pc then (v\<lparr>va_phase := Finished Expired\<rparr>, ps)
       else (v\<lparr>va_phase := AtPairing\<rparr>, ps\<lparr>ps_codes := mark_used (va_code v) (ps_codes ps)\<rparr>)
   | AtPairing \<Rightarrow> (v\<lparr>va_phase := AtReset\<rparr>,
       ps\<lparr>ps_paired_users := dict_put (va_user v)
            \<lparr>pu_user_id = va_user v, pu_paired_at = now, pu_channel_type = va_channel v\<rparr> (ps_paired_users ps)\<rparr>)
   | AtReset \<Rightarrow> (v\<lparr>va_phase := Finished Success\<rparr>, ps\<lparr>ps_lockouts := dict_del (va_user v) (ps_lockouts ps)\<rparr>)
   | Finished r \<Rightarrow> (v, ps))"

text \<open>
  The service with the calls that have begun. The other operations of the service are single sections of one lock
  each; an uninterrupted validation is among them.
\<close>

record overlapping =
  ol_service :: pairing_service
  ol_calls :: "(nat \<times> validation) list"

datatype overlap_event = CallBegins nat string string string | CallSteps nat int | Serves ps_op

fun overlap_apply :: "overlap_event \<Rightarrow> overlapping \<Rightarrow> overlapping" where
  "overlap_apply (CallBegins i u c ch) s =
     (if dict_has (ol_calls s) i then s else s\<lparr>ol_calls := dict_put i (validation_start u c ch) (ol_calls s)\<rparr>)"
| "overlap_apply (CallSteps i now) s = (case dict_get (ol_calls s) i of
       None \<Rightarrow> s
     | Some v \<Rightarrow> (case validation_step now v (ol_service s) of
         (v', ps) \<Rightarrow> s\<lparr>ol_service := ps, ol_calls := dict_put i v' (ol_calls s)\<rparr>))"
| "overlap_apply (Serves op) s = s\<lparr>ol_service := ps_apply op (ol_service s)\<rparr>"

definition overlap_start :: overlapping where
  "overlap_start = \<lparr>ol_service = ps_new, ol_calls = []\<rparr>"

fun regenerates :: "string \<Rightarrow> overlap_event \<Rightarrow> bool" where
  "regenerates c (Serves op) = generates c op"
| "regenerates c _ = False"

text \<open>Left alone, the steps of a call are the uninterrupted call.\<close>

lemma validation_alone:
  "((\<lambda>(v, ps). validation_step now v ps) ^^ 5) (validation_start u c ch, ps) =
     (case validate_code u c ch now ps of (ps', r) \<Rightarrow> ((validation_start u c ch)\<lparr>va_phase := Finished r\<rparr>, ps'))"
  by (simp add: numeral_eq_Suc validation_step_def validation_start_def validate_code_def validate_read_def
      validate_write_def split: option.split prod.split)

definition pairs :: "validation \<Rightarrow> bool" where
  "pairs v \<longleftrightarrow> va_phase v \<in> {AtPairing, AtReset, Finished Success}"

text \<open>A call that can no longer pair with a code that is spent: it has not looked it up yet, or saw that it is.\<close>

definition harmless :: "validation \<Rightarrow> bool" where
  "harmless v \<longleftrightarrow> (case va_phase v of
     AtLockout \<Rightarrow> True | AtLookup \<Rightarrow> True | AtDecision None \<Rightarrow> True | AtDecision (Some pc) \<Rightarrow> pc_used pc
   | AtPairing \<Rightarrow> False | AtReset \<Rightarrow> False | Finished r \<Rightarrow> r \<noteq> Success)"

definition late_to_look :: "validation option \<Rightarrow> bool" where
  "late_to_look v \<longleftrightarrow> (case v of None \<Rightarrow> True | Some v \<Rightarrow> va_phase v \<in> {AtLockout, AtLookup})"

lemma harmless_pairs: "harmless v \<Longrightarrow> \<not> pairs v"
  by (auto simp: harmless_def pairs_def)

lemma record_failure_codes [simp]: "ps_codes (fst (record_failure u now ps)) = ps_codes ps"
  by (simp add: record_failure_def Let_def)

lemma record_failure_not_Success [simp]: "snd (record_failure u now ps) \<noteq> Success"
  by (simp add: record_failure_def Let_def)

lemma validation_step_codes:
  "ps_codes (snd (validation_step now v ps)) \<in> {ps_codes ps, mark_used (va_code v) (ps_codes ps)}"
  by (auto simp: validation_step_def split: validation_phase.split option.split prod.split)
    (metis fst_conv record_failure_codes)+

lemma validation_step_code [simp]: "va_code (fst (validation_step now v ps)) = va_code v"
  by (simp add: validation_step_def split: validation_phase.split option.split prod.split)

lemma validation_step_harmless:
  assumes "harmless v" "spent (va_code v) ps"
  shows "harmless (fst (validation_step now v ps))"
  using assms
  by (auto simp: validation_step_def harmless_def spent_def split: validation_phase.splits option.splits prod.splits)
    (metis record_failure_not_Success snd_conv)+

lemma dict_ok_mark_used: "dict_ok d \<Longrightarrow> dict_ok (mark_used c d)"
  by (simp add: mark_used_def split: option.split)

lemma spent_mark_used: "spent c ps \<Longrightarrow> ps_codes ps' \<in> {ps_codes ps, mark_used k (ps_codes ps)} \<Longrightarrow> spent c ps'"
  by (auto simp: spent_def get_mark_used split: option.splits if_splits)

text \<open>The codes keep distinct keys, whatever overlaps.\<close>

lemma ps_apply_dict_ok: "dict_ok (ps_codes ps) \<Longrightarrow> dict_ok (ps_codes (ps_apply op ps))"
  by (cases op) (auto simp: generate_code_def restore_paired_users_def ps_cleanup_def dict_ok_filter validate_codes
      dict_ok_mark_used)

lemma overlap_dict_ok: "dict_ok (ps_codes (ol_service s)) \<Longrightarrow> dict_ok (ps_codes (ol_service (overlap_apply e s)))"
proof (cases e)
  case (CallSteps i now)
  then show "dict_ok (ps_codes (ol_service s)) \<Longrightarrow> ?thesis"
    using validation_step_codes [of now _ "ol_service s"]
    by (auto simp: dict_ok_mark_used split: option.split prod.split) (metis dict_ok_mark_used snd_conv)
qed (simp_all add: ps_apply_dict_ok)

interpretation overlap: operation_machine overlap_start overlap_apply "\<lambda>s. dict_ok (ps_codes (ol_service s))"
  by unfold_locales (simp_all add: overlap_start_def ps_new_def overlap_dict_ok)

lemma spent_apply: "\<lbrakk>dict_ok (ps_codes ps); spent c ps; \<not> generates c op\<rbrakk> \<Longrightarrow> spent c (ps_apply op ps)"
  by (cases op)
    (auto simp: spent_def generate_code_def restore_paired_users_def cleanup_get validate_codes get_mark_used
      code_is_valid_def split: option.splits if_splits)

definition spent_for :: "nat \<Rightarrow> string \<Rightarrow> overlapping \<Rightarrow> bool" where
  "spent_for j c s \<longleftrightarrow> dict_ok (ps_codes (ol_service s)) \<and> spent c (ol_service s)
     \<and> (\<forall>v. dict_get (ol_calls s) j = Some v \<and> va_code v = c \<longrightarrow> harmless v)"

lemma spent_for_step:
  assumes "spent_for j c s" "\<not> regenerates c e"
  shows "spent_for j c (overlap_apply e s)"
proof (cases e)
  case (CallBegins i u k ch)
  then show ?thesis using assms by (auto simp: spent_for_def validation_start_def harmless_def)
next
  case (Serves op)
  then show ?thesis using assms by (auto simp: spent_for_def ps_apply_dict_ok spent_apply)
next
  case (CallSteps i now)
  show ?thesis
  proof (cases "dict_get (ol_calls s) i")
    case None
    then show ?thesis using assms by (simp add: CallSteps)
  next
    case (Some v)
    obtain v' ps where st: "validation_step now v (ol_service s) = (v', ps)" by fastforce
    have codes: "ps_codes ps \<in> {ps_codes (ol_service s), mark_used (va_code v) (ps_codes (ol_service s))}"
      using validation_step_codes [of now v "ol_service s"] by (simp add: st)
    have "harmless v'" if "i = j" "va_code v' = c"
    proof -
      have "va_code v = c" using that(2) validation_step_code [of now v "ol_service s"] by (simp add: st)
      then show ?thesis
        using validation_step_harmless [of v "ol_service s" now] assms(1) that(1) Some by (auto simp: spent_for_def st)
    qed
    moreover have "dict_ok (ps_codes ps)" "spent c ps"
      using codes assms(1) spent_mark_used [of c "ol_service s" ps "va_code v"]
      by (auto simp: spent_for_def dict_ok_mark_used)
    ultimately show ?thesis using assms(1) by (auto simp: spent_for_def CallSteps Some st)
  qed
qed

lemma spent_for_run:
  "\<lbrakk>spent_for j c s; \<forall>e\<in>set es. \<not> regenerates c e\<rbrakk> \<Longrightarrow> spent_for j c (fold overlap_apply es s)"
  by (induction es arbitrary: s) (auto simp: spent_for_step)

text \<open>
  C9. A pairing code is single-use, also when calls overlap lock by lock in any way: once some call has marked it as
  used, no call that had not looked the code up by then pairs anyone with it, whatever happens afterwards, unless
  the same code is generated again. (A call that had looked it up before still pairs: see below.)
\<close>

theorem marked_code_is_single_use:
  assumes "s = fold overlap_apply pre overlap_start" "dict_get (ol_calls s) i = Some v" "va_phase v = AtDecision seen"
    and "s' = overlap_apply (CallSteps i now) s" "dict_get (ol_calls s') i = Some w" "va_phase w = AtPairing"
    and "late_to_look (dict_get (ol_calls s') j)" "\<forall>e\<in>set es. \<not> regenerates (va_code v) e"
    and "dict_get (ol_calls (fold overlap_apply es s')) j = Some x" "va_code x = va_code v"
  shows "\<not> pairs x"
proof -
  have ok: "dict_ok (ps_codes (ol_service s))" unfolding assms(1) by (rule overlap.run_ok)
  obtain pc where pc: "seen = Some pc" "\<not> pc_used pc" "code_is_valid now pc"
    using assms(2-6) record_failure_not_Success
    by (cases seen) (auto simp: validation_step_def split: prod.splits if_splits)
  then have s': "ol_service s' = (ol_service s)\<lparr>ps_codes := mark_used (va_code v) (ps_codes (ol_service s))\<rparr>"
    using assms(2-4) by (simp add: validation_step_def)
  have "spent_for j (va_code v) s'"
    using assms(7) ok
    by (auto simp: spent_for_def s' dict_ok_mark_used spent_def get_mark_used late_to_look_def harmless_def split: option.splits)
  from spent_for_run [OF this assms(8)] assms(9,10) show ?thesis by (auto simp: spent_for_def harmless_pairs)
qed

definition demo_overlap :: "overlap_event list" where
  "demo_overlap = [Serves (PsGenerate ''ABC234'' 0), CallBegins 1 ''u'' ''ABC234'' ''slack'', CallSteps 1 5, CallSteps 1 6,
     CallBegins 2 ''v'' ''ABC234'' ''slack'', CallSteps 2 6]"

lemmas overlap_eval = overlap_start_def ps_new_def generate_code_def dict_has_def validation_start_def
  validation_step_def code_is_valid_def code_expiry_def mark_used_def

theorem marked_code_is_single_use_witness:
  "let s' = overlap_apply (CallSteps 1 7) (fold overlap_apply demo_overlap overlap_start);
       t = fold overlap_apply [CallSteps 2 8, CallSteps 2 9, CallSteps 1 10, CallSteps 1 11] s'
   in map_option va_phase (dict_get (ol_calls t) 1) = Some (Finished Success)
      \<and> map_option pairs (dict_get (ol_calls t) 2) = Some False"
proof -
  let ?s = "fold overlap_apply demo_overlap overlap_start"
  let ?s' = "overlap_apply (CallSteps 1 7) ?s"
  let ?es = "[CallSteps 2 8, CallSteps 2 9, CallSteps 1 10, CallSteps 1 11]"
  let ?t = "fold overlap_apply ?es ?s'"
  obtain v seen where v: "dict_get (ol_calls ?s) 1 = Some v" "va_phase v = AtDecision seen" "va_code v = ''ABC234''"
    by (simp add: demo_overlap_def overlap_eval)
  obtain w where w: "dict_get (ol_calls ?s') 1 = Some w" "va_phase w = AtPairing"
    by (simp add: demo_overlap_def overlap_eval)
  have l: "late_to_look (dict_get (ol_calls ?s') 2)"
    by (simp add: demo_overlap_def overlap_eval late_to_look_def)
  obtain x where x: "dict_get (ol_calls ?t) 2 = Some x" "va_code x = ''ABC234''"
    by (simp add: demo_overlap_def overlap_eval)
  have "\<not> pairs x"
    using marked_code_is_single_use [OF refl v(1,2) refl w l _ x(1)] x(2) v(3) by simp
  moreover have "map_option va_phase (dict_get (ol_calls ?t) 1) = Some (Finished Success)"
    by (simp add: demo_overlap_def overlap_eval)
  ultimately show ?thesis using x(1) by (simp only: Let_def option.map simp_thms)
qed

end
