(* ===== verification/MessageGate.thy ===== *)
theory MessageGate
  imports AccessControl DmPairing
begin

text \<open>
  The entry of \<open>process_message\<close> in \<open>src/gateway.rs\<close>: the stop command, the access check, the
  pairing dialogue and the checks of scheduled messages, which decide whether a message reaches
  an agent. It joins the access bridge with the pairing service. Replies and metrics are output;
  the outcome names the reply.
\<close>

record gate =
  gt_access :: access_bridge
  gt_pairing :: pairing_service
  gt_active_requests :: "string list"

datatype gate_outcome =
    StopCancelled
  | NothingToStop
  | AccessDenied string
  | PairedOk
  | TooManyFailures
  | WrongCode
  | AskForCode
  | CronNoPairedUser
  | CronUserRefused
  | Proceed

definition is_stop_command :: "string \<Rightarrow> bool" where
  "is_stop_command t \<longleftrightarrow> eq_ignore_ascii_case (trim t) ''/stop'' \<or> eq_ignore_ascii_case (trim t) ''stop''"

definition handle_stop :: "inbound_message \<Rightarrow> gate \<Rightarrow> gate \<times> gate_outcome" where
  "handle_stop m g =
     (if im_sender_id m \<in> set (gt_active_requests g)
      then (g\<lparr>gt_active_requests := removeAll (im_sender_id m) (gt_active_requests g)\<rparr>, StopCancelled)
      else (g, NothingToStop))"

definition looks_like_code :: "string \<Rightarrow> bool" where
  "looks_like_code c \<longleftrightarrow> length c = 6 \<and> (\<forall>x\<in>set c. is_ascii_alphanumeric x)"

definition pairing_dialogue :: "inbound_message \<Rightarrow> int \<Rightarrow> gate \<Rightarrow> gate \<times> gate_outcome" where
  "pairing_dialogue m now g =
     (let code = trim (im_text m) in
      if looks_like_code code then
        (case validate_code (im_sender_id m) code (show_channel (im_channel_type m)) now (gt_pairing g) of
           (ps, Success) \<Rightarrow>
             (g\<lparr>gt_pairing := ps, gt_access := mark_paired (ai_canonical_id (map_identity m)) (gt_access g)\<rparr>, PairedOk)
         | (ps, Locked l) \<Rightarrow> (g\<lparr>gt_pairing := ps\<rparr>, TooManyFailures)
         | (ps, _) \<Rightarrow> (g\<lparr>gt_pairing := ps\<rparr>, WrongCode))
      else (g, AskForCode))"

definition access_gate :: "inbound_message \<Rightarrow> int \<Rightarrow> gate \<Rightarrow> gate \<times> gate_outcome" where
  "access_gate m now g =
     (case check_message_access (gt_access g) m of
        Allowed \<Rightarrow> (g, Proceed)
      | Denied reason \<Rightarrow> (g, AccessDenied reason)
      | RequiresPairing \<Rightarrow> pairing_dialogue m now g)"

definition cron_gate :: "inbound_message \<Rightarrow> gate \<Rightarrow> gate_outcome" where
  "cron_gate m g =
     (case filter (\<lambda>u. pu_channel_type u = show_channel (im_channel_type m)) (paired_users_list (gt_pairing g)) of
        [] \<Rightarrow> CronNoPairedUser
      | u # _ \<Rightarrow>
          if check_message_access (gt_access g) (m\<lparr>im_sender_id := pu_user_id u\<rparr>) = Allowed then Proceed
          else CronUserRefused)"

fun is_cron :: "message_source \<Rightarrow> bool" where
  "is_cron (FromCron j) = True"
| "is_cron _ = False"

definition process_entry :: "inbound_message \<Rightarrow> int \<Rightarrow> gate \<Rightarrow> gate \<times> gate_outcome" where
  "process_entry m now g =
     (if is_stop_command (im_text m) then handle_stop m g
      else if is_cron (im_source m) then (g, cron_gate m g)
      else access_gate m now g)"

fun run_gate :: "(inbound_message \<times> int) list \<Rightarrow> gate \<Rightarrow> gate \<times> gate_outcome list" where
  "run_gate [] g = (g, [])"
| "run_gate ((m, now) # ms) g =
     (let (g1, out) = process_entry m now g; (g2, outs) = run_gate ms g1 in (g2, out # outs))"

section \<open>What one message does\<close>

lemma process_entry_policies:
  "ab_channel_policies (gt_access (fst (process_entry m now g))) = ab_channel_policies (gt_access g)"
  "ab_default_policy (gt_access (fst (process_entry m now g))) = ab_default_policy (gt_access g)"
  by (auto simp: process_entry_def handle_stop_def access_gate_def pairing_dialogue_def Let_def mark_paired_def
      split: auth_decision.splits prod.splits pairing_result.splits)

lemma process_entry_paired:
  "ab_paired_users (gt_access (fst (process_entry m now g))) =
     (if snd (process_entry m now g) = PairedOk
      then insert (ai_canonical_id (map_identity m)) (ab_paired_users (gt_access g))
      else ab_paired_users (gt_access g))"
  by (auto simp: process_entry_def handle_stop_def cron_gate_def access_gate_def pairing_dialogue_def Let_def
      mark_paired_def split: auth_decision.splits prod.splits pairing_result.splits list.splits)

lemma policy_for_entry:
  "policy_for (gt_access (fst (process_entry m now g))) ch = policy_for (gt_access g) ch"
  by (simp add: policy_for_def process_entry_policies split: option.split)

lemma proceed_needs_paired:
  assumes "snd (process_entry m now g) = Proceed" "\<not> is_cron (im_source m)"
    "cp_dm_policy (policy_for (gt_access g) (im_channel_type m)) = Pairing"
  shows "ai_canonical_id (map_identity m) \<in> ab_paired_users (gt_access g)"
  using assms
  by (auto simp: process_entry_def handle_stop_def access_gate_def pairing_dialogue_def Let_def
      check_message_access_def evaluate_policy_def
      split: auth_decision.splits prod.splits pairing_result.splits if_splits)

lemma canonical_id_inj:
  "ai_canonical_id (map_identity m) = ai_canonical_id (map_identity n) \<longleftrightarrow>
     im_channel_type m = im_channel_type n \<and> im_sender_id m = im_sender_id n"
  by (simp add: map_identity_def show_channel_colon_inj)

lemma run_gate_length: "length (snd (run_gate ms g)) = length ms"
  by (induction ms g rule: run_gate.induct) (auto split: prod.splits)

lemma proceed_after_pairing:
  assumes "i < length ms" "snd (run_gate ms g) ! i = Proceed" "\<not> is_cron (im_source (fst (ms ! i)))"
    "cp_dm_policy (policy_for (gt_access g) (im_channel_type (fst (ms ! i)))) = Pairing"
    "ai_canonical_id (map_identity (fst (ms ! i))) \<notin> ab_paired_users (gt_access g)"
  shows "\<exists>j<i. snd (run_gate ms g) ! j = PairedOk \<and>
     im_channel_type (fst (ms ! j)) = im_channel_type (fst (ms ! i)) \<and>
     im_sender_id (fst (ms ! j)) = im_sender_id (fst (ms ! i))"
  using assms
proof (induction ms g arbitrary: i rule: run_gate.induct)
  case (1 g)
  then show ?case by simp
next
  case (2 m now ms g)
  let ?g = "fst (process_entry m now g)" and ?out = "snd (process_entry m now g)"
  have outs: "snd (run_gate ((m, now) # ms) g) = ?out # snd (run_gate ms ?g)"
    by (simp add: split_beta)
  show ?case
  proof (cases i)
    case 0
    then show ?thesis
      using 2(3-6) proceed_needs_paired [of m now g] outs by simp
  next
    case (Suc k)
    let ?n = "fst (ms ! k)"
    show ?thesis
    proof (cases "ai_canonical_id (map_identity ?n) \<in> ab_paired_users (gt_access ?g)")
      case True
      then have "?out = PairedOk" "ai_canonical_id (map_identity ?n) = ai_canonical_id (map_identity m)"
        using 2(6) Suc by (auto simp: process_entry_paired split: if_splits)
      then show ?thesis
        unfolding outs canonical_id_inj Suc by (intro exI [of _ 0]) simp
    next
      case False
      obtain out where pe: "process_entry m now g = (?g, out)" by (cases "process_entry m now g") simp
      have "\<exists>j<k. snd (run_gate ms ?g) ! j = PairedOk \<and>
          im_channel_type (fst (ms ! j)) = im_channel_type ?n \<and> im_sender_id (fst (ms ! j)) = im_sender_id ?n"
        by (rule 2(1) [OF pe [symmetric] refl]) (use 2(2-5) Suc outs False policy_for_entry [of m now g] in auto)
      then obtain j where "j < k" "snd (run_gate ms ?g) ! j = PairedOk"
          "im_channel_type (fst (ms ! j)) = im_channel_type ?n" "im_sender_id (fst (ms ! j)) = im_sender_id ?n"
        by blast
      then show ?thesis unfolding outs Suc by (intro exI [of _ "Suc j"]) simp
    qed
  qed
qed

section \<open>Properties\<close>

text \<open>
  C10. In any sequence of messages, a message that is not a scheduled one, on a channel with the pairing policy, from
  a sender who was not paired on this channel at the beginning, reaches an agent only if an earlier message of the
  same sender on the same channel completed the pairing dialogue. Scheduled messages do not have a sender to pair;
  they are checked against the paired users of their channel.
\<close>

theorem only_paired_senders_reach_agents:
  assumes "i < length ms" and "snd (run_gate ms g) ! i = Proceed" and "\<not> is_cron (im_source (fst (ms ! i)))"
    and "cp_dm_policy (policy_for (gt_access g) (im_channel_type (fst (ms ! i)))) = Pairing"
    and "\<not> is_paired (gt_access g) (ai_canonical_id (map_identity (fst (ms ! i))))"
  shows "\<exists>j<i. snd (run_gate ms g) ! j = PairedOk \<and>
     im_channel_type (fst (ms ! j)) = im_channel_type (fst (ms ! i)) \<and>
     im_sender_id (fst (ms ! j)) = im_sender_id (fst (ms ! i))"
  by (rule proceed_after_pairing) (use assms in \<open>simp_all add: is_paired_def\<close>)

definition demo_gate :: gate where
  "demo_gate = \<lparr>gt_access = ab_new \<lparr>as_auth = None, as_telegram = None, as_slack = None\<rparr>,
     gt_pairing = generate_code ''ABC234'' 0 ps_new, gt_active_requests = []\<rparr>"

definition demo_dialogue :: "(inbound_message \<times> int) list" where
  "demo_dialogue = [(plain_message Slack ''U1'' ''hello'', 1), (plain_message Slack ''U1'' ''ABC234'', 2),
     (plain_message Slack ''U1'' ''hello'', 3)]"

lemma demo_trim: "trim ''ABC234'' = ''ABC234''" "trim ''hello'' = ''hello''" "trim ''XYZ567'' = ''XYZ567''"
  by (simp_all add: trim_eval)

lemma demo_stop: "\<not> is_stop_command ''ABC234''" "\<not> is_stop_command ''hello''" "\<not> is_stop_command ''XYZ567''"
  by (simp_all add: is_stop_command_def demo_trim ascii_eval)

lemma demo_code: "looks_like_code ''ABC234''" "\<not> looks_like_code ''hello''" "looks_like_code ''XYZ567''"
  by (simp_all add: looks_like_code_def is_ascii_alphanumeric_def Let_def)

lemmas gate_simps = process_entry_def access_gate_def pairing_dialogue_def Let_def demo_trim demo_stop demo_code
  check_message_access_def policy_for_def ab_new_def build_channel_policies_def evaluate_policy_def
  map_identity_def plain_message_def mark_paired_def grant_def generate_code_def ps_new_def validate_code_def
  validate_read_def validate_write_def code_is_valid_def code_expiry_def mark_used_def

lemma demo_outcomes: "snd (run_gate demo_dialogue demo_gate) = [AskForCode, PairedOk, Proceed]"
  by (simp add: demo_dialogue_def demo_gate_def gate_simps)

theorem only_paired_senders_reach_agents_witness:
  "snd (run_gate demo_dialogue demo_gate) ! 2 = Proceed \<and>
   (\<exists>j<2. snd (run_gate demo_dialogue demo_gate) ! j = PairedOk)"
proof -
  have "\<exists>j<2. snd (run_gate demo_dialogue demo_gate) ! j = PairedOk \<and>
     im_channel_type (fst (demo_dialogue ! j)) = im_channel_type (fst (demo_dialogue ! 2)) \<and>
     im_sender_id (fst (demo_dialogue ! j)) = im_sender_id (fst (demo_dialogue ! 2))"
  proof (rule only_paired_senders_reach_agents)
    show "snd (run_gate demo_dialogue demo_gate) ! 2 = Proceed" by (simp add: demo_outcomes)
  qed (simp_all add: demo_dialogue_def plain_message_def demo_gate_def policy_for_def ab_new_def
         build_channel_policies_def is_paired_def)
  then show ?thesis by (auto simp: demo_outcomes)
qed

text \<open>
  The pairing service keeps one record per sender identifier, without the channel: after the
  same identifier is paired on a second channel, a scheduled message for the first channel is
  skipped for lack of a paired user, although the user still passes the access check there.
\<close>

theorem second_pairing_hides_first:
  "let g0 = demo_gate\<lparr>gt_pairing := generate_code ''XYZ567'' 0 (gt_pairing demo_gate)\<rparr>;
       g1 = fst (run_gate [(plain_message Slack ''1'' ''ABC234'', 1)] g0);
       g2 = fst (run_gate [(plain_message Discord ''1'' ''XYZ567'', 2)] g1);
       job = (plain_message Slack ''cron:1'' ''hello'')\<lparr>im_source := FromCron ''1''\<rparr>
   in snd (process_entry job 3 g1) = Proceed \<and> snd (process_entry job 3 g2) = CronNoPairedUser \<and>
      check_message_access (gt_access g2) (plain_message Slack ''1'' ''hello'') = Allowed"
  by (simp add: demo_gate_def gate_simps cron_gate_def paired_users_list_def)

end
