(* ===== verification/ModelConfig.thy ===== *)
theory ModelConfig
  imports Json
begin

text \<open>
  The model configuration of \<open>src/config.rs\<close> (\<open>ModelSpec\<close>, \<open>CategoryConfig\<close> with its hand-written
  serde code): resolution of a category, the fallback chains, and the JSON round trip.
\<close>

section \<open>Model specifications\<close>

datatype model_spec =
    Simple string
  | WithFallbacks (wf_primary: string) (wf_fallbacks: "string list")

fun spec_primary :: "model_spec \<Rightarrow> string" where
  "spec_primary (Simple s) = s"
| "spec_primary (WithFallbacks p _) = p"

record category_config =
  cc_primary :: model_spec
  cc_vision :: "string list option"
  cc_omni :: "string list option"
  cc_image_generation :: "string list option"
  cc_tts :: "string list option"
  cc_stt :: "string list option"
  cc_code :: "string list option"
  cc_embedding :: "string list option"
  cc_search :: "string list option"
  cc_music :: "string list option"

definition only_primary :: "model_spec \<Rightarrow> category_config" where
  "only_primary p = \<lparr>cc_primary = p, cc_vision = None, cc_omni = None, cc_image_generation = None,
     cc_tts = None, cc_stt = None, cc_code = None, cc_embedding = None, cc_search = None, cc_music = None\<rparr>"

definition default_model_config :: category_config where
  "default_model_config =
     (only_primary (WithFallbacks ''openai/gpt-5.4-mini'' [''openai/gpt-5.4-nano'']))
       \<lparr>cc_code := Some [''openai/codex-mini-latest'']\<rparr>"

definition first_or :: "string list option \<Rightarrow> string option" where
  "first_or opt = (case opt of Some (x # xs) \<Rightarrow> Some x | _ \<Rightarrow> None)"

definition or_else :: "'a option \<Rightarrow> 'a option \<Rightarrow> 'a option" where
  "or_else a b = (case a of Some x \<Rightarrow> Some x | None \<Rightarrow> b)"

definition resolve :: "category_config \<Rightarrow> string \<Rightarrow> string option" where
  "resolve c category =
     (if category = ''primary'' then Some (spec_primary (cc_primary c))
      else if category = ''vision'' then or_else (first_or (cc_vision c)) (first_or (cc_omni c))
      else if category = ''tts'' then or_else (first_or (cc_tts c)) (first_or (cc_omni c))
      else if category = ''stt'' then or_else (first_or (cc_stt c)) (first_or (cc_omni c))
      else if category = ''omni'' then first_or (cc_omni c)
      else if category = ''image_generation'' then first_or (cc_image_generation c)
      else if category = ''code'' then first_or (cc_code c)
      else if category = ''embedding'' then first_or (cc_embedding c)
      else if category = ''search'' then first_or (cc_search c)
      else if category = ''music'' then first_or (cc_music c)
      else None)"

definition non_empty :: "string list option \<Rightarrow> string list option" where
  "non_empty opt = (case opt of Some [] \<Rightarrow> None | _ \<Rightarrow> opt)"

definition resolve_chain :: "category_config \<Rightarrow> string \<Rightarrow> string list option" where
  "resolve_chain c category =
     non_empty
      (if category = ''primary'' then None
       else if category = ''vision'' then or_else (cc_vision c) (cc_omni c)
       else if category = ''tts'' then or_else (cc_tts c) (cc_omni c)
       else if category = ''stt'' then or_else (cc_stt c) (cc_omni c)
       else if category = ''omni'' then cc_omni c
       else if category = ''image_generation'' then cc_image_generation c
       else if category = ''code'' then cc_code c
       else if category = ''embedding'' then cc_embedding c
       else if category = ''search'' then cc_search c
       else if category = ''music'' then cc_music c
       else None)"

section \<open>Serialisation\<close>

text \<open>The derived, untagged serialisation of a specification.\<close>

fun spec_to_json :: "model_spec \<Rightarrow> json" where
  "spec_to_json (Simple s) = JStr s"
| "spec_to_json (WithFallbacks p fs) = JObj [(''primary'', JStr p), (''fallbacks'', JArr (map JStr fs))]"

definition serialize_vec :: "string \<Rightarrow> string list option \<Rightarrow> (string \<times> json) list" where
  "serialize_vec key val = (case val of Some (x # xs) \<Rightarrow> [(key, JArr (map JStr (x # xs)))] | _ \<Rightarrow> [])"

definition serialize_config :: "category_config \<Rightarrow> json" where
  "serialize_config c = JObj ([(''primary'', spec_to_json (cc_primary c))]
     @ serialize_vec ''vision'' (cc_vision c) @ serialize_vec ''omni'' (cc_omni c)
     @ serialize_vec ''image_generation'' (cc_image_generation c)
     @ serialize_vec ''tts'' (cc_tts c) @ serialize_vec ''stt'' (cc_stt c)
     @ serialize_vec ''code'' (cc_code c) @ serialize_vec ''embedding'' (cc_embedding c)
     @ serialize_vec ''search'' (cc_search c) @ serialize_vec ''music'' (cc_music c))"

datatype config_error = MissingField string | CustomError string

text \<open>The derived deserialisation of the untagged enum from an object.\<close>

definition spec_from_object :: "(string \<times> json) list \<Rightarrow> (config_error, model_spec) result" where
  "spec_from_object m =
     (case dict_get m ''primary'' of
        Some (JStr p) \<Rightarrow>
          (case dict_get m ''fallbacks'' of
             None \<Rightarrow> Ok (WithFallbacks p [])
           | Some (JArr xs) \<Rightarrow>
               (case all_strs xs of Some fs \<Rightarrow> Ok (WithFallbacks p fs)
                | None \<Rightarrow> Err (CustomError ''data did not match any variant of untagged enum ModelSpec''))
           | Some _ \<Rightarrow> Err (CustomError ''data did not match any variant of untagged enum ModelSpec''))
      | _ \<Rightarrow> Err (CustomError ''data did not match any variant of untagged enum ModelSpec''))"

definition opt_vec :: "(string \<times> json) list \<Rightarrow> string \<Rightarrow> string list option" where
  "opt_vec m key =
     (case dict_get m key of
        Some (JStr s) \<Rightarrow> if s = [] then None else Some [s]
      | Some (JArr xs) \<Rightarrow> if str_elems xs = [] then None else Some (str_elems xs)
      | _ \<Rightarrow> None)"

definition parse_primary :: "json \<Rightarrow> (config_error, model_spec) result" where
  "parse_primary v =
     (case v of
        JStr s \<Rightarrow> Ok (Simple s)
      | JArr xs \<Rightarrow>
          (case str_elems xs of
             [] \<Rightarrow> Err (CustomError ''primary array must not be empty'')
           | [s] \<Rightarrow> Ok (Simple s)
           | s # ss \<Rightarrow> Ok (WithFallbacks s ss))
      | JObj m \<Rightarrow> spec_from_object m
      | _ \<Rightarrow> Err (CustomError ''primary must be a string, array, or object''))"

definition deserialize_config :: "json \<Rightarrow> (config_error, category_config) result" where
  "deserialize_config v =
     (case v of
        JStr s \<Rightarrow> Ok (only_primary (Simple s))
      | JObj m \<Rightarrow>
          if dict_has m ''fallbacks'' then
            (case Option.bind (dict_get m ''primary'') as_str of
               None \<Rightarrow> Err (MissingField ''primary'')
             | Some p \<Rightarrow>
                 let fs = (case Option.bind (Option.bind (dict_get m ''fallbacks'') as_array) all_strs of
                             Some fs \<Rightarrow> fs | None \<Rightarrow> [])
                 in Ok (only_primary (WithFallbacks p fs)))
          else
            (case dict_get m ''primary'' of
               None \<Rightarrow> Err (MissingField ''primary'')
             | Some pv \<Rightarrow>
                 (case parse_primary pv of
                    Inl e \<Rightarrow> Err e
                  | Inr p \<Rightarrow> Ok \<lparr>cc_primary = p, cc_vision = opt_vec m ''vision'', cc_omni = opt_vec m ''omni'',
                      cc_image_generation = opt_vec m ''image_generation'', cc_tts = opt_vec m ''tts'',
                      cc_stt = opt_vec m ''stt'', cc_code = opt_vec m ''code'',
                      cc_embedding = opt_vec m ''embedding'', cc_search = opt_vec m ''search'',
                      cc_music = opt_vec m ''music''\<rparr>))
      | _ \<Rightarrow> Err (CustomError ''expected string or object for model config''))"

section \<open>Round trip\<close>

text \<open>An empty category list is written as an unset category.\<close>

definition normalise :: "category_config \<Rightarrow> category_config" where
  "normalise c = \<lparr>cc_primary = cc_primary c, cc_vision = non_empty (cc_vision c),
     cc_omni = non_empty (cc_omni c), cc_image_generation = non_empty (cc_image_generation c),
     cc_tts = non_empty (cc_tts c), cc_stt = non_empty (cc_stt c), cc_code = non_empty (cc_code c),
     cc_embedding = non_empty (cc_embedding c), cc_search = non_empty (cc_search c),
     cc_music = non_empty (cc_music c)\<rparr>"

definition no_empty_chain :: "category_config \<Rightarrow> bool" where
  "no_empty_chain c \<longleftrightarrow> normalise c = c"

lemma serialize_vec_get:
  "dict_get (serialize_vec key val) k =
     (if k = key then map_option (\<lambda>xs. JArr (map JStr xs)) (non_empty val) else None)"
  by (auto simp: serialize_vec_def non_empty_def split: option.splits list.splits)

lemma spec_roundtrip: "parse_primary (spec_to_json s) = Ok s"
  by (cases s) (simp_all add: parse_primary_def spec_from_object_def)

lemma opt_vec_read:
  "dict_get m key = map_option (\<lambda>xs. JArr (map JStr xs)) (non_empty val) \<Longrightarrow> opt_vec m key = non_empty val"
  by (auto simp: opt_vec_def non_empty_def split: option.splits list.splits)

lemma non_empty_idem [simp]: "non_empty (non_empty x) = non_empty x"
  by (auto simp: non_empty_def split: option.splits list.splits)

lemma case_option_same [simp]: "(case x of None \<Rightarrow> None | Some v \<Rightarrow> Some v) = x"
  by (cases x) auto

lemma deserialize_serialize: "deserialize_config (serialize_config c) = Ok (normalise c)"
proof -
  obtain m where m: "serialize_config c = JObj m" and p: "dict_get m ''primary'' = Some (spec_to_json (cc_primary c))"
    and f: "dict_get m ''fallbacks'' = None"
    and v: "opt_vec m ''vision'' = non_empty (cc_vision c)" "opt_vec m ''omni'' = non_empty (cc_omni c)"
      "opt_vec m ''image_generation'' = non_empty (cc_image_generation c)"
      "opt_vec m ''tts'' = non_empty (cc_tts c)" "opt_vec m ''stt'' = non_empty (cc_stt c)"
      "opt_vec m ''code'' = non_empty (cc_code c)" "opt_vec m ''embedding'' = non_empty (cc_embedding c)"
      "opt_vec m ''search'' = non_empty (cc_search c)" "opt_vec m ''music'' = non_empty (cc_music c)"
    by (rule that [OF serialize_config_def]; (rule opt_vec_read)?; simp add: serialize_vec_get split: option.split)
  show ?thesis
    by (simp add: deserialize_config_def m p f v dict_has_def spec_roundtrip normalise_def)
qed

section \<open>What deserialised configurations guarantee\<close>

lemma opt_vec_non_empty: "non_empty (opt_vec m k) = opt_vec m k"
  by (auto simp: opt_vec_def non_empty_def split: option.splits json.splits list.splits)

lemma no_empty_only_primary: "no_empty_chain (only_primary p)"
  by (simp add: no_empty_chain_def normalise_def only_primary_def non_empty_def)

lemma deserialized_no_empty: "deserialize_config j = Ok c \<Longrightarrow> no_empty_chain c"
proof (cases j)
  case (JObj m)
  assume d: "deserialize_config j = Ok c"
  show ?thesis
  proof (cases "dict_has m ''fallbacks''")
    case True
    then show ?thesis
      using d by (auto simp: JObj deserialize_config_def no_empty_only_primary Let_def split: option.split_asm)
  next
    case False
    then obtain pv p where "dict_get m ''primary'' = Some pv" "parse_primary pv = Ok p"
      using d by (auto simp: JObj deserialize_config_def split: option.split_asm sum.split_asm)
    then show ?thesis
      using d False
      by (auto simp: JObj deserialize_config_def no_empty_chain_def normalise_def opt_vec_non_empty)
  qed
qed (auto simp: deserialize_config_def no_empty_only_primary)

lemma first_or_hd: "non_empty x = x \<Longrightarrow> first_or x = map_option hd x"
  by (auto simp: first_or_def non_empty_def split: option.splits list.splits)

lemma no_empty_fields:
  "no_empty_chain c \<Longrightarrow> non_empty (cc_vision c) = cc_vision c"
  "no_empty_chain c \<Longrightarrow> non_empty (cc_omni c) = cc_omni c"
  "no_empty_chain c \<Longrightarrow> non_empty (cc_image_generation c) = cc_image_generation c"
  "no_empty_chain c \<Longrightarrow> non_empty (cc_tts c) = cc_tts c"
  "no_empty_chain c \<Longrightarrow> non_empty (cc_stt c) = cc_stt c"
  "no_empty_chain c \<Longrightarrow> non_empty (cc_code c) = cc_code c"
  "no_empty_chain c \<Longrightarrow> non_empty (cc_embedding c) = cc_embedding c"
  "no_empty_chain c \<Longrightarrow> non_empty (cc_search c) = cc_search c"
  "no_empty_chain c \<Longrightarrow> non_empty (cc_music c) = cc_music c"
  unfolding no_empty_chain_def normalise_def by (metis category_config.simps)+

lemma non_empty_or_else: "\<lbrakk>non_empty a = a; non_empty b = b\<rbrakk> \<Longrightarrow> non_empty (or_else a b) = or_else a b"
  by (auto simp: or_else_def split: option.splits)

lemma map_or_else: "or_else (map_option f a) (map_option f b) = map_option f (or_else a b)"
  by (auto simp: or_else_def split: option.splits)

lemma resolve_chain_hd:
  "\<lbrakk>no_empty_chain c; category \<noteq> ''primary''\<rbrakk> \<Longrightarrow> resolve c category = map_option hd (resolve_chain c category)"
  by (simp add: resolve_def resolve_chain_def no_empty_fields first_or_hd map_or_else non_empty_or_else
      non_empty_def [of None])

section \<open>Properties\<close>

text \<open>
  C4. Writing a model configuration and reading it back gives the same configuration, up to empty
  category chains, which come back unset; every category resolves to the same model afterwards.
\<close>

theorem config_roundtrip:
  "deserialize_config (serialize_config c) = Ok (normalise c) \<and> resolve (normalise c) = resolve c"
proof -
  have "first_or (non_empty x) = first_or x" for x
    by (auto simp: first_or_def non_empty_def split: option.splits list.splits)
  then show ?thesis
    by (simp add: deserialize_serialize resolve_def normalise_def fun_eq_iff)
qed

text \<open>
  In every configuration that deserialisation accepts, the model of a category other than the
  primary one is the head of its fallback chain, and is unset exactly when the chain is.
\<close>

theorem resolved_model_heads_chain:
  assumes "deserialize_config j = Ok c" and "category \<noteq> ''primary''"
  shows "resolve c category = map_option hd (resolve_chain c category)"
  using resolve_chain_hd [OF deserialized_no_empty [OF assms(1)] assms(2)] .

theorem resolved_model_heads_chain_witness:
  "\<exists>c. deserialize_config (JObj [(''primary'', JArr [JStr ''m'']), (''omni'', JArr [JStr ''a'', JStr ''b''])]) = Ok c \<and>
       resolve_chain c ''vision'' = Some [''a'', ''b''] \<and> resolve c ''vision'' = Some ''a''"
proof -
  let ?c = "(only_primary (Simple ''m''))\<lparr>cc_omni := Some [''a'', ''b'']\<rparr>"
  have d: "deserialize_config (JObj [(''primary'', JArr [JStr ''m'']), (''omni'', JArr [JStr ''a'', JStr ''b''])]) = Ok ?c"
    by (simp add: deserialize_config_def dict_has_def parse_primary_def opt_vec_def only_primary_def)
  have r: "resolve_chain ?c ''vision'' = Some [''a'', ''b'']"
    by (simp add: resolve_chain_def only_primary_def or_else_def non_empty_def)
  show ?thesis
    using d r resolved_model_heads_chain [OF d, of "''vision''"] by auto
qed

end
