(* ===== verification/ModelFactory.thy ===== *)
theory ModelFactory
  imports ModelConfig
begin

text \<open>
  \<open>src/model_factory.rs\<close>: the provider table, the key variable of a model identifier and the
  dispatch to a client. Constructing a client is a call into the model crate, so \<open>create_model\<close>
  yields the request it would make, with the environment as a parameter.
\<close>

section \<open>The model factory\<close>

text \<open>All provider identifiers with their display names and key variables.\<close>

definition providers :: "(string \<times> string \<times> string) list" where
  "providers =
    [(''anthropic'', ''Anthropic'', ''ANTHROPIC_API_KEY''),
     (''openai'', ''OpenAI'', ''OPENAI_API_KEY''),
     (''gemini'', ''Google Gemini'', ''GOOGLE_API_KEY''),
     (''openrouter'', ''OpenRouter'', ''OPENROUTER_API_KEY''),
     (''deepseek'', ''DeepSeek'', ''DEEPSEEK_API_KEY''),
     (''groq'', ''Groq'', ''GROQ_API_KEY''),
     (''ollama'', ''Ollama (local)'', ''''),
     (''fireworks'', ''Fireworks AI'', ''FIREWORKS_API_KEY''),
     (''together'', ''Together AI'', ''TOGETHER_API_KEY''),
     (''mistral'', ''Mistral AI'', ''MISTRAL_API_KEY''),
     (''perplexity'', ''Perplexity'', ''PERPLEXITY_API_KEY''),
     (''cerebras'', ''Cerebras'', ''CEREBRAS_API_KEY''),
     (''sambanova'', ''SambaNova'', ''SAMBANOVA_API_KEY''),
     (''xai'', ''xAI (Grok)'', ''XAI_API_KEY''),
     (''elevenlabs'', ''ElevenLabs'', ''ELEVENLABS_API_KEY''),
     (''replicate'', ''Replicate'', ''REPLICATE_API_TOKEN''),
     (''assemblyai'', ''AssemblyAI'', ''ASSEMBLYAI_API_KEY''),
     (''deepgram'', ''Deepgram'', ''DEEPGRAM_API_KEY''),
     (''openai-compatible'', ''OpenAI-Compatible (custom)'', ''OPENAI_COMPATIBLE_API_KEY'')]"

definition parse_model_id :: "string \<Rightarrow> string \<times> string" where
  "parse_model_id model_id =
     (case split_once CHR ''/'' model_id of Some (p, n) \<Rightarrow> (p, n) | None \<Rightarrow> (''gemini'', model_id))"

definition resolve_api_key_env :: "string \<Rightarrow> string" where
  "resolve_api_key_env model_id =
     (case find (\<lambda>(i, _, _). i = fst (parse_model_id model_id)) providers of
        Some (_, _, e) \<Rightarrow> e | None \<Rightarrow> [])"

text \<open>The client that the model crate is asked for; the environment is \<open>env\<close>.\<close>

datatype client_request =
    GeminiClient string string
  | OpenAIClient string string
  | AnthropicClient string string
  | OllamaClient string
  | DeepSeekClient string string
  | GroqClient string string
  | OpenRouterClient string string
  | CompatibleClient string string string string

type_synonym env = "string \<Rightarrow> string option"

definition require_key :: "env \<Rightarrow> string \<Rightarrow> string \<Rightarrow> (string, string) result" where
  "require_key env env_var provider =
     (case env env_var of Some k \<Rightarrow> Ok k | None \<Rightarrow> Err (provider @ '' requires '' @ env_var @ '' env var''))"

definition with_key :: "env \<Rightarrow> string \<Rightarrow> string \<Rightarrow> (string \<Rightarrow> client_request) \<Rightarrow> (string, client_request) result" where
  "with_key env env_var provider mk =
     (case require_key env env_var provider of Inl e \<Rightarrow> Err e | Inr k \<Rightarrow> Ok (mk k))"

definition create_gemini :: "env \<Rightarrow> string \<Rightarrow> (string, client_request) result" where
  "create_gemini env name =
     (case or_else (env ''GOOGLE_API_KEY'') (env ''GEMINI_API_KEY'') of
        Some k \<Rightarrow> Ok (GeminiClient k name)
      | None \<Rightarrow> Err ''gemini requires GOOGLE_API_KEY or GEMINI_API_KEY env var'')"

definition create_openai :: "env \<Rightarrow> string \<Rightarrow> (string, client_request) result" where
  "create_openai env name = with_key env ''OPENAI_API_KEY'' ''openai'' (\<lambda>k. OpenAIClient k name)"

definition create_anthropic :: "env \<Rightarrow> string \<Rightarrow> (string, client_request) result" where
  "create_anthropic env name = with_key env ''ANTHROPIC_API_KEY'' ''anthropic'' (\<lambda>k. AnthropicClient k name)"

definition create_ollama :: "env \<Rightarrow> string \<Rightarrow> (string, client_request) result" where
  "create_ollama env name = Ok (OllamaClient name)"

definition create_deepseek :: "env \<Rightarrow> string \<Rightarrow> (string, client_request) result" where
  "create_deepseek env name = with_key env ''DEEPSEEK_API_KEY'' ''deepseek'' (\<lambda>k. DeepSeekClient k name)"

definition create_groq :: "env \<Rightarrow> string \<Rightarrow> (string, client_request) result" where
  "create_groq env name = with_key env ''GROQ_API_KEY'' ''groq'' (\<lambda>k. GroqClient k name)"

definition create_openrouter :: "env \<Rightarrow> string \<Rightarrow> (string, client_request) result" where
  "create_openrouter env name = with_key env ''OPENROUTER_API_KEY'' ''openrouter'' (\<lambda>k. OpenRouterClient k name)"

definition create_openai_compatible ::
  "env \<Rightarrow> string \<Rightarrow> string \<Rightarrow> string \<Rightarrow> string \<Rightarrow> (string, client_request) result" where
  "create_openai_compatible env provider_name name env_var base_url =
     with_key env env_var provider_name (\<lambda>k. CompatibleClient provider_name k name base_url)"

text \<open>The dispatch on the provider, and the entry point that splits the identifier.\<close>

definition create_model_for :: "env \<Rightarrow> string \<Rightarrow> string \<Rightarrow> string \<Rightarrow> (string, client_request) result" where
  "create_model_for env model_id provider name =
     (if provider = ''gemini'' \<or> provider = ''google'' then create_gemini env name
      else if provider = ''openai'' then create_openai env name
      else if provider = ''anthropic'' then create_anthropic env name
      else if provider = ''ollama'' then create_ollama env name
      else if provider = ''deepseek'' then create_deepseek env name
      else if provider = ''groq'' then create_groq env name
      else if provider = ''openrouter'' then create_openrouter env name
      else if provider = ''fireworks'' then create_openai_compatible env ''fireworks'' name ''FIREWORKS_API_KEY'' ''https://api.fireworks.ai/inference/v1''
      else if provider = ''together'' then create_openai_compatible env ''together'' name ''TOGETHER_API_KEY'' ''https://api.together.xyz/v1''
      else if provider = ''mistral'' then create_openai_compatible env ''mistral'' name ''MISTRAL_API_KEY'' ''https://api.mistral.ai/v1''
      else if provider = ''perplexity'' then create_openai_compatible env ''perplexity'' name ''PERPLEXITY_API_KEY'' ''https://api.perplexity.ai''
      else if provider = ''cerebras'' then create_openai_compatible env ''cerebras'' name ''CEREBRAS_API_KEY'' ''https://api.cerebras.ai/v1''
      else if provider = ''sambanova'' then create_openai_compatible env ''sambanova'' name ''SAMBANOVA_API_KEY'' ''https://api.sambanova.ai/v1''
      else if provider = ''xai'' then create_openai_compatible env ''xai'' name ''XAI_API_KEY'' ''https://api.x.ai/v1''
      else if provider = ''elevenlabs'' then create_openai_compatible env ''elevenlabs'' name ''ELEVENLABS_API_KEY'' ''https://api.elevenlabs.io/v1''
      else if provider = ''replicate'' then create_openai_compatible env ''replicate'' name ''REPLICATE_API_TOKEN'' ''https://api.replicate.com/v1''
      else if provider = ''assemblyai'' then create_openai_compatible env ''assemblyai'' name ''ASSEMBLYAI_API_KEY'' ''https://api.assemblyai.com/v2''
      else if provider = ''deepgram'' then create_openai_compatible env ''deepgram'' name ''DEEPGRAM_API_KEY'' ''https://api.deepgram.com/v1''
      else if provider = ''openai-compatible'' then
        create_openai_compatible env ''custom'' name ''OPENAI_COMPATIBLE_API_KEY''
          (case env ''OPENAI_COMPATIBLE_BASE_URL'' of Some u \<Rightarrow> u | None \<Rightarrow> ''http://localhost:8080/v1'')
      else create_gemini env model_id)"

definition create_model :: "env \<Rightarrow> string \<Rightarrow> (string, client_request) result" where
  "create_model env model_id =
     (let (provider, name) = parse_model_id model_id in create_model_for env model_id provider name)"

lemmas create_defs = create_gemini_def create_openai_def create_anthropic_def create_ollama_def
  create_deepseek_def create_groq_def create_openrouter_def create_openai_compatible_def
  with_key_def require_key_def or_else_def

lemma parse_prefixed: "CHR ''/'' \<notin> set p \<Longrightarrow> parse_model_id (p @ CHR ''/'' # n) = (p, n)"
  by (simp add: parse_model_id_def split_once_append)

lemma providers_no_slash: "(i, d, e) \<in> set providers \<Longrightarrow> CHR ''/'' \<notin> set i"
proof -
  have "\<forall>x\<in>set providers. CHR ''/'' \<notin> set (fst x)" by (simp add: providers_def)
  then show "(i, d, e) \<in> set providers \<Longrightarrow> CHR ''/'' \<notin> set i" by fastforce
qed

text \<open>Facts about every row of the table, checked row by row.\<close>

lemma rows_resolve:
  "list_all (\<lambda>(i, n, e). (case find (\<lambda>(j, _, _). j = i) providers of Some (_, _, e') \<Rightarrow> e' | None \<Rightarrow> []) = e) providers"
  by (simp add: providers_def)

lemma rows_accept:
  "list_all (\<lambda>(i, n, e). is_ok (create_model_for (\<lambda>v. if v = e then Some k else None) mid i name)) providers"
  by (simp add: providers_def create_model_for_def create_defs)

lemma rows_reject:
  "list_all (\<lambda>(i, n, e). e \<noteq> [] \<longrightarrow> \<not> is_ok (create_model_for (\<lambda>v. None) mid i name)) providers"
  by (simp add: providers_def create_model_for_def create_defs)

section \<open>Properties\<close>

text \<open>
  For every provider of the factory's table, the key variable that \<open>resolve_api_key_env\<close> names
  for a model of that provider is sufficient for the factory to build the client, and where it
  names one, the client cannot be built from an empty environment.
\<close>

theorem provider_key_is_the_one_read:
  assumes "(pid, name, key) \<in> set providers"
  shows "resolve_api_key_env (pid @ CHR ''/'' # model) = key \<and>
    is_ok (create_model (\<lambda>v. if v = key then Some k else None) (pid @ CHR ''/'' # model)) \<and>
    (key \<noteq> [] \<longrightarrow> \<not> is_ok (create_model (\<lambda>v. None) (pid @ CHR ''/'' # model)))"
proof -
  have p: "parse_model_id (pid @ CHR ''/'' # model) = (pid, model)"
    by (rule parse_prefixed [OF providers_no_slash [OF assms]])
  show ?thesis
    using assms rows_resolve rows_accept [of k "pid @ CHR ''/'' # model" model]
      rows_reject [of "pid @ CHR ''/'' # model" model]
    by (auto simp: list_all_iff create_model_def resolve_api_key_env_def p)
qed

theorem provider_key_is_the_one_read_witness:
  "is_ok (create_model (\<lambda>v. if v = ''GROQ_API_KEY'' then Some ''k'' else None) ''groq/llama'')"
proof -
  have "(''groq'', ''Groq'', ''GROQ_API_KEY'') \<in> set providers"
    by (simp add: providers_def)
  from provider_key_is_the_one_read [OF this, of "''llama''" "''k''"] show ?thesis by simp
qed

end
