(* ===== verification/AgentConfig.thy ===== *)
theory AgentConfig
  imports ModelFactory
begin

text \<open>
  \<open>src/agent_config.rs\<close>: the declarative agent definition, its lifecycle states, and the
  resolution of its model and key variable against the global configuration.
\<close>

section \<open>Data\<close>

datatype agent_model_override = PartialOverride category_config | FullOverride category_config

datatype agent_type = LlmAgent | SequentialAgent | ParallelAgent | LoopAgent | RouterAgent | GraphAgent

datatype lifecycle_state = Created | Starting | Running | Stopping | Stopped | ErrorState (error_message: string)

record agent_role_config =
  role_allow :: "string list"
  role_deny :: "string list"

record channel_binding =
  cb_channel_type :: string
  cb_account_id :: "string option"
  cb_peer_filter :: "string option"

record action_node_entry =
  an_id :: string
  an_config :: json

record workflow_edge =
  we_from :: string
  we_to :: string
  we_condition :: "string option"

text \<open>The temperature is kept as the bits of its \<open>f32\<close>.\<close>

record agent_config =
  ac_id :: string
  ac_name :: string
  ac_description :: string
  ac_agent_type :: agent_type
  ac_model :: string
  ac_api_key_env :: string
  ac_instruction :: string
  ac_tools :: "string list"
  ac_action_nodes :: "action_node_entry list"
  ac_workflow_edges :: "workflow_edge list"
  ac_sub_agents :: "string list"
  ac_role :: agent_role_config
  ac_channel_bindings :: "channel_binding list"
  ac_auto_start :: bool
  ac_temperature :: "32 word option"
  ac_max_output_tokens :: "32 word option"
  ac_model_override :: "agent_model_override option"

section \<open>Resolution\<close>

definition resolve_model :: "agent_config \<Rightarrow> string \<Rightarrow> category_config \<Rightarrow> string option" where
  "resolve_model a category global =
     (case ac_model_override a of
        None \<Rightarrow> resolve global category
      | Some (PartialOverride ov) \<Rightarrow> or_else (resolve ov category) (resolve global category)
      | Some (FullOverride f) \<Rightarrow> resolve f category)"

definition agent_api_key_env :: "agent_config \<Rightarrow> string" where
  "agent_api_key_env a =
     (if ac_api_key_env a \<noteq> [] then ac_api_key_env a
      else resolve_api_key_env
        (case ac_model_override a of
           Some (PartialOverride c) \<Rightarrow> spec_primary (cc_primary c)
         | Some (FullOverride c) \<Rightarrow> spec_primary (cc_primary c)
         | None \<Rightarrow> ac_model a))"

text \<open>A blank definition, which examples fill in.\<close>

definition blank_agent :: "string \<Rightarrow> agent_config" where
  "blank_agent i = \<lparr>ac_id = i, ac_name = i, ac_description = [], ac_agent_type = LlmAgent, ac_model = [],
     ac_api_key_env = [], ac_instruction = [], ac_tools = [], ac_action_nodes = [], ac_workflow_edges = [],
     ac_sub_agents = [], ac_role = \<lparr>role_allow = [], role_deny = []\<rparr>, ac_channel_bindings = [],
     ac_auto_start = False, ac_temperature = None, ac_max_output_tokens = None, ac_model_override = None\<rparr>"

lemma resolve_model_primary:
  "resolve_model a ''primary'' global = Some (spec_primary (cc_primary
     (case ac_model_override a of None \<Rightarrow> global | Some (PartialOverride ov) \<Rightarrow> ov | Some (FullOverride f) \<Rightarrow> f)))"
  by (auto simp: resolve_model_def resolve_def or_else_def split: option.splits agent_model_override.splits)

lemma resolve_model_full_isolated:
  "ac_model_override a = Some (FullOverride f) \<Longrightarrow> resolve_model a category g1 = resolve_model a category g2"
  by (simp add: resolve_model_def)

end
