(* ===== verification/AgentRegistry.thy ===== *)
theory AgentRegistry
  imports AgentConfig
begin

text \<open>
  \<open>src/agent_registry.rs\<close>: the agent records with their lifecycle state machine, the singleton
  system agent and the JSON file of each agent under the persist directory, and the start-up
  sequence of \<open>src/gateway_state.rs\<close> that reloads them. Serialisation is serde's: \<open>ser\<close> and \<open>de\<close>
  are parameters, and what a write or a read of the file system does is an argument of the
  operation. \<open>updated_at\<close> stamps are arguments too.
\<close>

section \<open>State\<close>

record agent_record =
  ar_config :: agent_config
  ar_state :: lifecycle_state
  ar_port :: "16 word option"
  ar_pid :: "32 word option"
  ar_created_at :: int
  ar_updated_at :: int

text \<open>\<open>rg_files\<close> are the files below the persist directory by their path relative to it.\<close>

record 'doc registry =
  rg_agents :: "agent_record dict"
  rg_system :: "string option"
  rg_files :: "'doc dict"
  rg_dir_exists :: bool
  rg_workspaces :: "string list"
  rg_archived :: "(string \<times> string) list"

datatype registry_error =
    AlreadyExists string
  | SystemAgentExists
  | AgentNotFound string
  | InvalidTransition string lifecycle_state lifecycle_state
  | IdMismatch string string
  | CannotDelete string lifecycle_state
  | IoFailed string
  | ParseFailed string

text \<open>
  The outcomes of a file write: done, or failed with the file as it was or with some other
  content (a truncated write).
\<close>

datatype 'doc write_outcome = Written | WriteFailed "'doc option"

definition rg_new :: "'doc dict \<Rightarrow> bool \<Rightarrow> string list \<Rightarrow> 'doc registry" where
  "rg_new files ex ws = \<lparr>rg_agents = [], rg_system = None, rg_files = files, rg_dir_exists = ex,
     rg_workspaces = ws, rg_archived = []\<rparr>"

definition is_valid_transition :: "lifecycle_state \<Rightarrow> lifecycle_state \<Rightarrow> bool" where
  "is_valid_transition s t =
     (case (s, t) of
        (Created, Starting) \<Rightarrow> True
      | (Starting, Running) \<Rightarrow> True
      | (Starting, ErrorState _) \<Rightarrow> True
      | (Running, Stopping) \<Rightarrow> True
      | (Running, ErrorState _) \<Rightarrow> True
      | (Stopping, Stopped) \<Rightarrow> True
      | (Stopped, Starting) \<Rightarrow> True
      | (ErrorState _, Starting) \<Rightarrow> True
      | _ \<Rightarrow> False)"

section \<open>Files\<close>

definition record_file :: "string \<Rightarrow> string" where
  "record_file i = i @ ''.json''"

definition persist ::
  "(agent_record \<Rightarrow> 'doc) \<Rightarrow> 'doc write_outcome \<Rightarrow> string \<Rightarrow> agent_record \<Rightarrow> 'doc registry
   \<Rightarrow> 'doc registry \<times> (registry_error, unit) result" where
  "persist ser w i r rg =
     (case w of
        Written \<Rightarrow> (rg\<lparr>rg_files := dict_put (record_file i) (ser r) (rg_files rg), rg_dir_exists := True\<rparr>, Ok ())
      | WriteFailed None \<Rightarrow> (rg, Err (IoFailed (record_file i)))
      | WriteFailed (Some d) \<Rightarrow>
          (rg\<lparr>rg_files := dict_put (record_file i) d (rg_files rg), rg_dir_exists := True\<rparr>,
           Err (IoFailed (record_file i))))"

text \<open>The result of \<open>remove_persisted\<close> is dropped by its caller; \<open>rm\<close> says whether it works.\<close>

definition remove_persisted :: "bool \<Rightarrow> string \<Rightarrow> 'doc registry \<Rightarrow> 'doc registry" where
  "remove_persisted rm i rg =
     (if dict_has (rg_files rg) (record_file i) \<and> rm
      then rg\<lparr>rg_files := dict_del (record_file i) (rg_files rg)\<rparr> else rg)"

definition archive_workspace :: "bool \<Rightarrow> string \<Rightarrow> string \<Rightarrow> 'doc registry \<Rightarrow> 'doc registry" where
  "archive_workspace mv stamp i rg =
     (if i \<in> set (rg_workspaces rg) \<and> mv
      then rg\<lparr>rg_workspaces := removeAll i (rg_workspaces rg),
              rg_archived := rg_archived rg @ [(i @ ''-'' @ stamp, i)]\<rparr>
      else rg)"

section \<open>Operations\<close>

definition fresh_record :: "agent_config \<Rightarrow> int \<Rightarrow> agent_record" where
  "fresh_record cfg now = \<lparr>ar_config = cfg, ar_state = Created, ar_port = None, ar_pid = None,
     ar_created_at = now, ar_updated_at = now\<rparr>"

definition create_agent ::
  "(agent_record \<Rightarrow> 'doc) \<Rightarrow> 'doc write_outcome \<Rightarrow> int \<Rightarrow> agent_config \<Rightarrow> 'doc registry
   \<Rightarrow> 'doc registry \<times> (registry_error, string) result" where
  "create_agent ser w now cfg rg =
     (let i = ac_id cfg in
      if dict_has (rg_agents rg) i then (rg, Err (AlreadyExists i))
      else let r = fresh_record cfg now in
        (case persist ser w i r rg of
           (rg', Inl e) \<Rightarrow> (rg', Err e)
         | (rg', Inr _) \<Rightarrow> (rg'\<lparr>rg_agents := dict_put i r (rg_agents rg')\<rparr>, Ok i)))"

definition register_system_agent ::
  "(agent_record \<Rightarrow> 'doc) \<Rightarrow> 'doc write_outcome \<Rightarrow> int \<Rightarrow> agent_config \<Rightarrow> 'doc registry
   \<Rightarrow> 'doc registry \<times> (registry_error, unit) result" where
  "register_system_agent ser w now cfg rg =
     (if rg_system rg \<noteq> None then (rg, Err SystemAgentExists)
      else
        let cfg' = cfg\<lparr>ac_role := \<lparr>role_allow = [''*''], role_deny = []\<rparr>\<rparr>;
            i = ac_id cfg'; r = fresh_record cfg' now in
        (case persist ser w i r rg of
           (rg', Inl e) \<Rightarrow> (rg', Err e)
         | (rg', Inr _) \<Rightarrow> (rg'\<lparr>rg_agents := dict_put i r (rg_agents rg'), rg_system := Some i\<rparr>, Ok ())))"

text \<open>The shared tail of the updates: the entry changes in memory, then it is persisted.\<close>

definition store_entry ::
  "(agent_record \<Rightarrow> 'doc) \<Rightarrow> 'doc write_outcome \<Rightarrow> string \<Rightarrow> agent_record \<Rightarrow> 'doc registry
   \<Rightarrow> 'doc registry \<times> (registry_error, unit) result" where
  "store_entry ser w i r rg = persist ser w i r (rg\<lparr>rg_agents := dict_put i r (rg_agents rg)\<rparr>)"

definition transition ::
  "(agent_record \<Rightarrow> 'doc) \<Rightarrow> 'doc write_outcome \<Rightarrow> int \<Rightarrow> string \<Rightarrow> lifecycle_state \<Rightarrow> 'doc registry
   \<Rightarrow> 'doc registry \<times> (registry_error, unit) result" where
  "transition ser w now i new_state rg =
     (case dict_get (rg_agents rg) i of
        None \<Rightarrow> (rg, Err (AgentNotFound i))
      | Some r \<Rightarrow>
          if \<not> is_valid_transition (ar_state r) new_state
          then (rg, Err (InvalidTransition i (ar_state r) new_state))
          else store_entry ser w i (r\<lparr>ar_state := new_state, ar_updated_at := now\<rparr>) rg)"

definition force_state ::
  "(agent_record \<Rightarrow> 'doc) \<Rightarrow> 'doc write_outcome \<Rightarrow> int \<Rightarrow> string \<Rightarrow> lifecycle_state \<Rightarrow> 'doc registry
   \<Rightarrow> 'doc registry \<times> (registry_error, unit) result" where
  "force_state ser w now i new_state rg =
     (case dict_get (rg_agents rg) i of
        None \<Rightarrow> (rg, Err (AgentNotFound i))
      | Some r \<Rightarrow> store_entry ser w i (r\<lparr>ar_state := new_state, ar_updated_at := now\<rparr>) rg)"

definition update_config ::
  "(agent_record \<Rightarrow> 'doc) \<Rightarrow> 'doc write_outcome \<Rightarrow> int \<Rightarrow> string \<Rightarrow> agent_config \<Rightarrow> 'doc registry
   \<Rightarrow> 'doc registry \<times> (registry_error, unit) result" where
  "update_config ser w now i cfg rg =
     (case dict_get (rg_agents rg) i of
        None \<Rightarrow> (rg, Err (AgentNotFound i))
      | Some r \<Rightarrow>
          if ac_id cfg \<noteq> i then (rg, Err (IdMismatch (ac_id cfg) i))
          else store_entry ser w i (r\<lparr>ar_config := cfg, ar_updated_at := now\<rparr>) rg)"

definition deletable :: "lifecycle_state \<Rightarrow> bool" where
  "deletable s = (case s of Stopped \<Rightarrow> True | ErrorState _ \<Rightarrow> True | _ \<Rightarrow> False)"

definition delete_agent ::
  "bool \<Rightarrow> bool \<Rightarrow> string \<Rightarrow> string \<Rightarrow> 'doc registry \<Rightarrow> 'doc registry \<times> (registry_error, agent_record) result" where
  "delete_agent mv rm stamp i rg =
     (case dict_get (rg_agents rg) i of
        None \<Rightarrow> (rg, Err (AgentNotFound i))
      | Some r \<Rightarrow>
          if \<not> deletable (ar_state r) then (rg, Err (CannotDelete i (ar_state r)))
          else (remove_persisted rm i (archive_workspace mv stamp i
                  (rg\<lparr>rg_agents := dict_del i (rg_agents rg)\<rparr>)), Ok r))"

definition is_system_agent :: "'doc registry \<Rightarrow> string \<Rightarrow> bool" where
  "is_system_agent rg i = (case rg_system rg of Some s \<Rightarrow> s = i | None \<Rightarrow> False)"

text \<open>\<open>Path::extension\<close> of a file name, and the names \<open>read_dir\<close> lists.\<close>

definition has_json_extension :: "string \<Rightarrow> bool" where
  "has_json_extension name = (suffix ''.json'' name \<and> name \<noteq> ''.json'')"

definition listed :: "string \<Rightarrow> bool" where
  "listed name = (CHR ''/'' \<notin> set name)"

fun load_files ::
  "('doc \<Rightarrow> agent_record option) \<Rightarrow> (string \<Rightarrow> bool) \<Rightarrow> (string \<times> 'doc) list \<Rightarrow> nat \<Rightarrow> 'doc registry
   \<Rightarrow> 'doc registry \<times> (registry_error, nat) result" where
  "load_files de rd [] n rg = (rg, Ok n)"
| "load_files de rd ((name, d) # fs) n rg =
     (if \<not> listed name \<or> \<not> has_json_extension name then load_files de rd fs n rg
      else if \<not> rd name then (rg, Err (IoFailed name))
      else (case de d of
              None \<Rightarrow> (rg, Err (ParseFailed name))
            | Some r \<Rightarrow>
                load_files de rd fs (Suc n)
                  (rg\<lparr>rg_agents := dict_put (ac_id (ar_config r)) r (rg_agents rg)\<rparr>)))"

definition load_from_disk ::
  "('doc \<Rightarrow> agent_record option) \<Rightarrow> (string \<Rightarrow> bool) \<Rightarrow> 'doc registry
   \<Rightarrow> 'doc registry \<times> (registry_error, nat) result" where
  "load_from_disk de rd rg = (if \<not> rg_dir_exists rg then (rg, Ok 0) else load_files de rd (rg_files rg) 0 rg)"

text \<open>
  The start-up sequence: register the system agent, load the persisted agents, then bring the
  states that no process can be in after a restart back to stable ones. Failures are logged and
  skipped.
\<close>

definition fix_stale_entry ::
  "(agent_record \<Rightarrow> 'doc) \<Rightarrow> (string \<Rightarrow> 'doc write_outcome) \<Rightarrow> int \<Rightarrow> string \<times> agent_record \<Rightarrow> 'doc registry \<Rightarrow> 'doc registry" where
  "fix_stale_entry ser w now e rg =
     (if fst e = ''system'' \<and> ar_state (snd e) \<noteq> Running
      then fst (force_state ser (w (fst e)) now (fst e) Running rg)
      else if ar_state (snd e) \<in> {Starting, Stopping}
      then fst (force_state ser (w (fst e)) now (fst e) Stopped rg)
      else rg)"

definition boot_registry ::
  "(agent_record \<Rightarrow> 'doc) \<Rightarrow> ('doc \<Rightarrow> agent_record option) \<Rightarrow> (string \<Rightarrow> bool) \<Rightarrow> (string \<Rightarrow> 'doc write_outcome)
   \<Rightarrow> int \<Rightarrow> agent_config \<Rightarrow> 'doc registry \<Rightarrow> 'doc registry \<times> 'doc registry" where
  "boot_registry ser de rd w now system_config rg =
     (let rg1 = fst (register_system_agent ser (w (ac_id system_config)) now system_config rg);
          rg2 = fst (load_from_disk de rd rg1)
      in (rg2, fold (fix_stale_entry ser w now) (rg_agents rg2) rg2))"

section \<open>Sequences of operations\<close>

datatype 'doc registry_op =
    OpCreate "'doc write_outcome" int agent_config
  | OpRegisterSystem "'doc write_outcome" int agent_config
  | OpTransition "'doc write_outcome" int string lifecycle_state
  | OpForce "'doc write_outcome" int string lifecycle_state
  | OpUpdate "'doc write_outcome" int string agent_config
  | OpDelete bool bool string string
  | OpLoad "'doc \<Rightarrow> agent_record option" "string \<Rightarrow> bool"

fun apply_op :: "(agent_record \<Rightarrow> 'doc) \<Rightarrow> 'doc registry_op \<Rightarrow> 'doc registry \<Rightarrow> 'doc registry" where
  "apply_op ser (OpCreate w now cfg) rg = fst (create_agent ser w now cfg rg)"
| "apply_op ser (OpRegisterSystem w now cfg) rg = fst (register_system_agent ser w now cfg rg)"
| "apply_op ser (OpTransition w now i s) rg = fst (transition ser w now i s rg)"
| "apply_op ser (OpForce w now i s) rg = fst (force_state ser w now i s rg)"
| "apply_op ser (OpUpdate w now i cfg) rg = fst (update_config ser w now i cfg rg)"
| "apply_op ser (OpDelete mv rm stamp i) rg = fst (delete_agent mv rm stamp i rg)"
| "apply_op ser (OpLoad de rd) rg = fst (load_from_disk de rd rg)"

text \<open>Operations whose file writes and removals all succeed, and that do not read the files.\<close>

fun clean_op :: "'doc registry_op \<Rightarrow> bool" where
  "clean_op (OpCreate w _ _) = (w = Written)"
| "clean_op (OpRegisterSystem w _ _) = (w = Written)"
| "clean_op (OpTransition w _ _ _) = (w = Written)"
| "clean_op (OpForce w _ _ _) = (w = Written)"
| "clean_op (OpUpdate w _ _ _) = (w = Written)"
| "clean_op (OpDelete _ rm _ _) = rm"
| "clean_op (OpLoad _ _) = False"

fun forces :: "'doc registry_op \<Rightarrow> bool" where
  "forces (OpForce _ _ _ _) = True"
| "forces (OpRegisterSystem _ _ _) = True"
| "forces _ = False"

fun loads :: "'doc registry_op \<Rightarrow> bool" where
  "loads (OpLoad _ _) = True"
| "loads _ = False"

section \<open>Effects\<close>

lemma persist_agents [simp]:
  "rg_agents (fst (persist ser w i r rg)) = rg_agents rg" "rg_system (fst (persist ser w i r rg)) = rg_system rg"
  by (auto simp: persist_def split: write_outcome.splits option.splits)

lemma persist_Written [simp]:
  "persist ser Written i r rg =
     (rg\<lparr>rg_files := dict_put (record_file i) (ser r) (rg_files rg), rg_dir_exists := True\<rparr>, Ok ())"
  by (simp add: persist_def)

lemma store_entry_agents [simp]:
  "rg_agents (fst (store_entry ser w i r rg)) = dict_put i r (rg_agents rg)"
  by (simp add: store_entry_def)

lemma remove_persisted_agents [simp]: "rg_agents (remove_persisted rm i rg) = rg_agents rg"
  by (simp add: remove_persisted_def)

lemma archive_workspace_fields [simp]:
  "rg_agents (archive_workspace mv stamp i rg) = rg_agents rg"
  "rg_files (archive_workspace mv stamp i rg) = rg_files rg"
  "rg_dir_exists (archive_workspace mv stamp i rg) = rg_dir_exists rg"
  by (simp_all add: archive_workspace_def)

lemma create_agents:
  "rg_agents (fst (create_agent ser w now cfg rg)) =
     (if \<not> dict_has (rg_agents rg) (ac_id cfg) \<and> is_ok (snd (persist ser w (ac_id cfg) (fresh_record cfg now) rg))
      then dict_put (ac_id cfg) (fresh_record cfg now) (rg_agents rg) else rg_agents rg)"
proof -
  obtain rg1 x where p: "persist ser w (ac_id cfg) (fresh_record cfg now) rg = (rg1, x)"
    by fastforce
  have "rg_agents rg1 = rg_agents rg"
    using persist_agents(1) [of ser w "ac_id cfg" "fresh_record cfg now" rg] unfolding p by simp
  then show ?thesis by (auto simp: create_agent_def Let_def p split: sum.splits)
qed

lemma register_agents:
  "dict_get (rg_agents (fst (register_system_agent ser w now cfg rg))) j =
     (if rg_system rg = None \<and> j = ac_id cfg \<and>
         is_ok (snd (persist ser w j (fresh_record (cfg\<lparr>ac_role := \<lparr>role_allow = [''*''], role_deny = []\<rparr>\<rparr>) now) rg))
      then Some (fresh_record (cfg\<lparr>ac_role := \<lparr>role_allow = [''*''], role_deny = []\<rparr>\<rparr>) now)
      else dict_get (rg_agents rg) j)"
proof -
  let ?r = "fresh_record (cfg\<lparr>ac_role := \<lparr>role_allow = [''*''], role_deny = []\<rparr>\<rparr>) now"
  obtain rg1 x where p: "persist ser w (ac_id cfg) ?r rg = (rg1, x)"
    by fastforce
  have "rg_agents rg1 = rg_agents rg"
    using persist_agents(1) [of ser w "ac_id cfg" ?r rg] unfolding p by simp
  then show ?thesis by (auto simp: register_system_agent_def Let_def p split: sum.splits)
qed

section \<open>The lifecycle\<close>

lemma step_state:
  assumes "\<not> forces op" "\<not> loads op" "dict_get (rg_agents (apply_op ser op rg)) j = Some r'"
  shows "(dict_get (rg_agents rg) j = None \<and> ar_state r' = Created) \<or>
    (\<exists>r. dict_get (rg_agents rg) j = Some r \<and>
       (ar_state r' = ar_state r \<or> is_valid_transition (ar_state r) (ar_state r')))"
  using assms
  by (cases op)
    (auto simp: create_agents transition_def update_config_def delete_agent_def fresh_record_def dict_has_def
      split: option.splits if_splits)

text \<open>A load overwrites agents with the records of the files, in whatever state they are stored.\<close>

lemma load_files_state:
  "dict_get (rg_agents (fst (load_files de rd fs n rg))) j = Some r' \<Longrightarrow>
     dict_get (rg_agents rg) j = Some r' \<or> (\<exists>(name, d)\<in>set fs. de d = Some r' \<and> ac_id (ar_config r') = j)"
proof (induction de rd fs n rg rule: load_files.induct)
  case (2 de rd name d fs n rg)
  then show ?case by (fastforce split: if_splits option.splits)
qed simp

lemma load_state:
  assumes "loads op" "dict_get (rg_agents (apply_op ser op rg)) j = Some r'"
  shows "dict_get (rg_agents rg) j = Some r'
     \<or> (\<exists>de rd. op = OpLoad de rd \<and> (\<exists>(name, d)\<in>set (rg_files rg). de d = Some r' \<and> ac_id (ar_config r') = j))"
  using assms by (cases op) (auto simp: load_from_disk_def dest!: load_files_state split: if_splits)

section \<open>Memory and disk\<close>

text \<open>
  Keys are the identifiers of the stored definitions, and the files are exactly the serialised
  records.
\<close>

definition rg_inv :: "(agent_record \<Rightarrow> 'doc) \<Rightarrow> 'doc registry \<Rightarrow> bool" where
  "rg_inv ser rg \<longleftrightarrow>
     dict_ok (rg_agents rg) \<and> dict_ok (rg_files rg) \<and> (rg_files rg \<noteq> [] \<longrightarrow> rg_dir_exists rg) \<and>
     (\<forall>i r. dict_get (rg_agents rg) i = Some r \<longrightarrow> ac_id (ar_config r) = i) \<and>
     (\<forall>name d. dict_get (rg_files rg) name = Some d \<longleftrightarrow>
        (\<exists>i r. name = record_file i \<and> dict_get (rg_agents rg) i = Some r \<and> d = ser r))"

lemma record_file_inj [simp]: "record_file i = record_file j \<longleftrightarrow> i = j"
  by (simp add: record_file_def)

lemma rg_inv_new: "rg_inv ser (rg_new [] ex ws)"
  by (simp add: rg_inv_def rg_new_def)

lemma rg_inv_put:
  assumes inv: "rg_inv ser rg" and i: "ac_id (ar_config r) = i"
    and rg': "rg_agents rg' = dict_put i r (rg_agents rg)" "rg_dir_exists rg'"
      "rg_files rg' = dict_put (record_file i) (ser r) (rg_files rg)"
  shows "rg_inv ser rg'"
  using assms by (auto simp: rg_inv_def)

lemma rg_inv_del:
  assumes inv: "rg_inv ser rg"
    and rg': "rg_agents rg' = dict_del i (rg_agents rg)" "rg_dir_exists rg' = rg_dir_exists rg"
      "rg_files rg' = dict_del (record_file i) (rg_files rg)"
  shows "rg_inv ser rg'"
proof -
  have "rg_files rg = [] \<Longrightarrow> rg_files rg' = []" using rg'(3) by simp
  then show ?thesis using assms by (auto simp: rg_inv_def)
qed

lemma dict_del_absent: "dict_get d k = None \<Longrightarrow> dict_del k d = d"
  by (induction d) (auto split: if_splits)

lemma remove_persisted_files:
  "rg_files (remove_persisted True i rg) = dict_del (record_file i) (rg_files rg)"
  "rg_dir_exists (remove_persisted rm i rg) = rg_dir_exists rg"
  by (auto simp: remove_persisted_def dict_has_def dict_del_absent)

lemma rg_inv_store:
  "\<lbrakk>rg_inv ser rg; ac_id (ar_config r) = i\<rbrakk> \<Longrightarrow> rg_inv ser (fst (store_entry ser Written i r rg))"
  by (rule rg_inv_put [of ser rg r i]) (simp_all add: store_entry_def)

lemma rg_inv_step:
  assumes inv: "rg_inv ser rg" and clean: "clean_op op"
  shows "rg_inv ser (apply_op ser op rg)"
proof -
  have key: "ac_id (ar_config r) = i" if "dict_get (rg_agents rg) i = Some r" for i r
    using inv that by (auto simp: rg_inv_def)
  show ?thesis
  proof (cases op)
    case (OpCreate w now cfg)
    then show ?thesis
      using inv clean
      by (auto simp: create_agent_def Let_def fresh_record_def
          intro: rg_inv_put [OF inv, of "fresh_record cfg now" "ac_id cfg"])
  next
    case (OpRegisterSystem w now cfg)
    then show ?thesis
      using inv clean
      by (auto simp: register_system_agent_def Let_def fresh_record_def
          intro: rg_inv_put [OF inv, of "fresh_record (cfg\<lparr>ac_role := \<lparr>role_allow = [''*''], role_deny = []\<rparr>\<rparr>) now" "ac_id cfg"])
  next
    case (OpTransition w now i s)
    then show ?thesis
      using inv clean key
      by (auto simp: transition_def split: option.splits intro!: rg_inv_store)
  next
    case (OpForce w now i s)
    then show ?thesis
      using inv clean key
      by (auto simp: force_state_def split: option.splits intro!: rg_inv_store)
  next
    case (OpUpdate w now i cfg)
    then show ?thesis
      using inv clean
      by (auto simp: update_config_def split: option.splits intro!: rg_inv_store)
  next
    case (OpDelete mv rm stamp i)
    then show ?thesis
      using inv clean
      by (auto simp: delete_agent_def remove_persisted_files split: option.splits
          intro!: rg_inv_del [OF inv])
  qed (use clean in simp)
qed

interpretation rg: invariant_machine "\<lambda>rg. \<exists>ex ws. rg = rg_new [] ex ws"
    "\<lambda>rg op rg'. clean_op op \<and> rg' = apply_op ser op rg" "rg_inv ser" for ser
  by unfold_locales (auto intro: rg_inv_new rg_inv_step)

section \<open>Reloading\<close>

text \<open>An identifier whose file \<open>load_from_disk\<close> finds again.\<close>

definition plain_id :: "string \<Rightarrow> bool" where
  "plain_id i \<longleftrightarrow> i \<noteq> [] \<and> CHR ''/'' \<notin> set i"

lemma plain_id_listed:
  "plain_id i \<Longrightarrow> listed (record_file i) \<and> has_json_extension (record_file i)"
  by (auto simp: plain_id_def listed_def has_json_extension_def record_file_def suffix_def)

lemma load_files_all:
  assumes "\<And>name d. (name, d) \<in> set fs \<Longrightarrow>
      \<exists>i r. name = record_file i \<and> plain_id i \<and> rd name \<and> de d = Some r \<and> ac_id (ar_config r) = i"
    and "dict_ok fs"
  shows "\<exists>rg'. load_files de rd fs n rg = (rg', Ok (n + length fs)) \<and>
    rg_files rg' = rg_files rg \<and>
    (\<forall>i. dict_get (rg_agents rg') i = or_else (Option.bind (dict_get fs (record_file i)) de) (dict_get (rg_agents rg) i))"
  using assms
proof (induction fs arbitrary: n rg)
  case Nil
  then show ?case by (simp add: or_else_def)
next
  case (Cons f fs)
  obtain name d where f: "f = (name, d)" by (cases f)
  obtain i r where i: "name = record_file i" "plain_id i" "rd name" "de d = Some r" "ac_id (ar_config r) = i"
    using Cons.prems(1) [of name d] f by auto
  let ?rg = "rg\<lparr>rg_agents := dict_put i r (rg_agents rg)\<rparr>"
  have ok: "dict_ok fs" and nin: "dict_get fs (record_file i) = None"
    using Cons.prems(2) by (auto simp: dict_ok_def f i(1) dict_get_def map_of_eq_None_iff)
  obtain rg' where rg': "load_files de rd fs (Suc n) ?rg = (rg', Ok (Suc n + length fs))"
    "rg_files rg' = rg_files rg"
    "\<forall>j. dict_get (rg_agents rg') j = or_else (Option.bind (dict_get fs (record_file j)) de) (dict_get (rg_agents ?rg) j)"
    using Cons.IH [OF _ ok, of "Suc n" ?rg] Cons.prems(1) by auto
  have "load_files de rd (f # fs) n rg = load_files de rd fs (Suc n) ?rg"
    using i plain_id_listed [OF i(2)] by (simp add: f)
  then show ?case
    using rg' nin i(4) by (auto simp: f i(1) or_else_def)
qed

lemma length_dict: "dict_ok d \<Longrightarrow> length d = card {k. dict_get d k \<noteq> None}"
proof -
  assume "dict_ok d"
  then have "length d = card (set (dict_keys d))"
    by (metis dict_keys_def dict_ok_def distinct_card length_map)
  moreover have "set (dict_keys d) = {k. dict_get d k \<noteq> None}"
    using dict.keys_get by fastforce
  ultimately show ?thesis by simp
qed

lemma rg_inv_file:
  "rg_inv ser rg \<Longrightarrow> dict_get (rg_files rg) (record_file i) = map_option ser (dict_get (rg_agents rg) i)"
proof -
  assume inv: "rg_inv ser rg"
  have files: "dict_get (rg_files rg) name = Some d \<longleftrightarrow>
      (\<exists>i r. name = record_file i \<and> dict_get (rg_agents rg) i = Some r \<and> d = ser r)" for name d
    using inv by (auto simp: rg_inv_def)
  show ?thesis
  proof (cases "dict_get (rg_agents rg) i")
    case None
    then show ?thesis
      by (cases "dict_get (rg_files rg) (record_file i)") (use files in auto)
  next
    case (Some r)
    then show ?thesis using files [of "record_file i" "ser r"] by auto
  qed
qed

lemma rg_inv_length: "rg_inv ser rg \<Longrightarrow> length (rg_files rg) = length (rg_agents rg)"
proof -
  assume inv: "rg_inv ser rg"
  have "{n. dict_get (rg_files rg) n \<noteq> None} = record_file ` {i. dict_get (rg_agents rg) i \<noteq> None}"
    using inv by (auto simp: rg_inv_def)
  moreover have "inj record_file" by (auto intro: injI)
  ultimately show ?thesis
    using inv by (simp add: length_dict rg_inv_def card_image inj_on_subset)
qed

lemma reload:
  assumes inv: "rg_inv ser rg" and de: "\<And>i r. dict_get (rg_agents rg) i = Some r \<Longrightarrow> de (ser r) = Some r"
    and plain: "\<forall>i. dict_get (rg_agents rg) i \<noteq> None \<longrightarrow> plain_id i"
    and rd: "\<And>name. rd name"
  shows "\<exists>rg'. load_from_disk de rd (rg_new (rg_files rg) (rg_dir_exists rg) ws) = (rg', Ok (length (rg_agents rg))) \<and>
    (\<forall>i. dict_get (rg_agents rg') i = dict_get (rg_agents rg) i)"
proof (cases "rg_dir_exists rg")
  case False
  then have "rg_files rg = []" using inv by (auto simp: rg_inv_def)
  moreover from this have "dict_get (rg_agents rg) i = None" for i
    using rg_inv_file [OF inv, of i] by simp
  ultimately show ?thesis
    using False rg_inv_length [OF inv] by (simp add: load_from_disk_def rg_new_def)
next
  case True
  let ?rg = "rg_new (rg_files rg) (rg_dir_exists rg) ws"
  have "\<exists>i r. name = record_file i \<and> plain_id i \<and> rd name \<and> de d = Some r \<and> ac_id (ar_config r) = i"
    if "(name, d) \<in> set (rg_files rg)" for name d
  proof -
    have "dict_get (rg_files rg) name = Some d"
      using inv that by (auto simp: rg_inv_def dict_mem_get)
    then obtain i r where "name = record_file i" "dict_get (rg_agents rg) i = Some r" "d = ser r"
      using inv by (auto simp: rg_inv_def)
    then show ?thesis using inv de plain rd by (auto simp: rg_inv_def)
  qed
  then obtain rg' where rg': "load_files de rd (rg_files rg) 0 ?rg = (rg', Ok (0 + length (rg_files rg)))"
    "\<forall>i. dict_get (rg_agents rg') i = or_else (Option.bind (dict_get (rg_files rg) (record_file i)) de) (dict_get (rg_agents ?rg) i)"
    using load_files_all [of "rg_files rg" rd de 0 ?rg] inv by (auto simp: rg_inv_def)
  have "dict_get (rg_agents rg') i = dict_get (rg_agents rg) i" for i
    using rg'(2) rg_inv_file [OF inv, of i] de
    by (cases "dict_get (rg_agents rg) i") (auto simp: or_else_def rg_new_def)
  then show ?thesis
    using rg'(1) True rg_inv_length [OF inv] by (simp add: load_from_disk_def rg_new_def)
qed

section \<open>Start-up\<close>

definition settled :: "string \<Rightarrow> int \<Rightarrow> agent_record \<Rightarrow> agent_record" where
  "settled i now r =
     (if i = ''system'' \<and> ar_state r \<noteq> Running then r\<lparr>ar_state := Running, ar_updated_at := now\<rparr>
      else if ar_state r \<in> {Starting, Stopping} then r\<lparr>ar_state := Stopped, ar_updated_at := now\<rparr>
      else r)"

lemma fix_stale_get:
  "dict_get (rg_agents rg) i = Some r \<Longrightarrow>
   dict_get (rg_agents (fix_stale_entry ser w now (i, r) rg)) j =
     (if j = i then Some (settled i now r) else dict_get (rg_agents rg) j)"
  by (auto simp: fix_stale_entry_def force_state_def settled_def)

lemma fix_all_get:
  "\<lbrakk>distinct (map fst xs); \<forall>e\<in>set xs. dict_get (rg_agents rg) (fst e) = Some (snd e)\<rbrakk>
   \<Longrightarrow> dict_get (rg_agents (fold (fix_stale_entry ser w now) xs rg)) j =
     (if j \<in> set (map fst xs) then map_option (settled j now) (dict_get (rg_agents rg) j)
      else dict_get (rg_agents rg) j)"
proof (induction xs arbitrary: rg)
  case Nil
  then show ?case by simp
next
  case (Cons e xs)
  obtain i r where e: "e = (i, r)" by (cases e)
  have g: "dict_get (rg_agents rg) i = Some r" using Cons.prems(2) by (simp add: e)
  let ?rg = "fix_stale_entry ser w now (i, r) rg"
  have "\<forall>e\<in>set xs. dict_get (rg_agents ?rg) (fst e) = Some (snd e)"
    using Cons.prems by (auto simp: fix_stale_get [OF g] e image_iff)
  then show ?case
    using Cons g by (auto simp: e fix_stale_get [OF g])
qed

lemma load_files_ok: "dict_ok (rg_agents rg) \<Longrightarrow> dict_ok (rg_agents (fst (load_files de rd fs n rg)))"
  by (induction de rd fs n rg rule: load_files.induct) (auto split: option.splits)

lemma load_ok: "dict_ok (rg_agents rg) \<Longrightarrow> dict_ok (rg_agents (fst (load_from_disk de rd rg)))"
  by (simp add: load_from_disk_def load_files_ok)

lemma register_ok:
  "dict_ok (rg_agents rg) \<Longrightarrow> dict_ok (rg_agents (fst (register_system_agent ser w now cfg rg)))"
proof -
  let ?r = "fresh_record (cfg\<lparr>ac_role := \<lparr>role_allow = [''*''], role_deny = []\<rparr>\<rparr>) now"
  obtain rg1 x where p: "persist ser w (ac_id cfg) ?r rg = (rg1, x)"
    by fastforce
  have "rg_agents rg1 = rg_agents rg"
    using persist_agents(1) [of ser w "ac_id cfg" ?r rg] unfolding p by simp
  then show "dict_ok (rg_agents rg) \<Longrightarrow> ?thesis"
    by (auto simp: register_system_agent_def Let_def p split: sum.splits)
qed

lemma boot_get:
  assumes "dict_ok (rg_agents rg)" "boot_registry ser de rd w now cfg rg = (loaded, booted)"
  shows "dict_get (rg_agents booted) i = map_option (settled i now) (dict_get (rg_agents loaded) i)"
proof -
  have ok: "dict_ok (rg_agents loaded)"
    using assms by (auto simp: boot_registry_def Let_def intro: load_ok register_ok)
  have b: "booted = fold (fix_stale_entry ser w now) (rg_agents loaded) loaded"
    using assms(2) by (auto simp: boot_registry_def Let_def)
  have "\<forall>e\<in>set (rg_agents loaded). dict_get (rg_agents loaded) (fst e) = Some (snd e)"
    using ok by (auto simp: dict_mem_get)
  moreover have "distinct (map fst (rg_agents loaded))" using ok by (simp add: dict_ok_def)
  ultimately show ?thesis
    using dict.keys_get [of i "rg_agents loaded"]
    by (auto simp: b fix_all_get dict_keys_def)
qed

section \<open>Properties\<close>

text \<open>
  C5. Whatever operation runs on the registry, whether its file writes succeed or not: an agent that is there
  afterwards was there before with the same state, or its state changed along a transition of the state machine,
  or it is new and Created, unless the operation is a forced reset, the registration of the system agent, or a load
  from disk that found exactly this record in a file of the directory.
\<close>

theorem lifecycle_respected:
  assumes "dict_get (rg_agents (apply_op ser op rg)) i = Some r'"
  shows "forces op
     \<or> (\<exists>de rd. op = OpLoad de rd \<and> (\<exists>(name, d)\<in>set (rg_files rg). de d = Some r' \<and> ac_id (ar_config r') = i))
     \<or> (case dict_get (rg_agents rg) i of
          None \<Rightarrow> ar_state r' = Created
        | Some r \<Rightarrow> ar_state r' = ar_state r \<or> is_valid_transition (ar_state r) (ar_state r'))"
  using step_state [OF _ _ assms] load_state [OF _ assms] by (cases "forces op"; cases "loads op") auto

definition demo_reg :: "agent_record registry" where
  "demo_reg = (rg_new [] False [])\<lparr>rg_agents := [(''a'', fresh_record (blank_agent ''a'') 0)]\<rparr>"

theorem lifecycle_respected_witness:
  "\<exists>r'. dict_get (rg_agents (apply_op id (OpTransition Written 1 ''a'' Starting) demo_reg)) ''a'' = Some r' \<and>
     ar_state r' = Starting \<and> is_valid_transition Created Starting"
proof -
  let ?op = "OpTransition Written 1 ''a'' Starting :: agent_record registry_op"
  obtain r' where r': "dict_get (rg_agents (apply_op id ?op demo_reg)) ''a'' = Some r'" "ar_state r' = Starting"
    by (simp add: demo_reg_def rg_new_def transition_def fresh_record_def is_valid_transition_def)
  from lifecycle_respected [OF r'(1)] r' show ?thesis
    by (auto simp: demo_reg_def fresh_record_def)
qed

text \<open>
  C6. After any sequence of operations from an empty registry whose file writes succeed, and that loads nothing, a
  new registry that loads the directory holds exactly the same agents, if each record in the registry survives
  serialization and each identifier is usable as a file name (not empty, no slash). Neither is enforced by the
  registry: an empty fallback chain of a model is lost in the file, and an identifier with a slash is not listed.
\<close>

theorem reload_restores_registry:
  assumes "exec (\<lambda>rg op rg'. clean_op op \<and> rg' = apply_op ser op rg) (rg_new [] ex ws) ops rg"
    and "\<forall>i r. dict_get (rg_agents rg) i = Some r \<longrightarrow> de (ser r) = Some r \<and> plain_id i"
  shows "\<exists>rg'. load_from_disk de (\<lambda>_. True) (rg_new (rg_files rg) (rg_dir_exists rg) ws)
           = (rg', Ok (length (rg_agents rg))) \<and>
    (\<forall>i. dict_get (rg_agents rg') i = dict_get (rg_agents rg) i)"
proof (rule reload)
  show "rg_inv ser rg" by (rule rg.reachable_inv [OF _ assms(1)]) blast
qed (use assms in auto)

theorem reload_restores_registry_witness:
  "\<exists>rg :: agent_record registry. rg_agents rg \<noteq> [] \<and>
     (\<exists>rg'. load_from_disk Some (\<lambda>_. True) (rg_new (rg_files rg) (rg_dir_exists rg) [])
        = (rg', Ok (length (rg_agents rg))) \<and>
      (\<forall>i. dict_get (rg_agents rg') i = dict_get (rg_agents rg) i))"
proof -
  let ?ops = "[OpCreate Written 0 (blank_agent ''a''), OpTransition Written 1 ''a'' Starting] :: agent_record registry_op list"
  let ?rg = "fold (apply_op id) ?ops (rg_new [] False [])"
  have e: "exec (\<lambda>rg op rg'. clean_op op \<and> rg' = apply_op id op rg) (rg_new [] False []) ?ops ?rg"
    by (simp add: exec_simps)
  have a: "rg_agents ?rg = [(''a'', (fresh_record (blank_agent ''a'') 0)\<lparr>ar_state := Starting, ar_updated_at := 1\<rparr>)]"
    by (simp add: rg_new_def create_agent_def Let_def dict_has_def transition_def store_entry_def fresh_record_def
        is_valid_transition_def blank_agent_def)
  have p: "\<forall>i r. dict_get (rg_agents ?rg) i = Some r \<longrightarrow> Some (id r) = Some r \<and> plain_id i"
    by (simp only: a) (simp add: plain_id_def)
  have ne: "rg_agents ?rg \<noteq> []" by (simp only: a list.simps not_False_eq_True)
  have "\<exists>rg'. load_from_disk Some (\<lambda>_. True) (rg_new (rg_files ?rg) (rg_dir_exists ?rg) [])
        = (rg', Ok (length (rg_agents ?rg))) \<and>
      (\<forall>i. dict_get (rg_agents rg') i = dict_get (rg_agents ?rg) i)"
    by (rule reload_restores_registry [OF e p])
  from conjI [OF ne this] show ?thesis by (rule exI [of _ ?rg])
qed

text \<open>
  After start-up, whatever is on disk and whichever reads and writes fail, no agent is Starting
  or Stopping, the system agent is Running, and every other state is as loaded.
\<close>

theorem boot_settles_states:
  assumes "rg_agents rg = []" and "boot_registry ser de rd w now cfg rg = (loaded, booted)"
  shows "\<forall>i. (dict_get (rg_agents booted) i = None \<longleftrightarrow> dict_get (rg_agents loaded) i = None) \<and>
    (\<forall>r r'. dict_get (rg_agents loaded) i = Some r \<longrightarrow> dict_get (rg_agents booted) i = Some r' \<longrightarrow>
       ar_config r' = ar_config r \<and>
       ar_state r' = (if i = ''system'' then Running
         else if ar_state r \<in> {Starting, Stopping} then Stopped else ar_state r))"
  using boot_get [OF _ assms(2)] assms(1) by (auto simp: settled_def)

theorem boot_settles_states_witness:
  "let r = (fresh_record (blank_agent ''a'') 0)\<lparr>ar_state := Stopping\<rparr>;
       (loaded, booted) = boot_registry id Some (\<lambda>_. True) (\<lambda>_. Written) 9 (blank_agent ''system'')
          (rg_new [(''a.json'', r)] True [])
   in map_option ar_state (dict_get (rg_agents booted) ''a'') = Some Stopped \<and>
      map_option ar_state (dict_get (rg_agents booted) ''system'') = Some Running"
proof -
  let ?r = "(fresh_record (blank_agent ''a'') 0)\<lparr>ar_state := Stopping\<rparr>"
  let ?rg = "rg_new [(''a.json'', ?r)] True []"
  obtain l b where lb: "boot_registry id Some (\<lambda>_. True) (\<lambda>_. Written) 9 (blank_agent ''system'') ?rg = (l, b)"
    by fastforce
  have l: "dict_get (rg_agents l) ''a'' = Some ?r" "dict_get (rg_agents l) ''system'' \<noteq> None"
    using lb
    by (auto simp: boot_registry_def Let_def register_system_agent_def load_from_disk_def rg_new_def
        listed_def has_json_extension_def suffix_def record_file_def blank_agent_def fresh_record_def)
  have e: "rg_agents ?rg = []" by (simp add: rg_new_def)
  note p = boot_settles_states [OF e lb, rule_format]
  have "\<exists>r'. dict_get (rg_agents b) ''a'' = Some r' \<and> ar_state r' = Stopped"
    using p [of "''a''"] l(1) by auto
  moreover have "\<exists>r'. dict_get (rg_agents b) ''system'' = Some r' \<and> ar_state r' = Running"
    using p [of "''system''"] l(2) by auto
  ultimately show ?thesis using lb by (auto simp: Let_def)
qed

end
