(* ===== verification/ProcessManager.thy ===== *)
theory ProcessManager
  imports Prelude
begin

text \<open>
  \<open>src/process_manager.rs\<close> and \<open>src/proxy_pool.rs\<close>: the table of child processes with their ports,
  the port allocator over the \<open>AtomicU16\<close> cursor, readiness and health tracking, and the pool of
  proxies that the gateway routes through. Whether a port can be bound, what a probe answers and
  how a child ends are arguments.
\<close>

section \<open>State\<close>

type_synonym port = "16 word"

datatype health_status = Healthy | Unhealthy (consecutive_failures: "32 word") | UnknownHealth

record managed_process =
  mp_agent_id :: string
  mp_port :: port
  mp_pid :: "32 word option"
  mp_health :: health_status

record process_manager =
  pm_processes :: "managed_process dict"
  pm_start :: port
  pm_end :: port
  pm_next :: port

definition pm_new :: "port \<Rightarrow> port \<Rightarrow> process_manager" where
  "pm_new s e = \<lparr>pm_processes = [], pm_start = s, pm_end = e, pm_next = s\<rparr>"

definition pm_with_defaults :: process_manager where
  "pm_with_defaults = pm_new 19001 19100"

datatype process_error =
    NoAvailablePorts port port
  | AlreadyRunning string
  | ProcessNotFound string
  | SpawnFailed string
  | NotReady string

section \<open>Port allocation\<close>

definition is_port_active :: "process_manager \<Rightarrow> port \<Rightarrow> bool" where
  "is_port_active pm p \<longleftrightarrow> (\<exists>e\<in>set (pm_processes pm). mp_port (snd e) = p)"

text \<open>
  The loop body runs \<open>range_len\<close> times; \<open>fetch_add\<close> wraps, and an iteration that finds the cursor
  past the range only resets it.
\<close>

fun allocate_loop :: "(port \<Rightarrow> bool) \<Rightarrow> nat \<Rightarrow> process_manager \<Rightarrow> process_manager \<times> port option" where
  "allocate_loop bindable 0 pm = (pm, None)"
| "allocate_loop bindable (Suc n) pm =
     (let p = pm_next pm in
      if p > pm_end pm then allocate_loop bindable n (pm\<lparr>pm_next := pm_start pm\<rparr>)
      else let pm' = pm\<lparr>pm_next := p + 1\<rparr> in
        if \<not> is_port_active pm p \<and> bindable p then (pm', Some p)
        else allocate_loop bindable n pm')"

definition range_len :: "process_manager \<Rightarrow> nat" where
  "range_len pm = unat (pm_end pm - pm_start pm + 1)"

definition allocate_port ::
  "(port \<Rightarrow> bool) \<Rightarrow> process_manager \<Rightarrow> process_manager \<times> (process_error, port) result" where
  "allocate_port bindable pm =
     (case allocate_loop bindable (range_len pm) pm of
        (pm', Some p) \<Rightarrow> (pm', Ok p)
      | (pm', None) \<Rightarrow> (pm', Err (NoAvailablePorts (pm_start pm) (pm_end pm))))"

section \<open>Processes\<close>

definition active_ports :: "process_manager \<Rightarrow> port list" where
  "active_ports pm = map (mp_port \<circ> snd) (pm_processes pm)"

definition has_agent :: "process_manager \<Rightarrow> string \<Rightarrow> bool" where
  "has_agent pm i = dict_has (pm_processes pm) i"

definition insert_process :: "managed_process \<Rightarrow> process_manager \<Rightarrow> process_manager" where
  "insert_process p pm = pm\<lparr>pm_processes := dict_put (mp_agent_id p) p (pm_processes pm)\<rparr>"

definition remove_process :: "string \<Rightarrow> process_manager \<Rightarrow> process_manager \<times> bool" where
  "remove_process i pm = (pm\<lparr>pm_processes := dict_del i (pm_processes pm)\<rparr>, has_agent pm i)"

text \<open>The environment of the child: later entries of \<open>env\<close> override.\<close>

definition build_command_env :: "string \<Rightarrow> port \<Rightarrow> string dict \<Rightarrow> string dict" where
  "build_command_env i p env =
     fold (\<lambda>kv. dict_put (fst kv) (snd kv)) env
       (dict_put ''AGENT_ID'' i (dict_put ''AGENT_PORT'' (show_nat (unat p)) []))"

text \<open>\<open>child\<close> is the process identifier of the spawned child, \<open>None\<close> when spawning fails.\<close>

definition spawn ::
  "(port \<Rightarrow> bool) \<Rightarrow> (string dict \<Rightarrow> 32 word option) \<Rightarrow> string \<Rightarrow> string dict \<Rightarrow> process_manager
   \<Rightarrow> process_manager \<times> (process_error, port) result" where
  "spawn bindable child i env pm =
     (if has_agent pm i then (pm, Err (AlreadyRunning i))
      else case allocate_port bindable pm of
        (pm', Inl e) \<Rightarrow> (pm', Err e)
      | (pm', Inr p) \<Rightarrow>
          (case child (build_command_env i p env) of
             None \<Rightarrow> (pm', Err (SpawnFailed i))
           | Some pid \<Rightarrow>
               (pm'\<lparr>pm_processes := dict_put i \<lparr>mp_agent_id = i, mp_port = p, mp_pid = Some pid,
                  mp_health = UnknownHealth\<rparr> (pm_processes pm')\<rparr>, Ok p)))"

definition set_health :: "string \<Rightarrow> health_status \<Rightarrow> process_manager \<Rightarrow> process_manager" where
  "set_health i h pm =
     (case dict_get (pm_processes pm) i of
        None \<Rightarrow> pm
      | Some p \<Rightarrow> pm\<lparr>pm_processes := dict_put i (p\<lparr>mp_health := h\<rparr>) (pm_processes pm)\<rparr>)"

text \<open>
  The readiness loop over the probes made: each observation is whether the probe succeeded and the
  time elapsed after it; the result lists the delays slept. \<open>None\<close> means still waiting.
\<close>

fun ready_loop :: "duration \<Rightarrow> duration \<Rightarrow> (bool \<times> duration) list \<Rightarrow> duration list \<times> bool option" where
  "ready_loop timeout delay [] = ([], None)"
| "ready_loop timeout delay ((ok, elapsed) # obs) =
     (if ok then ([], Some True)
      else if elapsed \<ge> timeout then ([], Some False)
      else (let (ds, r) = ready_loop timeout (min (delay * 2) 1600000000) obs in (delay # ds, r)))"

definition wait_ready ::
  "string \<Rightarrow> duration \<Rightarrow> (bool \<times> duration) list \<Rightarrow> process_manager
   \<Rightarrow> process_manager \<times> (process_error, unit) result option" where
  "wait_ready i timeout obs pm =
     (if \<not> has_agent pm i then (pm, Some (Err (ProcessNotFound i)))
      else case snd (ready_loop timeout 100000000 obs) of
        Some True \<Rightarrow> (set_health i Healthy pm, Some (Ok ()))
      | Some False \<Rightarrow> (pm, Some (Err (NotReady i)))
      | None \<Rightarrow> (pm, None))"

datatype signal = SigTerm | SigKill

datatype exit_result = ExitedInTime | WaitError | DrainTimeout

definition stop_process ::
  "string \<Rightarrow> exit_result \<Rightarrow> process_manager
   \<Rightarrow> process_manager \<times> (32 word \<times> signal) list \<times> (process_error, unit) result" where
  "stop_process i ex pm =
     (case dict_get (pm_processes pm) i of
        None \<Rightarrow> (pm, [], Err (ProcessNotFound i))
      | Some p \<Rightarrow>
          (pm\<lparr>pm_processes := dict_del i (pm_processes pm)\<rparr>,
           (case mp_pid p of None \<Rightarrow> []
            | Some pid \<Rightarrow> (pid, SigTerm) # (if ex = DrainTimeout then [(pid, SigKill)] else [])),
           Ok ()))"

definition health_check :: "string \<Rightarrow> bool \<Rightarrow> process_manager \<Rightarrow> process_manager \<times> health_status" where
  "health_check i probe_ok pm =
     (case dict_get (pm_processes pm) i of
        None \<Rightarrow> (pm, UnknownHealth)
      | Some p \<Rightarrow>
          let st = (if probe_ok then Healthy
                    else Unhealthy ((case mp_health p of Unhealthy n \<Rightarrow> n | _ \<Rightarrow> 0) + 1))
          in (set_health i st pm, st))"

text \<open>One tick of the monitor: every managed agent is checked, those at three failures reported.\<close>

fun monitor_tick :: "(string \<Rightarrow> bool) \<Rightarrow> string list \<Rightarrow> process_manager \<Rightarrow> process_manager \<times> (string \<times> 32 word) list" where
  "monitor_tick probe [] pm = (pm, [])"
| "monitor_tick probe (i # is) pm =
     (let (pm1, st) = health_check i (probe i) pm;
          (pm2, reports) = monitor_tick probe is pm1
      in (pm2, (case st of Unhealthy n \<Rightarrow> if n \<ge> 3 then [(i, n)] else [] | _ \<Rightarrow> []) @ reports))"

section \<open>The proxy pool\<close>

record remote_agent_proxy =
  rp_id :: string
  rp_url :: string
  rp_port :: port

type_synonym proxy_pool = "remote_agent_proxy dict"

definition register_proxy :: "string \<Rightarrow> port \<Rightarrow> proxy_pool \<Rightarrow> proxy_pool" where
  "register_proxy i p pool =
     dict_put i \<lparr>rp_id = i, rp_url = ''http://127.0.0.1:'' @ show_nat (unat p), rp_port = p\<rparr> pool"

definition remove_proxy :: "string \<Rightarrow> proxy_pool \<Rightarrow> proxy_pool \<times> bool" where
  "remove_proxy i pool = (dict_del i pool, dict_has pool i)"

definition get_proxy :: "proxy_pool \<Rightarrow> string \<Rightarrow> remote_agent_proxy option" where
  "get_proxy pool i = dict_get pool i"

section \<open>The allocator\<close>

text \<open>The range is proper and ends before 65535, and the cursor is in it or just past it.\<close>

definition range_ok :: "process_manager \<Rightarrow> bool" where
  "range_ok pm \<longleftrightarrow> pm_start pm \<le> pm_end pm \<and> pm_end pm < 65535 \<and>
     pm_start pm \<le> pm_next pm \<and> pm_next pm \<le> pm_end pm + 1"

definition port_taken :: "(port \<Rightarrow> bool) \<Rightarrow> process_manager \<Rightarrow> port \<Rightarrow> bool" where
  "port_taken bindable pm p \<longleftrightarrow> is_port_active pm p \<or> \<not> bindable p"

lemma port_Suc: "p < (65535 :: port) \<Longrightarrow> unat (p + 1) = Suc (unat p)"
  by (simp add: unat_word_ariths word_less_nat_alt)

lemma range_ok_unat:
  "range_ok pm \<longleftrightarrow> unat (pm_start pm) \<le> unat (pm_end pm) \<and> unat (pm_end pm) < 65535 \<and>
     unat (pm_start pm) \<le> unat (pm_next pm) \<and> unat (pm_next pm) \<le> Suc (unat (pm_end pm))"
  by (auto simp: range_ok_def word_le_nat_alt word_less_nat_alt port_Suc)

lemma range_len_unat:
  assumes "range_ok pm"
  shows "range_len pm = Suc (unat (pm_end pm) - unat (pm_start pm))"
proof -
  have d: "unat (pm_end pm - pm_start pm) = unat (pm_end pm) - unat (pm_start pm)"
    using assms by (intro unat_sub) (simp add: range_ok_def)
  then have "pm_end pm - pm_start pm < 65535"
    using assms by (auto simp: range_ok_unat word_less_nat_alt)
  from port_Suc [OF this] d show ?thesis by (simp add: range_len_def)
qed

lemma port_taken_cong: "pm_processes pm = pm_processes pm' \<Longrightarrow> port_taken b pm = port_taken b pm'"
  by (simp add: port_taken_def is_port_active_def fun_eq_iff)

lemma port_taken_next [simp]: "port_taken b (pm\<lparr>pm_next := q\<rparr>) = port_taken b pm"
  by (rule port_taken_cong) simp

lemma allocate_Suc:
  "allocate_loop b (Suc n) pm =
     (if pm_next pm > pm_end pm then allocate_loop b n (pm\<lparr>pm_next := pm_start pm\<rparr>)
      else if port_taken b pm (pm_next pm) then allocate_loop b n (pm\<lparr>pm_next := pm_next pm + 1\<rparr>)
      else (pm\<lparr>pm_next := pm_next pm + 1\<rparr>, Some (pm_next pm)))"
  by (simp add: Let_def port_taken_def)

lemmas allocate_numeral = allocate_Suc [of _ "pred_numeral k" for k, folded numeral_eq_Suc]

declare allocate_loop.simps(2) [simp del]

lemma allocate_frame:
  "allocate_loop b n pm = (pm', r) \<Longrightarrow>
   pm_processes pm' = pm_processes pm \<and> pm_start pm' = pm_start pm \<and> pm_end pm' = pm_end pm"
proof (induction n arbitrary: pm)
  case (Suc n)
  show ?case
    using Suc.prems Suc.IH [of "pm\<lparr>pm_next := pm_start pm\<rparr>"] Suc.IH [of "pm\<lparr>pm_next := pm_next pm + 1\<rparr>"]
    by (auto simp: allocate_Suc split: if_splits)
qed auto

lemma allocate_split:
  "allocate_loop b (n + m) pm =
     (case allocate_loop b n pm of (pm', Some p) \<Rightarrow> (pm', Some p) | (pm', None) \<Rightarrow> allocate_loop b m pm')"
  by (induction n arbitrary: pm) (simp_all add: allocate_Suc)

lemma range_ok_reset: "range_ok pm \<Longrightarrow> range_ok (pm\<lparr>pm_next := pm_start pm\<rparr>)"
  by (auto simp: range_ok_unat)

lemma next_Suc:
  assumes "range_ok pm" "\<not> pm_next pm > pm_end pm"
  shows "unat (pm_next pm + 1) = Suc (unat (pm_next pm))" "range_ok (pm\<lparr>pm_next := pm_next pm + 1\<rparr>)"
proof -
  show "unat (pm_next pm + 1) = Suc (unat (pm_next pm))"
    using assms by (intro port_Suc) (auto simp: range_ok_def)
  then show "range_ok (pm\<lparr>pm_next := pm_next pm + 1\<rparr>)"
    using assms by (simp add: range_ok_unat word_less_nat_alt)
qed

lemma allocate_loop_Some:
  "\<lbrakk>allocate_loop b n pm = (pm', Some p); range_ok pm\<rbrakk>
   \<Longrightarrow> range_ok pm' \<and> pm_start pm \<le> p \<and> p \<le> pm_end pm \<and> \<not> port_taken b pm p"
proof (induction n arbitrary: pm)
  case 0
  then show ?case by simp
next
  case (Suc n)
  consider (wrap) "pm_next pm > pm_end pm"
    | (taken) "\<not> pm_next pm > pm_end pm" "port_taken b pm (pm_next pm)"
    | (free) "\<not> pm_next pm > pm_end pm" "\<not> port_taken b pm (pm_next pm)" by blast
  then show ?case
  proof cases
    case wrap
    then show ?thesis
      using Suc.IH [of "pm\<lparr>pm_next := pm_start pm\<rparr>"] Suc.prems range_ok_reset
      by (simp add: allocate_Suc)
  next
    case taken
    then show ?thesis
      using Suc.IH [of "pm\<lparr>pm_next := pm_next pm + 1\<rparr>"] Suc.prems next_Suc(2)
      by (simp add: allocate_Suc)
  next
    case free
    then show ?thesis
      using Suc.prems next_Suc(2) by (auto simp: allocate_Suc range_ok_def)
  qed
qed

text \<open>A stretch without wrap-around that finds nothing has met only taken ports.\<close>

lemma allocate_sweep:
  "\<lbrakk>allocate_loop b n pm = (pm', None); range_ok pm; unat (pm_next pm) + n \<le> Suc (unat (pm_end pm))\<rbrakk>
   \<Longrightarrow> unat (pm_next pm') = unat (pm_next pm) + n \<and>
       (\<forall>q. unat (pm_next pm) \<le> unat q \<and> unat q < unat (pm_next pm) + n \<longrightarrow> port_taken b pm q)"
proof (induction n arbitrary: pm)
  case 0
  then show ?case by auto
next
  case (Suc n)
  let ?p = "pm_next pm"
  let ?pm = "pm\<lparr>pm_next := ?p + 1\<rparr>"
  have le: "\<not> ?p > pm_end pm" using Suc.prems(3) by (simp add: word_less_nat_alt)
  note p1 = next_Suc(1) [OF Suc.prems(2) le] and ok = next_Suc(2) [OF Suc.prems(2) le]
  have tk: "port_taken b pm ?p" and l: "allocate_loop b n ?pm = (pm', None)"
    using Suc.prems(1) le by (auto simp: allocate_Suc split: if_splits)
  have ih: "unat (pm_next pm') = unat (?p + 1) + n"
    "\<forall>q. unat (?p + 1) \<le> unat q \<and> unat q < unat (?p + 1) + n \<longrightarrow> port_taken b pm q"
    using Suc.IH [OF l ok] Suc.prems(3) p1 by simp_all
  have "port_taken b pm q" if "unat ?p \<le> unat q" "unat q < unat ?p + Suc n" for q
  proof (cases "unat q = unat ?p")
    case True
    then have "q = ?p" by (simp add: word_unat_eq_iff)
    then show ?thesis using tk by simp
  next
    case False
    then show ?thesis using ih(2) that p1 by simp
  qed
  then show ?case using ih(1) p1 by simp
qed

lemma allocate_failure:
  assumes ok: "range_ok pm" and f: "allocate_loop b (range_len pm) pm = (pm', None)"
  shows "\<forall>q. pm_start pm \<le> q \<and> q \<le> pm_end pm \<and> q \<noteq> pm_next pm' \<longrightarrow> port_taken b pm q"
    and "range_ok pm'"
proof -
  let ?s = "unat (pm_start pm)" and ?e = "unat (pm_end pm)" and ?p = "unat (pm_next pm)"
  have bnd: "?s \<le> ?e" "?e < 65535" "?s \<le> ?p" "?p \<le> Suc ?e" using ok by (auto simp: range_ok_unat)
  note len = range_len_unat [OF ok]
  have "(\<forall>q. pm_start pm \<le> q \<and> q \<le> pm_end pm \<and> q \<noteq> pm_next pm' \<longrightarrow> port_taken b pm q) \<and> range_ok pm'"
  proof (cases "?p = ?s")
    case True
    then have n: "?p + range_len pm \<le> Suc ?e" using bnd len by simp
    note sw = allocate_sweep [OF f ok n]
    have "port_taken b pm q" if "pm_start pm \<le> q" "q \<le> pm_end pm" for q
      using sw that True bnd len by (simp add: word_le_nat_alt)
    moreover have "range_ok pm'"
      using sw allocate_frame [OF f] True bnd len by (simp add: range_ok_unat)
    ultimately show ?thesis by blast
  next
    case False
    define n where "n = Suc ?e - ?p"
    define m where "m = ?p - ?s - 1"
    have split: "range_len pm = n + Suc m" using False bnd len by (simp add: n_def m_def)
    obtain pm1 where l1: "allocate_loop b n pm = (pm1, None)"
      and l2: "allocate_loop b (Suc m) pm1 = (pm', None)"
      using f unfolding split allocate_split by (auto split: prod.splits option.splits)
    have sw1: "unat (pm_next pm1) = Suc ?e"
      "\<forall>q. ?p \<le> unat q \<and> unat q < Suc ?e \<longrightarrow> port_taken b pm q"
      using allocate_sweep [OF l1 ok] bnd by (simp_all add: n_def)
    note fr = allocate_frame [OF l1]
    let ?pm = "pm1\<lparr>pm_next := pm_start pm1\<rparr>"
    have l3: "allocate_loop b m ?pm = (pm', None)"
      using l2 sw1(1) fr by (simp add: allocate_Suc word_less_nat_alt)
    have ok3: "range_ok ?pm" using bnd fr by (simp add: range_ok_unat)
    have sw2: "unat (pm_next pm') = ?s + m" "\<forall>q. ?s \<le> unat q \<and> unat q < ?s + m \<longrightarrow> port_taken b pm q"
      using allocate_sweep [OF l3 ok3] fr bnd port_taken_cong [of ?pm pm b] by (simp_all add: m_def)
    have nx: "unat (pm_next pm') = ?p - 1" using sw2(1) False bnd by (simp add: m_def)
    have "port_taken b pm q" if "pm_start pm \<le> q" "q \<le> pm_end pm" "q \<noteq> pm_next pm'" for q
    proof -
      have "unat q \<noteq> ?p - 1" using that(3) nx by (metis word_unat_eq_iff)
      then show ?thesis
        using that(1,2) sw1(2) sw2(2) bnd False by (cases "unat q < ?p") (auto simp: word_le_nat_alt m_def)
    qed
    moreover have "range_ok pm'"
      using nx allocate_frame [OF l3] fr bnd False by (simp add: range_ok_unat) linarith
    ultimately show ?thesis by blast
  qed
  then show "\<forall>q. pm_start pm \<le> q \<and> q \<le> pm_end pm \<and> q \<noteq> pm_next pm' \<longrightarrow> port_taken b pm q" "range_ok pm'"
    by blast+
qed

section \<open>The process table\<close>

datatype pm_op =
    PmSpawn "port \<Rightarrow> bool" "string dict \<Rightarrow> 32 word option" string "string dict"
  | PmWaitReady string duration "(bool \<times> duration) list"
  | PmStop string exit_result
  | PmHealth string bool
  | PmRemove string

fun pm_apply :: "pm_op \<Rightarrow> process_manager \<Rightarrow> process_manager" where
  "pm_apply (PmSpawn b child i env) pm = fst (spawn b child i env pm)"
| "pm_apply (PmWaitReady i t obs) pm = fst (wait_ready i t obs pm)"
| "pm_apply (PmStop i ex) pm = fst (stop_process i ex pm)"
| "pm_apply (PmHealth i ok) pm = fst (health_check i ok pm)"
| "pm_apply (PmRemove i) pm = fst (remove_process i pm)"

text \<open>Every managed process has a port of the range that no other process has.\<close>

definition pm_inv :: "process_manager \<Rightarrow> bool" where
  "pm_inv pm \<longleftrightarrow> range_ok pm \<and> dict_ok (pm_processes pm) \<and>
     (\<forall>i p. dict_get (pm_processes pm) i = Some p \<longrightarrow>
        mp_agent_id p = i \<and> pm_start pm \<le> mp_port p \<and> mp_port p \<le> pm_end pm) \<and>
     (\<forall>i j p q. dict_get (pm_processes pm) i = Some p \<longrightarrow> dict_get (pm_processes pm) j = Some q \<longrightarrow>
        mp_port p = mp_port q \<longrightarrow> i = j)"

lemma pm_inv_new: "\<lbrakk>s \<le> e; e < 65535\<rbrakk> \<Longrightarrow> pm_inv (pm_new s e)"
  by (simp add: pm_inv_def pm_new_def range_ok_unat word_le_nat_alt word_less_nat_alt)

lemma pm_inv_health: "pm_inv pm \<Longrightarrow> pm_inv (set_health i h pm)"
  by (auto simp: pm_inv_def set_health_def range_ok_def split: option.splits)

lemma pm_inv_del: "pm_inv pm \<Longrightarrow> pm_inv (pm\<lparr>pm_processes := dict_del i (pm_processes pm)\<rparr>)"
  by (auto simp: pm_inv_def range_ok_def)

lemma active_portI: "dict_get (pm_processes pm) i = Some p \<Longrightarrow> is_port_active pm (mp_port p)"
  using dict_get_mem unfolding is_port_active_def by force

lemma pm_inv_allocate:
  assumes "pm_inv pm" "allocate_port b pm = (pm', r)"
  shows "pm_inv pm' \<and> pm_processes pm' = pm_processes pm \<and>
    (\<forall>p. r = Ok p \<longrightarrow> pm_start pm' \<le> p \<and> p \<le> pm_end pm' \<and> \<not> is_port_active pm p \<and> b p)"
proof -
  obtain x where l: "allocate_loop b (range_len pm) pm = (pm', x)"
    and r: "r = (case x of Some p \<Rightarrow> Ok p | None \<Rightarrow> Err (NoAvailablePorts (pm_start pm) (pm_end pm)))"
    using assms(2) by (auto simp: allocate_port_def split: prod.splits option.splits)
  have ok: "range_ok pm" using assms(1) by (simp add: pm_inv_def)
  note fr = allocate_frame [OF l]
  have ok': "range_ok pm'"
    using l allocate_loop_Some [OF _ ok] allocate_failure(2) [OF ok] by (cases x) blast+
  then have "pm_inv pm'" using assms(1) fr by (simp add: pm_inv_def)
  moreover have "\<forall>p. r = Ok p \<longrightarrow> pm_start pm' \<le> p \<and> p \<le> pm_end pm' \<and> \<not> is_port_active pm p \<and> b p"
    using l allocate_loop_Some [OF _ ok] fr r by (cases x) (auto simp: port_taken_def)
  ultimately show ?thesis using fr by blast
qed

lemma pm_inv_spawn: "pm_inv pm \<Longrightarrow> pm_inv (fst (spawn b child i env pm))"
proof -
  assume inv: "pm_inv pm"
  obtain pm' r where al: "allocate_port b pm = (pm', r)" by fastforce
  note a = pm_inv_allocate [OF inv al]
  show ?thesis
  proof (cases "has_agent pm i \<or> \<not> is_ok r \<or> (\<exists>p. r = Ok p \<and> child (build_command_env i p env) = None)")
    case True
    then show ?thesis
      using inv a by (auto simp: spawn_def al is_ok_def split: sum.splits option.splits)
  next
    case False
    then obtain p pid where r: "r = Ok p" "child (build_command_env i p env) = Some pid" "\<not> has_agent pm i"
      by (auto simp: is_ok_iff)
    have fresh: "mp_port q \<noteq> p" if "dict_get (pm_processes pm) j = Some q" for j q
      using active_portI [OF that] a r(1) by auto
    show ?thesis
      using a r fresh by (auto simp: spawn_def al pm_inv_def range_ok_def)
  qed
qed

lemma pm_inv_step: "pm_inv pm \<Longrightarrow> pm_inv (pm_apply op pm)"
  by (cases op)
    (auto simp: pm_inv_spawn wait_ready_def stop_process_def health_check_def remove_process_def Let_def
      pm_inv_health pm_inv_del split: option.splits bool.splits)

interpretation pm: invariant_machine
    "\<lambda>pm. \<exists>s e. s \<le> e \<and> e < 65535 \<and> pm = pm_new s e" "\<lambda>pm op pm'. pm' = pm_apply op pm" pm_inv
  by unfold_locales (auto intro: pm_inv_new pm_inv_step)

lemma pm_run: "\<lbrakk>s \<le> e; e < 65535\<rbrakk> \<Longrightarrow> pm_inv (fold pm_apply ops (pm_new s e))"
proof -
  have "exec (\<lambda>pm op pm'. pm' = pm_apply op pm) pm0 ops (fold pm_apply ops pm0)" for pm0
    by (induction ops arbitrary: pm0) (auto intro: exec_cons)
  then show "\<lbrakk>s \<le> e; e < 65535\<rbrakk> \<Longrightarrow> ?thesis"
    using pm.reachable_inv [of "pm_new s e" ops] by blast
qed

lemma pm_range_kept:
  "pm_start (fold pm_apply ops pm) = pm_start pm \<and> pm_end (fold pm_apply ops pm) = pm_end pm"
proof (induction ops arbitrary: pm)
  case (Cons op ops)
  have "pm_start (pm_apply op pm) = pm_start pm \<and> pm_end (pm_apply op pm) = pm_end pm"
    by (cases op)
      (auto simp: spawn_def wait_ready_def stop_process_def health_check_def remove_process_def set_health_def Let_def
        allocate_port_def dest!: allocate_frame split: option.splits bool.splits prod.splits sum.splits)
  then show ?case using Cons.IH by simp
qed simp

section \<open>Properties\<close>

text \<open>
  C7. After any sequence of spawns, waits for readiness, stops, probes and removals, whatever ports bind and
  children start, over a port range that is not empty and ends below 65535: the port of every managed process lies
  in the range, and two different processes never have the same port. \<open>insert_process\<close>, which
  only the tests call, is not among these operations.
\<close>

theorem ports_unique:
  assumes "s \<le> e" and "e < 65535"
  shows "(\<forall>i p. dict_get (pm_processes (fold pm_apply ops (pm_new s e))) i = Some p \<longrightarrow> s \<le> mp_port p \<and> mp_port p \<le> e)
     \<and> (\<forall>i j p q. dict_get (pm_processes (fold pm_apply ops (pm_new s e))) i = Some p
          \<longrightarrow> dict_get (pm_processes (fold pm_apply ops (pm_new s e))) j = Some q \<longrightarrow> i \<noteq> j \<longrightarrow> mp_port p \<noteq> mp_port q)"
proof -
  let ?pm = "fold pm_apply ops (pm_new s e)"
  have "pm_start ?pm = s" "pm_end ?pm = e" using pm_range_kept [of ops "pm_new s e"] by (simp_all add: pm_new_def)
  then show ?thesis using pm_run [OF assms, of ops] unfolding pm_inv_def by metis
qed

definition demo_spawn :: "string \<Rightarrow> pm_op" where
  "demo_spawn i = PmSpawn (\<lambda>_. True) (\<lambda>_. Some 1) i []"

lemmas spawn_simps = spawn_def allocate_port_def range_len_def allocate_Suc allocate_numeral port_taken_def
  is_port_active_def has_agent_def dict_has_def

theorem ports_unique_witness:
  "let pm = fold pm_apply [demo_spawn ''a'', demo_spawn ''b''] (pm_new 10 12) in
   map_option mp_port (dict_get (pm_processes pm) ''a'') = Some 10 \<and>
   map_option mp_port (dict_get (pm_processes pm) ''b'') = Some 11"
proof -
  let ?pm = "fold pm_apply [demo_spawn ''a'', demo_spawn ''b''] (pm_new 10 12)"
  have pm: "?pm = \<lparr>pm_processes = [(''a'', \<lparr>mp_agent_id = ''a'', mp_port = 10, mp_pid = Some 1, mp_health = UnknownHealth\<rparr>),
      (''b'', \<lparr>mp_agent_id = ''b'', mp_port = 11, mp_pid = Some 1, mp_health = UnknownHealth\<rparr>)],
      pm_start = 10, pm_end = 12, pm_next = 12\<rparr>"
    by (simp add: demo_spawn_def pm_new_def spawn_simps)
  have g: "dict_get (pm_processes ?pm) ''a'' = Some \<lparr>mp_agent_id = ''a'', mp_port = 10, mp_pid = Some 1, mp_health = UnknownHealth\<rparr>"
    "dict_get (pm_processes ?pm) ''b'' = Some \<lparr>mp_agent_id = ''b'', mp_port = 11, mp_pid = Some 1, mp_health = UnknownHealth\<rparr>"
    by (simp_all only: pm) simp_all
  have "(10 :: port) \<noteq> 11"
    using ports_unique [of 10 12 "[demo_spawn ''a'', demo_spawn ''b'']", THEN conjunct2, rule_format, OF _ _ g] by simp
  then show ?thesis using g by (simp add: Let_def del: fold_simps)
qed

text \<open>
  When the allocator reports that no port is available, every port of the range except the one
  the cursor is left at is in use or cannot be bound; that one port was never tried, because the
  reset of the cursor spends one iteration, and an immediate second call returns it if it is free.
\<close>

theorem allocation_failure:
  assumes "range_ok pm" and "allocate_port bindable pm = (pm', Err e)"
  shows "(\<forall>q. pm_start pm \<le> q \<and> q \<le> pm_end pm \<and> q \<noteq> pm_next pm' \<longrightarrow> port_taken bindable pm q) \<and>
    (\<forall>q. pm_start pm \<le> q \<and> q \<le> pm_end pm \<and> \<not> port_taken bindable pm q \<longrightarrow>
       snd (allocate_port bindable pm') = Ok q)"
proof -
  have l: "allocate_loop bindable (range_len pm) pm = (pm', None)"
    using assms(2) by (auto simp: allocate_port_def split: prod.splits option.splits)
  note f = allocate_failure [OF assms(1) l] and fr = allocate_frame [OF l]
  have "snd (allocate_port bindable pm') = Ok q"
    if q: "pm_start pm \<le> q" "q \<le> pm_end pm" "\<not> port_taken bindable pm q" for q
  proof -
    have n: "q = pm_next pm'" using f(1) q by blast
    have "\<not> pm_next pm' > pm_end pm'" using q(2) n fr by simp
    moreover have "\<not> port_taken bindable pm' (pm_next pm')"
      using q(3) n fr port_taken_cong [of pm' pm bindable] by simp
    moreover have "range_len pm' = Suc (unat (pm_end pm') - unat (pm_start pm'))"
      by (rule range_len_unat [OF f(2)])
    ultimately show ?thesis by (simp add: allocate_port_def allocate_Suc n)
  qed
  then show ?thesis using f(1) by blast
qed

text \<open>Two ports, the higher one in use and next: the free lower one is reported unavailable.\<close>

theorem allocation_failure_witness:
  "let pm = \<lparr>pm_processes = [(''b'', \<lparr>mp_agent_id = ''b'', mp_port = 11, mp_pid = None, mp_health = Healthy\<rparr>)],
             pm_start = 10, pm_end = 11, pm_next = 11\<rparr>;
       (pm', r) = allocate_port (\<lambda>_. True) pm
   in r = Err (NoAvailablePorts 10 11) \<and> \<not> is_port_active pm 10 \<and> snd (allocate_port (\<lambda>_. True) pm') = Ok 10"
proof -
  let ?pm = "\<lparr>pm_processes = [(''b'', \<lparr>mp_agent_id = ''b'', mp_port = 11, mp_pid = None, mp_health = Healthy\<rparr>)],
             pm_start = 10, pm_end = 11, pm_next = 11\<rparr> :: process_manager"
  have f: "allocate_port (\<lambda>_. True) ?pm = (?pm\<lparr>pm_next := 10\<rparr>, Err (NoAvailablePorts 10 11))"
    by (simp add: spawn_simps)
  have ok: "range_ok ?pm" by (simp add: range_ok_def)
  have free: "\<not> port_taken (\<lambda>_. True) ?pm 10" by (simp add: port_taken_def is_port_active_def)
  have "snd (allocate_port (\<lambda>_. True) (?pm\<lparr>pm_next := 10\<rparr>)) = Ok 10"
    using allocation_failure [OF ok f] free by simp
  then show ?thesis using f free by (simp add: Let_def port_taken_def)
qed

end
