(* ===== verification/RbacBridge.thy ===== *)
theory RbacBridge
  imports AgentRegistry
begin

text \<open>
  \<open>src/rbac_bridge.rs\<close>: allow and deny lists per agent, the admin-only system tools that are
  stripped from user agents, and the rebuild from the agent registry. A denial carries the
  permission itself where the source formats it.
\<close>

section \<open>State\<close>

datatype permission = ToolPerm string | AgentPerm string | AllTools | AllAgents

record rbac_role =
  rr_name :: string
  rr_allow :: "permission set"
  rr_deny :: "permission set"

record access_denied =
  ad_agent_id :: string
  ad_permission :: permission
  ad_reason :: string

type_synonym rbac = "rbac_role dict"

definition system_tools :: "string list" where
  "system_tools = [''agent_create'', ''agent_start'', ''agent_stop'', ''agent_delete'', ''agent_list'',
     ''agent_configure'', ''task_list'', ''task_create'', ''task_cancel'', ''task_delete'', ''fs_list'',
     ''fs_read'', ''fs_search'', ''fs_pwd'', ''fs_tree'', ''send_photo'']"

section \<open>Operations\<close>

definition rbac_denied :: "string \<Rightarrow> permission \<Rightarrow> string \<Rightarrow> (access_denied, unit) result" where
  "rbac_denied i p reason = Err \<lparr>ad_agent_id = i, ad_permission = p, ad_reason = reason\<rparr>"

definition rbac_check :: "rbac \<Rightarrow> string \<Rightarrow> permission \<Rightarrow> (access_denied, unit) result" where
  "rbac_check ac i p =
     (case dict_get ac i of
        None \<Rightarrow> rbac_denied i p ''no role registered''
      | Some r \<Rightarrow>
          if p \<in> rr_deny r then rbac_denied i p ''explicitly denied''
          else if p \<in> rr_allow r then Ok ()
          else (case p of
                  ToolPerm _ \<Rightarrow> if AllTools \<in> rr_allow r then Ok () else rbac_denied i p ''not in allow list''
                | AgentPerm _ \<Rightarrow> if AllAgents \<in> rr_allow r then Ok () else rbac_denied i p ''not in allow list''
                | _ \<Rightarrow> rbac_denied i p ''not in allow list''))"

definition add_role :: "string \<Rightarrow> rbac_role \<Rightarrow> rbac \<Rightarrow> rbac" where
  "add_role i r ac = dict_put i r ac"

definition remove_role :: "string \<Rightarrow> rbac \<Rightarrow> rbac" where
  "remove_role i ac = dict_del i ac"

definition admin_role :: "string \<Rightarrow> rbac_role" where
  "admin_role i = \<lparr>rr_name = i @ ''-admin'', rr_allow = {AllTools, AllAgents}, rr_deny = {}\<rparr>"

definition rbac_register_system_agent :: "string \<Rightarrow> rbac \<Rightarrow> rbac" where
  "rbac_register_system_agent i ac = add_role i (admin_role i) ac"

text \<open>The role and the stripped entries, in the order of the allow list.\<close>

definition user_role :: "string \<Rightarrow> agent_role_config \<Rightarrow> rbac_role" where
  "user_role i rc = \<lparr>rr_name = i @ ''-role'',
     rr_allow = ToolPerm ` set (filter (\<lambda>e. e \<notin> set system_tools) (role_allow rc)),
     rr_deny = ToolPerm ` set (role_deny rc)\<rparr>"

definition rbac_register_agent :: "string \<Rightarrow> agent_role_config \<Rightarrow> rbac \<Rightarrow> rbac \<times> string list" where
  "rbac_register_agent i rc ac =
     (add_role i (user_role i rc) ac, filter (\<lambda>e. e \<in> set system_tools) (role_allow rc))"

definition check_tool :: "rbac \<Rightarrow> string \<Rightarrow> string \<Rightarrow> (access_denied, unit) result" where
  "check_tool ac i t = rbac_check ac i (ToolPerm t)"

definition check_delegation :: "rbac \<Rightarrow> string \<Rightarrow> string \<Rightarrow> (access_denied, unit) result" where
  "check_delegation ac i t = rbac_check ac i (AgentPerm t)"

definition remove_agent :: "string \<Rightarrow> rbac \<Rightarrow> rbac" where
  "remove_agent i ac = remove_role i ac"

definition rebuild_entry :: "'doc registry \<Rightarrow> string \<times> agent_record \<Rightarrow> rbac \<Rightarrow> rbac" where
  "rebuild_entry rg e ac =
     (if is_system_agent rg (fst e) then add_role (fst e) (admin_role (fst e)) ac
      else add_role (fst e) (user_role (fst e) (ac_role (ar_config (snd e)))) ac)"

definition rebuild_from_registry :: "'doc registry \<Rightarrow> rbac" where
  "rebuild_from_registry rg = fold (rebuild_entry rg) (rg_agents rg) []"

section \<open>Decisions\<close>

lemma rbac_check_exact:
  "rbac_check ac i p = Ok () \<longleftrightarrow>
     (\<exists>r. dict_get ac i = Some r \<and> p \<notin> rr_deny r \<and>
        (p \<in> rr_allow r \<or> (\<exists>t. p = ToolPerm t \<and> AllTools \<in> rr_allow r) \<or>
         (\<exists>a. p = AgentPerm a \<and> AllAgents \<in> rr_allow r)))"
  by (auto simp: rbac_check_def rbac_denied_def split: option.splits permission.splits)

lemma user_role_wildcards [simp]:
  "AllTools \<notin> rr_allow (user_role i rc)" "AllAgents \<notin> rr_allow (user_role i rc)"
  by (auto simp: user_role_def)

lemma user_role_tool [simp]:
  "ToolPerm t \<in> rr_allow (user_role i rc) \<longleftrightarrow> t \<in> set (role_allow rc) \<and> t \<notin> set system_tools"
  "ToolPerm t \<in> rr_deny (user_role i rc) \<longleftrightarrow> t \<in> set (role_deny rc)"
  by (auto simp: user_role_def)

lemma get_rebuild_entries:
  "dict_ok es \<Longrightarrow> dict_get (fold (rebuild_entry rg) es ac) i =
     (case dict_get es i of
        None \<Rightarrow> dict_get ac i
      | Some r \<Rightarrow> Some (if is_system_agent rg i then admin_role i else user_role i (ac_role (ar_config r))))"
proof (induction es arbitrary: ac)
  case (Cons e es)
  obtain j r where e: "e = (j, r)" by (cases e)
  have "dict_get es j = None" "dict_ok es"
    using Cons.prems by (simp_all add: e dict_ok_def dict_get_def map_of_eq_None_iff)
  then show ?case
    using Cons by (auto simp: e rebuild_entry_def add_role_def split: option.splits)
qed simp

lemma get_rebuild:
  "dict_ok (rg_agents rg) \<Longrightarrow> dict_get (rebuild_from_registry rg) i =
     map_option (\<lambda>r. if is_system_agent rg i then admin_role i else user_role i (ac_role (ar_config r)))
       (dict_get (rg_agents rg) i)"
  by (simp add: rebuild_from_registry_def get_rebuild_entries split: option.splits)

section \<open>User agents never hold system tools\<close>

text \<open>The operations of the running gateway; \<open>sys\<close> is the identifier of the system agent.\<close>

datatype 'doc rbac_op =
    RbRegister string agent_role_config
  | RbRegisterSystem
  | RbRemove string
  | RbRebuild "'doc registry"

fun rb_apply :: "string \<Rightarrow> 'doc rbac_op \<Rightarrow> rbac \<Rightarrow> rbac" where
  "rb_apply sys (RbRegister i rc) ac = fst (rbac_register_agent i rc ac)"
| "rb_apply sys RbRegisterSystem ac = rbac_register_system_agent sys ac"
| "rb_apply sys (RbRemove i) ac = remove_agent i ac"
| "rb_apply sys (RbRebuild rg) ac = rebuild_from_registry rg"

fun rb_op_ok :: "string \<Rightarrow> 'doc rbac_op \<Rightarrow> bool" where
  "rb_op_ok sys (RbRebuild rg) = (dict_ok (rg_agents rg) \<and> (\<forall>i. is_system_agent rg i \<longrightarrow> i = sys))"
| "rb_op_ok sys _ = True"

definition rb_inv :: "string \<Rightarrow> rbac \<Rightarrow> bool" where
  "rb_inv sys ac \<longleftrightarrow> (\<forall>i r. dict_get ac i = Some r \<longrightarrow> i \<noteq> sys \<longrightarrow>
     rr_allow r \<subseteq> range ToolPerm - ToolPerm ` set system_tools)"

lemma user_role_allow: "rr_allow (user_role i rc) \<subseteq> range ToolPerm - ToolPerm ` set system_tools"
  by (auto simp: user_role_def)

lemma rb_inv_step: "\<lbrakk>rb_inv sys ac; rb_op_ok sys op\<rbrakk> \<Longrightarrow> rb_inv sys (rb_apply sys op ac)"
proof -
  assume inv: "rb_inv sys ac" and ok: "rb_op_ok sys op"
  have "rr_allow r \<subseteq> range ToolPerm - ToolPerm ` set system_tools"
    if g: "dict_get (rb_apply sys op ac) i = Some r" and i: "i \<noteq> sys" for i r
  proof (cases op)
    case (RbRebuild rg)
    then have "\<exists>rc. r = user_role i rc"
      using g i ok by (auto simp: get_rebuild split: if_splits)
    then show ?thesis using user_role_allow by blast
  qed (use inv g i user_role_allow in \<open>auto simp: rb_inv_def rbac_register_agent_def
        rbac_register_system_agent_def remove_agent_def remove_role_def add_role_def split: if_splits\<close>)
  then show ?thesis unfolding rb_inv_def by blast
qed

interpretation rb: invariant_machine "\<lambda>ac. ac = []" "\<lambda>ac op ac'. rb_op_ok sys op \<and> ac' = rb_apply sys op ac"
    "rb_inv sys" for sys
  by unfold_locales (auto simp: rb_inv_def [of _ "[]"] intro: rb_inv_step)

section \<open>Properties\<close>

text \<open>
  No agent other than the system agent can invoke an agent-management, task or file-system
  tool or delegate to another agent: after any sequence of registrations, removals and rebuilds
  from registries, whatever the configured roles ask for, those checks are denied.
\<close>

theorem user_agents_lack_system_tools:
  assumes "exec (\<lambda>ac op ac'. rb_op_ok sys op \<and> ac' = rb_apply sys op ac) [] ops ac"
    and "i \<noteq> sys" and "t \<in> set system_tools"
  shows "\<not> is_ok (check_tool ac i t) \<and> \<not> is_ok (check_delegation ac i a)"
proof -
  have "rb_inv sys ac" by (rule rb.reachable_inv [OF refl assms(1)])
  then have "rr_allow r \<subseteq> range ToolPerm - ToolPerm ` set system_tools" if "dict_get ac i = Some r" for r
    using that assms(2) by (auto simp: rb_inv_def)
  then show ?thesis
    using assms(3) unfolding check_tool_def check_delegation_def is_ok_iff old.unit.exhaust
    by (fastforce simp: rbac_check_exact)
qed

theorem user_agents_lack_system_tools_witness:
  "let rc = \<lparr>role_allow = [''fs_read'', ''web_search'', ''*''], role_deny = []\<rparr>;
       ac = rb_apply ''system'' (RbRegister ''a'' rc :: agent_record rbac_op) []
   in \<not> is_ok (check_tool ac ''a'' ''fs_read'') \<and> is_ok (check_tool ac ''a'' ''web_search'')"
proof -
  let ?op = "RbRegister ''a'' \<lparr>role_allow = [''fs_read'', ''web_search'', ''*''], role_deny = []\<rparr> :: agent_record rbac_op"
  let ?ac = "rb_apply ''system'' ?op []"
  have e: "exec (\<lambda>ac op ac'. rb_op_ok ''system'' op \<and> ac' = rb_apply ''system'' op ac) [] [?op] ?ac"
    by (simp add: exec_simps)
  have "\<not> is_ok (check_tool ?ac ''a'' ''fs_read'')"
    using user_agents_lack_system_tools [OF e, of "''a''" "''fs_read''"] by (simp add: system_tools_def)
  moreover have "is_ok (check_tool ?ac ''a'' ''web_search'')"
    by (simp add: check_tool_def rbac_check_def rbac_register_agent_def add_role_def user_role_def system_tools_def)
  ultimately show ?thesis unfolding Let_def by (rule conjI)
qed

text \<open>
  After a rebuild from the registry, an agent may invoke a tool exactly when it is registered
  and either is the system agent or has the tool in its allow list, not in its deny list, and not
  among the system tools; an agent the registry does not hold may invoke nothing.
\<close>

theorem rebuild_decisions:
  assumes "dict_ok (rg_agents rg)"
  shows "is_ok (check_tool (rebuild_from_registry rg) i t) \<longleftrightarrow>
    (\<exists>r. dict_get (rg_agents rg) i = Some r \<and>
       (is_system_agent rg i \<or>
        t \<in> set (role_allow (ac_role (ar_config r))) \<and> t \<notin> set (role_deny (ac_role (ar_config r))) \<and>
        t \<notin> set system_tools))"
proof -
  have admin: "AllTools \<in> rr_allow (admin_role i)" "ToolPerm t \<notin> rr_deny (admin_role i)"
    by (simp_all add: admin_role_def)
  have u: "is_ok x \<longleftrightarrow> x = Ok ()" for x :: "(access_denied, unit) result"
    by (auto simp: is_ok_iff)
  show ?thesis
    unfolding u check_tool_def rbac_check_exact get_rebuild [OF assms]
    using admin by (cases "dict_get (rg_agents rg) i") auto
qed

theorem rebuild_decisions_witness:
  "let rg = (rg_new [] True [] :: agent_record registry)\<lparr>rg_agents := [(''a'', fresh_record
       ((blank_agent ''a'')\<lparr>ac_role := \<lparr>role_allow = [''web''], role_deny = []\<rparr>\<rparr>) 0)]\<rparr>
   in is_ok (check_tool (rebuild_from_registry rg) ''a'' ''web'') \<and>
      \<not> is_ok (check_tool (rebuild_from_registry rg) ''b'' ''web'')"
proof -
  let ?rg = "(rg_new [] True [] :: agent_record registry)\<lparr>rg_agents := [(''a'', fresh_record
       ((blank_agent ''a'')\<lparr>ac_role := \<lparr>role_allow = [''web''], role_deny = []\<rparr>\<rparr>) 0)]\<rparr>"
  have d: "dict_ok (rg_agents ?rg)" by (simp add: dict_ok_def)
  show ?thesis
    unfolding Let_def rebuild_decisions [OF d]
    by (simp add: fresh_record_def system_tools_def)
qed

end
