(* ===== verification/Router.thy ===== *)
theory Router
  imports Channel AgentConfig
begin

text \<open>
  \<open>src/router.rs\<close>: which agent handles an inbound message. The five phases of \<open>resolve_agent\<close> are
  one definition each; the abstract view ranks the bindings by how specific they are and takes
  the first of the best rank.
\<close>

section \<open>State\<close>

record agent_binding =
  ab_channel_type :: string
  ab_account_id :: "string option"
  ab_peer_filter :: "string option"
  ab_agent_id :: string

record routing_match =
  rm_channel :: "string option"
  rm_account_id :: "string option"
  rm_peer :: "json option"

record routing_binding =
  rb_agent_id :: string
  rb_match_rule :: routing_match

record message_router =
  mr_bindings :: "routing_binding list"
  mr_agent_bindings :: "agent_binding list"
  mr_default_agent_id :: string

definition mr_new :: "routing_binding list \<Rightarrow> string \<Rightarrow> message_router" where
  "mr_new bs d = \<lparr>mr_bindings = bs, mr_agent_bindings = [], mr_default_agent_id = d\<rparr>"

section \<open>Updating the bindings\<close>

definition binding_of :: "string \<Rightarrow> channel_binding \<Rightarrow> agent_binding" where
  "binding_of a cb = \<lparr>ab_channel_type = cb_channel_type cb, ab_account_id = cb_account_id cb,
     ab_peer_filter = cb_peer_filter cb, ab_agent_id = a\<rparr>"

definition add_agent_bindings :: "string \<Rightarrow> channel_binding list \<Rightarrow> message_router \<Rightarrow> message_router" where
  "add_agent_bindings a cbs r = r\<lparr>mr_agent_bindings := mr_agent_bindings r @ map (binding_of a) cbs\<rparr>"

definition remove_agent_bindings :: "string \<Rightarrow> message_router \<Rightarrow> message_router" where
  "remove_agent_bindings a r = r\<lparr>mr_agent_bindings := filter (\<lambda>b. ab_agent_id b \<noteq> a) (mr_agent_bindings r)\<rparr>"

definition update_agent_bindings :: "string \<Rightarrow> channel_binding list \<Rightarrow> message_router \<Rightarrow> message_router" where
  "update_agent_bindings a cbs r = add_agent_bindings a cbs (remove_agent_bindings a r)"

section \<open>Resolution\<close>

definition msg_channel :: "inbound_message \<Rightarrow> string" where
  "msg_channel m = show_channel (im_channel_type m)"

definition msg_account :: "inbound_message \<Rightarrow> string option" where
  "msg_account m = (if im_account_id m = [] then None else Some (im_account_id m))"

definition account_matches :: "agent_binding \<Rightarrow> inbound_message \<Rightarrow> bool" where
  "account_matches b m =
     (case (ab_account_id b, msg_account m) of (Some x, Some y) \<Rightarrow> x = y | _ \<Rightarrow> False)"

definition exact_match :: "inbound_message \<Rightarrow> agent_binding \<Rightarrow> bool" where
  "exact_match m b \<longleftrightarrow> ab_channel_type b = msg_channel m \<and> account_matches b m \<and>
     (case ab_peer_filter b of Some p \<Rightarrow> p = im_sender_id m | None \<Rightarrow> False)"

definition account_match :: "inbound_message \<Rightarrow> agent_binding \<Rightarrow> bool" where
  "account_match m b \<longleftrightarrow> ab_channel_type b = msg_channel m \<and> ab_peer_filter b = None \<and> account_matches b m"

definition channel_match :: "inbound_message \<Rightarrow> agent_binding \<Rightarrow> bool" where
  "channel_match m b \<longleftrightarrow>
     ab_channel_type b = msg_channel m \<and> \<not> (ab_account_id b \<noteq> None \<or> ab_peer_filter b \<noteq> None)"

text \<open>A legacy peer rule only constrains when it has both a kind and an id.\<close>

definition legacy_peer_matches :: "inbound_message \<Rightarrow> json option \<Rightarrow> bool" where
  "legacy_peer_matches m peer =
     (case peer of None \<Rightarrow> True
      | Some p \<Rightarrow>
        (case Option.bind (jget p ''kind'') as_str of None \<Rightarrow> True
         | Some kind \<Rightarrow>
           (case Option.bind (jget p ''id'') as_str of None \<Rightarrow> True
            | Some pid \<Rightarrow>
                if kind = ''user'' then
                  dropWhile (\<lambda>c. c = CHR ''@'') pid = im_sender_id m \<or>
                  im_sender_name m = Some (dropWhile (\<lambda>c. c = CHR ''@'') pid)
                else if kind = ''group'' then im_group_id m = Some pid
                else False)))"

definition legacy_match :: "inbound_message \<Rightarrow> routing_binding \<Rightarrow> bool" where
  "legacy_match m b \<longleftrightarrow>
     (let r = rb_match_rule b in
      (case rm_channel r of Some c \<Rightarrow> c = msg_channel m | None \<Rightarrow> True) \<and>
      (case rm_account_id r of Some a \<Rightarrow> msg_account m = Some a | None \<Rightarrow> True) \<and>
      legacy_peer_matches m (rm_peer r))"

definition resolve_legacy :: "message_router \<Rightarrow> inbound_message \<Rightarrow> string" where
  "resolve_legacy r m =
     (case find (legacy_match m) (mr_bindings r) of
        Some b \<Rightarrow> rb_agent_id b | None \<Rightarrow> mr_default_agent_id r)"

definition resolve_agent :: "message_router \<Rightarrow> inbound_message \<Rightarrow> string" where
  "resolve_agent r m =
     (case find (exact_match m) (mr_agent_bindings r) of
        Some b \<Rightarrow> ab_agent_id b
      | None \<Rightarrow>
        (case find (account_match m) (mr_agent_bindings r) of
           Some b \<Rightarrow> ab_agent_id b
         | None \<Rightarrow>
           (case find (channel_match m) (mr_agent_bindings r) of
              Some b \<Rightarrow> ab_agent_id b
            | None \<Rightarrow> resolve_legacy r m)))"

section \<open>Specificity\<close>

text \<open>
  How specific a matching binding is; a binding whose constrained fields are an account, or an
  account and a peer, must agree on them.
\<close>

definition specificity :: "inbound_message \<Rightarrow> agent_binding \<Rightarrow> nat option" where
  "specificity m b =
     (if ab_channel_type b \<noteq> msg_channel m then None
      else case (ab_account_id b, ab_peer_filter b) of
        (None, None) \<Rightarrow> Some 2
      | (Some a, None) \<Rightarrow> if msg_account m = Some a then Some 1 else None
      | (Some a, Some p) \<Rightarrow> if msg_account m = Some a \<and> p = im_sender_id m then Some 0 else None
      | (None, Some p) \<Rightarrow> None)"

definition best_binding :: "inbound_message \<Rightarrow> agent_binding list \<Rightarrow> agent_binding option" where
  "best_binding m bs =
     (case sort_key (\<lambda>b. the (specificity m b)) (filter (\<lambda>b. specificity m b \<noteq> None) bs) of
        [] \<Rightarrow> None | b # _ \<Rightarrow> Some b)"

lemma match_specificity:
  "exact_match m b \<longleftrightarrow> specificity m b = Some 0"
  "account_match m b \<longleftrightarrow> specificity m b = Some 1"
  "channel_match m b \<longleftrightarrow> specificity m b = Some 2"
  by (auto simp: exact_match_def account_match_def channel_match_def specificity_def account_matches_def
      split: option.splits)

lemma specificity_cases:
  "specificity m b \<noteq> None \<Longrightarrow> specificity m b \<in> {Some 0, Some 1, Some 2}"
  by (auto simp: specificity_def split: option.splits if_splits)

lemma find_filter_hd: "find P xs = (case filter P xs of [] \<Rightarrow> None | x # _ \<Rightarrow> Some x)"
  by (induction xs) auto

text \<open>The first element of a stably sorted list is the first one with the least key.\<close>

lemma hd_sort_key:
  "\<lbrakk>sort_key f xs = y # ys; find (\<lambda>x. f x = k) xs = Some z; \<forall>x\<in>set xs. k \<le> f x\<rbrakk> \<Longrightarrow> y = z"
proof -
  assume s: "sort_key f xs = y # ys" and z: "find (\<lambda>x. f x = k) xs = Some z" and le: "\<forall>x\<in>set xs. k \<le> f x"
  have zin: "z \<in> set xs" "f z = k" using z by (auto simp: find_Some_iff)
  have "y \<in> set xs" using s by (metis list.set_intros(1) set_sort)
  then have "k \<le> f y" using le by blast
  moreover have "f y \<le> f z"
  proof -
    have "sorted (map f (y # ys))" using s by (metis sorted_sort_key)
    moreover have "z \<in> set (y # ys)" using s zin(1) by (metis set_sort)
    ultimately show ?thesis by auto
  qed
  ultimately have fy: "f y = k" using zin(2) by simp
  have "filter (\<lambda>x. f x = k) (sort_key f xs) = filter (\<lambda>x. f x = k) xs"
    by (rule sort_key_stable)
  then have "filter (\<lambda>x. f x = k) xs = y # filter (\<lambda>x. f x = k) ys" by (simp add: s fy)
  then show "y = z" using z by (simp add: find_filter_hd)
qed

lemma find_filter:
  "(\<And>x. Q x \<Longrightarrow> P x) \<Longrightarrow> find Q (filter P xs) = find Q xs"
  by (induction xs) auto

lemma best_binding_find:
  "best_binding m bs =
     (case find (\<lambda>b. specificity m b = Some 0) bs of Some b \<Rightarrow> Some b
      | None \<Rightarrow> (case find (\<lambda>b. specificity m b = Some 1) bs of Some b \<Rightarrow> Some b
                  | None \<Rightarrow> find (\<lambda>b. specificity m b = Some 2) bs))"
proof -
  let ?f = "\<lambda>b. the (specificity m b)" and ?xs = "filter (\<lambda>b. specificity m b \<noteq> None) bs"
  have find_eq: "find (\<lambda>b. ?f b = k) ?xs = find (\<lambda>b. specificity m b = Some k) bs" for k
  proof -
    have "find (\<lambda>b. ?f b = k) ?xs = find (\<lambda>b. specificity m b = Some k) ?xs"
      by (rule find_cong) auto
    then show ?thesis
      using find_filter [of "\<lambda>b. specificity m b = Some k" "\<lambda>b. specificity m b \<noteq> None" bs] by simp
  qed
  have least: "best_binding m bs = find (\<lambda>b. specificity m b = Some k) bs"
    if fnd: "find (\<lambda>b. specificity m b = Some k) bs \<noteq> None" and le: "\<forall>x\<in>set ?xs. k \<le> ?f x" for k
  proof -
    obtain z where z': "find (\<lambda>b. specificity m b = Some k) bs = Some z" using fnd by blast
    then have z: "find (\<lambda>b. ?f b = k) ?xs = Some z" using find_eq [of k] by (simp only:)
    then have "z \<in> set ?xs" by (metis find_Some_iff nth_mem)
    then have "z \<in> set (sort_key ?f ?xs)" by (simp only: set_sort)
    then have "sort_key ?f ?xs \<noteq> []" by (metis empty_iff list.set(1))
    then obtain y ys where s: "sort_key ?f ?xs = y # ys" by (meson list.exhaust)
    have "y = z" by (rule hd_sort_key [OF s z le])
    then show ?thesis using s z' unfolding best_binding_def by (simp only: list.case)
  qed
  have vals: "?f x \<in> {0, 1, 2}" if "x \<in> set ?xs" for x
    using specificity_cases [of m x] that by auto
  have none: "?f x \<noteq> k" if "find (\<lambda>b. specificity m b = Some k) bs = None" "x \<in> set ?xs" for k x
    using that by (auto simp: find_None_iff)
  show ?thesis
  proof (cases "find (\<lambda>b. specificity m b = Some 0) bs")
    case (Some b)
    then show ?thesis using least [of 0] by simp
  next
    case n0: None
    show ?thesis
    proof (cases "find (\<lambda>b. specificity m b = Some 1) bs")
      case (Some b)
      have "1 \<le> ?f x" if "x \<in> set ?xs" for x
        using none [OF n0 that] vals [OF that] by simp
      then show ?thesis using least [of 1] Some n0 by simp
    next
      case n1: None
      show ?thesis
      proof (cases "find (\<lambda>b. specificity m b = Some 2) bs")
        case (Some b)
        have "2 \<le> ?f x" if "x \<in> set ?xs" for x
          using none [OF n0 that] none [OF n1 that] vals [OF that] by auto
        then show ?thesis using least [of 2] Some n0 n1 by simp
      next
        case n2: None
        have "False" if "x \<in> set ?xs" for x
          using none [OF n0 that] none [OF n1 that] none [OF n2 that] vals [OF that]
          by (elim insertE emptyE) blast+
        then have "?xs = []" by (metis list.set_intros(1) list.exhaust)
        then show ?thesis unfolding best_binding_def n0 n1 n2 by simp
      qed
    qed
  qed
qed

lemma resolve_agent_best:
  "resolve_agent r m = (case best_binding m (mr_agent_bindings r) of
     Some b \<Rightarrow> ab_agent_id b | None \<Rightarrow> resolve_legacy r m)"
  unfolding resolve_agent_def best_binding_find match_specificity
  by (auto split: option.splits)

section \<open>Bindings of other agents\<close>

lemma specificity_filter_sort:
  "sort_key f (filter P xs) = filter P (sort_key f xs)"
proof (induction xs)
  case (Cons x xs)
  have "filter P (insort_key f x ys) = (if P x then insort_key f x (filter P ys) else filter P ys)"
    if "sorted (map f ys)" for ys
    using that by (auto simp: filter_insort filter_insort_triv)
  then show ?case using Cons by simp
qed simp

lemma best_binding_remove_other:
  "\<lbrakk>best_binding m bs = Some b; Q b\<rbrakk> \<Longrightarrow> best_binding m (filter Q bs) = Some b"
proof -
  let ?f = "\<lambda>b. the (specificity m b)" and ?P = "\<lambda>b. specificity m b \<noteq> None"
  assume b: "best_binding m bs = Some b" and q: "Q b"
  then obtain ys where s: "sort_key ?f (filter ?P bs) = b # ys"
    by (auto simp: best_binding_def split: list.splits)
  have "filter ?P (filter Q bs) = filter Q (filter ?P bs)" by (simp add: conj_commute)
  then have "sort_key ?f (filter ?P (filter Q bs)) = filter Q (b # ys)"
    using s specificity_filter_sort [of ?f Q "filter ?P bs"] by simp
  then show ?thesis using q by (simp add: best_binding_def)
qed

lemma best_binding_None: "best_binding m bs = None \<longleftrightarrow> (\<forall>b\<in>set bs. specificity m b = None)"
proof -
  have "best_binding m bs = None \<longleftrightarrow> sort_key (\<lambda>b. the (specificity m b)) (filter (\<lambda>b. specificity m b \<noteq> None) bs) = []"
    by (auto simp: best_binding_def split: list.splits)
  also have "\<dots> \<longleftrightarrow> filter (\<lambda>b. specificity m b \<noteq> None) bs = []"
    by (metis set_empty set_sort sort_key_simps(1))
  finally show ?thesis by (simp add: filter_empty_conv)
qed

lemma best_binding_Some: "best_binding m bs = Some b \<Longrightarrow> b \<in> set bs \<and> specificity m b \<noteq> None"
proof -
  assume "best_binding m bs = Some b"
  then obtain ys where "sort_key (\<lambda>b. the (specificity m b)) (filter (\<lambda>b. specificity m b \<noteq> None) bs) = b # ys"
    by (auto simp: best_binding_def split: list.splits)
  then have "b \<in> set (filter (\<lambda>b. specificity m b \<noteq> None) bs)" by (metis list.set_intros(1) set_sort)
  then show ?thesis by simp
qed

section \<open>Properties\<close>

text \<open>
  What \<open>src/agent_config.rs\<close> documents of a binding: an account or all of them, and an optional peer or group. The
  more of the two it names, the more specific it is.
\<close>

definition documented_match :: "inbound_message \<Rightarrow> agent_binding \<Rightarrow> bool" where
  "documented_match m b \<longleftrightarrow> ab_channel_type b = msg_channel m
     \<and> (case ab_account_id b of None \<Rightarrow> True | Some a \<Rightarrow> msg_account m = Some a)
     \<and> (case ab_peer_filter b of None \<Rightarrow> True | Some p \<Rightarrow> p = im_sender_id m \<or> im_group_id m = Some p)"

definition constraints :: "agent_binding \<Rightarrow> nat" where
  "constraints b = (if ab_account_id b = None then 0 else 1) + (if ab_peer_filter b = None then 0 else 1)"

definition fully_routed :: "inbound_message \<Rightarrow> agent_binding \<Rightarrow> bool" where
  "fully_routed m b \<longleftrightarrow> ab_peer_filter b = None \<or> (ab_account_id b \<noteq> None \<and> ab_peer_filter b \<noteq> im_group_id m)"

lemma specificity_documented:
  "fully_routed m b \<Longrightarrow> specificity m b = (if documented_match m b then Some (2 - constraints b) else None)"
  by (auto simp: fully_routed_def specificity_def documented_match_def constraints_def split: option.split)

lemma sort_key_same: "(\<And>x. x \<in> set xs \<Longrightarrow> f x = g x) \<Longrightarrow> sort_key f xs = sort_key g xs"
proof (induction xs)
  case (Cons x xs)
  have "insort_key f x ys = insort_key g x ys" if "\<forall>y\<in>set (x # ys). f y = g y" for ys
    using that by (induction ys) auto
  then show ?case using Cons by simp
qed simp

text \<open>
  C20. Let every agent binding that names a peer also name an account, and let its peer not be the group of the
  message. Then the three passes over the bindings pick, of those that match as documented, the one with the most
  constraints (account and peer, then account, then neither), the earliest among equals: the head of the matching
  bindings sorted stably by falling number of constraints. Only when none matches do the legacy rules and then
  the default agent apply.
\<close>

theorem resolve_most_specific:
  assumes "\<forall>b\<in>set (mr_agent_bindings r). ab_peer_filter b \<noteq> None \<longrightarrow>
      ab_account_id b \<noteq> None \<and> ab_peer_filter b \<noteq> im_group_id m"
  shows "resolve_agent r m =
     (case sort_key (\<lambda>b. 2 - constraints b) (filter (documented_match m) (mr_agent_bindings r)) of
        b # _ \<Rightarrow> ab_agent_id b
      | [] \<Rightarrow> resolve_legacy r m)"
proof -
  have spec: "specificity m b = (if documented_match m b then Some (2 - constraints b) else None)"
    if "b \<in> set (mr_agent_bindings r)" for b
    using assms that by (intro specificity_documented) (auto simp: fully_routed_def)
  then have "filter (\<lambda>b. specificity m b \<noteq> None) (mr_agent_bindings r) = filter (documented_match m) (mr_agent_bindings r)"
    by (intro filter_cong) auto
  moreover have "sort_key (\<lambda>b. the (specificity m b)) (filter (documented_match m) (mr_agent_bindings r))
      = sort_key (\<lambda>b. 2 - constraints b) (filter (documented_match m) (mr_agent_bindings r))"
    by (rule sort_key_same) (simp add: spec)
  ultimately show ?thesis
    by (simp add: resolve_agent_best best_binding_def split: list.split)
qed

theorem resolve_most_specific_witness:
  "resolve_agent (add_agent_bindings ''a'' [\<lparr>cb_channel_type = ''slack'', cb_account_id = Some ''default'', cb_peer_filter = Some ''U1''\<rparr>]
       (add_agent_bindings ''b'' [\<lparr>cb_channel_type = ''slack'', cb_account_id = None, cb_peer_filter = None\<rparr>] (mr_new [] ''system'')))
     (plain_message Slack ''U1'' ''hi'') = ''a''"
  by (subst resolve_most_specific)
    (simp_all add: add_agent_bindings_def mr_new_def binding_of_def documented_match_def constraints_def msg_channel_def
      msg_account_def plain_message_def)

text \<open>A filter that names a group never lets a message of the group through: it is compared with the sender.\<close>

lemma group_filter_is_dead:
  "ab_peer_filter b = Some p \<Longrightarrow> p \<noteq> im_sender_id m \<Longrightarrow> \<not> exact_match m b \<and> \<not> account_match m b \<and> \<not> channel_match m b"
  by (simp add: exact_match_def account_match_def channel_match_def)

text \<open>
  Updating one agent's bindings never takes a message away from another agent that its own
  binding wins it for, except to give it to the updated agent; and removing an agent's bindings
  leaves no message routed to it by a binding.
\<close>

theorem update_isolated:
  assumes "best_binding m (mr_agent_bindings r) = Some b" and "ab_agent_id b \<noteq> a"
  shows "resolve_agent (update_agent_bindings a cbs r) m \<in> {ab_agent_id b, a} \<and>
    resolve_agent (remove_agent_bindings a r) m = ab_agent_id b"
proof
  let ?rm = "filter (\<lambda>b. ab_agent_id b \<noteq> a) (mr_agent_bindings r)"
  have rm: "best_binding m ?rm = Some b"
    using assms by (intro best_binding_remove_other) auto
  then show "resolve_agent (remove_agent_bindings a r) m = ab_agent_id b"
    by (simp add: resolve_agent_best remove_agent_bindings_def)
  let ?new = "?rm @ map (binding_of a) cbs"
  have "resolve_agent (update_agent_bindings a cbs r) m = (case best_binding m ?new of
      Some b \<Rightarrow> ab_agent_id b | None \<Rightarrow> resolve_legacy (update_agent_bindings a cbs r) m)"
    by (simp add: resolve_agent_best update_agent_bindings_def add_agent_bindings_def remove_agent_bindings_def
        split: option.split)
  moreover obtain c where c: "best_binding m ?new = Some c"
    using best_binding_Some [OF rm] best_binding_None [of m ?new] by (cases "best_binding m ?new") auto
  moreover have "ab_agent_id c = a \<or> c = b"
  proof (rule disjCI)
    assume ne: "c \<noteq> b"
    show "ab_agent_id c = a"
    proof (rule ccontr)
      assume na: "ab_agent_id c \<noteq> a"
      have "best_binding m (filter (\<lambda>b. ab_agent_id b \<noteq> a) ?new) = Some c"
        by (rule best_binding_remove_other [where Q = "\<lambda>b. ab_agent_id b \<noteq> a", OF c na])
      moreover have "filter (\<lambda>b. ab_agent_id b \<noteq> a) ?new = ?rm"
        by (simp add: filter_empty_conv binding_of_def)
      ultimately show False using rm ne by simp
    qed
  qed
  ultimately show "resolve_agent (update_agent_bindings a cbs r) m \<in> {ab_agent_id b, a}" by auto
qed

definition demo_router :: message_router where
  "demo_router = add_agent_bindings ''b'' [\<lparr>cb_channel_type = ''slack'', cb_account_id = None, cb_peer_filter = None\<rparr>]
     (mr_new [] ''system'')"

theorem update_isolated_witness:
  "let m = plain_message Slack ''U1'' ''hi'';
       cbs = [\<lparr>cb_channel_type = ''slack'', cb_account_id = Some ''default'', cb_peer_filter = None\<rparr>]
   in resolve_agent demo_router m = ''b'' \<and>
      resolve_agent (update_agent_bindings ''a'' cbs demo_router) m \<in> {''b'', ''a''} \<and>
      resolve_agent (remove_agent_bindings ''a'' demo_router) m = ''b''"
proof -
  let ?m = "plain_message Slack ''U1'' ''hi''"
  let ?b = "\<lparr>ab_channel_type = ''slack'', ab_account_id = None, ab_peer_filter = None, ab_agent_id = ''b''\<rparr>"
  have b: "best_binding ?m (mr_agent_bindings demo_router) = Some ?b"
    by (simp add: best_binding_find demo_router_def add_agent_bindings_def mr_new_def binding_of_def
        specificity_def msg_channel_def plain_message_def)
  have n: "ab_agent_id ?b \<noteq> ''a''" by simp
  have r: "resolve_agent demo_router ?m = ''b''" by (simp add: resolve_agent_best b)
  show ?thesis
    using r update_isolated [OF b n] by (simp add: Let_def)
qed

text \<open>
  A binding with a peer filter and no account is dead: no phase ever selects it, so a router
  behaves the same with all such bindings removed. The configuration documents a missing account
  as "all accounts".
\<close>

theorem peer_without_account_is_dead:
  "resolve_agent r m = resolve_agent (r\<lparr>mr_agent_bindings :=
     filter (\<lambda>b. \<not> (ab_account_id b = None \<and> ab_peer_filter b \<noteq> None)) (mr_agent_bindings r)\<rparr>) m"
proof -
  let ?Q = "\<lambda>b. \<not> (ab_account_id b = None \<and> ab_peer_filter b \<noteq> None)"
  have dead: "specificity m b = None" if "\<not> ?Q b" for b
    using that by (auto simp: specificity_def)
  have "best_binding m (mr_agent_bindings r) = best_binding m (filter ?Q (mr_agent_bindings r))"
  proof (cases "best_binding m (mr_agent_bindings r)")
    case None
    then have "best_binding m (filter ?Q (mr_agent_bindings r)) = None"
      unfolding best_binding_None by simp
    then show ?thesis using None by simp
  next
    case (Some b)
    then have "?Q b" using best_binding_Some dead by blast
    from best_binding_remove_other [where Q = ?Q, OF Some this] show ?thesis using Some by simp
  qed
  then show ?thesis by (simp add: resolve_agent_best resolve_legacy_def split: option.split)
qed

end
