(* ===== verification/AgentManagement.thy ===== *)
theory AgentManagement
  imports AgentRegistry ProcessManager RbacBridge Router
begin

text \<open>
  The agent management tools of \<open>src/executable_tools.rs\<close>: create, start, stop, delete and
  configure an agent. Each handler drives the registry, the process manager, the proxy pool, the
  RBAC bridge and the router, in the order of the source. What the file system, the code
  generator, the operating system and the probed agent answer is the argument \<open>io\<close>; a handler
  whose readiness loop has not ended yet has the value \<open>None\<close>.
\<close>

section \<open>State\<close>

record 'doc agents_state =
  ga_registry :: "'doc registry"
  ga_pm :: process_manager
  ga_proxies :: proxy_pool
  ga_rbac :: rbac
  ga_router :: message_router
  ga_events :: "(string \<times> string) list"

text \<open>\<open>io_write n\<close> is the outcome of the handler's \<open>n\<close>-th file write.\<close>

record 'doc mgmt_io =
  io_ser :: "agent_record \<Rightarrow> 'doc"
  io_write :: "nat \<Rightarrow> 'doc write_outcome"
  io_now :: int
  io_build :: "agent_config \<Rightarrow> (string, string) result"
  io_env :: env
  io_global :: category_config
  io_data_dir :: "string \<Rightarrow> string"
  io_bindable :: "port \<Rightarrow> bool"
  io_child :: "string dict \<Rightarrow> 32 word option"
  io_probes :: "(bool \<times> duration) list"
  io_exit :: exit_result
  io_error_text :: "process_error \<Rightarrow> string"
  io_move :: bool
  io_remove :: bool
  io_stamp :: string
  io_unicode_slug :: "string \<Rightarrow> string"
  io_parse :: "json \<Rightarrow> agent_config option"

datatype mgmt_outcome =
    MissingArgument string
  | RegistryFailed registry_error
  | ConfigMismatch string string
  | InvalidConfig
  | CreatedAgent string
  | StartedAgent string port
  | NotStarted string string
  | StoppedAgent string
  | DeletedAgent string
  | ConfiguredAgent string
  | ReconfiguredAgent string port
  | NotRestarted string string

section \<open>Steps the handlers share\<close>

definition emit :: "string \<Rightarrow> string \<Rightarrow> 'doc agents_state \<Rightarrow> 'doc agents_state" where
  "emit i ev s = s\<lparr>ga_events := ga_events s @ [(i, ev)]\<rparr>"

text \<open>A transition whose result the handler drops.\<close>

definition quiet_transition ::
  "'doc mgmt_io \<Rightarrow> nat \<Rightarrow> string \<Rightarrow> lifecycle_state \<Rightarrow> 'doc agents_state \<Rightarrow> 'doc agents_state" where
  "quiet_transition io n i st s =
     s\<lparr>ga_registry := fst (transition (io_ser io) (io_write io n) (io_now io) i st (ga_registry s))\<rparr>"

definition quiet_stop :: "'doc mgmt_io \<Rightarrow> string \<Rightarrow> 'doc agents_state \<Rightarrow> 'doc agents_state" where
  "quiet_stop io i s = s\<lparr>ga_pm := fst (stop_process i (io_exit io) (ga_pm s))\<rparr>"

definition drop_proxy :: "string \<Rightarrow> 'doc agents_state \<Rightarrow> 'doc agents_state" where
  "drop_proxy i s = s\<lparr>ga_proxies := fst (remove_proxy i (ga_proxies s))\<rparr>"

definition drop_bindings :: "string \<Rightarrow> 'doc agents_state \<Rightarrow> 'doc agents_state" where
  "drop_bindings i s = s\<lparr>ga_router := remove_agent_bindings i (ga_router s)\<rparr>"

definition fail_start :: "'doc mgmt_io \<Rightarrow> nat \<Rightarrow> string \<Rightarrow> string \<Rightarrow> 'doc agents_state \<Rightarrow> 'doc agents_state" where
  "fail_start io n i msg s = emit i ''Error'' (quiet_transition io n i (ErrorState msg) s)"

definition effective_model :: "'doc mgmt_io \<Rightarrow> agent_config \<Rightarrow> string" where
  "effective_model io cfg =
     (case resolve_model cfg ''primary'' (io_global io) of Some m \<Rightarrow> m | None \<Rightarrow> ac_model cfg)"

definition launch_env :: "'doc mgmt_io \<Rightarrow> string \<Rightarrow> agent_config \<Rightarrow> string dict" where
  "launch_env io i cfg =
     (let e1 = dict_put ''AGENT_MODEL'' (effective_model io cfg) (dict_put ''AGENT_ID'' i []);
          key = agent_api_key_env cfg;
          e2 = (case io_env io key of Some v \<Rightarrow> dict_put key v e1 | None \<Rightarrow> e1)
      in dict_put ''AGENT_DATA_DIR'' (io_data_dir io i) e2)"

text \<open>
  Build, spawn, wait for readiness, register the proxy: the part that start and configure have in
  common. \<open>during\<close> is the tail of the error texts and write \<open>n\<close> the one of the error transition.
\<close>

definition launch ::
  "'doc mgmt_io \<Rightarrow> nat \<Rightarrow> string \<Rightarrow> string \<Rightarrow> agent_config \<Rightarrow> 'doc agents_state
   \<Rightarrow> ('doc agents_state \<times> (string, port) result) option" where
  "launch io n during i cfg s =
     (case io_build io cfg of
        Inl e \<Rightarrow> Some (fail_start io n i (''build failed'' @ during @ '': '' @ e) s, Err e)
      | Inr path \<Rightarrow>
        (case spawn (io_bindable io) (io_child io) i (launch_env io i cfg) (ga_pm s) of
           (pm, Inl e) \<Rightarrow>
             Some (fail_start io n i (''spawn failed'' @ during @ '': '' @ io_error_text io e) (s\<lparr>ga_pm := pm\<rparr>),
                   Err (io_error_text io e))
         | (pm, Inr p) \<Rightarrow>
           (case wait_ready i 30000000000 (io_probes io) pm of
              (pm', None) \<Rightarrow> None
            | (pm', Some (Inl e)) \<Rightarrow>
                Some (fail_start io n i (''readiness check failed'' @ during @ '': '' @ io_error_text io e)
                        (drop_proxy i (quiet_stop io i (s\<lparr>ga_pm := pm'\<rparr>))),
                      Err (io_error_text io e))
            | (pm', Some (Inr _)) \<Rightarrow>
                Some (s\<lparr>ga_pm := pm', ga_proxies := register_proxy i p (ga_proxies s)\<rparr>, Ok p))))"

text \<open>The shutdown of a running agent, from the process to the bindings; write 1 is its second.\<close>

definition wind_down :: "'doc mgmt_io \<Rightarrow> string \<Rightarrow> 'doc agents_state \<Rightarrow> 'doc agents_state" where
  "wind_down io i s =
     emit i ''Stopped'' (quiet_transition io 1 i Stopped (drop_bindings i (drop_proxy i (quiet_stop io i (emit i ''Stopping'' s)))))"

section \<open>Handlers\<close>

definition agent_create ::
  "'doc mgmt_io \<Rightarrow> agent_config \<Rightarrow> 'doc agents_state \<Rightarrow> 'doc agents_state \<times> mgmt_outcome" where
  "agent_create io cfg s =
     (case create_agent (io_ser io) (io_write io 0) (io_now io) cfg (ga_registry s) of
        (rg, Inl e) \<Rightarrow> (s\<lparr>ga_registry := rg\<rparr>, RegistryFailed e)
      | (rg, Inr i) \<Rightarrow>
          (emit i ''Created'' (s\<lparr>ga_registry := rg, ga_rbac := fst (rbac_register_agent i (ac_role cfg) (ga_rbac s))\<rparr>),
           CreatedAgent i))"

definition agent_stop :: "'doc mgmt_io \<Rightarrow> string \<Rightarrow> 'doc agents_state \<Rightarrow> 'doc agents_state \<times> mgmt_outcome" where
  "agent_stop io i s =
     (if \<not> dict_has (rg_agents (ga_registry s)) i then (s, RegistryFailed (AgentNotFound i))
      else case transition (io_ser io) (io_write io 0) (io_now io) i Stopping (ga_registry s) of
        (rg, Inl e) \<Rightarrow> (s\<lparr>ga_registry := rg\<rparr>, RegistryFailed e)
      | (rg, Inr _) \<Rightarrow> (wind_down io i (s\<lparr>ga_registry := rg\<rparr>), StoppedAgent i))"

definition agent_start ::
  "'doc mgmt_io \<Rightarrow> string \<Rightarrow> 'doc agents_state \<Rightarrow> ('doc agents_state \<times> mgmt_outcome) option" where
  "agent_start io i s =
     (case dict_get (rg_agents (ga_registry s)) i of
        None \<Rightarrow> Some (s, RegistryFailed (AgentNotFound i))
      | Some r \<Rightarrow>
        (case transition (io_ser io) (io_write io 0) (io_now io) i Starting (ga_registry s) of
           (rg, Inl e) \<Rightarrow> Some (s\<lparr>ga_registry := rg\<rparr>, RegistryFailed e)
         | (rg, Inr _) \<Rightarrow>
           (let cfg = ar_config r in
            case launch io 1 [] i cfg (emit i ''Starting'' (s\<lparr>ga_registry := rg\<rparr>)) of
              None \<Rightarrow> None
            | Some (s1, Inl e) \<Rightarrow> Some (s1, NotStarted i e)
            | Some (s1, Inr p) \<Rightarrow>
                let s2 = s1\<lparr>ga_rbac := fst (rbac_register_agent i (ac_role cfg) (ga_rbac s1)),
                            ga_router := (if ac_channel_bindings cfg = [] then ga_router s1
                                          else add_agent_bindings i (ac_channel_bindings cfg) (ga_router s1))\<rparr>
                in Some (emit i ''Running'' (quiet_transition io 1 i Running s2), StartedAgent i p))))"

definition agent_delete :: "'doc mgmt_io \<Rightarrow> string \<Rightarrow> 'doc agents_state \<Rightarrow> 'doc agents_state \<times> mgmt_outcome" where
  "agent_delete io i s =
     (case delete_agent (io_move io) (io_remove io) (io_stamp io) i (ga_registry s) of
        (rg, Inl e) \<Rightarrow> (s\<lparr>ga_registry := rg\<rparr>, RegistryFailed e)
      | (rg, Inr _) \<Rightarrow>
          (emit i ''Deleted'' (drop_bindings i (s\<lparr>ga_registry := rg, ga_rbac := remove_agent i (ga_rbac s)\<rparr>)),
           DeletedAgent i))"

text \<open>The second half of configure, with the agent stopped if it was running.\<close>

definition apply_configuration ::
  "'doc mgmt_io \<Rightarrow> bool \<Rightarrow> channel_binding list \<Rightarrow> string \<Rightarrow> agent_config \<Rightarrow> 'doc agents_state
   \<Rightarrow> ('doc agents_state \<times> mgmt_outcome) option" where
  "apply_configuration io was_running old_bindings i cfg s =
     (case update_config (io_ser io) (io_write io 2) (io_now io) i cfg (ga_registry s) of
        (rg, Inl e) \<Rightarrow> Some (s\<lparr>ga_registry := rg\<rparr>, RegistryFailed e)
      | (rg, Inr _) \<Rightarrow>
        (let s1 = s\<lparr>ga_registry := rg, ga_rbac := fst (rbac_register_agent i (ac_role cfg) (ga_rbac s)),
                    ga_router := (if ac_channel_bindings cfg \<noteq> old_bindings
                                  then update_agent_bindings i (ac_channel_bindings cfg) (ga_router s) else ga_router s)\<rparr>
         in if \<not> was_running then Some (emit i ''Configured'' s1, ConfiguredAgent i)
            else case transition (io_ser io) (io_write io 3) (io_now io) i Starting (ga_registry s1) of
              (rg, Inl e) \<Rightarrow> Some (s1\<lparr>ga_registry := rg\<rparr>, RegistryFailed e)
            | (rg, Inr _) \<Rightarrow>
              (case launch io 4 '' during configure'' i cfg (emit i ''Starting'' (s1\<lparr>ga_registry := rg\<rparr>)) of
                 None \<Rightarrow> None
               | Some (s2, Inl e) \<Rightarrow> Some (s2, NotRestarted i e)
               | Some (s2, Inr p) \<Rightarrow>
                   let s3 = s2\<lparr>ga_router := (if ac_channel_bindings cfg = [] then ga_router s2
                                             else update_agent_bindings i (ac_channel_bindings cfg) (ga_router s2))\<rparr>
                   in Some (emit i ''Running'' (quiet_transition io 4 i Running s3), ReconfiguredAgent i p))))"

definition agent_configure ::
  "'doc mgmt_io \<Rightarrow> string \<Rightarrow> agent_config \<Rightarrow> 'doc agents_state \<Rightarrow> ('doc agents_state \<times> mgmt_outcome) option" where
  "agent_configure io i cfg s =
     (if ac_id cfg \<noteq> i then Some (s, ConfigMismatch (ac_id cfg) i)
      else case dict_get (rg_agents (ga_registry s)) i of
        None \<Rightarrow> Some (s, RegistryFailed (AgentNotFound i))
      | Some r \<Rightarrow>
        (let old = ac_channel_bindings (ar_config r) in
         if ar_state r = Running then
           (case transition (io_ser io) (io_write io 0) (io_now io) i Stopping (ga_registry s) of
              (rg, Inl e) \<Rightarrow> Some (s\<lparr>ga_registry := rg\<rparr>, RegistryFailed e)
            | (rg, Inr _) \<Rightarrow> apply_configuration io True old i cfg (wind_down io i (s\<lparr>ga_registry := rg\<rparr>)))
         else apply_configuration io False old i cfg s))"

text \<open>The tools, which take their arguments from JSON.\<close>

definition tool_agent_id :: "json \<Rightarrow> string option" where
  "tool_agent_id args = Option.bind (jget args ''agent_id'') as_str"

text \<open>
  The identifier \<open>agent_create\<close> derives from a name: lower case, with every character that is
  neither alphanumeric nor a hyphen replaced by one. For names with characters outside ASCII the
  Unicode tables answer, as \<open>io_unicode_slug\<close>.
\<close>

definition slug_char :: "char \<Rightarrow> char" where
  "slug_char c = (let l = ascii_lower c in if is_ascii_alphanumeric l \<or> l = CHR ''-'' then l else CHR ''-'')"

definition slug :: "(string \<Rightarrow> string) \<Rightarrow> string \<Rightarrow> string" where
  "slug unicode name = (if \<forall>c\<in>set name. (of_char c :: nat) < 128 then map slug_char name else unicode name)"

definition json_text :: "json \<Rightarrow> string \<Rightarrow> string option" where
  "json_text args k = Option.bind (jget args k) as_str"

definition or_default :: "string option \<Rightarrow> string \<Rightarrow> string" where
  "or_default x d = (case x of Some s \<Rightarrow> s | None \<Rightarrow> d)"

definition created_config :: "(string \<Rightarrow> string) \<Rightarrow> json \<Rightarrow> string \<Rightarrow> agent_config" where
  "created_config unicode args name =
     (let tools = (case Option.bind (jget args ''tools'') as_array of
                     Some xs \<Rightarrow> List.map_filter as_str xs | None \<Rightarrow> [])
      in \<lparr>ac_id = slug unicode name, ac_name = name,
          ac_description = or_default (json_text args ''description'') [],
          ac_agent_type = LlmAgent,
          ac_model = or_default (json_text args ''model'') ''anthropic/claude-sonnet-4'',
          ac_api_key_env = [],
          ac_instruction = or_default (json_text args ''instruction'') ''You are a helpful specialist agent.'',
          ac_tools = tools, ac_action_nodes = [], ac_workflow_edges = [], ac_sub_agents = [],
          ac_role = \<lparr>role_allow = tools, role_deny = []\<rparr>, ac_channel_bindings = [],
          ac_auto_start = (case Option.bind (jget args ''auto_start'') as_bool of Some b \<Rightarrow> b | None \<Rightarrow> False),
          ac_temperature = None, ac_max_output_tokens = None, ac_model_override = None\<rparr>)"

definition agent_create_tool ::
  "'doc mgmt_io \<Rightarrow> json \<Rightarrow> 'doc agents_state \<Rightarrow> ('doc agents_state \<times> mgmt_outcome) option" where
  "agent_create_tool io args s =
     (case json_text args ''name'' of
        None \<Rightarrow> Some (s, MissingArgument ''name'')
      | Some name \<Rightarrow> Some (agent_create io (created_config (io_unicode_slug io) args name) s))"

definition agent_start_tool ::
  "'doc mgmt_io \<Rightarrow> json \<Rightarrow> 'doc agents_state \<Rightarrow> ('doc agents_state \<times> mgmt_outcome) option" where
  "agent_start_tool io args s =
     (case tool_agent_id args of None \<Rightarrow> Some (s, MissingArgument ''agent_id'') | Some i \<Rightarrow> agent_start io i s)"

definition agent_stop_tool ::
  "'doc mgmt_io \<Rightarrow> json \<Rightarrow> 'doc agents_state \<Rightarrow> ('doc agents_state \<times> mgmt_outcome) option" where
  "agent_stop_tool io args s =
     (case tool_agent_id args of None \<Rightarrow> Some (s, MissingArgument ''agent_id'') | Some i \<Rightarrow> Some (agent_stop io i s))"

definition agent_delete_tool ::
  "'doc mgmt_io \<Rightarrow> json \<Rightarrow> 'doc agents_state \<Rightarrow> ('doc agents_state \<times> mgmt_outcome) option" where
  "agent_delete_tool io args s =
     (case tool_agent_id args of None \<Rightarrow> Some (s, MissingArgument ''agent_id'') | Some i \<Rightarrow> Some (agent_delete io i s))"

definition agent_configure_tool ::
  "'doc mgmt_io \<Rightarrow> json \<Rightarrow> 'doc agents_state \<Rightarrow> ('doc agents_state \<times> mgmt_outcome) option" where
  "agent_configure_tool io args s =
     (case tool_agent_id args of
        None \<Rightarrow> Some (s, MissingArgument ''agent_id'')
      | Some i \<Rightarrow>
        (case jget args ''config'' of
           None \<Rightarrow> Some (s, MissingArgument ''config'')
         | Some c \<Rightarrow>
           (case io_parse io c of None \<Rightarrow> Some (s, InvalidConfig) | Some cfg \<Rightarrow> agent_configure io i cfg s)))"

section \<open>Views of one agent\<close>

definition rst :: "'doc registry \<Rightarrow> string \<Rightarrow> lifecycle_state option" where
  "rst rg j = map_option ar_state (dict_get (rg_agents rg) j)"

definition ports :: "process_manager \<Rightarrow> string \<Rightarrow> port option" where
  "ports pm j = map_option mp_port (dict_get (pm_processes pm) j)"

definition px :: "proxy_pool \<Rightarrow> string \<Rightarrow> port option" where
  "px pool j = map_option rp_port (dict_get pool j)"

definition bound :: "message_router \<Rightarrow> string \<Rightarrow> bool" where
  "bound r j \<longleftrightarrow> (\<exists>b\<in>set (mr_agent_bindings r). ab_agent_id b = j)"

text \<open>
  What holds of every agent between two calls: its proxy leads to its process, a process belongs to
  a registered agent in state Running, and roles and bindings belong to registered agents.
\<close>

definition agent_ok :: "'doc agents_state \<Rightarrow> string \<Rightarrow> bool" where
  "agent_ok s j \<longleftrightarrow> px (ga_proxies s) j = ports (ga_pm s) j \<and>
     (ports (ga_pm s) j \<noteq> None \<longrightarrow> rst (ga_registry s) j = Some Running) \<and>
     (dict_has (ga_rbac s) j \<or> bound (ga_router s) j \<longrightarrow> rst (ga_registry s) j \<noteq> None)"

definition mg_inv :: "'doc agents_state \<Rightarrow> bool" where
  "mg_inv s \<longleftrightarrow> pm_inv (ga_pm s) \<and> (\<forall>j. agent_ok s j)"

text \<open>A step on agent \<open>i\<close> that leaves the others alone.\<close>

definition confined :: "string \<Rightarrow> 'doc agents_state \<Rightarrow> 'doc agents_state \<Rightarrow> bool" where
  "confined i s s' \<longleftrightarrow> (pm_inv (ga_pm s) \<longrightarrow> pm_inv (ga_pm s')) \<and>
     (\<forall>j. j \<noteq> i \<longrightarrow> rst (ga_registry s') j = rst (ga_registry s) j \<and> ports (ga_pm s') j = ports (ga_pm s) j \<and>
        px (ga_proxies s') j = px (ga_proxies s) j \<and> dict_has (ga_rbac s') j = dict_has (ga_rbac s) j \<and>
        bound (ga_router s') j = bound (ga_router s) j)"

definition clean_io :: "'doc mgmt_io \<Rightarrow> bool" where
  "clean_io io \<longleftrightarrow> (\<forall>n. io_write io n = Written)"

lemma mg_inv_confined: "\<lbrakk>mg_inv s; confined i s s'; agent_ok s' i\<rbrakk> \<Longrightarrow> mg_inv s'"
  unfolding mg_inv_def confined_def agent_ok_def by metis

lemma bound_simps [simp]:
  "bound (remove_agent_bindings i r) j \<longleftrightarrow> bound r j \<and> j \<noteq> i"
  "bound (add_agent_bindings i cbs r) j \<longleftrightarrow> bound r j \<or> (j = i \<and> cbs \<noteq> [])"
  by (auto simp: bound_def remove_agent_bindings_def add_agent_bindings_def binding_of_def)
    (cases cbs; auto)

lemma bound_update [simp]:
  "bound (update_agent_bindings i cbs r) j \<longleftrightarrow> (if j = i then cbs \<noteq> [] else bound r j)"
  by (auto simp: update_agent_bindings_def)

lemma ports_stop [simp]: "ports (fst (stop_process i ex pm)) j = (if j = i then None else ports pm j)"
  by (auto simp: ports_def stop_process_def split: option.splits)

lemma ports_health [simp]: "ports (set_health i h pm) j = ports pm j"
  by (auto simp: ports_def set_health_def split: option.splits)

lemma ports_wait: "wait_ready i t obs pm = (pm', r) \<Longrightarrow> ports pm' j = ports pm j"
  by (auto simp: wait_ready_def split: if_splits option.splits bool.splits)

lemma ports_allocate: "allocate_port b pm = (pm', r) \<Longrightarrow> ports pm' j = ports pm j"
  using allocate_frame by (fastforce simp: ports_def allocate_port_def split: prod.splits option.splits)

lemma ports_spawn:
  "spawn b c i env pm = (pm', Inl e) \<Longrightarrow> ports pm' j = ports pm j"
  "spawn b c i env pm = (pm', Inr p) \<Longrightarrow> ports pm' j = (if j = i then Some p else ports pm j)"
  by (auto simp: spawn_def ports_allocate split: if_splits prod.splits sum.splits option.splits)
    (auto simp: ports_def dest: ports_allocate)

lemma px_simps [simp]:
  "px (register_proxy i p pool) j = (if j = i then Some p else px pool j)"
  "px (fst (remove_proxy i pool)) j = (if j = i then None else px pool j)"
  by (auto simp: px_def register_proxy_def remove_proxy_def)

lemma rbac_has [simp]:
  "dict_has (fst (rbac_register_agent i rc ac)) j \<longleftrightarrow> j = i \<or> dict_has ac j"
  "dict_has (remove_agent i ac) j \<longleftrightarrow> j \<noteq> i \<and> dict_has ac j"
  by (auto simp: rbac_register_agent_def add_role_def remove_agent_def remove_role_def dict_has_def)

lemma pm_inv_wait: "\<lbrakk>wait_ready i t obs pm = (pm', r); pm_inv pm\<rbrakk> \<Longrightarrow> pm_inv pm'"
  by (auto simp: wait_ready_def pm_inv_health split: if_splits option.splits bool.splits)

lemma ports_inj: "\<lbrakk>pm_inv pm; ports pm i = Some p; ports pm j = Some p\<rbrakk> \<Longrightarrow> j = i"
  unfolding pm_inv_def ports_def map_option_eq_Some by blast

lemma pm_inv_stop: "pm_inv pm \<Longrightarrow> pm_inv (fst (stop_process i ex pm))"
  by (auto simp: stop_process_def pm_inv_del split: option.splits)

lemma transition_ok:
  assumes "transition ser w now i t rg = (rg', Inr u)"
  shows "rst rg' j = (if j = i then Some t else rst rg j)"
    and "\<exists>t0. rst rg i = Some t0 \<and> is_valid_transition t0 t"
  using assms store_entry_agents [of ser w i _ rg]
  by (auto simp: transition_def rst_def split: option.splits if_splits dest!: arg_cong [where f = fst])

lemma transition_refused:
  "transition ser Written now i t rg = (rg', Inl e) \<Longrightarrow> rg' = rg"
  by (auto simp: transition_def store_entry_def split: option.splits if_splits)

lemma transition_quiet:
  "rst (fst (transition ser w now i t rg)) j =
     (if j = i \<and> (\<exists>t0. rst rg i = Some t0 \<and> is_valid_transition t0 t) then Some t else rst rg j)"
  by (auto simp: transition_def rst_def split: option.splits)

lemma update_config_state [simp]: "rst (fst (update_config ser w now i cfg rg)) j = rst rg j"
  by (auto simp: update_config_def rst_def split: option.splits)

lemma steps_fields [simp]:
  "ga_registry (emit i ev s) = ga_registry s" "ga_pm (emit i ev s) = ga_pm s"
  "ga_proxies (emit i ev s) = ga_proxies s" "ga_rbac (emit i ev s) = ga_rbac s"
  "ga_router (emit i ev s) = ga_router s"
  "ga_pm (quiet_transition io n i t s) = ga_pm s" "ga_proxies (quiet_transition io n i t s) = ga_proxies s"
  "ga_rbac (quiet_transition io n i t s) = ga_rbac s" "ga_router (quiet_transition io n i t s) = ga_router s"
  "ga_registry (quiet_stop io i s) = ga_registry s" "ga_proxies (quiet_stop io i s) = ga_proxies s"
  "ga_rbac (quiet_stop io i s) = ga_rbac s" "ga_router (quiet_stop io i s) = ga_router s"
  "ga_pm (quiet_stop io i s) = fst (stop_process i (io_exit io) (ga_pm s))"
  "ga_registry (quiet_transition io n i t s) =
     fst (transition (io_ser io) (io_write io n) (io_now io) i t (ga_registry s))"
  by (simp_all add: emit_def quiet_transition_def quiet_stop_def)

lemma drops_fields [simp]:
  "ga_registry (drop_proxy i s) = ga_registry s" "ga_pm (drop_proxy i s) = ga_pm s"
  "ga_rbac (drop_proxy i s) = ga_rbac s" "ga_router (drop_proxy i s) = ga_router s"
  "ga_proxies (drop_proxy i s) = fst (remove_proxy i (ga_proxies s))"
  "ga_registry (drop_bindings i s) = ga_registry s" "ga_pm (drop_bindings i s) = ga_pm s"
  "ga_rbac (drop_bindings i s) = ga_rbac s" "ga_proxies (drop_bindings i s) = ga_proxies s"
  "ga_router (drop_bindings i s) = remove_agent_bindings i (ga_router s)"
  by (simp_all add: drop_proxy_def drop_bindings_def)

lemma wind_down_fields [simp]:
  "ga_registry (wind_down io i s) = fst (transition (io_ser io) (io_write io 1) (io_now io) i Stopped (ga_registry s))"
  "ga_pm (wind_down io i s) = fst (stop_process i (io_exit io) (ga_pm s))"
  "ga_proxies (wind_down io i s) = fst (remove_proxy i (ga_proxies s))"
  "ga_rbac (wind_down io i s) = ga_rbac s"
  "ga_router (wind_down io i s) = remove_agent_bindings i (ga_router s)"
  by (simp_all add: wind_down_def)

lemma valid_simps [simp]:
  "is_valid_transition Starting Running" "is_valid_transition Starting (ErrorState e)"
  "is_valid_transition Stopping Stopped" "is_valid_transition Stopped Starting"
  "\<not> is_valid_transition Running Starting" "is_valid_transition t Stopping \<longleftrightarrow> t = Running"
  "is_valid_transition Running Stopping"
  by (auto simp: is_valid_transition_def split: lifecycle_state.splits)

section \<open>Each handler keeps the invariant\<close>

text \<open>
  The launch of an agent that is Starting and has neither process nor proxy ends with both in
  place and the agent still Starting, or with none and the agent in an error state.
\<close>

lemma launch_effect:
  assumes l: "launch io n d i cfg s = Some (s', r)"
    and st: "rst (ga_registry s) i = Some Starting" "ports (ga_pm s) i = None" "px (ga_proxies s) i = None"
  shows "confined i s s'" and "ga_rbac s' = ga_rbac s" "ga_router s' = ga_router s"
    and "case r of
        Inr p \<Rightarrow> rst (ga_registry s') i = Some Starting \<and> ports (ga_pm s') i = Some p \<and> px (ga_proxies s') i = Some p
      | Inl e \<Rightarrow> (\<exists>t. rst (ga_registry s') i = Some (ErrorState t)) \<and> ports (ga_pm s') i = None \<and> px (ga_proxies s') i = None"
proof -
  note defs = launch_def fail_start_def confined_def transition_quiet pm_inv_stop
  have inv: "pm_inv pm'" if "spawn (io_bindable io) (io_child io) i e (ga_pm s) = (pm', x)" "pm_inv (ga_pm s)" for e pm' x
    using pm_inv_spawn [OF that(2), of "io_bindable io" "io_child io" i e] that(1) by simp
  show "confined i s s'"
    using l st by (auto simp: defs ports_spawn ports_wait inv dest: pm_inv_wait
        split: sum.splits prod.splits option.splits)
  show "ga_rbac s' = ga_rbac s" "ga_router s' = ga_router s"
    using l by (auto simp: defs split: sum.splits prod.splits option.splits)
  show "case r of
        Inr p \<Rightarrow> rst (ga_registry s') i = Some Starting \<and> ports (ga_pm s') i = Some p \<and> px (ga_proxies s') i = Some p
      | Inl e \<Rightarrow> (\<exists>t. rst (ga_registry s') i = Some (ErrorState t)) \<and> ports (ga_pm s') i = None \<and> px (ga_proxies s') i = None"
    using l st by (auto simp: defs ports_spawn ports_wait split: sum.splits prod.splits option.splits)
qed

lemma confined_trans: "\<lbrakk>confined i s s'; confined i s' s''\<rbrakk> \<Longrightarrow> confined i s s''"
  by (simp add: confined_def)

lemma confined_refl [simp]: "confined i s s"
  by (simp add: confined_def)

text \<open>An agent that may enter Starting has neither process nor proxy.\<close>

lemma not_running_idle:
  assumes "agent_ok s i" and "rst (ga_registry s) i = Some t" and "t \<noteq> Running"
  shows "ports (ga_pm s) i = None" "px (ga_proxies s) i = None"
  using assms by (auto simp: agent_ok_def)

lemma start_keeps:
  assumes inv: "mg_inv s" and io: "clean_io io" and run: "agent_start io i s = Some (s', out)"
  shows "mg_inv s'"
proof -
  have w: "io_write io n = Written" for n using io by (simp add: clean_io_def)
  have ok: "agent_ok s i" using inv by (simp add: mg_inv_def)
  show ?thesis
  proof (cases "\<exists>r. dict_get (rg_agents (ga_registry s)) i = Some r \<and>
      is_ok (snd (transition (io_ser io) Written (io_now io) i Starting (ga_registry s)))")
    case False
    then have "s' = s"
      using run by (auto simp: agent_start_def w is_ok_def dest!: transition_refused
          split: option.splits prod.splits sum.splits)
    then show ?thesis using inv by simp
  next
    case True
    then obtain r rg u where r: "dict_get (rg_agents (ga_registry s)) i = Some r"
      and tr: "transition (io_ser io) Written (io_now io) i Starting (ga_registry s) = (rg, Inr u)"
      by (auto simp: is_ok_iff snd_def split: prod.splits)
    note t = transition_ok [OF tr]
    obtain t0 where t0: "rst (ga_registry s) i = Some t0" "t0 \<noteq> Running"
      using t(2) valid_simps(5) by blast
    note idle = not_running_idle [OF ok t0]
    let ?s = "emit i ''Starting'' (s\<lparr>ga_registry := rg\<rparr>)"
    obtain s1 x where l: "launch io 1 [] i (ar_config r) ?s = Some (s1, x)"
      using run r tr by (auto simp: agent_start_def w Let_def split: option.splits)
    have c: "confined i s ?s" using t(1) by (simp add: confined_def)
    have l1: "confined i ?s s1" "ga_rbac s1 = ga_rbac ?s" "ga_router s1 = ga_router ?s"
      "case x of
        Inr p \<Rightarrow> rst (ga_registry s1) i = Some Starting \<and> ports (ga_pm s1) i = Some p \<and> px (ga_proxies s1) i = Some p
      | Inl e \<Rightarrow> (\<exists>t. rst (ga_registry s1) i = Some (ErrorState t)) \<and> ports (ga_pm s1) i = None \<and> px (ga_proxies s1) i = None"
      using launch_effect [OF l] t(1) idle by simp_all
    note c1 = confined_trans [OF c l1(1)]
    show ?thesis
    proof (cases x)
      case (Inl e)
      have "s' = s1" using run r tr l Inl by (simp add: agent_start_def w Let_def)
      moreover have "agent_ok s1 i" using l1 Inl by (auto simp: agent_ok_def)
      ultimately show ?thesis using mg_inv_confined [OF inv c1] by simp
    next
      case (Inr p)
      have e: "s' = emit i ''Running'' (quiet_transition io 1 i Running
         (s1\<lparr>ga_rbac := fst (rbac_register_agent i (ac_role (ar_config r)) (ga_rbac s1)),
             ga_router := (if ac_channel_bindings (ar_config r) = [] then ga_router s1
                           else add_agent_bindings i (ac_channel_bindings (ar_config r)) (ga_router s1))\<rparr>))"
        using run r tr l Inr by (simp add: agent_start_def w Let_def)
      have "confined i s1 s'" by (auto simp: e confined_def transition_quiet)
      moreover have "agent_ok s' i" using l1(4) Inr by (simp add: e agent_ok_def transition_quiet)
      ultimately show ?thesis using mg_inv_confined [OF inv] confined_trans [OF c1] by blast
    qed
  qed
qed

lemma create_keeps:
  assumes inv: "mg_inv s" and io: "clean_io io" and run: "agent_create io cfg s = (s', out)"
  shows "mg_inv s'"
proof -
  have w: "io_write io 0 = Written" using io by (simp add: clean_io_def)
  let ?i = "ac_id cfg"
  show ?thesis
  proof (cases "dict_has (rg_agents (ga_registry s)) ?i")
    case True
    then have "s' = s" using run by (auto simp: agent_create_def create_agent_def Let_def)
    then show ?thesis using inv by simp
  next
    case False
    obtain rg where c: "create_agent (io_ser io) (io_write io 0) (io_now io) cfg (ga_registry s) = (rg, Ok ?i)"
      and rg: "rg_agents rg = dict_put ?i (fresh_record cfg (io_now io)) (rg_agents (ga_registry s))"
      using False by (simp add: create_agent_def Let_def w)
    have e: "s' = emit ?i ''Created''
        (s\<lparr>ga_registry := rg, ga_rbac := fst (rbac_register_agent ?i (ac_role cfg) (ga_rbac s))\<rparr>)"
      using run c by (simp add: agent_create_def)
    have none: "rst (ga_registry s) ?i = None" using False by (simp add: rst_def dict_has_def)
    moreover have "agent_ok s ?i" using inv by (simp add: mg_inv_def)
    ultimately have "agent_ok s' ?i"
      by (auto simp: e agent_ok_def rst_def rg)
    moreover have "confined ?i s s'" by (auto simp: e confined_def rst_def rg)
    ultimately show ?thesis using mg_inv_confined [OF inv] by blast
  qed
qed

text \<open>After a transition to Stopping, winding down leaves the agent Stopped with nothing of its own running.\<close>

lemma wind_down_effect:
  assumes w: "\<And>n. io_write io n = Written" and inv: "mg_inv s"
    and tr: "transition (io_ser io) Written (io_now io) i Stopping (ga_registry s) = (rg, Inr u)"
    and s': "s' = wind_down io i (s\<lparr>ga_registry := rg\<rparr>)"
  shows "mg_inv s'" "rst (ga_registry s') i = Some Stopped"
proof -
  note t = transition_ok [OF tr]
  show st: "rst (ga_registry s') i = Some Stopped" by (simp add: s' transition_quiet t)
  have "confined i s s'" by (auto simp: s' confined_def transition_quiet t pm_inv_stop)
  moreover have "agent_ok s' i" using st by (simp add: agent_ok_def s')
  ultimately show "mg_inv s'" using mg_inv_confined [OF inv] by blast
qed

lemma stop_keeps:
  assumes inv: "mg_inv s" and io: "clean_io io" and run: "agent_stop io i s = (s', out)"
  shows "mg_inv s'"
proof -
  have w: "io_write io n = Written" for n using io by (simp add: clean_io_def)
  obtain rg x where tr: "transition (io_ser io) Written (io_now io) i Stopping (ga_registry s) = (rg, x)"
    by fastforce
  show ?thesis
    using run inv wind_down_effect(1) [OF w inv, of i rg] tr
    by (auto simp: agent_stop_def w dest!: transition_refused split: if_splits sum.splits)
qed

lemma delete_effect:
  assumes inv: "mg_inv s" and run: "agent_delete io i s = (s', out)"
  shows "mg_inv s'"
    and "out = DeletedAgent i \<Longrightarrow> rst (ga_registry s') i = None \<and> ports (ga_pm s') i = None \<and>
      px (ga_proxies s') i = None \<and> \<not> dict_has (ga_rbac s') i \<and> \<not> bound (ga_router s') i"
proof -
  have ok: "agent_ok s i" using inv by (simp add: mg_inv_def)
  have "mg_inv s' \<and> (out = DeletedAgent i \<longrightarrow> rst (ga_registry s') i = None \<and> ports (ga_pm s') i = None \<and>
      px (ga_proxies s') i = None \<and> \<not> dict_has (ga_rbac s') i \<and> \<not> bound (ga_router s') i)"
  proof (cases "\<exists>r. dict_get (rg_agents (ga_registry s)) i = Some r \<and> deletable (ar_state r)")
    case False
    then have "s' = s" "out \<noteq> DeletedAgent i"
      using run by (auto simp: agent_delete_def delete_agent_def split: option.splits)
    then show ?thesis using inv by simp
  next
    case True
    then obtain r where r: "dict_get (rg_agents (ga_registry s)) i = Some r" "deletable (ar_state r)" by blast
    define rg where "rg = fst (delete_agent (io_move io) (io_remove io) (io_stamp io) i (ga_registry s))"
    have rg: "rg_agents rg = dict_del i (rg_agents (ga_registry s))"
      using r by (simp add: rg_def delete_agent_def)
    have e: "s' = emit i ''Deleted'' (drop_bindings i (s\<lparr>ga_registry := rg, ga_rbac := remove_agent i (ga_rbac s)\<rparr>))"
      using run r by (auto simp: agent_delete_def rg_def delete_agent_def)
    have "rst (ga_registry s) i = Some (ar_state r)" "ar_state r \<noteq> Running"
      using r by (auto simp: rst_def deletable_def)
    note idle = not_running_idle [OF ok this]
    then have "agent_ok s' i \<and> rst (ga_registry s') i = None"
      using ok by (simp add: e agent_ok_def rst_def rg)
    moreover have "confined i s s'" by (auto simp: e confined_def rst_def rg)
    ultimately have "mg_inv s'" "rst (ga_registry s') i = None" using mg_inv_confined [OF inv] by blast+
    then show ?thesis using idle ok by (simp add: e agent_ok_def)
  qed
  then show "mg_inv s'" "out = DeletedAgent i \<Longrightarrow> rst (ga_registry s') i = None \<and> ports (ga_pm s') i = None \<and>
      px (ga_proxies s') i = None \<and> \<not> dict_has (ga_rbac s') i \<and> \<not> bound (ga_router s') i"
    by simp_all
qed

lemma apply_configuration_keeps:
  assumes inv: "mg_inv s" and io: "clean_io io" and i: "ac_id cfg = i"
    and st: "rst (ga_registry s) i = Some t0" "was \<longrightarrow> t0 = Stopped"
    and run: "apply_configuration io was old i cfg s = Some (s', out)"
  shows "mg_inv s'"
proof -
  have w: "io_write io n = Written" for n using io by (simp add: clean_io_def)
  have ok: "agent_ok s i" using inv by (simp add: mg_inv_def)
  obtain r where r: "dict_get (rg_agents (ga_registry s)) i = Some r" using st by (auto simp: rst_def)
  obtain rg where up: "update_config (io_ser io) Written (io_now io) i cfg (ga_registry s) = (rg, Ok ())"
    using r i by (simp add: update_config_def store_entry_def)
  have rg: "rst rg j = rst (ga_registry s) j" for j
    using update_config_state [of "io_ser io" Written "io_now io" i cfg "ga_registry s" j] up by simp
  define s1 where "s1 = s\<lparr>ga_registry := rg, ga_rbac := fst (rbac_register_agent i (ac_role cfg) (ga_rbac s)),
      ga_router := (if ac_channel_bindings cfg \<noteq> old
                    then update_agent_bindings i (ac_channel_bindings cfg) (ga_router s) else ga_router s)\<rparr>"
  have c1: "confined i s s1" by (simp add: s1_def confined_def rg)
  have ok1: "agent_ok s1 i" using ok st by (auto simp: s1_def agent_ok_def rg)
  note inv1 = mg_inv_confined [OF inv c1 ok1]
  show ?thesis
  proof (cases was)
    case False
    then have "s' = emit i ''Configured'' s1"
      using run up by (simp add: apply_configuration_def w s1_def Let_def)
    moreover have "confined i s1 (emit i ''Configured'' s1)" "agent_ok (emit i ''Configured'' s1) i"
      using ok1 by (simp_all add: confined_def agent_ok_def)
    ultimately show ?thesis using mg_inv_confined [OF inv1] by blast
  next
    case True
    then have st1: "rst (ga_registry s1) i = Some Stopped" using st by (simp add: s1_def rg)
    then obtain r1 where r1: "dict_get (rg_agents rg) i = Some r1" "ar_state r1 = Stopped"
      by (auto simp: rst_def s1_def)
    obtain rg2 where tr: "transition (io_ser io) Written (io_now io) i Starting rg = (rg2, Ok ())"
      using r1 by (simp add: transition_def store_entry_def)
    note t = transition_ok [OF tr]
    let ?s2 = "emit i ''Starting'' (s1\<lparr>ga_registry := rg2\<rparr>)"
    obtain s3 x where l: "launch io 4 '' during configure'' i cfg ?s2 = Some (s3, x)"
      using run up tr True by (auto simp: apply_configuration_def w s1_def Let_def split: option.splits)
    have c2: "confined i s1 ?s2" using t(1) by (simp add: confined_def s1_def)
    note idle = not_running_idle [OF ok1 st1, simplified]
    have l1: "confined i ?s2 s3" "ga_rbac s3 = ga_rbac ?s2" "ga_router s3 = ga_router ?s2"
      "case x of
        Inr p \<Rightarrow> rst (ga_registry s3) i = Some Starting \<and> ports (ga_pm s3) i = Some p \<and> px (ga_proxies s3) i = Some p
      | Inl e \<Rightarrow> (\<exists>t. rst (ga_registry s3) i = Some (ErrorState t)) \<and> ports (ga_pm s3) i = None \<and> px (ga_proxies s3) i = None"
      using launch_effect [OF l] t(1) idle by simp_all
    note c3 = confined_trans [OF c2 l1(1)]
    show ?thesis
    proof (cases x)
      case (Inl e)
      then have "s' = s3" using run up tr l True by (simp add: apply_configuration_def w s1_def Let_def)
      moreover have "agent_ok s3 i" using l1 Inl by (auto simp: agent_ok_def)
      ultimately show ?thesis using mg_inv_confined [OF inv1 c3] by simp
    next
      case (Inr p)
      have e: "s' = emit i ''Running'' (quiet_transition io 4 i Running
          (s3\<lparr>ga_router := (if ac_channel_bindings cfg = [] then ga_router s3
                            else update_agent_bindings i (ac_channel_bindings cfg) (ga_router s3))\<rparr>))"
        using run up tr l True Inr by (simp add: apply_configuration_def w s1_def Let_def)
      have "confined i s3 s'" by (auto simp: e confined_def transition_quiet)
      moreover have "agent_ok s' i" using l1(4) Inr by (simp add: e agent_ok_def transition_quiet)
      ultimately show ?thesis using mg_inv_confined [OF inv1] confined_trans [OF c3] by blast
    qed
  qed
qed

lemma configure_keeps:
  assumes inv: "mg_inv s" and io: "clean_io io" and run: "agent_configure io i cfg s = Some (s', out)"
  shows "mg_inv s'"
proof (cases "ac_id cfg = i \<and> dict_has (rg_agents (ga_registry s)) i")
  case False
  then have "s' = s" using run by (auto simp: agent_configure_def dict_has_def split: if_splits)
  then show ?thesis using inv by simp
next
  case True
  then obtain r where r: "ac_id cfg = i" "dict_get (rg_agents (ga_registry s)) i = Some r"
    by (auto simp: dict_has_def)
  have w: "io_write io n = Written" for n using io by (simp add: clean_io_def)
  have st: "rst (ga_registry s) i = Some (ar_state r)" using r by (simp add: rst_def)
  show ?thesis
  proof (cases "ar_state r = Running")
    case False
    then show ?thesis
      using run r apply_configuration_keeps [OF inv io r(1) st, of False] by (simp add: agent_configure_def)
  next
    case True
    obtain rg where tr: "transition (io_ser io) Written (io_now io) i Stopping (ga_registry s) = (rg, Ok ())"
      using r True by (simp add: transition_def store_entry_def)
    note wd = wind_down_effect [OF w inv tr refl]
    have "apply_configuration io True (ac_channel_bindings (ar_config r)) i cfg (wind_down io i (s\<lparr>ga_registry := rg\<rparr>)) = Some (s', out)"
      using run r True tr by (simp add: agent_configure_def w)
    from apply_configuration_keeps [OF wd(1) io r(1) wd(2) _ this] show ?thesis by simp
  qed
qed

section \<open>Sequences of calls\<close>

text \<open>
  A call with the answers its environment gives; a call that does not return (its readiness loop
  has not ended) is no step.
\<close>

datatype mgmt_request =
    CallCreate json
  | CallStart json
  | CallStop json
  | CallDelete json
  | CallConfigure json

fun mgmt_call :: "'doc mgmt_io \<Rightarrow> mgmt_request \<Rightarrow> 'doc agents_state \<Rightarrow> ('doc agents_state \<times> mgmt_outcome) option" where
  "mgmt_call io (CallCreate args) s = agent_create_tool io args s"
| "mgmt_call io (CallStart args) s = agent_start_tool io args s"
| "mgmt_call io (CallStop args) s = agent_stop_tool io args s"
| "mgmt_call io (CallDelete args) s = agent_delete_tool io args s"
| "mgmt_call io (CallConfigure args) s = agent_configure_tool io args s"

definition call_step :: "'doc agents_state \<Rightarrow> 'doc mgmt_io \<times> mgmt_request \<Rightarrow> 'doc agents_state \<Rightarrow> bool" where
  "call_step s c s' \<longleftrightarrow> clean_io (fst c) \<and> (\<exists>out. mgmt_call (fst c) (snd c) s = Some (s', out))"

text \<open>
  The state a start-up without persisted running agents leaves: agents are registered, roles belong
  to them, no agent process, proxy or binding exists.
\<close>

definition fresh_gateway :: "'doc agents_state \<Rightarrow> bool" where
  "fresh_gateway s \<longleftrightarrow> pm_inv (ga_pm s) \<and> pm_processes (ga_pm s) = [] \<and> ga_proxies s = [] \<and>
     mr_agent_bindings (ga_router s) = [] \<and>
     (\<forall>j. dict_has (ga_rbac s) j \<longrightarrow> rst (ga_registry s) j \<noteq> None)"

lemma call_keeps: "\<lbrakk>mg_inv s; call_step s c s'\<rbrakk> \<Longrightarrow> mg_inv s'"
  by (cases "snd c")
    (auto simp: call_step_def agent_create_tool_def agent_start_tool_def agent_stop_tool_def agent_delete_tool_def agent_configure_tool_def
      intro: create_keeps start_keeps stop_keeps delete_effect(1) configure_keeps
      split: option.splits)

lemma fresh_keeps: "fresh_gateway s \<Longrightarrow> mg_inv s"
  by (auto simp: fresh_gateway_def mg_inv_def agent_ok_def px_def ports_def bound_def)

interpretation mg: invariant_machine fresh_gateway call_step mg_inv
  by unfold_locales (fact fresh_keeps, fact call_keeps)

section \<open>Identifiers\<close>

text \<open>Every non-empty name gives an identifier that is usable as a file name; the empty one is accepted too.\<close>

lemma slug_char_plain: "slug_char c \<noteq> CHR ''/''"
  by (auto simp: slug_char_def Let_def is_ascii_alphanumeric_def)

lemma slug_plain: "\<forall>c\<in>set name. (of_char c :: nat) < 128 \<Longrightarrow> plain_id (slug u name) \<longleftrightarrow> name \<noteq> []"
  using slug_char_plain by (metis (no_types, lifting) ex_map_conv list.map_disc_iff plain_id_def slug_def)

section \<open>Properties\<close>

text \<open>
  C27. Whatever sequence of create, start, stop, delete and configure calls runs, with builds,
  spawns and readiness checks failing at any point but file writes succeeding: a proxy leads to the
  process of its own agent and to no other's, that agent is registered and Running, and roles and
  channel bindings belong to registered agents.
\<close>

theorem routes_lead_to_running_agents:
  assumes "fresh_gateway s0" and "exec call_step s0 calls s"
  shows "(px (ga_proxies s) i = Some p \<longrightarrow>
      ports (ga_pm s) i = Some p \<and> rst (ga_registry s) i = Some Running \<and>
      (\<forall>j. j \<noteq> i \<longrightarrow> px (ga_proxies s) j \<noteq> Some p)) \<and>
    (dict_has (ga_rbac s) i \<or> bound (ga_router s) i \<longrightarrow> dict_has (rg_agents (ga_registry s)) i)"
proof -
  have inv: "mg_inv s" by (rule mg.reachable_inv [OF assms])
  have ok: "agent_ok s j" for j using inv by (simp add: mg_inv_def)
  have one: "j = i" if "ports (ga_pm s) i = Some p" "px (ga_proxies s) j = Some p" for j
    using inv that ok [of j] ports_inj [of "ga_pm s" i p j] by (simp add: mg_inv_def agent_ok_def)
  show ?thesis
    using ok [of i] one by (auto simp: agent_ok_def rst_def dict_has_def)
qed

definition demo_io :: "category_config \<Rightarrow> agent_record mgmt_io" where
  "demo_io global = \<lparr>io_ser = id, io_write = (\<lambda>_. Written), io_now = 0, io_build = (\<lambda>_. Ok ''bin''),
     io_env = (\<lambda>_. None), io_global = global, io_data_dir = id, io_bindable = (\<lambda>_. True),
     io_child = (\<lambda>_. Some 7), io_probes = [(True, 0)], io_exit = ExitedInTime,
     io_error_text = (\<lambda>_. []), io_move = True, io_remove = True, io_stamp = [], io_unicode_slug = id, io_parse = (\<lambda>_. None)\<rparr>"

definition demo_gateway :: "agent_record agents_state" where
  "demo_gateway = \<lparr>ga_registry = rg_new [] True [], ga_pm = pm_new 100 110, ga_proxies = [], ga_rbac = [],
     ga_router = mr_new [] ''d'', ga_events = []\<rparr>"

lemma demo_io_clean [simp]: "clean_io (demo_io g)"
  by (simp add: demo_io_def clean_io_def)

lemma demo_fresh: "fresh_gateway demo_gateway"
  by (simp add: fresh_gateway_def demo_gateway_def mr_new_def pm_inv_new dict_has_def) (simp add: pm_new_def)

lemma demo_create:
  "\<exists>s. call_step demo_gateway (demo_io g, CallCreate (JObj [(''name'', JStr ''A'')])) s \<and>
     rst (ga_registry s) ''a'' = Some Created \<and> ga_pm s = pm_new 100 110 \<and> ga_proxies s = []"
proof -
  have "slug id ''A'' = ''a''" by (simp add: slug_def slug_char_def ascii_eval)
  then show ?thesis
    by (simp add: call_step_def agent_create_tool_def json_text_def jget_def created_config_def agent_create_def
        create_agent_def Let_def demo_gateway_def rg_new_def dict_has_def fresh_record_def demo_io_def clean_io_def
        emit_def rst_def)
qed

lemma demo_launch:
  assumes "ga_pm s = pm_new 100 110"
  shows "\<exists>s'. launch (demo_io g) n d ''a'' cfg s = Some (s', Ok 100)"
  using assms
  by (simp add: launch_def demo_io_def pm_new_def spawn_def has_agent_def dict_has_def allocate_port_def range_len_def
      allocate_numeral port_taken_def is_port_active_def wait_ready_def)

lemma demo_start:
  assumes "rst (ga_registry s) ''a'' = Some Created" "ga_pm s = pm_new 100 110" "ga_proxies s = []"
  shows "\<exists>s'. call_step s (demo_io g, CallStart (JObj [(''agent_id'', JStr ''a'')])) s' \<and>
     px (ga_proxies s') ''a'' = Some 100"
proof -
  obtain r where r: "dict_get (rg_agents (ga_registry s)) ''a'' = Some r" "ar_state r = Created"
    using assms(1) by (auto simp: rst_def)
  obtain rg where tr: "transition id Written 0 ''a'' Starting (ga_registry s) = (rg, Ok ())"
    using r by (simp add: transition_def store_entry_def is_valid_transition_def)
  let ?s = "emit ''a'' ''Starting'' (s\<lparr>ga_registry := rg\<rparr>)"
  obtain s1 where l: "launch (demo_io g) 1 [] ''a'' (ar_config r) ?s = Some (s1, Ok 100)"
    using demo_launch [of ?s g 1 "[]" "ar_config r"] assms(2) by auto
  have "px (ga_proxies s1) ''a'' = Some 100"
    using launch_effect(4) [OF l] transition_ok(1) [OF tr] assms by (simp add: ports_def px_def pm_new_def)
  then show ?thesis
    using r tr l
    by (auto simp: call_step_def agent_create_tool_def agent_start_tool_def tool_agent_id_def agent_start_def Let_def demo_io_def clean_io_def
        jget_def)
qed

theorem routes_lead_to_running_agents_witness:
  "\<exists>s :: agent_record agents_state. px (ga_proxies s) ''a'' = Some 100 \<and> ports (ga_pm s) ''a'' = Some 100 \<and>
     rst (ga_registry s) ''a'' = Some Running"
proof -
  obtain s1 where s1: "call_step demo_gateway (demo_io undefined, CallCreate (JObj [(''name'', JStr ''A'')])) s1"
    "rst (ga_registry s1) ''a'' = Some Created" "ga_pm s1 = pm_new 100 110" "ga_proxies s1 = []"
    using demo_create by blast
  obtain s2 where s2: "call_step s1 (demo_io undefined, CallStart (JObj [(''agent_id'', JStr ''a'')])) s2"
    "px (ga_proxies s2) ''a'' = Some 100"
    using demo_start [OF s1(2-4)] by blast
  have "exec call_step demo_gateway [(demo_io undefined, CallCreate (JObj [(''name'', JStr ''A'')])),
      (demo_io undefined, CallStart (JObj [(''agent_id'', JStr ''a'')]))] s2"
    using s1 s2 by (auto intro: exec.intros)
  from routes_lead_to_running_agents [OF demo_fresh this, of "''a''" 100] s2(2) show ?thesis by auto
qed

text \<open>
  In every reachable state, deleting an agent leaves nothing of it: no registry entry, no
  process, no proxy, no role and no channel binding.
\<close>

theorem delete_leaves_nothing:
  assumes "fresh_gateway s0" and "exec call_step s0 calls s" and "agent_delete io i s = (s', DeletedAgent i)"
  shows "\<not> dict_has (rg_agents (ga_registry s')) i \<and> \<not> has_agent (ga_pm s') i \<and>
    get_proxy (ga_proxies s') i = None \<and> \<not> dict_has (ga_rbac s') i \<and>
    (\<forall>m. resolve_agent (ga_router s') m = i \<longrightarrow>
       (\<exists>b\<in>set (mr_bindings (ga_router s')). rb_agent_id b = i) \<or> mr_default_agent_id (ga_router s') = i)"
proof -
  have "mg_inv s" by (rule mg.reachable_inv [OF assms(1,2)])
  note d = delete_effect(2) [OF this assms(3) refl]
  have "\<not> bound (ga_router s') i" using d by simp
  then have "(\<exists>b\<in>set (mr_bindings (ga_router s')). rb_agent_id b = i) \<or> mr_default_agent_id (ga_router s') = i"
    if "resolve_agent (ga_router s') m = i" for m
    using that by (auto simp: bound_def resolve_agent_def resolve_legacy_def find_Some_iff
        split: option.splits)
  then show ?thesis
    using d by (auto simp: rst_def ports_def px_def dict_has_def has_agent_def get_proxy_def)
qed

lemma demo_failed_start:
  assumes "rst (ga_registry s) ''a'' = Some Created"
  shows "\<exists>s'. call_step s (demo_io g\<lparr>io_build := \<lambda>_. Err ''e''\<rparr>, CallStart (JObj [(''agent_id'', JStr ''a'')])) s' \<and>
     rst (ga_registry s') ''a'' = Some (ErrorState ''build failed: e'')"
proof -
  obtain r where r: "dict_get (rg_agents (ga_registry s)) ''a'' = Some r" "ar_state r = Created"
    using assms by (auto simp: rst_def)
  obtain rg where tr: "transition id Written 0 ''a'' Starting (ga_registry s) = (rg, Ok ())"
    using r by (simp add: transition_def store_entry_def is_valid_transition_def)
  show ?thesis
    using r tr transition_ok(1) [OF tr]
    by (auto simp: call_step_def agent_create_tool_def agent_start_tool_def tool_agent_id_def agent_start_def Let_def demo_io_def clean_io_def
        jget_def launch_def fail_start_def transition_quiet)
qed

theorem delete_leaves_nothing_witness:
  "\<exists>(s :: agent_record agents_state) s' io. dict_has (rg_agents (ga_registry s)) ''a'' \<and>
     agent_delete io ''a'' s = (s', DeletedAgent ''a'') \<and> \<not> dict_has (ga_rbac s') ''a''"
proof -
  let ?bad = "demo_io undefined\<lparr>io_build := \<lambda>_. Err ''e''\<rparr>"
  obtain s1 where s1: "call_step demo_gateway (demo_io undefined, CallCreate (JObj [(''name'', JStr ''A'')])) s1"
    "rst (ga_registry s1) ''a'' = Some Created"
    using demo_create by blast
  obtain s2 where s2: "call_step s1 (?bad, CallStart (JObj [(''agent_id'', JStr ''a'')])) s2"
    "rst (ga_registry s2) ''a'' = Some (ErrorState ''build failed: e'')"
    using demo_failed_start [OF s1(2)] by blast
  have e: "exec call_step demo_gateway [(demo_io undefined, CallCreate (JObj [(''name'', JStr ''A'')])),
      (?bad, CallStart (JObj [(''agent_id'', JStr ''a'')]))] s2"
    using s1 s2 by (auto intro: exec.intros)
  obtain s3 where s3: "agent_delete ?bad ''a'' s2 = (s3, DeletedAgent ''a'')"
    using s2(2) by (auto simp: rst_def agent_delete_def delete_agent_def deletable_def)
  have "dict_has (rg_agents (ga_registry s2)) ''a''" using s2(2) by (auto simp: rst_def dict_has_def)
  then show ?thesis using s3 delete_leaves_nothing [OF demo_fresh e s3] by blast
qed

text \<open>
  Configuring an agent, whether it was running or not and whether the restart works or not,
  replaces its role by a user role built from the new definition. Nothing exempts the system agent:
  once it is configured, every management, task and file-system tool is denied to it.
\<close>

theorem configure_replaces_role:
  assumes "agent_configure io i cfg s = Some (s', out)"
    and "out \<in> {ConfiguredAgent i} \<union> range (ReconfiguredAgent i) \<union> range (NotRestarted i)"
  shows "dict_get (ga_rbac s') i = Some (user_role i (ac_role cfg)) \<and>
    (t \<in> set system_tools \<longrightarrow> \<not> is_ok (check_tool (ga_rbac s') i t))"
proof -
  have lr: "ga_rbac s2 = ga_rbac s1" if "launch io n d i cfg s1 = Some (s2, x)" for n d s1 s2 x
    using that by (auto simp: launch_def fail_start_def split: sum.splits prod.splits option.splits)
  have g: "dict_get (ga_rbac s') i = Some (user_role i (ac_role cfg))"
    if "apply_configuration io was old i cfg s1 = Some (s', out)" for was old s1
    using that assms(2)
    by (auto simp: apply_configuration_def Let_def rbac_register_agent_def add_role_def dest: lr
        split: sum.splits prod.splits option.splits if_splits)
  obtain r where r: "dict_get (rg_agents (ga_registry s)) i = Some r" and i: "ac_id cfg = i"
    using assms by (auto simp: agent_configure_def split: option.splits if_splits)
  have "\<exists>was old s1. apply_configuration io was old i cfg s1 = Some (s', out)"
  proof (cases "ar_state r = Running")
    case True
    then show ?thesis
      using assms r i by (cases "transition (io_ser io) (io_write io 0) (io_now io) i Stopping (ga_registry s)")
        (auto simp: agent_configure_def Let_def split: sum.splits)
  next
    case False
    then show ?thesis using assms(1) r i by (auto simp: agent_configure_def Let_def)
  qed
  then have "dict_get (ga_rbac s') i = Some (user_role i (ac_role cfg))" using g by blast
  then show ?thesis
    by (auto simp: check_tool_def rbac_check_def rbac_denied_def user_role_def is_ok_def)
qed

theorem configure_replaces_role_witness:
  "let s = demo_gateway\<lparr>ga_registry := (rg_new [] True [])\<lparr>rg_system := Some ''system'',
         rg_agents := [(''system'', (fresh_record (blank_agent ''system'') 0)\<lparr>ar_state := Stopped\<rparr>)]\<rparr>,
       ga_rbac := rbac_register_system_agent ''system'' []\<rparr>;
       s' = fst (the (agent_configure (demo_io undefined) ''system'' (blank_agent ''system'') s))
   in is_ok (check_tool (ga_rbac s) ''system'' ''agent_list'') \<and>
      \<not> is_ok (check_tool (ga_rbac s') ''system'' ''agent_list'')"
proof -
  let ?s = "demo_gateway\<lparr>ga_registry := (rg_new [] True [])\<lparr>rg_system := Some ''system'',
         rg_agents := [(''system'', (fresh_record (blank_agent ''system'') 0)\<lparr>ar_state := Stopped\<rparr>)]\<rparr>,
       ga_rbac := rbac_register_system_agent ''system'' []\<rparr>"
  obtain s' where s': "agent_configure (demo_io undefined) ''system'' (blank_agent ''system'') ?s
      = Some (s', ConfiguredAgent ''system'')"
    by (simp add: agent_configure_def apply_configuration_def update_config_def store_entry_def demo_io_def
        fresh_record_def blank_agent_def Let_def)
  have "is_ok (check_tool (ga_rbac ?s) ''system'' ''agent_list'')"
    by (simp add: check_tool_def rbac_check_def rbac_register_system_agent_def add_role_def admin_role_def)
  moreover have "\<not> is_ok (check_tool (ga_rbac s') ''system'' ''agent_list'')"
    using configure_replaces_role [OF s', of "''agent_list''"] by (simp add: system_tools_def)
  ultimately show ?thesis using s' by (simp add: Let_def)
qed

end
