(* ===== verification/SchemaSanitizer.thy ===== *)
theory SchemaSanitizer
  imports Json
begin

text \<open>
  \<open>src/schema_sanitizer.rs\<close>: the tool parameter schemas are rewritten for the model provider.
  Integer arithmetic wraps as in the release build. Both walks rebuild an object entry by entry;
  the recursive call of an entry is made on its value, or on the first element of an \<open>items\<close> array.
\<close>

section \<open>Building blocks\<close>

text \<open>\<open>Map::insert\<close> one after the other; an existing key keeps its place.\<close>

definition insert_all :: "(string \<times> json) list \<Rightarrow> (string \<times> json) list" where
  "insert_all kvs = fold (\<lambda>kv. dict_put (fst kv) (snd kv)) kvs []"

definition item_target :: "string \<times> json \<Rightarrow> json" where
  "item_target kv = (if fst kv = ''items'' then (case snd kv of JArr (x # xs) \<Rightarrow> x | _ \<Rightarrow> snd kv) else snd kv)"

lemma size_item_target: "size (item_target kv) \<le> size (snd kv)"
  by (auto simp: item_target_def split: json.splits list.splits)

lemma target_smaller: "kv \<in> set m \<Longrightarrow> size (item_target kv) < size (JObj m)"
  using size_obj_elem [of "fst kv" "snd kv" m] size_item_target [of kv] by simp

definition wrap_i64 :: "int \<Rightarrow> int" where
  "wrap_i64 n = (n + 9223372036854775808) mod 18446744073709551616 - 9223372036854775808"

text \<open>The strings of an array-typed \<open>type\<close> other than \<open>null\<close>, and the type chosen among them.\<close>

definition type_array :: "(string \<times> json) list \<Rightarrow> json list option" where
  "type_array m = Option.bind (dict_get m ''type'') as_array"

definition non_null_types :: "json list \<Rightarrow> string list" where
  "non_null_types xs = filter (\<lambda>s. s \<noteq> ''null'') (str_elems xs)"

definition resolved_type :: "(string \<times> json) list \<Rightarrow> string option" where
  "resolved_type m =
     (case type_array m of None \<Rightarrow> None
      | Some xs \<Rightarrow> (case non_null_types xs of [] \<Rightarrow> None | s # _ \<Rightarrow> Some s))"

section \<open>Gemini\<close>

definition add_nullable :: "(string \<times> json) list \<Rightarrow> bool" where
  "add_nullable m =
     (case type_array m of None \<Rightarrow> False
      | Some xs \<Rightarrow> ''null'' \<in> set (str_elems xs) \<and> non_null_types xs \<noteq> [])"

definition is_integer_type :: "(string \<times> json) list \<Rightarrow> bool" where
  "is_integer_type m =
     (case resolved_type m of Some t \<Rightarrow> t = ''integer''
      | None \<Rightarrow> Option.bind (dict_get m ''type'') as_str = Some ''integer'')"

definition raised_minimum :: "json \<Rightarrow> json option" where
  "raised_minimum v =
     (case as_i64 v of Some n \<Rightarrow> Some (JInt (wrap_i64 (n + 1)))
      | None \<Rightarrow> (case as_u64 v of Some n \<Rightarrow> Some (JInt ((n + 1) mod 18446744073709551616)) | None \<Rightarrow> None))"

definition lowered_maximum :: "json \<Rightarrow> json option" where
  "lowered_maximum v =
     (case as_i64 v of Some n \<Rightarrow> Some (JInt (wrap_i64 (n - 1)))
      | None \<Rightarrow> (case as_u64 v of Some n \<Rightarrow> Some (JInt (max 0 (n - 1))) | None \<Rightarrow> None))"

text \<open>What the loop inserts for an entry, given the sanitised target of the entry.\<close>

definition gemini_entry :: "(string \<times> json) list \<Rightarrow> (string \<times> json) \<times> json \<Rightarrow> (string \<times> json) option" where
  "gemini_entry m e =
     (case e of ((k, v), c) \<Rightarrow>
        if k = ''propertyNames'' then None
        else if k = ''type'' \<and> resolved_type m \<noteq> None then Some (''type'', JStr (the (resolved_type m)))
        else if k = ''exclusiveMinimum'' \<and> is_integer_type m then map_option (Pair ''minimum'') (raised_minimum v)
        else if k = ''exclusiveMaximum'' \<and> is_integer_type m then map_option (Pair ''maximum'') (lowered_maximum v)
        else if k = ''items'' \<and> v = JArr [] then None
        else Some (k, c))"

definition gemini_object :: "(string \<times> json) list \<Rightarrow> json list \<Rightarrow> (string \<times> json) list" where
  "gemini_object m cs =
     (let new_map = insert_all (List.map_filter (gemini_entry m) (zip m cs))
      in if add_nullable m then dict_put ''nullable'' (JBool True) new_map else new_map)"

function (sequential) gemini :: "json \<Rightarrow> json" where
  "gemini (JObj m) = JObj (gemini_object m (map (\<lambda>kv. gemini (item_target kv)) m))"
| "gemini (JArr xs) = JArr (map gemini xs)"
| "gemini j = j"
  by pat_completeness auto

termination
proof (relation "measure size")
  fix m :: "(string \<times> json) list" and kv
  assume "kv \<in> set m"
  then show "(item_target kv, JObj m) \<in> measure size" using target_smaller by simp
qed (auto simp: less_Suc_eq_le size_list_estimation')

section \<open>OpenAI\<close>

definition is_tuple :: "json \<Rightarrow> bool" where
  "is_tuple v = (case v of JArr xs \<Rightarrow> xs \<noteq> [] \<and> list_all is_object xs | _ \<Rightarrow> False)"

definition arg_name :: "nat \<Rightarrow> string" where
  "arg_name i = ''arg'' @ show_nat i"

text \<open>The object with positional properties that replaces a tuple of already sanitised schemas.\<close>

definition positional :: "json list \<Rightarrow> json" where
  "positional cs =
     JObj [(''type'', JStr ''object''),
           (''properties'', JObj (insert_all (map (\<lambda>i. (arg_name i, cs ! i)) [0..<length cs]))),
           (''required'', JArr (map (\<lambda>i. JStr (arg_name i)) [0..<length cs]))]"

definition elems :: "json \<Rightarrow> json list" where
  "elems c = (case c of JArr cs \<Rightarrow> cs | _ \<Rightarrow> [])"

lemma elems_JArr [simp]: "elems (JArr cs) = cs"
  by (simp add: elems_def)

definition openai_entry :: "(string \<times> json) list \<Rightarrow> (string \<times> json) \<times> json \<Rightarrow> (string \<times> json) option" where
  "openai_entry m e =
     (case e of ((k, v), c) \<Rightarrow>
        if k = ''propertyNames'' then None
        else if k = ''type'' \<and> resolved_type m \<noteq> None then Some (''type'', JStr (the (resolved_type m)))
        else if k = ''items'' then (if v = JArr [] then None else Some (k, c))
        else if is_tuple v then Some (k, positional (elems c))
        else Some (k, c))"

function (sequential) openai :: "json \<Rightarrow> json" where
  "openai (JObj m) =
     JObj (insert_all (List.map_filter (openai_entry m) (zip m (map (\<lambda>kv. openai (item_target kv)) m))))"
| "openai (JArr xs) = JArr (map openai xs)"
| "openai j = j"
  by pat_completeness auto

termination
proof (relation "measure size")
  fix m :: "(string \<times> json) list" and kv
  assume "kv \<in> set m"
  then show "(item_target kv, JObj m) \<in> measure size" using target_smaller by simp
qed (auto simp: less_Suc_eq_le size_list_estimation')

definition ensure_object_type :: "json \<Rightarrow> json" where
  "ensure_object_type s =
     (case s of
        JArr xs \<Rightarrow> positional (map openai xs)
      | JObj m \<Rightarrow>
          let top = Option.bind (dict_get m ''type'') as_str in
          if top = Some ''object'' then s
          else if dict_has m ''properties'' then JObj (dict_put ''type'' (JStr ''object'') m)
          else if top = None \<and> m \<noteq> [] then JObj (dict_put ''type'' (JStr ''object'') m)
          else s
      | _ \<Rightarrow> s)"

definition openai_sanitize :: "json \<Rightarrow> json" where
  "openai_sanitize s =
     (case s of
        JArr [] \<Rightarrow> JObj [(''type'', JStr ''object''), (''properties'', JObj [])]
      | JArr xs \<Rightarrow> positional (map openai xs)
      | _ \<Rightarrow> ensure_object_type (openai s))"

definition identity_sanitize :: "json \<Rightarrow> json" where
  "identity_sanitize s = s"

section \<open>What the providers accept\<close>

text \<open>
  Input on which the walks do what they are for: an array-typed \<open>type\<close> names a type, and a tuple
  \<open>items\<close> does not start with another array.
\<close>

definition keywords_plain :: "(string \<times> json) list \<Rightarrow> bool" where
  "keywords_plain m \<longleftrightarrow> (\<forall>xs. dict_get m ''type'' = Some (JArr xs) \<longrightarrow> non_null_types xs \<noteq> []) \<and>
     (\<forall>ys xs. dict_get m ''items'' \<noteq> Some (JArr (JArr ys # xs)))"

fun schema_plain :: "json \<Rightarrow> bool" where
  "schema_plain (JObj m) \<longleftrightarrow> keywords_plain m \<and> (\<forall>kv\<in>set m. schema_plain (snd kv))"
| "schema_plain (JArr xs) \<longleftrightarrow> (\<forall>x\<in>set xs. schema_plain x)"
| "schema_plain _ \<longleftrightarrow> True"

text \<open>No unsupported keyword at any level.\<close>

definition keywords_clean :: "(string \<times> json) list \<Rightarrow> bool" where
  "keywords_clean m \<longleftrightarrow> dict_get m ''propertyNames'' = None \<and>
     (\<forall>xs. dict_get m ''type'' \<noteq> Some (JArr xs)) \<and> (\<forall>xs. dict_get m ''items'' \<noteq> Some (JArr xs))"

definition bounds_clean :: "(string \<times> json) list \<Rightarrow> bool" where
  "bounds_clean m \<longleftrightarrow> dict_get m ''type'' = Some (JStr ''integer'') \<longrightarrow>
     dict_get m ''exclusiveMinimum'' = None \<and> dict_get m ''exclusiveMaximum'' = None"

fun gemini_clean :: "json \<Rightarrow> bool" where
  "gemini_clean (JObj m) \<longleftrightarrow> keywords_clean m \<and> bounds_clean m \<and> (\<forall>kv\<in>set m. gemini_clean (snd kv))"
| "gemini_clean (JArr xs) \<longleftrightarrow> (\<forall>x\<in>set xs. gemini_clean x)"
| "gemini_clean _ \<longleftrightarrow> True"

fun openai_clean :: "json \<Rightarrow> bool" where
  "openai_clean (JObj m) \<longleftrightarrow>
     keywords_clean m \<and> (\<forall>kv\<in>set m. \<not> is_tuple (snd kv) \<and> openai_clean (snd kv))"
| "openai_clean (JArr xs) \<longleftrightarrow> (\<forall>x\<in>set xs. openai_clean x)"
| "openai_clean _ \<longleftrightarrow> True"

section \<open>Entries\<close>

lemma insert_all_gen:
  "dict_ok acc \<Longrightarrow> dict_ok (fold (\<lambda>kv. dict_put (fst kv) (snd kv)) kvs acc) \<and>
   set (fold (\<lambda>kv. dict_put (fst kv) (snd kv)) kvs acc) \<subseteq> set acc \<union> set kvs"
proof (induction kvs arbitrary: acc)
  case (Cons kv kvs)
  have "set (dict_put (fst kv) (snd kv) acc) \<subseteq> insert kv (set acc)"
    using Cons.prems by (auto simp: dict_mem_get split: if_splits)
  then show ?case using Cons.IH [of "dict_put (fst kv) (snd kv) acc"] Cons.prems by auto
qed simp

lemma insert_all_ok [simp]: "dict_ok (insert_all kvs)"
  using insert_all_gen [of "[]" kvs] by (simp add: insert_all_def)

lemma insert_all_mem: "x \<in> set (insert_all kvs) \<Longrightarrow> x \<in> set kvs"
  using insert_all_gen [of "[]" kvs] by (auto simp: insert_all_def)

lemma insert_all_get: "dict_get (insert_all kvs) k = Some v \<Longrightarrow> (k, v) \<in> set kvs"
  using insert_all_mem dict_get_mem by fast

lemma insert_all_distinct: "dict_ok (acc @ kvs) \<Longrightarrow> fold (\<lambda>kv. dict_put (fst kv) (snd kv)) kvs acc = acc @ kvs"
proof (induction kvs arbitrary: acc)
  case (Cons kv kvs)
  have "dict_put (fst kv) (snd kv) acc = acc @ [kv]"
    using Cons.prems by (induction acc) (auto simp: dict_ok_def)
  then show ?case using Cons.IH [of "acc @ [kv]"] Cons.prems by simp
qed simp

lemma insert_all_id [simp]: "dict_ok m \<Longrightarrow> insert_all m = m"
  using insert_all_distinct [of "[]" m] by (simp add: insert_all_def)

lemma mem_entries:
  "x \<in> set (List.map_filter f (zip m (map g m))) \<longleftrightarrow> (\<exists>kv\<in>set m. f (kv, g kv) = Some x)"
  by (induction m) (auto simp: map_filter_simps split: option.splits)

lemma filter_keys:
  assumes "\<And>kv k w. f (kv, g kv) = Some (k, w) \<Longrightarrow> k = fst kv" and "dict_ok m"
  shows "dict_ok (List.map_filter f (zip m (map g m)))"
  using assms(2)
proof (induction m)
  case (Cons kv m)
  have "fst x \<noteq> fst kv" if x: "x \<in> set (List.map_filter f (zip m (map g m)))" for x
  proof -
    obtain kv' where "kv' \<in> set m" "f (kv', g kv') = Some x" using x by (auto simp: mem_entries)
    then have "fst x = fst kv'" "kv' \<in> set m" using assms(1) [of kv' "fst x" "snd x"] by simp_all
    then show ?thesis using Cons.prems by (metis dict_ok_def distinct.simps(2) image_eqI list.set_map list.simps(9))
  qed
  then have n: "fst kv \<notin> fst ` set (List.map_filter f (zip m (map g m)))" by force
  have ih: "dict_ok (List.map_filter f (zip m (map g m)))" using Cons by (simp add: dict_ok_def)
  show ?case
  proof (cases "f (kv, g kv)")
    case None
    then show ?thesis using ih by (simp add: map_filter_simps)
  next
    case (Some y)
    then have "fst y = fst kv" using assms(1) [of kv "fst y" "snd y"] by simp
    then show ?thesis using n ih Some by (simp add: map_filter_simps dict_ok_def)
  qed
qed (simp add: map_filter_simps)

lemma entries_id:
  "(\<And>kv. kv \<in> set m \<Longrightarrow> f (kv, g kv) = Some kv) \<Longrightarrow> List.map_filter f (zip m (map g m)) = m"
  by (induction m) (auto simp: map_filter_simps)

lemma walk_shapes [simp]:
  "gemini j = JArr ys \<longleftrightarrow> (\<exists>xs. j = JArr xs \<and> ys = map gemini xs)" "gemini j = JStr t \<longleftrightarrow> j = JStr t"
  "openai j = JArr ys \<longleftrightarrow> (\<exists>xs. j = JArr xs \<and> ys = map openai xs)" "openai j = JStr t \<longleftrightarrow> j = JStr t"
  "JArr ys = gemini j \<longleftrightarrow> (\<exists>xs. j = JArr xs \<and> ys = map gemini xs)" "JStr t = gemini j \<longleftrightarrow> j = JStr t"
  "JArr ys = openai j \<longleftrightarrow> (\<exists>xs. j = JArr xs \<and> ys = map openai xs)" "JStr t = openai j \<longleftrightarrow> j = JStr t"
  by (cases j; auto)+

lemma target_plain:
  "\<lbrakk>schema_plain (JObj m); kv \<in> set m\<rbrakk> \<Longrightarrow> schema_plain (item_target kv)"
  "\<lbrakk>json_ok (JObj m); kv \<in> set m\<rbrakk> \<Longrightarrow> json_ok (item_target kv)"
  by (force simp: item_target_def split: json.splits list.splits)+

text \<open>An entry of a plain object never becomes an array-typed \<open>type\<close> or \<open>items\<close>.\<close>

lemma plain_type:
  assumes "json_ok (JObj m)" "keywords_plain m" "(''type'', v) \<in> set m" "resolved_type m = None"
  shows "v \<noteq> JArr xs"
  using assms
  by (auto simp: keywords_plain_def resolved_type_def type_array_def dict_mem_get split: list.splits)

lemma plain_items:
  assumes "json_ok (JObj m)" "keywords_plain m" "(''items'', v) \<in> set m" "v \<noteq> JArr []"
  shows "item_target (''items'', v) \<noteq> JArr xs"
  using assms by (auto simp: keywords_plain_def item_target_def dict_mem_get split: json.splits list.splits)

lemma nullable_mem:
  "x \<in> set (gemini_object m cs) \<Longrightarrow>
     x = (''nullable'', JBool True) \<or> x \<in> set (List.map_filter (gemini_entry m) (zip m cs))"
proof -
  let ?n = "insert_all (List.map_filter (gemini_entry m) (zip m cs))"
  assume "x \<in> set (gemini_object m cs)"
  then have "x \<in> set ?n \<or> x \<in> set (dict_put ''nullable'' (JBool True) ?n)"
    by (auto simp: gemini_object_def Let_def split: if_splits)
  then have "x \<in> set ?n \<or> x = (''nullable'', JBool True)"
    by (cases x) (auto simp: dict_mem_get split: if_splits)
  then show ?thesis using insert_all_mem by blast
qed

lemma gemini_object_ok [simp]: "dict_ok (gemini_object m cs)"
  by (simp add: gemini_object_def Let_def)

lemma gemini_entry_cases:
  assumes "gemini_entry m ((k', v), c) = Some (k, w)"
  shows "(k' = ''type'' \<and> k = ''type'' \<and> resolved_type m \<noteq> None \<and> w = JStr (the (resolved_type m))) \<or>
    (k \<in> {''minimum'', ''maximum''} \<and> (\<exists>n. w = JInt n)) \<or>
    (k' = k \<and> w = c \<and> k' \<noteq> ''propertyNames'' \<and> (k' = ''type'' \<longrightarrow> resolved_type m = None) \<and>
     (k' = ''items'' \<longrightarrow> v \<noteq> JArr []) \<and>
     (is_integer_type m \<longrightarrow> k' \<noteq> ''exclusiveMinimum'' \<and> k' \<noteq> ''exclusiveMaximum''))"
proof (cases "k' = ''type'' \<and> resolved_type m \<noteq> None")
  case True
  then show ?thesis using assms by (simp add: gemini_entry_def)
next
  case no_type: False
  show ?thesis
  proof (cases "is_integer_type m \<and> (k' = ''exclusiveMinimum'' \<or> k' = ''exclusiveMaximum'')")
    case True
    then have "(k = ''minimum'' \<and> raised_minimum v = Some w) \<or> (k = ''maximum'' \<and> lowered_maximum v = Some w)"
      using assms by (elim conjE disjE) (simp_all add: gemini_entry_def)
    then show ?thesis by (auto simp: raised_minimum_def lowered_maximum_def split: option.splits)
  next
    case False
    have t: "k' = ''type'' \<longrightarrow> resolved_type m = None" using no_type by fast
    have e: "is_integer_type m \<longrightarrow> k' \<noteq> ''exclusiveMinimum'' \<and> k' \<noteq> ''exclusiveMaximum''" using False by fast
    have f: "(k' = ''type'' \<and> resolved_type m \<noteq> None) = False"
      "(k' = ''exclusiveMinimum'' \<and> is_integer_type m) = False"
      "(k' = ''exclusiveMaximum'' \<and> is_integer_type m) = False"
      using t e by fast+
    have "gemini_entry m ((k', v), c) =
        (if k' = ''propertyNames'' \<or> (k' = ''items'' \<and> v = JArr []) then None else Some (k', c))"
      unfolding gemini_entry_def prod.case f if_False by simp
    then have "k' = k \<and> w = c \<and> k' \<noteq> ''propertyNames'' \<and> \<not> (k' = ''items'' \<and> v = JArr [])"
      using assms by (simp split: if_splits)
    then show ?thesis using t e by fast
  qed
qed

lemma gemini_member:
  assumes "(k, w) \<in> set (gemini_object m (map (\<lambda>kv. gemini (item_target kv)) m))"
  obtains "k = ''nullable''" "w = JBool True"
  | v where "(k, v) \<in> set m" "k \<noteq> ''propertyNames''" "w = JStr (the (resolved_type m))" "k = ''type''" "resolved_type m \<noteq> None"
  | v where "(k, v) \<in> set m" "k \<noteq> ''propertyNames''" "w = gemini (item_target (k, v))"
      "k = ''type'' \<longrightarrow> resolved_type m = None" "k = ''items'' \<longrightarrow> v \<noteq> JArr []"
      "is_integer_type m \<longrightarrow> k \<noteq> ''exclusiveMinimum'' \<and> k \<noteq> ''exclusiveMaximum''"
  | n where "w = JInt n" "k \<in> {''minimum'', ''maximum''}"
proof -
  from nullable_mem [OF assms] consider "k = ''nullable''" "w = JBool True"
    | "(k, w) \<in> set (List.map_filter (gemini_entry m) (zip m (map (\<lambda>kv. gemini (item_target kv)) m)))"
    by auto
  then show ?thesis
  proof cases
    case 1
    then show ?thesis using that(1) by blast
  next
    case 2
    then obtain k' v where kv: "(k', v) \<in> set m" "gemini_entry m ((k', v), gemini (item_target (k', v))) = Some (k, w)"
      by (auto simp: mem_entries)
    from gemini_entry_cases [OF kv(2)] show ?thesis
    proof (elim disjE conjE exE)
      assume "k' = k" "w = gemini (item_target (k', v))" "k' \<noteq> ''propertyNames''"
        "k' = ''type'' \<longrightarrow> resolved_type m = None" "k' = ''items'' \<longrightarrow> v \<noteq> JArr []"
        "is_integer_type m \<longrightarrow> k' \<noteq> ''exclusiveMinimum'' \<and> k' \<noteq> ''exclusiveMaximum''"
      then show ?thesis using that(3) [of v] kv(1) by blast
    next
      fix n
      assume "k \<in> {''minimum'', ''maximum''}" "w = JInt n"
      then show ?thesis using that(4) by blast
    next
      assume "k' = ''type''" "k = ''type''" "resolved_type m \<noteq> None" "w = JStr (the (resolved_type m))"
      moreover have "k \<noteq> ''propertyNames''" using calculation(2) by simp
      ultimately show ?thesis using that(2) [of v] kv(1) by blast
    qed
  qed
qed

lemma gemini_sanitized: "\<lbrakk>json_ok j; schema_plain j\<rbrakk> \<Longrightarrow> gemini_clean (gemini j)"
proof (induction j rule: gemini.induct)
  case (1 m)
  let ?n = "gemini_object m (map (\<lambda>kv. gemini (item_target kv)) m)"
  have ok: "dict_ok ?n" and kp: "keywords_plain m" using 1 by simp_all
  have "keywords_clean ?n"
    unfolding keywords_clean_def
  proof (intro conjI allI notI)
    show "dict_get ?n ''propertyNames'' = None"
      by (rule ccontr) (auto dest!: dict_get_mem elim!: gemini_member)
    fix xs
    show False if "dict_get ?n ''type'' = Some (JArr xs)"
      using dict_get_mem [OF that] by (rule gemini_member) (use plain_type [OF 1(2) kp] in \<open>auto simp: item_target_def\<close>)
    show False if "dict_get ?n ''items'' = Some (JArr xs)"
      using dict_get_mem [OF that] by (rule gemini_member) (use plain_items [OF 1(2) kp] in auto)
  qed
  moreover have "bounds_clean ?n"
    unfolding bounds_clean_def
  proof (intro impI)
    assume t: "dict_get ?n ''type'' = Some (JStr ''integer'')"
    have int: "is_integer_type m"
      using dict_get_mem [OF t]
      by (rule gemini_member) (use 1(2) in \<open>auto simp: is_integer_type_def item_target_def dict_mem_get\<close>)
    have "dict_get ?n ''exclusiveMinimum'' = None" "dict_get ?n ''exclusiveMaximum'' = None"
      by (rule ccontr; use int in \<open>auto dest!: dict_get_mem elim!: gemini_member\<close>)+
    then show "dict_get ?n ''exclusiveMinimum'' = None \<and> dict_get ?n ''exclusiveMaximum'' = None" by simp
  qed
  moreover have "gemini_clean w" if "(k, w) \<in> set ?n" for k w
    using that
  proof (rule gemini_member)
    fix v
    assume kv: "(k, v) \<in> set m" "w = gemini (item_target (k, v))"
    then show "gemini_clean w"
      using 1(1) [OF kv(1) target_plain(2) [OF 1(2) kv(1)] target_plain(1) [OF 1(3) kv(1)]] by simp
  qed auto
  ultimately show ?case by (auto simp del: gemini.simps simp add: gemini.simps(1))
qed auto

lemma gemini_fixed: "\<lbrakk>json_ok j; gemini_clean j\<rbrakk> \<Longrightarrow> gemini j = j"
proof (induction j rule: gemini.induct)
  case (1 m)
  have kc: "keywords_clean m" "bounds_clean m" and ok: "dict_ok m" using 1 by simp_all
  have none: "type_array m = None"
    using kc by (cases "type_array m") (auto simp: type_array_def keywords_clean_def as_array_Some bind_eq_Some_conv)
  then have r: "resolved_type m = None" "\<not> add_nullable m" by (simp_all add: resolved_type_def add_nullable_def)
  have e: "gemini_entry m (kv, gemini (item_target kv)) = Some kv" if kv: "kv \<in> set m" for kv
  proof -
    obtain k v where k: "kv = (k, v)" by (cases kv)
    have g: "dict_get m k = Some v" using kv ok by (simp add: k dict_mem_get)
    have pn: "k \<noteq> ''propertyNames''" "k = ''items'' \<longrightarrow> v \<noteq> JArr xs" for xs
      using kc(1) g by (auto simp: keywords_clean_def)
    then have it: "item_target kv = v"
      by (auto simp: k item_target_def split: json.split list.split)
    have "json_ok v" "gemini_clean v" using 1(2,3) kv k by force+
    then have c: "gemini (item_target kv) = v" using 1(1) [OF kv] it by simp
    have "\<not> is_integer_type m" if "k = ''exclusiveMinimum'' \<or> k = ''exclusiveMaximum''"
    proof
      assume "is_integer_type m"
      then have "dict_get m ''type'' = Some (JStr ''integer'')"
        using r(1) by (cases "dict_get m ''type''") (simp_all add: is_integer_type_def as_str_Some)
      then show False using kc(2) g that by (auto simp: bounds_clean_def)
    qed
    then have "gemini_entry m ((k, v), v) = Some (k, v)"
      using pn r(1) by (simp add: gemini_entry_def)
    then show ?thesis using c by (simp add: k)
  qed
  then show ?case by (simp add: gemini_object_def Let_def r entries_id ok)
qed (auto intro: map_idI)

section \<open>The OpenAI walk\<close>

lemma is_object_openai [simp]: "is_object (openai x) = is_object x"
  by (cases x) auto

lemma is_tuple_simps [simp]:
  "\<not> is_tuple (JObj m)" "\<not> is_tuple (JStr t)" "\<not> is_tuple (positional cs)"
  "is_tuple (JArr xs) \<longleftrightarrow> xs \<noteq> [] \<and> list_all is_object xs"
  by (simp_all add: is_tuple_def positional_def)

lemma is_tuple_openai: "is_tuple (openai v) = is_tuple v"
  by (cases v) (auto simp: is_tuple_def list_all_iff)

lemma is_tuple_array: "is_tuple v \<Longrightarrow> \<exists>xs. v = JArr xs"
  by (cases v) (simp_all add: is_tuple_def)

lemma openai_entry_cases:
  assumes "openai_entry m ((k', v), c) = Some (k, w)"
  shows "k' = k \<and> k \<noteq> ''propertyNames'' \<and>
    ((k = ''type'' \<and> resolved_type m \<noteq> None \<and> w = JStr (the (resolved_type m))) \<or>
     ((k = ''type'' \<longrightarrow> resolved_type m = None) \<and>
      ((k = ''items'' \<and> v \<noteq> JArr [] \<and> w = c) \<or>
       (k \<noteq> ''items'' \<and> is_tuple v \<and> w = positional (elems c)) \<or>
       (k \<noteq> ''items'' \<and> \<not> is_tuple v \<and> w = c))))"
proof -
  have e: "openai_entry m ((k', v), c) =
      (if k' = ''propertyNames'' then None
       else if k' = ''type'' \<and> resolved_type m \<noteq> None then Some (''type'', JStr (the (resolved_type m)))
       else if k' = ''items'' then (if v = JArr [] then None else Some (k', c))
       else if is_tuple v then Some (k', positional (elems c)) else Some (k', c))"
    by (simp only: openai_entry_def prod.case)
  have pn: "k' \<noteq> ''propertyNames''" using assms unfolding e by (cases "k' = ''propertyNames''") simp_all
  show ?thesis
  proof (cases "k' = ''type'' \<and> resolved_type m \<noteq> None")
    case True
    then show ?thesis using assms pn unfolding e by simp
  next
    case False
    then have t: "k' = ''type'' \<longrightarrow> resolved_type m = None" by fast
    show ?thesis
    proof (cases "k' = ''items''")
      case True
      then have "v \<noteq> JArr [] \<and> k = k' \<and> w = c"
        using assms pn unfolding e by (simp split: if_splits)
      then show ?thesis using True pn by simp
    next
      case i: False
      have "(k, w) = (k', if is_tuple v then positional (elems c) else c)"
        using assms unfolding e by (simp only: pn i False if_False split: if_splits) simp_all
      then show ?thesis using t pn i by (cases "is_tuple v") simp_all
    qed
  qed
qed

lemma positional_clean:
  assumes "\<And>c. c \<in> set cs \<Longrightarrow> openai_clean c \<and> \<not> is_tuple c"
  shows "openai_clean (positional cs)"
proof -
  let ?p = "insert_all (map (\<lambda>i. (arg_name i, cs ! i)) [0..<length cs])"
  have mem: "\<exists>i<length cs. k = arg_name i \<and> v = cs ! i" if "(k, v) \<in> set ?p" for k v
    using insert_all_mem [OF that] by auto
  have "dict_get ?p k = None" if "k \<in> {''propertyNames'', ''type'', ''items''}" for k
  proof (rule ccontr)
    assume "dict_get ?p k \<noteq> None"
    then obtain v where "(k, v) \<in> set ?p" using dict_get_mem by fast
    then show False using mem that by (auto simp: arg_name_def)
  qed
  then have "keywords_clean ?p" by (simp add: keywords_clean_def)
  moreover have "openai_clean v \<and> \<not> is_tuple v" if "(k, v) \<in> set ?p" for k v
    using mem [OF that] assms by (auto simp: nth_mem)
  ultimately have "openai_clean (JObj ?p)" by auto
  moreover have "\<not> is_tuple (JArr (map (\<lambda>i. JStr (arg_name i)) [0..<length cs]))"
    by (simp add: list_all_iff Bex_def) (cases cs; auto)
  ultimately show ?thesis
    by (simp add: positional_def keywords_clean_def)
qed

lemma openai_member:
  assumes "(k, w) \<in> set (insert_all (List.map_filter (openai_entry m) (zip m (map (\<lambda>kv. openai (item_target kv)) m))))"
  obtains v where "(k, v) \<in> set m" "openai_entry m ((k, v), openai (item_target (k, v))) = Some (k, w)"
proof -
  obtain k' v where kv: "(k', v) \<in> set m" "openai_entry m ((k', v), openai (item_target (k', v))) = Some (k, w)"
    using insert_all_mem [OF assms] by (auto simp: mem_entries)
  then have "k' = k" using openai_entry_cases by blast
  then show ?thesis using kv that by blast
qed

lemma tuple_target: "\<lbrakk>k \<noteq> ''items''; is_tuple v\<rbrakk> \<Longrightarrow> openai (item_target (k, v)) = JArr (map openai (elems v))"
  using is_tuple_array [of v] by (auto simp: item_target_def elems_def)

lemma openai_sanitized: "\<lbrakk>json_ok j; schema_plain j\<rbrakk> \<Longrightarrow> openai_clean (openai j)"
proof (induction j rule: openai.induct)
  case (1 m)
  let ?n = "insert_all (List.map_filter (openai_entry m) (zip m (map (\<lambda>kv. openai (item_target kv)) m)))"
  have kp: "keywords_plain m" using 1 by simp
  have child: "openai_clean (openai (item_target kv))" if "kv \<in> set m" for kv
    using 1(1) [OF that target_plain(2) [OF 1(2) that] target_plain(1) [OF 1(3) that]] .
  have mem: "k \<noteq> ''propertyNames'' \<and> (k \<in> {''type'', ''items''} \<longrightarrow> w \<noteq> JArr xs) \<and> \<not> is_tuple w \<and> openai_clean w"
    if "(k, w) \<in> set ?n" for k w xs
  proof -
    from that obtain v where v: "(k, v) \<in> set m"
      and e: "openai_entry m ((k, v), openai (item_target (k, v))) = Some (k, w)"
      by (rule openai_member)
    note c = child [OF v]
    from openai_entry_cases [OF e] have pn: "k \<noteq> ''propertyNames''"
      and cases: "(k = ''type'' \<and> w = JStr (the (resolved_type m))) \<or>
        (k = ''items'' \<and> v \<noteq> JArr [] \<and> w = openai (item_target (k, v))) \<or>
        ((k = ''type'' \<longrightarrow> resolved_type m = None) \<and> k \<noteq> ''items'' \<and>
          (if is_tuple v then w = positional (elems (openai (item_target (k, v)))) else w = openai (item_target (k, v))))"
      by fastforce+
    from cases show ?thesis
    proof (elim disjE conjE)
      assume "k = ''type''" "w = JStr (the (resolved_type m))"
      then show ?thesis by simp
    next
      assume i: "k = ''items''" "v \<noteq> JArr []" "w = openai (item_target (k, v))"
      then have na: "item_target (k, v) \<noteq> JArr ys" for ys using plain_items [OF 1(2) kp] v by simp
      then have "\<not> is_tuple w" using i is_tuple_array is_tuple_openai by blast
      then show ?thesis using i na c by simp
    next
      assume o: "k = ''type'' \<longrightarrow> resolved_type m = None" "k \<noteq> ''items''"
        and w: "if is_tuple v then w = positional (elems (openai (item_target (k, v)))) else w = openai (item_target (k, v))"
      show ?thesis
      proof (cases "is_tuple v")
        case True
        have "openai_clean x \<and> \<not> is_tuple x" if x: "x \<in> set (map openai (elems v))" for x
        proof -
          obtain y where y: "y \<in> set (elems v)" "x = openai y" using x by auto
          have "is_object y" using True y(1) by (auto simp: is_tuple_def elems_def list_all_iff split: json.splits)
          then have "\<not> is_tuple y" by (cases y) simp_all
          moreover have "openai_clean (JArr (map openai (elems v)))" using c unfolding tuple_target [OF o(2) True] .
          then have "openai_clean x" using x by auto
          ultimately show ?thesis using y(2) is_tuple_openai by simp
        qed
        then have "openai_clean (positional (map openai (elems v)))" by (rule positional_clean)
        then have "openai_clean w" using w True unfolding tuple_target [OF o(2) True] by simp
        moreover have "w \<noteq> JArr xs" "\<not> is_tuple w" using w True by (simp_all add: positional_def)
        ultimately show ?thesis using pn by simp
      next
        case False
        have t: "item_target (k, v) = v" using o(2) by (simp add: item_target_def)
        have "k = ''type'' \<Longrightarrow> v \<noteq> JArr ys" for ys using plain_type [OF 1(2) kp] v o(1) by simp
        then show ?thesis using w False t c pn o(2) by (auto simp: is_tuple_openai)
      qed
    qed
  qed
  have "dict_get ?n ''propertyNames'' = None"
    by (rule ccontr) (auto dest!: dict_get_mem mem)
  moreover have "dict_get ?n k \<noteq> Some (JArr xs)" if "k \<in> {''type'', ''items''}" for k xs
    using mem [of k "JArr xs" xs] dict_get_mem [of ?n k "JArr xs"] that by blast
  ultimately have "keywords_clean ?n" by (simp add: keywords_clean_def)
  then show ?case using mem by fastforce
qed auto

lemma openai_fixed: "\<lbrakk>json_ok j; openai_clean j\<rbrakk> \<Longrightarrow> openai j = j"
proof (induction j rule: openai.induct)
  case (1 m)
  have kc: "keywords_clean m" and ok: "dict_ok m" using 1 by simp_all
  have r: "resolved_type m = None"
    using kc by (cases "type_array m") (auto simp: resolved_type_def type_array_def keywords_clean_def as_array_Some bind_eq_Some_conv)
  have e: "openai_entry m (kv, openai (item_target kv)) = Some kv" if kv: "kv \<in> set m" for kv
  proof -
    obtain k v where k: "kv = (k, v)" by (cases kv)
    have g: "dict_get m k = Some v" using kv ok by (simp add: k dict_mem_get)
    have pn: "k \<noteq> ''propertyNames''" "k = ''items'' \<longrightarrow> v \<noteq> JArr xs" for xs
      using kc g by (auto simp: keywords_clean_def)
    then have it: "item_target kv = v"
      by (auto simp: k item_target_def split: json.split list.split)
    have v: "json_ok v" "openai_clean v" "\<not> is_tuple v" using 1(2,3) kv k by force+
    then have c: "openai (item_target kv) = v" using 1(1) [OF kv] it by simp
    have "openai_entry m ((k, v), v) = Some (k, v)"
      using pn r v(3) by (simp add: openai_entry_def)
    then show ?thesis using c by (simp add: k)
  qed
  show ?case by (simp add: entries_id e ok)
qed (auto intro: map_idI)

section \<open>The sanitizer interface\<close>

text \<open>
  What a caller relies on: on the inputs it accepts a sanitizer leaves nothing the provider
  rejects, and it does not touch a schema the provider takes as it is.
\<close>

locale schema_sanitizer =
  fixes sanitize :: "json \<Rightarrow> json"
    and accepts :: "json \<Rightarrow> bool"
    and supported :: "json \<Rightarrow> bool"
  assumes sanitized: "accepts j \<Longrightarrow> supported (sanitize j)"
    and fixed: "supported j \<Longrightarrow> sanitize j = j"
begin

lemma idempotent: "accepts j \<Longrightarrow> sanitize (sanitize j) = sanitize j"
  by (rule fixed [OF sanitized])

end

interpretation identity: schema_sanitizer identity_sanitize "\<lambda>_. True" "\<lambda>_. True"
  by unfold_locales (simp_all add: identity_sanitize_def)

lemma wrap_i64_range: "i64_min \<le> wrap_i64 n \<and> wrap_i64 n \<le> u64_max"
proof -
  have "0 \<le> (n + 9223372036854775808) mod 18446744073709551616"
    "(n + 9223372036854775808) mod 18446744073709551616 < 18446744073709551616"
    by (rule pos_mod_sign pos_mod_bound; simp)+
  then show ?thesis unfolding wrap_i64_def i64_min_def u64_max_def by linarith
qed

lemma json_ok_insert_all: "(\<And>kv. kv \<in> set kvs \<Longrightarrow> json_ok (snd kv)) \<Longrightarrow> json_ok (JObj (insert_all kvs))"
  using insert_all_mem by fastforce

lemma positional_json_ok: "\<forall>c\<in>set cs. json_ok c \<Longrightarrow> json_ok (positional cs)"
proof -
  assume "\<forall>c\<in>set cs. json_ok c"
  then have "json_ok (JObj (insert_all (map (\<lambda>i. (arg_name i, cs ! i)) [0..<length cs])))"
    by (intro json_ok_insert_all) (auto simp: nth_mem)
  then show "json_ok (positional cs)" by (simp add: positional_def dict_ok_def del: json_ok.simps(3)) (simp add: dict_ok_def)
qed

lemma raised_ok: "raised_minimum v = Some w \<Longrightarrow> json_ok w" "lowered_maximum v = Some w \<Longrightarrow> json_ok w"
proof -
  have u: "0 \<le> n \<and> n \<le> u64_max" if "as_u64 v = Some n" for n
    using that by (cases v) (simp_all split: if_splits)
  have m: "0 \<le> (n + 1) mod 18446744073709551616" "(n + 1) mod 18446744073709551616 < (18446744073709551616 :: int)" for n
    by (rule pos_mod_sign pos_mod_bound; simp)+
  show "raised_minimum v = Some w \<Longrightarrow> json_ok w"
    using wrap_i64_range m by (fastforce simp: raised_minimum_def i64_min_def u64_max_def intro: less_imp_le split: option.splits)
  show "lowered_maximum v = Some w \<Longrightarrow> json_ok w"
    using wrap_i64_range u by (fastforce simp: lowered_maximum_def i64_min_def u64_max_def split: option.splits)
qed

lemma gemini_json_ok: "json_ok j \<Longrightarrow> json_ok (gemini j)"
proof (induction j rule: gemini.induct)
  case (1 m)
  let ?n = "gemini_object m (map (\<lambda>kv. gemini (item_target kv)) m)"
  have "json_ok w" if w: "(k, w) \<in> set ?n" for k w
  proof -
    from nullable_mem [OF w] consider "w = JBool True"
      | k' v where "(k', v) \<in> set m" "gemini_entry m ((k', v), gemini (item_target (k', v))) = Some (k, w)"
      by (auto simp: mem_entries)
    then show ?thesis
    proof cases
      case (2 k' v)
      have c: "json_ok (gemini (item_target (k', v)))" using 1(1) [OF 2(1) target_plain(2) [OF 1(2) 2(1)]] .
      have "w = gemini (item_target (k', v)) \<or> w = JStr (the (resolved_type m)) \<or>
          raised_minimum v = Some w \<or> lowered_maximum v = Some w"
        using 2(2) unfolding gemini_entry_def prod.case by (simp split: if_split_asm) auto
      then show ?thesis using c raised_ok by auto
    qed simp
  qed
  then show ?case by fastforce
qed auto

lemma openai_json_ok: "json_ok j \<Longrightarrow> json_ok (openai j)"
proof (induction j rule: openai.induct)
  case (1 m)
  let ?n = "insert_all (List.map_filter (openai_entry m) (zip m (map (\<lambda>kv. openai (item_target kv)) m)))"
  have "json_ok w" if w: "(k, w) \<in> set ?n" for k w
  proof -
    from w obtain v where v: "(k, v) \<in> set m"
      and e: "openai_entry m ((k, v), openai (item_target (k, v))) = Some (k, w)"
      by (rule openai_member)
    have c: "json_ok (openai (item_target (k, v)))" using 1(1) [OF v target_plain(2) [OF 1(2) v]] .
    from openai_entry_cases [OF e] consider "w = JStr (the (resolved_type m))" | "w = openai (item_target (k, v))"
      | "w = positional (elems (openai (item_target (k, v))))" by blast
    then show ?thesis
    proof cases
      case 3
      have "\<forall>x\<in>set (elems (openai (item_target (k, v)))). json_ok x"
        using c by (auto simp: elems_def split: json.splits)
      then show ?thesis unfolding 3 by (rule positional_json_ok)
    qed (use c in simp_all)
  qed
  then show ?case by fastforce
qed auto

interpretation gemini: schema_sanitizer gemini "\<lambda>j. json_ok j \<and> schema_plain j" "\<lambda>j. json_ok j \<and> gemini_clean j"
  by unfold_locales (simp_all add: gemini_json_ok gemini_sanitized gemini_fixed)

lemma insert_all_has: "k \<in> fst ` set kvs \<Longrightarrow> dict_get (insert_all kvs) k \<noteq> None"
proof -
  have "(k \<in> fst ` set kvs \<or> dict_get acc k \<noteq> None) \<longrightarrow>
      dict_get (fold (\<lambda>kv. dict_put (fst kv) (snd kv)) kvs acc) k \<noteq> None" for acc
    by (induction kvs arbitrary: acc) auto
  then show "k \<in> fst ` set kvs \<Longrightarrow> ?thesis" unfolding insert_all_def by blast
qed

lemma keeps_properties:
  assumes "dict_has m ''properties''"
  shows "\<exists>n. openai (JObj m) = JObj n \<and> dict_has n ''properties''"
proof -
  let ?kvs = "List.map_filter (openai_entry m) (zip m (map (\<lambda>kv. openai (item_target kv)) m))"
  obtain v where v: "(''properties'', v) \<in> set m"
    using assms dict_get_mem by (fastforce simp: dict_has_def)
  have "\<exists>w. openai_entry m ((''properties'', v), openai (item_target (''properties'', v))) = Some (''properties'', w)"
    by (simp add: openai_entry_def)
  then have "''properties'' \<in> fst ` set ?kvs" using v by (force simp: mem_entries image_iff)
  from insert_all_has [OF this] show ?thesis by (simp add: dict_has_def)
qed

text \<open>Parameter schemas as tools give them: objects with properties, or tuples of objects.\<close>

definition openai_accepts :: "json \<Rightarrow> bool" where
  "openai_accepts j \<longleftrightarrow> json_ok j \<and> schema_plain j \<and>
     (case j of JObj m \<Rightarrow> dict_has m ''properties'' | JArr xs \<Rightarrow> list_all is_object xs | _ \<Rightarrow> False)"

definition openai_supported :: "json \<Rightarrow> bool" where
  "openai_supported j \<longleftrightarrow> json_ok j \<and> openai_clean j \<and> jget j ''type'' = Some (JStr ''object'')"

lemma put_type_supported:
  assumes "json_ok (JObj m)" "openai_clean (JObj m)"
  shows "openai_supported (JObj (dict_put ''type'' (JStr ''object'') m))"
proof -
  have mem: "w = JStr ''object'' \<or> (k, w) \<in> set m" if "(k, w) \<in> set (dict_put ''type'' (JStr ''object'') m)" for k w
    using that assms(1) by (auto simp: dict_mem_get split: if_splits)
  have "json_ok w \<and> openai_clean w \<and> \<not> is_tuple w" if "(k, w) \<in> set (dict_put ''type'' (JStr ''object'') m)" for k w
    using mem [OF that] assms by fastforce
  then show ?thesis
    using assms unfolding openai_supported_def by (fastforce simp: keywords_clean_def)
qed

lemma openai_sanitize_supported: "openai_accepts j \<Longrightarrow> openai_supported (openai_sanitize j)"
proof -
  assume acc: "openai_accepts j"
  show ?thesis
  proof (cases j)
    case (JArr xs)
    show ?thesis
    proof (cases xs)
      case Nil
      then show ?thesis
        by (simp add: JArr openai_sanitize_def openai_supported_def keywords_clean_def dict_ok_def)
    next
      case (Cons x ys)
      have x: "json_ok y" "schema_plain y" "is_object y" if "y \<in> set xs" for y
        using acc that by (auto simp: openai_accepts_def JArr list_all_iff)
      have "openai_clean c \<and> \<not> is_tuple c" if c: "c \<in> set (map openai xs)" for c
      proof -
        obtain y where y: "y \<in> set xs" "c = openai y" using c by auto
        have "\<not> is_tuple y" using x(3) [OF y(1)] by (cases y) simp_all
        then show ?thesis using y x openai_sanitized by (simp add: is_tuple_openai)
      qed
      then have "openai_clean (positional (map openai xs))" by (rule positional_clean)
      moreover have "json_ok (positional (map openai xs))"
        by (rule positional_json_ok) (use x openai_json_ok in auto)
      ultimately show ?thesis
        by (simp add: openai_supported_def openai_sanitize_def JArr Cons) (simp add: positional_def)
    qed
  next
    case (JObj m)
    then obtain n where n: "openai j = JObj n" "dict_has n ''properties''"
      using acc keeps_properties by (auto simp: openai_accepts_def)
    have ok: "json_ok (JObj n)" "openai_clean (JObj n)"
      using acc openai_json_ok [of j] openai_sanitized [of j] unfolding n(1) openai_accepts_def by blast+
    have "openai_sanitize j = ensure_object_type (JObj n)"
      using n(1) by (simp add: openai_sanitize_def JObj)
    also have "openai_supported \<dots>"
    proof (cases "Option.bind (dict_get n ''type'') as_str = Some ''object''")
      case True
      then have "dict_get n ''type'' = Some (JStr ''object'')" by (auto simp: bind_eq_Some_conv as_str_Some)
      then show ?thesis using ok by (simp add: ensure_object_type_def openai_supported_def)
    next
      case False
      then have "ensure_object_type (JObj n) = JObj (dict_put ''type'' (JStr ''object'') n)"
        using n(2) by (simp add: ensure_object_type_def)
      then show ?thesis using put_type_supported [OF ok] by simp
    qed
    finally show ?thesis .
  qed (use acc in \<open>simp_all add: openai_accepts_def\<close>)
qed

lemma openai_sanitize_fixed: "openai_supported j \<Longrightarrow> openai_sanitize j = j"
proof -
  assume s: "openai_supported j"
  then obtain m where m: "j = JObj m" "dict_get m ''type'' = Some (JStr ''object'')"
    by (cases j) (auto simp: openai_supported_def)
  have "openai j = j" using s openai_fixed by (simp add: openai_supported_def)
  then show ?thesis using m(2) unfolding m(1) openai_sanitize_def by (simp add: ensure_object_type_def)
qed

interpretation openai: schema_sanitizer openai_sanitize openai_accepts openai_supported
  by unfold_locales (simp_all add: openai_sanitize_supported openai_sanitize_fixed)

section \<open>Properties\<close>

text \<open>
  The Gemini walk leaves none of the keywords Gemini rejects, at any depth: no propertyNames, no
  array as type or items, no exclusive bound on an integer; and a second pass changes nothing.
  It assumes what it cannot repair: an array-typed type names some type besides null, and a tuple
  items does not begin with another array.
\<close>

theorem gemini_schema_accepted:
  assumes "json_ok j" and "schema_plain j"
  shows "gemini_clean (gemini j) \<and> gemini (gemini j) = gemini j"
  using gemini.sanitized [of j] gemini.idempotent [of j] assms by simp

definition demo_schema :: json where
  "demo_schema = JObj [(''type'', JStr ''object''), (''properties'', JObj [
     (''n'', JObj [(''type'', JArr [JStr ''integer'', JStr ''null'']), (''exclusiveMinimum'', JInt 4)]),
     (''xs'', JObj [(''type'', JStr ''array''), (''items'', JArr [JObj [(''type'', JStr ''string'')], JObj []])])])]"

lemmas schema_eval = insert_all_def map_filter_simps item_target_def type_array_def non_null_types_def
  resolved_type_def add_nullable_def is_integer_type_def raised_minimum_def lowered_maximum_def wrap_i64_def
  i64_min_def i64_max_def u64_max_def gemini_entry_def gemini_object_def is_tuple_def openai_entry_def elems_def

lemma demo_schema_ok: "json_ok demo_schema" "schema_plain demo_schema"
  by (simp_all add: demo_schema_def dict_ok_def i64_min_def u64_max_def keywords_plain_def non_null_types_def)

theorem gemini_schema_accepted_witness:
  "gemini_clean (gemini demo_schema) \<and> gemini demo_schema \<noteq> demo_schema"
  using gemini_schema_accepted [OF demo_schema_ok]
  by (auto simp: demo_schema_def keywords_clean_def dict_ok_def)

text \<open>
  C29. Let the parameters of a tool be an object with properties or a tuple of object schemas, in which the keys of
  each object are distinct and integers fit their type, each array as type names a type other than null, and no
  array as items starts with another array. Sanitised for OpenAI they are an object schema, contain at no depth a
  propertyNames, an array as type or items, or a list of schemas as a value, and a second pass changes nothing.
\<close>

theorem openai_parameters_accepted:
  assumes "json_ok j" and "schema_plain j"
    and "case j of JObj m \<Rightarrow> dict_has m ''properties'' | JArr xs \<Rightarrow> list_all is_object xs | _ \<Rightarrow> False"
  shows "jget (openai_sanitize j) ''type'' = Some (JStr ''object'') \<and> openai_clean (openai_sanitize j) \<and>
    openai_sanitize (openai_sanitize j) = openai_sanitize j"
proof -
  have "openai_accepts j" using assms by (simp add: openai_accepts_def)
  then show ?thesis using openai.sanitized [of j] openai.idempotent [of j] by (simp add: openai_supported_def)
qed

theorem openai_parameters_accepted_witness:
  "jget (openai_sanitize (JArr [demo_schema, demo_schema])) ''type'' = Some (JStr ''object'')"
proof -
  have "json_ok (JArr [demo_schema, demo_schema])" "schema_plain (JArr [demo_schema, demo_schema])"
    using demo_schema_ok by simp_all
  from openai_parameters_accepted [OF this] show ?thesis by (simp add: demo_schema_def)
qed

text \<open>
  The rule for tuples also takes the combinators of JSON Schema: a non-empty anyOf, oneOf or
  allOf list of object schemas comes back as an object schema with the alternatives as required
  positional properties, so the constraint is lost and the keyword has a value it may not have.
\<close>

theorem combinators_become_objects:
  assumes "json_ok (JObj m)" and "k \<in> {''anyOf'', ''oneOf'', ''allOf''}"
    and "dict_get m k = Some (JArr xs)" and "xs \<noteq> []" and "list_all is_object xs"
  shows "jget (openai (JObj m)) k = Some (positional (map openai xs))"
proof -
  let ?g = "\<lambda>kv. openai (item_target kv)"
  let ?o = "List.map_filter (openai_entry m) (zip m (map ?g m))"
  have "dict_ok ?o" using assms(1) openai_entry_cases by (intro filter_keys) fastforce+
  then have i: "insert_all ?o = ?o" by simp
  have "(k, JArr xs) \<in> set m" using assms(1,3) by (simp add: dict_mem_get)
  moreover have "openai_entry m ((k, JArr xs), ?g (k, JArr xs)) = Some (k, positional (map openai xs))"
    using assms(2,4,5) by (auto simp: openai_entry_def item_target_def)
  ultimately have "(k, positional (map openai xs)) \<in> set ?o" by (auto simp: mem_entries)
  then show ?thesis using \<open>dict_ok ?o\<close> i by (simp add: dict_mem_get)
qed

theorem combinators_become_objects_witness:
  "jget (openai (JObj [(''anyOf'', JArr [JObj [(''type'', JStr ''string'')], JObj []])])) ''anyOf''
     = Some (positional [openai (JObj [(''type'', JStr ''string'')]), openai (JObj [])])"
  using combinators_become_objects [of "[(''anyOf'', JArr [JObj [(''type'', JStr ''string'')], JObj []])]" "''anyOf''"]
  by (simp add: dict_ok_def)

end
