(* ===== verification/WorkflowActions.thy ===== *)
theory WorkflowActions
  imports F64
begin

text \<open>
  \<open>src/action_executor.rs\<close> and the conditions of \<open>src/graph_workflow.rs\<close>: the action nodes of a
  workflow. The HTTP client, the file system, the JSON reader and writer and the Unicode case
  mapping are fields of an environment; effects thread a state of the outside world.
\<close>

section \<open>Strings\<close>

text \<open>\<open>str::split_once\<close> with a string pattern, \<open>str::split\<close> with a character.\<close>

fun split_once_str :: "string \<Rightarrow> string \<Rightarrow> (string \<times> string) option" where
  "split_once_str p [] = (if p = [] then Some ([], []) else None)"
| "split_once_str p (c # s) =
     (if prefix p (c # s) then Some ([], drop (length p) (c # s))
      else map_option (apfst (Cons c)) (split_once_str p s))"

lemma split_once_str_SomeD: "split_once_str p s = Some (a, b) \<Longrightarrow> s = a @ p @ b"
  by (induction s arbitrary: a) (auto simp: prefix_def split: if_splits)

lemma split_once_str_None: "split_once_str p s = None \<longleftrightarrow> \<not> contains_str s p"
  by (induction s) auto

section \<open>Conditions\<close>

type_synonym workflow_state = "json dict"

text \<open>
  The text a value is compared by in an equality test; \<open>ftoa\<close> prints the floating-point numbers of
  \<open>serde_json\<close>.
\<close>

definition value_text :: "(64 word \<Rightarrow> string) \<Rightarrow> json \<Rightarrow> string option" where
  "value_text ftoa v =
     (case v of JStr s \<Rightarrow> Some s | JInt n \<Rightarrow> Some (show_int n) | JFloat w \<Rightarrow> Some (ftoa w)
      | JBool b \<Rightarrow> Some (if b then ''true'' else ''false'') | _ \<Rightarrow> None)"

definition threshold_test ::
  "char \<Rightarrow> (64 word \<Rightarrow> 64 word \<Rightarrow> bool) \<Rightarrow> string \<Rightarrow> workflow_state \<Rightarrow> bool option" where
  "threshold_test op cmp cond st =
     (case split_once op cond of
        None \<Rightarrow> None
      | Some (key, val) \<Rightarrow>
          map_option (\<lambda>threshold. case Option.bind (dict_get st (trim key)) as_f64 of
               Some n \<Rightarrow> cmp n threshold | None \<Rightarrow> False)
            (parse_f64 (trim val)))"

definition truthy :: "json option \<Rightarrow> bool" where
  "truthy v = (case v of None \<Rightarrow> False | Some j \<Rightarrow> j \<noteq> JNull \<and> as_bool j \<noteq> Some False)"

definition evaluate_condition :: "(64 word \<Rightarrow> string) \<Rightarrow> string \<Rightarrow> workflow_state \<Rightarrow> bool" where
  "evaluate_condition ftoa condition st =
     (let cond = trim condition in
      case split_once_str ''=='' cond of
        Some (key, val) \<Rightarrow>
          (case dict_get st (trim key) of
             Some v \<Rightarrow> value_text ftoa v = Some (trim_matches (CHR 0x22) (trim val)) | None \<Rightarrow> False)
      | None \<Rightarrow>
        (case split_once_str ''!='' cond of
           Some (key, val) \<Rightarrow>
             (case dict_get st (trim key) of
                Some v \<Rightarrow> value_text ftoa v \<noteq> Some (trim_matches (CHR 0x22) (trim val)) | None \<Rightarrow> True)
         | None \<Rightarrow>
           (case threshold_test (CHR ''>'') (\<lambda>n t. f64_less t n) cond st of
              Some b \<Rightarrow> b
            | None \<Rightarrow>
              (case threshold_test (CHR ''<'') f64_less cond st of
                 Some b \<Rightarrow> b
               | None \<Rightarrow> truthy (dict_get st cond)))))"

section \<open>Action configuration\<close>

datatype action_type = Http | Database | File | Transform | SetAction | Switch | Loop | Merge | Wait | Code
  | Email | Notification | Rss | Trigger

record action_node_config =
  anc_action_type :: action_type
  anc_params :: json

text \<open>\<open>serde_json::from_value::<ActionNodeConfig>\<close>, from an object or from an array of the fields.\<close>

definition action_type_name :: "string \<Rightarrow> action_type option" where
  "action_type_name = map_of
     [(''http'', Http), (''database'', Database), (''file'', File), (''transform'', Transform), (''set'', SetAction),
      (''switch'', Switch), (''loop'', Loop), (''merge'', Merge), (''wait'', Wait), (''code'', Code), (''email'', Email),
      (''notification'', Notification), (''rss'', Rss), (''trigger'', Trigger)]"

definition action_type_of :: "json \<Rightarrow> action_type option" where
  "action_type_of j = (case j of JStr s \<Rightarrow> action_type_name s | JObj [(k, JNull)] \<Rightarrow> action_type_name k | _ \<Rightarrow> None)"

definition action_config_of :: "json \<Rightarrow> action_node_config option" where
  "action_config_of j =
     (case j of
        JObj m \<Rightarrow> map_option (\<lambda>t. \<lparr>anc_action_type = t,
            anc_params = (case dict_get m ''params'' of Some p \<Rightarrow> p | None \<Rightarrow> JNull)\<rparr>)
          (Option.bind (dict_get m ''actionType'') action_type_of)
      | JArr [t] \<Rightarrow> map_option (\<lambda>t. \<lparr>anc_action_type = t, anc_params = JNull\<rparr>) (action_type_of t)
      | JArr [t, p] \<Rightarrow> map_option (\<lambda>t. \<lparr>anc_action_type = t, anc_params = p\<rparr>) (action_type_of t)
      | _ \<Rightarrow> None)"

section \<open>The outside world\<close>

record http_request =
  hr_method :: string
  hr_url :: string
  hr_headers :: "(string \<times> string) list"
  hr_body :: "string option"
  hr_timeout_secs :: int

datatype http_outcome = ClientFailed string | SendFailed string
  | Response nat "(string \<times> string) list" string

record file_entry =
  fe_name :: string
  fe_is_dir :: bool
  fe_size :: nat

record 'w action_env =
  ae_upper :: "string \<Rightarrow> string"
  ae_ftoa :: "64 word \<Rightarrow> string"
  ae_json_text :: "json \<Rightarrow> string"
  ae_parse_json :: "string \<Rightarrow> json option"
  ae_http :: "http_request \<Rightarrow> 'w \<Rightarrow> 'w \<times> http_outcome"
  ae_read :: "string \<Rightarrow> 'w \<Rightarrow> 'w \<times> (string, string) result"
  ae_write :: "string \<Rightarrow> string \<Rightarrow> 'w \<Rightarrow> 'w \<times> (string, unit) result"
  ae_list :: "string \<Rightarrow> 'w \<Rightarrow> 'w \<times> (string, file_entry list) result"
  ae_exists :: "string \<Rightarrow> 'w \<Rightarrow> 'w \<times> bool"
  ae_sleep :: "int \<Rightarrow> 'w \<Rightarrow> 'w"

datatype action_error = ExecutionFailed string | InvalidParams string

text \<open>\<open>params.get(key).and_then(as_str).unwrap_or(default)\<close> and the same with \<open>as_u64\<close>.\<close>

definition str_param :: "json \<Rightarrow> string \<Rightarrow> string \<Rightarrow> string" where
  "str_param p k d = (case Option.bind (jget p k) as_str of Some s \<Rightarrow> s | None \<Rightarrow> d)"

definition u64_param :: "json \<Rightarrow> string \<Rightarrow> int \<Rightarrow> int" where
  "u64_param p k d = (case Option.bind (jget p k) as_u64 of Some n \<Rightarrow> n | None \<Rightarrow> d)"

section \<open>Actions\<close>

definition http_methods :: "string list" where
  "http_methods = [''GET'', ''POST'', ''PUT'', ''PATCH'', ''DELETE'']"

definition execute_http :: "'w action_env \<Rightarrow> json \<Rightarrow> 'w \<Rightarrow> 'w \<times> (action_error, json) result" where
  "execute_http env params w =
     (let meth = str_param params ''method'' ''GET''; url = str_param params ''url'' [];
          upper = ae_upper env meth
      in if url = [] then (w, Err (InvalidParams ''http action requires a 'url' parameter''))
         else if upper \<notin> set http_methods then (w, Err (InvalidParams (''unsupported HTTP method: '' @ upper)))
         else
           (let hdrs = (case Option.bind (jget params ''headers'') as_object of None \<Rightarrow> []
                  | Some m \<Rightarrow> List.map_filter (\<lambda>(k, v). map_option (Pair k) (as_str v)) m);
                body = map_option (ae_json_text env) (jget params ''body'');
                req = \<lparr>hr_method = upper, hr_url = url,
                  hr_headers = hdrs @ (if body = None then [] else [(''Content-Type'', ''application/json'')]),
                  hr_body = body, hr_timeout_secs = u64_param params ''timeout_secs'' 30\<rparr>
            in case ae_http env req w of
                 (w', ClientFailed e) \<Rightarrow> (w', Err (ExecutionFailed (''failed to build HTTP client: '' @ e)))
               | (w', SendFailed e) \<Rightarrow> (w', Err (ExecutionFailed (''HTTP request failed: '' @ e)))
               | (w', Response status rh text) \<Rightarrow>
                   (w', Ok (JObj [(''action'', JStr ''http''), (''method'', JStr meth), (''url'', JStr url),
                      (''status'', JInt (int status)),
                      (''headers'', JObj (fold (\<lambda>(k, v). dict_put k (JStr v)) rh [])),
                      (''body'', case ae_parse_json env text of Some j \<Rightarrow> j | None \<Rightarrow> JStr text)]))))"

definition execute_database :: "json \<Rightarrow> (action_error, json) result" where
  "execute_database params = Ok (JObj [(''action'', JStr ''database''), (''db_type'', JStr (str_param params ''db_type'' ''unknown'')),
     (''query'', JStr (str_param params ''query'' [])), (''rows_affected'', JInt 0), (''result'', JArr [])])"

definition file_result :: "string \<Rightarrow> string \<Rightarrow> (string \<times> json) list \<Rightarrow> json" where
  "file_result op path rest = JObj ([(''action'', JStr ''file''), (''operation'', JStr op), (''path'', JStr path)] @ rest)"

definition execute_file :: "'w action_env \<Rightarrow> json \<Rightarrow> 'w \<Rightarrow> 'w \<times> (action_error, json) result" where
  "execute_file env params w =
     (let op = str_param params ''operation'' ''read''; path = str_param params ''path'' []
      in if path = [] then (w, Err (InvalidParams ''file action requires a 'path' parameter''))
         else if contains_str path ''..'' then (w, Err (InvalidParams ''path traversal not allowed''))
         else if op = ''read'' then
           (case ae_read env path w of
              (w', Ok content) \<Rightarrow> (w', Ok (file_result ''read'' path [(''success'', JBool True), (''content'', JStr content),
                 (''size'', JInt (int (length content)))]))
            | (w', Err e) \<Rightarrow> (w', Err (ExecutionFailed (''failed to read file: '' @ e))))
         else if op = ''write'' then
           (let content = str_param params ''content'' [] in
            case ae_write env path content w of
              (w', Ok _) \<Rightarrow> (w', Ok (file_result ''write'' path [(''success'', JBool True),
                 (''bytes_written'', JInt (int (length content)))]))
            | (w', Err e) \<Rightarrow> (w', Err (ExecutionFailed (''failed to write file: '' @ e))))
         else if op = ''list'' then
           (case ae_list env path w of
              (w', Ok es) \<Rightarrow> (w', Ok (file_result ''list'' path [(''success'', JBool True),
                 (''entries'', JArr (map (\<lambda>e. JObj [(''name'', JStr (fe_name e)), (''is_dir'', JBool (fe_is_dir e)),
                    (''size'', JInt (int (fe_size e)))]) es))]))
            | (w', Err e) \<Rightarrow> (w', Err (ExecutionFailed (''failed to list directory: '' @ e))))
         else if op = ''exists'' then
           (case ae_exists env path w of (w', b) \<Rightarrow> (w', Ok (file_result ''exists'' path [(''exists'', JBool b)])))
         else (w, Err (InvalidParams (''unknown file operation: '' @ op))))"

text \<open>The extraction path of a transform walks objects by key and arrays by index.\<close>

definition step_into :: "json \<Rightarrow> string \<Rightarrow> json" where
  "step_into j part =
     (case j of
        JObj m \<Rightarrow> (case dict_get m part of Some v \<Rightarrow> v | None \<Rightarrow> JNull)
      | JArr xs \<Rightarrow> (case parse_u64 part of Some i \<Rightarrow> if i < length xs then xs ! i else JNull | None \<Rightarrow> JNull)
      | _ \<Rightarrow> JNull)"

definition execute_transform :: "json \<Rightarrow> (action_error, json) result" where
  "execute_transform params =
     (let input = (case jget params ''input'' of Some v \<Rightarrow> v | None \<Rightarrow> JNull);
          expression = str_param params ''expression'' [];
          output = (if expression = [] then input else foldl step_into input (split_on (CHR ''.'') expression))
      in Ok (JObj [(''action'', JStr ''transform''), (''expression'', JStr expression), (''input'', input), (''output'', output)]))"

definition execute_set :: "json \<Rightarrow> (action_error, json) result" where
  "execute_set params = Ok (JObj [(''action'', JStr ''set''),
     (''values'', case jget params ''values'' of Some v \<Rightarrow> v | None \<Rightarrow> JNull)])"

definition switch_result :: "string \<Rightarrow> string \<Rightarrow> json" where
  "switch_result branch expr = JObj [(''action'', JStr ''switch''), (''matched_branch'', JStr branch), (''expression'', JStr expr)]"

definition execute_switch :: "(64 word \<Rightarrow> string) \<Rightarrow> json \<Rightarrow> (action_error, json) result" where
  "execute_switch ftoa params =
     (let conditions = (case Option.bind (jget params ''conditions'') as_array of Some xs \<Rightarrow> xs | None \<Rightarrow> []);
          default_branch = str_param params ''default'' ''default'';
          st = (case Option.bind (jget params ''state'') as_object of Some m \<Rightarrow> m | None \<Rightarrow> [])
      in case find (\<lambda>c. evaluate_condition ftoa (str_param c ''expression'' []) st) conditions of
           Some c \<Rightarrow> Ok (switch_result (str_param c ''branch'' []) (str_param c ''expression'' []))
         | None \<Rightarrow> Ok (switch_result default_branch ''default''))"

definition execute_loop :: "json \<Rightarrow> (action_error, json) result" where
  "execute_loop params = Ok (JObj [(''action'', JStr ''loop''), (''loop_type'', JStr (str_param params ''loop_type'' ''times'')),
     (''iterations_completed'', JInt (u64_param params ''count'' 1)), (''results'', JArr [])])"

definition execute_merge :: "json \<Rightarrow> (action_error, json) result" where
  "execute_merge params = Ok (JObj [(''action'', JStr ''merge''), (''strategy'', JStr (str_param params ''strategy'' ''waitAll'')),
     (''merged'', JBool True)])"

definition execute_wait :: "'w action_env \<Rightarrow> json \<Rightarrow> 'w \<Rightarrow> 'w \<times> (action_error, json) result" where
  "execute_wait env params w =
     (let capped = min (u64_param params ''duration_ms'' 0) 60000
      in (if capped > 0 then ae_sleep env capped w else w,
          Ok (JObj [(''action'', JStr ''wait''), (''wait_type'', JStr (str_param params ''wait_type'' ''fixed'')),
            (''duration_ms'', JInt capped), (''completed'', JBool True)])))"

definition execute_code :: "json \<Rightarrow> (action_error, json) result" where
  "execute_code params = Ok (JObj [(''action'', JStr ''code''), (''language'', JStr (str_param params ''language'' ''javascript'')),
     (''code_length'', JInt (int (length (str_param params ''code'' [])))), (''result'', JNull)])"

definition execute_email :: "json \<Rightarrow> (action_error, json) result" where
  "execute_email params = Ok (JObj [(''action'', JStr ''email''), (''operation'', JStr (str_param params ''operation'' ''send'')),
     (''success'', JBool True)])"

definition execute_notification :: "json \<Rightarrow> (action_error, json) result" where
  "execute_notification params = Ok (JObj [(''action'', JStr ''notification''), (''target'', JStr (str_param params ''target'' ''webhook'')),
     (''message'', JStr (str_param params ''message'' [])), (''delivered'', JBool True)])"

definition execute_rss :: "json \<Rightarrow> (action_error, json) result" where
  "execute_rss params = Ok (JObj [(''action'', JStr ''rss''), (''feed_url'', JStr (str_param params ''feed_url'' [])),
     (''new_items'', JInt 0), (''items'', JArr [])])"

definition execute_trigger :: "json \<Rightarrow> (action_error, json) result" where
  "execute_trigger params = Ok (JObj [(''action'', JStr ''trigger''),
     (''trigger_type'', JStr (str_param params ''trigger_type'' ''manual'')), (''triggered'', JBool True)])"

definition execute_action :: "'w action_env \<Rightarrow> action_node_config \<Rightarrow> 'w \<Rightarrow> 'w \<times> (action_error, json) result" where
  "execute_action env c w =
     (let params = anc_params c in
      case anc_action_type c of
        Http \<Rightarrow> execute_http env params w
      | Database \<Rightarrow> (w, execute_database params)
      | File \<Rightarrow> execute_file env params w
      | Transform \<Rightarrow> (w, execute_transform params)
      | SetAction \<Rightarrow> (w, execute_set params)
      | Switch \<Rightarrow> (w, execute_switch (ae_ftoa env) params)
      | Loop \<Rightarrow> (w, execute_loop params)
      | Merge \<Rightarrow> (w, execute_merge params)
      | Wait \<Rightarrow> execute_wait env params w
      | Code \<Rightarrow> (w, execute_code params)
      | Email \<Rightarrow> (w, execute_email params)
      | Notification \<Rightarrow> (w, execute_notification params)
      | Rss \<Rightarrow> (w, execute_rss params)
      | Trigger \<Rightarrow> (w, execute_trigger params))"

end
