(* ===== verification/GraphWorkflow.thy ===== *)
theory GraphWorkflow
  imports WorkflowActions
begin

text \<open>
  \<open>src/graph_workflow.rs\<close>: building a workflow from its configuration and executing it. The agent
  runner is a field of the environment; a node's outcome may depend on the outside world, whose state
  is threaded through.
\<close>

section \<open>Workflows\<close>

datatype graph_node_type = AgentNode | ActionNode | ToolNode

datatype reducer_type = Overwrite | Append | Sum | Custom string

record graph_node_config =
  gn_id :: string
  gn_node_type :: graph_node_type
  gn_config :: json

record graph_edge_config =
  ge_from :: string
  ge_to :: string
  ge_condition :: "string option"

record interrupt_config =
  ic_before :: "string list"
  ic_after :: "string list"

record checkpoint_config =
  cc_backend :: string
  cc_path :: "string option"

record graph_workflow_config =
  gwc_nodes :: "graph_node_config list"
  gwc_edges :: "graph_edge_config list"
  gwc_state_reducers :: "reducer_type dict"
  gwc_checkpoint :: "checkpoint_config option"
  gwc_max_iterations :: "32 word option"
  gwc_interrupts :: "interrupt_config option"

record workflow_node =
  wn_id :: string
  wn_node_type :: graph_node_type
  wn_config :: json

record workflow_edge =
  we_from :: string
  we_to :: string
  we_condition :: "string option"

record graph_workflow =
  wf_nodes :: "workflow_node list"
  wf_edges :: "workflow_edge list"
  wf_state_reducers :: "reducer_type dict"
  wf_checkpoint :: "checkpoint_config option"
  wf_max_iterations :: "32 word"
  wf_interrupts :: "interrupt_config option"

record node_result =
  nr_node_id :: string
  nr_output :: json
  nr_error :: "string option"

record checkpoint_snapshot =
  cs_node_id :: string
  cs_state :: workflow_state
  cs_iteration :: "32 word"

datatype graph_workflow_error =
    EmptyGraph
  | DuplicateNodeId string
  | InvalidEdge string string string
  | NodeNotFound string
  | MaxIterationsReached "32 word" string
  | NodeExecutionFailed string string

definition error_text :: "graph_workflow_error \<Rightarrow> string" where
  "error_text e =
     (case e of
        EmptyGraph \<Rightarrow> ''graph has no nodes''
      | DuplicateNodeId i \<Rightarrow> ''duplicate node ID: '' @ i
      | InvalidEdge f t r \<Rightarrow> ''invalid edge from '' @ [CHR 0x27] @ f @ [CHR 0x27] @ '' to '' @ [CHR 0x27] @ t @ [CHR 0x27] @ '': '' @ r
      | NodeNotFound i \<Rightarrow> ''node not found: '' @ i
      | MaxIterationsReached m n \<Rightarrow> ''max iterations ('' @ show_nat (unat m) @ '') reached at node '' @ [CHR 0x27] @ n @ [CHR 0x27]
      | NodeExecutionFailed n r \<Rightarrow> ''node '' @ [CHR 0x27] @ n @ [CHR 0x27] @ '' execution failed: '' @ r)"

definition action_error_text :: "action_error \<Rightarrow> string" where
  "action_error_text e =
     (case e of ExecutionFailed m \<Rightarrow> ''action execution failed: '' @ m | InvalidParams m \<Rightarrow> ''invalid action params: '' @ m)"

section \<open>Building\<close>

fun first_duplicate :: "string list \<Rightarrow> string list \<Rightarrow> string option" where
  "first_duplicate seen [] = None"
| "first_duplicate seen (i # is) = (if i \<in> set seen then Some i else first_duplicate (i # seen) is)"

definition missing_node :: "string \<Rightarrow> string \<Rightarrow> string" where
  "missing_node which i = which @ '' node '' @ [CHR 0x27] @ i @ [CHR 0x27] @ '' not found''"

fun check_edges :: "string list \<Rightarrow> graph_edge_config list \<Rightarrow> graph_workflow_error option" where
  "check_edges ids [] = None"
| "check_edges ids (e # es) =
     (if ge_from e \<notin> set ids then Some (InvalidEdge (ge_from e) (ge_to e) (missing_node ''source'' (ge_from e)))
      else if ge_to e \<notin> set ids then Some (InvalidEdge (ge_from e) (ge_to e) (missing_node ''target'' (ge_to e)))
      else check_edges ids es)"

definition build :: "graph_workflow_config \<Rightarrow> (graph_workflow_error, graph_workflow) result" where
  "build c =
     (if gwc_nodes c = [] then Err EmptyGraph
      else
        (let node_ids = map gn_id (gwc_nodes c) in
         case first_duplicate [] node_ids of
           Some i \<Rightarrow> Err (DuplicateNodeId i)
         | None \<Rightarrow>
           (case check_edges node_ids (gwc_edges c) of
              Some e \<Rightarrow> Err e
            | None \<Rightarrow> Ok \<lparr>
                wf_nodes = map (\<lambda>n. \<lparr>wn_id = gn_id n, wn_node_type = gn_node_type n, wn_config = gn_config n\<rparr>) (gwc_nodes c),
                wf_edges = map (\<lambda>e. \<lparr>we_from = ge_from e, we_to = ge_to e, we_condition = ge_condition e\<rparr>) (gwc_edges c),
                wf_state_reducers = gwc_state_reducers c,
                wf_checkpoint = gwc_checkpoint c,
                wf_max_iterations = (case gwc_max_iterations c of Some m \<Rightarrow> m | None \<Rightarrow> 100),
                wf_interrupts = gwc_interrupts c\<rparr>)))"

section \<open>Routing and reducers\<close>

definition find_node :: "graph_workflow \<Rightarrow> string \<Rightarrow> workflow_node option" where
  "find_node g i = find (\<lambda>n. wn_id n = i) (wf_nodes g)"

definition outgoing_edges :: "graph_workflow \<Rightarrow> string \<Rightarrow> workflow_edge list" where
  "outgoing_edges g i = filter (\<lambda>e. we_from e = i) (wf_edges g)"

definition resolve_next_node :: "(64 word \<Rightarrow> string) \<Rightarrow> graph_workflow \<Rightarrow> string \<Rightarrow> workflow_state \<Rightarrow> string option" where
  "resolve_next_node ftoa g current st =
     (let edges = outgoing_edges g current in
      case find (\<lambda>e. case we_condition e of Some c \<Rightarrow> evaluate_condition ftoa c st | None \<Rightarrow> False) edges of
        Some e \<Rightarrow> Some (we_to e)
      | None \<Rightarrow> map_option we_to (find (\<lambda>e. we_condition e = None) edges))"

definition apply_reducer :: "graph_workflow \<Rightarrow> string \<Rightarrow> json \<Rightarrow> workflow_state \<Rightarrow> workflow_state" where
  "apply_reducer g key v st =
     (case (case dict_get (wf_state_reducers g) key of Some r \<Rightarrow> r | None \<Rightarrow> Overwrite) of
        Overwrite \<Rightarrow> dict_put key v st
      | Append \<Rightarrow>
          (case (case dict_get st key of Some old \<Rightarrow> old | None \<Rightarrow> JArr []) of
             JArr xs \<Rightarrow> dict_put key (JArr (xs @ (case v of JArr ys \<Rightarrow> ys | _ \<Rightarrow> [v]))) st
           | old \<Rightarrow> dict_put key (JArr [old, v]) st)
      | Sum \<Rightarrow>
          (let current = (case dict_get st key of Some old \<Rightarrow> old | None \<Rightarrow> JInt 0);
               current_num = (case as_f64 current of Some f \<Rightarrow> f | None \<Rightarrow> 0);
               add_num = (case as_f64 v of Some f \<Rightarrow> f | None \<Rightarrow> 0)
           in dict_put key (json_f64 (f64_add current_num add_num)) st)
      | Custom _ \<Rightarrow> dict_put key v st)"

section \<open>Nodes\<close>

text \<open>
  What the runner gives for an agent node: it cannot be set up, the run fails or times out, or a
  stream of events whose contents carry text parts.
\<close>

datatype stream_item = StreamError | StreamEvent "string option list option"

datatype agent_outcome = RunnerFailed string | BadSessionId string | BadUserId string | RunFailed string
  | Streamed "stream_item list" | Elapsed

record 'w workflow_env = "'w action_env" +
  we_has_agent :: "string \<Rightarrow> 'w \<Rightarrow> bool"
  we_run_agent :: "string \<Rightarrow> string \<Rightarrow> int \<Rightarrow> 'w \<Rightarrow> 'w \<times> agent_outcome"
  we_config_error :: "json \<Rightarrow> string"

definition response_text :: "stream_item list \<Rightarrow> string" where
  "response_text evs = concat (map (\<lambda>ev. case ev of StreamEvent (Some parts) \<Rightarrow>
     concat (List.map_filter id parts) | _ \<Rightarrow> []) evs)"

definition agent_prompt :: "'w workflow_env \<Rightarrow> workflow_state \<Rightarrow> string" where
  "agent_prompt env st =
     (let user_message = (case Option.bind (dict_get st ''user_message'') as_str of Some s \<Rightarrow> s | None \<Rightarrow> []);
          state_context = ae_json_text env (JObj st)
      in if length state_context > 2
         then user_message @ [CHR 0x0A, CHR 0x0A] @ ''[Workflow State: '' @ state_context @ '']'' else user_message)"

definition execute_agent_node ::
  "'w workflow_env \<Rightarrow> workflow_node \<Rightarrow> workflow_state \<Rightarrow> 'w \<Rightarrow> 'w \<times> (graph_workflow_error, node_result) result" where
  "execute_agent_node env n st w =
     (let agent_id = str_param (wn_config n) ''agent_id'' ''unknown'';
          timeout_secs = u64_param (wn_config n) ''timeout_secs'' 60;
          failed = (\<lambda>reason. Err (NodeExecutionFailed (wn_id n) reason))
      in if \<not> we_has_agent env agent_id w then (w, failed (''agent not found: '' @ agent_id))
         else case we_run_agent env agent_id (agent_prompt env st) timeout_secs w of
           (w', RunnerFailed e) \<Rightarrow> (w', failed (''failed to create runner: '' @ e))
         | (w', BadSessionId e) \<Rightarrow> (w', failed (''invalid session id: '' @ e))
         | (w', BadUserId e) \<Rightarrow> (w', failed (''invalid user id: '' @ e))
         | (w', RunFailed e) \<Rightarrow> (w', failed (''agent run failed: '' @ e))
         | (w', Elapsed) \<Rightarrow> (w', failed (''agent execution timed out after '' @ show_int timeout_secs @ ''s''))
         | (w', Streamed evs) \<Rightarrow>
             (w', Ok \<lparr>nr_node_id = wn_id n,
                nr_output = JObj [(''agent_id'', JStr agent_id), (''response'', JStr (response_text evs))],
                nr_error = None\<rparr>))"

definition execute_node ::
  "'w workflow_env \<Rightarrow> workflow_node \<Rightarrow> workflow_state \<Rightarrow> 'w \<Rightarrow> 'w \<times> (graph_workflow_error, node_result) result" where
  "execute_node env n st w =
     (case wn_node_type n of
        ActionNode \<Rightarrow>
          (case action_config_of (wn_config n) of
             None \<Rightarrow> (w, Err (NodeExecutionFailed (wn_id n) (''invalid action config: '' @ we_config_error env (wn_config n))))
           | Some c \<Rightarrow>
               (case execute_action (action_env.truncate env) c w of
                  (w', Err e) \<Rightarrow> (w', Err (NodeExecutionFailed (wn_id n) (action_error_text e)))
                | (w', Ok out) \<Rightarrow> (w', Ok \<lparr>nr_node_id = wn_id n, nr_output = out, nr_error = None\<rparr>)))
      | AgentNode \<Rightarrow> execute_agent_node env n st w
      | ToolNode \<Rightarrow>
          (let tool = str_param (wn_config n) ''tool'' ''unknown'' in
           (w, Ok \<lparr>nr_node_id = wn_id n,
              nr_output = JObj [(''tool'', JStr tool), (''result'', JStr (''Tool '' @ tool @ '' executed''))],
              nr_error = None\<rparr>)))"

section \<open>Execution\<close>

record workflow_execution_result =
  wr_state :: workflow_state
  wr_executed_nodes :: "node_result list"
  wr_checkpoint_store :: "checkpoint_snapshot list"
  wr_iterations :: "32 word"

definition mark_interrupt :: "string list option \<Rightarrow> string \<Rightarrow> string \<Rightarrow> workflow_state \<Rightarrow> workflow_state" where
  "mark_interrupt at key i st =
     (case at of None \<Rightarrow> st | Some is \<Rightarrow> if i \<in> set is then dict_put key (JStr i) st else st)"

text \<open>The body of the loop for the node that was found.\<close>

definition visit_node ::
  "'w workflow_env \<Rightarrow> graph_workflow \<Rightarrow> workflow_node \<Rightarrow> workflow_execution_result \<Rightarrow> 'w
     \<Rightarrow> 'w \<times> workflow_execution_result" where
  "visit_node env g n r w =
     (let i = wn_id n;
          st1 = mark_interrupt (map_option ic_before (wf_interrupts g)) ''__interrupt_before'' i (wr_state r)
      in case execute_node env n st1 w of (w', outcome) \<Rightarrow>
        (let st2 = (case outcome of
               Ok nr \<Rightarrow> (case nr_output nr of JObj m \<Rightarrow> fold (\<lambda>(k, v). apply_reducer g k v) m st1 | _ \<Rightarrow> st1)
             | Err _ \<Rightarrow> st1);
             nr = (case outcome of Ok nr \<Rightarrow> nr
               | Err e \<Rightarrow> \<lparr>nr_node_id = i, nr_output = JObj [(''error'', JStr (error_text e))], nr_error = Some (error_text e)\<rparr>);
             store = (if wf_checkpoint g \<noteq> None
               then wr_checkpoint_store r @ [\<lparr>cs_node_id = i, cs_state = st2, cs_iteration = wr_iterations r\<rparr>]
               else wr_checkpoint_store r);
             st3 = mark_interrupt (map_option ic_after (wf_interrupts g)) ''__interrupt_after'' i st2
         in (w', \<lparr>wr_state = st3, wr_executed_nodes = wr_executed_nodes r @ [nr], wr_checkpoint_store = store,
               wr_iterations = wr_iterations r + 1\<rparr>)))"

lemma visit_iterations [simp]: "wr_iterations (snd (visit_node env g n r w)) = wr_iterations r + 1"
  by (simp add: visit_node_def Let_def split: prod.splits)

lemma iteration_progress:
  assumes "(a :: 32 word) < m"
  shows "unat (a + 1) = unat a + 1 \<and> unat a < unat m"
proof -
  have "unat a < unat m" using assms by (simp add: word_less_nat_alt)
  moreover have "unat m < 2 ^ 32" using unsigned_less [of m] by simp
  ultimately show ?thesis by (simp add: unat_word_ariths)
qed

function execute_from ::
  "'w workflow_env \<Rightarrow> graph_workflow \<Rightarrow> string option \<Rightarrow> workflow_execution_result \<Rightarrow> 'w
     \<Rightarrow> 'w \<times> (graph_workflow_error, workflow_execution_result) result" where
  "execute_from env g current r w =
     (case current of
        None \<Rightarrow> (w, Ok r)
      | Some i \<Rightarrow>
          if wr_iterations r \<ge> wf_max_iterations g then (w, Err (MaxIterationsReached (wf_max_iterations g) i))
          else case find_node g i of
            None \<Rightarrow> (w, Err (NodeNotFound i))
          | Some n \<Rightarrow>
              (let r' = snd (visit_node env g n r w)
               in execute_from env g (resolve_next_node (ae_ftoa env) g i (wr_state r')) r' (fst (visit_node env g n r w))))"
  by pat_completeness auto

termination
  by (relation "measure (\<lambda>(env, g, c, r, w). unat (wf_max_iterations g) - unat (wr_iterations r))")
    (auto simp: not_le dest: iteration_progress)

declare execute_from.simps [simp del]

definition execute ::
  "'w workflow_env \<Rightarrow> graph_workflow \<Rightarrow> workflow_state \<Rightarrow> 'w
     \<Rightarrow> 'w \<times> (graph_workflow_error, workflow_execution_result) result" where
  "execute env g initial w =
     execute_from env g (case wf_nodes g of [] \<Rightarrow> None | n # _ \<Rightarrow> Some (wn_id n))
       \<lparr>wr_state = initial, wr_executed_nodes = [], wr_checkpoint_store = [], wr_iterations = 0\<rparr> w"

text \<open>The snapshot that \<open>CheckpointStore::restore\<close> gives.\<close>

definition restore :: "checkpoint_snapshot list \<Rightarrow> checkpoint_snapshot option" where
  "restore store = (if store = [] then None else Some (last store))"


section \<open>Built workflows\<close>

definition node_ids :: "graph_workflow \<Rightarrow> string list" where
  "node_ids g = map wn_id (wf_nodes g)"

definition edge_rel :: "graph_workflow \<Rightarrow> (string \<times> string) set" where
  "edge_rel g = (\<lambda>e. (we_from e, we_to e)) ` set (wf_edges g)"

definition workflow_ok :: "graph_workflow \<Rightarrow> bool" where
  "workflow_ok g \<longleftrightarrow> wf_nodes g \<noteq> [] \<and> distinct (node_ids g) \<and> edge_rel g \<subseteq> set (node_ids g) \<times> set (node_ids g)"

definition executed_ids :: "workflow_execution_result \<Rightarrow> string list" where
  "executed_ids r = map nr_node_id (wr_executed_nodes r)"

lemma first_duplicate_None: "first_duplicate seen vs = None \<longleftrightarrow> distinct vs \<and> set vs \<inter> set seen = {}"
  by (induction seen vs rule: first_duplicate.induct) auto

lemma check_edges_None:
  "check_edges ids es = None \<longleftrightarrow> (\<lambda>e. (ge_from e, ge_to e)) ` set es \<subseteq> set ids \<times> set ids"
  by (induction ids es rule: check_edges.induct) auto

lemma build_fields:
  assumes "build c = Ok g"
  shows "workflow_ok g" "node_ids g = map gn_id (gwc_nodes c)"
    "edge_rel g = (\<lambda>e. (ge_from e, ge_to e)) ` set (gwc_edges c)"
    "wf_max_iterations g = (case gwc_max_iterations c of Some m \<Rightarrow> m | None \<Rightarrow> 100)"
    "wf_checkpoint g = gwc_checkpoint c"
proof -
  have d: "gwc_nodes c \<noteq> []" "distinct (map gn_id (gwc_nodes c))"
    and ce: "check_edges (map gn_id (gwc_nodes c)) (gwc_edges c) = None"
    using assms by (simp_all add: build_def Let_def first_duplicate_None split: if_splits option.splits)
  note e = ce [unfolded check_edges_None]
  have n: "node_ids g = map gn_id (gwc_nodes c)" and r: "edge_rel g = (\<lambda>e. (ge_from e, ge_to e)) ` set (gwc_edges c)"
    and ne: "wf_nodes g \<noteq> []"
    using assms by (auto simp: build_def Let_def node_ids_def edge_rel_def image_image comp_def split: if_splits option.splits)
  show "node_ids g = map gn_id (gwc_nodes c)" "edge_rel g = (\<lambda>e. (ge_from e, ge_to e)) ` set (gwc_edges c)"
    by (rule n, rule r)
  show "workflow_ok g" unfolding workflow_ok_def n r using d e ne by blast
  show "wf_max_iterations g = (case gwc_max_iterations c of Some m \<Rightarrow> m | None \<Rightarrow> 100)" "wf_checkpoint g = gwc_checkpoint c"
    using assms by (auto simp: build_def Let_def split: if_splits option.splits)
qed

lemma find_node_Some: "find_node g i = Some n \<Longrightarrow> wn_id n = i"
  by (auto simp: find_node_def find_Some_iff)

lemma find_node_mem: "i \<in> set (node_ids g) \<Longrightarrow> \<exists>n. find_node g i = Some n"
  by (cases "find_node g i") (auto simp: find_node_def find_None_iff node_ids_def)

lemma next_node_edge: "resolve_next_node ftoa g i st = Some j \<Longrightarrow> (i, j) \<in> edge_rel g"
  by (auto simp: resolve_next_node_def Let_def outgoing_edges_def edge_rel_def find_Some_iff image_iff
      split: option.splits dest!: nth_mem) (metis+)?

text \<open>What every outcome of a node names.\<close>

lemma execute_node_id: "execute_node env n st w = (w', Ok nr) \<Longrightarrow> nr_node_id nr = wn_id n"
  by (auto simp: execute_node_def execute_agent_node_def Let_def
      split: graph_node_type.splits option.splits prod.splits sum.splits if_splits agent_outcome.splits)

lemma visit_executed: "executed_ids (snd (visit_node env g n r w)) = executed_ids r @ [wn_id n]"
  by (auto simp: visit_node_def executed_ids_def Let_def dest: execute_node_id split: prod.split sum.split)

lemma visit_store:
  "map cs_node_id (wr_checkpoint_store (snd (visit_node env g n r w))) =
     map cs_node_id (wr_checkpoint_store r) @ (if wf_checkpoint g = None then [] else [wn_id n])"
  "map cs_iteration (wr_checkpoint_store (snd (visit_node env g n r w))) =
     map cs_iteration (wr_checkpoint_store r) @ (if wf_checkpoint g = None then [] else [wr_iterations r])"
  by (simp_all add: visit_node_def Let_def split: prod.split)

section \<open>Execution follows the graph\<close>

abbreviation path :: "(string \<times> string) set \<Rightarrow> string list \<Rightarrow> bool" where
  "path E vs \<equiv> successively (\<lambda>a b. (a, b) \<in> E) vs"

text \<open>
  From a node, the loop visits the nodes of a path that starts there; it ends where no edge leads on,
  or at the node it would have visited next when the iterations are used up.
\<close>

lemma execute_from_trace:
  assumes "workflow_ok g" "current = Some i" "i \<in> set (node_ids g)"
  shows "\<exists>vs. path (edge_rel g) vs \<and> set vs \<subseteq> set (node_ids g) \<and>
    (case snd (execute_from env g current r w) of
       Ok r' \<Rightarrow> vs \<noteq> [] \<and> hd vs = i \<and> executed_ids r' = executed_ids r @ vs \<and>
         unat (wr_iterations r') = unat (wr_iterations r) + length vs \<and> wr_iterations r' \<le> wf_max_iterations g \<and>
         map cs_node_id (wr_checkpoint_store r') =
           map cs_node_id (wr_checkpoint_store r) @ (if wf_checkpoint g = None then [] else vs)
     | Err e \<Rightarrow> vs \<noteq> [] \<and> hd vs = i \<and> e = MaxIterationsReached (wf_max_iterations g) (last vs) \<and>
         unat (wf_max_iterations g) < unat (wr_iterations r) + length vs)"
  using assms
proof (induction env g current r w arbitrary: i rule: execute_from.induct)
  case (1 env g current r w)
  note ok = 1(2) and cur = 1(3) and mem = 1(4)
  show ?case
  proof (cases "wr_iterations r \<ge> wf_max_iterations g")
    case True
    then have "execute_from env g current r w = (w, Err (MaxIterationsReached (wf_max_iterations g) i))"
      by (simp add: execute_from.simps cur)
    moreover have "unat (wf_max_iterations g) < unat (wr_iterations r) + length [i]"
      using True by (simp add: word_le_nat_alt)
    ultimately show ?thesis using mem by (intro exI [of _ "[i]"]) simp
  next
    case False
    obtain n where n: "find_node g i = Some n" using find_node_mem [OF mem] by blast
    let ?r = "snd (visit_node env g n r w)" and ?w = "fst (visit_node env g n r w)"
    let ?next = "resolve_next_node (ae_ftoa env) g i (wr_state ?r)"
    have e: "execute_from env g current r w = execute_from env g ?next ?r ?w"
      using False n by (subst execute_from.simps) (simp add: cur Let_def)
    have it: "unat (wr_iterations ?r) = unat (wr_iterations r) + 1" "wr_iterations ?r \<le> wf_max_iterations g"
      using iteration_progress [of "wr_iterations r" "wf_max_iterations g"] False
      by (auto simp: word_le_nat_alt word_less_nat_alt not_le)
    have id: "wn_id n = i" by (rule find_node_Some [OF n])
    have fields: "executed_ids ?r = executed_ids r @ [i]"
      "map cs_node_id (wr_checkpoint_store ?r) =
         map cs_node_id (wr_checkpoint_store r) @ (if wf_checkpoint g = None then [] else [i])"
      by (simp_all add: visit_executed visit_store id)
    show ?thesis
    proof (cases ?next)
      case None
      then have "execute_from env g current r w = (?w, Ok ?r)" unfolding e None by (subst execute_from.simps) simp
      then show ?thesis using it fields mem by (intro exI [of _ "[i]"]) simp
    next
      case (Some j)
      have ij: "(i, j) \<in> edge_rel g" by (rule next_node_edge [OF Some])
      then have j: "j \<in> set (node_ids g)" using ok unfolding workflow_ok_def by blast
      obtain vs where p: "path (edge_rel g) vs" "set vs \<subseteq> set (node_ids g)"
        and res: "case snd (execute_from env g ?next ?r ?w) of
           Ok r' \<Rightarrow> vs \<noteq> [] \<and> hd vs = j \<and> executed_ids r' = executed_ids ?r @ vs \<and>
             unat (wr_iterations r') = unat (wr_iterations ?r) + length vs \<and> wr_iterations r' \<le> wf_max_iterations g \<and>
             map cs_node_id (wr_checkpoint_store r') =
               map cs_node_id (wr_checkpoint_store ?r) @ (if wf_checkpoint g = None then [] else vs)
         | Err e \<Rightarrow> vs \<noteq> [] \<and> hd vs = j \<and> e = MaxIterationsReached (wf_max_iterations g) (last vs) \<and>
             unat (wf_max_iterations g) < unat (wr_iterations ?r) + length vs"
        using "1.IH" [OF cur False n refl ok Some j] by (elim exE conjE) (rule that)
      have ne: "vs \<noteq> []" "hd vs = j" using res by (simp_all split: sum.splits)
      have "path (edge_rel g) (i # vs)" using p(1) ij ne by (cases vs) auto
      moreover have "set (i # vs) \<subseteq> set (node_ids g)" using p(2) mem by simp
      ultimately show ?thesis
        using res ne it(1) unfolding e fields by (intro exI [of _ "i # vs"]) (auto split: sum.splits)
    qed
  qed
qed

lemma execute_trace:
  assumes "build c = Ok g" "execute env g st w = (w', res)"
  obtains vs where "path (edge_rel g) vs" "set vs \<subseteq> set (node_ids g)" "vs \<noteq> []" "hd vs = gn_id (hd (gwc_nodes c))"
    "\<forall>e. res = Err e \<longrightarrow> e = MaxIterationsReached (wf_max_iterations g) (last vs) \<and> unat (wf_max_iterations g) < length vs"
    "\<forall>r. res = Ok r \<longrightarrow> executed_ids r = vs \<and> unat (wr_iterations r) = length vs \<and>
       wr_iterations r \<le> wf_max_iterations g \<and>
       map cs_node_id (wr_checkpoint_store r) = (if wf_checkpoint g = None then [] else vs)"
proof -
  note ok = build_fields [OF assms(1)]
  obtain n ns where n: "wf_nodes g = n # ns" using ok(1) by (cases "wf_nodes g") (auto simp: workflow_ok_def)
  have mem: "wn_id n \<in> set (node_ids g)" by (simp add: node_ids_def n)
  have hd: "wn_id n = gn_id (hd (gwc_nodes c))"
    using ok(2) by (cases "gwc_nodes c") (simp_all add: node_ids_def n)
  let ?r = "\<lparr>wr_state = st, wr_executed_nodes = [], wr_checkpoint_store = [], wr_iterations = 0\<rparr>"
  have ex: "snd (execute_from env g (Some (wn_id n)) ?r w) = res" using assms(2) by (simp add: execute_def n)
  have r0: "executed_ids ?r = []" by (simp add: executed_ids_def)
  show ?thesis
    using execute_from_trace [OF ok(1) refl mem, where env = env and r = ?r and w = w] unfolding ex r0
    by (elim exE conjE) (rule that, auto simp: hd split: sum.splits)
qed

section \<open>Properties\<close>

text \<open>
  C35. Building makes every later failure impossible but one: a workflow that build accepts has distinct
  nodes and edges between them, and executing it never fails to find a node; the only error is that
  the iterations are used up, at a node of the workflow, whatever its nodes return.
\<close>

theorem built_workflow_errors:
  assumes "build c = Ok g" "execute env g st w = (w', Err e)"
  shows "e \<in> MaxIterationsReached (case gwc_max_iterations c of Some m \<Rightarrow> m | None \<Rightarrow> 100) ` set (map gn_id (gwc_nodes c))"
proof -
  note ok = build_fields [OF assms(1)]
  obtain vs where p: "path (edge_rel g) vs" "set vs \<subseteq> set (node_ids g)" "vs \<noteq> []" "hd vs = gn_id (hd (gwc_nodes c))"
    and e: "\<forall>e'. (Err e :: (_, workflow_execution_result) result) = Err e' \<longrightarrow> e' = MaxIterationsReached (wf_max_iterations g) (last vs) \<and> unat (wf_max_iterations g) < length vs"
    and r: "\<forall>r. (Err e :: (_, workflow_execution_result) result) = Ok r \<longrightarrow> executed_ids r = vs \<and> unat (wr_iterations r) = length vs \<and>
       wr_iterations r \<le> wf_max_iterations g \<and>
       map cs_node_id (wr_checkpoint_store r) = (if wf_checkpoint g = None then [] else vs)"
    by (rule execute_trace [OF assms])
  have "last vs \<in> set (node_ids g)" using p(2,3) by auto
  then show ?thesis using e by (simp add: ok)
qed

text \<open>
  C36. A successful execution follows the graph: the executed nodes form a path along the edges that
  starts at the first node, there are as many as iterations and no more than the maximum, and with a
  checkpoint configured exactly one snapshot per executed node is kept, in order.
\<close>

theorem execution_follows_graph:
  assumes "build c = Ok g" "execute env g st w = (w', Ok r)"
  shows "path ((\<lambda>e. (ge_from e, ge_to e)) ` set (gwc_edges c)) (executed_ids r) \<and>
    executed_ids r \<noteq> [] \<and> hd (executed_ids r) = gn_id (hd (gwc_nodes c)) \<and>
    length (executed_ids r) = unat (wr_iterations r) \<and> wr_iterations r \<le> wf_max_iterations g \<and>
    map cs_node_id (wr_checkpoint_store r) = (if gwc_checkpoint c = None then [] else executed_ids r)"
proof -
  note ok = build_fields [OF assms(1)]
  obtain vs where p: "path (edge_rel g) vs" "set vs \<subseteq> set (node_ids g)" "vs \<noteq> []" "hd vs = gn_id (hd (gwc_nodes c))"
    and e: "\<forall>e. (Ok r :: (graph_workflow_error, _) result) = Err e \<longrightarrow> e = MaxIterationsReached (wf_max_iterations g) (last vs) \<and> unat (wf_max_iterations g) < length vs"
    and r: "\<forall>r'. (Ok r :: (graph_workflow_error, _) result) = Ok r' \<longrightarrow> executed_ids r' = vs \<and> unat (wr_iterations r') = length vs \<and>
       wr_iterations r' \<le> wf_max_iterations g \<and>
       map cs_node_id (wr_checkpoint_store r') = (if wf_checkpoint g = None then [] else vs)"
    by (rule execute_trace [OF assms])
  show ?thesis using p(1,3,4) r ok(5) by (simp flip: ok(3))
qed

lemma acyclic_path_distinct: "\<lbrakk>path E vs; acyclic E\<rbrakk> \<Longrightarrow> distinct vs"
proof (induction vs)
  case (Cons i vs)
  have "path E vs" using Cons.prems(1) by (cases vs) auto
  moreover have "i \<notin> set vs"
  proof
    assume "i \<in> set vs"
    have reach: "\<lbrakk>path E (a # bs); b \<in> set bs\<rbrakk> \<Longrightarrow> (a, b) \<in> E\<^sup>+" for a b bs
      by (induction bs arbitrary: a) (auto intro: trancl_into_trancl2)
    have "(i, i) \<in> E\<^sup>+" by (rule reach [OF Cons.prems(1) \<open>i \<in> set vs\<close>])
    then show False using Cons.prems(2) by (simp add: acyclic_def)
  qed
  ultimately show ?case using Cons.IH Cons.prems(2) by simp
qed simp

text \<open>
  C37. A workflow whose edges have no cycle always completes when the maximum of iterations is at least
  the number of its nodes, and executes no node twice, whatever conditions hold and whichever nodes
  fail.
\<close>

theorem acyclic_workflow_completes:
  assumes "build c = Ok g" "acyclic ((\<lambda>e. (ge_from e, ge_to e)) ` set (gwc_edges c))"
    "length (gwc_nodes c) \<le> unat (wf_max_iterations g)"
  shows "\<exists>w' r. execute env g st w = (w', Ok r) \<and> distinct (executed_ids r)"
proof -
  note ok = build_fields [OF assms(1)]
  have acyc: "acyclic (edge_rel g)" using assms(2) by (simp add: ok)
  obtain w' res where o: "execute env g st w = (w', res)" by (cases "execute env g st w")
  obtain vs where p: "path (edge_rel g) vs" "set vs \<subseteq> set (node_ids g)" "vs \<noteq> []" "hd vs = gn_id (hd (gwc_nodes c))"
    and e: "\<forall>e. res = Err e \<longrightarrow> e = MaxIterationsReached (wf_max_iterations g) (last vs) \<and> unat (wf_max_iterations g) < length vs"
    and r: "\<forall>r. res = Ok r \<longrightarrow> executed_ids r = vs \<and> unat (wr_iterations r) = length vs \<and>
       wr_iterations r \<le> wf_max_iterations g \<and>
       map cs_node_id (wr_checkpoint_store r) = (if wf_checkpoint g = None then [] else vs)"
    by (rule execute_trace [OF assms(1) o])
  have d: "distinct vs" by (rule acyclic_path_distinct [OF p(1) acyc])
  have "length vs = card (set vs)" using d by (simp add: distinct_card)
  also have "\<dots> \<le> card (set (node_ids g))" using p(2) by (simp add: card_mono)
  also have "\<dots> \<le> length (gwc_nodes c)" using ok(2) by (metis card_length length_map)
  finally have len: "length vs \<le> unat (wf_max_iterations g)" using assms(3) by simp
  obtain r0 where r0: "res = Ok r0" using e len by (cases res) auto
  then show ?thesis using o r d r0 by auto
qed

text \<open>
  A summed key holds the exact sum of its integers, but as a floating-point number: adding an
  integer output to an integer count gives the float of their sum, and, since that prints with a
  decimal point, no equality condition on the key with an integer literal ever holds.
\<close>

theorem summed_counter_never_equals:
  assumes "dict_get (wf_state_reducers g) key = Some Sum" "dict_get st key = Some (JInt a)"
    "\<bar>a\<bar> < 2 ^ 53" "\<bar>b\<bar> < 2 ^ 53" "\<bar>a + b\<bar> < 2 ^ 53"
    "split_once_str ''=='' (trim cond) = Some (k, lit)" "trim k = key" "trim_matches (CHR 0x22) (trim lit) = show_int n"
    "CHR ''.'' \<in> set (ftoa (f64_of_int (a + b)))"
  shows "dict_get (apply_reducer g key (JInt b) st) key = Some (JFloat (f64_of_int (a + b))) \<and>
    \<not> evaluate_condition ftoa cond (apply_reducer g key (JInt b) st)"
proof -
  have fin: "f64_is_finite (f64_of_int (a + b))" using of_int_units [OF assms(5)] by simp
  have get: "dict_get (apply_reducer g key (JInt b) st) key = Some (JFloat (f64_of_int (a + b)))"
    by (simp add: apply_reducer_def assms(1,2) add_int_exact [OF assms(3,4)] json_f64_def fin)
  have "CHR ''.'' \<notin> set (show_int n)"
    using show_nat_digits [of "nat n"] show_nat_digits [of "nat (- n)"]
    by (auto simp: show_int_def list_all_iff is_digit_def)
  then have "ftoa (f64_of_int (a + b)) \<noteq> show_int n" using assms(9) by metis
  then have "\<not> evaluate_condition ftoa cond (apply_reducer g key (JInt b) st)"
    by (simp add: evaluate_condition_def Let_def assms(6,7,8) get value_text_def)
  then show ?thesis using get by simp
qed

section \<open>Witnesses\<close>

definition demo_env :: "unit workflow_env" where
  "demo_env = \<lparr>ae_upper = id, ae_ftoa = (\<lambda>w. ''3.0''), ae_json_text = (\<lambda>j. []), ae_parse_json = (\<lambda>s. None),
     ae_http = (\<lambda>r w. (w, SendFailed [])), ae_read = (\<lambda>p w. (w, Err [])), ae_write = (\<lambda>p c w. (w, Err [])),
     ae_list = (\<lambda>p w. (w, Err [])), ae_exists = (\<lambda>p w. (w, False)), ae_sleep = (\<lambda>n w. w),
     we_has_agent = (\<lambda>a w. False), we_run_agent = (\<lambda>a t n w. (w, Elapsed)), we_config_error = (\<lambda>j. [])\<rparr>"

definition demo_config :: "graph_edge_config list \<Rightarrow> 32 word option \<Rightarrow> graph_workflow_config" where
  "demo_config es m = \<lparr>gwc_nodes = [\<lparr>gn_id = ''a'', gn_node_type = AgentNode, gn_config = JNull\<rparr>,
       \<lparr>gn_id = ''b'', gn_node_type = ToolNode, gn_config = JNull\<rparr>],
     gwc_edges = es, gwc_state_reducers = [(''n'', Sum)], gwc_checkpoint = Some \<lparr>cc_backend = ''memory'', cc_path = None\<rparr>,
     gwc_max_iterations = m, gwc_interrupts = None\<rparr>"

definition edge :: "string \<Rightarrow> string \<Rightarrow> graph_edge_config" where
  "edge a b = \<lparr>ge_from = a, ge_to = b, ge_condition = None\<rparr>"

lemmas demo_eval = demo_config_def edge_def build_def missing_node_def

lemma demo_chain: "is_ok (build (demo_config [edge ''a'' ''b''] None))"
  by (simp add: demo_eval is_ok_def)

lemma demo_cycle: "is_ok (build (demo_config [edge ''a'' ''b'', edge ''b'' ''a''] (Some 1)))"
  by (simp add: demo_eval is_ok_def)

lemma ok_projr: "is_ok r \<Longrightarrow> r = Ok (projr r)"
  by (cases r) (simp_all add: is_ok_def)

theorem built_workflow_errors_witness:
  "\<exists>w' e. execute demo_env (projr (build (demo_config [edge ''a'' ''b'', edge ''b'' ''a''] (Some 1)))) [] () = (w', Err e) \<and>
     e \<in> MaxIterationsReached 1 ` {''a'', ''b''}"
proof -
  let ?c = "demo_config [edge ''a'' ''b'', edge ''b'' ''a''] (Some 1)"
  have "\<exists>e. execute demo_env (projr (build ?c)) [] () = ((), Err e)"
    by (simp add: execute_def execute_from.simps demo_eval find_node_def resolve_next_node_def outgoing_edges_def Let_def)
  then obtain e where e: "execute demo_env (projr (build ?c)) [] () = ((), Err e)" by blast
  have "e \<in> MaxIterationsReached 1 ` {''a'', ''b''}"
    using built_workflow_errors [OF ok_projr [OF demo_cycle] e] by (simp add: demo_config_def)
  then show ?thesis using e by blast
qed

theorem acyclic_workflow_completes_witness:
  "\<exists>w' r. execute demo_env (projr (build (demo_config [edge ''a'' ''b''] None))) [] () = (w', Ok r) \<and> distinct (executed_ids r)"
proof (rule acyclic_workflow_completes [OF ok_projr [OF demo_chain]])
  show "acyclic ((\<lambda>e. (ge_from e, ge_to e)) ` set (gwc_edges (demo_config [edge ''a'' ''b''] None)))"
    by (simp add: demo_config_def edge_def) (simp add: acyclic_def)
  show "length (gwc_nodes (demo_config [edge ''a'' ''b''] None))
      \<le> unat (wf_max_iterations (projr (build (demo_config [edge ''a'' ''b''] None))))"
    by (simp add: demo_eval)
qed

theorem execution_follows_graph_witness:
  "\<exists>w' r. execute demo_env (projr (build (demo_config [edge ''a'' ''b''] None))) [] () = (w', Ok r) \<and>
     path {(''a'', ''b'')} (executed_ids r) \<and> map cs_node_id (wr_checkpoint_store r) = executed_ids r"
proof -
  let ?c = "demo_config [edge ''a'' ''b''] None"
  have "\<exists>r. execute demo_env (projr (build ?c)) [] () = ((), Ok r)"
    by (simp add: execute_def execute_from.simps demo_eval find_node_def resolve_next_node_def outgoing_edges_def Let_def
        word_le_nat_alt)
  then obtain r where r: "execute demo_env (projr (build ?c)) [] () = ((), Ok r)" by blast
  show ?thesis
    using execution_follows_graph [OF ok_projr [OF demo_chain] r] r by (simp add: demo_config_def edge_def)
qed

theorem summed_counter_never_equals_witness:
  "\<not> evaluate_condition (\<lambda>w. ''3.0'') ''n==3'' (apply_reducer (projr (build (demo_config [] None))) ''n'' (JInt 1) [(''n'', JInt 2)])"
proof -
  have "dict_get (apply_reducer (projr (build (demo_config [] None))) ''n'' (JInt 1) [(''n'', JInt 2)]) ''n''
        = Some (JFloat (f64_of_int (2 + 1))) \<and>
    \<not> evaluate_condition (\<lambda>w. ''3.0'') ''n==3'' (apply_reducer (projr (build (demo_config [] None))) ''n'' (JInt 1) [(''n'', JInt 2)])"
    by (rule summed_counter_never_equals [where k = "''n''" and lit = "''3''" and n = 3])
      (simp_all add: demo_eval trim_eval trim_matches_def show_int_def show_nat.simps bit_Suc_0_iff)
  then show ?thesis by simp
qed

end
