(* ===== verification/KnowledgeGraph.thy ===== *)
theory KnowledgeGraph
  imports Prelude "HOL-Library.List_Lexorder" "HOL-Library.Char_ord"
begin

text \<open>
  \<open>src/knowledge_graph.rs\<close>: the per-user graph of entities, observations and relations in memory,
  and the SQLite tables behind it. A table is the list of its rows under their primary keys and each
  SQL statement of the source is one definition; a call runs without interruption. Identifiers come
  from one counter; it is a natural number here, as 64 bits of it are not used up.
\<close>

section \<open>State\<close>

record observation =
  ob_id :: nat
  ob_content :: string

record entity =
  en_name :: string
  en_entity_type :: string
  en_observations :: "observation list"

record relation =
  re_id :: nat
  re_source :: string
  re_relation_type :: string
  re_target :: string

record create_entity_input =
  ce_name :: string
  ce_entity_type :: string
  ce_observations :: "string list"

record create_relation_input =
  cr_source :: string
  cr_relation_type :: string
  cr_target :: string

record search_result =
  sr_entity :: entity
  sr_relations :: "relation list"
  sr_score :: nat

record user_graph =
  ug_entities :: "entity dict"
  ug_relations :: "(nat \<times> relation) list"

definition empty_graph :: user_graph where
  "empty_graph = \<lparr>ug_entities = [], ug_relations = []\<rparr>"

text \<open>The tables \<open>entities\<close>, \<open>observations\<close> and \<open>relations\<close>, rows under their primary keys.\<close>

record database =
  db_entities :: "((string \<times> string) \<times> string) list"
  db_observations :: "(nat \<times> (string \<times> string \<times> string)) list"
  db_relations :: "(nat \<times> (string \<times> string \<times> string \<times> string)) list"

record knowledge_graph =
  kg_graphs :: "user_graph dict"
  kg_next_id :: nat
  kg_db :: "database option"

definition kg_new :: knowledge_graph where
  "kg_new = \<lparr>kg_graphs = [], kg_next_id = 1, kg_db = None\<rparr>"

definition empty_database :: database where
  "empty_database = \<lparr>db_entities = [], db_observations = [], db_relations = []\<rparr>"

section \<open>Loading\<close>

definition load_entity :: "(string \<times> string) \<times> string \<Rightarrow> user_graph dict \<Rightarrow> user_graph dict" where
  "load_entity row gs =
     (case row of ((u, n), t) \<Rightarrow>
        let g = (case dict_get gs u of Some g \<Rightarrow> g | None \<Rightarrow> empty_graph)
        in dict_put u (if dict_has (ug_entities g) n then g
             else g\<lparr>ug_entities := dict_put n \<lparr>en_name = n, en_entity_type = t, en_observations = []\<rparr> (ug_entities g)\<rparr>) gs)"

definition load_observation :: "nat \<times> (string \<times> string \<times> string) \<Rightarrow> user_graph dict \<Rightarrow> user_graph dict" where
  "load_observation row gs =
     (case row of (i, (u, n, c)) \<Rightarrow>
        (case dict_get gs u of
           None \<Rightarrow> gs
         | Some g \<Rightarrow>
             (case dict_get (ug_entities g) n of
                None \<Rightarrow> gs
              | Some e \<Rightarrow> dict_put u (g\<lparr>ug_entities := dict_put n
                  (e\<lparr>en_observations := en_observations e @ [\<lparr>ob_id = i, ob_content = c\<rparr>]\<rparr>) (ug_entities g)\<rparr>) gs)))"

definition load_relation :: "nat \<times> (string \<times> string \<times> string \<times> string) \<Rightarrow> user_graph dict \<Rightarrow> user_graph dict" where
  "load_relation row gs =
     (case row of (i, (u, s, t, x)) \<Rightarrow>
        (case dict_get gs u of
           None \<Rightarrow> gs
         | Some g \<Rightarrow> dict_put u (g\<lparr>ug_relations := dict_put i
             \<lparr>re_id = i, re_source = s, re_relation_type = t, re_target = x\<rparr> (ug_relations g)\<rparr>) gs))"

definition load_from_db :: "database \<Rightarrow> knowledge_graph" where
  "load_from_db db =
     (let gs1 = fold load_entity (db_entities db) [];
          gs2 = fold load_observation (sort_key fst (db_observations db)) gs1;
          gs3 = fold load_relation (db_relations db) gs2;
          max_id = fold (\<lambda>row. max (fst row)) (db_relations db) (fold (\<lambda>row. max (fst row)) (db_observations db) 0)
      in \<lparr>kg_graphs = gs3, kg_next_id = max_id + 1, kg_db = Some db\<rparr>)"

section \<open>Statements\<close>

definition db_upsert_entity :: "string \<Rightarrow> string \<Rightarrow> string \<Rightarrow> database \<Rightarrow> database" where
  "db_upsert_entity u n t db = db\<lparr>db_entities := dict_put (u, n) t (db_entities db)\<rparr>"

definition db_insert_observation :: "nat \<Rightarrow> string \<Rightarrow> string \<Rightarrow> string \<Rightarrow> database \<Rightarrow> database" where
  "db_insert_observation i u n c db = db\<lparr>db_observations := dict_put i (u, n, c) (db_observations db)\<rparr>"

definition db_insert_relation :: "nat \<Rightarrow> string \<Rightarrow> string \<Rightarrow> string \<Rightarrow> string \<Rightarrow> database \<Rightarrow> database" where
  "db_insert_relation i u s t x db = db\<lparr>db_relations := dict_put i (u, s, t, x) (db_relations db)\<rparr>"

definition db_delete_entity :: "string \<Rightarrow> string \<Rightarrow> database \<Rightarrow> database" where
  "db_delete_entity u n db = db
     \<lparr>db_entities := filter (\<lambda>((u', n'), t). \<not> (u' = u \<and> n' = n)) (db_entities db),
      db_observations := filter (\<lambda>(i, (u', n', c)). \<not> (u' = u \<and> n' = n)) (db_observations db),
      db_relations := filter (\<lambda>(i, (u', s, t, x)). \<not> (u' = u \<and> (s = n \<or> x = n))) (db_relations db)\<rparr>"

definition db_delete_observations :: "nat list \<Rightarrow> database \<Rightarrow> database" where
  "db_delete_observations is db = db\<lparr>db_observations := fold dict_del is (db_observations db)\<rparr>"

definition db_delete_relations :: "nat list \<Rightarrow> database \<Rightarrow> database" where
  "db_delete_relations is db = db\<lparr>db_relations := fold dict_del is (db_relations db)\<rparr>"

definition db_delete_user :: "string \<Rightarrow> database \<Rightarrow> database" where
  "db_delete_user u db = db
     \<lparr>db_entities := filter (\<lambda>((u', n), t). u' \<noteq> u) (db_entities db),
      db_observations := filter (\<lambda>(i, (u', n, c)). u' \<noteq> u) (db_observations db),
      db_relations := filter (\<lambda>(i, (u', s, t, x)). u' \<noteq> u) (db_relations db)\<rparr>"

text \<open>A statement runs when there is a connection.\<close>

definition on_db :: "(database \<Rightarrow> database) \<Rightarrow> knowledge_graph \<Rightarrow> knowledge_graph" where
  "on_db f kg = kg\<lparr>kg_db := map_option f (kg_db kg)\<rparr>"

section \<open>Operations\<close>

definition graph_of :: "knowledge_graph \<Rightarrow> string \<Rightarrow> user_graph" where
  "graph_of kg u = (case dict_get (kg_graphs kg) u of Some g \<Rightarrow> g | None \<Rightarrow> empty_graph)"

text \<open>\<open>user_graph\<close> creates the graph of a user on first use, whatever the operation.\<close>

definition on_graph :: "string \<Rightarrow> (user_graph \<Rightarrow> user_graph) \<Rightarrow> knowledge_graph \<Rightarrow> knowledge_graph" where
  "on_graph u f kg = kg\<lparr>kg_graphs := dict_put u (f (graph_of kg u)) (kg_graphs kg)\<rparr>"

definition touch :: "string \<Rightarrow> knowledge_graph \<Rightarrow> knowledge_graph" where
  "touch u = on_graph u id"

definition number_from :: "nat \<Rightarrow> string list \<Rightarrow> observation list" where
  "number_from i cs = map (\<lambda>(j, c). \<lparr>ob_id = j, ob_content = c\<rparr>) (zip [i..<i + length cs] cs)"

definition upsert_entity :: "string \<Rightarrow> string \<Rightarrow> observation list \<Rightarrow> user_graph \<Rightarrow> user_graph" where
  "upsert_entity n t obs g = g\<lparr>ug_entities := dict_put n
     (case dict_get (ug_entities g) n of
        Some e \<Rightarrow> e\<lparr>en_observations := en_observations e @ obs\<rparr>
      | None \<Rightarrow> \<lparr>en_name = n, en_entity_type = t, en_observations = obs\<rparr>) (ug_entities g)\<rparr>"

definition insert_observations :: "string \<Rightarrow> string \<Rightarrow> observation list \<Rightarrow> database \<Rightarrow> database" where
  "insert_observations u n obs = fold (\<lambda>ob. db_insert_observation (ob_id ob) u n (ob_content ob)) obs"

definition create_entity :: "string \<Rightarrow> create_entity_input \<Rightarrow> knowledge_graph \<Rightarrow> knowledge_graph" where
  "create_entity u i kg =
     (let obs = number_from (kg_next_id kg) (ce_observations i);
          kg1 = kg\<lparr>kg_next_id := kg_next_id kg + length obs\<rparr>;
          kg2 = on_db (insert_observations u (ce_name i) obs \<circ> db_upsert_entity u (ce_name i) (ce_entity_type i)) kg1
      in on_graph u (upsert_entity (ce_name i) (ce_entity_type i) obs) kg2)"

definition create_entities :: "string \<Rightarrow> create_entity_input list \<Rightarrow> knowledge_graph \<Rightarrow> knowledge_graph \<times> string list" where
  "create_entities u inputs kg = (fold (create_entity u) inputs (touch u kg), map ce_name inputs)"

definition create_relation :: "string \<Rightarrow> create_relation_input \<Rightarrow> knowledge_graph \<Rightarrow> knowledge_graph" where
  "create_relation u r kg =
     (let i = kg_next_id kg;
          kg1 = on_db (db_insert_relation i u (cr_source r) (cr_relation_type r) (cr_target r)) (kg\<lparr>kg_next_id := i + 1\<rparr>)
      in on_graph u (\<lambda>g. g\<lparr>ug_relations := dict_put i \<lparr>re_id = i, re_source = cr_source r,
           re_relation_type = cr_relation_type r, re_target = cr_target r\<rparr> (ug_relations g)\<rparr>) kg1)"

definition create_relations :: "string \<Rightarrow> create_relation_input list \<Rightarrow> knowledge_graph \<Rightarrow> knowledge_graph \<times> nat list" where
  "create_relations u inputs kg =
     (fold (create_relation u) inputs (touch u kg), [kg_next_id kg..<kg_next_id kg + length inputs])"

definition add_observations :: "string \<Rightarrow> string \<Rightarrow> string list \<Rightarrow> knowledge_graph \<Rightarrow> knowledge_graph \<times> nat list option" where
  "add_observations u n contents kg =
     (let kg1 = touch u kg in
      case dict_get (ug_entities (graph_of kg1 u)) n of
        None \<Rightarrow> (kg1, None)
      | Some e \<Rightarrow>
          (let obs = number_from (kg_next_id kg1) contents;
               kg2 = on_db (insert_observations u n obs) (kg1\<lparr>kg_next_id := kg_next_id kg1 + length obs\<rparr>)
           in (on_graph u (\<lambda>g. g\<lparr>ug_entities := dict_put n (e\<lparr>en_observations := en_observations e @ obs\<rparr>) (ug_entities g)\<rparr>) kg2,
               Some (map ob_id obs))))"

definition touches :: "string \<Rightarrow> relation \<Rightarrow> bool" where
  "touches n r \<longleftrightarrow> re_source r = n \<or> re_target r = n"

definition delete_entity :: "string \<Rightarrow> string \<Rightarrow> knowledge_graph \<times> string list \<Rightarrow> knowledge_graph \<times> string list" where
  "delete_entity u n s =
     (case s of (kg, deleted) \<Rightarrow>
        if dict_has (ug_entities (graph_of kg u)) n
        then (on_db (db_delete_entity u n)
               (on_graph u (\<lambda>g. g\<lparr>ug_entities := dict_del n (ug_entities g),
                  ug_relations := fold dict_del (map (re_id \<circ> snd) (filter (touches n \<circ> snd) (ug_relations g))) (ug_relations g)\<rparr>) kg),
              deleted @ [n])
        else s)"

definition delete_entities :: "string \<Rightarrow> string list \<Rightarrow> knowledge_graph \<Rightarrow> knowledge_graph \<times> string list" where
  "delete_entities u names kg = fold (delete_entity u) names (touch u kg, [])"

definition without_observations :: "nat set \<Rightarrow> entity \<Rightarrow> entity" where
  "without_observations ids e = e\<lparr>en_observations := filter (\<lambda>ob. ob_id ob \<notin> ids) (en_observations e)\<rparr>"

text \<open>What the loop of \<open>delete_observations\<close> adds to \<open>deleted\<close> for an entity.\<close>

definition reported_deleted :: "nat list \<Rightarrow> entity \<Rightarrow> nat list" where
  "reported_deleted ids e =
     (let kept = en_observations (without_observations (set ids) e)
      in if length (en_observations e) - length kept > 0
         then filter (\<lambda>i. \<not> list_ex (\<lambda>ob. ob_id ob = i) kept) (remdups ids) else [])"

definition delete_observations :: "string \<Rightarrow> nat list \<Rightarrow> knowledge_graph \<Rightarrow> knowledge_graph \<times> nat list" where
  "delete_observations u ids kg =
     (let es = map snd (ug_entities (graph_of kg u));
          deleted = remdups (sort (concat (map (reported_deleted ids) es)));
          kg1 = on_graph u (\<lambda>g. g\<lparr>ug_entities := map (map_prod id (without_observations (set ids))) (ug_entities g)\<rparr>) kg
      in (on_db (db_delete_observations deleted) kg1, deleted))"

definition delete_relation :: "nat \<Rightarrow> (nat \<times> relation) list \<times> nat list \<Rightarrow> (nat \<times> relation) list \<times> nat list" where
  "delete_relation i s =
     (case s of (rels, deleted) \<Rightarrow> if dict_has rels i then (dict_del i rels, deleted @ [i]) else s)"

definition delete_relations :: "string \<Rightarrow> nat list \<Rightarrow> knowledge_graph \<Rightarrow> knowledge_graph \<times> nat list" where
  "delete_relations u ids kg =
     (case fold delete_relation ids (ug_relations (graph_of kg u), []) of (rels, deleted) \<Rightarrow>
        (on_db (db_delete_relations deleted) (on_graph u (\<lambda>g. g\<lparr>ug_relations := rels\<rparr>) kg), deleted))"

definition delete_user_graph :: "string \<Rightarrow> knowledge_graph \<Rightarrow> knowledge_graph \<times> bool" where
  "delete_user_graph u kg =
     (if dict_has (kg_graphs kg) u
      then (on_db (db_delete_user u) (kg\<lparr>kg_graphs := dict_del u (kg_graphs kg)\<rparr>), True) else (kg, False))"

definition trimmed :: "nat \<Rightarrow> entity \<Rightarrow> entity" where
  "trimmed m e = e\<lparr>en_observations := drop (length (en_observations e) - m) (en_observations e)\<rparr>"

definition trim_observations :: "string \<Rightarrow> nat \<Rightarrow> knowledge_graph \<Rightarrow> knowledge_graph \<times> nat" where
  "trim_observations u m kg =
     (let es = map snd (ug_entities (graph_of kg u));
          removed_ids = concat (map (\<lambda>e. map ob_id (take (length (en_observations e) - m) (en_observations e))) es);
          kg1 = on_graph u (\<lambda>g. g\<lparr>ug_entities := map (map_prod id (trimmed m)) (ug_entities g)\<rparr>) kg
      in (on_db (db_delete_observations removed_ids) kg1, length removed_ids))"

section \<open>Queries\<close>

text \<open>\<open>lower\<close> is the Unicode lower-casing of \<open>str::to_lowercase\<close>; the scores are small integers.\<close>

definition relations_of :: "user_graph \<Rightarrow> string \<Rightarrow> relation list" where
  "relations_of g n = filter (touches n) (map snd (ug_relations g))"

definition match_score :: "(string \<Rightarrow> string) \<Rightarrow> string \<Rightarrow> entity \<Rightarrow> nat" where
  "match_score lower q e =
     (if contains_str (lower (en_name e)) q then 3 else 0) + (if contains_str (lower (en_entity_type e)) q then 2 else 0)
     + count_if (\<lambda>ob. contains_str (lower (ob_content ob)) q) (en_observations e)"

definition search_nodes :: "(string \<Rightarrow> string) \<Rightarrow> string \<Rightarrow> string \<Rightarrow> knowledge_graph \<Rightarrow> knowledge_graph \<times> search_result list" where
  "search_nodes lower u query kg =
     (let g = graph_of kg u; q = lower query;
          results = map (\<lambda>e. \<lparr>sr_entity = e, sr_relations = relations_of g (en_name e), sr_score = match_score lower q e\<rparr>)
            (filter (\<lambda>e. match_score lower q e > 0) (map snd (ug_entities g)))
      in (touch u kg, sort_key (\<lambda>r. - int (sr_score r)) results))"

definition open_nodes :: "string \<Rightarrow> string list \<Rightarrow> knowledge_graph \<Rightarrow> knowledge_graph \<times> search_result list" where
  "open_nodes u names kg =
     (let g = graph_of kg u
      in (touch u kg, List.map_filter (\<lambda>n. map_option (\<lambda>e. \<lparr>sr_entity = e, sr_relations = relations_of g n, sr_score = 1\<rparr>)
            (dict_get (ug_entities g) n)) names))"

definition read_graph :: "string \<Rightarrow> knowledge_graph \<Rightarrow> knowledge_graph \<times> entity list \<times> relation list" where
  "read_graph u kg = (let g = graph_of kg u in (touch u kg, map snd (ug_entities g), map snd (ug_relations g)))"

definition user_ids :: "knowledge_graph \<Rightarrow> string list" where
  "user_ids kg = dict_keys (kg_graphs kg)"

definition entity_line :: "nat \<Rightarrow> entity \<Rightarrow> string" where
  "entity_line m e =
     utf8 [0xE2, 0x80, 0xA2] @ '' '' @ en_name e @ '' ('' @ en_entity_type e @ '')''
     @ (if en_observations e = [] then []
        else '': '' @ join ''; '' (map ob_content (rev (take m (rev (en_observations e))))))
     @ [CHR 0x0A]"

definition relation_line :: "relation \<Rightarrow> string" where
  "relation_line r =
     ''  '' @ re_source r @ '' '' @ utf8 [0xE2, 0x80, 0x94] @ ''['' @ re_relation_type r @ '']''
     @ utf8 [0xE2, 0x86, 0x92] @ '' '' @ re_target r @ [CHR 0x0A]"

definition build_entity_summary :: "string \<Rightarrow> nat \<Rightarrow> knowledge_graph \<Rightarrow> knowledge_graph \<times> string" where
  "build_entity_summary u m kg =
     (let g = graph_of kg u
      in (touch u kg,
          if ug_entities g = [] then []
          else ''[Active memory '' @ utf8 [0xE2, 0x80, 0x94] @ '' known entities and facts]'' @ [CHR 0x0A]
            @ concat (map (entity_line m) (sort_key en_name (map snd (ug_entities g))))
            @ (if ug_relations g = [] then []
               else ''Relationships:'' @ [CHR 0x0A] @ concat (map (relation_line \<circ> snd) (ug_relations g)))))"

section \<open>Runs\<close>

datatype kg_op =
    CreateEntities "create_entity_input list"
  | CreateRelations "create_relation_input list"
  | AddObservations string "string list"
  | DeleteEntities "string list"
  | DeleteObservations "nat list"
  | DeleteRelations "nat list"
  | DeleteUserGraph
  | TrimObservations nat
  | Query

fun apply_op :: "string \<times> kg_op \<Rightarrow> knowledge_graph \<Rightarrow> knowledge_graph" where
  "apply_op (u, CreateEntities is) kg = fst (create_entities u is kg)"
| "apply_op (u, CreateRelations rs) kg = fst (create_relations u rs kg)"
| "apply_op (u, AddObservations n cs) kg = fst (add_observations u n cs kg)"
| "apply_op (u, DeleteEntities ns) kg = fst (delete_entities u ns kg)"
| "apply_op (u, DeleteObservations ids) kg = fst (delete_observations u ids kg)"
| "apply_op (u, DeleteRelations ids) kg = fst (delete_relations u ids kg)"
| "apply_op (u, DeleteUserGraph) kg = fst (delete_user_graph u kg)"
| "apply_op (u, TrimObservations m) kg = fst (trim_observations u m kg)"
| "apply_op (u, Query) kg = touch u kg"

section \<open>What each operation reads and writes\<close>

lemma graph_of_on_graph [simp]: "graph_of (on_graph u f kg) v = (if v = u then f (graph_of kg u) else graph_of kg v)"
  by (simp add: on_graph_def graph_of_def)

lemma on_db_simps [simp]:
  "graph_of (on_db f kg) v = graph_of kg v" "kg_db (on_db f kg) = map_option f (kg_db kg)"
  "kg_next_id (on_db f kg) = kg_next_id kg" "kg_graphs (on_db f kg) = kg_graphs kg"
  by (simp_all add: on_db_def graph_of_def)

lemma on_graph_simps [simp]:
  "kg_db (on_graph u f kg) = kg_db kg" "kg_next_id (on_graph u f kg) = kg_next_id kg"
  by (simp_all add: on_graph_def)

lemma touch_simps [simp]:
  "graph_of (touch u kg) v = graph_of kg v" "kg_db (touch u kg) = kg_db kg" "kg_next_id (touch u kg) = kg_next_id kg"
  by (simp_all add: touch_def)

lemma next_id_simps [simp]:
  "graph_of (kg\<lparr>kg_next_id := i\<rparr>) v = graph_of kg v"
  "graph_of (kg\<lparr>kg_graphs := dict_del u (kg_graphs kg)\<rparr>) v = (if v = u then empty_graph else graph_of kg v)"
  by (simp_all add: graph_of_def)

lemma graphs_on_graph: "v \<noteq> u \<Longrightarrow> dict_get (kg_graphs (on_graph u f kg)) v = dict_get (kg_graphs kg) v"
  by (simp add: on_graph_def)

lemma fold_keeps: "(\<And>x s. x \<in> set xs \<Longrightarrow> Q (f x s) = Q s) \<Longrightarrow> Q (fold f xs s) = Q s"
  by (induction xs arbitrary: s) simp_all

lemma apply_op_other:
  assumes "v \<noteq> u"
  shows "dict_get (kg_graphs (apply_op (u, op) kg)) v = dict_get (kg_graphs kg) v"
proof (cases op)
  case (CreateEntities "is")
  have "dict_get (kg_graphs (create_entity u i s)) v = dict_get (kg_graphs s) v" for i s
    using assms by (simp add: create_entity_def Let_def graphs_on_graph)
  then show ?thesis
    using assms fold_keeps [of "is" "\<lambda>s. dict_get (kg_graphs s) v" "create_entity u"]
    by (simp add: CreateEntities create_entities_def touch_def graphs_on_graph)
next
  case (CreateRelations rs)
  have "dict_get (kg_graphs (create_relation u r s)) v = dict_get (kg_graphs s) v" for r s
    using assms by (simp add: create_relation_def Let_def graphs_on_graph)
  then show ?thesis
    using assms fold_keeps [of rs "\<lambda>s. dict_get (kg_graphs s) v" "create_relation u"]
    by (simp add: CreateRelations create_relations_def touch_def graphs_on_graph)
next
  case (DeleteEntities ns)
  have "dict_get (kg_graphs (fst (delete_entity u n s))) v = dict_get (kg_graphs (fst s)) v" for n s
    using assms by (simp add: delete_entity_def graphs_on_graph split: prod.split)
  then show ?thesis
    using assms fold_keeps [of ns "\<lambda>s. dict_get (kg_graphs (fst s)) v" "delete_entity u"]
    by (simp add: DeleteEntities delete_entities_def touch_def graphs_on_graph)
qed (use assms in \<open>auto simp: add_observations_def delete_observations_def delete_relations_def delete_user_graph_def
      trim_observations_def Let_def touch_def graphs_on_graph split: option.split prod.split\<close>)

section \<open>Containers\<close>

lemma dict_get_fold_del: "dict_get (fold dict_del ks d) k = (if k \<in> set ks then None else dict_get d k)"
  by (induction ks arbitrary: d) auto

lemma dict_ok_fold_del: "dict_ok d \<Longrightarrow> dict_ok (fold dict_del ks d)"
  by (induction ks arbitrary: d) auto

lemma dict_get_map: "dict_get (map (map_prod id f) d) k = map_option f (dict_get d k)"
  by (induction d) (auto simp: dict_get_def)

lemma dict_ok_map: "dict_ok (map (map_prod id f) d) = dict_ok d"
  by (simp add: dict_ok_def comp_def)

lemma dict_put_same: "dict_get d k = Some v \<Longrightarrow> dict_put k v d = d"
  by (induction d) (auto split: if_splits)

lemma fold_delete_relation:
  "fold delete_relation ids (rels, del) =
     (fold dict_del ids rels, snd (fold delete_relation ids (rels, del))) \<and>
   set (snd (fold delete_relation ids (rels, del))) = set del \<union> {i \<in> set ids. dict_has rels i}"
proof (induction ids arbitrary: rels del)
  case (Cons i ids)
  show ?case
  proof (cases "dict_has rels i")
    case True
    then show ?thesis using Cons.IH [of "dict_del i rels" "del @ [i]"]
      by (auto simp: delete_relation_def dict_has_def)
  next
    case False
    then have "dict_del i rels = rels"
      by (induction rels) (auto simp: dict_has_def split: if_splits)
    then show ?thesis using False Cons.IH [of rels del] by (auto simp: delete_relation_def)
  qed
qed simp

section \<open>Memory and tables agree\<close>

definition ent :: "knowledge_graph \<Rightarrow> string \<Rightarrow> string \<Rightarrow> entity option" where
  "ent kg u n = dict_get (ug_entities (graph_of kg u)) n"

definition rel :: "knowledge_graph \<Rightarrow> string \<Rightarrow> nat \<Rightarrow> relation option" where
  "rel kg u i = dict_get (ug_relations (graph_of kg u)) i"

text \<open>The observations of a user.\<close>

definition observed :: "knowledge_graph \<Rightarrow> string \<Rightarrow> string \<Rightarrow> observation set" where
  "observed kg u n = (case ent kg u n of Some e \<Rightarrow> set (en_observations e) | None \<Rightarrow> {})"

definition tables_ok :: "database \<Rightarrow> bool" where
  "tables_ok db \<longleftrightarrow> dict_ok (db_entities db) \<and> dict_ok (db_observations db) \<and> dict_ok (db_relations db)"

definition entity_ok :: "string \<Rightarrow> string \<Rightarrow> entity \<Rightarrow> bool" where
  "entity_ok t n e \<longleftrightarrow> en_name e = n \<and> en_entity_type e = t \<and> sorted_wrt (<) (map ob_id (en_observations e))"

definition agree :: "(string \<Rightarrow> string \<Rightarrow> string) \<Rightarrow> knowledge_graph \<Rightarrow> database \<Rightarrow> bool" where
  "agree ty kg db \<longleftrightarrow>
     (\<forall>u n. dict_get (db_entities db) (u, n) = map_option (\<lambda>_. ty u n) (ent kg u n)) \<and>
     (\<forall>u n e. ent kg u n = Some e \<longrightarrow> entity_ok (ty u n) n e) \<and>
     (\<forall>i u n c. dict_get (db_observations db) i = Some (u, n, c) \<longleftrightarrow> \<lparr>ob_id = i, ob_content = c\<rparr> \<in> observed kg u n) \<and>
     (\<forall>i u s t x. dict_get (db_relations db) i = Some (u, s, t, x) \<longleftrightarrow>
        rel kg u i = Some \<lparr>re_id = i, re_source = s, re_relation_type = t, re_target = x\<rparr>)"

definition kg_ok :: "knowledge_graph \<Rightarrow> bool" where
  "kg_ok kg \<longleftrightarrow>
     (\<forall>u. dict_ok (ug_entities (graph_of kg u)) \<and> dict_ok (ug_relations (graph_of kg u))) \<and>
     (\<forall>u i r. rel kg u i = Some r \<longrightarrow> re_id r = i \<and> i < kg_next_id kg) \<and>
     (\<forall>u n ob. ob \<in> observed kg u n \<longrightarrow> ob_id ob < kg_next_id kg)"

definition kg_inv :: "(string \<Rightarrow> string \<Rightarrow> string) \<Rightarrow> knowledge_graph \<Rightarrow> bool" where
  "kg_inv ty kg \<longleftrightarrow> kg_ok kg \<and> (\<exists>db. kg_db kg = Some db \<and> tables_ok db \<and> agree ty kg db)"

text \<open>What an operation must respect: types depend on the name, observations are deleted by their owner.\<close>

definition own_ids :: "knowledge_graph \<Rightarrow> string \<Rightarrow> nat list" where
  "own_ids kg u = concat (map (\<lambda>e. map ob_id (en_observations (snd e))) (ug_entities (graph_of kg u)))"

fun op_ok :: "(string \<Rightarrow> string \<Rightarrow> string) \<Rightarrow> string \<times> kg_op \<Rightarrow> knowledge_graph \<Rightarrow> bool" where
  "op_ok ty (u, CreateEntities is) kg = list_all (\<lambda>i. ce_entity_type i = ty u (ce_name i)) is"
| "op_ok ty (u, DeleteObservations ids) kg = list_all (\<lambda>i. i \<in> set (own_ids kg u)) ids"
| "op_ok ty (u, op) kg = True"

fun clean_run :: "(string \<Rightarrow> string \<Rightarrow> string) \<Rightarrow> (string \<times> kg_op) list \<Rightarrow> knowledge_graph \<Rightarrow> bool" where
  "clean_run ty [] kg = True"
| "clean_run ty (op # ops) kg = (op_ok ty op kg \<and> clean_run ty ops (apply_op op kg))"

lemma ent_simps [simp]:
  "ent (on_db f kg) u n = ent kg u n" "rel (on_db f kg) u i = rel kg u i" "observed (on_db f kg) u n = observed kg u n"
  "ent (touch v kg) u n = ent kg u n" "rel (touch v kg) u i = rel kg u i" "observed (touch v kg) u n = observed kg u n"
  "ent (kg\<lparr>kg_next_id := k\<rparr>) u n = ent kg u n" "rel (kg\<lparr>kg_next_id := k\<rparr>) u i = rel kg u i"
  "observed (kg\<lparr>kg_next_id := k\<rparr>) u n = observed kg u n"
  by (simp_all add: ent_def rel_def observed_def)

lemma kg_inv_touch: "kg_inv ty kg \<Longrightarrow> kg_inv ty (touch u kg)"
  by (simp add: kg_inv_def kg_ok_def agree_def)

text \<open>Appending numbered observations to an entity, in memory and in the tables.\<close>

lemma number_from_fields:
  "map ob_id (number_from k cs) = [k..<k + length cs]" "length (number_from k cs) = length cs"
  by (simp_all add: number_from_def comp_def split_def)

lemma get_insert_observations:
  assumes "distinct (map ob_id obs)"
  shows "dict_get (db_observations (insert_observations u n obs db)) i = Some (u', n', c) \<longleftrightarrow>
    (if i \<in> ob_id ` set obs then u' = u \<and> n' = n \<and> \<lparr>ob_id = i, ob_content = c\<rparr> \<in> set obs
     else dict_get (db_observations db) i = Some (u', n', c))"
  using assms
proof (induction obs arbitrary: db)
  case (Cons ob obs)
  have "insert_observations u n (ob # obs) db = insert_observations u n obs (db_insert_observation (ob_id ob) u n (ob_content ob) db)"
    by (simp add: insert_observations_def)
  moreover have "\<lparr>ob_id = i, ob_content = c\<rparr> = ob \<longleftrightarrow> i = ob_id ob \<and> c = ob_content ob" by (cases ob) auto
  ultimately show ?case
    using Cons by (auto simp: db_insert_observation_def image_iff)
qed (simp add: insert_observations_def)

lemma insert_observations_fields:
  "db_entities (insert_observations u n obs db) = db_entities db"
  "db_relations (insert_observations u n obs db) = db_relations db"
  "dict_ok (db_observations db) \<Longrightarrow> dict_ok (db_observations (insert_observations u n obs db))"
  by (induction obs arbitrary: db) (simp_all add: insert_observations_def db_insert_observation_def)

lemma kg_inv_create_entity:
  assumes "kg_inv ty kg" "ce_entity_type i = ty u (ce_name i)"
  shows "kg_inv ty (create_entity u i kg)"
proof -
  define n where "n = ce_name i"
  define k where "k = kg_next_id kg"
  define obs where "obs = number_from k (ce_observations i)"
  obtain db where ok: "kg_ok kg" and db: "kg_db kg = Some db" "tables_ok db" "agree ty kg db"
    using assms(1) by (auto simp: kg_inv_def)
  define kg' where "kg' = create_entity u i kg"
  define db' where "db' = insert_observations u n obs (db_upsert_entity u n (ty u n) db)"
  have ids: "map ob_id obs = [k..<k + length obs]" by (simp add: obs_def number_from_fields)
  then have set_ids: "ob_id ` set obs = {k..<k + length obs}" by (metis image_set set_upt)
  have fields: "kg_db kg' = Some db'" "kg_next_id kg' = k + length obs"
    "graph_of kg' v = (if v = u then upsert_entity n (ty u n) obs (graph_of kg u) else graph_of kg v)" for v
    by (simp_all add: kg'_def create_entity_def Let_def db db'_def obs_def k_def n_def assms(2))
  define e' where "e' = (case ent kg u n of Some e \<Rightarrow> e\<lparr>en_observations := en_observations e @ obs\<rparr>
      | None \<Rightarrow> \<lparr>en_name = n, en_entity_type = ty u n, en_observations = obs\<rparr>)"
  have ent': "ent kg' v m = (if v = u \<and> m = n then Some e' else ent kg v m)" for v m
    by (simp add: ent_def fields(3) upsert_entity_def e'_def)
  have rel': "rel kg' v j = rel kg v j" for v j by (simp add: rel_def fields(3) upsert_entity_def)
  have obs': "observed kg' v m = (if v = u \<and> m = n then observed kg u n \<union> set obs else observed kg v m)" for v m
    by (auto simp: observed_def ent' e'_def split: option.split)
  have old: "ob_id ob < k" if "ob \<in> observed kg v m" for ob v m
    using ok that unfolding kg_ok_def k_def by blast
  have "entity_ok (ty u n) n e'"
  proof (cases "ent kg u n")
    case (Some e)
    then have "entity_ok (ty u n) n e" using db(3) by (simp add: agree_def)
    moreover have "\<forall>ob\<in>set (en_observations e). ob_id ob < k" using old [of _ u n] Some by (simp add: observed_def)
    ultimately show ?thesis using set_ids by (auto simp: entity_ok_def e'_def Some sorted_wrt_append ids)
  qed (simp add: entity_ok_def e'_def ids)
  moreover have "dict_get (db_observations db') j = Some (v, m, c) \<longleftrightarrow> \<lparr>ob_id = j, ob_content = c\<rparr> \<in> observed kg' v m" for j v m c
  proof -
    have "distinct (map ob_id obs)" by (simp add: ids)
    note g = get_insert_observations [OF this]
    have o: "dict_get (db_observations db) j = Some (v, m, c) \<longleftrightarrow> \<lparr>ob_id = j, ob_content = c\<rparr> \<in> observed kg v m"
      using db(3) by (simp add: agree_def)
    show ?thesis
    proof (cases "j \<in> ob_id ` set obs")
      case True
      then have "\<lparr>ob_id = j, ob_content = c\<rparr> \<notin> observed kg v m"
        using old [of "\<lparr>ob_id = j, ob_content = c\<rparr>" v m] unfolding set_ids by auto
      then show ?thesis using True by (auto simp: db'_def g obs')
    next
      case False
      then have "\<lparr>ob_id = j, ob_content = c\<rparr> \<notin> set obs" by force
      then show ?thesis using False o by (auto simp: db'_def g obs' db_upsert_entity_def)
    qed
  qed
  moreover have "dict_get (db_entities db') (v, m) = map_option (\<lambda>_. ty v m) (ent kg' v m)" for v m
    using db(3) by (auto simp: db'_def insert_observations_fields db_upsert_entity_def ent' agree_def)
  ultimately have "agree ty kg' db'"
    using db(3) unfolding agree_def rel' by (auto simp: ent' db'_def insert_observations_fields db_upsert_entity_def)
  moreover have "tables_ok db'"
    using db(2) by (simp add: tables_ok_def db'_def insert_observations_fields db_upsert_entity_def)
  moreover have "kg_ok kg'"
  proof -
    have "dict_ok (ug_entities (graph_of kg' v)) \<and> dict_ok (ug_relations (graph_of kg' v))" for v
      using ok by (simp add: kg_ok_def fields(3) upsert_entity_def)
    moreover have "ob_id ob < kg_next_id kg'" if "ob \<in> observed kg' v m" for ob v m
      using that old [of ob] set_ids unfolding fields(2) obs' by (fastforce split: if_splits)
    moreover have "re_id r = j \<and> j < kg_next_id kg'" if "rel kg' v j = Some r" for v j r
      using that ok unfolding rel' fields(2) kg_ok_def k_def by fastforce
    ultimately show ?thesis unfolding kg_ok_def by blast
  qed
  ultimately show ?thesis unfolding kg_inv_def using fields(1) kg'_def by blast
qed

lemma kg_inv_create_relation:
  assumes "kg_inv ty kg"
  shows "kg_inv ty (create_relation u r kg)"
proof -
  define k where "k = kg_next_id kg"
  obtain db where ok: "kg_ok kg" and db: "kg_db kg = Some db" "tables_ok db" "agree ty kg db"
    using assms(1) by (auto simp: kg_inv_def)
  define kg' where "kg' = create_relation u r kg"
  define new where "new = \<lparr>re_id = k, re_source = cr_source r, re_relation_type = cr_relation_type r, re_target = cr_target r\<rparr>"
  define db' where "db' = db_insert_relation k u (cr_source r) (cr_relation_type r) (cr_target r) db"
  have fields: "kg_db kg' = Some db'" "kg_next_id kg' = k + 1"
    "graph_of kg' v = (if v = u then (graph_of kg u)\<lparr>ug_relations := dict_put k new (ug_relations (graph_of kg u))\<rparr> else graph_of kg v)" for v
    by (simp_all add: kg'_def create_relation_def Let_def db db'_def k_def new_def)
  have ent': "ent kg' v m = ent kg v m" "observed kg' v m = observed kg v m" for v m
    by (simp_all add: ent_def fields(3) observed_def)
  have rel': "rel kg' v j = (if v = u \<and> j = k then Some new else rel kg v j)" for v j
    by (simp add: rel_def fields(3))
  have fresh: "rel kg v k = None" for v
    using ok unfolding kg_ok_def k_def by (metis less_irrefl not_None_eq)
  have old: "dict_get (db_relations db) j = Some (v, s, t, x) \<longleftrightarrow>
      rel kg v j = Some \<lparr>re_id = j, re_source = s, re_relation_type = t, re_target = x\<rparr>" for j v s t x
    using db(3) by (simp add: agree_def)
  have "dict_get (db_relations db') j = Some (v, s, t, x) \<longleftrightarrow>
      rel kg' v j = Some \<lparr>re_id = j, re_source = s, re_relation_type = t, re_target = x\<rparr>" for j v s t x
    using fresh [of v] by (auto simp: db'_def db_insert_relation_def rel' old new_def)
  then have "agree ty kg' db'"
    using db(3) unfolding agree_def ent' by (simp add: db'_def db_insert_relation_def)
  moreover have "tables_ok db'" using db(2) by (simp add: tables_ok_def db'_def db_insert_relation_def)
  moreover have "kg_ok kg'"
  proof -
    have "dict_ok (ug_entities (graph_of kg' v)) \<and> dict_ok (ug_relations (graph_of kg' v))" for v
      using ok by (simp add: kg_ok_def fields(3))
    moreover have "ob_id ob < kg_next_id kg'" if "ob \<in> observed kg' v m" for ob v m
      using that ok unfolding ent' fields(2) kg_ok_def k_def by (metis less_add_one less_trans)
    moreover have "re_id q = j \<and> j < kg_next_id kg'" if "rel kg' v j = Some q" for v j q
      using that ok unfolding rel' fields(2) kg_ok_def k_def by (fastforce simp: new_def k_def split: if_splits)
    ultimately show ?thesis unfolding kg_ok_def by blast
  qed
  ultimately show ?thesis unfolding kg_inv_def using fields(1) kg'_def by blast
qed

text \<open>Operations that only remove: what they keep stays within the old bounds.\<close>

lemma kg_ok_shrink:
  assumes "kg_ok kg" "kg_next_id kg' = kg_next_id kg"
    "\<And>v. dict_ok (ug_entities (graph_of kg' v)) \<and> dict_ok (ug_relations (graph_of kg' v))"
    "\<And>v m. observed kg' v m \<subseteq> observed kg v m"
    "\<And>v j r. rel kg' v j = Some r \<Longrightarrow> rel kg v j = Some r"
  shows "kg_ok kg'"
  using assms(1) assms(3-5) unfolding kg_ok_def assms(2) by (metis subsetD)

lemma kg_inv_delete_entity:
  assumes "kg_inv ty kg"
  shows "kg_inv ty (fst (delete_entity u n (kg, del)))"
proof (cases "dict_has (ug_entities (graph_of kg u)) n")
  case True
  obtain db where ok: "kg_ok kg" and db: "kg_db kg = Some db" "tables_ok db" "agree ty kg db"
    using assms(1) by (auto simp: kg_inv_def)
  define kg' where "kg' = fst (delete_entity u n (kg, del))"
  define gone where "gone = map (re_id \<circ> snd) (filter (touches n \<circ> snd) (ug_relations (graph_of kg u)))"
  define db' where "db' = db_delete_entity u n db"
  have fields: "kg_db kg' = Some db'" "kg_next_id kg' = kg_next_id kg"
    "graph_of kg' v = (if v = u then (graph_of kg u)\<lparr>ug_entities := dict_del n (ug_entities (graph_of kg u)),
       ug_relations := fold dict_del gone (ug_relations (graph_of kg u))\<rparr> else graph_of kg v)" for v
    using True by (simp_all add: kg'_def delete_entity_def db db'_def gone_def)
  have ent': "ent kg' v m = (if v = u \<and> m = n then None else ent kg v m)" for v m
    by (simp add: ent_def fields(3))
  have obs': "observed kg' v m = (if v = u \<and> m = n then {} else observed kg v m)" for v m
    by (simp add: observed_def ent')
  have rels_ok: "dict_ok (ug_relations (graph_of kg u))" and rel_id: "rel kg v i = Some r \<Longrightarrow> re_id r = i" for v i r
    using ok by (simp_all add: kg_ok_def)
  have "i \<in> set gone \<longleftrightarrow> (\<exists>r. rel kg u i = Some r \<and> touches n r)" for i
  proof -
    have "i \<in> set gone \<longleftrightarrow> (\<exists>j r. (j, r) \<in> set (ug_relations (graph_of kg u)) \<and> touches n r \<and> re_id r = i)"
      by (force simp: gone_def)
    also have "\<dots> \<longleftrightarrow> (\<exists>j r. rel kg u j = Some r \<and> touches n r \<and> re_id r = i)"
      by (simp add: dict_mem_get [OF rels_ok] rel_def)
    finally show ?thesis using rel_id by blast
  qed
  then have rel': "rel kg' v i = (case rel kg v i of Some r \<Rightarrow> if v = u \<and> touches n r then None else Some r | None \<Rightarrow> None)" for v i
    by (auto simp: rel_def fields(3) dict_get_fold_del split: option.split)
  note t = db(2) [unfolded tables_ok_def, THEN conjunct1] db(2) [unfolded tables_ok_def, THEN conjunct2, THEN conjunct1]
    db(2) [unfolded tables_ok_def, THEN conjunct2, THEN conjunct2]
  have d: "dict_get (db_entities db') (v, m) = (if v = u \<and> m = n then None else dict_get (db_entities db) (v, m))"
    "dict_get (db_observations db') j = (case dict_get (db_observations db) j of
       Some (v, m, c) \<Rightarrow> if v = u \<and> m = n then None else Some (v, m, c) | None \<Rightarrow> None)"
    "dict_get (db_relations db') j = (case dict_get (db_relations db) j of
       Some (v, s, t, x) \<Rightarrow> if v = u \<and> (s = n \<or> x = n) then None else Some (v, s, t, x) | None \<Rightarrow> None)" for v m j
    by (auto simp: db'_def db_delete_entity_def dict_get_filter [OF t(1)] dict_get_filter [OF t(2)] dict_get_filter [OF t(3)]
        split: option.split)
  have "dict_get (db_relations db') j = Some (v, s, t, x) \<longleftrightarrow>
      rel kg' v j = Some \<lparr>re_id = j, re_source = s, re_relation_type = t, re_target = x\<rparr>" for j v s t x
  proof -
    have "rel kg' v j = Some \<lparr>re_id = j, re_source = s, re_relation_type = t, re_target = x\<rparr> \<longleftrightarrow>
      rel kg v j = Some \<lparr>re_id = j, re_source = s, re_relation_type = t, re_target = x\<rparr> \<and> \<not> (v = u \<and> (s = n \<or> x = n))"
      by (auto simp: rel' touches_def split: option.splits if_splits)
    moreover have "dict_get (db_relations db') j = Some (v, s, t, x) \<longleftrightarrow>
      dict_get (db_relations db) j = Some (v, s, t, x) \<and> \<not> (v = u \<and> (s = n \<or> x = n))"
      by (auto simp: d(3) split: option.splits if_splits)
    ultimately show ?thesis using db(3) by (simp add: agree_def)
  qed
  moreover have "dict_get (db_observations db') j = Some (v, m, c) \<longleftrightarrow> \<lparr>ob_id = j, ob_content = c\<rparr> \<in> observed kg' v m" for j v m c
  proof -
    have "dict_get (db_observations db') j = Some (v, m, c) \<longleftrightarrow>
      dict_get (db_observations db) j = Some (v, m, c) \<and> \<not> (v = u \<and> m = n)"
      by (auto simp: d(2) split: option.splits if_splits)
    then show ?thesis using db(3) by (simp add: agree_def obs')
  qed
  ultimately have "agree ty kg' db'" using db(3) unfolding agree_def ent' d(1) by simp
  moreover have "tables_ok db'" using t by (simp add: tables_ok_def db'_def db_delete_entity_def dict_ok_filter)
  moreover have "kg_ok kg'"
    by (rule kg_ok_shrink [OF ok fields(2)])
      (use ok in \<open>auto simp: kg_ok_def fields(3) dict_ok_fold_del obs' rel' split: option.splits if_splits\<close>)
  ultimately show ?thesis unfolding kg_inv_def using fields(1) kg'_def by blast
qed (use assms in \<open>simp add: delete_entity_def\<close>)

lemma kg_inv_delete_relations:
  assumes "kg_inv ty kg"
  shows "kg_inv ty (fst (delete_relations u ids kg))"
proof -
  obtain db where ok: "kg_ok kg" and db: "kg_db kg = Some db" "tables_ok db" "agree ty kg db"
    using assms(1) by (auto simp: kg_inv_def)
  define rels where "rels = ug_relations (graph_of kg u)"
  define del where "del = snd (fold delete_relation ids (rels, []))"
  define kg' where "kg' = fst (delete_relations u ids kg)"
  define db' where "db' = db_delete_relations del db"
  have f: "fold delete_relation ids (rels, []) = (fold dict_del ids rels, del)"
    and del: "set del = {i \<in> set ids. dict_has rels i}"
    using fold_delete_relation [of ids rels "[]"] by (simp_all add: del_def)
  have fields: "kg_db kg' = Some db'" "kg_next_id kg' = kg_next_id kg"
    "graph_of kg' v = (if v = u then (graph_of kg u)\<lparr>ug_relations := fold dict_del ids rels\<rparr> else graph_of kg v)" for v
    by (simp_all add: kg'_def delete_relations_def f rels_def [symmetric] db db'_def)
  have ent': "ent kg' v m = ent kg v m" "observed kg' v m = observed kg v m" for v m
    by (simp_all add: ent_def fields(3) observed_def)
  have rel': "rel kg' v i = (if v = u \<and> i \<in> set ids then None else rel kg v i)" for v i
    by (simp add: rel_def fields(3) rels_def dict_get_fold_del)
  have own: "dict_has rels i \<longleftrightarrow> rel kg u i \<noteq> None" for i by (simp add: rels_def rel_def dict_has_def)
  have old: "dict_get (db_relations db) j = Some (v, s, t, x) \<longleftrightarrow>
      rel kg v j = Some \<lparr>re_id = j, re_source = s, re_relation_type = t, re_target = x\<rparr>" for j v s t x
    using db(3) by (simp add: agree_def)
  have one: "v = u" if "rel kg v j = Some r" "rel kg u j = Some r'" for v j r r'
  proof -
    have "re_id r = j" "re_id r' = j" using that ok by (auto simp: kg_ok_def)
    then have "dict_get (db_relations db) j = Some (v, re_source r, re_relation_type r, re_target r)"
      "dict_get (db_relations db) j = Some (u, re_source r', re_relation_type r', re_target r')"
      using that by (auto simp: old)
    then show ?thesis by simp
  qed
  have "dict_get (db_relations db') j = Some (v, s, t, x) \<longleftrightarrow>
      rel kg' v j = Some \<lparr>re_id = j, re_source = s, re_relation_type = t, re_target = x\<rparr>" for j v s t x
    using one [of v j] by (auto simp: db'_def db_delete_relations_def dict_get_fold_del del own rel' old)
  then have "agree ty kg' db'"
    using db(3) unfolding agree_def ent' by (simp add: db'_def db_delete_relations_def)
  moreover have "tables_ok db'" using db(2) by (simp add: tables_ok_def db'_def db_delete_relations_def dict_ok_fold_del)
  moreover have "kg_ok kg'"
    by (rule kg_ok_shrink [OF ok fields(2)])
      (use ok in \<open>auto simp: kg_ok_def fields(3) dict_ok_fold_del rels_def ent' rel' split: if_splits\<close>)
  ultimately show ?thesis unfolding kg_inv_def using fields(1) kg'_def by blast
qed

lemma kg_inv_delete_user:
  assumes "kg_inv ty kg"
  shows "kg_inv ty (fst (delete_user_graph u kg))"
proof (cases "dict_has (kg_graphs kg) u")
  case True
  obtain db where ok: "kg_ok kg" and db: "kg_db kg = Some db" "tables_ok db" "agree ty kg db"
    using assms(1) by (auto simp: kg_inv_def)
  define kg' where "kg' = fst (delete_user_graph u kg)"
  define db' where "db' = db_delete_user u db"
  have fields: "kg_db kg' = Some db'" "kg_next_id kg' = kg_next_id kg"
    "graph_of kg' v = (if v = u then empty_graph else graph_of kg v)" for v
    using True by (simp_all add: kg'_def delete_user_graph_def db db'_def)
  have ent': "ent kg' v m = (if v = u then None else ent kg v m)" "rel kg' v i = (if v = u then None else rel kg v i)" for v m i
    by (simp_all add: ent_def rel_def fields(3) empty_graph_def)
  have obs': "observed kg' v m = (if v = u then {} else observed kg v m)" for v m by (simp add: observed_def ent')
  have t: "dict_ok (db_entities db)" "dict_ok (db_observations db)" "dict_ok (db_relations db)"
    using db(2) by (simp_all add: tables_ok_def)
  have d: "dict_get (db_entities db') (v, m) = (if v = u then None else dict_get (db_entities db) (v, m))"
    "dict_get (db_observations db') j = Some (v, m, c) \<longleftrightarrow> v \<noteq> u \<and> dict_get (db_observations db) j = Some (v, m, c)"
    "dict_get (db_relations db') j = Some (v, s, y, x) \<longleftrightarrow> v \<noteq> u \<and> dict_get (db_relations db) j = Some (v, s, y, x)" for v m j c s y x
    by (auto simp: db'_def db_delete_user_def dict_get_filter [OF t(1)] dict_get_filter [OF t(2)] dict_get_filter [OF t(3)]
        split: option.split)
  have "agree ty kg' db'" using db(3) unfolding agree_def d ent' obs' by auto
  moreover have "tables_ok db'" using t by (simp add: tables_ok_def db'_def db_delete_user_def dict_ok_filter)
  moreover have "kg_ok kg'"
    by (rule kg_ok_shrink [OF ok fields(2)])
      (use ok in \<open>auto simp: kg_ok_def fields(3) empty_graph_def ent' obs' split: if_splits\<close>)
  ultimately show ?thesis unfolding kg_inv_def using fields(1) kg'_def by blast
qed (use assms in \<open>simp add: delete_user_graph_def\<close>)

lemma subseq_set: "subseq xs ys \<Longrightarrow> set xs \<subseteq> set ys"
  by (induction rule: list_emb.induct) auto

lemma subseq_drop: "subseq (drop k xs) xs"
  by (metis append_take_drop_id subseq_drop_many subseq_order.order_refl)

lemma sorted_wrt_subseq: "\<lbrakk>subseq xs ys; sorted_wrt R ys\<rbrakk> \<Longrightarrow> sorted_wrt R xs"
proof (induction rule: list_emb.induct)
  case (list_emb_Cons2 x y xs ys)
  then show ?case using subseq_set [OF list_emb_Cons2.hyps(2)] by auto
qed simp_all

lemma kg_inv_thin:
  assumes inv: "kg_inv ty kg"
    and f: "\<And>e. en_name (f e) = en_name e \<and> en_entity_type (f e) = en_entity_type e \<and>
      subseq (en_observations (f e)) (en_observations e)"
    and del: "\<And>i. i \<in> set del \<longleftrightarrow> (\<exists>n e ob. ent kg u n = Some e \<and> ob \<in> set (en_observations e) \<and>
      ob \<notin> set (en_observations (f e)) \<and> ob_id ob = i)"
  shows "kg_inv ty (on_db (db_delete_observations del)
    (on_graph u (\<lambda>g. g\<lparr>ug_entities := map (map_prod id f) (ug_entities g)\<rparr>) kg))"
proof -
  obtain db where ok: "kg_ok kg" and db: "kg_db kg = Some db" "tables_ok db" "agree ty kg db"
    using inv by (auto simp: kg_inv_def)
  define kg' where "kg' = on_db (db_delete_observations del)
    (on_graph u (\<lambda>g. g\<lparr>ug_entities := map (map_prod id f) (ug_entities g)\<rparr>) kg)"
  define db' where "db' = db_delete_observations del db"
  have fields: "kg_db kg' = Some db'" "kg_next_id kg' = kg_next_id kg"
    "graph_of kg' v = (if v = u then (graph_of kg u)\<lparr>ug_entities := map (map_prod id f) (ug_entities (graph_of kg u))\<rparr>
       else graph_of kg v)" for v
    by (simp_all add: kg'_def db db'_def)
  have rel': "rel kg' v i = rel kg v i" for v i by (simp add: rel_def fields(3))
  have ent': "ent kg' v m = (if v = u then map_option f (ent kg u m) else ent kg v m)" for v m
    by (simp add: ent_def fields(3) dict_get_map)
  have sub: "set (en_observations (f e)) \<subseteq> set (en_observations e)" for e
    using f [of e] by (intro subseq_set) simp
  have obs': "observed kg' v m \<subseteq> observed kg v m" for v m
    using sub by (auto simp: observed_def ent' split: option.splits if_splits)
  have row: "dict_get (db_observations db) i = Some (v, m, c) \<longleftrightarrow> \<lparr>ob_id = i, ob_content = c\<rparr> \<in> observed kg v m" for i v m c
    using db(3) by (simp add: agree_def)
  have same: "v = v' \<and> m = m' \<and> a = b" if "a \<in> observed kg v m" "b \<in> observed kg v' m'" "ob_id a = ob_id b" for a b v v' m m'
  proof -
    have "dict_get (db_observations db) (ob_id a) = Some (v, m, ob_content a)"
      "dict_get (db_observations db) (ob_id b) = Some (v', m', ob_content b)"
      using that(1,2) by (cases a; cases b; simp add: row)+
    then show ?thesis using that(3) by simp
  qed
  have kept: "ob \<in> observed kg' v m \<longleftrightarrow> ob \<in> observed kg v m \<and> ob_id ob \<notin> set del" for ob v m
  proof
    assume o: "ob \<in> observed kg' v m"
    then have o1: "ob \<in> observed kg v m" using obs' by blast
    moreover have "ob_id ob \<notin> set del"
    proof
      assume "ob_id ob \<in> set del"
      then obtain n e b where b: "ent kg u n = Some e" "b \<in> set (en_observations e)" "b \<notin> set (en_observations (f e))" "ob_id b = ob_id ob"
        unfolding del by blast
      then have "b \<in> observed kg u n" by (simp add: observed_def)
      then have "v = u \<and> m = n \<and> ob = b" using same [OF o1 _ b(4) [symmetric]] by blast
      then show False using o b(1,3) by (simp add: observed_def ent')
    qed
    ultimately show "ob \<in> observed kg v m \<and> ob_id ob \<notin> set del" ..
  next
    assume o: "ob \<in> observed kg v m \<and> ob_id ob \<notin> set del"
    then obtain e where e: "ent kg v m = Some e" "ob \<in> set (en_observations e)"
      by (auto simp: observed_def split: option.splits)
    show "ob \<in> observed kg' v m"
    proof (cases "v = u")
      case True
      then have "ob \<in> set (en_observations (f e))" using o e del by blast
      then show ?thesis using True e by (simp add: observed_def ent')
    qed (use e in \<open>simp add: observed_def ent'\<close>)
  qed
  have "entity_ok (ty v m) m e" if some: "ent kg' v m = Some e" for v m e
  proof -
    obtain e0 where e0: "ent kg v m = Some e0" "e = (if v = u then f e0 else e0)"
      using some by (auto simp: ent' split: if_splits)
    then have "entity_ok (ty v m) m e0" using db(3) by (simp add: agree_def)
    moreover have "subseq (map ob_id (en_observations (f e0))) (map ob_id (en_observations e0))"
      using f [of e0] by (intro subseq_map) simp
    ultimately show ?thesis using f [of e0] e0(2) sorted_wrt_subseq by (auto simp: entity_ok_def)
  qed
  moreover have "dict_get (db_observations db') i = Some (v, m, c) \<longleftrightarrow> \<lparr>ob_id = i, ob_content = c\<rparr> \<in> observed kg' v m" for i v m c
    by (simp add: db'_def db_delete_observations_def dict_get_fold_del kept row)
  moreover have "map_option (\<lambda>_. ty v m) (ent kg' v m) = map_option (\<lambda>_. ty v m) (ent kg v m)" for v m
    by (auto simp: ent' option.map_comp comp_def)
  ultimately have "agree ty kg' db'"
    using db(3) unfolding agree_def rel' by (simp add: db'_def db_delete_observations_def)
  moreover have "tables_ok db'" using db(2) by (simp add: tables_ok_def db'_def db_delete_observations_def dict_ok_fold_del)
  moreover have "kg_ok kg'"
    by (rule kg_ok_shrink [OF ok fields(2)])
      (use ok in \<open>auto simp: kg_ok_def fields(3) dict_ok_map kept rel' split: if_splits\<close>)
  ultimately show ?thesis unfolding kg_inv_def using fields(1) kg'_def by blast
qed

lemma own_ids_ent:
  assumes "kg_ok kg"
  shows "i \<in> set (own_ids kg u) \<longleftrightarrow> (\<exists>n e ob. ent kg u n = Some e \<and> ob \<in> set (en_observations e) \<and> ob_id ob = i)"
proof -
  have ok: "dict_ok (ug_entities (graph_of kg u))" using assms by (simp add: kg_ok_def)
  have "i \<in> set (own_ids kg u) \<longleftrightarrow> (\<exists>n e. (n, e) \<in> set (ug_entities (graph_of kg u)) \<and> i \<in> ob_id ` set (en_observations e))"
    by (force simp: own_ids_def)
  then show ?thesis unfolding dict_mem_get [OF ok] ent_def by (auto simp: image_iff)
qed

lemma set_reported:
  "set (reported_deleted ids e) = (if \<exists>ob\<in>set (en_observations e). ob_id ob \<in> set ids then set ids else {})"
proof -
  have "length (filter (\<lambda>ob. ob_id ob \<notin> set ids) (en_observations e)) < length (en_observations e) \<longleftrightarrow>
      (\<exists>ob\<in>set (en_observations e). ob_id ob \<in> set ids)"
    using length_filter_less [of _ "en_observations e" "\<lambda>ob. ob_id ob \<notin> set ids"]
    by (auto simp: not_less) (metis filter_True less_irrefl)
  then show ?thesis by (auto simp: reported_deleted_def Let_def without_observations_def list_ex_iff)
qed

lemma kg_inv_delete_observations:
  assumes "kg_inv ty kg" "set ids \<subseteq> set (own_ids kg u)"
  shows "kg_inv ty (fst (delete_observations u ids kg))"
proof -
  have ok: "kg_ok kg" using assms(1) by (simp add: kg_inv_def)
  then have d: "dict_ok (ug_entities (graph_of kg u))" by (simp add: kg_ok_def)
  define del where "del = remdups (sort (concat (map (reported_deleted ids) (map snd (ug_entities (graph_of kg u))))))"
  have "i \<in> set del \<longleftrightarrow> (\<exists>n e. ent kg u n = Some e \<and> i \<in> set (reported_deleted ids e))" for i
  proof -
    have "i \<in> set del \<longleftrightarrow> (\<exists>n e. (n, e) \<in> set (ug_entities (graph_of kg u)) \<and> i \<in> set (reported_deleted ids e))"
      by (force simp: del_def)
    then show ?thesis by (simp add: dict_mem_get [OF d] ent_def)
  qed
  then have "i \<in> set del \<longleftrightarrow> (\<exists>n e ob. ent kg u n = Some e \<and> ob \<in> set (en_observations e) \<and>
      ob \<notin> set (en_observations (without_observations (set ids) e)) \<and> ob_id ob = i)" for i
  proof -
    have "i \<in> set ids \<Longrightarrow> \<exists>n e ob. ent kg u n = Some e \<and> ob \<in> set (en_observations e) \<and> ob_id ob = i"
      using assms(2) own_ids_ent [OF ok, of i u] by blast
    moreover assume "\<And>i. i \<in> set del \<longleftrightarrow> (\<exists>n e. ent kg u n = Some e \<and> i \<in> set (reported_deleted ids e))"
    ultimately show ?thesis
      by (simp add: set_reported without_observations_def) metis
  qed
  then show ?thesis
    unfolding delete_observations_def Let_def del_def [symmetric] fst_conv
    by (intro kg_inv_thin [OF assms(1)]) (simp_all add: without_observations_def)
qed

lemma kg_inv_trim:
  assumes "kg_inv ty kg"
  shows "kg_inv ty (fst (trim_observations u m kg))"
proof -
  obtain db where ok: "kg_ok kg" and a: "agree ty kg db" using assms by (auto simp: kg_inv_def)
  then have d: "dict_ok (ug_entities (graph_of kg u))" by (simp add: kg_ok_def)
  define del where "del = concat (map (\<lambda>e. map ob_id (take (length (en_observations e) - m) (en_observations e)))
    (map snd (ug_entities (graph_of kg u))))"
  have cut: "ob \<in> set (take k xs) \<longleftrightarrow> ob \<in> set xs \<and> ob \<notin> set (drop k xs)" if "sorted_wrt (<) (map ob_id xs)" for ob :: observation and k xs
  proof -
    have "distinct (map ob_id xs)" using that by (simp add: strict_sorted_iff)
    then have "set (take k xs) \<inter> set (drop k xs) = {}"
      by (intro set_take_disj_set_drop_if_distinct) (simp_all add: distinct_map)
    moreover have "set xs = set (take k xs) \<union> set (drop k xs)" by (metis append_take_drop_id set_append)
    ultimately show ?thesis by blast
  qed
  have "i \<in> set del \<longleftrightarrow> (\<exists>n e ob. ent kg u n = Some e \<and> ob \<in> set (en_observations e) \<and>
      ob \<notin> set (en_observations (trimmed m e)) \<and> ob_id ob = i)" for i
  proof -
    have "i \<in> set del \<longleftrightarrow> (\<exists>n e. (n, e) \<in> set (ug_entities (graph_of kg u)) \<and>
        i \<in> ob_id ` set (take (length (en_observations e) - m) (en_observations e)))"
      by (force simp: del_def)
    also have "\<dots> \<longleftrightarrow> (\<exists>n e ob. ent kg u n = Some e \<and> ob \<in> set (take (length (en_observations e) - m) (en_observations e)) \<and> ob_id ob = i)"
      unfolding dict_mem_get [OF d] ent_def by (auto simp: image_iff)
    also have "\<dots> \<longleftrightarrow> (\<exists>n e ob. ent kg u n = Some e \<and> ob \<in> set (en_observations e) \<and>
        ob \<notin> set (en_observations (trimmed m e)) \<and> ob_id ob = i)"
      using a cut unfolding agree_def entity_ok_def trimmed_def by (auto; blast)
    finally show ?thesis .
  qed
  then show ?thesis
    unfolding trim_observations_def Let_def del_def [symmetric] fst_conv
    by (intro kg_inv_thin [OF assms]) (simp_all add: trimmed_def subseq_drop)
qed

lemma kg_inv_add_observations:
  assumes "kg_inv ty kg"
  shows "kg_inv ty (fst (add_observations u n contents kg))"
proof (cases "ent kg u n")
  case None
  then show ?thesis using kg_inv_touch [OF assms] by (simp add: add_observations_def Let_def ent_def)
next
  case (Some e)
  define i where "i = \<lparr>ce_name = n, ce_entity_type = ty u n, ce_observations = contents\<rparr>"
  obtain db where db: "kg_db kg = Some db" "agree ty kg db" using assms(1) by (auto simp: kg_inv_def)
  have "dict_get (db_entities db) (u, n) = Some (ty u n)" using db(2) Some by (simp add: agree_def)
  then have up: "db_upsert_entity u n (ty u n) db = db" by (simp add: db_upsert_entity_def dict_put_same)
  have e: "dict_get (ug_entities (graph_of kg u)) n = Some e" using Some by (simp add: ent_def)
  define obs where "obs = number_from (kg_next_id kg) contents"
  define kg1 where "kg1 = (touch u kg)\<lparr>kg_next_id := kg_next_id kg + length obs\<rparr>"
  have g: "graph_of kg1 u = graph_of kg u" "kg_db kg1 = Some db" by (simp_all add: kg1_def db)
  have dbs: "on_db (insert_observations u n obs \<circ> db_upsert_entity u n (ty u n)) kg1 = on_db (insert_observations u n obs) kg1"
    by (simp add: on_db_def g up)
  have "create_entity u i (touch u kg) = on_graph u (upsert_entity n (ty u n) obs) (on_db (insert_observations u n obs) kg1)"
    using dbs by (simp add: create_entity_def Let_def i_def obs_def kg1_def)
  also have "\<dots> = on_graph u (\<lambda>g. g\<lparr>ug_entities := dict_put n (e\<lparr>en_observations := en_observations e @ obs\<rparr>) (ug_entities g)\<rparr>)
      (on_db (insert_observations u n obs) kg1)"
    by (simp add: on_graph_def g e upsert_entity_def)
  also have "\<dots> = fst (add_observations u n contents kg)"
    by (simp add: add_observations_def Let_def e obs_def kg1_def)
  finally have "fst (add_observations u n contents kg) = create_entity u i (touch u kg)" ..
  then show ?thesis using kg_inv_create_entity [OF kg_inv_touch [OF assms], of i u] by (simp add: i_def)
qed

lemma fold_inv: "\<lbrakk>P s; \<And>x s. \<lbrakk>x \<in> set xs; P s\<rbrakk> \<Longrightarrow> P (f x s)\<rbrakk> \<Longrightarrow> P (fold f xs s)"
  by (induction xs arbitrary: s) simp_all

lemma kg_inv_op: "\<lbrakk>kg_inv ty kg; op_ok ty op kg\<rbrakk> \<Longrightarrow> kg_inv ty (apply_op op kg)"
proof -
  assume inv: "kg_inv ty kg" and ok: "op_ok ty op kg"
  obtain u c where op: "op = (u, c)" by (cases op)
  show ?thesis
  proof (cases c)
    case (CreateEntities "is")
    then show ?thesis
      using inv ok
      by (auto simp: op create_entities_def list_all_iff intro!: fold_inv [where P = "kg_inv ty"] kg_inv_touch kg_inv_create_entity)
  next
    case (DeleteObservations ids)
    then show ?thesis using inv ok by (simp add: op kg_inv_delete_observations list_all_iff subset_iff)
  next
    case (CreateRelations rs)
    then show ?thesis
      using inv
      by (auto simp: op create_relations_def intro!: fold_inv [where P = "kg_inv ty"] kg_inv_touch kg_inv_create_relation)
  next
    case (DeleteEntities ns)
    then show ?thesis
      using inv kg_inv_delete_entity
      by (auto simp: op delete_entities_def intro!: fold_inv [where P = "\<lambda>s. kg_inv ty (fst s)"] kg_inv_touch)
  qed (use inv in \<open>simp_all add: op kg_inv_add_observations kg_inv_delete_relations kg_inv_delete_user kg_inv_trim kg_inv_touch\<close>)
qed

lemma kg_inv_run: "\<lbrakk>clean_run ty ops kg; kg_inv ty kg\<rbrakk> \<Longrightarrow> kg_inv ty (fold apply_op ops kg)"
  by (induction ops arbitrary: kg) (simp_all add: kg_inv_op)

definition kg_persistent :: knowledge_graph where
  "kg_persistent = load_from_db empty_database"

lemma kg_persistent_inv: "kg_inv ty kg_persistent"
  by (simp add: kg_inv_def kg_ok_def tables_ok_def agree_def kg_persistent_def load_from_db_def Let_def empty_database_def
      graph_of_def ent_def rel_def observed_def empty_graph_def)

section \<open>What loading gives\<close>

definition gent :: "user_graph dict \<Rightarrow> string \<Rightarrow> string \<Rightarrow> entity option" where
  "gent gs u n = (case dict_get gs u of Some g \<Rightarrow> dict_get (ug_entities g) n | None \<Rightarrow> None)"

definition grel :: "user_graph dict \<Rightarrow> string \<Rightarrow> nat \<Rightarrow> relation option" where
  "grel gs u i = (case dict_get gs u of Some g \<Rightarrow> dict_get (ug_relations g) i | None \<Rightarrow> None)"

lemma gent_graph_of: "ent kg u n = gent (kg_graphs kg) u n" "rel kg u i = grel (kg_graphs kg) u i"
  by (simp_all add: ent_def rel_def gent_def grel_def graph_of_def empty_graph_def split: option.split)

lemma load_entities_gent:
  "gent (fold load_entity rows gs) u n =
     (case gent gs u n of Some e \<Rightarrow> Some e
      | None \<Rightarrow> map_option (\<lambda>t. \<lparr>en_name = n, en_entity_type = t, en_observations = []\<rparr>) (dict_get rows (u, n)))"
proof (induction rows arbitrary: gs)
  case (Cons row rows)
  obtain v m t where row: "row = ((v, m), t)" by (metis surj_pair)
  have "gent (load_entity row gs) u n =
      (case gent gs u n of Some e \<Rightarrow> Some e
       | None \<Rightarrow> if v = u \<and> m = n then Some \<lparr>en_name = n, en_entity_type = t, en_observations = []\<rparr> else None)"
    by (auto simp: gent_def load_entity_def row Let_def dict_has_def empty_graph_def split: option.splits)
  then show ?case using Cons.IH [of "load_entity row gs"] by (auto simp: row split: option.splits)
qed (simp split: option.split)

lemma load_entities_grel: "grel (fold load_entity rows gs) u i = grel gs u i"
proof (rule fold_keeps [where Q = "\<lambda>gs. grel gs u i"])
  fix row :: "(string \<times> string) \<times> string" and gs
  obtain v m t where row: "row = ((v, m), t)" by (metis surj_pair)
  show "grel (load_entity row gs) u i = grel gs u i"
    by (cases "dict_get gs u") (auto simp: grel_def load_entity_def row Let_def empty_graph_def split: option.split)
qed

lemma load_observation_step:
  "gent (load_observation (i, (v, m, c)) gs) u n =
      map_option (\<lambda>e. if v = u \<and> m = n then e\<lparr>en_observations := en_observations e @ [\<lparr>ob_id = i, ob_content = c\<rparr>]\<rparr> else e) (gent gs u n)"
  "grel (load_observation (i, (v, m, c)) gs) u j = grel gs u j"
  "(dict_get (load_observation (i, (v, m, c)) gs) u = None) = (dict_get gs u = None)"
proof -
  let ?gs = "load_observation (i, (v, m, c)) gs"
  have "gent ?gs u n = map_option (\<lambda>e. if v = u \<and> m = n then e\<lparr>en_observations := en_observations e @ [\<lparr>ob_id = i, ob_content = c\<rparr>]\<rparr> else e) (gent gs u n) \<and>
      grel ?gs u j = grel gs u j \<and> (dict_get ?gs u = None) = (dict_get gs u = None)"
  proof (cases "dict_get gs v")
    case None
    then show ?thesis by (cases "v = u") (simp_all add: load_observation_def gent_def option.map_ident)
  next
    case (Some g)
    then show ?thesis
      by (cases "dict_get (ug_entities g) m"; cases "v = u"; cases "m = n")
        (simp_all add: load_observation_def gent_def grel_def option.map_ident)
  qed
  then show "gent ?gs u n = map_option (\<lambda>e. if v = u \<and> m = n then e\<lparr>en_observations := en_observations e @ [\<lparr>ob_id = i, ob_content = c\<rparr>]\<rparr> else e) (gent gs u n)"
    "grel ?gs u j = grel gs u j" "(dict_get ?gs u = None) = (dict_get gs u = None)" by blast+
qed

lemma load_observations_gent:
  "gent (fold load_observation rows gs) u n =
     map_option (\<lambda>e. e\<lparr>en_observations := en_observations e @
        map (\<lambda>(i, (v, m, c)). \<lparr>ob_id = i, ob_content = c\<rparr>) (filter (\<lambda>(i, (v, m, c)). v = u \<and> m = n) rows)\<rparr>) (gent gs u n)"
proof (induction rows arbitrary: gs)
  case (Cons row rows)
  obtain i v m c where row: "row = (i, (v, m, c))" by (metis surj_pair)
  show ?case
    using Cons.IH [of "load_observation row gs"] load_observation_step(1) [of i v m c gs u n] by (cases "gent gs u n") (simp_all add: row)
qed (simp add: option.map_ident)

lemma load_observations_other:
  "grel (fold load_observation rows gs) u i = grel gs u i"
  "(dict_get (fold load_observation rows gs) u = None) = (dict_get gs u = None)"
proof (induction rows arbitrary: gs)
  case (Cons row rows)
  obtain j v m c where row: "row = (j, (v, m, c))" by (metis surj_pair)
  {
    case 1
    show ?case using Cons.IH(1) by (simp add: row load_observation_step)
  next
    case 2
    show ?case using Cons.IH(2) by (simp add: row load_observation_step)
  }
qed simp_all

lemma load_relations_gent: "gent (fold load_relation rows gs) u n = gent gs u n"
proof (rule fold_keeps [where Q = "\<lambda>gs. gent gs u n"])
  fix row :: "nat \<times> (string \<times> string \<times> string \<times> string)" and gs
  obtain j v s t x where row: "row = (j, (v, s, t, x))" by (metis surj_pair)
  show "gent (load_relation row gs) u n = gent gs u n"
    by (cases "dict_get gs v"; cases "v = u") (simp_all add: gent_def load_relation_def row)
qed

lemma load_relations_grel:
  assumes "dict_ok rows" "dict_get gs u \<noteq> None"
  shows "grel (fold load_relation rows gs) u i =
    (case dict_get rows i of
       Some (v, s, t, x) \<Rightarrow> if v = u then Some \<lparr>re_id = i, re_source = s, re_relation_type = t, re_target = x\<rparr> else grel gs u i
     | None \<Rightarrow> grel gs u i)"
  using assms
proof (induction rows arbitrary: gs)
  case (Cons row rows)
  obtain j v s t x where row: "row = (j, (v, s, t, x))" by (metis surj_pair)
  have ok: "dict_ok rows" "dict_get rows j = None"
    using Cons.prems(1) by (auto simp: dict_ok_def row dict_get_def map_of_eq_None_iff)
  have ne: "dict_get (load_relation row gs) u \<noteq> None"
    using Cons.prems(2) by (auto simp: load_relation_def row split: option.split)
  have "grel (load_relation row gs) u i =
      (if v = u \<and> i = j then Some \<lparr>re_id = i, re_source = s, re_relation_type = t, re_target = x\<rparr> else grel gs u i)"
    using Cons.prems(2) by (auto simp: grel_def load_relation_def row split: option.splits)
  then show ?case using Cons.IH [OF ok(1) ne] ok(2) by (auto simp: row split: option.split)
qed simp

lemma sorted_rows_unique:
  fixes xs ys :: "observation list"
  assumes "sorted_wrt (<) (map ob_id xs)" "sorted_wrt (<) (map ob_id ys)" "set xs = set ys"
  shows "xs = ys"
proof -
  have s: "sorted (map ob_id xs)" "distinct (map ob_id xs)" "sorted (map ob_id ys)" "distinct (map ob_id ys)"
    using assms by (simp_all add: strict_sorted_iff)
  then have "inj_on ob_id (set xs \<union> set ys)" using assms(3) by (simp add: distinct_map)
  then show ?thesis using s assms(3) by (intro map_sorted_distinct_set_unique [of ob_id]) auto
qed

lemma load_agrees:
  assumes inv: "kg_inv ty kg" and db: "kg_db kg = Some db" and ne: "ent kg u m \<noteq> None"
  shows "ent (load_from_db db) u n = ent kg u n \<and> rel (load_from_db db) u i = rel kg u i"
proof -
  have ok: "kg_ok kg" "tables_ok db" "agree ty kg db" using inv db by (auto simp: kg_inv_def)
  define gs1 where "gs1 = fold load_entity (db_entities db) []"
  define gs2 where "gs2 = fold load_observation (sort_key fst (db_observations db)) gs1"
  have gs: "kg_graphs (load_from_db db) = fold load_relation (db_relations db) gs2"
    by (simp add: load_from_db_def Let_def gs1_def gs2_def)
  have g0: "gent [] v k = None" "grel [] v j = None" for v k j by (simp_all add: gent_def grel_def)
  have g1: "gent gs1 u k = map_option (\<lambda>_. \<lparr>en_name = k, en_entity_type = ty u k, en_observations = []\<rparr>) (ent kg u k)" for k
    using ok(3) unfolding gs1_def load_entities_gent agree_def
    by (simp add: g0 option.map_comp comp_def)
  have g2: "dict_get gs2 u \<noteq> None"
    using ne g1 [of m] by (auto simp: gs2_def load_observations_other gent_def split: option.splits)
  let ?rows = "\<lambda>k. map (\<lambda>(i, (v, m, c)). \<lparr>ob_id = i, ob_content = c\<rparr>)
      (filter (\<lambda>(i, (v, m, c)). v = u \<and> m = k) (sort_key fst (db_observations db)))"
  have d: "dict_ok (db_observations db)" using ok(2) by (simp add: tables_ok_def)
  have sorted: "sorted_wrt (<) (map ob_id (?rows k))" for k
  proof -
    have ids: "map ob_id (?rows k) = map fst (filter (\<lambda>(i, (v, m, c)). v = u \<and> m = k) (sort_key fst (db_observations db)))"
      by (auto simp: comp_def split_def)
    have "distinct (map fst (sort_key fst (db_observations db)))"
      using d by (simp add: dict_ok_def distinct_map)
    then have "distinct (map ob_id (?rows k))" unfolding ids by (simp add: distinct_map_filter)
    moreover have "sorted (map ob_id (?rows k))" unfolding ids by (simp add: sorted_filter)
    ultimately show ?thesis by (simp add: strict_sorted_iff)
  qed
  have rows: "set (?rows k) = observed kg u k" for k
  proof -
    have "\<lparr>ob_id = i, ob_content = c\<rparr> \<in> set (?rows k) \<longleftrightarrow> (i, (u, k, c)) \<in> set (db_observations db)" for i c
      by (simp add: image_iff)
    then have o: "\<lparr>ob_id = i, ob_content = c\<rparr> \<in> set (?rows k) \<longleftrightarrow> \<lparr>ob_id = i, ob_content = c\<rparr> \<in> observed kg u k" for i c
      using ok(3) by (simp add: dict_mem_get [OF d] agree_def)
    show ?thesis
    proof (rule set_eqI)
      fix ob
      show "ob \<in> set (?rows k) \<longleftrightarrow> ob \<in> observed kg u k" using o by (cases ob) simp
    qed
  qed
  have "ent (load_from_db db) u n = ent kg u n"
  proof (cases "ent kg u n")
    case None
    then show ?thesis unfolding gent_graph_of(1) [of "load_from_db db"] gs load_relations_gent gs2_def load_observations_gent g1
      by simp
  next
    case (Some e)
    then have e: "entity_ok (ty u n) n e" using ok(3) by (simp add: agree_def)
    have "set (?rows n) = set (en_observations e)" by (simp only: rows observed_def Some option.case)
    then have "?rows n = en_observations e"
      using sorted_rows_unique [OF sorted [of n]] e by (simp add: entity_ok_def)
    then show ?thesis
      using e unfolding gent_graph_of(1) [of "load_from_db db"] gs load_relations_gent gs2_def load_observations_gent g1 Some
      by (cases e) (simp add: entity_ok_def)
  qed
  moreover have "rel (load_from_db db) u i = rel kg u i"
  proof -
    have dr: "dict_ok (db_relations db)" using ok(2) by (simp add: tables_ok_def)
    have "grel gs2 u i = None" by (simp add: gs2_def load_observations_other gs1_def load_entities_grel g0)
    then have l: "rel (load_from_db db) u i = (case dict_get (db_relations db) i of
       Some (v, s, t, x) \<Rightarrow> if v = u then Some \<lparr>re_id = i, re_source = s, re_relation_type = t, re_target = x\<rparr> else None | None \<Rightarrow> None)"
      unfolding gent_graph_of(2) gs load_relations_grel [OF dr g2] by (simp split: option.split)
    have r: "rel kg u i = Some \<lparr>re_id = i, re_source = s, re_relation_type = t, re_target = x\<rparr> \<longleftrightarrow>
        dict_get (db_relations db) i = Some (u, s, t, x)" for s t x
      using ok(3) by (simp add: agree_def)
    show ?thesis
    proof (cases "rel kg u i")
      case None
      then show ?thesis using r by (auto simp: l split: option.split)
    next
      case (Some q)
      define s t x where "s = re_source q" and "t = re_relation_type q" and "x = re_target q"
      have "re_id q = i" using ok(1) Some by (simp add: kg_ok_def)
      then have q: "\<lparr>re_id = i, re_source = s, re_relation_type = t, re_target = x\<rparr> = q"
        by (cases q) (simp add: s_def t_def x_def)
      then have "dict_get (db_relations db) i = Some (u, s, t, x)" using r [of s t x] Some by simp
      then show ?thesis using Some q by (simp add: l)
    qed
  qed
  ultimately show ?thesis ..
qed

section \<open>Properties\<close>

text \<open>
  In memory users are isolated: no sequence of operations of other users changes the graph of a
  user, neither its entities and observations nor its relations.
\<close>

theorem users_isolated:
  assumes "u \<notin> fst ` set ops"
  shows "dict_get (kg_graphs (fold apply_op ops kg)) u = dict_get (kg_graphs kg) u \<and>
    snd (read_graph u (fold apply_op ops kg)) = snd (read_graph u kg)"
proof -
  have "dict_get (kg_graphs (fold apply_op ops kg)) u = dict_get (kg_graphs kg) u"
    using assms
    by (intro fold_keeps [where Q = "\<lambda>kg. dict_get (kg_graphs kg) u"]) (auto simp: apply_op_other image_iff)
  then show ?thesis by (simp add: read_graph_def graph_of_def Let_def)
qed

text \<open>
  The tables refine to the graph in memory: after any operations in which the type of an entity is
  a function of its name and observations are deleted by the user who has them, loading the database
  again gives every user with an entity the same entities, observations in the same order and
  relations.
\<close>

theorem reload_restores_graph:
  assumes "clean_run ty ops kg_persistent" "ent (fold apply_op ops kg_persistent) u m \<noteq> None"
  shows "\<exists>db. kg_db (fold apply_op ops kg_persistent) = Some db \<and>
    ent (load_from_db db) u n = ent (fold apply_op ops kg_persistent) u n \<and>
    rel (load_from_db db) u i = rel (fold apply_op ops kg_persistent) u i"
proof -
  have inv: "kg_inv ty (fold apply_op ops kg_persistent)"
    by (rule kg_inv_run [OF assms(1) kg_persistent_inv])
  then obtain db where "kg_db (fold apply_op ops kg_persistent) = Some db" by (auto simp: kg_inv_def)
  then show ?thesis using load_agrees [OF inv _ assms(2)] by blast
qed

definition remember :: "string \<Rightarrow> string \<Rightarrow> string \<Rightarrow> string \<times> kg_op" where
  "remember u n c = (u, CreateEntities [\<lparr>ce_name = n, ce_entity_type = ''t'', ce_observations = [c]\<rparr>])"

lemmas kg_eval = remember_def create_entities_def create_entity_def touch_def on_graph_def on_db_def graph_of_def kg_persistent_def
  load_from_db_def load_entity_def load_observation_def load_relation_def empty_database_def empty_graph_def
  number_from_def upsert_entity_def insert_observations_def db_insert_observation_def db_upsert_entity_def
  delete_observations_def reported_deleted_def without_observations_def db_delete_observations_def
  ent_def dict_has_def upt_rec

text \<open>
  On disk they are not isolated: a user who deletes one of her observations together with the number
  of another user's leaves that user's graph in memory as it was and deletes the row of the other
  user's observation, which is gone after a restart.
\<close>

theorem deletion_reaches_other_users:
  "\<exists>e db. ent (fold apply_op [remember ''bob'' ''b'' ''y'', remember ''eve'' ''e'' ''x'', (''eve'', DeleteObservations [2, 1])] kg_persistent)
       ''bob'' ''b'' = Some e \<and> en_observations e = [\<lparr>ob_id = 1, ob_content = ''y''\<rparr>] \<and>
     kg_db (fold apply_op [remember ''bob'' ''b'' ''y'', remember ''eve'' ''e'' ''x'', (''eve'', DeleteObservations [2, 1])] kg_persistent)
       = Some db \<and> map_option en_observations (ent (load_from_db db) ''bob'' ''b'') = Some []"
  by (simp add: kg_eval)

theorem users_isolated_witness:
  "dict_get (kg_graphs (fold apply_op [remember ''bob'' ''b'' ''y''] kg_new)) ''eve'' = None"
  using users_isolated [of "''eve''" "[remember ''bob'' ''b'' ''y'']" kg_new] by (simp add: remember_def kg_new_def)

theorem reload_restores_graph_witness:
  "\<exists>db. kg_db (fold apply_op [remember ''bob'' ''b'' ''y'', (''bob'', DeleteObservations [1]), remember ''bob'' ''b'' ''z''] kg_persistent) = Some db \<and>
     ent (load_from_db db) ''bob'' ''b'' =
       Some \<lparr>en_name = ''b'', en_entity_type = ''t'', en_observations = [\<lparr>ob_id = 2, ob_content = ''z''\<rparr>]\<rparr>"
proof -
  let ?ops = "[remember ''bob'' ''b'' ''y'', (''bob'', DeleteObservations [1]), remember ''bob'' ''b'' ''z'']"
  have c: "clean_run (\<lambda>u n. ''t'') ?ops kg_persistent"
    by (simp add: kg_eval own_ids_def)
  have e: "ent (fold apply_op ?ops kg_persistent) ''bob'' ''b'' =
      Some \<lparr>en_name = ''b'', en_entity_type = ''t'', en_observations = [\<lparr>ob_id = 2, ob_content = ''z''\<rparr>]\<rparr>"
    by (simp add: kg_eval)
  have "ent (fold apply_op ?ops kg_persistent) ''bob'' ''b'' \<noteq> None" unfolding e by (rule option.distinct)
  then show ?thesis using reload_restores_graph [OF c, of "''bob''" "''b''" "''b''" 0] unfolding e by blast
qed

end
