(* ===== verification/Heartbeat.thy ===== *)
theory Heartbeat
  imports Prelude
begin

text \<open>
  \<open>src/heartbeat_v2.rs\<close>: the heartbeat schedules of the users and the removal of heartbeat turns from
  a session history. Points in time are numbers; triggering the cancellation token of a schedule
  moves the schedule to \<open>hb_cancelled\<close>.
\<close>

section \<open>Schedules\<close>

record heartbeat_v2_config =
  hc_enabled :: bool
  hc_default_interval_secs :: "64 word"
  hc_prompt :: string

definition default_prompt :: string where
  "default_prompt = ''System heartbeat: Check conversation history for any pending or incomplete work. '' @
     ''If there is unfinished work, continue it autonomously using available tools '' @
     map char_of [0xE2 :: nat, 0x80, 0x94] @ '' do not ask for permission. Report progress concisely. '' @
     ''If all work is complete, reply with exactly HEARTBEAT_OK.''"

definition default_heartbeat_config :: heartbeat_v2_config where
  "default_heartbeat_config = \<lparr>hc_enabled = True, hc_default_interval_secs = 3600, hc_prompt = default_prompt\<rparr>"

record heartbeat_schedule =
  hs_user_id :: string
  hs_interval :: duration
  hs_last_fired :: "int option"

record heartbeat_v2 =
  hb_schedules :: "heartbeat_schedule dict"
  hb_config :: heartbeat_v2_config
  hb_cancelled :: "heartbeat_schedule list"

definition hb_new :: "heartbeat_v2_config \<Rightarrow> heartbeat_v2" where
  "hb_new c = \<lparr>hb_schedules = [], hb_config = c, hb_cancelled = []\<rparr>"

definition schedule_count :: "heartbeat_v2 \<Rightarrow> nat" where
  "schedule_count h = length (hb_schedules h)"

definition has_schedule :: "heartbeat_v2 \<Rightarrow> string \<Rightarrow> bool" where
  "has_schedule h u \<longleftrightarrow> dict_has (hb_schedules h) u"

definition cancel_for_user :: "string \<Rightarrow> heartbeat_v2 \<Rightarrow> heartbeat_v2" where
  "cancel_for_user u h =
     (case dict_get (hb_schedules h) u of
        None \<Rightarrow> h
      | Some s \<Rightarrow> h\<lparr>hb_schedules := dict_del u (hb_schedules h), hb_cancelled := hb_cancelled h @ [s]\<rparr>)"

definition schedule_for_user :: "string \<Rightarrow> duration \<Rightarrow> heartbeat_v2 \<Rightarrow> heartbeat_v2" where
  "schedule_for_user u interval h =
     (let h1 = cancel_for_user u h
      in h1\<lparr>hb_schedules := dict_put u \<lparr>hs_user_id = u, hs_interval = interval, hs_last_fired = None\<rparr> (hb_schedules h1)\<rparr>)"

definition cancel_all :: "heartbeat_v2 \<Rightarrow> heartbeat_v2" where
  "cancel_all h = fold cancel_for_user (dict_keys (hb_schedules h)) h"

definition mark_fired :: "string \<Rightarrow> int \<Rightarrow> heartbeat_v2 \<Rightarrow> heartbeat_v2" where
  "mark_fired u now h =
     (case dict_get (hb_schedules h) u of
        None \<Rightarrow> h
      | Some s \<Rightarrow> h\<lparr>hb_schedules := dict_put u (s\<lparr>hs_last_fired := Some now\<rparr>) (hb_schedules h)\<rparr>)"

lemma get_cancel: "dict_get (hb_schedules (cancel_for_user u h)) v = (if v = u then None else dict_get (hb_schedules h) v)"
  by (auto simp: cancel_for_user_def split: option.split)

lemma get_schedule:
  "dict_get (hb_schedules (schedule_for_user u i h)) v =
     (if v = u then Some \<lparr>hs_user_id = u, hs_interval = i, hs_last_fired = None\<rparr> else dict_get (hb_schedules h) v)"
  by (simp add: schedule_for_user_def Let_def get_cancel)

lemma hb_config_keep [simp]:
  "hb_config (cancel_for_user u h) = hb_config h" "hb_config (schedule_for_user u i h) = hb_config h"
  by (simp_all add: cancel_for_user_def schedule_for_user_def Let_def split: option.split)

section \<open>Heartbeat turns\<close>

record turn =
  tu_role :: string
  tu_content :: string
  tu_metadata :: "string option"

definition heartbeat_marker :: string where
  "heartbeat_marker = ''__heartbeat_v2__''"

definition regular_turn :: "string \<Rightarrow> string \<Rightarrow> turn" where
  "regular_turn r c = \<lparr>tu_role = r, tu_content = c, tu_metadata = None\<rparr>"

definition heartbeat_turn :: "string \<Rightarrow> string \<Rightarrow> turn" where
  "heartbeat_turn r c = \<lparr>tu_role = r, tu_content = c, tu_metadata = Some heartbeat_marker\<rparr>"

definition is_heartbeat :: "turn \<Rightarrow> bool" where
  "is_heartbeat t \<longleftrightarrow> tu_metadata t = Some heartbeat_marker"

datatype response_kind = ResponseOk | Alert string

definition classify_response :: "string \<Rightarrow> response_kind" where
  "classify_response r = (if trim r = ''HEARTBEAT_OK'' then ResponseOk else Alert r)"

text \<open>What the loop pushes to \<open>indices_to_remove\<close> at index \<open>i\<close>.\<close>

definition marks :: "turn list \<Rightarrow> nat \<Rightarrow> nat list" where
  "marks h i =
     (let t = h ! i in
      if \<not> is_heartbeat t then []
      else if tu_role t = ''assistant'' then
        (if classify_response (tu_content t) = ResponseOk
         then [i] @ (if i > 0 \<and> is_heartbeat (h ! (i - 1)) \<and> tu_role (h ! (i - 1)) = ''user'' then [i - 1] else [])
         else [])
      else if tu_role t = ''user'' then
        (if i + 1 < length h \<and> is_heartbeat (h ! (i + 1)) \<and> tu_role (h ! (i + 1)) = ''assistant'' then []
         else if i + 1 \<ge> length h \<or> \<not> is_heartbeat (h ! (i + 1)) then [i] else [])
      else [])"

definition remove_at :: "nat \<Rightarrow> 'a list \<Rightarrow> 'a list" where
  "remove_at i xs = take i xs @ drop (Suc i) xs"

definition strip_heartbeat_turns :: "turn list \<Rightarrow> turn list" where
  "strip_heartbeat_turns h =
     (let indices = remdups (sort (concat (map (marks h) [0..<length h])))
      in fold remove_at (rev indices) h)"

definition temporary_session_context :: "string \<Rightarrow> turn list" where
  "temporary_session_context u = [heartbeat_turn ''user''
     (''System heartbeat check '' @ map char_of [0xE2 :: nat, 0x80, 0x94] @ '' if nothing needs attention, reply HEARTBEAT_OK.'')]"

section \<open>Removal by indices\<close>

lemma nths_cong: "(\<And>i. i < length xs \<Longrightarrow> i \<in> A \<longleftrightarrow> i \<in> B) \<Longrightarrow> nths xs A = nths xs B"
  unfolding nths_def by (rule arg_cong [where f = "map fst"]) (rule filter_cong, auto simp: set_zip)

lemma remove_at_nths:
  assumes "d < length xs" "{0..d} \<subseteq> A"
  shows "remove_at d (nths xs A) = nths xs (A - {d})"
proof -
  define a x b where "a = take d xs" and "x = xs ! d" and "b = drop (Suc d) xs"
  have xs: "xs = a @ x # b" and d: "length a = d" using assms(1) by (simp_all add: a_def x_def b_def id_take_nth_drop)
  have l: "nths a A = a" "nths a (A - {d}) = a" using assms(2) d by (auto intro!: nths_all)
  have r: "{j. Suc (j + d) \<in> A - {d}} = {j. Suc (j + d) \<in> A}" by auto
  have "nths xs A = a @ x # nths b {j. Suc (j + d) \<in> A}" "nths xs (A - {d}) = a @ nths b {j. Suc (j + d) \<in> A}"
    using assms(2) d by (auto simp: xs nths_append nths_Cons l r)
  then show ?thesis by (simp add: remove_at_def d)
qed

lemma remove_desc:
  assumes "sorted_wrt (>) ds" "\<forall>d\<in>set ds. d < length xs" "\<forall>d\<in>set ds. {0..d} \<subseteq> A"
  shows "fold remove_at ds (nths xs A) = nths xs (A - set ds)"
  using assms
proof (induction ds arbitrary: A)
  case (Cons d ds)
  have "remove_at d (nths xs A) = nths xs (A - {d})" using Cons.prems by (intro remove_at_nths) auto
  moreover have "\<forall>e\<in>set ds. {0..e} \<subseteq> A - {d}"
  proof
    fix e assume "e \<in> set ds"
    then have "e < d" "{0..e} \<subseteq> A" using Cons.prems(1,3) by auto
    then show "{0..e} \<subseteq> A - {d}" by (intro subset_Diff_insert [THEN iffD2] conjI) auto
  qed
  moreover have "A - {d} - set ds = A - set (d # ds)" by auto
  moreover have "sorted_wrt (>) ds" "\<forall>d\<in>set ds. d < length xs" using Cons.prems(1,2) by auto
  ultimately show ?case using Cons.IH [of "A - {d}"] by simp
qed simp

lemma remove_indices:
  assumes "\<forall>i\<in>set is. i < length xs"
  shows "fold remove_at (rev (remdups (sort is))) xs = nths xs (- set is)"
proof -
  have "sorted_wrt (<) (remdups (sort is))" by (simp add: strict_sorted_iff sorted_remdups)
  then have s: "sorted_wrt (>) (rev (remdups (sort is)))" by (simp add: sorted_wrt_rev)
  have "fold remove_at (rev (remdups (sort is))) (nths xs UNIV) = nths xs (UNIV - set (rev (remdups (sort is))))"
    by (rule remove_desc [OF s]) (use assms in auto)
  then show ?thesis by (simp add: Compl_eq_Diff_UNIV nths_all)
qed

section \<open>What is removed\<close>

text \<open>A turn is dropped by looking at it and at the one after it.\<close>

definition ok_response :: "turn \<Rightarrow> bool" where
  "ok_response t \<longleftrightarrow> is_heartbeat t \<and> tu_role t = ''assistant'' \<and> classify_response (tu_content t) = ResponseOk"

definition dropped :: "turn \<Rightarrow> turn list \<Rightarrow> bool" where
  "dropped t ts \<longleftrightarrow> ok_response t \<or>
     (is_heartbeat t \<and> tu_role t = ''user'' \<and>
      (case ts of [] \<Rightarrow> True | n # _ \<Rightarrow> \<not> is_heartbeat n \<or> ok_response n))"

fun strip_spec :: "turn list \<Rightarrow> turn list" where
  "strip_spec [] = []"
| "strip_spec (t # ts) = (if dropped t ts then strip_spec ts else t # strip_spec ts)"

lemma nths_spec: "nths h {i. i < length h \<and> \<not> dropped (h ! i) (drop (Suc i) h)} = strip_spec h"
proof (induction h)
  case (Cons t ts)
  have "{j. Suc j \<in> {i. i < length (t # ts) \<and> \<not> dropped ((t # ts) ! i) (drop (Suc i) (t # ts))}} =
      {i. i < length ts \<and> \<not> dropped (ts ! i) (drop (Suc i) ts)}" by auto
  then show ?case using Cons.IH by (simp add: nths_Cons)
qed simp

lemma marked:
  assumes "i < length h"
  shows "(\<exists>j<length h. i \<in> set (marks h j)) \<longleftrightarrow> dropped (h ! i) (drop (Suc i) h)"
proof -
  have m: "i \<in> set (marks h j) \<longleftrightarrow>
      (j = i \<and> (ok_response (h ! i) \<or> (is_heartbeat (h ! i) \<and> tu_role (h ! i) = ''user'' \<and>
         (length h \<le> i + 1 \<or> \<not> is_heartbeat (h ! (i + 1)))))) \<or>
      (j = i + 1 \<and> ok_response (h ! j) \<and> is_heartbeat (h ! i) \<and> tu_role (h ! i) = ''user'')" for j
    by (cases "j = i"; cases "j = i + 1") (auto simp: marks_def Let_def ok_response_def)
  have d: "(case drop (Suc i) h of [] \<Rightarrow> True | n # _ \<Rightarrow> \<not> is_heartbeat n \<or> ok_response n) \<longleftrightarrow>
      length h \<le> i + 1 \<or> \<not> is_heartbeat (h ! (i + 1)) \<or> ok_response (h ! (i + 1))"
  proof (cases "i + 1 < length h")
    case True
    then have "drop (Suc i) h = h ! (i + 1) # drop (Suc (Suc i)) h" by (simp add: Cons_nth_drop_Suc)
    then show ?thesis using True by simp
  qed simp
  have ex: "(\<exists>j<length h. (j = i \<and> P) \<or> (j = i + 1 \<and> ok_response (h ! j) \<and> Q)) \<longleftrightarrow>
      P \<or> (i + 1 < length h \<and> ok_response (h ! (i + 1)) \<and> Q)" for P Q
    using assms by auto
  show ?thesis unfolding m dropped_def d ex by auto
qed

lemma strip_is_spec: "strip_heartbeat_turns h = strip_spec h"
proof -
  let ?is = "concat (map (marks h) [0..<length h])"
  have mem: "i \<in> set ?is \<longleftrightarrow> (\<exists>j<length h. i \<in> set (marks h j))" for i by auto
  have bound: "\<forall>i\<in>set ?is. i < length h"
    by (auto simp: marks_def Let_def split: if_splits)
  have "nths h (- set ?is) = nths h {i. i < length h \<and> \<not> dropped (h ! i) (drop (Suc i) h)}"
    by (rule nths_cong) (use marked mem in blast)
  then show ?thesis
    unfolding strip_heartbeat_turns_def Let_def remove_indices [OF bound] by (simp add: nths_spec)
qed

section \<open>Properties\<close>

definition is_alert :: "turn \<Rightarrow> bool" where
  "is_alert t \<longleftrightarrow> is_heartbeat t \<and> tu_role t = ''assistant'' \<and> classify_response (tu_content t) \<noteq> ResponseOk"

lemma filter_strip:
  assumes "\<And>t ts. dropped t ts \<Longrightarrow> \<not> P t"
  shows "filter P (strip_spec h) = filter P h"
  by (induction h) (auto dest: assms)

lemma strip_spec_no_ok: "\<not> list_ex ok_response (strip_spec h)"
  by (induction h) (auto simp: dropped_def)

text \<open>
  Stripping the heartbeat turns of any history removes what is not actionable and nothing else:
  the regular turns stay, all of them and in order, so do the alerts, and no answer HEARTBEAT_OK is
  left.
\<close>

theorem strip_keeps_turns:
  "filter (\<lambda>t. \<not> is_heartbeat t) (strip_heartbeat_turns h) = filter (\<lambda>t. \<not> is_heartbeat t) h \<and>
   filter is_alert (strip_heartbeat_turns h) = filter is_alert h \<and>
   \<not> list_ex ok_response (strip_heartbeat_turns h)"
proof (intro conjI)
  show "filter (\<lambda>t. \<not> is_heartbeat t) (strip_heartbeat_turns h) = filter (\<lambda>t. \<not> is_heartbeat t) h"
    unfolding strip_is_spec by (rule filter_strip) (auto simp: dropped_def ok_response_def)
  show "filter is_alert (strip_heartbeat_turns h) = filter is_alert h"
    unfolding strip_is_spec by (rule filter_strip) (auto simp: dropped_def ok_response_def is_alert_def)
  show "\<not> list_ex ok_response (strip_heartbeat_turns h)"
    unfolding strip_is_spec by (rule strip_spec_no_ok)
qed

text \<open>A history as it is written: regular turns and heartbeat checks of a prompt and an answer.\<close>

datatype exchange = Plain string string | Check string string

fun turns_of :: "exchange \<Rightarrow> turn list" where
  "turns_of (Plain r c) = [regular_turn r c]"
| "turns_of (Check p a) = [heartbeat_turn ''user'' p, heartbeat_turn ''assistant'' a]"

fun actionable :: "exchange \<Rightarrow> bool" where
  "actionable (Plain r c) = True"
| "actionable (Check p a) = (classify_response a \<noteq> ResponseOk)"

text \<open>
  On a history of regular turns and complete heartbeat checks, the index-based removal is the
  removal of exactly the checks answered HEARTBEAT_OK, prompt and answer together.
\<close>

theorem strip_removes_checks:
  "strip_heartbeat_turns (concat (map turns_of xs)) = concat (map turns_of (filter actionable xs))"
proof -
  have "strip_spec (concat (map turns_of xs)) = concat (map turns_of (filter actionable xs))"
  proof (induction xs)
    case (Cons x xs)
    then show ?case
      by (cases x) (auto simp: dropped_def ok_response_def is_heartbeat_def regular_turn_def heartbeat_turn_def)
  qed simp
  then show ?thesis by (simp add: strip_is_spec)
qed

end
