(* ===== verification/MultiUser.thy ===== *)
theory MultiUser
  imports Channel Heartbeat
begin

text \<open>
  \<open>src/multi_user.rs\<close>: the paired users of the channels with their sessions and heartbeats, and the
  routing of group messages to agents. The order of a list of entries stands for the iteration order
  of the concurrent map.
\<close>

section \<open>Routing\<close>

record thread_context =
  tc_group_id :: string
  tc_thread_id :: "string option"
  tc_sender_id :: string

record agent_routing_rule =
  rr_group_id :: string
  rr_thread_id :: "string option"
  rr_agent_id :: string

record agent_router =
  ar_rules :: "agent_routing_rule list dict"
  ar_default_agent :: string

definition add_rule :: "agent_routing_rule \<Rightarrow> agent_routing_rule list dict \<Rightarrow> agent_routing_rule list dict" where
  "add_rule r m = dict_put (rr_group_id r) ((case dict_get m (rr_group_id r) of Some rs \<Rightarrow> rs | None \<Rightarrow> []) @ [r]) m"

definition ar_new :: "agent_routing_rule list \<Rightarrow> string \<Rightarrow> agent_router" where
  "ar_new rules d = \<lparr>ar_rules = fold add_rule rules [], ar_default_agent = d\<rparr>"

definition update_rules :: "agent_routing_rule list \<Rightarrow> agent_router \<Rightarrow> agent_router" where
  "update_rules rules r = r\<lparr>ar_rules := fold add_rule rules []\<rparr>"

definition route :: "agent_router \<Rightarrow> thread_context \<Rightarrow> string" where
  "route r c =
     (case dict_get (ar_rules r) (tc_group_id c) of
        None \<Rightarrow> ar_default_agent r
      | Some rules \<Rightarrow>
          (case find (\<lambda>q. rr_thread_id q \<noteq> None \<and> rr_thread_id q = tc_thread_id c) rules of
             Some q \<Rightarrow> rr_agent_id q
           | None \<Rightarrow>
               (case find (\<lambda>q. rr_thread_id q = None) rules of
                  Some q \<Rightarrow> rr_agent_id q | None \<Rightarrow> ar_default_agent r)))"

section \<open>Users and sessions\<close>

record paired_user =
  pu_user_id :: string
  pu_channel_type :: channel_type
  pu_paired_at :: int
  pu_display_name :: "string option"
  pu_heartbeat_enabled :: bool
  pu_heartbeat_interval_secs :: "64 word option"

definition pu_new :: "string \<Rightarrow> channel_type \<Rightarrow> int \<Rightarrow> paired_user" where
  "pu_new u ch now = \<lparr>pu_user_id = u, pu_channel_type = ch, pu_paired_at = now, pu_display_name = None,
     pu_heartbeat_enabled = True, pu_heartbeat_interval_secs = None\<rparr>"

record session_message =
  sm_role :: string
  sm_content :: string
  sm_timestamp :: int
  sm_thread_id :: "string option"

record session_handle =
  sh_user_id :: string
  sh_channel_type :: channel_type
  sh_history :: "session_message list"
  sh_created_at :: int
  sh_last_activity :: int

record multi_user_config =
  mc_enabled :: bool
  mc_default_agent :: string
  mc_routing_rules :: "agent_routing_rule list"
  mc_default_heartbeat_interval_secs :: "64 word"

definition default_multi_user_config :: multi_user_config where
  "default_multi_user_config = \<lparr>mc_enabled = True, mc_default_agent = ''default'', mc_routing_rules = [],
     mc_default_heartbeat_interval_secs = 3600\<rparr>"

record multi_user_manager =
  mu_paired_users :: "((channel_type \<times> string) \<times> paired_user) list"
  mu_sessions :: "session_handle dict"
  mu_heartbeat :: heartbeat_v2
  mu_router :: agent_router

datatype pairing_error = AlreadyPaired string | UserNotFound string | InvalidChannel

definition mu_new :: "multi_user_config \<Rightarrow> multi_user_manager" where
  "mu_new c = \<lparr>mu_paired_users = [], mu_sessions = [], mu_heartbeat = hb_new default_heartbeat_config,
     mu_router = ar_new (mc_routing_rules c) (mc_default_agent c)\<rparr>"

definition add_user :: "paired_user \<Rightarrow> int \<Rightarrow> multi_user_manager \<Rightarrow> multi_user_manager \<times> (pairing_error, unit) result" where
  "add_user user now m =
     (let key = (pu_channel_type user, pu_user_id user) in
      if dict_has (mu_paired_users m) key then (m, Err (AlreadyPaired (pu_user_id user)))
      else
        (let session = \<lparr>sh_user_id = pu_user_id user, sh_channel_type = pu_channel_type user, sh_history = [],
               sh_created_at = now, sh_last_activity = now\<rparr>
         in (m\<lparr>mu_paired_users := dict_put key user (mu_paired_users m),
               mu_sessions := dict_put (pu_user_id user) session (mu_sessions m)\<rparr>, Ok ())))"

definition remove_user :: "string \<Rightarrow> multi_user_manager \<Rightarrow> multi_user_manager \<times> (pairing_error, unit) result" where
  "remove_user u m =
     (case find (\<lambda>e. pu_user_id (snd e) = u) (mu_paired_users m) of
        None \<Rightarrow> (m, Err (UserNotFound u))
      | Some e \<Rightarrow>
          (m\<lparr>mu_paired_users := dict_del (fst e) (mu_paired_users m),
             mu_heartbeat := cancel_for_user u (mu_heartbeat m),
             mu_sessions := dict_del u (mu_sessions m)\<rparr>, Ok ()))"

definition users_for_channel :: "channel_type \<Rightarrow> multi_user_manager \<Rightarrow> paired_user list" where
  "users_for_channel ch m = map snd (filter (\<lambda>e. fst (fst e) = ch) (mu_paired_users m))"

definition get_user :: "channel_type \<Rightarrow> string \<Rightarrow> multi_user_manager \<Rightarrow> paired_user option" where
  "get_user ch u m = dict_get (mu_paired_users m) (ch, u)"

definition user_count :: "multi_user_manager \<Rightarrow> nat" where
  "user_count m = length (mu_paired_users m)"

definition resolve_session :: "channel_type \<Rightarrow> string \<Rightarrow> multi_user_manager \<Rightarrow> session_handle option" where
  "resolve_session ch u m =
     (if \<not> dict_has (mu_paired_users m) (ch, u) then None else dict_get (mu_sessions m) u)"

definition add_message_to_session ::
  "string \<Rightarrow> session_message \<Rightarrow> int \<Rightarrow> multi_user_manager \<Rightarrow> multi_user_manager \<times> (pairing_error, unit) result" where
  "add_message_to_session u msg now m =
     (case dict_get (mu_sessions m) u of
        None \<Rightarrow> (m, Err (UserNotFound u))
      | Some s \<Rightarrow> (m\<lparr>mu_sessions := dict_put u (s\<lparr>sh_last_activity := now, sh_history := sh_history s @ [msg]\<rparr>) (mu_sessions m)\<rparr>, Ok ()))"

definition get_session_history :: "string \<Rightarrow> multi_user_manager \<Rightarrow> session_message list option" where
  "get_session_history u m = map_option sh_history (dict_get (mu_sessions m) u)"

definition route_message :: "thread_context \<Rightarrow> multi_user_manager \<Rightarrow> string" where
  "route_message c m = route (mu_router m) c"

definition update_routing_rules :: "agent_routing_rule list \<Rightarrow> multi_user_manager \<Rightarrow> multi_user_manager" where
  "update_routing_rules rules m = m\<lparr>mu_router := update_rules rules (mu_router m)\<rparr>"

definition get_user_by_id :: "string \<Rightarrow> multi_user_manager \<Rightarrow> paired_user option" where
  "get_user_by_id u m = map_option snd (find (\<lambda>e. pu_user_id (snd e) = u) (mu_paired_users m))"

definition schedule_heartbeat_for_user :: "string \<Rightarrow> multi_user_manager \<Rightarrow> multi_user_manager" where
  "schedule_heartbeat_for_user u m =
     (case get_user_by_id u m of
        None \<Rightarrow> m
      | Some user \<Rightarrow>
          if pu_heartbeat_enabled user
          then m\<lparr>mu_heartbeat := schedule_for_user u
             (case pu_heartbeat_interval_secs user of Some s \<Rightarrow> from_secs s
              | None \<Rightarrow> from_secs (hc_default_interval_secs (hb_config (mu_heartbeat m)))) (mu_heartbeat m)\<rparr>
          else m)"

definition cancel_heartbeat_for_user :: "string \<Rightarrow> multi_user_manager \<Rightarrow> multi_user_manager" where
  "cancel_heartbeat_for_user u m = m\<lparr>mu_heartbeat := cancel_for_user u (mu_heartbeat m)\<rparr>"

definition has_heartbeat :: "string \<Rightarrow> multi_user_manager \<Rightarrow> bool" where
  "has_heartbeat u m = has_schedule (mu_heartbeat m) u"

section \<open>Operations of users\<close>

datatype mu_op = AddUser paired_user int | RemoveUser string | AddMessage string session_message int
  | ScheduleHeartbeat string | CancelHeartbeat string

fun op_user :: "mu_op \<Rightarrow> string" where
  "op_user (AddUser user now) = pu_user_id user"
| "op_user (RemoveUser u) = u"
| "op_user (AddMessage u msg now) = u"
| "op_user (ScheduleHeartbeat u) = u"
| "op_user (CancelHeartbeat u) = u"

fun mu_apply :: "mu_op \<Rightarrow> multi_user_manager \<Rightarrow> multi_user_manager" where
  "mu_apply (AddUser user now) m = fst (add_user user now m)"
| "mu_apply (RemoveUser u) m = fst (remove_user u m)"
| "mu_apply (AddMessage u msg now) m = fst (add_message_to_session u msg now m)"
| "mu_apply (ScheduleHeartbeat u) m = schedule_heartbeat_for_user u m"
| "mu_apply (CancelHeartbeat u) m = cancel_heartbeat_for_user u m"

text \<open>What there is of a user identifier: its pairings, its session and its schedule.\<close>

record user_view =
  uv_pairings :: "((channel_type \<times> string) \<times> paired_user) list"
  uv_session :: "session_handle option"
  uv_schedule :: "heartbeat_schedule option"

definition view :: "string \<Rightarrow> multi_user_manager \<Rightarrow> user_view" where
  "view u m = \<lparr>uv_pairings = filter (\<lambda>e. pu_user_id (snd e) = u) (mu_paired_users m),
     uv_session = dict_get (mu_sessions m) u, uv_schedule = dict_get (hb_schedules (mu_heartbeat m)) u\<rparr>"

definition mu_ok :: "multi_user_manager \<Rightarrow> bool" where
  "mu_ok m \<longleftrightarrow> list_all (\<lambda>e. fst e = (pu_channel_type (snd e), pu_user_id (snd e))) (mu_paired_users m) \<and>
     hb_config (mu_heartbeat m) = default_heartbeat_config"

lemma dict_put_new: "\<not> dict_has d k \<Longrightarrow> dict_put k v d = d @ [(k, v)]"
  by (induction d) (auto simp: dict_has_def split: if_splits)

lemma dict_del_mem: "e \<in> set (dict_del k d) \<Longrightarrow> e \<in> set d"
  by (induction d) (auto split: if_splits)

lemma filter_dict_del:
  "list_all (\<lambda>e. fst e = f (snd e)) d \<Longrightarrow>
     filter (\<lambda>e. P (snd e)) (dict_del k d) = dict_del k (filter (\<lambda>e. P (snd e)) d)"
  by (induction d) auto

lemma filter_dict_del_other:
  "(\<And>e. e \<in> set d \<Longrightarrow> P e \<Longrightarrow> fst e \<noteq> k) \<Longrightarrow> filter P (dict_del k d) = filter P d"
  by (induction d) fastforce+

lemma find_own_filter: "find P xs = find P (filter P xs)"
  by (induction xs) auto

lemma has_filter:
  "list_all (\<lambda>e. fst e = (pu_channel_type (snd e), pu_user_id (snd e))) d \<Longrightarrow>
     dict_has d (ch, u) \<longleftrightarrow> dict_has (filter (\<lambda>e. pu_user_id (snd e) = u) d) (ch, u)"
  by (induction d) (auto simp: dict_has_def split: if_splits)

lemma mu_ok_apply: "mu_ok m \<Longrightarrow> mu_ok (mu_apply op m)"
  by (cases op)
    (auto simp: mu_ok_def add_user_def remove_user_def add_message_to_session_def schedule_heartbeat_for_user_def
      cancel_heartbeat_for_user_def Let_def dict_put_new list_all_iff dest: dict_del_mem split: option.split)

interpretation mu: operation_machine "mu_new c" mu_apply mu_ok
  by unfold_locales (auto simp: mu_ok_apply, simp add: mu_ok_def mu_new_def hb_new_def)

lemma view_other:
  assumes "mu_ok m" "op_user op \<noteq> u"
  shows "view u (mu_apply op m) = view u m"
proof (cases op)
  case (RemoveUser v)
  show ?thesis
  proof (cases "find (\<lambda>e. pu_user_id (snd e) = v) (mu_paired_users m)")
    case (Some e)
    then have e: "e \<in> set (mu_paired_users m)" "pu_user_id (snd e) = v" by (auto simp: find_Some_iff)
    have key: "fst q = (pu_channel_type (snd q), pu_user_id (snd q))" if "q \<in> set (mu_paired_users m)" for q
      using assms(1) that by (simp add: mu_ok_def list_all_iff)
    have "snd (fst e) \<noteq> u" using key [OF e(1)] e(2) assms(2) by (simp add: RemoveUser)
    moreover have "snd (fst q) = pu_user_id (snd q)" if "q \<in> set (mu_paired_users m)" for q
      using key [OF that] by simp
    ultimately have "filter (\<lambda>e. pu_user_id (snd e) = u) (dict_del (fst e) (mu_paired_users m)) =
        filter (\<lambda>e. pu_user_id (snd e) = u) (mu_paired_users m)"
      by (intro filter_dict_del_other) metis
    then show ?thesis using assms(2) by (simp add: RemoveUser remove_user_def Some view_def get_cancel)
  qed (simp add: RemoveUser remove_user_def)
qed (use assms in \<open>auto simp: view_def add_user_def add_message_to_session_def schedule_heartbeat_for_user_def
      cancel_heartbeat_for_user_def Let_def dict_put_new get_cancel get_schedule split: option.split\<close>)

lemma view_same:
  assumes "mu_ok m" "mu_ok m'" "view (op_user op) m = view (op_user op) m'"
  shows "view (op_user op) (mu_apply op m) = view (op_user op) (mu_apply op m')"
proof -
  define u where "u = op_user op"
  let ?P = "\<lambda>e :: (channel_type \<times> string) \<times> paired_user. pu_user_id (snd e) = u"
  have p: "filter ?P (mu_paired_users m) = filter ?P (mu_paired_users m')"
    and s: "dict_get (mu_sessions m) u = dict_get (mu_sessions m') u"
    and h: "dict_get (hb_schedules (mu_heartbeat m)) u = dict_get (hb_schedules (mu_heartbeat m')) u"
    using assms(3) by (simp_all add: view_def u_def)
  have f: "find ?P (mu_paired_users m) = find ?P (mu_paired_users m')"
    using p find_own_filter [of ?P "mu_paired_users m"] find_own_filter [of ?P "mu_paired_users m'"] by simp
  have c: "hb_config (mu_heartbeat m) = hb_config (mu_heartbeat m')" using assms(1,2) by (simp add: mu_ok_def)
  have has: "dict_has (mu_paired_users m) (ch, u) \<longleftrightarrow> dict_has (filter ?P (mu_paired_users m)) (ch, u)" if "mu_ok m" for m ch
    using that by (intro has_filter) (simp add: mu_ok_def)
  show ?thesis
    unfolding u_def [symmetric]
  proof (cases op)
    case (AddUser user now)
    then have "pu_user_id user = u" by (simp add: u_def)
    then show "view u (mu_apply op m) = view u (mu_apply op m')"
      using p s h has [OF assms(1)] has [OF assms(2)]
      by (auto simp: AddUser view_def add_user_def Let_def dict_put_new)
  next
    case (RemoveUser v)
    then have v: "v = u" by (simp add: u_def)
    have l: "list_all (\<lambda>e. fst e = (pu_channel_type (snd e), pu_user_id (snd e))) (mu_paired_users m)"
      "list_all (\<lambda>e. fst e = (pu_channel_type (snd e), pu_user_id (snd e))) (mu_paired_users m')"
      using assms(1,2) by (simp_all add: mu_ok_def)
    show "view u (mu_apply op m) = view u (mu_apply op m')"
      using p s h f by (auto simp: RemoveUser v view_def remove_user_def get_cancel filter_dict_del [OF l(1), where P = "\<lambda>p. pu_user_id p = u"]
          filter_dict_del [OF l(2), where P = "\<lambda>p. pu_user_id p = u"] split: option.split)
  qed (use p s h f c in \<open>auto simp: u_def view_def add_message_to_session_def schedule_heartbeat_for_user_def
        cancel_heartbeat_for_user_def get_user_by_id_def get_cancel get_schedule split: option.split\<close>)
qed

lemma view_run:
  "\<lbrakk>mu_ok m; mu_ok m'; view u m = view u m'\<rbrakk> \<Longrightarrow>
     view u (fold mu_apply ops m) = view u (fold mu_apply (filter (\<lambda>op. op_user op = u) ops) m')"
proof (induction ops arbitrary: m m')
  case (Cons op ops)
  show ?case
  proof (cases "op_user op = u")
    case True
    then show ?thesis using Cons view_same [of m m' op] by (simp add: mu_ok_apply)
  next
    case False
    then show ?thesis using Cons.prems Cons.IH [of "mu_apply op m" m'] view_other [of m op u] by (simp add: mu_ok_apply)
  qed
qed simp

section \<open>Properties\<close>

text \<open>
  Users with different identifiers do not interfere: after any sequence of operations the pairings,
  the session with its history and the heartbeat schedule of a user are those that the user's own
  operations alone give.
\<close>

theorem users_do_not_interfere:
  "view u (fold mu_apply ops (mu_new c)) = view u (fold mu_apply (filter (\<lambda>op. op_user op = u) ops) (mu_new c))"
  by (rule view_run [OF mu.start_ok mu.start_ok]) (rule refl)

text \<open>
  Users of different channels with the same identifier do interfere: sessions are kept by the
  identifier alone, so pairing a second one replaces the history of the first, and removing that
  identifier leaves the other one paired without a session.
\<close>

theorem channels_share_sessions:
  "(let m1 = fold mu_apply [AddUser (pu_new ''7'' Telegram 0) 0, AddMessage ''7'' \<lparr>sm_role = ''user'', sm_content = ''x'',
       sm_timestamp = 1, sm_thread_id = None\<rparr> 1] (mu_new default_multi_user_config);
        m2 = mu_apply (AddUser (pu_new ''7'' Slack 2) 2) m1;
        m3 = mu_apply (RemoveUser ''7'') m2
    in map_option (length \<circ> sh_history) (resolve_session Telegram ''7'' m1) = Some 1 \<and>
       map_option (length \<circ> sh_history) (resolve_session Telegram ''7'' m2) = Some 0 \<and>
       get_user Slack ''7'' m3 \<noteq> None \<and> resolve_session Slack ''7'' m3 = None)"
  by (simp add: mu_new_def pu_new_def add_user_def remove_user_def add_message_to_session_def resolve_session_def
      get_user_def dict_has_def Let_def)

lemma rules_of_group:
  "(case dict_get (fold add_rule rules m) g of Some rs \<Rightarrow> rs | None \<Rightarrow> []) =
     (case dict_get m g of Some rs \<Rightarrow> rs | None \<Rightarrow> []) @ filter (\<lambda>q. rr_group_id q = g) rules"
  by (induction rules arbitrary: m) (auto simp: add_rule_def)

text \<open>
  A group message goes to the agent of the first rule for its group and thread, else of the first
  rule for the whole group, else to the default agent, in the order in which the rules are
  configured, however they are indexed.
\<close>

theorem route_by_first_rule:
  "route (ar_new rules d) c =
     (case find (\<lambda>q. rr_group_id q = tc_group_id c \<and> rr_thread_id q \<noteq> None \<and> rr_thread_id q = tc_thread_id c) rules of
        Some q \<Rightarrow> rr_agent_id q
      | None \<Rightarrow>
          (case find (\<lambda>q. rr_group_id q = tc_group_id c \<and> rr_thread_id q = None) rules of
             Some q \<Rightarrow> rr_agent_id q | None \<Rightarrow> d))"
proof -
  define g where "g = tc_group_id c"
  have f: "find P (filter (\<lambda>q. rr_group_id q = g) rules) = find (\<lambda>q. rr_group_id q = g \<and> P q) rules" for P
    by (induction rules) auto
  have "route (ar_new rules d) c =
     (case find (\<lambda>q. rr_thread_id q \<noteq> None \<and> rr_thread_id q = tc_thread_id c) (filter (\<lambda>q. rr_group_id q = g) rules) of
        Some q \<Rightarrow> rr_agent_id q
      | None \<Rightarrow>
          (case find (\<lambda>q. rr_thread_id q = None) (filter (\<lambda>q. rr_group_id q = g) rules) of
             Some q \<Rightarrow> rr_agent_id q | None \<Rightarrow> d))"
    using rules_of_group [of rules "[]" g]
    by (cases "dict_get (fold add_rule rules []) g") (simp_all add: route_def ar_new_def g_def split: option.split)
  then show ?thesis unfolding f unfolding g_def .
qed

end
