(* ===== verification/FallbackChain.thy ===== *)
theory FallbackChain
  imports ModelFactory ModelConfig
begin

text \<open>
  \<open>src/fallback_chain.rs\<close> and its use at start-up in \<open>src/gateway.rs\<close>: the chain of models that are
  tried in order. A model is the request its client was built from; the call made with a model is a
  function that may change the outside world and fails with a printable error.
\<close>

section \<open>The chain\<close>

record 'm fallback_model_chain =
  fc_models :: "'m list"
  fc_model_ids :: "string list"

record 'm chain_build_result =
  br_chain :: "'m fallback_model_chain"
  br_failed :: "(string \<times> string) list"

fun build_models ::
  "(string \<Rightarrow> (string, 'm) result) \<Rightarrow> string list \<Rightarrow> 'm list \<times> string list \<times> (string \<times> string) list" where
  "build_models create [] = ([], [], [])"
| "build_models create (i # is) =
     (case build_models create is of (ms, ids, failed) \<Rightarrow>
        (case create i of Ok m \<Rightarrow> (m # ms, i # ids, failed) | Err e \<Rightarrow> (ms, ids, (i, e) # failed)))"

datatype build_error = AllModelsFailed "string list"

definition build_chain :: "(string \<Rightarrow> (string, 'm) result) \<Rightarrow> string list \<Rightarrow> (build_error, 'm chain_build_result) result" where
  "build_chain create model_ids =
     (case build_models create model_ids of (models, valid_ids, failed) \<Rightarrow>
        if models = [] then Err (AllModelsFailed model_ids)
        else Ok \<lparr>br_chain = \<lparr>fc_models = models, fc_model_ids = valid_ids\<rparr>, br_failed = failed\<rparr>)"

definition single_chain :: "'m \<Rightarrow> string \<Rightarrow> 'm fallback_model_chain" where
  "single_chain m i = \<lparr>fc_models = [m], fc_model_ids = [i]\<rparr>"

definition chain_primary :: "'m fallback_model_chain \<Rightarrow> 'm" where
  "chain_primary c = fc_models c ! 0"

definition primary_id :: "'m fallback_model_chain \<Rightarrow> string" where
  "primary_id c = fc_model_ids c ! 0"

definition chain_len :: "'m fallback_model_chain \<Rightarrow> nat" where
  "chain_len c = length (fc_models c)"

definition has_fallbacks :: "'m fallback_model_chain \<Rightarrow> bool" where
  "has_fallbacks c \<longleftrightarrow> length (fc_models c) > 1"

datatype fallback_outcome = PrimarySuccess | FallbackUsed string string nat string
  | AllFailed "(string \<times> string) list"

definition is_degraded :: "fallback_outcome \<Rightarrow> bool" where
  "is_degraded oc = (case oc of FallbackUsed _ _ _ _ \<Rightarrow> True | _ \<Rightarrow> False)"

definition is_failed :: "fallback_outcome \<Rightarrow> bool" where
  "is_failed oc = (case oc of AllFailed _ \<Rightarrow> True | _ \<Rightarrow> False)"

fun run_models ::
  "'m fallback_model_chain \<Rightarrow> ('m \<Rightarrow> 'w \<Rightarrow> 'w \<times> (string, 't) result) \<Rightarrow> nat \<Rightarrow> 'm list \<Rightarrow> (string \<times> string) list \<Rightarrow> 'w
     \<Rightarrow> 'w \<times> ((string \<times> string) list, 't \<times> fallback_outcome) result" where
  "run_models c request_fn idx [] errors w = (w, Err errors)"
| "run_models c request_fn idx (m # ms) errors w =
     (case request_fn m w of
        (w', Ok response) \<Rightarrow>
          (w', Ok (response, if idx = 0 then PrimarySuccess
             else FallbackUsed (fc_model_ids c ! 0) (fc_model_ids c ! idx) idx (snd (errors ! 0))))
      | (w', Err e) \<Rightarrow> run_models c request_fn (idx + 1) ms (errors @ [(fc_model_ids c ! idx, e)]) w')"

definition run_with_fallback ::
  "'m fallback_model_chain \<Rightarrow> ('m \<Rightarrow> 'w \<Rightarrow> 'w \<times> (string, 't) result) \<Rightarrow> 'w
     \<Rightarrow> 'w \<times> ((string \<times> string) list, 't \<times> fallback_outcome) result" where
  "run_with_fallback c request_fn w = run_models c request_fn 0 (fc_models c) [] w"

section \<open>Start-up\<close>

text \<open>The chain that the gateway starts with.\<close>

definition startup_chain :: "env \<Rightarrow> category_config \<Rightarrow> (string + build_error, client_request fallback_model_chain) result" where
  "startup_chain env cfg =
     (let model_ids = (case resolve_chain cfg ''primary'' of Some c \<Rightarrow> c | None \<Rightarrow> [spec_primary (cc_primary cfg)])
      in if length model_ids > 1
         then (case build_chain (create_model env) model_ids of Ok r \<Rightarrow> Ok (br_chain r) | Err e \<Rightarrow> Err (Inr e))
         else (let model_id = spec_primary (cc_primary cfg)
               in case create_model env model_id of Ok m \<Rightarrow> Ok (single_chain m model_id) | Err e \<Rightarrow> Err (Inl e)))"

section \<open>Lemmas\<close>

lemma build_models_fields:
  "build_models create is = (ms, ids, failed) \<Longrightarrow>
     ids = filter (\<lambda>i. is_ok (create i)) is \<and> map create ids = map Ok ms \<and>
     map (\<lambda>f. (fst f, Err (snd f))) failed = map (\<lambda>i. (i, create i)) (filter (\<lambda>i. \<not> is_ok (create i)) is)"
proof (induction "is" arbitrary: ms ids failed)
  case (Cons i "is")
  then show ?case by (cases "create i") (auto simp: is_ok_def split: prod.splits)
qed simp

text \<open>The attempts on the models before index \<open>k\<close>, all failing, and the world they leave.\<close>

fun attempts :: "('m \<Rightarrow> 'w \<Rightarrow> 'w \<times> (string, 't) result) \<Rightarrow> 'm list \<Rightarrow> 'w \<Rightarrow> (string list \<times> 'w) option" where
  "attempts f [] w = Some ([], w)"
| "attempts f (m # ms) w =
     (case f m w of (w', Ok _) \<Rightarrow> None
      | (w', Err e) \<Rightarrow> map_option (\<lambda>(es, w''). (e # es, w'')) (attempts f ms w'))"

lemma attempts_length: "attempts f ms w = Some (es, w') \<Longrightarrow> length es = length ms"
  by (induction ms arbitrary: w es) (auto split: prod.splits sum.splits)

lemma run_models_all_fail:
  "\<lbrakk>attempts f ms w = Some (es, w'); idx + length ms \<le> length (fc_model_ids c)\<rbrakk> \<Longrightarrow>
     run_models c f idx ms errors w = (w', Err (errors @ zip (take (length ms) (drop idx (fc_model_ids c))) es))"
proof (induction ms arbitrary: idx errors w es)
  case (Cons m ms)
  obtain w1 e es' where f: "f m w = (w1, Err e)" and a: "attempts f ms w1 = Some (es', w')" and es: "es = e # es'"
    using Cons.prems(1) by (auto split: prod.splits sum.splits)
  have d: "drop idx (fc_model_ids c) = fc_model_ids c ! idx # drop (Suc idx) (fc_model_ids c)"
    using Cons.prems(2) by (simp add: Cons_nth_drop_Suc)
  show ?case using Cons.IH [OF a] Cons.prems(2) by (simp add: f es d)
qed simp

lemma run_models_success:
  "\<lbrakk>attempts f ms w = Some (es, w1); f m w1 = (w2, Ok r); idx + length ms < length (fc_model_ids c)\<rbrakk> \<Longrightarrow>
     run_models c f idx (ms @ m # rest) errors w = (w2, Ok (r,
       if idx + length ms = 0 then PrimarySuccess
       else FallbackUsed (fc_model_ids c ! 0) (fc_model_ids c ! (idx + length ms)) (idx + length ms)
         (snd ((errors @ zip (take (length ms) (drop idx (fc_model_ids c))) es) ! 0))))"
proof (induction ms arbitrary: idx errors w es)
  case (Cons m' ms)
  obtain w0 e es' where f: "f m' w = (w0, Err e)" and a: "attempts f ms w0 = Some (es', w1)" and es: "es = e # es'"
    using Cons.prems(1) by (auto split: prod.splits sum.splits)
  have d: "drop idx (fc_model_ids c) = fc_model_ids c ! idx # drop (Suc idx) (fc_model_ids c)"
    using Cons.prems(3) by (simp add: Cons_nth_drop_Suc)
  show ?case using Cons.IH [OF a Cons.prems(2), of "Suc idx" "errors @ [(fc_model_ids c ! idx, e)]"] Cons.prems(3)
    by (simp add: f es d)
qed simp

lemma first_success:
  "attempts f ms w = None \<Longrightarrow> \<exists>pre m rest es w1 w2 r. ms = pre @ m # rest \<and> attempts f pre w = Some (es, w1) \<and> f m w1 = (w2, Ok r)"
proof (induction ms arbitrary: w)
  case (Cons m ms)
  show ?case
  proof (cases "f m w")
    case (Pair w1 r)
    show ?thesis
    proof (cases r)
      case (Inr x)
      then show ?thesis using Pair by (intro exI [of _ "[]"] exI [of _ m] exI [of _ ms]) simp
    next
      case (Inl e)
      then have "attempts f ms w1 = None" using Cons.prems Pair by simp
      then obtain pre m' rest es w2 w3 r' where "ms = pre @ m' # rest" "attempts f pre w1 = Some (es, w2)" "f m' w2 = (w3, Ok r')"
        using Cons.IH by blast
      then show ?thesis using Pair Inl
        by (intro exI [of _ "m # pre"] exI [of _ m'] exI [of _ rest]) simp
    qed
  qed
qed simp

section \<open>Properties\<close>

text \<open>
  A chain that was built tries its models in the configured order, those that could not be created
  left out, and stops at the first success: when the ones before it have failed, the outcome is that
  of the first model that answers, with the error of the primary model if it was another one; when
  all fail, the result lists each model with its error.
\<close>

theorem first_success_wins:
  assumes "build_chain create ids = Ok b" "c = br_chain b"
  shows "fc_model_ids c = filter (\<lambda>i. is_ok (create i)) ids \<and> map create (fc_model_ids c) = map Ok (fc_models c) \<and>
    ((\<exists>es w'. attempts f (fc_models c) w = Some (es, w') \<and> run_with_fallback c f w = (w', Err (zip (fc_model_ids c) es))) \<or>
     (\<exists>k es w1 w2 r. k < chain_len c \<and> attempts f (take k (fc_models c)) w = Some (es, w1) \<and>
        f (fc_models c ! k) w1 = (w2, Ok r) \<and>
        run_with_fallback c f w = (w2, Ok (r, if k = 0 then PrimarySuccess
          else FallbackUsed (primary_id c) (fc_model_ids c ! k) k (hd es)))))"
proof -
  have ids: "fc_model_ids c = filter (\<lambda>i. is_ok (create i)) ids" "map create (fc_model_ids c) = map Ok (fc_models c)"
    using assms build_models_fields [of create ids] by (auto simp: build_chain_def split: prod.splits if_splits)
  have len: "length (fc_model_ids c) = length (fc_models c)" using ids(2) by (metis length_map)
  show ?thesis
  proof (cases "attempts f (fc_models c) w")
    case (Some a)
    obtain es w' where a: "a = (es, w')" by (cases a)
    have "run_with_fallback c f w = (w', Err (zip (fc_model_ids c) es))"
      using run_models_all_fail [of f "fc_models c" w es w' 0 c "[]"] Some by (simp add: a len run_with_fallback_def)
    then show ?thesis using ids Some a by blast
  next
    case None
    then obtain pre m rest es w1 w2 r where s: "fc_models c = pre @ m # rest" "attempts f pre w = Some (es, w1)" "f m w1 = (w2, Ok r)"
      using first_success [OF None] by (elim exE conjE) (rule that)
    have "length pre < length (fc_model_ids c)" by (simp add: len s(1))
    note run = run_models_success [OF s(2,3), of 0 c rest "[]"]
    have "run_with_fallback c f w = (w2, Ok (r, if length pre = 0 then PrimarySuccess
          else FallbackUsed (primary_id c) (fc_model_ids c ! length pre) (length pre) (hd es)))"
    proof (cases pre)
      case Nil
      then show ?thesis using run len s(1) by (simp add: run_with_fallback_def)
    next
      case (Cons p ps)
      obtain e es' where es: "es = e # es'" using attempts_length [OF s(2)] Cons by (cases es) auto
      obtain i "is" where "fc_model_ids c = i # is" using len s(1) Cons by (cases "fc_model_ids c") auto
      then show ?thesis using run len s(1) by (simp add: run_with_fallback_def primary_id_def es Cons)
    qed
    moreover have "take (length pre) (fc_models c) = pre" "fc_models c ! length pre = m" by (simp_all add: s(1))
    moreover have "length pre < chain_len c" by (simp add: chain_len_def s(1))
    ultimately show ?thesis using ids s(2,3) by metis
  qed
qed

text \<open>
  The gateway never starts with a fallback model: resolve_chain answers None for the primary
  category, so whatever fallbacks the configuration lists, the chain consists of the primary model
  alone.
\<close>

theorem configured_fallbacks_ignored:
  assumes "startup_chain env cfg = Ok c"
  shows "fc_model_ids c = [spec_primary (cc_primary cfg)] \<and> \<not> has_fallbacks c"
  using assms
  by (auto simp: startup_chain_def resolve_chain_def non_empty_def single_chain_def has_fallbacks_def Let_def split: sum.splits)

text \<open>The configuration of the documentation, with keys for both providers.\<close>

definition documented_config :: category_config where
  "documented_config = only_primary (WithFallbacks ''anthropic/claude-sonnet-4'' [''google/gemini-2.5-flash''])"

theorem configured_fallbacks_ignored_witness:
  "\<exists>c. startup_chain (\<lambda>v. Some ''k'') documented_config = Ok c \<and> fc_model_ids c = [''anthropic/claude-sonnet-4'']"
proof -
  have "is_ok (startup_chain (\<lambda>v. Some ''k'') documented_config)"
    by (simp add: startup_chain_def resolve_chain_def non_empty_def documented_config_def only_primary_def create_model_def
        parse_model_id_def create_model_for_def create_defs is_ok_def Let_def)
  then obtain c where c: "startup_chain (\<lambda>v. Some ''k'') documented_config = Ok c" by (auto simp: is_ok_def split: sum.splits)
  then show ?thesis
    using configured_fallbacks_ignored [OF c] by (simp add: documented_config_def only_primary_def)
qed

theorem first_success_wins_witness:
  "run_with_fallback \<lparr>fc_models = [1, 2 :: nat], fc_model_ids = [''a'', ''b'']\<rparr>
     (\<lambda>m w. (w, if m = 2 then Ok () else Err ''down'')) () = ((), Ok ((), FallbackUsed ''a'' ''b'' 1 ''down''))"
proof -
  let ?create = "\<lambda>i. if i = ''a'' then Ok 1 else if i = ''b'' then Ok (2 :: nat) else Err ''no key''"
  let ?c = "\<lparr>fc_models = [1, 2 :: nat], fc_model_ids = [''a'', ''b'']\<rparr>"
  have "build_chain ?create [''a'', ''x'', ''b''] = Ok \<lparr>br_chain = ?c, br_failed = [(''x'', ''no key'')]\<rparr>"
    by (simp add: build_chain_def)
  from first_success_wins [OF this, of ?c "\<lambda>m w. (w, if m = 2 then Ok () else Err ''down'')" "()"]
  show ?thesis by (simp add: run_with_fallback_def)
qed

end
