(* ===== verification/Cron.thy ===== *)
theory Cron
  imports Channel WorkflowActions CodingModels
begin

text \<open>
  \<open>src/cron.rs\<close> and the scheduled task tools of \<open>src/executable_tools.rs\<close>: the scheduled jobs with
  the loops they run in, hot reload, what a firing job sends, and the tools that list, create, cancel
  and delete tasks. A loop ends when its token is cancelled; tokens are numbered.
\<close>

section \<open>Jobs\<close>

record cron_delivery =
  cd_channel :: string
  cd_target :: string

datatype cron_job_target = SystemAgent | CustomAgent string | CodingAgent string

record cron_job =
  cj_id :: string
  cj_schedule :: string
  cj_message :: string
  cj_deliver_to :: "cron_delivery option"
  cj_suppress_keyword :: "string option"
  cj_target :: "cron_job_target option"
  cj_workspace :: "string option"

datatype cron_job_status = Active | Cancelled

record cron_job_state =
  js_job :: cron_job
  js_status :: cron_job_status
  js_token :: nat

record cron_scheduler =
  sch_jobs :: "cron_job_state dict"
  sch_delegator :: bool
  sch_loops :: "(nat \<times> cron_job) list"
  sch_cancelled :: "nat list"
  sch_next_token :: nat

definition sch_new :: "bool \<Rightarrow> cron_scheduler" where
  "sch_new delegator = \<lparr>sch_jobs = [], sch_delegator = delegator, sch_loops = [], sch_cancelled = [], sch_next_token = 0\<rparr>"

definition cancel_job :: "string \<Rightarrow> cron_scheduler \<Rightarrow> cron_scheduler" where
  "cancel_job i s =
     (case dict_get (sch_jobs s) i of
        None \<Rightarrow> s
      | Some st \<Rightarrow> s\<lparr>sch_jobs := dict_put i (st\<lparr>js_status := Cancelled\<rparr>) (sch_jobs s),
          sch_cancelled := js_token st # sch_cancelled s\<rparr>)"

definition schedule_job :: "cron_job \<Rightarrow> cron_scheduler \<Rightarrow> cron_scheduler" where
  "schedule_job job s =
     (let s1 = cancel_job (cj_id job) s; t = sch_next_token s1
      in s1\<lparr>sch_jobs := dict_put (cj_id job) \<lparr>js_job = job, js_status = Active, js_token = t\<rparr> (sch_jobs s1),
            sch_loops := sch_loops s1 @ [(t, job)], sch_next_token := t + 1\<rparr>)"

definition remove_job :: "string \<Rightarrow> cron_scheduler \<Rightarrow> cron_scheduler" where
  "remove_job i s = (let s1 = cancel_job i s in s1\<lparr>sch_jobs := dict_del i (sch_jobs s1)\<rparr>)"

text \<open>The two loops of \<open>reconcile\<close>.\<close>

definition drop_absent :: "cron_job list \<Rightarrow> string \<Rightarrow> cron_scheduler \<Rightarrow> cron_scheduler" where
  "drop_absent new_jobs i s = (if i \<notin> cj_id ` set new_jobs \<and> i \<noteq> ''heartbeat'' then remove_job i s else s)"

definition add_or_update :: "cron_job \<Rightarrow> cron_scheduler \<Rightarrow> cron_scheduler" where
  "add_or_update job s =
     (let needs_update = (case dict_get (sch_jobs s) (cj_id job) of
            None \<Rightarrow> True | Some existing \<Rightarrow> js_job existing \<noteq> job \<or> js_status existing = Cancelled)
      in if needs_update then schedule_job job s else s)"

definition reconcile :: "cron_job list \<Rightarrow> cron_scheduler \<Rightarrow> cron_scheduler" where
  "reconcile new_jobs s =
     fold add_or_update new_jobs (fold (drop_absent new_jobs) (dict_keys (sch_jobs s)) s)"

definition active_job_ids :: "cron_scheduler \<Rightarrow> string list" where
  "active_job_ids s = map fst (filter (\<lambda>e. js_status (snd e) = Active) (sch_jobs s))"

definition job_count :: "cron_scheduler \<Rightarrow> nat" where
  "job_count s = length (sch_jobs s)"

definition is_active :: "cron_scheduler \<Rightarrow> string \<Rightarrow> bool" where
  "is_active s i = (case dict_get (sch_jobs s) i of Some st \<Rightarrow> js_status st = Active | None \<Rightarrow> False)"

definition list_all_jobs :: "cron_scheduler \<Rightarrow> (cron_job \<times> cron_job_status) list" where
  "list_all_jobs s = map (\<lambda>e. (js_job (snd e), js_status (snd e))) (sch_jobs s)"

section \<open>Firing\<close>

datatype cron_message_kind = DirectMessage string | AgentPrompt string

definition parse_message :: "string \<Rightarrow> cron_message_kind" where
  "parse_message m = (case strip_prefix ''ask:'' m of Some p \<Rightarrow> AgentPrompt (trim p) | None \<Rightarrow> DirectMessage m)"

definition build_inbound_message :: "string \<Rightarrow> int \<Rightarrow> cron_job \<Rightarrow> inbound_message" where
  "build_inbound_message uuid now job =
     (let target_channel = (case cj_deliver_to job of Some d \<Rightarrow> cd_channel d | None \<Rightarrow> ''webhook'');
          ch = (if target_channel = ''telegram'' then Telegram else if target_channel = ''slack'' then Slack
                else if target_channel = ''discord'' then Discord else Webhook);
          target = (case cj_deliver_to job of Some d \<Rightarrow> cd_target d | None \<Rightarrow> []);
          meta1 = (if target \<noteq> [] then [(''cron_target'', JStr target)] else []);
          meta2 = (case cj_deliver_to job of Some d \<Rightarrow> dict_put ''cron_channel'' (JStr (cd_channel d)) meta1 | None \<Rightarrow> meta1);
          (txt, kind) = (case parse_message (cj_message job) of
             AgentPrompt p \<Rightarrow> (p, ''agent_prompt'') | DirectMessage m \<Rightarrow> (m, ''direct_message''))
      in \<lparr>im_channel_type = ch, im_account_id = ''default'', im_sender_id = ''cron:'' @ cj_id job,
          im_sender_name = Some (''cron:'' @ cj_id job), im_text = txt, im_is_group = False, im_group_id = None,
          im_is_mention = False, im_platform_message_id = uuid,
          im_metadata = dict_put ''cron_message_kind'' (JStr kind) meta2,
          im_source = FromCron (cj_id job), im_timestamp = now\<rparr>)"

datatype firing = SendInbound inbound_message | SkipNoDelegator | Delegate string task_request

definition fire_coding_agent_target :: "bool \<Rightarrow> cron_job \<Rightarrow> string \<Rightarrow> firing" where
  "fire_coding_agent_target delegator job agent_id =
     (if \<not> delegator then SkipNoDelegator
      else Delegate agent_id \<lparr>tr_description = cj_message job, tr_trigger = FromCronJob (cj_id job),
        tr_workspace = cj_workspace job, tr_file_context = None,
        tr_reply_to = (case cj_deliver_to job of
           Some d \<Rightarrow> \<lparr>rt_channel_type = cd_channel d, rt_channel_id = cd_target d, rt_message_id = None\<rparr>
         | None \<Rightarrow> \<lparr>rt_channel_type = ''webhook'', rt_channel_id = [], rt_message_id = None\<rparr>)\<rparr>)"

text \<open>What a loop does when its interval has passed.\<close>

definition fire_job :: "bool \<Rightarrow> string \<Rightarrow> int \<Rightarrow> cron_job \<Rightarrow> firing" where
  "fire_job delegator uuid now job =
     (case cj_target job of
        Some (CodingAgent a) \<Rightarrow> fire_coding_agent_target delegator job a
      | _ \<Rightarrow> SendInbound (build_inbound_message uuid now job))"

definition parse_unit :: "string \<Rightarrow> 64 word \<Rightarrow> string \<Rightarrow> duration option" where
  "parse_unit suf factor rest =
     (case strip_suffix suf rest of
        None \<Rightarrow> None | Some n \<Rightarrow> map_option (\<lambda>n. from_secs (word_of_nat n * factor)) (parse_u64 (trim n)))"

definition parse_schedule_interval :: "string \<Rightarrow> duration" where
  "parse_schedule_interval schedule =
     (case strip_prefix ''@every '' schedule of
        None \<Rightarrow> from_secs 3600
      | Some r \<Rightarrow>
          (let rest = trim r in
           case parse_unit ''s'' 1 rest of Some d \<Rightarrow> d
           | None \<Rightarrow> (case parse_unit ''m'' 60 rest of Some d \<Rightarrow> d
             | None \<Rightarrow> (case parse_unit ''h'' 3600 rest of Some d \<Rightarrow> d | None \<Rightarrow> from_secs 3600))))"

section \<open>Start-up\<close>

definition heartbeat_job :: "string \<Rightarrow> cron_job" where
  "heartbeat_job content = \<lparr>cj_id = ''heartbeat'', cj_schedule = ''@every 1h'',
     cj_message = ''ask:'' @ content @ [CHR 0x0A, CHR 0x0A] @ ''If all work is complete, reply with just HEARTBEAT_OK.'',
     cj_deliver_to = Some \<lparr>cd_channel = ''telegram'', cd_target = ''last''\<rparr>,
     cj_suppress_keyword = Some ''HEARTBEAT_OK'', cj_target = None, cj_workspace = None\<rparr>"

definition start_scheduler :: "bool \<Rightarrow> string \<Rightarrow> cron_job list \<Rightarrow> cron_scheduler" where
  "start_scheduler delegator content jobs =
     (let s = sch_new delegator;
          s1 = (if ''heartbeat'' \<in> cj_id ` set jobs then s else schedule_job (heartbeat_job content) s)
      in fold schedule_job jobs s1)"

section \<open>Task tools\<close>

text \<open>The scheduler behind its lock, the jobs of the configuration in memory and of the file.\<close>

record task_state =
  ts_scheduler :: "cron_scheduler option"
  ts_jobs :: "cron_job list"
  ts_file :: "cron_job list"

definition trimmed_arg :: "json \<Rightarrow> string \<Rightarrow> string" where
  "trimmed_arg args k = trim (str_param args k [])"

definition task_delivery :: "json \<Rightarrow> cron_delivery option" where
  "task_delivery args =
     (case jget args ''delivery'' of
        None \<Rightarrow> None
      | Some d \<Rightarrow>
          (case (Option.bind (jget d ''channel'') as_str, Option.bind (jget d ''target'') as_str) of
             (Some ch, Some t) \<Rightarrow> if ch = [] then None else Some \<lparr>cd_channel = ch, cd_target = t\<rparr>
           | _ \<Rightarrow> None))"

text \<open>Persisting and hot reload, the common end of the tools that change the configuration.\<close>

definition store_jobs :: "string option \<Rightarrow> cron_job list \<Rightarrow> json \<Rightarrow> task_state \<Rightarrow> task_state \<times> (string, json) result" where
  "store_jobs write_error jobs answer t =
     (case write_error of
        Some e \<Rightarrow> (t, Err (''Write error: '' @ e))
      | None \<Rightarrow> (t\<lparr>ts_file := jobs, ts_jobs := jobs, ts_scheduler := map_option (reconcile jobs) (ts_scheduler t)\<rparr>, Ok answer))"

definition task_create :: "string option \<Rightarrow> json \<Rightarrow> task_state \<Rightarrow> task_state \<times> (string, json) result" where
  "task_create write_error args t =
     (let i = trimmed_arg args ''id''; sched = trimmed_arg args ''schedule''; msg = trimmed_arg args ''message''
      in if i = [] \<or> sched = [] \<or> msg = []
         then (t, Err (''Required fields: '' @ [CHR 0x27] @ ''id'' @ [CHR 0x27] @ '', '' @ [CHR 0x27] @ ''schedule'' @ [CHR 0x27]
            @ '', '' @ [CHR 0x27] @ ''message'' @ [CHR 0x27]))
         else if i \<in> cj_id ` set (ts_jobs t) then (t, Err (''Task with ID '' @ [CHR 0x27] @ i @ [CHR 0x27] @ '' already exists''))
         else
           (let job = \<lparr>cj_id = i, cj_schedule = sched, cj_message = msg, cj_deliver_to = task_delivery args,
                  cj_suppress_keyword = (case Option.bind (jget args ''suppress_keyword'') as_str of
                    Some k \<Rightarrow> if k = [] then None else Some k | None \<Rightarrow> None),
                  cj_target = None, cj_workspace = None\<rparr>
            in store_jobs write_error (ts_jobs t @ [job])
                 (JObj [(''created'', JBool True), (''id'', JStr i), (''schedule'', JStr sched), (''message'', JStr msg)]) t))"

definition task_cancel :: "json \<Rightarrow> task_state \<Rightarrow> task_state \<times> (string, json) result" where
  "task_cancel args t =
     (let i = trimmed_arg args ''id''
      in if i = [] then (t, Err ([CHR 0x27] @ ''id'' @ [CHR 0x27] @ '' is required''))
         else (t\<lparr>ts_scheduler := map_option (cancel_job i) (ts_scheduler t)\<rparr>,
               Ok (JObj [(''cancelled'', JBool True), (''id'', JStr i)])))"

definition task_delete :: "string option \<Rightarrow> json \<Rightarrow> task_state \<Rightarrow> task_state \<times> (string, json) result" where
  "task_delete write_error args t =
     (let i = trimmed_arg args ''id''; jobs = filter (\<lambda>j. cj_id j \<noteq> i) (ts_jobs t)
      in if i = [] then (t, Err ([CHR 0x27] @ ''id'' @ [CHR 0x27] @ '' is required''))
         else if length jobs = length (ts_jobs t) then (t, Err (''Task '' @ [CHR 0x27] @ i @ [CHR 0x27] @ '' not found''))
         else store_jobs write_error jobs (JObj [(''deleted'', JBool True), (''id'', JStr i)]) t)"

definition show_status :: "cron_job_status \<Rightarrow> string" where
  "show_status st = (case st of Active \<Rightarrow> ''Active'' | Cancelled \<Rightarrow> ''Cancelled'')"

definition task_list :: "task_state \<Rightarrow> json" where
  "task_list t =
     (let jobs = (case ts_scheduler t of None \<Rightarrow> [] | Some s \<Rightarrow> map (\<lambda>(job, st). JObj
           [(''id'', JStr (cj_id job)), (''schedule'', JStr (cj_schedule job)), (''message'', JStr (cj_message job)),
            (''delivery'', case cj_deliver_to job of None \<Rightarrow> JNull
               | Some d \<Rightarrow> JObj [(''channel'', JStr (cd_channel d)), (''target'', JStr (cd_target d))]),
            (''status'', JStr (show_status st))]) (list_all_jobs s))
      in JObj [(''tasks'', JArr jobs), (''count'', JInt (int (length jobs)))])"

section \<open>Loops and jobs\<close>

text \<open>The loops that still run, and the job an id is scheduled with when it is active.\<close>

definition live_loops :: "cron_scheduler \<Rightarrow> (nat \<times> cron_job) list" where
  "live_loops s = filter (\<lambda>l. fst l \<notin> set (sch_cancelled s)) (sch_loops s)"

definition active_job :: "cron_scheduler \<Rightarrow> string \<Rightarrow> cron_job option" where
  "active_job s i = (case dict_get (sch_jobs s) i of
     Some st \<Rightarrow> if js_status st = Active then Some (js_job st) else None | None \<Rightarrow> None)"

lemma is_active_iff: "is_active s i \<longleftrightarrow> active_job s i \<noteq> None"
  by (simp add: is_active_def active_job_def split: option.split)

text \<open>
  Every entry is filed under its job's id, tokens are fresh, and the running loops are those of the
  active entries.
\<close>

definition loops_agree :: "cron_scheduler \<Rightarrow> bool" where
  "loops_agree s \<longleftrightarrow> (\<forall>t j. (t, j) \<in> set (live_loops s) \<longleftrightarrow>
     (\<exists>i st. dict_get (sch_jobs s) i = Some st \<and> js_status st = Active \<and> js_token st = t \<and> js_job st = j))"

definition table_ok :: "cron_scheduler \<Rightarrow> bool" where
  "table_ok s \<longleftrightarrow> dict_ok (sch_jobs s) \<and> (\<forall>i st. dict_get (sch_jobs s) i = Some st \<longrightarrow> cj_id (js_job st) = i)
     \<and> distinct (map fst (sch_loops s)) \<and> (\<forall>t \<in> fst ` set (sch_loops s). t < sch_next_token s)
     \<and> (\<forall>t \<in> set (sch_cancelled s). t < sch_next_token s)
     \<and> (\<forall>i st. dict_get (sch_jobs s) i = Some st \<longrightarrow> js_status st = Cancelled \<longrightarrow> js_token st \<in> set (sch_cancelled s))"

definition sch_inv :: "cron_scheduler \<Rightarrow> bool" where
  "sch_inv s \<longleftrightarrow> table_ok s \<and> loops_agree s"

lemma live_loops_mem: "(t, j) \<in> set (live_loops s) \<longleftrightarrow> (t, j) \<in> set (sch_loops s) \<and> t \<notin> set (sch_cancelled s)"
  by (auto simp: live_loops_def)

lemmas inv_defs = sch_inv_def table_ok_def loops_agree_def

lemma sch_inv_new: "sch_inv (sch_new d)"
  by (simp add: inv_defs sch_new_def live_loops_def)

lemma sch_inv_filed: "\<lbrakk>sch_inv s; dict_get (sch_jobs s) i = Some st\<rbrakk> \<Longrightarrow> cj_id (js_job st) = i"
  by (simp add: inv_defs)

lemma sch_inv_active_live:
  assumes "sch_inv s" "dict_get (sch_jobs s) i = Some st" "js_status st = Active"
  shows "(js_token st, js_job st) \<in> set (sch_loops s) \<and> js_token st \<notin> set (sch_cancelled s)"
proof -
  have "(js_token st, js_job st) \<in> set (live_loops s)"
    using assms unfolding sch_inv_def loops_agree_def by metis
  then show ?thesis by (simp add: live_loops_mem)
qed

lemma sch_inv_live_active:
  assumes "sch_inv s" "(t, j) \<in> set (sch_loops s)" "t \<notin> set (sch_cancelled s)"
  shows "dict_get (sch_jobs s) (cj_id j) = Some \<lparr>js_job = j, js_status = Active, js_token = t\<rparr>"
proof -
  have "(t, j) \<in> set (live_loops s)" using assms by (simp add: live_loops_mem)
  then obtain i st where st: "dict_get (sch_jobs s) i = Some st" "js_status st = Active" "js_token st = t" "js_job st = j"
    using assms(1) unfolding sch_inv_def loops_agree_def by metis
  then have "i = cj_id j" using sch_inv_filed [OF assms(1)] by auto
  then show ?thesis using st by (cases st) auto
qed

lemma sch_inv_cancelled:
  "\<lbrakk>sch_inv s; dict_get (sch_jobs s) i = Some st; js_status st = Cancelled\<rbrakk> \<Longrightarrow> js_token st \<in> set (sch_cancelled s)"
  unfolding inv_defs by blast

lemma sch_inv_bounds:
  "\<lbrakk>sch_inv s; (t, j) \<in> set (sch_loops s)\<rbrakk> \<Longrightarrow> t < sch_next_token s"
  "\<lbrakk>sch_inv s; t \<in> set (sch_cancelled s)\<rbrakk> \<Longrightarrow> t < sch_next_token s"
  by (auto simp: inv_defs)

lemma sch_inv_token:
  "\<lbrakk>sch_inv s; dict_get (sch_jobs s) i = Some st\<rbrakk> \<Longrightarrow> js_token st < sch_next_token s"
  by (cases "js_status st") (auto dest: sch_inv_active_live sch_inv_cancelled sch_inv_bounds)

text \<open>A token belongs to one active entry.\<close>

lemma sch_inv_unique:
  assumes "sch_inv s" "dict_get (sch_jobs s) k = Some st'" "js_status st' = Active"
    and "dict_get (sch_jobs s) i = Some st" "js_token st' = js_token st"
  shows "k = i"
proof -
  have l': "(js_token st', js_job st') \<in> set (sch_loops s)" "js_token st' \<notin> set (sch_cancelled s)"
    using sch_inv_active_live [OF assms(1-3)] by auto
  then have "js_status st = Active"
    using sch_inv_cancelled [OF assms(1,4)] assms(5) by (cases "js_status st") auto
  then have "dict_get (sch_jobs s) (cj_id (js_job st)) = Some st"
    using sch_inv_filed [OF assms(1,4)] assms(4) by simp
  moreover have "(js_token st, js_job st) \<in> set (sch_loops s)"
    using sch_inv_active_live [OF assms(1,4)] \<open>js_status st = Active\<close> by simp
  then have "js_job st' = js_job st"
    using l'(1) assms(1,5) by (auto simp: inv_defs dest: eq_key_imp_eq_value)
  ultimately show ?thesis
    using sch_inv_filed [OF assms(1,2)] sch_inv_filed [OF assms(1,4)] by simp
qed

text \<open>Both clauses of \<open>loops_agree\<close>, as rules.\<close>

lemma loops_agreeI:
  assumes "\<And>i st. \<lbrakk>dict_get (sch_jobs s) i = Some st; js_status st = Active\<rbrakk>
      \<Longrightarrow> (js_token st, js_job st) \<in> set (sch_loops s) \<and> js_token st \<notin> set (sch_cancelled s)"
    and "\<And>t j. \<lbrakk>(t, j) \<in> set (sch_loops s); t \<notin> set (sch_cancelled s)\<rbrakk>
      \<Longrightarrow> dict_get (sch_jobs s) (cj_id j) = Some \<lparr>js_job = j, js_status = Active, js_token = t\<rparr>"
  shows "loops_agree s"
  unfolding loops_agree_def live_loops_mem using assms by fastforce

lemma cancel_job_get:
  "dict_get (sch_jobs (cancel_job i s)) k =
     (if k = i then map_option (\<lambda>st. st\<lparr>js_status := Cancelled\<rparr>) (dict_get (sch_jobs s) i) else dict_get (sch_jobs s) k)"
  by (auto simp: cancel_job_def split: option.split)

lemma sch_inv_cancel:
  assumes inv: "sch_inv s"
  shows "sch_inv (cancel_job i s)"
proof (cases "dict_get (sch_jobs s) i")
  case None
  then show ?thesis using assms by (simp add: cancel_job_def)
next
  case (Some st)
  have cancelled: "sch_cancelled (cancel_job i s) = js_token st # sch_cancelled s" "sch_loops (cancel_job i s) = sch_loops s"
    using Some by (simp_all add: cancel_job_def)
  have "table_ok (cancel_job i s)"
    using inv Some sch_inv_token [OF inv Some]
    by (auto simp: inv_defs cancel_job_def split: if_splits)
  moreover have "loops_agree (cancel_job i s)"
  proof (rule loops_agreeI)
    fix k st'
    assume st': "dict_get (sch_jobs (cancel_job i s)) k = Some st'" "js_status st' = Active"
    then have k: "k \<noteq> i" "dict_get (sch_jobs s) k = Some st'"
      using Some by (auto simp: cancel_job_get split: if_splits)
    then show "(js_token st', js_job st') \<in> set (sch_loops (cancel_job i s)) \<and> js_token st' \<notin> set (sch_cancelled (cancel_job i s))"
      using sch_inv_active_live [OF inv k(2) st'(2)] sch_inv_unique [OF inv k(2) st'(2) Some]
      by (auto simp: cancelled)
  next
    fix t j
    assume l: "(t, j) \<in> set (sch_loops (cancel_job i s))" "t \<notin> set (sch_cancelled (cancel_job i s))"
    then have "dict_get (sch_jobs s) (cj_id j) = Some \<lparr>js_job = j, js_status = Active, js_token = t\<rparr>"
      by (intro sch_inv_live_active [OF inv]) (auto simp: cancelled)
    moreover from this have "cj_id j \<noteq> i"
      using l(2) Some by (auto simp: cancelled)
    ultimately show "dict_get (sch_jobs (cancel_job i s)) (cj_id j) = Some \<lparr>js_job = j, js_status = Active, js_token = t\<rparr>"
      by (simp add: cancel_job_get)
  qed
  ultimately show ?thesis by (simp add: sch_inv_def)
qed

text \<open>After a cancellation the id has no active entry, so it can be filed anew or dropped.\<close>

lemma cancelled_entry: "dict_get (sch_jobs (cancel_job i s)) i = Some st \<Longrightarrow> js_status st = Cancelled"
  by (auto simp: cancel_job_get)

lemma sch_inv_schedule:
  assumes "sch_inv s"
  shows "sch_inv (schedule_job job s)"
proof -
  define s1 where "s1 = cancel_job (cj_id job) s"
  note inv = sch_inv_cancel [OF assms, of "cj_id job", folded s1_def]
  note dead = cancelled_entry [of "cj_id job" s, folded s1_def]
  have fields: "sch_jobs (schedule_job job s) = dict_put (cj_id job) \<lparr>js_job = job, js_status = Active, js_token = sch_next_token s1\<rparr> (sch_jobs s1)"
      "sch_loops (schedule_job job s) = sch_loops s1 @ [(sch_next_token s1, job)]"
      "sch_cancelled (schedule_job job s) = sch_cancelled s1" "sch_next_token (schedule_job job s) = sch_next_token s1 + 1"
    by (simp_all add: schedule_job_def Let_def s1_def)
  have fresh: "(sch_next_token s1, j) \<notin> set (sch_loops s1)" "sch_next_token s1 \<notin> set (sch_cancelled s1)" for j
    using sch_inv_bounds [OF inv] by blast+
  have "table_ok (schedule_job job s)"
    using inv fresh unfolding inv_defs fields
    by (auto simp: less_Suc_eq split: if_splits)
  moreover have "loops_agree (schedule_job job s)"
  proof (rule loops_agreeI)
    fix k st'
    assume "dict_get (sch_jobs (schedule_job job s)) k = Some st'" "js_status st' = Active"
    then show "(js_token st', js_job st') \<in> set (sch_loops (schedule_job job s)) \<and> js_token st' \<notin> set (sch_cancelled (schedule_job job s))"
      using fresh(2) sch_inv_active_live [OF inv, of k st'] by (auto simp: fields split: if_splits)
  next
    fix t j
    assume l: "(t, j) \<in> set (sch_loops (schedule_job job s))" "t \<notin> set (sch_cancelled (schedule_job job s))"
    show "dict_get (sch_jobs (schedule_job job s)) (cj_id j) = Some \<lparr>js_job = j, js_status = Active, js_token = t\<rparr>"
    proof (cases "(t, j) \<in> set (sch_loops s1)")
      case True
      then have st: "dict_get (sch_jobs s1) (cj_id j) = Some \<lparr>js_job = j, js_status = Active, js_token = t\<rparr>"
        using l(2) by (intro sch_inv_live_active [OF inv]) (auto simp: fields)
      then have "cj_id j \<noteq> cj_id job" using dead by fastforce
      then show ?thesis using st by (simp add: fields)
    next
      case False
      with l(1) show ?thesis by (simp add: fields)
    qed
  qed
  ultimately show ?thesis by (simp add: sch_inv_def)
qed

lemma sch_inv_remove:
  assumes "sch_inv s"
  shows "sch_inv (remove_job i s)"
proof -
  define s1 where "s1 = cancel_job i s"
  note inv = sch_inv_cancel [OF assms, of i, folded s1_def]
  note dead = cancelled_entry [of i s, folded s1_def]
  have fields: "remove_job i s = s1\<lparr>sch_jobs := dict_del i (sch_jobs s1)\<rparr>"
    by (simp add: remove_job_def Let_def s1_def)
  have "table_ok (remove_job i s)"
    using inv unfolding inv_defs fields by (auto split: if_splits)
  moreover have "loops_agree (remove_job i s)"
    using sch_inv_active_live [OF inv] sch_inv_live_active [OF inv] dead
    by (intro loops_agreeI) (fastforce simp: fields split: if_splits)+
  ultimately show ?thesis by (simp add: sch_inv_def)
qed

lemma sch_inv_fold: "\<lbrakk>sch_inv s; \<And>x s. sch_inv s \<Longrightarrow> sch_inv (f x s)\<rbrakk> \<Longrightarrow> sch_inv (fold f xs s)"
  by (induction xs arbitrary: s) auto

lemma sch_inv_reconcile: "sch_inv s \<Longrightarrow> sch_inv (reconcile jobs s)"
  unfolding reconcile_def
  by (intro sch_inv_fold) (auto simp: drop_absent_def add_or_update_def Let_def sch_inv_remove sch_inv_schedule)

section \<open>What a scheduler does over time\<close>

datatype cron_op = Schedule cron_job | Cancel string | Reconcile "cron_job list"

fun cron_step :: "cron_op \<Rightarrow> cron_scheduler \<Rightarrow> cron_scheduler" where
  "cron_step (Schedule job) s = schedule_job job s"
| "cron_step (Cancel i) s = cancel_job i s"
| "cron_step (Reconcile jobs) s = reconcile jobs s"

lemma sch_inv_step: "sch_inv s \<Longrightarrow> sch_inv (cron_step op s)"
  by (cases op) (simp_all add: sch_inv_schedule sch_inv_cancel sch_inv_reconcile)

interpretation cron_machine: operation_machine "sch_new d" cron_step sch_inv for d
  by unfold_locales (simp_all add: sch_inv_new sch_inv_step)

lemma live_loops_active:
  assumes "sch_inv s"
  shows "set (map (\<lambda>l. cj_id (snd l)) (live_loops s)) = set (active_job_ids s)"
proof (intro equalityI subsetI)
  fix i
  assume "i \<in> set (map (\<lambda>l. cj_id (snd l)) (live_loops s))"
  then obtain t j where "(t, j) \<in> set (live_loops s)" "i = cj_id j" by force
  then have "dict_get (sch_jobs s) i = Some \<lparr>js_job = j, js_status = Active, js_token = t\<rparr>"
    using sch_inv_live_active [OF assms] by (simp add: live_loops_mem)
  then show "i \<in> set (active_job_ids s)"
    by (force simp: active_job_ids_def dest: dict_get_mem)
next
  fix i
  assume "i \<in> set (active_job_ids s)"
  then obtain st where "(i, st) \<in> set (sch_jobs s)" and a: "js_status st = Active"
    by (auto simp: active_job_ids_def)
  then have st: "dict_get (sch_jobs s) i = Some st"
    using assms by (simp add: inv_defs dict_mem_get)
  then have "(js_token st, js_job st) \<in> set (live_loops s)"
    using sch_inv_active_live [OF assms st a] by (simp add: live_loops_mem)
  then show "i \<in> set (map (\<lambda>l. cj_id (snd l)) (live_loops s))"
    using sch_inv_filed [OF assms st] by force
qed

lemma live_loops_distinct:
  assumes "sch_inv s"
  shows "distinct (map (\<lambda>l. cj_id (snd l)) (live_loops s))"
proof -
  have "distinct (sch_loops s)"
    using assms by (simp add: sch_inv_def table_ok_def distinct_map)
  then have "distinct (live_loops s)" by (simp add: live_loops_def)
  moreover have "inj_on (\<lambda>l. cj_id (snd l)) (set (live_loops s))"
  proof (rule inj_onI)
    fix l m
    assume "l \<in> set (live_loops s)" "m \<in> set (live_loops s)" "cj_id (snd l) = cj_id (snd m)"
    then have l: "(fst l, snd l) \<in> set (live_loops s)" and m: "(fst m, snd m) \<in> set (live_loops s)"
        and same: "cj_id (snd l) = cj_id (snd m)" by simp_all
    have "dict_get (sch_jobs s) (cj_id (snd l)) = Some \<lparr>js_job = snd l, js_status = Active, js_token = fst l\<rparr>"
      using l sch_inv_live_active [OF assms] by (metis live_loops_mem)
    moreover have "dict_get (sch_jobs s) (cj_id (snd l)) = Some \<lparr>js_job = snd m, js_status = Active, js_token = fst m\<rparr>"
      unfolding same using m sch_inv_live_active [OF assms] by (metis live_loops_mem)
    ultimately have "fst l = fst m \<and> snd l = snd m" by (metis cron_job_state.ext_inject option.inject)
    then show "l = m" by (simp add: prod_eq_iff)
  qed
  ultimately show ?thesis by (simp add: distinct_map)
qed

text \<open>
  C40. However jobs are scheduled, cancelled and reloaded, every active job runs in exactly one loop and
  no other loop is left running: the running loops have distinct job ids, which are those
  \<open>active_job_ids\<close> reports.
\<close>

theorem one_loop_per_active_job:
  "distinct (map (\<lambda>l. cj_id (snd l)) (live_loops (fold cron_step ops (sch_new d))))
   \<and> set (map (\<lambda>l. cj_id (snd l)) (live_loops (fold cron_step ops (sch_new d))))
     = set (active_job_ids (fold cron_step ops (sch_new d)))"
  using live_loops_distinct [OF cron_machine.run_ok] live_loops_active [OF cron_machine.run_ok] by blast

section \<open>Hot reload\<close>

lemma active_job_cancel: "active_job (cancel_job i s) k = (if k = i then None else active_job s k)"
  by (auto simp: active_job_def cancel_job_get split: option.split)

lemma active_job_schedule: "active_job (schedule_job job s) k = (if k = cj_id job then Some job else active_job s k)"
  by (auto simp: schedule_job_def Let_def active_job_cancel active_job_def cancel_job_get split: option.split)

lemma active_job_remove: "active_job (remove_job i s) k = (if k = i then None else active_job s k)"
  by (auto simp: remove_job_def Let_def active_job_def cancel_job_get split: option.split)

lemma active_job_update: "active_job (add_or_update job s) k = (if k = cj_id job then Some job else active_job s k)"
proof (cases "dict_get (sch_jobs s) (cj_id job)")
  case None
  then show ?thesis by (simp add: add_or_update_def active_job_schedule)
next
  case (Some st)
  then show ?thesis
    using active_job_schedule [of job s k]
    by (cases "js_status st") (auto simp: add_or_update_def active_job_def)
qed

lemma active_job_updates:
  "active_job (fold add_or_update jobs s) k =
     (case map_of (map (\<lambda>j. (cj_id j, j)) (rev jobs)) k of Some j \<Rightarrow> Some j | None \<Rightarrow> active_job s k)"
  by (induction jobs rule: rev_induct) (simp_all add: active_job_update)

lemma active_job_drops:
  "active_job (fold (drop_absent jobs) ids s) k =
     (if k \<in> set ids \<and> k \<notin> cj_id ` set jobs \<and> k \<noteq> ''heartbeat'' then None else active_job s k)"
  by (induction ids rule: rev_induct) (auto simp: drop_absent_def active_job_remove)

lemma active_job_key: "k \<notin> set (dict_keys (sch_jobs s)) \<Longrightarrow> active_job s k = None"
  by (simp add: active_job_def dict.keys_get)

lemma active_job_reconcile:
  "active_job (reconcile jobs s) k =
     (case map_of (map (\<lambda>j. (cj_id j, j)) (rev jobs)) k of
        Some j \<Rightarrow> Some j
      | None \<Rightarrow> if k = ''heartbeat'' then active_job s k else None)"
proof -
  have "map_of (map (\<lambda>j. (cj_id j, j)) (rev jobs)) k = None \<longleftrightarrow> k \<notin> cj_id ` set jobs"
    by (auto simp: map_of_eq_None_iff image_iff)
  then show ?thesis
    using active_job_key [of k s]
    by (auto simp: reconcile_def active_job_updates active_job_drops split: option.split)
qed

text \<open>
  Hot reload installs the configuration: afterwards an id is active with the job the new
  configuration has last for it, whatever ran before, and an id the configuration does not name is
  not active, the heartbeat apart, which is left as it was.
\<close>

theorem reconcile_installs_configuration:
  "active_job (reconcile jobs s) =
     (\<lambda>i. case dict_get (map (\<lambda>j. (cj_id j, j)) (rev jobs)) i of
        Some j \<Rightarrow> Some j
      | None \<Rightarrow> if i = ''heartbeat'' then active_job s i else None)"
  by (rule ext) (simp add: active_job_reconcile dict_get_def)

lemma update_other: "cj_id job \<noteq> k \<Longrightarrow> dict_get (sch_jobs (add_or_update job s)) k = dict_get (sch_jobs s) k"
  by (simp add: add_or_update_def schedule_job_def Let_def cancel_job_get)

lemma updates_other: "k \<notin> cj_id ` set jobs \<Longrightarrow> dict_get (sch_jobs (fold add_or_update jobs s)) k = dict_get (sch_jobs s) k"
  by (induction jobs arbitrary: s) (auto simp: update_other)

lemma drops_other: "k \<in> cj_id ` set jobs \<Longrightarrow> dict_get (sch_jobs (fold (drop_absent jobs) ids s)) k = dict_get (sch_jobs s) k"
  by (induction ids arbitrary: s) (auto simp: drop_absent_def remove_job_def Let_def cancel_job_get)

text \<open>
  Hot reload does not disturb a job whose configuration is unchanged: its entry, and with it the
  token of its running loop, is the one it had, so its timer is not restarted.
\<close>

theorem unchanged_job_keeps_its_loop:
  assumes "distinct (map cj_id jobs)" and "js_job st \<in> set jobs"
    and "dict_get (sch_jobs s) (cj_id (js_job st)) = Some st" and "js_status st = Active"
  shows "dict_get (sch_jobs (reconcile jobs s)) (cj_id (js_job st)) = Some st"
proof -
  let ?i = "cj_id (js_job st)"
  obtain as bs where jobs: "jobs = as @ js_job st # bs" using assms(2) by (meson split_list)
  then have out: "?i \<notin> cj_id ` set as" "?i \<notin> cj_id ` set bs" using assms(1) by auto
  define s1 where "s1 = fold add_or_update as (fold (drop_absent jobs) (dict_keys (sch_jobs s)) s)"
  have "?i \<in> cj_id ` set jobs" using assms(2) by simp
  then have "dict_get (sch_jobs s1) ?i = Some st"
    using assms(3) by (simp add: s1_def updates_other [OF out(1)] drops_other)
  then have "add_or_update (js_job st) s1 = s1"
    using assms(4) by (simp add: add_or_update_def)
  then have "reconcile jobs s = fold add_or_update bs s1"
    by (simp add: reconcile_def jobs s1_def [unfolded jobs])
  then show ?thesis
    using \<open>dict_get (sch_jobs s1) ?i = Some st\<close> by (simp add: updates_other [OF out(2)])
qed

lemma unchanged_job_keeps_its_loop_witness:
  "let job = heartbeat_job ''check''\<lparr>cj_id := ''report''\<rparr>; st = \<lparr>js_job = job, js_status = Active, js_token = 4\<rparr>;
       s = (sch_new True)\<lparr>sch_jobs := [(''report'', st)], sch_loops := [(4, job)], sch_next_token := 5\<rparr>
   in dict_get (sch_jobs (reconcile [job] s)) ''report'' = Some st"
  using unchanged_job_keeps_its_loop
    [of "[heartbeat_job ''check''\<lparr>cj_id := ''report''\<rparr>]"
      "\<lparr>js_job = heartbeat_job ''check''\<lparr>cj_id := ''report''\<rparr>, js_status = Active, js_token = 4\<rparr>"
      "(sch_new True)\<lparr>sch_jobs := [(''report'', \<lparr>js_job = heartbeat_job ''check''\<lparr>cj_id := ''report''\<rparr>, js_status = Active, js_token = 4\<rparr>)],
         sch_loops := [(4, heartbeat_job ''check''\<lparr>cj_id := ''report''\<rparr>)], sch_next_token := 5\<rparr>"]
  by (simp add: Let_def)

section \<open>Cancelling from a tool\<close>

lemma store_jobs_Ok:
  assumes "store_jobs e jobs a t = (t', Ok r)"
  shows "ts_jobs t' = jobs" "ts_scheduler t' = map_option (reconcile jobs) (ts_scheduler t)"
  using assms by (auto simp: store_jobs_def split: option.splits)

lemma task_create_Ok:
  assumes "task_create e args t = (t', Ok r)"
  shows "\<exists>job. ts_jobs t' = ts_jobs t @ [job] \<and> cj_id job \<notin> cj_id ` set (ts_jobs t)
     \<and> ts_scheduler t' = map_option (reconcile (ts_jobs t @ [job])) (ts_scheduler t)"
  using assms store_jobs_Ok
  by (fastforce simp: task_create_def Let_def split: if_splits)

lemma task_cancel_jobs: "ts_jobs (fst (task_cancel args t)) = ts_jobs t"
  by (simp add: task_cancel_def Let_def)

lemma task_cancel_scheduler: "ts_scheduler (fst (task_cancel args t)) = None \<longleftrightarrow> ts_scheduler t = None"
  by (simp add: task_cancel_def Let_def)

text \<open>
  Cancelling a task does not last: the job stays in the configuration, so the next task that is
  created reconciles the cancelled one back to active.
\<close>

theorem cancelled_task_resumes:
  assumes "job \<in> set (ts_jobs t)" and "ts_scheduler t \<noteq> None"
    and "task_create write_error args (fst (task_cancel cancel_args t)) = (t', Ok answer)"
  shows "map_option (\<lambda>s. is_active s (cj_id job)) (ts_scheduler t') = Some True"
proof -
  let ?c = "fst (task_cancel cancel_args t)"
  obtain s where s: "ts_scheduler ?c = Some s"
    using assms(2) task_cancel_scheduler by (metis not_None_eq)
  obtain new where new: "ts_scheduler t' = Some (reconcile (ts_jobs t @ [new]) s)"
    using task_create_Ok [OF assms(3)] by (auto simp: s task_cancel_jobs)
  have "map_of (map (\<lambda>j. (cj_id j, j)) (rev (ts_jobs t @ [new]))) (cj_id job) \<noteq> None"
    using assms(1) unfolding map_of_eq_None_iff by force
  then obtain j where "map_of (map (\<lambda>j. (cj_id j, j)) (rev (ts_jobs t @ [new]))) (cj_id job) = Some j"
    by blast
  then show ?thesis
    by (simp add: new is_active_iff active_job_reconcile del: rev_append)
qed

definition example_tasks :: task_state where
  "example_tasks = \<lparr>ts_scheduler = Some (start_scheduler False ''check'' [(heartbeat_job ''x'')\<lparr>cj_id := ''report''\<rparr>]),
     ts_jobs = [(heartbeat_job ''x'')\<lparr>cj_id := ''report''\<rparr>], ts_file = []\<rparr>"

lemma cancelled_task_resumes_witness:
  "map_option (\<lambda>s. is_active s ''report'')
     (ts_scheduler (fst (task_cancel (JObj [(''id'', JStr ''report'')]) example_tasks))) = Some False
   \<and> map_option (\<lambda>s. is_active s ''report'')
       (ts_scheduler (fst (task_create None
          (JObj [(''id'', JStr ''n''), (''schedule'', JStr ''@every 5m''), (''message'', JStr ''hi'')])
          (fst (task_cancel (JObj [(''id'', JStr ''report'')]) example_tasks))))) = Some True"
proof
  have id: "trimmed_arg (JObj [(''id'', JStr ''report'')]) ''id'' = ''report''"
    by (simp add: trimmed_arg_def str_param_def jget_def trim_eval)
  show "map_option (\<lambda>s. is_active s ''report'')
     (ts_scheduler (fst (task_cancel (JObj [(''id'', JStr ''report'')]) example_tasks))) = Some False"
    by (simp add: task_cancel_def id Let_def example_tasks_def start_scheduler_def is_active_iff active_job_cancel)
  let ?args = "JObj [(''id'', JStr ''n''), (''schedule'', JStr ''@every 5m''), (''message'', JStr ''hi'')]"
  have args: "trimmed_arg ?args ''id'' = ''n''" "trimmed_arg ?args ''schedule'' = ''@every 5m''" "trimmed_arg ?args ''message'' = ''hi''"
    by (simp_all add: trimmed_arg_def str_param_def jget_def trim_eval)
  have "\<exists>t' r. task_create None ?args (fst (task_cancel (JObj [(''id'', JStr ''report'')]) example_tasks)) = (t', Ok r)"
    by (simp add: task_create_def args store_jobs_def task_cancel_def id Let_def example_tasks_def heartbeat_job_def)
  then obtain t' r where "task_create None ?args (fst (task_cancel (JObj [(''id'', JStr ''report'')]) example_tasks)) = (t', Ok r)"
    by blast
  then show "map_option (\<lambda>s. is_active s ''report'')
       (ts_scheduler (fst (task_create None ?args (fst (task_cancel (JObj [(''id'', JStr ''report'')]) example_tasks))))) = Some True"
    using cancelled_task_resumes [of "(heartbeat_job ''x'')\<lparr>cj_id := ''report''\<rparr>" example_tasks None ?args]
    by (simp add: example_tasks_def)
qed

end
