(* ===== verification/Plugins.thy ===== *)
theory Plugins
  imports Json
begin

text \<open>
  \<open>src/plugin_manager.rs\<close>: loading the configured plugins in order and invoking a lifecycle hook on
  each until one answers for the gateway. A plugin is code of its own: its \<open>init\<close> and \<open>on_hook\<close> are
  fields of the record, over a world \<open>'w\<close> that they may change.
\<close>

section \<open>Hooks and plugins\<close>

datatype plugin_hook = BeforeRun | AfterRun | OnUserMessage | OnEvent | BeforeAgent | AfterAgent
  | BeforeModel | AfterModel | BeforeTool | AfterTool

definition show_hook :: "plugin_hook \<Rightarrow> string" where
  "show_hook h =
     (case h of BeforeRun \<Rightarrow> ''before_run'' | AfterRun \<Rightarrow> ''after_run'' | OnUserMessage \<Rightarrow> ''on_user_message''
      | OnEvent \<Rightarrow> ''on_event'' | BeforeAgent \<Rightarrow> ''before_agent'' | AfterAgent \<Rightarrow> ''after_agent''
      | BeforeModel \<Rightarrow> ''before_model'' | AfterModel \<Rightarrow> ''after_model'' | BeforeTool \<Rightarrow> ''before_tool''
      | AfterTool \<Rightarrow> ''after_tool'')"

datatype hook_result = HookContinue | ShortCircuit string | Modified json

record hook_context =
  hc_user_message :: "string option"
  hc_agent_name :: "string option"
  hc_tool_name :: "string option"
  hc_model_name :: "string option"
  hc_event_data :: "json option"
  hc_response_text :: "string option"
  hc_metadata :: "json option"

definition empty_context :: hook_context where
  "empty_context = \<lparr>hc_user_message = None, hc_agent_name = None, hc_tool_name = None, hc_model_name = None,
     hc_event_data = None, hc_response_text = None, hc_metadata = None\<rparr>"

datatype plugin_error = InitFailed string | HookError string

record 'w plugin =
  pg_init :: "json \<Rightarrow> 'w \<Rightarrow> 'w \<times> (plugin_error, unit) result"
  pg_on_hook :: "plugin_hook \<Rightarrow> hook_context \<Rightarrow> 'w \<Rightarrow> 'w \<times> hook_result"

record 'w loaded_plugin =
  lp_name :: string
  lp_plugin :: "'w plugin"
  lp_enabled :: bool

type_synonym 'w plugin_manager = "'w loaded_plugin list"

record plugin_config =
  pc_name :: string
  pc_enabled :: bool
  pc_config :: json

section \<open>Loading and invoking\<close>

fun load_plugins ::
  "(string \<Rightarrow> 'w plugin option) \<Rightarrow> plugin_config list \<Rightarrow> 'w \<Rightarrow> 'w \<times> 'w plugin_manager" where
  "load_plugins resolver [] w = (w, [])"
| "load_plugins resolver (cfg # rest) w =
     (if \<not> pc_enabled cfg then load_plugins resolver rest w
      else case resolver (pc_name cfg) of
        None \<Rightarrow> load_plugins resolver rest w
      | Some p \<Rightarrow>
          (case pg_init p (pc_config cfg) w of
             (w1, Err _) \<Rightarrow> load_plugins resolver rest w1
           | (w1, Ok _) \<Rightarrow>
               (case load_plugins resolver rest w1 of
                  (w2, ps) \<Rightarrow> (w2, \<lparr>lp_name = pc_name cfg, lp_plugin = p, lp_enabled = True\<rparr> # ps))))"

fun invoke_hook ::
  "'w plugin_manager \<Rightarrow> plugin_hook \<Rightarrow> hook_context \<Rightarrow> 'w \<Rightarrow> 'w \<times> hook_context \<times> hook_result" where
  "invoke_hook [] h c w = (w, c, HookContinue)"
| "invoke_hook (p # ps) h c w =
     (if \<not> lp_enabled p then invoke_hook ps h c w
      else case pg_on_hook (lp_plugin p) h c w of
        (w1, ShortCircuit r) \<Rightarrow> (w1, c, ShortCircuit r)
      | (w1, Modified d) \<Rightarrow> invoke_hook ps h (c\<lparr>hc_metadata := Some d\<rparr>) w1
      | (w1, HookContinue) \<Rightarrow> invoke_hook ps h c w1)"

definition plugin_count :: "'w plugin_manager \<Rightarrow> nat" where
  "plugin_count ps = length (filter lp_enabled ps)"

definition plugin_names :: "'w plugin_manager \<Rightarrow> string list" where
  "plugin_names ps = map lp_name (filter lp_enabled ps)"

section \<open>What is loaded and who is asked\<close>

text \<open>
  If initialisation does not depend on what other plugins did, the plugins loaded are those
  configured, enabled, known and initialised without error, in the order of the configuration.
\<close>

theorem plugins_loaded_in_order:
  assumes "\<And>n p j w. resolver n = Some p \<Longrightarrow> snd (pg_init p j w) = starts n j"
  shows "plugin_names (snd (load_plugins resolver cfgs w)) =
    map pc_name (filter (\<lambda>c. pc_enabled c \<and> resolver (pc_name c) \<noteq> None \<and> is_ok (starts (pc_name c) (pc_config c))) cfgs)"
proof (induction cfgs arbitrary: w)
  case Nil
  then show ?case by (simp add: plugin_names_def)
next
  case (Cons c cfgs)
  show ?case
  proof (cases "pc_enabled c \<and> resolver (pc_name c) \<noteq> None")
    case False
    then show ?thesis using Cons by (cases "pc_enabled c") auto
  next
    case True
    then obtain p where p: "resolver (pc_name c) = Some p" by auto
    obtain w1 r where i: "pg_init p (pc_config c) w = (w1, r)" by force
    with assms [OF p] have "starts (pc_name c) (pc_config c) = r" by (metis snd_conv)
    with True p i Cons [of w1] show ?thesis
      by (cases r; cases "load_plugins resolver cfgs w1") (simp_all add: plugin_names_def)
  qed
qed

definition quiet_plugin :: "unit plugin" where
  "quiet_plugin = \<lparr>pg_init = \<lambda>j w. (w, if j = JNull then Err (InitFailed ''no settings'') else Ok ()), pg_on_hook = \<lambda>h c w. (w, HookContinue)\<rparr>"

theorem plugins_loaded_in_order_witness:
  "plugin_names (snd (load_plugins (\<lambda>n. if n = ''audit'' \<or> n = ''guard'' then Some quiet_plugin else None)
     [\<lparr>pc_name = ''guard'', pc_enabled = True, pc_config = JBool True\<rparr>, \<lparr>pc_name = ''guard'', pc_enabled = True, pc_config = JNull\<rparr>,
      \<lparr>pc_name = ''other'', pc_enabled = True, pc_config = JNull\<rparr>, \<lparr>pc_name = ''audit'', pc_enabled = True, pc_config = JInt 1\<rparr>] ()))
   = [''guard'', ''audit'']"
  by (subst plugins_loaded_in_order [where starts = "\<lambda>n j. if j = JNull then Err (InitFailed ''no settings'') else Ok ()"])
    (auto simp: quiet_plugin_def split: if_splits)

lemma invoke_hook_append:
  "invoke_hook (ps @ qs) h c w =
     (case invoke_hook ps h c w of
        (w1, c1, ShortCircuit r) \<Rightarrow> (w1, c1, ShortCircuit r)
      | (w1, c1, _) \<Rightarrow> invoke_hook qs h c1 w1)"
  by (induction ps arbitrary: c w) (auto split: prod.splits hook_result.splits)

lemma invoke_hook_not_modified: "invoke_hook ps h c w = (w1, c1, r) \<Longrightarrow> r \<noteq> Modified d"
  by (induction ps arbitrary: c w) (auto split: if_splits prod.splits hook_result.splits)

text \<open>A plugin whose answers are a function of the hook and the context, and that records whom it heard.\<close>

definition recording :: "string \<Rightarrow> (plugin_hook \<Rightarrow> hook_context \<Rightarrow> hook_result) \<Rightarrow> (string \<times> json option) list loaded_plugin" where
  "recording n f = \<lparr>lp_name = n, lp_plugin = \<lparr>pg_init = \<lambda>j w. (w, Ok ()), pg_on_hook = \<lambda>h c w. (w @ [(n, hc_metadata c)], f h c)\<rparr>, lp_enabled = True\<rparr>"

fun metadata_after :: "json option \<Rightarrow> hook_result list \<Rightarrow> json option" where
  "metadata_after m [] = m"
| "metadata_after m (Modified d # rs) = metadata_after (Some d) rs"
| "metadata_after m (r # rs) = metadata_after m rs"

fun interrupts :: "hook_result \<Rightarrow> bool" where
  "interrupts (ShortCircuit r) = True"
| "interrupts _ = False"

text \<open>
  If no plugin before \<open>p\<close> in the configured order answers for the gateway and \<open>p\<close> does, then the
  hook returns the answer of \<open>p\<close>; the plugins before \<open>p\<close> and \<open>p\<close> itself have been asked, in this order
  and each with the metadata of the latest modification before it, and no plugin after \<open>p\<close> was.
\<close>

theorem first_answer_ends_the_hook:
  assumes "list_all (\<lambda>(n, r). \<not> interrupts r) qs"
  shows "invoke_hook (map (\<lambda>(n, r). recording n (\<lambda>h c. r)) qs @ recording n (\<lambda>h c. ShortCircuit x) # ps) h c w =
    (w @ map (\<lambda>i. (fst (qs ! i), metadata_after (hc_metadata c) (map snd (take i qs)))) [0..<length qs]
       @ [(n, metadata_after (hc_metadata c) (map snd qs))],
     c\<lparr>hc_metadata := metadata_after (hc_metadata c) (map snd qs)\<rparr>, ShortCircuit x)"
  using assms
proof (induction qs arbitrary: c w)
  case Nil
  then show ?case by (simp add: recording_def)
next
  case (Cons q qs)
  obtain m r where q: "q = (m, r)" by force
  have split: "map (\<lambda>i. (fst ((q # qs) ! i), metadata_after a (map snd (take i (q # qs))))) [0..<length (q # qs)]
    = (m, a) # map (\<lambda>i. (fst (qs ! i), metadata_after (metadata_after a [r]) (map snd (take i qs)))) [0..<length qs]" for a
    by (cases r) (simp_all add: q upt_conv_Cons map_Suc_upt [symmetric] del: upt_Suc)
  from Cons.prems q have "list_all (\<lambda>(n, r). \<not> interrupts r) qs" "\<not> interrupts r" by auto
  with Cons.IH [of "c\<lparr>hc_metadata := metadata_after (hc_metadata c) [r]\<rparr>" "w @ [(m, hc_metadata c)]"] show ?case
    unfolding split by (cases r) (simp_all add: q recording_def)
qed

theorem first_answer_ends_the_hook_witness:
  "invoke_hook (map (\<lambda>(n, r). recording n (\<lambda>h c. r)) [(''audit'', HookContinue), (''tag'', Modified (JInt 1))] @
      recording ''guard'' (\<lambda>h c. ShortCircuit ''no'') # [recording ''late'' (\<lambda>h c. HookContinue)]) OnUserMessage empty_context []
   = ([(''audit'', None), (''tag'', None), (''guard'', Some (JInt 1))], empty_context\<lparr>hc_metadata := Some (JInt 1)\<rparr>, ShortCircuit ''no'')"
  by (subst first_answer_ends_the_hook) (simp_all add: empty_context_def upt_rec)

end
