(* ===== verification/StaleContext.thy ===== *)
theory StaleContext
  imports Json
begin

text \<open>
  \<open>src/stale_context.rs\<close>: the check whether a user was idle for longer than the configured
  threshold and the text that welcomes the user back. Instants are nanoseconds since the epoch.
\<close>

section \<open>The detector\<close>

text \<open>\<open>StaleContextConfig\<close> has the threshold in seconds.\<close>

record stale_config =
  st_idle_threshold_secs :: "64 word"

definition default_stale_config :: stale_config where
  "default_stale_config = \<lparr>st_idle_threshold_secs = 14400\<rparr>"

text \<open>\<open>chrono::Duration::seconds\<close> panics beyond the range of milliseconds in 64 bits.\<close>

definition duration_seconds :: "int \<Rightarrow> int option" where
  "duration_seconds s = (if \<bar>s\<bar> \<le> i64_max div 1000 then Some (s * 1000000000) else None)"

definition idle_duration :: "int \<Rightarrow> int \<Rightarrow> int" where
  "idle_duration last_activity now = now - last_activity"

definition is_stale :: "stale_config \<Rightarrow> int \<Rightarrow> int \<Rightarrow> bool option" where
  "is_stale cfg last_activity now =
     (case duration_seconds (sint (st_idle_threshold_secs cfg)) of
        None \<Rightarrow> None
      | Some threshold \<Rightarrow> Some (threshold < idle_duration last_activity now))"

section \<open>The text\<close>

definition format_duration :: "int \<Rightarrow> string" where
  "format_duration d =
     (let total = nat (d div 1000000000); hours = total div 3600; minutes = total mod 3600 div 60 in
      if 0 < hours \<and> 0 < minutes then show_nat hours @ ''h '' @ show_nat minutes @ ''m''
      else if 0 < hours then show_nat hours @ ''h''
      else if 0 < minutes then show_nat minutes @ ''m''
      else show_nat total @ ''s'')"

definition wave :: string where "wave = utf8 [0xF0, 0x9F, 0x91, 0x8B]"
definition clipboard :: string where "clipboard = utf8 [0xF0, 0x9F, 0x93, 0x8B]"
definition bell :: string where "bell = utf8 [0xF0, 0x9F, 0x94, 0x94]"
definition bullet :: string where "bullet = utf8 [0xE2, 0x80, 0xA2]"
definition em_dash :: string where "em_dash = utf8 [0xE2, 0x80, 0x94]"

definition item_line :: "string \<Rightarrow> string" where
  "item_line t = ''  '' @ bullet @ '' '' @ t"

definition welcome_lines :: "int \<Rightarrow> string list \<Rightarrow> string list \<Rightarrow> string list" where
  "welcome_lines idle pending_tasks heartbeat_alerts =
     [wave @ '' **Welcome back!** You'' @ [CHR 0x27] @ ''ve been away for '' @ format_duration idle @ ''.'', [],
      ''Here'' @ [CHR 0x27] @ ''s what happened while you were away:'']
     @ (if pending_tasks = [] then []
        else (clipboard @ '' **'' @ show_nat (length pending_tasks) @ '' pending task(s)**'') # map item_line pending_tasks)
     @ (if heartbeat_alerts = [] then []
        else (bell @ '' **'' @ show_nat (length heartbeat_alerts) @ '' heartbeat alert(s)**'') # map item_line heartbeat_alerts)"

definition build_welcome_back :: "int \<Rightarrow> string list \<Rightarrow> string list \<Rightarrow> string" where
  "build_welcome_back idle pending_tasks heartbeat_alerts =
     (if pending_tasks = [] \<and> heartbeat_alerts = []
      then wave @ '' Welcome back! You'' @ [CHR 0x27] @ ''ve been away for '' @ format_duration idle @ ''. Nothing pending ''
         @ em_dash @ '' ready when you are.''
      else join newline (welcome_lines idle pending_tasks heartbeat_alerts))"

section \<open>Thresholds\<close>

lemma sint_cases:
  "sint (w :: 64 word) = (if uint w < 2 ^ 63 then uint w else uint w - 2 ^ 64)"
proof -
  have u: "0 \<le> uint w" "uint w < 18446744073709551616" using uint_bounded [of w] by auto
  have "sint w = (uint w + 9223372036854775808) mod 18446744073709551616 - 9223372036854775808"
    by (simp add: sint_uint signed_take_bit_eq_take_bit_shift take_bit_eq_mod)
  also have "\<dots> = (if uint w < 9223372036854775808 then uint w else uint w - 18446744073709551616)"
  proof (cases "uint w < 9223372036854775808")
    case True
    with u show ?thesis by simp
  next
    case False
    have "(uint w + 9223372036854775808) mod 18446744073709551616 = uint w - 9223372036854775808"
      using u False by (intro int_mod_pos_eq [where q = 1]) auto
    with False show ?thesis by simp
  qed
  finally show ?thesis by simp
qed

text \<open>
  Up to about 292 million years the threshold means what it says: a user is stale exactly if the
  time since the last activity is longer. Larger values are read as a signed number: from there to the
  end of the positive range the check panics, and the largest value, meant as never, makes every
  message of a returning user stale.
\<close>

theorem stale_exact_below_bound:
  "is_stale cfg last_activity now =
     (let secs = uint (st_idle_threshold_secs cfg) in
      if secs \<le> 9223372036854775 then Some (secs * 1000000000 < now - last_activity)
      else if secs < 2 ^ 64 - 9223372036854775 then None
      else Some ((secs - 2 ^ 64) * 1000000000 < now - last_activity))"
proof -
  have "0 \<le> uint (st_idle_threshold_secs cfg)" "uint (st_idle_threshold_secs cfg) < 2 ^ 64"
    using uint_bounded [of "st_idle_threshold_secs cfg"] by auto
  then show ?thesis
    by (auto simp: is_stale_def duration_seconds_def idle_duration_def sint_cases i64_max_def Let_def)
qed

section \<open>Contents of the text\<close>

lemma sublist_join: "x \<in> set xs \<Longrightarrow> sublist x (join sep xs)"
proof (induction sep xs rule: join.induct)
  case (3 sep x y ys)
  then show ?case by (auto intro: sublist_appendI sublist_order.order.trans [OF _ sublist_append_leftI] simp del: append_assoc simp: append_assoc [symmetric])
qed auto

text \<open>The text names every pending task and every alert.\<close>

theorem welcome_lists_everything:
  "list_all (contains_str (build_welcome_back idle tasks alerts)) (tasks @ alerts)"
proof -
  have item: "sublist t (item_line t)" for t
    using sublist_append_leftI [of t "''  '' @ bullet @ '' ''"] by (simp add: item_line_def)
  have "sublist t (build_welcome_back idle tasks alerts)" if "t \<in> set tasks \<or> t \<in> set alerts" for t
  proof -
    from that have "item_line t \<in> set (welcome_lines idle tasks alerts)" "\<not> (tasks = [] \<and> alerts = [])"
      by (auto simp: welcome_lines_def)
    then have "sublist (item_line t) (build_welcome_back idle tasks alerts)"
      by (simp only: build_welcome_back_def if_False sublist_join)
    then show ?thesis using item sublist_order.order.trans by blast
  qed
  then show ?thesis by (auto simp: list_all_iff contains_str_sublist)
qed

end
