(* ===== verification/ToolRegistry.thy ===== *)
theory ToolRegistry
  imports Json "HOL-Library.List_Lexorder" "HOL-Library.Char_ord"
begin

text \<open>
  \<open>src/tool_registry.rs\<close>: the built-in tool names, custom tools and agents as tools, and the
  resolution of names to tool entries. A constructor only records the name, the description and the
  configuration of the tool.
\<close>

section \<open>Entries and the factory\<close>

record tool_entry =
  te_name :: string
  te_description :: string
  te_config :: "json option"

definition builtin_factory :: "string dict" where
  "builtin_factory =
     [(''web_search'', ''Web search via WebSearchTool''), (''google_search'', ''Google search via GoogleSearchTool''),
      (''google_maps'', ''Google Maps via GoogleMapsTool''), (''url_context'', ''Fetch and extract URL content via UrlContextTool''),
      (''load_artifacts'', ''Load artifacts via LoadArtifactsTool''), (''code_execution'', ''Code execution via CodeTool''),
      (''python_code'', ''Python code execution via PythonCodeTool''),
      (''javascript_code'', ''JavaScript code execution via JavaScriptCodeTool''),
      (''frontend_code'', ''Frontend code execution via FrontendCodeTool''), (''rust_code'', ''Rust code execution via RustCodeTool''),
      (''openai_web_search'', ''OpenAI web search via OpenAIWebSearchTool''),
      (''openai_file_search'', ''OpenAI file search via OpenAIFileSearchTool''),
      (''openai_image_generation'', ''OpenAI image generation via OpenAIImageGenerationTool''),
      (''openai_code_interpreter'', ''OpenAI code interpreter via OpenAICodeInterpreterTool''),
      (''gemini_code_execution'', ''Gemini code execution via GeminiCodeExecutionTool''),
      (''gemini_file_search'', ''Gemini file search via GeminiFileSearchTool'')]"

definition builtin_create :: "string \<Rightarrow> json option \<Rightarrow> tool_entry option" where
  "builtin_create name cfg =
     map_option (\<lambda>d. \<lparr>te_name = name, te_description = d, te_config = cfg\<rparr>) (dict_get builtin_factory name)"

definition builtin_names :: "string list" where
  "builtin_names = sort (dict_keys builtin_factory)"

record tool_registry =
  tr_custom :: "tool_entry dict"
  tr_agents :: "string dict"

definition tr_new :: tool_registry where
  "tr_new = \<lparr>tr_custom = [], tr_agents = []\<rparr>"

definition register_custom :: "tool_entry \<Rightarrow> tool_registry \<Rightarrow> tool_registry" where
  "register_custom e r = r\<lparr>tr_custom := dict_put (te_name e) e (tr_custom r)\<rparr>"

definition register_agent_tool :: "string \<Rightarrow> string \<Rightarrow> tool_registry \<Rightarrow> tool_registry" where
  "register_agent_tool agent_id description r = r\<lparr>tr_agents := dict_put agent_id description (tr_agents r)\<rparr>"

section \<open>Resolution\<close>

definition agent_entry :: "string \<Rightarrow> string \<Rightarrow> tool_entry" where
  "agent_entry name description = \<lparr>te_name = name, te_description = description, te_config = None\<rparr>"

definition resolve_tool :: "tool_registry \<Rightarrow> json option \<Rightarrow> string \<Rightarrow> tool_entry option" where
  "resolve_tool r tool_config name =
     (case dict_get (tr_custom r) name of
        Some e \<Rightarrow> Some e
      | None \<Rightarrow>
          (case dict_get (tr_agents r) name of
             Some d \<Rightarrow> Some (agent_entry name d)
           | None \<Rightarrow> builtin_create name (Option.bind tool_config (\<lambda>j. jget j name))))"

definition resolve_tools :: "tool_registry \<Rightarrow> string list \<Rightarrow> json option \<Rightarrow> tool_entry list" where
  "resolve_tools r names tool_config = List.map_filter (resolve_tool r tool_config) names"

definition resolve_all :: "tool_registry \<Rightarrow> tool_entry list" where
  "resolve_all r = map snd (tr_custom r) @ map (\<lambda>(n, d). agent_entry n d) (tr_agents r)"

definition known_names :: "tool_registry \<Rightarrow> string list" where
  "known_names r = remdups_adj (sort (builtin_names @ dict_keys (tr_custom r) @ map (\<lambda>k. ''agent:'' @ k) (dict_keys (tr_agents r))))"

definition build_tool_error_result :: "string \<Rightarrow> string \<Rightarrow> json" where
  "build_tool_error_result tool_name error =
     JObj [(''name'', JStr tool_name), (''error'', JBool True), (''content'', JStr error)]"

section \<open>Names and resolution\<close>

text \<open>Custom tools are stored under their own name.\<close>

definition registry_ok :: "tool_registry \<Rightarrow> bool" where
  "registry_ok r \<longleftrightarrow> list_all (\<lambda>(k, e). te_name e = k) (tr_custom r) \<and> dict_ok (tr_custom r) \<and> dict_ok (tr_agents r)"

datatype registry_op = RegisterCustom tool_entry | RegisterAgent string string

fun registry_step :: "registry_op \<Rightarrow> tool_registry \<Rightarrow> tool_registry" where
  "registry_step (RegisterCustom e) r = register_custom e r"
| "registry_step (RegisterAgent i d) r = register_agent_tool i d r"

lemma put_named: "list_all (\<lambda>(k, e). te_name e = k) d \<Longrightarrow> list_all (\<lambda>(k, e). te_name e = k) (dict_put (te_name e) e d)"
  by (induction d) auto

interpretation tool_registry: operation_machine tr_new registry_step registry_ok
proof
  show "registry_ok tr_new" by (simp add: registry_ok_def tr_new_def)
next
  fix r and ev :: registry_op
  assume "registry_ok r"
  then show "registry_ok (registry_step ev r)"
    by (cases ev) (auto simp: registry_ok_def register_custom_def register_agent_tool_def put_named)
qed

lemma resolve_tool_name: "registry_ok r \<Longrightarrow> resolve_tool r cfg n = Some e \<Longrightarrow> te_name e = n"
  by (auto simp: resolve_tool_def registry_ok_def agent_entry_def builtin_create_def list_all_iff
      split: option.splits dest: dict_get_mem)

lemma set_known_names:
  "n \<in> set (known_names r) \<longleftrightarrow> dict_has builtin_factory n \<or> dict_has (tr_custom r) n \<or> (\<exists>k. n = ''agent:'' @ k \<and> dict_has (tr_agents r) k)"
  by (auto simp: known_names_def builtin_names_def dict_has_def dict.keys_get image_iff)

text \<open>
  In any registry built by registrations, a known name that is not the \<open>agent:\<close> form of an agent
  tool resolves to an entry of that name, and so does the identifier of every agent tool.
\<close>

theorem known_names_resolve:
  assumes "n \<in> set (known_names (fold registry_step ops tr_new)) \<or> dict_has (tr_agents (fold registry_step ops tr_new)) n"
    and "\<not> prefix ''agent:'' n"
  shows "map te_name (resolve_tools (fold registry_step ops tr_new) [n] cfg) = [n]"
proof -
  let ?r = "fold registry_step ops tr_new"
  have ok: "registry_ok ?r" by (rule tool_registry.run_ok)
  from assms have "dict_has builtin_factory n \<or> dict_has (tr_custom ?r) n \<or> dict_has (tr_agents ?r) n"
    by (auto simp: set_known_names)
  then have "resolve_tool ?r cfg n \<noteq> None"
    by (auto simp: resolve_tool_def builtin_create_def dict_has_def split: option.split)
  then obtain e where "resolve_tool ?r cfg n = Some e" by auto
  from this resolve_tool_name [OF ok this] show ?thesis by (simp add: resolve_tools_def List.map_filter_def)
qed

theorem known_names_resolve_witness:
  "map te_name (resolve_tools (fold registry_step [RegisterAgent ''writer'' ''writes''] tr_new) [''writer''] None) = [''writer'']"
  by (rule known_names_resolve) (simp_all add: register_agent_tool_def dict_has_def)

text \<open>
  The name under which an agent tool is listed does not resolve, unless a custom tool or another
  agent happens to have it.
\<close>

theorem listed_agent_names_unresolved:
  assumes "dict_get (tr_custom r) (''agent:'' @ k) = None" "dict_get (tr_agents r) (''agent:'' @ k) = None"
    and "dict_has (tr_agents r) k"
  shows "''agent:'' @ k \<in> set (known_names r) \<and> resolve_tools r [''agent:'' @ k] cfg = []"
  using assms
  by (auto simp: set_known_names resolve_tools_def List.map_filter_def resolve_tool_def builtin_create_def builtin_factory_def)

theorem listed_agent_names_unresolved_witness:
  "''agent:writer'' \<in> set (known_names (register_agent_tool ''writer'' ''writes'' tr_new)) \<and>
   resolve_tools (register_agent_tool ''writer'' ''writes'' tr_new) [''agent:writer''] None = []"
  using listed_agent_names_unresolved [of "register_agent_tool ''writer'' ''writes'' tr_new" "''writer''" None]
  by (simp add: register_agent_tool_def tr_new_def dict_has_def)

end
