(* ===== verification/EventStream.thy ===== *)
theory EventStream
  imports Delivery F64
begin

text \<open>
  \<open>src/event_stream.rs\<close>: collecting the events of an agent run into one response, with the callback
  for partial texts, and the text that reports an error of the run. The stream itself comes from the
  runner; it is a list of items here. \<open>str::to_lowercase\<close> is the parameter \<open>lower\<close>.
\<close>

section \<open>Events\<close>

datatype part = TextPart string | FunctionCall string json "string option" | InlineData string string | OtherPart

record token_count =
  tc_prompt_tokens :: int
  tc_completion_tokens :: int
  tc_total_tokens :: int

record agent_event =
  ae_author :: string
  ae_error_message :: "string option"
  ae_usage :: "token_count option"
  ae_content :: "part list option"
  ae_partial :: bool
  ae_provider_metadata :: "string dict"

datatype agent_item = AgentEvent agent_event | AgentError string

record tool_call_info =
  ti_name :: string
  ti_args :: json
  ti_id :: "string option"

record image_data =
  ig_mime_type :: string
  ig_data :: string

record collected_response =
  cr_text :: string
  cr_tool_calls :: "tool_call_info list"
  cr_images :: "image_data list"
  cr_token_count :: "token_count option"
  cr_max_iterations_reached :: bool
  cr_iteration_count :: "nat option"

text \<open>The variables of the loop.\<close>

record collecting =
  cl_last_partial :: string
  cl_final :: "string option"
  cl_tool_calls :: "tool_call_info list"
  cl_images :: "image_data list"
  cl_tokens :: "token_count option"
  cl_max_iterations :: bool
  cl_iterations :: "nat option"

definition collecting_start :: collecting where
  "collecting_start = \<lparr>cl_last_partial = [], cl_final = None, cl_tool_calls = [], cl_images = [], cl_tokens = None,
     cl_max_iterations = False, cl_iterations = None\<rparr>"

section \<open>One event\<close>

definition warning_sign :: string where "warning_sign = utf8 [0xE2, 0x9A, 0xA0, 0xEF, 0xB8, 0x8F]"

fun text_of_part :: "part \<Rightarrow> string" where
  "text_of_part (TextPart t) = t"
| "text_of_part _ = []"

fun call_of_part :: "part \<Rightarrow> tool_call_info option" where
  "call_of_part (FunctionCall n a i) = Some \<lparr>ti_name = n, ti_args = a, ti_id = i\<rparr>"
| "call_of_part _ = None"

fun image_of_part :: "part \<Rightarrow> image_data option" where
  "image_of_part (InlineData mime d) = (if prefix ''image/'' mime then Some \<lparr>ig_mime_type = mime, ig_data = d\<rparr> else None)"
| "image_of_part _ = None"

definition event_text :: "part list \<Rightarrow> string" where
  "event_text ps = concat (map text_of_part ps)"

definition process_event :: "agent_event \<Rightarrow> collecting \<Rightarrow> collecting" where
  "process_event e s =
     (if ae_author e = ''user'' then s
      else case ae_error_message e of
        Some m \<Rightarrow> s\<lparr>cl_final := Some (warning_sign @ '' Error: '' @ m)\<rparr>
      | None \<Rightarrow>
          (let s1 = (case ae_usage e of Some u \<Rightarrow> s\<lparr>cl_tokens := Some u\<rparr> | None \<Rightarrow> s) in
           case ae_content e of
             None \<Rightarrow> s1
           | Some ps \<Rightarrow>
               (let s2 = s1\<lparr>cl_tool_calls := cl_tool_calls s1 @ List.map_filter call_of_part ps,
                      cl_images := cl_images s1 @ List.map_filter image_of_part ps\<rparr>;
                    t = event_text ps
                in if t = [] then s2
                   else if ae_partial e then s2\<lparr>cl_last_partial := cl_last_partial s2 @ t\<rparr>
                   else s2\<lparr>cl_final := Some t\<rparr>)))"

definition note_limit :: "agent_event \<Rightarrow> collecting \<Rightarrow> collecting" where
  "note_limit e s =
     (if dict_get (ae_provider_metadata e) ''max_iterations_reached'' = Some ''true''
      then (case dict_get (ae_provider_metadata e) ''iteration_count'' of
              Some c \<Rightarrow> s\<lparr>cl_max_iterations := True, cl_iterations := parse_unsigned 4294967295 c\<rparr>
            | None \<Rightarrow> s\<lparr>cl_max_iterations := True\<rparr>)
      else s)"

section \<open>Errors as text\<close>

definition mentions :: "string \<Rightarrow> string list \<Rightarrow> bool" where
  "mentions s ws \<longleftrightarrow> list_ex (contains_str s) ws"

definition blank_line :: string where "blank_line = [CHR 0x0A, CHR 0x0A]"

definition error_rules :: "((string \<Rightarrow> bool) \<times> string) list" where
  "error_rules =
     [(\<lambda>l. mentions l [''api key expired'', ''api_key_invalid''],
         '' API key expired or invalid.'' @ blank_line @ ''Update your GOOGLE_API_KEY in ~/.zshrc and restart the gateway.''),
      (\<lambda>l. mentions l [''api key not valid'', ''invalid api key'', ''incorrect api key''],
         '' Invalid API key.'' @ blank_line @ ''Check your API key configuration and restart the gateway.''),
      (\<lambda>l. mentions l [''quota'', ''rate limit'', ''resource exhausted''],
         '' Rate limit or quota exceeded.'' @ blank_line @ ''Wait a moment and try again, or check your API plan limits.''),
      (\<lambda>l. mentions l [''billing'', ''credit balance'', ''insufficient_quota''],
         '' Billing issue '' @ utf8 [0xE2, 0x80, 0x94] @ '' out of credits.'' @ blank_line @ ''Add credits to your API provider account.''),
      (\<lambda>l. contains_str l ''not found'' \<and> mentions l [''model'', ''models/''],
         '' Model not available.'' @ blank_line @ ''The configured model may have been deprecated. Update the model in gateway.json.''),
      (\<lambda>l. mentions l [''context length'', ''token limit'', ''too many tokens'', ''max.*tokens''],
         '' Message too long for the model'' @ [CHR 0x27] @ ''s context window.'' @ blank_line @ ''Try a shorter message or start a new session with /new.''),
      (\<lambda>l. mentions l [''timeout'', ''timed out''],
         '' Request timed out.'' @ blank_line @ ''The model took too long to respond. Try again.''),
      (\<lambda>l. mentions l [''connection'', ''network'', ''dns''],
         '' Network error '' @ utf8 [0xE2, 0x80, 0x94] @ '' couldn'' @ [CHR 0x27] @ ''t reach the model provider.'' @ blank_line @ ''Check your internet connection.''),
      (\<lambda>l. mentions l [''safety'', ''blocked'', ''content filter'', ''harm''],
         '' Response blocked by safety filter.'' @ blank_line @ ''Try rephrasing your request.''),
      (\<lambda>l. mentions l [''500'', ''internal server error'', ''503'', ''overloaded''],
         '' Model provider is temporarily unavailable.'' @ blank_line @ ''Try again in a moment.'')]"

definition message_key :: string where
  "message_key = quote_char # ''message'' @ [quote_char, CHR '':'']"

text \<open>The message between the next two quotes; the outer option is the panic of the first slice.\<close>

definition inner_message :: "string \<Rightarrow> string option option" where
  "inner_message err =
     (case find_str message_key err of
        None \<Rightarrow> Some None
      | Some i \<Rightarrow>
          map_option (\<lambda>after_msg. Option.bind (split_once quote_char after_msg)
            (\<lambda>(_, rest). Option.bind (split_once quote_char rest) (\<lambda>(msg, _). if msg = [] then None else Some msg)))
          (slice_from (i + 11) err))"

definition shortened_error :: "string \<Rightarrow> string option" where
  "shortened_error err =
     (if length err > 120 then map_option (\<lambda>t. warning_sign @ '' '' @ t) (slice_to 120 err)
      else Some (warning_sign @ '' '' @ err))"

definition format_agent_error :: "(string \<Rightarrow> string) \<Rightarrow> string \<Rightarrow> string option" where
  "format_agent_error lower err =
     (case find (\<lambda>(applies, _). applies (lower err)) error_rules of
        Some (_, t) \<Rightarrow> Some (warning_sign @ t)
      | None \<Rightarrow>
          if contains_str (lower err) ''bad response from server''
          then (case inner_message err of
                  None \<Rightarrow> None
                | Some (Some msg) \<Rightarrow> Some (warning_sign @ '' '' @ msg)
                | Some None \<Rightarrow> shortened_error err)
          else shortened_error err)"

section \<open>The loop\<close>

text \<open>
  The callback may change the world, that is send or edit messages. The result is the variables after
  the loop and the error text, if the stream ended with an error; \<open>None\<close> is a panic.
\<close>

fun collect_loop ::
  "(string \<Rightarrow> string) \<Rightarrow> (string \<Rightarrow> 'w \<Rightarrow> 'w) option \<Rightarrow> agent_item list \<Rightarrow> collecting \<Rightarrow> 'w \<Rightarrow> 'w \<times> (collecting \<times> string option) option" where
  "collect_loop lower cb [] s w = (w, Some (s, None))"
| "collect_loop lower cb (AgentError err # items) s w =
     (w, map_option (\<lambda>t. (s, Some t)) (format_agent_error lower err))"
| "collect_loop lower cb (AgentEvent e # items) s w =
     (let s1 = process_event e (note_limit e s);
          w1 = (case cb of Some f \<Rightarrow> if cl_last_partial s1 \<noteq> cl_last_partial s \<and> cl_final s1 = None then f (cl_last_partial s1) w else w
                         | None \<Rightarrow> w)
      in collect_loop lower cb items s1 w1)"

definition resolve_text :: "string option \<Rightarrow> string \<Rightarrow> string option \<Rightarrow> string" where
  "resolve_text final_text last_partial error_text =
     (case error_text of Some e \<Rightarrow> e | None \<Rightarrow> (case final_text of Some t \<Rightarrow> t | None \<Rightarrow> last_partial))"

definition collect_with ::
  "(string \<Rightarrow> string) \<Rightarrow> (string \<Rightarrow> 'w \<Rightarrow> 'w) option \<Rightarrow> agent_item list \<Rightarrow> 'w \<Rightarrow> 'w \<times> collected_response option" where
  "collect_with lower cb items w =
     (case collect_loop lower cb items collecting_start w of
        (w1, r) \<Rightarrow> (w1, map_option (\<lambda>(s, e). \<lparr>cr_text = resolve_text (cl_final s) (cl_last_partial s) e,
            cr_tool_calls = cl_tool_calls s, cr_images = cl_images s, cr_token_count = cl_tokens s,
            cr_max_iterations_reached = cl_max_iterations s, cr_iteration_count = cl_iterations s\<rparr>) r))"

definition collect :: "(string \<Rightarrow> string) \<Rightarrow> agent_item list \<Rightarrow> collected_response option" where
  "collect lower items = snd (collect_with lower None items ())"

section \<open>What is collected\<close>

definition final_of :: "agent_event \<Rightarrow> string option" where
  "final_of e =
     (if ae_author e = ''user'' then None
      else case ae_error_message e of
        Some m \<Rightarrow> Some (warning_sign @ '' Error: '' @ m)
      | None \<Rightarrow> (case ae_content e of
            Some ps \<Rightarrow> if ae_partial e \<or> event_text ps = [] then None else Some (event_text ps)
          | None \<Rightarrow> None))"

definition partial_of :: "agent_event \<Rightarrow> string" where
  "partial_of e =
     (if ae_author e = ''user'' \<or> ae_error_message e \<noteq> None \<or> \<not> ae_partial e then []
      else case ae_content e of Some ps \<Rightarrow> event_text ps | None \<Rightarrow> [])"

definition calls_of :: "agent_event \<Rightarrow> tool_call_info list" where
  "calls_of e =
     (if ae_author e = ''user'' \<or> ae_error_message e \<noteq> None then []
      else case ae_content e of Some ps \<Rightarrow> List.map_filter call_of_part ps | None \<Rightarrow> [])"

lemma note_limit_fields [simp]:
  "cl_last_partial (note_limit e s) = cl_last_partial s" "cl_final (note_limit e s) = cl_final s"
  "cl_tool_calls (note_limit e s) = cl_tool_calls s"
  by (simp_all add: note_limit_def split: option.split)

lemma process_event_fields:
  "cl_last_partial (process_event e s) = cl_last_partial s @ partial_of e"
  "cl_final (process_event e s) = (case final_of e of Some t \<Rightarrow> Some t | None \<Rightarrow> cl_final s)"
  "cl_tool_calls (process_event e s) = cl_tool_calls s @ calls_of e"
  by (auto simp: process_event_def partial_of_def final_of_def calls_of_def Let_def split: option.splits)

lemmas event_fields = process_event_fields note_limit_fields

definition seen :: "agent_event list \<Rightarrow> collecting \<Rightarrow> collecting" where
  "seen es s = fold (\<lambda>e s. process_event e (note_limit e s)) es s"


text \<open>The events up to the first error of the stream, and this error.\<close>

fun events_before :: "agent_item list \<Rightarrow> agent_event list" where
  "events_before [] = []"
| "events_before (AgentError err # items) = []"
| "events_before (AgentEvent e # items) = e # events_before items"

fun stream_error :: "agent_item list \<Rightarrow> string option" where
  "stream_error [] = None"
| "stream_error (AgentError err # items) = Some err"
| "stream_error (AgentEvent e # items) = stream_error items"

lemma collect_loop_items:
  "snd (collect_loop lower cb items s w) =
     (case stream_error items of
        None \<Rightarrow> Some (seen (events_before items) s, None)
      | Some err \<Rightarrow> map_option (\<lambda>t. (seen (events_before items) s, Some t)) (format_agent_error lower err))"
  by (induction items arbitrary: s w rule: events_before.induct) (simp_all add: seen_def Let_def split: option.split)


lemma stream_error_first: "stream_error (map AgentEvent es @ AgentError err # rest) = Some err"
  by (induction es) simp_all

lemma collect_error:
  "map_option cr_text (collect lower (map AgentEvent es @ AgentError err # rest)) = format_agent_error lower err"
proof -
  obtain r where l: "collect_loop lower None (map AgentEvent es @ AgentError err # rest) collecting_start () = ((), r)"
    by (metis (full_types) old.unit.exhaust surj_pair)
  then show ?thesis
    using collect_loop_items [of lower None "map AgentEvent es @ AgentError err # rest" collecting_start "()"]
    by (cases "format_agent_error lower err") (simp_all add: collect_def collect_with_def resolve_text_def stream_error_first)
qed

section \<open>Partial texts\<close>

definition grown :: "string \<Rightarrow> string list \<Rightarrow> string list" where
  "grown base ps = map (\<lambda>i. base @ concat (take (Suc i) ps)) [0..<length ps]"

lemma grown_simps:
  "grown base [] = []"
  "grown base (t # ps) = (base @ t) # grown (base @ t) ps"
  by (simp_all add: grown_def upt_conv_Cons map_Suc_upt [symmetric] del: upt_Suc)

definition pieces :: "agent_event list \<Rightarrow> string list" where
  "pieces es = filter (\<lambda>t. t \<noteq> []) (map partial_of (takeWhile (\<lambda>e. final_of e = None) es))"

lemma pieces_simps:
  "pieces [] = []"
  "pieces (e # es) = (if final_of e \<noteq> None then [] else if partial_of e = [] then pieces es else partial_of e # pieces es)"
  by (simp_all add: pieces_def)

lemma record_partials:
  "fst (collect_loop lower (Some (\<lambda>t w. w @ [t])) (map AgentEvent es) s w) =
     (if cl_final s \<noteq> None then w else w @ grown (cl_last_partial s) (pieces es))"
proof (induction es arbitrary: s w)
  case Nil
  then show ?case by (simp add: pieces_simps grown_simps)
next
  case (Cons e es)
  show ?case
    by (cases "final_of e"; cases "cl_final s")
      (simp_all add: Cons event_fields Let_def pieces_simps grown_simps)
qed

lemma collect_with_fst: "fst (collect_with lower cb items w) = fst (collect_loop lower cb items collecting_start w)"
  by (simp add: collect_with_def case_prod_beta)

lemma collecting_start_simps: "cl_final collecting_start = None" "cl_last_partial collecting_start = []"
  by (simp_all add: collecting_start_def)

text \<open>
  The texts shown while a run goes on are the growing prefixes of the partial texts put together,
  one for each non-empty piece, and no text is shown after the first complete one.
\<close>

theorem partial_texts_grow:
  "fst (collect_with lower (Some (\<lambda>t w. w @ [t])) (map AgentEvent es) []) = grown [] (pieces es)"
  by (simp add: collect_with_fst record_partials collecting_start_simps)

section \<open>Errors\<close>

text \<open>
  Of an error with compact JSON, without a space after the colon, the text between the message
  and the next quote is shown, usually a comma, and not the message; with a space the message is shown.
\<close>

theorem compact_error_loses_message:
  assumes "find (\<lambda>(applies, _). applies (lower err)) error_rules = None"
    and "contains_str (lower err) ''bad response from server''"
    and "err = pre @ message_key @ gap @ quote_char # msg @ quote_char # sep @ quote_char # rest"
    and "find_str message_key err = Some (length pre)" and "gap \<in> {[], '' ''}"
    and "quote_char \<notin> set msg \<union> set sep" "msg \<noteq> []" "sep \<noteq> []" "\<not> is_continuation (hd msg)"
  shows "format_agent_error lower err = Some (warning_sign @ '' '' @ (if gap = [] then sep else msg))"
proof -
  have k: "length message_key = 10" by (simp add: message_key_def)
  have q: "\<not> is_continuation quote_char" by (simp add: is_continuation_def quote_char_def)
  have d: "drop (length pre + 11) err = (if gap = [] then [] else [quote_char]) @ msg @ quote_char # sep @ quote_char # rest"
    using assms(3,5) k by auto
  have l: "length pre + 11 < length err" using assms(3,5,7) k by (auto simp: neq_Nil_conv)
  then have "err ! (length pre + 11) = hd (drop (length pre + 11) err)" by (simp add: hd_drop_conv_nth)
  then have "\<not> is_continuation (err ! (length pre + 11))"
    using d q assms(7,9) by auto
  with l d have sl: "slice_from (length pre + 11) err = Some ((if gap = [] then [] else [quote_char]) @ msg @ quote_char # sep @ quote_char # rest)"
    by (simp add: slice_from_def is_char_boundary_def)
  have "split_once quote_char (msg @ quote_char # sep @ quote_char # rest) = Some (msg, sep @ quote_char # rest)"
    "split_once quote_char (sep @ quote_char # rest) = Some (sep, rest)"
    using assms(6) by (auto intro: split_once_append)
  with assms(4,7,8) sl have "inner_message err = Some (Some (if gap = [] then sep else msg))"
    by (simp add: inner_message_def)
  with assms(1,2) show ?thesis by (simp add: format_agent_error_def)
qed

definition demo_error :: "string \<Rightarrow> string" where
  "demo_error gap = ''bad response from server: {'' @ message_key @ gap @ quote_char # ''no such key'' @ quote_char # '','' @ quote_char # ''type''"

lemma demo_error_rules:
  "find (\<lambda>(applies, _). applies (id (demo_error []))) error_rules = None"
  "find (\<lambda>(applies, _). applies (id (demo_error '' ''))) error_rules = None"
  "contains_str (id (demo_error [])) ''bad response from server''"
  "contains_str (id (demo_error '' '')) ''bad response from server''"
  "find_str message_key (demo_error []) = Some (length ''bad response from server: {'')"
  "find_str message_key (demo_error '' '') = Some (length ''bad response from server: {'')"
  by code_simp+

theorem compact_error_loses_message_witness:
  "format_agent_error id (demo_error []) = Some (warning_sign @ '' ,'') \<and> format_agent_error id (demo_error '' '') = Some (warning_sign @ '' no such key'')"
proof
  have m: "quote_char \<notin> set ''no such key'' \<union> set '',''" "\<not> is_continuation (hd ''no such key'')"
    by (simp_all add: quote_char_def is_continuation_def)
  show "format_agent_error id (demo_error []) = Some (warning_sign @ '' ,'')"
    using compact_error_loses_message [of id "demo_error []" "''bad response from server: {''" "[]" "''no such key''" "'',''" "''type''"]
      demo_error_rules m by (simp add: demo_error_def)
  show "format_agent_error id (demo_error '' '') = Some (warning_sign @ '' no such key'')"
    using compact_error_loses_message [of id "demo_error '' ''" "''bad response from server: {''" "'' ''" "''no such key''" "'',''" "''type''"]
      demo_error_rules m by (simp add: demo_error_def)
qed

text \<open>
  An error of more than 120 bytes that no rule covers and that has a character of several bytes
  across that index is not reported: cutting it there panics and ends the handling of the message.
\<close>

theorem long_error_panics:
  assumes "find (\<lambda>(applies, _). applies (lower err)) error_rules = None"
    and "\<not> contains_str (lower err) ''bad response from server''"
    and "120 < length err" "is_continuation (err ! 120)"
  shows "collect lower (map AgentEvent es @ AgentError err # rest) = None"
proof -
  have "format_agent_error lower err = None"
    using assms by (simp add: format_agent_error_def shortened_error_def slice_to_def is_char_boundary_def)
  with collect_error [of lower es err rest] show ?thesis by simp
qed

definition demo_long_error :: string where
  "demo_long_error = replicate 119 (CHR ''x'') @ utf8 [0xC3, 0xA9] @ ''!''"

theorem long_error_panics_witness:
  "collect id (map AgentEvent [] @ AgentError demo_long_error # []) = None"
proof (rule long_error_panics)
  have e: "demo_long_error = CHR ''x'' # replicate 118 (CHR ''x'') @ utf8 [0xC3, 0xA9] @ ''!''"
    by (simp add: demo_long_error_def numeral_eq_Suc)
  have set: "set demo_long_error = {CHR ''x'', char_of (0xC3 :: nat), char_of (0xA9 :: nat), CHR ''!''}"
    by (simp add: demo_long_error_def utf8_def insert_commute)
  have no: "\<not> contains_str demo_long_error p" if "last p \<notin> set demo_long_error" "p \<noteq> []" for p
    using that by (auto simp: contains_str_sublist sublist_def) (metis UnCI last_in_set set_append)
  show "find (\<lambda>(applies, _). applies (id demo_long_error)) error_rules = None"
    by (simp add: error_rules_def mentions_def no set char_of_def)
  show "\<not> contains_str (id demo_long_error) ''bad response from server''"
    by (simp add: no set char_of_def)
  show "120 < length demo_long_error" by (simp add: demo_long_error_def utf8_def)
  show "is_continuation (demo_long_error ! 120)"
    by (simp add: demo_long_error_def utf8_def nth_append is_continuation_def)
qed

end
