(* ===== verification/TaskLog.thy ===== *)
theory TaskLog
  imports Prelude
begin

text \<open>
  \<open>src/task_log.rs\<close>: the log of scheduled tasks, a table with an auto-incremented key. Statements on
  it do not fail in the model; a failed one changes nothing and reads as no entries.
\<close>

section \<open>The table\<close>

record task_log_entry =
  tl_id :: nat
  tl_task_id :: string
  tl_timestamp :: string
  tl_event_type :: string
  tl_message :: string

definition event_fired :: string where "event_fired = ''fired''"
definition event_skipped :: string where "event_skipped = ''skipped''"
definition event_delivered :: string where "event_delivered = ''delivered''"
definition event_failed :: string where "event_failed = ''failed''"
definition event_response :: string where "event_response = ''response''"

text \<open>\<open>AUTOINCREMENT\<close> keeps the largest key ever given, so keys are not used twice.\<close>

record task_log =
  tk_rows :: "task_log_entry list"
  tk_last_id :: nat

definition task_log_open :: task_log where
  "task_log_open = \<lparr>tk_rows = [], tk_last_id = 0\<rparr>"

text \<open>A limit is passed as a signed number, and SQLite reads a negative limit as none.\<close>

definition sql_limit :: "nat \<Rightarrow> 'a list \<Rightarrow> 'a list" where
  "sql_limit n xs = (if n < 2 ^ 63 then take n xs else xs)"

definition newest_first :: "task_log_entry list \<Rightarrow> task_log_entry list" where
  "newest_first es = rev (sort_key tl_id es)"

definition log_event :: "string \<Rightarrow> string \<Rightarrow> string \<Rightarrow> string \<Rightarrow> task_log \<Rightarrow> task_log" where
  "log_event now task_id event_type message db =
     db\<lparr>tk_rows := tk_rows db @ [\<lparr>tl_id = Suc (tk_last_id db), tl_task_id = task_id, tl_timestamp = now,
          tl_event_type = event_type, tl_message = message\<rparr>],
        tk_last_id := Suc (tk_last_id db)\<rparr>"

definition get_logs :: "string \<Rightarrow> nat \<Rightarrow> task_log \<Rightarrow> task_log_entry list" where
  "get_logs task_id limit db = sql_limit limit (newest_first (filter (\<lambda>e. tl_task_id e = task_id) (tk_rows db)))"

definition get_all_logs :: "nat \<Rightarrow> task_log \<Rightarrow> task_log_entry list" where
  "get_all_logs limit db = sql_limit limit (newest_first (tk_rows db))"

definition prune :: "nat \<Rightarrow> task_log \<Rightarrow> task_log" where
  "prune keep db =
     db\<lparr>tk_rows := filter (\<lambda>e. tl_id e \<in> set (map tl_id (get_logs (tl_task_id e) keep db))) (tk_rows db)\<rparr>"

section \<open>The log is a journal\<close>

datatype log_op = LogEvent string string string string | Prune nat

fun log_op_step :: "log_op \<Rightarrow> task_log \<Rightarrow> task_log" where
  "log_op_step (LogEvent now i t m) db = log_event now i t m db"
| "log_op_step (Prune keep) db = prune keep db"

definition journal :: "task_log \<Rightarrow> bool" where
  "journal db \<longleftrightarrow> sorted (map tl_id (tk_rows db)) \<and> distinct (map tl_id (tk_rows db)) \<and> list_all (\<lambda>e. tl_id e \<le> tk_last_id db) (tk_rows db)"

lemma sorted_map_filter: "sorted (map f xs) \<Longrightarrow> sorted (map f (filter P xs))"
  by (induction xs) auto

interpretation task_log: operation_machine task_log_open log_op_step journal
proof
  show "journal task_log_open" by (simp add: journal_def task_log_open_def)
next
  fix db and ev :: log_op
  assume "journal db"
  then show "journal (log_op_step ev db)"
    by (cases ev) (auto simp: journal_def log_event_def prune_def sorted_append list_all_iff sorted_map_filter distinct_map_filter)
qed

lemma newest_first_filter: "journal db \<Longrightarrow> newest_first (filter P (tk_rows db)) = rev (filter P (tk_rows db))"
  by (simp add: newest_first_def journal_def sort_key_id_if_sorted sorted_map_filter)

lemma set_sql_limit: "set (sql_limit n xs) \<subseteq> set xs"
  by (auto simp: sql_limit_def dest: in_set_takeD)

lemma filter_kept:
  assumes "distinct (map f xs)"
  shows "filter (\<lambda>x. f x \<in> set (map f (sql_limit n (rev xs)))) xs = rev (sql_limit n (rev xs))"
proof -
  have *: "filter (\<lambda>x. f x \<in> set (map f ys)) (zs @ ys) = ys" if "distinct (map f (zs @ ys))" for zs ys
    using that by (induction zs) (auto simp: filter_id_conv)
  have "rev (sql_limit n (rev xs)) = (if n < 2 ^ 63 then drop (length xs - n) xs else xs)"
    by (simp add: sql_limit_def rev_take)
  moreover have "xs = take (length xs - n) xs @ drop (length xs - n) xs" by simp
  ultimately show ?thesis
    using * [of "take (length xs - n) xs" "drop (length xs - n) xs"] assms
    by (auto simp: sql_limit_def filter_id_conv) (metis append_take_drop_id rev_rev_ident rev_take set_rev)
qed

lemma prune_rows:
  assumes "journal db"
  shows "filter (\<lambda>e. tl_task_id e = i) (tk_rows (prune keep db)) = rev (get_logs i keep db)"
proof -
  let ?rows = "filter (\<lambda>e. tl_task_id e = i) (tk_rows db)"
  have g: "get_logs i keep db = sql_limit keep (rev ?rows)"
    by (simp add: get_logs_def newest_first_filter [OF assms])
  have "filter (\<lambda>e. tl_task_id e = i) (tk_rows (prune keep db)) = filter (\<lambda>e. tl_id e \<in> set (map tl_id (get_logs i keep db))) ?rows"
    by (auto simp: prune_def intro!: filter_cong)
  moreover have "distinct (map tl_id ?rows)"
    using assms by (simp add: journal_def distinct_map_filter)
  ultimately show ?thesis using filter_kept [of tl_id ?rows keep] by (simp only: g)
qed

text \<open>
  In any log that was written and pruned in some order, pruning keeps exactly the newest entries
  of every task: reading the log of a task afterwards gives what a read limited to the kept number
  gave before.
\<close>

theorem prune_keeps_newest:
  assumes "keep < 2 ^ 63" "limit < 2 ^ 63"
  shows "get_logs i limit (prune keep (fold log_op_step ops task_log_open)) = get_logs i (min limit keep) (fold log_op_step ops task_log_open)"
proof -
  let ?db = "fold log_op_step ops task_log_open"
  have j: "journal ?db" by (rule task_log.run_ok)
  have "journal (prune keep ?db)"
    using task_log.apply_ok [OF j, of "Prune keep"] by simp
  then have "get_logs i limit (prune keep ?db) = sql_limit limit (rev (filter (\<lambda>e. tl_task_id e = i) (tk_rows (prune keep ?db))))"
    by (simp only: get_logs_def newest_first_filter)
  then have "get_logs i limit (prune keep ?db) = sql_limit limit (get_logs i keep ?db)"
    by (simp only: prune_rows [OF j] rev_rev_ident)
  with assms show ?thesis by (auto simp: get_logs_def sql_limit_def)
qed

theorem prune_keeps_newest_witness:
  "map tl_message (get_logs ''a'' 5 (prune 2 (fold log_op_step
      [LogEvent ''t'' ''a'' event_fired ''1'', LogEvent ''t'' ''b'' event_fired ''2'', LogEvent ''t'' ''a'' event_skipped ''3'',
       LogEvent ''t'' ''a'' event_fired ''4''] task_log_open))) = [''4'', ''3'']"
  by (subst prune_keeps_newest)
    (simp_all add: get_logs_def newest_first_def sql_limit_def log_event_def task_log_open_def)

end
