(* ===== verification/ReplyDelivery.thy ===== *)
theory ReplyDelivery
  imports DmPairing Delivery TaskLog
begin

text \<open>
  How the gateway sends texts to users, from \<open>src/gateway.rs\<close>: \<open>deliver_response\<close> and \<open>send_reply\<close>,
  the choice of the recipient, the delivery of a response in chunks of the channel's length, and the
  suppression of replies to scheduled tasks. \<open>None\<close> is the panic of slicing inside a character.
\<close>

section \<open>Replies\<close>

definition key_of :: "inbound_message \<Rightarrow> channel_key" where
  "key_of m = \<lparr>ck_channel_type = im_channel_type m, ck_account_id = im_account_id m\<rparr>"

definition recipient_of :: "inbound_message \<Rightarrow> string" where
  "recipient_of m =
     (if im_is_group m then (case im_group_id m of Some g \<Rightarrow> g | None \<Rightarrow> im_sender_id m) else im_sender_id m)"

text \<open>The streaming mode is configured for Telegram only.\<close>

definition resolve_stream_mode :: "string option \<Rightarrow> channel_type \<Rightarrow> string option" where
  "resolve_stream_mode telegram_mode t = (case t of Telegram \<Rightarrow> telegram_mode | _ \<Rightarrow> None)"

definition message_ref_for :: "inbound_message \<Rightarrow> string \<Rightarrow> message_ref" where
  "message_ref_for m recipient = \<lparr>mr_channel_type = im_channel_type m, mr_account_id = im_account_id m,
     mr_recipient_id = recipient, mr_message_id = None, mr_reply_to = Some (im_platform_message_id m)\<rparr>"

text \<open>The chunks go out one after the other until one fails.\<close>

fun deliver_chunks ::
  "bool \<Rightarrow> 'w channel_io \<Rightarrow> message_ref \<Rightarrow> string list \<Rightarrow> streaming_state \<Rightarrow> 'w \<Rightarrow> 'w \<times> (string, unit) result" where
  "deliver_chunks streaming io r [] st w = (w, Ok ())"
| "deliver_chunks streaming io r (c # cs) st w =
     (case on_complete streaming io r c st w of
        (w1, st1, Ok _) \<Rightarrow> deliver_chunks streaming io r cs st1 w1
      | (w1, _, Err e) \<Rightarrow> (w1, Err e))"

definition deliver_response ::
  "(channel_key \<Rightarrow> 'w channel_io option) \<Rightarrow> string option \<Rightarrow> inbound_message \<Rightarrow> string \<Rightarrow> 'w \<Rightarrow> ('w \<times> (string, unit) result) option" where
  "deliver_response channels telegram_mode m txt w =
     (case channels (key_of m) of
        None \<Rightarrow> Some (w, Ok ())
      | Some io \<Rightarrow>
          map_option (\<lambda>chunks. deliver_chunks (selects_streaming io (resolve_stream_mode telegram_mode (im_channel_type m))) io
              (message_ref_for m (recipient_of m)) chunks sd_new w)
            (split_message txt (max_message_length (im_channel_type m))))"

text \<open>A failed reply is only logged.\<close>

definition send_reply ::
  "(channel_key \<Rightarrow> 'w channel_io option) \<Rightarrow> string option \<Rightarrow> inbound_message \<Rightarrow> string \<Rightarrow> 'w \<Rightarrow> 'w option" where
  "send_reply channels telegram_mode m txt w = map_option fst (deliver_response channels telegram_mode m txt w)"

section \<open>Scheduled tasks\<close>

text \<open>
  A scheduled message to a target that is not a number goes to the first paired user of the channel.
\<close>

definition is_numeric :: "string \<Rightarrow> bool" where
  "is_numeric s \<longleftrightarrow> list_all (\<lambda>c. 48 \<le> (of_char c :: nat) \<and> (of_char c :: nat) \<le> 57) s"

definition delivery_recipient :: "paired_user list \<Rightarrow> inbound_message \<Rightarrow> string" where
  "delivery_recipient paired m =
     (let r = recipient_of m in
      if (\<exists>j. im_source m = FromCron j) \<and> \<not> is_numeric r
      then (case find (\<lambda>u. pu_channel_type u = show_channel (im_channel_type m)) paired of
              Some u \<Rightarrow> pu_user_id u | None \<Rightarrow> r)
      else r)"

definition suppress_keyword :: "(string \<times> string option) list \<Rightarrow> string \<Rightarrow> string option" where
  "suppress_keyword jobs job_id =
     (case Option.bind (find (\<lambda>j. fst j = job_id) jobs) snd of
        Some k \<Rightarrow> Some k
      | None \<Rightarrow> if job_id = ''heartbeat'' then Some ''HEARTBEAT_OK'' else None)"

definition is_suppressed :: "(string \<Rightarrow> string) \<Rightarrow> string \<Rightarrow> string \<Rightarrow> bool" where
  "is_suppressed lower keyword response =
     (let t = trim response; tl = lower t; kl = lower keyword
      in tl = kl \<or> prefix kl tl \<or> suffix kl tl \<or> prefix tl kl \<or> (length t \<le> 5 \<and> t \<noteq> []))"

text \<open>The logs after a delivery; \<open>&response[..100]\<close> can panic.\<close>

definition log_delivered :: "string \<Rightarrow> string \<Rightarrow> string \<Rightarrow> task_log \<Rightarrow> task_log option" where
  "log_delivered now job response db =
     map_option (\<lambda>preview. log_event now job event_response response (log_event now job event_delivered (''Delivered: '' @ preview) db))
       (if length response > 100 then slice_to 100 response else Some response)"

text \<open>
  A reply to a scheduled task that has a keyword is dropped whenever it is at most five bytes long, a
  beginning of the keyword, or blank, whatever it says.
\<close>

theorem short_task_replies_dropped:
  assumes "suppress_keyword jobs job = Some k" and "length (trim response) \<le> 5 \<or> prefix (lower (trim response)) (lower k)"
    and "lower [] = []"
  shows "is_suppressed lower (the (suppress_keyword jobs job)) response"
  using assms by (auto simp: is_suppressed_def Let_def)

theorem short_task_replies_dropped_witness:
  "is_suppressed id (the (suppress_keyword [] ''heartbeat'')) ''FIRE!''"
  by (rule short_task_replies_dropped) (simp_all add: suppress_keyword_def trim_eval bit_Suc_0_iff)

section \<open>Chunks of a streamed reply\<close>

lemma deliver_chunks_edit_all:
  assumes "faithful_channel io shown" "ss_sent_message_id st = Some i"
    and "deliver_chunks True io r cs st w = (w', Ok ())" "cs \<noteq> []"
  shows "shown w' = (shown w)(i \<mapsto> last cs)"
  using assms(2-4)
proof (induction cs arbitrary: st w)
  case (Cons c cs)
  obtain w1 x where e: "try_edit io r c i (st\<lparr>ss_latest_text := c\<rparr>) w = (w1, x)"
    by (cases "try_edit io r c i (st\<lparr>ss_latest_text := c\<rparr>) w")
  with Cons.prems have x: "x = Ok ()" and rest: "deliver_chunks True io r cs (st\<lparr>ss_latest_text := c\<rparr>) w1 = (w', Ok ())"
    by (cases x; simp add: on_complete_def streaming_complete_def Let_def)+
  have s: "shown w1 = (shown w)(i \<mapsto> c)"
    using try_edit_shown [OF assms(1) e] x by simp
  show ?case
  proof (cases "cs = []")
    case True
    with rest s show ?thesis by simp
  next
    case False
    with Cons.IH [OF _ rest] Cons.prems(1) s show ?thesis by (simp add: fun_eq_iff)
  qed
qed simp

text \<open>
  A reply that was streamed and is longer than a message of the channel ends as its last chunk alone:
  if partial texts have been shown and every chunk of the complete text is delivered with success, the
  one new message on the channel shows the last chunk and the others are nowhere.
\<close>

theorem streamed_reply_keeps_last_chunk:
  assumes "faithful_channel io shown" "partials io r ts sd_new w = (w1, st)" "ss_sent_message_id st \<noteq> None"
    and "split_message txt max_len = Some cs" "cs \<noteq> []" "deliver_chunks True io r cs st w1 = (w2, Ok ())"
  shows "\<exists>i. shown w i = None \<and> shown w2 = (shown w)(i \<mapsto> last cs)"
proof -
  obtain i where i: "ss_sent_message_id st = Some i" using assms(3) by auto
  have "one_shown shown w st w1"
    using one_shown_partials [OF assms(1) _ assms(2), of w] by (simp add: one_shown_def sd_new_def)
  then obtain t where "shown w i = None" "shown w1 = (shown w)(i \<mapsto> t)"
    using i by (auto simp: one_shown_def)
  with deliver_chunks_edit_all [OF assms(1) i assms(6,5)] show ?thesis by auto
qed

theorem streamed_reply_keeps_last_chunk_witness:
  "(case partials demo_io demo_ref [''abc''] sd_new [''hello''] of (w1, st) \<Rightarrow>
      case deliver_chunks True demo_io demo_ref [''abc'', ''def''] st w1 of (w2, r) \<Rightarrow>
        split_message ''abcdef'' 3 = Some [''abc'', ''def''] \<and> r = Ok () \<and> w2 = [''hello'', ''def'']
        \<and> (\<exists>i. demo_shown [''hello''] i = None \<and> demo_shown w2 = (demo_shown [''hello''])(i \<mapsto> ''def'')))"
proof -
  obtain w1 st where p: "partials demo_io demo_ref [''abc''] sd_new [''hello''] = (w1, st)"
    by (cases "partials demo_io demo_ref [''abc''] sd_new [''hello'']")
  obtain w2 r where c: "deliver_chunks True demo_io demo_ref [''abc'', ''def''] st w1 = (w2, r)"
    by (cases "deliver_chunks True demo_io demo_ref [''abc'', ''def''] st w1") auto
  have i: "ss_sent_message_id st = Some ''m''" "w1 = [''hello'', ''abc'']"
    using p by (auto simp: demo_io_def sd_new_def streaming_partial_def outbound_def Let_def)
  then have r: "r = Ok ()" "w2 = [''hello'', ''def'']"
    using c by (auto simp: on_complete_def streaming_complete_def try_edit_def demo_io_def edit_of_def Let_def unary_def)
  have t: "trim_start ''def'' = ''def''"
    by (subst trim_start.simps) (simp add: ws_encodings_def char_of_def bit_Suc_0_iff upt_rec)
  have "split_loop 3 ''def'' = Some [''def'']" by (subst split_loop.simps) simp
  then have s: "split_message ''abcdef'' 3 = Some [''abc'', ''def'']"
    unfolding split_message_def
    by (subst split_loop.simps) (simp add: is_char_boundary_def is_continuation_def split_point_def rfind_def t)
  show ?thesis
    using streamed_reply_keeps_last_chunk [OF demo_faithful p _ s _ c [unfolded r(1)]] i r p c s by simp
qed

text \<open>
  Without streaming, and with streaming when no partial text was shown, every chunk is a message of its own.
\<close>

fun sent_texts :: "('w \<Rightarrow> string \<Rightarrow> string option) \<Rightarrow> 'w \<Rightarrow> string list \<Rightarrow> 'w \<Rightarrow> bool" where
  "sent_texts shown w [] w' \<longleftrightarrow> shown w' = shown w"
| "sent_texts shown w (c # cs) w' \<longleftrightarrow> (\<exists>i w1. shown w i = None \<and> shown w1 = (shown w)(i \<mapsto> c) \<and> sent_texts shown w1 cs w')"

lemma deliver_chunks_sends:
  assumes "faithful_channel io shown" "\<not> streaming \<or> ss_sent_message_id st = None"
    and "deliver_chunks streaming io r cs st w = (w', Ok ())"
  shows "sent_texts shown w cs w'"
  using assms(2,3)
proof (induction cs arbitrary: st w)
  case (Cons c cs)
  obtain w1 x where e: "ci_send io (outbound r c False) w = (w1, x)" by (cases "ci_send io (outbound r c False) w")
  from e Cons.prems obtain j where x: "x = Ok j"
    by (cases x; cases streaming) (auto simp: on_complete_def streaming_complete_def batch_complete_def Let_def)
  with e Cons.prems obtain st1 where rest: "deliver_chunks streaming io r cs st1 w1 = (w', Ok ())"
    "\<not> streaming \<or> ss_sent_message_id st1 = None"
    by (cases streaming) (auto simp: on_complete_def streaming_complete_def batch_complete_def Let_def)
  from faithful_send [OF assms(1) e] x obtain i where "shown w i = None" "shown w1 = (shown w)(i \<mapsto> c)"
    by (auto simp: outbound_def)
  with Cons.IH [OF rest(2,1)] show ?case by auto
qed simp

text \<open>
  A reply that does not stream, like the gateway's own answers, is shown complete: if it is delivered
  with success every chunk becomes a new message, in order.
\<close>

theorem own_replies_complete:
  assumes "channels (key_of m) = Some io" "faithful_channel io shown"
    and "deliver_response channels telegram_mode m txt w = Some (w', Ok ())"
  shows "\<exists>cs. split_message txt (max_message_length (im_channel_type m)) = Some cs \<and> sent_texts shown w cs w'"
proof -
  from assms(1,3) obtain cs where cs: "split_message txt (max_message_length (im_channel_type m)) = Some cs"
    "deliver_chunks (selects_streaming io (resolve_stream_mode telegram_mode (im_channel_type m))) io
       (message_ref_for m (recipient_of m)) cs sd_new w = (w', Ok ())"
    by (auto simp: deliver_response_def)
  have "ss_sent_message_id sd_new = None" by (simp add: sd_new_def)
  with cs deliver_chunks_sends [OF assms(2) disjI2 cs(2)] show ?thesis by auto
qed

theorem own_replies_complete_witness:
  "\<exists>cs. split_message ''ok'' (max_message_length Telegram) = Some cs \<and> sent_texts demo_shown [''hello''] cs [''hello'', ''ok'']"
  using own_replies_complete [of "\<lambda>k. Some demo_io" "plain_message Telegram ''7'' ''hi''" demo_io demo_shown None "''ok''" "[''hello'']" "[''hello'', ''ok'']"]
    demo_faithful
  by (simp add: deliver_response_def plain_message_def split_message_def on_complete_def batch_complete_def streaming_complete_def
      selects_streaming_def resolve_stream_mode_def sd_new_def demo_io_def outbound_def)

end
