(* ===== verification/SkillFiles.thy ===== *)
theory SkillFiles
  imports ToolRegistry
begin

text \<open>
  \<open>src/skill_loader.rs\<close> and \<open>src/context_coordinator.rs\<close>: skill and convention files with their
  front matter, the index of skills, the choice of a skill for a message, and the tools and
  instructions it brings. A directory is a list of files in the order in which it is read, each with
  its content if it can be read. \<open>serde_json::from_str\<close> (for the front matter), the hash function
  and \<open>str::to_lowercase\<close> are the parameters \<open>from_str\<close>, \<open>hash\<close> and \<open>lower\<close>.
\<close>

section \<open>Documents\<close>

definition default_convention_files :: "string list" where
  "default_convention_files =
     [''CLAW.md'', ''AGENTS.md'', ''AGENT.md'', ''CLAUDE.md'', ''GEMINI.md'', ''COPILOT.md'', ''SKILLS.md'', ''SOUL.md'']"

record skill_document =
  sk_name :: string
  sk_description :: string
  sk_version :: "string option"
  sk_tags :: "string list"
  sk_allowed_tools :: "string list option"
  sk_trigger :: "string option"
  sk_references :: "string list"
  sk_instructions :: string
  sk_content_hash :: string

record frontmatter =
  fm_name :: "string option"
  fm_description :: "string option"
  fm_version :: "string option"
  fm_tags :: "string list"
  fm_allowed_tools :: "string list option"
  fm_trigger :: "string option"
  fm_references :: "string list"

definition default_frontmatter :: frontmatter where
  "default_frontmatter = \<lparr>fm_name = None, fm_description = None, fm_version = None, fm_tags = [],
     fm_allowed_tools = None, fm_trigger = None, fm_references = []\<rparr>"

record skill_index =
  sx_by_hash :: "skill_document dict"
  sx_by_name :: "string dict"

definition get_by_hash :: "skill_index \<Rightarrow> string \<Rightarrow> skill_document option" where
  "get_by_hash x h = dict_get (sx_by_hash x) h"

definition get_by_name :: "skill_index \<Rightarrow> string \<Rightarrow> skill_document option" where
  "get_by_name x n = Option.bind (dict_get (sx_by_name x) n) (dict_get (sx_by_hash x))"

definition all_skills :: "skill_index \<Rightarrow> skill_document list" where
  "all_skills x = map snd (sx_by_hash x)"

definition index_len :: "skill_index \<Rightarrow> nat" where
  "index_len x = length (sx_by_hash x)"

section \<open>Front matter\<close>

definition dashes :: string where "dashes = ''---''"

definition strip_line_end :: "string \<Rightarrow> string option" where
  "strip_line_end s = (case strip_prefix newline s of Some r \<Rightarrow> Some r | None \<Rightarrow> strip_prefix [CHR 0x0D, CHR 0x0A] s)"

definition split_frontmatter :: "string \<Rightarrow> string option \<times> string" where
  "split_frontmatter content =
     (let trimmed = trim_start content in
      if \<not> prefix dashes trimmed then (None, content)
      else (let after_dashes = drop 3 trimmed;
                after_open = (case strip_line_end after_dashes of Some r \<Rightarrow> r | None \<Rightarrow> after_dashes)
            in case find_str (newline @ dashes) after_open of
                 None \<Rightarrow> (None, content)
               | Some close_pos \<Rightarrow>
                   (let rest = drop (close_pos + 4) after_open
                    in (Some (take close_pos after_open), case strip_line_end rest of Some r \<Rightarrow> r | None \<Rightarrow> rest))))"

text \<open>The small YAML reader: lines become JSON members as text.\<close>

definition escape_quotes :: "string \<Rightarrow> string" where
  "escape_quotes s = concat (map (\<lambda>c. if c = quote_char then [CHR 0x5C, quote_char] else [c]) s)"

definition in_quotes :: "string \<Rightarrow> string" where
  "in_quotes s = quote_char # escape_quotes s @ [quote_char]"

definition json_array :: "string list \<Rightarrow> string" where
  "json_array items = ''['' @ join '','' (map in_quotes items) @ '']''"

definition unquote :: "string \<Rightarrow> string" where
  "unquote s = trim_matches (CHR 0x27) (trim_matches quote_char s)"

record yaml_state =
  ys_map :: "(string \<times> string) list"
  ys_key :: "string option"
  ys_items :: "string list"
  ys_in_list :: bool

definition yaml_start :: yaml_state where
  "yaml_start = \<lparr>ys_map = [], ys_key = None, ys_items = [], ys_in_list = False\<rparr>"

definition flush_list :: "yaml_state \<Rightarrow> yaml_state" where
  "flush_list s =
     (if ys_in_list s
      then \<lparr>ys_map = (case ys_key s of Some k \<Rightarrow> ys_map s @ [(k, json_array (ys_items s))] | None \<Rightarrow> ys_map s),
             ys_key = None, ys_items = [], ys_in_list = False\<rparr>
      else s)"

definition yaml_member :: "string \<Rightarrow> yaml_state \<Rightarrow> yaml_state" where
  "yaml_member line s =
     (case split_once (CHR '':'') line of
        None \<Rightarrow> s
      | Some (k, v) \<Rightarrow>
          (let key = trim k; val = trim v in
           if val = [] then s\<lparr>ys_key := Some key, ys_in_list := True\<rparr>
           else if prefix ''['' val \<and> suffix '']'' val
           then s\<lparr>ys_map := ys_map s @ [(key, json_array (map (\<lambda>i. unquote (trim i)) (split_on (CHR '','') (butlast (tl val)))))]\<rparr>
           else s\<lparr>ys_map := ys_map s @ [(key, in_quotes (unquote val))]\<rparr>))"

definition yaml_line :: "string \<Rightarrow> yaml_state \<Rightarrow> yaml_state" where
  "yaml_line raw s =
     (let line = trim raw in
      if line = [] \<or> prefix ''#'' line then s
      else if ys_in_list s \<and> prefix ''- '' line then s\<lparr>ys_items := ys_items s @ [unquote (trim (drop 2 line))]\<rparr>
      else yaml_member line (flush_list s))"

definition json_object :: "(string \<times> string) list \<Rightarrow> string" where
  "json_object m = ''{'' @ join '','' (map (\<lambda>(k, v). in_quotes k @ '':'' @ v) m) @ ''}''"

definition yaml_to_json_minimal :: "string \<Rightarrow> string" where
  "yaml_to_json_minimal yaml = json_object (ys_map (flush_list (fold yaml_line (str_lines yaml) yaml_start)))"

type_synonym frontmatter_reader = "string \<Rightarrow> frontmatter option"

definition try_parse_yaml :: "frontmatter_reader \<Rightarrow> string \<Rightarrow> frontmatter option" where
  "try_parse_yaml from_str yaml = from_str (yaml_to_json_minimal yaml)"

definition parse_simple_yaml :: "frontmatter_reader \<Rightarrow> string \<Rightarrow> frontmatter" where
  "parse_simple_yaml from_str yaml = (case try_parse_yaml from_str yaml of Some fm \<Rightarrow> fm | None \<Rightarrow> default_frontmatter)"

section \<open>Loading\<close>

definition hex_digit :: "nat \<Rightarrow> char" where
  "hex_digit n = char_of (if n < 10 then 48 + n else 87 + n)"

definition hex16 :: "64 word \<Rightarrow> string" where
  "hex16 w = map (\<lambda>i. hex_digit (unat w div 16 ^ (15 - i) mod 16)) [0..<16]"

definition content_hash :: "(string \<Rightarrow> 64 word) \<Rightarrow> string \<Rightarrow> string" where
  "content_hash hash content = hex16 (hash content)"

text \<open>\<open>Path::file_stem\<close>: up to the last dot, unless that leaves nothing.\<close>

definition file_stem :: "string \<Rightarrow> string" where
  "file_stem n =
     (let stem = rev (tl (dropWhile (\<lambda>c. c \<noteq> CHR ''.'') (rev n)))
      in if CHR ''.'' \<in> set n \<and> stem \<noteq> [] then stem else n)"

definition name_from_path :: "string \<Rightarrow> string" where
  "name_from_path n = (case strip_suffix ''.skill'' (file_stem n) of Some s \<Rightarrow> s | None \<Rightarrow> file_stem n)"

definition document_of :: "(string \<Rightarrow> 64 word) \<Rightarrow> string \<Rightarrow> string \<Rightarrow> frontmatter \<Rightarrow> string \<Rightarrow> string \<Rightarrow> skill_document" where
  "document_of hash name description fm body content =
     \<lparr>sk_name = name, sk_description = description, sk_version = fm_version fm, sk_tags = fm_tags fm,
      sk_allowed_tools = fm_allowed_tools fm, sk_trigger = fm_trigger fm, sk_references = fm_references fm,
      sk_instructions = body, sk_content_hash = content_hash hash content\<rparr>"

definition parse_skill_strict :: "frontmatter_reader \<Rightarrow> (string \<Rightarrow> 64 word) \<Rightarrow> string \<Rightarrow> skill_document option" where
  "parse_skill_strict from_str hash content =
     (case split_frontmatter content of
        (None, _) \<Rightarrow> None
      | (Some y, body) \<Rightarrow>
          (let fm = (case from_str (yaml_to_json_minimal y) of Some fm \<Rightarrow> fm | None \<Rightarrow> parse_simple_yaml from_str y) in
           case fm_name fm of
             None \<Rightarrow> None
           | Some n \<Rightarrow>
               if n = [] then None
               else (case fm_description fm of
                       None \<Rightarrow> None
                     | Some d \<Rightarrow> if d = [] then None else Some (document_of hash n d fm body content))))"

definition parse_skill_permissive :: "frontmatter_reader \<Rightarrow> (string \<Rightarrow> 64 word) \<Rightarrow> string \<Rightarrow> string \<Rightarrow> skill_document" where
  "parse_skill_permissive from_str hash content file_name =
     (case split_frontmatter content of
        (yaml, body) \<Rightarrow>
          (let derived = name_from_path file_name;
               fm = (case yaml of
                       Some y \<Rightarrow> (case from_str (yaml_to_json_minimal y) of
                           Some fm \<Rightarrow> fm
                         | None \<Rightarrow> (case try_parse_yaml from_str y of Some fm \<Rightarrow> fm | None \<Rightarrow> default_frontmatter))
                     | None \<Rightarrow> default_frontmatter)
           in document_of hash (case fm_name fm of Some n \<Rightarrow> n | None \<Rightarrow> derived)
                (case fm_description fm of Some d \<Rightarrow> d | None \<Rightarrow> ''Convention file: '' @ derived) fm body content))"

type_synonym directory = "(string \<times> string option) list"

definition load_skills :: "frontmatter_reader \<Rightarrow> (string \<Rightarrow> 64 word) \<Rightarrow> directory \<Rightarrow> skill_document list" where
  "load_skills from_str hash dir =
     List.map_filter (\<lambda>(n, content). if suffix ''.skill.md'' n then Option.bind content (parse_skill_strict from_str hash) else None) dir"

definition load_conventions :: "frontmatter_reader \<Rightarrow> (string \<Rightarrow> 64 word) \<Rightarrow> directory \<Rightarrow> string list \<Rightarrow> skill_document list" where
  "load_conventions from_str hash dir extra_patterns =
     List.map_filter (\<lambda>p. Option.bind (dict_get dir p) (map_option (\<lambda>content. parse_skill_permissive from_str hash content p)))
       (default_convention_files @ extra_patterns)"

definition index_skill :: "skill_document \<Rightarrow> skill_index \<Rightarrow> skill_index" where
  "index_skill d x = \<lparr>sx_by_hash = dict_put (sk_content_hash d) d (sx_by_hash x), sx_by_name = dict_put (sk_name d) (sk_content_hash d) (sx_by_name x)\<rparr>"

definition build_index :: "skill_document list \<Rightarrow> skill_index" where
  "build_index skills = fold index_skill skills \<lparr>sx_by_hash = [], sx_by_name = []\<rparr>"

definition reload_skills ::
  "frontmatter_reader \<Rightarrow> (string \<Rightarrow> 64 word) \<Rightarrow> directory \<Rightarrow> directory \<Rightarrow> string list \<Rightarrow> skill_index" where
  "reload_skills from_str hash skills_dir workspace_dir extra_patterns =
     build_index (load_skills from_str hash skills_dir @ load_conventions from_str hash workspace_dir extra_patterns)"

section \<open>Choosing a skill\<close>

text \<open>The skills come in the order of the hash map, which is some order of \<open>all_skills\<close>.\<close>

definition triggered :: "(string \<Rightarrow> string) \<Rightarrow> string \<Rightarrow> skill_document \<Rightarrow> bool" where
  "triggered lower msg s \<longleftrightarrow> (case sk_trigger s of Some t \<Rightarrow> contains_str (lower msg) (lower t) | None \<Rightarrow> False)"

definition auto_selected :: "(string \<Rightarrow> string) \<Rightarrow> string \<Rightarrow> skill_document \<Rightarrow> bool" where
  "auto_selected lower msg s \<longleftrightarrow> sk_trigger s = None \<and>
     (contains_str (lower msg) (lower (sk_name s)) \<or> list_ex (\<lambda>t. contains_str (lower msg) (lower t)) (sk_tags s))"

definition select_skill :: "(string \<Rightarrow> string) \<Rightarrow> string \<Rightarrow> skill_document list \<Rightarrow> skill_document option" where
  "select_skill lower msg skills =
     (case find (triggered lower msg) skills of Some s \<Rightarrow> Some s | None \<Rightarrow> find (auto_selected lower msg) skills)"

definition filter_tools :: "tool_entry list \<Rightarrow> skill_document \<Rightarrow> tool_entry list" where
  "filter_tools tools s =
     (case sk_allowed_tools s of None \<Rightarrow> tools | Some allowed \<Rightarrow> filter (\<lambda>t. list_ex (\<lambda>a. a = te_name t) allowed) tools)"

record skill_context =
  sc_instructions :: string
  sc_filtered_tool_names :: "string list"
  sc_references :: "string list"

definition build_context :: "skill_document \<Rightarrow> string \<Rightarrow> skill_context" where
  "build_context s user_message =
     \<lparr>sc_instructions = (if sk_instructions s = [] then user_message else trim (sk_instructions s) @ newline @ newline @ user_message),
      sc_filtered_tool_names = (case sk_allowed_tools s of Some a \<Rightarrow> a | None \<Rightarrow> []),
      sc_references = sk_references s\<rparr>"

section \<open>The front matter of a file\<close>

lemma find_str_separator:
  assumes "\<not> contains_str a (newline @ dashes)"
  shows "find_str (newline @ dashes) (a @ newline @ dashes @ b) = Some (length a)"
  using assms
proof (induction a)
  case Nil
  then show ?case by (simp add: newline_def dashes_def)
next
  case (Cons c a)
  have "\<not> prefix (newline @ dashes) ((c # a) @ newline @ dashes @ b)"
  proof
    assume p: "prefix (newline @ dashes) ((c # a) @ newline @ dashes @ b)"
    have "c # a = [c] \<or> (\<exists>x. a = [x]) \<or> (\<exists>x y. a = [x, y]) \<or> (\<exists>x y z r. a = x # y # z # r)"
      by (metis list.exhaust)
    with p Cons.prems show False by (auto simp: newline_def dashes_def)
  qed
  with Cons show ?case by simp
qed

lemma trim_start_dash: "trim_start (CHR ''-'' # s) = CHR ''-'' # s"
  by (subst trim_start.simps) (simp add: ws_encodings_def char_of_def bit_Suc_0_iff upt_rec)

text \<open>
  A file of three dashes, a front matter without a line that starts with three dashes, three dashes
  again and a body is split into that front matter and that body.
\<close>

theorem frontmatter_split_roundtrip:
  assumes "\<not> contains_str yaml (newline @ dashes)"
  shows "split_frontmatter (dashes @ newline @ yaml @ newline @ dashes @ newline @ body) = (Some yaml, body)"
proof -
  let ?open = "yaml @ newline @ dashes @ newline @ body"
  have t: "trim_start (dashes @ newline @ ?open) = dashes @ newline @ ?open"
    using trim_start_dash [of "''--'' @ newline @ ?open"] by (simp add: dashes_def)
  have d: "drop 3 (dashes @ newline @ ?open) = newline @ ?open" by (simp add: dashes_def)
  have f: "find_str (newline @ dashes) ?open = Some (length yaml)"
    using find_str_separator [OF assms, of "newline @ body"] by simp
  have r: "drop (length yaml + 4) ?open = newline @ body" by (simp add: newline_def dashes_def)
  show ?thesis
    unfolding split_frontmatter_def Let_def t d
    using f r by (simp add: strip_line_end_def)
qed

theorem frontmatter_split_roundtrip_witness:
  "split_frontmatter (dashes @ newline @ ''name: a'' @ newline @ dashes @ newline @ ''Say hello.'') = (Some ''name: a'', ''Say hello.'')"
  by (rule frontmatter_split_roundtrip) (simp add: newline_def)

section \<open>The small YAML reader\<close>

datatype yaml_value = Scalar string | Inline "string list"

fun yaml_text :: "yaml_value \<Rightarrow> string" where
  "yaml_text (Scalar v) = v"
| "yaml_text (Inline vs) = ''['' @ join '','' vs @ '']''"

fun member_text :: "yaml_value \<Rightarrow> string" where
  "member_text (Scalar v) = in_quotes v"
| "member_text (Inline vs) = json_array (if vs = [] then [[]] else vs)"

definition entry_line :: "string \<times> yaml_value \<Rightarrow> string" where
  "entry_line e = fst e @ '': '' @ yaml_text (snd e)"

text \<open>Values that the reader leaves alone: no quotes and no white space at their ends.\<close>

definition plain_value :: "string \<Rightarrow> bool" where
  "plain_value v \<longleftrightarrow> v \<noteq> [] \<and> trim v = v \<and> unquote v = v"

definition plain_entry :: "string \<times> yaml_value \<Rightarrow> bool" where
  "plain_entry e \<longleftrightarrow>
     trim (entry_line e) = entry_line e \<and> CHR 0x0A \<notin> set (entry_line e) \<and> last (entry_line e) \<noteq> CHR 0x0D
     \<and> CHR '':'' \<notin> set (fst e) \<and> trim (fst e) = fst e \<and> \<not> prefix ''#'' (entry_line e)
     \<and> (case snd e of
          Scalar v \<Rightarrow> plain_value v \<and> \<not> (prefix ''['' v \<and> suffix '']'' v)
        | Inline vs \<Rightarrow> trim (yaml_text (snd e)) = yaml_text (snd e) \<and> list_all (\<lambda>v. plain_value v \<and> CHR '','' \<notin> set v) vs)"

lemma trim_space: "trim (CHR '' '' # s) = trim s"
  by (simp add: trim_def) (subst trim_start.simps, simp add: ws_encodings_def char_of_def bit_Suc_0_iff)

lemma split_on_join: "vs \<noteq> [] \<Longrightarrow> list_all (\<lambda>v. c \<notin> set v) vs \<Longrightarrow> split_on c (join [c] vs) = vs"
proof (induction "[c]" vs rule: join.induct)
  case (2 x)
  then have "c \<notin> set x" by simp
  then show ?case by (induction x) auto
next
  case (3 x y ys)
  have "split_on c (a @ c # b) = a # split_on c b" if "c \<notin> set a" for a b
    using that by (induction a) auto
  with 3 show ?case by simp
qed simp

lemma str_lines_join:
  assumes "list_all (\<lambda>l. CHR 0x0A \<notin> set l \<and> l \<noteq> [] \<and> last l \<noteq> CHR 0x0D) ls"
  shows "str_lines (join newline ls) = ls"
proof (cases "ls = []")
  case True
  then show ?thesis by (simp add: str_lines_def)
next
  case False
  from assms have "split_on (CHR 0x0A) (join newline ls) = ls"
    unfolding newline_def by (intro split_on_join False) (auto simp: list_all_iff)
  moreover from assms have "map strip_cr (butlast ls) = butlast ls" "last ls \<noteq> []"
    using False by (auto simp: list_all_iff strip_cr_def map_idI in_set_butlastD)
  ultimately show ?thesis using False by (simp add: str_lines_def Let_def)
qed

lemma yaml_line_plain:
  assumes "plain_entry e" "\<not> ys_in_list s"
  shows "yaml_line (entry_line e) s = s\<lparr>ys_map := ys_map s @ [(fst e, member_text (snd e))]\<rparr>"
proof -
  obtain k v where e: "e = (k, v)" by force
  have l: "entry_line e \<noteq> []" by (simp add: entry_line_def)
  have s: "split_once (CHR '':'') (entry_line e) = Some (k, CHR '' '' # yaml_text v)"
    using assms(1) by (simp add: entry_line_def e plain_entry_def split_once_append)
  have y: "yaml_line (entry_line e) s = yaml_member (entry_line e) s"
    using assms l by (simp add: yaml_line_def plain_entry_def Let_def flush_list_def)
  have t: "trim k = k" "trim (yaml_text v) = yaml_text v" "yaml_text v \<noteq> []"
    using assms(1) by (cases v; simp add: plain_entry_def e plain_value_def)+
  show ?thesis
  proof (cases v)
    case (Scalar x)
    with assms(1) have "\<not> (prefix ''['' x \<and> suffix '']'' x)" "unquote x = x"
      by (simp_all add: plain_entry_def plain_value_def e)
    with s t y Scalar show ?thesis
      by (simp only: yaml_member_def trim_space e option.case prod.case Let_def yaml_text.simps member_text.simps fst_conv snd_conv if_False)
  next
    case (Inline vs)
    have "map (\<lambda>i. unquote (trim i)) (split_on (CHR '','') (join '','' vs)) = (if vs = [] then [[]] else vs)"
    proof (cases "vs = []")
      case True
      have "trim [] = []" by (simp add: trim_def trim_end_def trim_start.simps trim_rev.simps ws_encodings_def find_None_iff)
      with True show ?thesis by (simp add: unquote_def trim_matches_def)
    next
      case False
      moreover have "list_all (\<lambda>v. CHR '','' \<notin> set v) vs" "map (\<lambda>i. unquote (trim i)) vs = vs"
        using assms(1) Inline e by (auto simp: plain_entry_def plain_value_def list_all_iff map_idI)
      ultimately show ?thesis by (simp add: split_on_join)
    qed
    with assms(1) s t y Inline show ?thesis
      by (simp add: yaml_member_def trim_space e suffix_def butlast_append)
  qed
qed

lemma fold_yaml_lines:
  "list_all plain_entry es \<Longrightarrow> \<not> ys_in_list s \<Longrightarrow>
     fold yaml_line (map entry_line es) s = s\<lparr>ys_map := ys_map s @ map (\<lambda>e. (fst e, member_text (snd e))) es\<rparr>"
  by (induction es arbitrary: s) (simp_all add: yaml_line_plain)

text \<open>
  For entries with plain keys and values, one on a line, the reader makes the JSON object with these
  members in this order, except that an empty list becomes a list of one empty string.
\<close>

theorem plain_yaml_exact:
  assumes "list_all plain_entry es"
  shows "yaml_to_json_minimal (join newline (map entry_line es)) = json_object (map (\<lambda>e. (fst e, member_text (snd e))) es)"
proof -
  have "list_all (\<lambda>l. CHR 0x0A \<notin> set l \<and> l \<noteq> [] \<and> last l \<noteq> CHR 0x0D) (map entry_line es)"
    using assms by (auto simp: list_all_iff plain_entry_def entry_line_def)
  then show ?thesis
    using assms by (simp add: yaml_to_json_minimal_def str_lines_join fold_yaml_lines yaml_start_def flush_list_def)
qed

definition demo_entries :: "(string \<times> yaml_value) list" where
  "demo_entries = [(''name'', Scalar ''greeter''), (''description'', Scalar ''says hello''), (''tags'', Inline [])]"

lemma trim_plain:
  assumes "s \<noteq> []" "list_all (\<lambda>w. hd w \<noteq> hd s \<and> last w \<noteq> last s) ws_encodings"
  shows "trim s = s"
proof -
  have "find (\<lambda>w. w \<noteq> [] \<and> prefix w s) ws_encodings = None"
    using assms by (auto simp: find_None_iff list_all_iff prefix_def)
  then have b: "trim_start s = s" by (simp add: trim_start.simps)
  have "find (\<lambda>w. w \<noteq> [] \<and> prefix (rev w) (rev s)) ws_encodings = None"
    using assms by (auto simp: find_None_iff list_all_iff prefix_def) (metis last_appendR suffixI suffix_to_prefix rev_rev_ident rev_append)
  then have "trim_rev (rev s) = rev s" by (simp add: trim_rev.simps)
  with b show ?thesis by (simp add: trim_def trim_end_def)
qed

lemmas plain_eval = ws_encodings_def char_of_def bit_Suc_0_iff upt_rec

lemma plain_demo: "list_all plain_entry demo_entries"
  by (simp add: demo_entries_def plain_entry_def entry_line_def plain_value_def trim_plain plain_eval unquote_def trim_matches_def
      quote_char_def)

theorem plain_yaml_exact_witness:
  "yaml_to_json_minimal (join newline (map entry_line demo_entries)) = json_object (map (\<lambda>e. (fst e, member_text (snd e))) demo_entries)"
  by (rule plain_yaml_exact) (rule plain_demo)

section \<open>The index\<close>

lemma index_skill_fold:
  "distinct (map sk_content_hash ds) \<Longrightarrow> distinct (map sk_name ds) \<Longrightarrow> d \<in> set ds \<Longrightarrow>
     dict_get (sx_by_name (fold index_skill ds x)) (sk_name d) = Some (sk_content_hash d) \<and>
     dict_get (sx_by_hash (fold index_skill ds x)) (sk_content_hash d) = Some d"
  by (induction ds rule: rev_induct) (auto simp: index_skill_def image_iff)

text \<open>
  If the documents have names and contents of their own, the index finds each by its name and by
  its hash.
\<close>

theorem index_finds_every_skill:
  assumes "distinct (map sk_content_hash ds)" "distinct (map sk_name ds)" "d \<in> set ds"
  shows "get_by_name (build_index ds) (sk_name d) = Some d \<and> get_by_hash (build_index ds) (sk_content_hash d) = Some d"
  using index_skill_fold [OF assms] by (simp add: build_index_def get_by_name_def get_by_hash_def)

definition demo_skill :: "string \<Rightarrow> string \<Rightarrow> string option \<Rightarrow> string list \<Rightarrow> skill_document" where
  "demo_skill n h trigger tags = \<lparr>sk_name = n, sk_description = n, sk_version = None, sk_tags = tags, sk_allowed_tools = None,
     sk_trigger = trigger, sk_references = [], sk_instructions = ''Do it.'', sk_content_hash = h\<rparr>"

theorem index_finds_every_skill_witness:
  "get_by_name (build_index [demo_skill ''a'' ''1'' None [], demo_skill ''b'' ''2'' None []]) ''a'' = Some (demo_skill ''a'' ''1'' None [])"
  using index_finds_every_skill [of "[demo_skill ''a'' ''1'' None [], demo_skill ''b'' ''2'' None []]" "demo_skill ''a'' ''1'' None []"]
  by (simp add: demo_skill_def)

text \<open>
  When AGENTS.md and CLAUDE.md are copies of each other, without front matter, only one document is in
  the index, and looking up AGENTS gives the one called CLAUDE.
\<close>

theorem copied_conventions_collapse:
  assumes "split_frontmatter content = (None, content)"
  shows "let x = build_index (load_conventions from_str hash [(''AGENTS.md'', Some content), (''CLAUDE.md'', Some content)] [])
         in index_len x = 1 \<and> map_option sk_name (get_by_name x ''AGENTS'') = Some ''CLAUDE''"
proof -
  have n: "name_from_path ''AGENTS.md'' = ''AGENTS''" "name_from_path ''CLAUDE.md'' = ''CLAUDE''"
    by (simp_all add: name_from_path_def file_stem_def strip_suffix_def suffix_def)
  have "load_conventions from_str hash [(''AGENTS.md'', Some content), (''CLAUDE.md'', Some content)] [] =
    [parse_skill_permissive from_str hash content ''AGENTS.md'', parse_skill_permissive from_str hash content ''CLAUDE.md'']"
    by (simp add: load_conventions_def default_convention_files_def List.map_filter_simps)
  then show ?thesis using assms n
    by (simp add: build_index_def index_skill_def parse_skill_permissive_def document_of_def default_frontmatter_def
        Let_def index_len_def get_by_name_def)
qed

theorem copied_conventions_collapse_witness:
  "let x = build_index (load_conventions (\<lambda>t. None) (\<lambda>c. 7) [(''AGENTS.md'', Some ''Be brief.''), (''CLAUDE.md'', Some ''Be brief.'')] [])
   in index_len x = 1 \<and> map_option sk_name (get_by_name x ''AGENTS'') = Some ''CLAUDE''"
  by (rule copied_conventions_collapse)
    (simp add: split_frontmatter_def trim_start.simps dashes_def ws_encodings_def char_of_def bit_Suc_0_iff upt_rec)

section \<open>Which skill is chosen\<close>

text \<open>
  In whatever order the skills come, a skill that is chosen is one of them; it was called by its
  trigger, or no skill was and it has no trigger and its name or a tag is in the message; and only if
  there is no such skill none is chosen. Letter case does not matter.
\<close>

theorem selection_exact:
  "case select_skill lower msg skills of
     Some s \<Rightarrow> s \<in> set skills \<and> (triggered lower msg s \<or> (\<not> list_ex (triggered lower msg) skills \<and> auto_selected lower msg s))
   | None \<Rightarrow> \<not> list_ex (\<lambda>s. triggered lower msg s \<or> auto_selected lower msg s) skills"
  by (auto simp: select_skill_def list_ex_iff find_None_iff dest: find_Some_iff [THEN iffD1] split: option.split)

text \<open>
  A loaded skill file without a trigger whose front matter says that it has no tags, with an empty
  list, is chosen for messages that have nothing to do with it: whatever the message is, some skill is chosen.
\<close>

theorem empty_tag_list_matches_everything:
  assumes "list_all plain_entry es" "map_of es ''tags'' = Some (Inline [])"
    and reads: "from_str (json_object (map (\<lambda>e. (fst e, member_text (snd e))) es)) = Some fm"
    and "fm_name fm = Some n" "n \<noteq> []" "fm_description fm = Some d" "d \<noteq> []" "fm_trigger fm = None"
    and "fm_tags fm = (case map_of es ''tags'' of Some (Inline vs) \<Rightarrow> if vs = [] then [[]] else vs | _ \<Rightarrow> [])"
    and "\<not> contains_str (join newline (map entry_line es)) (newline @ dashes)" "lower [] = []"
  shows "select_skill lower msg (all_skills (build_index (load_skills from_str hash
    [(''a.skill.md'', Some (dashes @ newline @ join newline (map entry_line es) @ newline @ dashes @ newline @ body))]))) \<noteq> None"
proof -
  let ?yaml = "join newline (map entry_line es)"
  let ?content = "dashes @ newline @ ?yaml @ newline @ dashes @ newline @ body"
  have s: "split_frontmatter ?content = (Some ?yaml, body)"
    by (rule frontmatter_split_roundtrip) fact
  have f: "from_str (yaml_to_json_minimal ?yaml) = Some fm"
    using plain_yaml_exact [OF assms(1)] reads by simp
  have "parse_skill_strict from_str hash ?content = Some (document_of hash n d fm body ?content)"
    unfolding parse_skill_strict_def s using f assms by simp
  then have "all_skills (build_index (load_skills from_str hash [(''a.skill.md'', Some ?content)])) = [document_of hash n d fm body ?content]"
    by (simp add: load_skills_def List.map_filter_simps suffix_def build_index_def index_skill_def all_skills_def)
  then show ?thesis
    using assms by (simp add: select_skill_def auto_selected_def document_of_def split: option.split)
qed

definition demo_frontmatter :: frontmatter where
  "demo_frontmatter = default_frontmatter\<lparr>fm_name := Some ''greeter'', fm_description := Some ''says hello'', fm_tags := [[]]\<rparr>"

theorem empty_tag_list_matches_everything_witness:
  "select_skill id ''What is the time?'' (all_skills (build_index (load_skills (\<lambda>t. Some demo_frontmatter) (\<lambda>c. 7)
    [(''a.skill.md'', Some (dashes @ newline @ join newline (map entry_line demo_entries) @ newline @ dashes @ newline @ ''Say hello.''))]))) \<noteq> None"
  by (rule empty_tag_list_matches_everything [where fm = demo_frontmatter and n = "''greeter''" and d = "''says hello''", OF plain_demo])
    (simp_all add: demo_frontmatter_def default_frontmatter_def demo_entries_def entry_line_def newline_def dashes_def)

end
