(* ===== verification/PromptContext.thy ===== *)
theory PromptContext
  imports KnowledgeGraph Channel SkillFiles
begin

text \<open>
  What \<open>process_message\<close> of \<open>src/gateway.rs\<close> adds to a message before it reaches an agent (the summary of
  the user's knowledge graph, onboarding instructions, matches in the graph and in the documents, the
  chosen skill) and what it stores in the graph after the agent answered.
\<close>

record memory_config =
  mc_summary_observations :: nat
  mc_max_observations :: nat
  mc_context_dir :: string

section \<open>Context files\<close>

definition path_join :: "string \<Rightarrow> string \<Rightarrow> string" where
  "path_join a b = (if prefix ''/'' b \<or> a = [] then b else if last a = CHR ''/'' then a @ b else a @ ''/'' @ b)"

definition context_candidates :: "string option \<Rightarrow> string \<Rightarrow> string \<Rightarrow> string \<Rightarrow> string list" where
  "context_candidates context_dir config_dir cwd filename =
     (let d = (case context_dir of Some d \<Rightarrow> d | None \<Rightarrow> ''context'') in
      if prefix ''/'' d then [path_join d filename]
      else [path_join (path_join config_dir d) filename, path_join (path_join cwd d) filename])"

definition load_context_file :: "(string \<Rightarrow> string option) \<Rightarrow> string option \<Rightarrow> string \<Rightarrow> string \<Rightarrow> string \<Rightarrow> string" where
  "load_context_file read context_dir config_dir cwd filename =
     (case List.map_filter read (context_candidates context_dir config_dir cwd filename) of c # _ \<Rightarrow> c | [] \<Rightarrow> [])"

section \<open>The memory of the user\<close>

type_synonym memory_state = "knowledge_graph \<times> string dict"

definition cached_summary :: "memory_config \<Rightarrow> string \<Rightarrow> memory_state \<Rightarrow> memory_state \<times> string" where
  "cached_summary cfg u s =
     (case s of (kg, cache) \<Rightarrow>
        (case dict_get cache u of
           Some summary \<Rightarrow> ((kg, cache), summary)
         | None \<Rightarrow> (case build_entity_summary u (mc_summary_observations cfg) kg of
             (kg1, summary) \<Rightarrow> ((kg1, if summary = [] then cache else dict_put u summary cache), summary))))"

definition match_line :: "search_result \<Rightarrow> string" where
  "match_line r =
     (let e = sr_entity r; obs = en_observations e in
      ''- '' @ en_name e @ '' ('' @ en_entity_type e @ '')''
      @ (if obs = [] then [] else '': '' @ join ''; '' (map ob_content (rev (take 5 (rev obs))))) @ newline)"

definition onboarding_open :: "string" where
  "onboarding_open = newline @ newline @ ''[Onboarding not yet complete '' @ utf8 [0xE2, 0x80, 0x94] @ '' follow BOOTSTRAP.md instructions]'' @ newline"

definition new_user_text :: "string" where
  "new_user_text = newline @ newline @ ''[New user '' @ utf8 [0xE2, 0x80, 0x94] @ '' no memory stored yet. Follow onboarding instructions.]'' @ newline"

definition memory_context :: "(string \<Rightarrow> string) \<Rightarrow> memory_config \<Rightarrow> string \<Rightarrow> string \<Rightarrow> string \<Rightarrow> memory_state \<Rightarrow> memory_state \<times> string" where
  "memory_context lower cfg bootstrap u txt s =
     (case cached_summary cfg u s of ((kg, cache), summary) \<Rightarrow>
        if summary = []
        then ((kg, cache), if bootstrap = [] then [] else new_user_text @ bootstrap)
        else (case search_nodes lower u ''onboarding_complete'' kg of (kg1, found) \<Rightarrow>
          (case search_nodes lower u txt kg1 of (kg2, matches) \<Rightarrow>
             ((kg2, cache),
              newline @ newline @ summary
              @ (if list_ex (\<lambda>r. en_name (sr_entity r) = ''onboarding_complete'') found \<or> bootstrap = [] then []
                 else onboarding_open @ bootstrap)
              @ (if matches = [] then [] else newline @ ''[Query-relevant memory matches]'' @ newline @ concat (map match_line matches))))))"

definition rag_context :: "string list \<Rightarrow> string" where
  "rag_context results =
     (if results = [] then []
      else newline @ newline @ ''[Relevant knowledge base context]'' @ newline @ concat (map (\<lambda>t. ''- '' @ t @ newline) results))"

definition augmented_text :: "string \<Rightarrow> string \<Rightarrow> string \<Rightarrow> skill_context option \<Rightarrow> string" where
  "augmented_text txt memory rag skill =
     (let a = txt @ memory @ rag in
      case skill of
        None \<Rightarrow> a
      | Some c \<Rightarrow>
          if sc_instructions c = [] then a
          else ''[Skill: '' @ sc_instructions c @ '']'' @ newline
            @ (if sc_references c = [] then [] else ''[References: '' @ join '', '' (sc_references c) @ '']'' @ newline)
            @ newline @ newline @ a)"

section \<open>What is stored\<close>

text \<open>\<open>&response[..200]\<close> panics inside a character.\<close>

definition stored_reply :: "string \<Rightarrow> string option" where
  "stored_reply response = (if length response > 200 then slice_to 200 response else Some response)"

definition user_entity_name :: "inbound_message \<Rightarrow> string" where
  "user_entity_name m = (case im_sender_name m of Some n \<Rightarrow> n | None \<Rightarrow> im_sender_id m)"

definition store_exchange :: "(string \<Rightarrow> string) \<Rightarrow> memory_config \<Rightarrow> string \<Rightarrow> inbound_message \<Rightarrow> string \<Rightarrow> memory_state \<Rightarrow> memory_state option" where
  "store_exchange lower cfg u m response s =
     (case s of (kg, cache) \<Rightarrow>
        (let name = user_entity_name m;
             kg1 = fst (create_entities u [\<lparr>ce_name = name, ce_entity_type = ''user'', ce_observations = []\<rparr>] kg)
         in map_option (\<lambda>reply.
              (let kg2 = fst (add_observations u name [''User said: '' @ im_text m, ''Assistant replied: '' @ reply] kg1);
                   kg3 = fst (trim_observations u (mc_max_observations cfg) kg2);
                   (kg4, summary) = build_entity_summary u (mc_summary_observations cfg) kg3
               in (fst (search_nodes lower u [] kg4), dict_put u summary cache)))
            (stored_reply response)))"

section \<open>Prompts show a user's own memory\<close>

lemma graph_of_touch [simp]: "graph_of (touch u kg) v = graph_of kg v"
  by (auto simp: touch_def)

lemma search_nodes_reads: "snd (search_nodes lower u q kg) = snd (search_nodes lower u q kg')" if "graph_of kg u = graph_of kg' u"
  by (simp add: search_nodes_def that Let_def)

lemma search_nodes_graph [simp]: "graph_of (fst (search_nodes lower u q kg)) v = graph_of kg v"
  by (simp add: search_nodes_def Let_def)

lemma summary_reads: "snd (build_entity_summary u n kg) = snd (build_entity_summary u n kg')" if "graph_of kg u = graph_of kg' u"
  by (simp add: build_entity_summary_def that Let_def)

lemma summary_graph [simp]: "graph_of (fst (build_entity_summary u n kg)) v = graph_of kg v"
  by (simp add: build_entity_summary_def Let_def)

lemma cached_summary_text:
  "snd (cached_summary cfg u (kg, cache)) =
     (case dict_get cache u of Some t \<Rightarrow> t | None \<Rightarrow> snd (build_entity_summary u (mc_summary_observations cfg) kg))"
  by (simp add: cached_summary_def case_prod_beta split: option.split)

lemma cached_summary_graph: "graph_of (fst (fst (cached_summary cfg u (kg, cache)))) v = graph_of kg v"
  by (simp add: cached_summary_def case_prod_beta split: option.split)

text \<open>
  What a prompt tells of the memory depends only on the user's own part of it: with the same graph and
  the same cached summary of this user, whatever the memory has of other users, the text is the same.
\<close>

theorem prompt_shows_own_memory:
  assumes "graph_of kg u = graph_of kg' u" "dict_get cache u = dict_get cache' u"
  shows "snd (memory_context lower cfg bootstrap u txt (kg, cache)) = snd (memory_context lower cfg bootstrap u txt (kg', cache'))"
proof -
  obtain k1 c1 s1 where 1: "cached_summary cfg u (kg, cache) = ((k1, c1), s1)" by (metis prod.exhaust)
  obtain k2 c2 s2 where 2: "cached_summary cfg u (kg', cache') = ((k2, c2), s2)" by (metis prod.exhaust)
  have s: "s1 = s2"
    using cached_summary_text [of cfg u kg cache] cached_summary_text [of cfg u kg' cache'] 1 2 assms(2) summary_reads [OF assms(1)]
    by (simp split: option.splits)
  have g: "graph_of k1 u = graph_of k2 u"
    using cached_summary_graph [of cfg u kg cache u] cached_summary_graph [of cfg u kg' cache' u] 1 2 assms(1) by simp
  have n: "snd (search_nodes lower u q k1) = snd (search_nodes lower u q k2)" for q
    using g by (rule search_nodes_reads)
  have f: "snd (search_nodes lower u q (fst (search_nodes lower u p k1))) = snd (search_nodes lower u q (fst (search_nodes lower u p k2)))" for p q
    using g by (intro search_nodes_reads) simp
  show ?thesis
    by (simp add: memory_context_def 1 2 s case_prod_beta n f)
qed

theorem prompt_shows_own_memory_witness:
  "snd (memory_context id \<lparr>mc_summary_observations = 10, mc_max_observations = 50, mc_context_dir = ''context''\<rparr> ''Hello'' ''u'' ''hi'' (kg_new, []))
   = snd (memory_context id \<lparr>mc_summary_observations = 10, mc_max_observations = 50, mc_context_dir = ''context''\<rparr> ''Hello'' ''u'' ''hi''
       (on_graph ''v'' (\<lambda>g. g\<lparr>ug_entities := [(''secret'', \<lparr>en_name = ''secret'', en_entity_type = ''t'', en_observations = []\<rparr>)]\<rparr>) kg_new,
        [(''v'', ''a secret'')]))"
  by (rule prompt_shows_own_memory) simp_all

section \<open>The exchange is remembered\<close>

lemma create_entities_single:
  "graph_of (fst (create_entities u [i] kg)) u = upsert_entity (ce_name i) (ce_entity_type i) (number_from (kg_next_id kg) (ce_observations i)) (graph_of kg u)"
  by (simp add: create_entities_def create_entity_def Let_def touch_def on_db_def on_graph_def graph_of_def)

lemma add_observations_entity:
  assumes "dict_get (ug_entities (graph_of kg u)) n = Some e"
  shows "dict_get (ug_entities (graph_of (fst (add_observations u n cs kg)) u)) n =
    Some (e\<lparr>en_observations := en_observations e @ number_from (kg_next_id kg) cs\<rparr>)"
  using assms by (simp add: add_observations_def Let_def touch_def on_db_def on_graph_def graph_of_def)

lemma trim_observations_entity:
  "dict_get (ug_entities (graph_of (fst (trim_observations u k kg)) u)) n = map_option (trimmed k) (dict_get (ug_entities (graph_of kg u)) n)"
  by (simp add: trim_observations_def Let_def on_db_def on_graph_def graph_of_def dict_get_map)

text \<open>
  When an exchange is stored, the newest observations of the user's entity are the message and the
  first 200 bytes of the reply, no entity of the user has more observations than configured, and the
  cached summary is the one of the graph as it is now.
\<close>

theorem exchange_is_remembered:
  assumes "store_exchange lower cfg u m response (kg, cache) = Some (kg', cache')" "2 \<le> mc_max_observations cfg"
  shows "\<exists>e. dict_get (ug_entities (graph_of kg' u)) (user_entity_name m) = Some e
    \<and> length (en_observations e) \<le> mc_max_observations cfg
    \<and> drop (length (en_observations e) - 2) (map ob_content (en_observations e)) = [''User said: '' @ im_text m, ''Assistant replied: '' @ take 200 response]
    \<and> dict_get cache' u = Some (snd (build_entity_summary u (mc_summary_observations cfg) kg'))"
proof -
  let ?n = "user_entity_name m"
  define kg1 where "kg1 = fst (create_entities u [\<lparr>ce_name = ?n, ce_entity_type = ''user'', ce_observations = []\<rparr>] kg)"
  obtain reply where r: "stored_reply response = Some reply"
    using assms(1) by (cases "stored_reply response") (simp_all add: store_exchange_def Let_def)
  then have reply: "reply = take 200 response" by (auto simp: stored_reply_def slice_to_def split: if_splits)
  let ?cs = "[''User said: '' @ im_text m, ''Assistant replied: '' @ reply]"
  define kg2 where "kg2 = fst (add_observations u ?n ?cs kg1)"
  define kg3 where "kg3 = fst (trim_observations u (mc_max_observations cfg) kg2)"
  obtain kg4 summary where s: "build_entity_summary u (mc_summary_observations cfg) kg3 = (kg4, summary)" by force
  have fin: "kg' = fst (search_nodes lower u [] kg4)" "cache' = dict_put u summary cache"
    using assms(1) r s by (simp_all add: store_exchange_def Let_def kg1_def kg2_def kg3_def)
  have g: "graph_of kg' u = graph_of kg3 u"
    using fin(1) s summary_graph [of u "mc_summary_observations cfg" kg3 u] by simp
  obtain e1 where e1: "dict_get (ug_entities (graph_of kg1 u)) ?n = Some e1"
    by (simp add: kg1_def create_entities_single upsert_entity_def)
  let ?e2 = "e1\<lparr>en_observations := en_observations e1 @ number_from (kg_next_id kg1) ?cs\<rparr>"
  have e: "dict_get (ug_entities (graph_of kg' u)) ?n = Some (trimmed (mc_max_observations cfg) ?e2)"
    using add_observations_entity [OF e1, of ?cs] by (simp add: g kg3_def trim_observations_entity kg2_def)
  have "map ob_content (number_from (kg_next_id kg1) ?cs) = ?cs"
    by (simp add: number_from_def upt_rec)
  then have "drop (length (en_observations (trimmed (mc_max_observations cfg) ?e2)) - 2) (map ob_content (en_observations (trimmed (mc_max_observations cfg) ?e2))) = ?cs"
    using assms(2) by (simp add: trimmed_def drop_map number_from_def)
  moreover have "summary = snd (build_entity_summary u (mc_summary_observations cfg) kg')"
    using summary_reads [OF g, of "mc_summary_observations cfg"] s by simp
  ultimately show ?thesis
    using e fin(2) reply by (auto simp: trimmed_def)
qed

theorem exchange_is_remembered_witness:
  "\<exists>kg' cache' e. store_exchange id \<lparr>mc_summary_observations = 10, mc_max_observations = 2, mc_context_dir = ''context''\<rparr> ''u''
      (plain_message Telegram ''7'' ''hi'') ''hello'' (kg_new, []) = Some (kg', cache')
    \<and> dict_get (ug_entities (graph_of kg' ''u'')) ''7'' = Some e \<and> length (en_observations e) \<le> 2
    \<and> drop (length (en_observations e) - 2) (map ob_content (en_observations e)) = [''User said: hi'', ''Assistant replied: hello'']"
proof -
  define cfg where "cfg = \<lparr>mc_summary_observations = 10, mc_max_observations = 2, mc_context_dir = ''context''\<rparr>"
  define m where "m = plain_message Telegram ''7'' ''hi''"
  obtain kg' cache' where r: "store_exchange id cfg ''u'' m ''hello'' (kg_new, []) = Some (kg', cache')"
    by (simp add: store_exchange_def stored_reply_def Let_def case_prod_beta)
  have "2 \<le> mc_max_observations cfg" by (simp add: cfg_def)
  from exchange_is_remembered [OF r this] r show ?thesis
    by (auto simp: m_def cfg_def plain_message_def user_entity_name_def)
qed

end
