(* ===== verification/MessagePipeline.thy ===== *)
theory MessagePipeline
  imports MessageGate SessionBridge Router RbacBridge ProcessManager GraphWorkflow FallbackChain
    Plugins StaleContext ToolRegistry EventStream ReplyDelivery PromptContext
begin

text \<open>
  \<open>process_message\<close> of \<open>src/gateway.rs\<close> as a whole: the gate, the plugins, the session, the checks of
  tools and roles, the routing to another process, to a workflow or to an agent of the gateway, the
  run of the agent with its fallback models, and the delivery of the response. One definition is one
  stretch of the function; a stretch may end the handling. The world \<open>'w\<close> holds what is outside: the
  platforms of the channels, the session service, the agents and what plugins change.
\<close>

section \<open>Environment and state\<close>

datatype http_answer = HttpSuccess "string option" | HttpFailure string | Unreachable

record ('w, 'm, 'doc) pipeline_env =
  pe_lower :: "string \<Rightarrow> string"
  pe_now :: "'w \<Rightarrow> int"
  pe_timestamp :: "'w \<Rightarrow> string"
  pe_uuid :: "'w \<Rightarrow> string"
  pe_app :: string
  pe_channels :: "channel_key \<Rightarrow> 'w channel_io option"
  pe_typing :: "channel_key \<Rightarrow> string \<Rightarrow> 'w \<Rightarrow> 'w"
  pe_photo :: "channel_key \<Rightarrow> string \<Rightarrow> image_data \<Rightarrow> 'w \<Rightarrow> 'w"
  pe_telegram_mode :: "string option"
  pe_session_exists :: "string \<Rightarrow> string \<Rightarrow> 'w \<Rightarrow> 'w \<times> bool"
  pe_session_create :: "string \<Rightarrow> string \<Rightarrow> 'w \<Rightarrow> 'w"
  pe_plugins :: "'w plugin_manager"
  pe_stale :: stale_config
  pe_router :: message_router
  pe_tools :: tool_registry
  pe_scopes :: scope_resolver
  pe_skills :: "skill_document list"
  pe_agents :: "string dict"
  pe_registry :: "'doc registry"
  pe_rbac :: rbac
  pe_proxies :: proxy_pool
  pe_post :: "string \<Rightarrow> json \<Rightarrow> 'w \<Rightarrow> 'w \<times> http_answer"
  pe_parse_json :: "string \<Rightarrow> json option"
  pe_workflow :: "(graph_workflow \<times> 'w workflow_env) option"
  pe_memory :: "memory_config option"
  pe_bootstrap :: "'w \<Rightarrow> string"
  pe_rag :: "(string \<Rightarrow> 'w \<Rightarrow> string list) option"
  pe_primary_model :: string
  pe_prepare :: "string \<Rightarrow> string \<Rightarrow> string \<Rightarrow> 'w \<Rightarrow> (string, unit) result"
  pe_run :: "string \<Rightarrow> string \<Rightarrow> string \<Rightarrow> string \<Rightarrow> 'w \<Rightarrow> 'w \<times> (string, agent_item list) result"
  pe_fallback :: "'m fallback_model_chain"
  pe_run_model :: "string \<Rightarrow> string \<Rightarrow> string \<Rightarrow> 'm \<Rightarrow> 'w \<Rightarrow> 'w \<times> (string, agent_item list) result"
  pe_report :: "bool \<Rightarrow> string \<Rightarrow> 'w \<Rightarrow> 'w"
  pe_jobs :: "(string \<times> string option) list"

record audit_entry =
  au_user_id :: string
  au_session_id :: string
  au_resource :: string
  au_tool_calls :: nat

record 'w pipeline =
  pl_gate :: gate
  pl_sessions :: session_bridge
  pl_task_log :: task_log
  pl_memory :: memory_state
  pl_metrics :: "(string \<times> bool) list"
  pl_typing :: "string list"
  pl_audit :: "audit_entry list"
  pl_world :: 'w

text \<open>A stretch continues with a value, ends the handling with its result, or panics.\<close>

datatype 'a flow = Go 'a | Finish "(string, unit) result" | Panic

definition then_flow :: "'s \<times> 'a flow \<Rightarrow> ('a \<Rightarrow> 's \<Rightarrow> 's \<times> 'b flow) \<Rightarrow> 's \<times> 'b flow" where
  "then_flow r k = (case r of (s, Go a) \<Rightarrow> k a s | (s, Finish x) \<Rightarrow> (s, Finish x) | (s, Panic) \<Rightarrow> (s, Panic))"

type_synonym ('w, 'a) stretch = "'w pipeline \<Rightarrow> 'w pipeline \<times> 'a flow"

definition on_world :: "('w \<Rightarrow> 'w) \<Rightarrow> 'w pipeline \<Rightarrow> 'w pipeline" where
  "on_world f s = s\<lparr>pl_world := f (pl_world s)\<rparr>"

definition reply :: "('w, 'm, 'doc) pipeline_env \<Rightarrow> inbound_message \<Rightarrow> string \<Rightarrow> ('w, unit) stretch" where
  "reply env m txt s =
     (case send_reply (pe_channels env) (pe_telegram_mode env) m txt (pl_world s) of
        None \<Rightarrow> (s, Panic) | Some w \<Rightarrow> (s\<lparr>pl_world := w\<rparr>, Go ()))"

definition reply_and_finish :: "('w, 'm, 'doc) pipeline_env \<Rightarrow> inbound_message \<Rightarrow> string \<Rightarrow> ('w, 'a) stretch" where
  "reply_and_finish env m txt s = then_flow (reply env m txt s) (\<lambda>_ s. (s, Finish (Ok ())))"

text \<open>\<open>metrics.record_message\<close> counts a success or a failure of the channel.\<close>

definition record_message :: "inbound_message \<Rightarrow> bool \<Rightarrow> 'w pipeline \<Rightarrow> 'w pipeline" where
  "record_message m success s = s\<lparr>pl_metrics := pl_metrics s @ [(show_channel (im_channel_type m), success)]\<rparr>"

definition reply_and_record :: "('w, 'm, 'doc) pipeline_env \<Rightarrow> inbound_message \<Rightarrow> string \<Rightarrow> bool \<Rightarrow> ('w, 'a) stretch" where
  "reply_and_record env m txt success s =
     then_flow (reply env m txt s) (\<lambda>_ s. (record_message m success s, Finish (Ok ())))"

definition log_task :: "('w, 'm, 'doc) pipeline_env \<Rightarrow> inbound_message \<Rightarrow> string \<Rightarrow> string \<Rightarrow> 'w pipeline \<Rightarrow> 'w pipeline" where
  "log_task env m event txt s =
     (case im_source m of
        FromCron job \<Rightarrow> s\<lparr>pl_task_log := log_event (pe_timestamp env (pl_world s)) job event txt (pl_task_log s)\<rparr>
      | _ \<Rightarrow> s)"

section \<open>The gate\<close>

definition emoji_stop :: string where "emoji_stop = utf8 [0xE2, 0x8F, 0xB9]"
definition emoji_no_entry :: string where "emoji_no_entry = utf8 [0xE2, 0x9B, 0x94]"
definition emoji_check :: string where "emoji_check = utf8 [0xE2, 0x9C, 0x85]"
definition emoji_lock :: string where "emoji_lock = utf8 [0xF0, 0x9F, 0x94, 0x92]"
definition emoji_cross :: string where "emoji_cross = utf8 [0xE2, 0x9D, 0x8C]"
definition emoji_key :: string where "emoji_key = utf8 [0xF0, 0x9F, 0x94, 0x91]"

definition pass_gate :: "('w, 'm, 'doc) pipeline_env \<Rightarrow> inbound_message \<Rightarrow> ('w, unit) stretch" where
  "pass_gate env m s =
     (case process_entry m (pe_now env (pl_world s)) (pl_gate s) of (g, decision) \<Rightarrow>
        (let s1 = s\<lparr>pl_gate := g\<rparr> in
         case decision of
           StopCancelled \<Rightarrow> reply_and_finish env m (emoji_stop @ '' Stopped. Your previous request has been cancelled.'') s1
         | NothingToStop \<Rightarrow> reply_and_finish env m ''Nothing running to stop.'' s1
         | AccessDenied reason \<Rightarrow> reply_and_finish env m (emoji_no_entry @ '' Access denied: '' @ reason) (record_message m False s1)
         | PairedOk \<Rightarrow> reply_and_finish env m (emoji_check @ '' Paired! You can now use the bot.'') s1
         | TooManyFailures \<Rightarrow> reply_and_finish env m (emoji_lock @ '' Too many failed attempts. Try again later.'') s1
         | WrongCode \<Rightarrow> reply_and_finish env m (emoji_cross @ '' Invalid code. Try again.'') s1
         | AskForCode \<Rightarrow> reply_and_finish env m (emoji_key @ '' Send your 6-digit pairing code to get started.'') s1
         | CronNoPairedUser \<Rightarrow> (log_task env m event_skipped ''No paired users on target channel'' s1, Finish (Ok ()))
         | CronUserRefused \<Rightarrow> (log_task env m event_skipped ''Paired user would not pass access control'' s1, Finish (Ok ()))
         | Proceed \<Rightarrow> (log_task env m event_fired (''Processing: '' @ im_text m) s1, Go ())))"

section \<open>Plugins, session and idle users\<close>

text \<open>A hook of this stage; a plugin that answers ends the handling with its answer.\<close>

definition ask_plugins :: "('w, 'm, 'doc) pipeline_env \<Rightarrow> inbound_message \<Rightarrow> plugin_hook \<Rightarrow> hook_context \<Rightarrow> ('w, unit) stretch" where
  "ask_plugins env m h c s =
     (case invoke_hook (pe_plugins env) h c (pl_world s) of
        (w, _, ShortCircuit response) \<Rightarrow> reply_and_finish env m response (s\<lparr>pl_world := w\<rparr>)
      | (w, _, _) \<Rightarrow> (s\<lparr>pl_world := w\<rparr>, Go ()))"

text \<open>The hooks after the run are told and their answers are dropped.\<close>

definition tell_plugins :: "('w, 'm, 'doc) pipeline_env \<Rightarrow> plugin_hook \<Rightarrow> hook_context \<Rightarrow> 'w pipeline \<Rightarrow> 'w pipeline" where
  "tell_plugins env h c s = s\<lparr>pl_world := fst (invoke_hook (pe_plugins env) h c (pl_world s))\<rparr>"

definition welcome_idle_user :: "('w, 'm, 'doc) pipeline_env \<Rightarrow> inbound_message \<Rightarrow> int option \<Rightarrow> ('w, unit) stretch" where
  "welcome_idle_user env m last_activity s =
     (case last_activity of
        None \<Rightarrow> (s, Go ())
      | Some l \<Rightarrow>
          (let now = pe_now env (pl_world s) in
           case is_stale (pe_stale env) l now of
             None \<Rightarrow> (s, Panic)
           | Some stale \<Rightarrow>
               if stale then reply env m (build_welcome_back (idle_duration l now) [] []) s else (s, Go ())))"

text \<open>The session is resolved with the time of its creation, and the agent by the router.\<close>

definition open_session :: "('w, 'm, 'doc) pipeline_env \<Rightarrow> inbound_message \<Rightarrow> ('w, string \<times> string \<times> string) stretch" where
  "open_session env m s =
     (let last_activity = get_last_activity m (pl_sessions s);
          (b, u, sid) = resolve_session (pe_uuid env (pl_world s)) (pe_now env (pl_world s)) m (pl_sessions s)
      in then_flow (welcome_idle_user env m last_activity (s\<lparr>pl_sessions := b\<rparr>))
           (\<lambda>_ s. (s, Go (u, sid, resolve_agent (pe_router env) m))))"

text \<open>If the channel is known, a typing notice goes out and a task that repeats it starts.\<close>

definition start_typing :: "('w, 'm, 'doc) pipeline_env \<Rightarrow> inbound_message \<Rightarrow> string \<Rightarrow> 'w pipeline \<Rightarrow> 'w pipeline" where
  "start_typing env m u s =
     (if pe_channels env (key_of m) \<noteq> None
      then (on_world (pe_typing env (key_of m) (recipient_of m)) s)\<lparr>pl_typing := u # pl_typing s\<rparr> else s)"

definition ensure_session :: "('w, 'm, 'doc) pipeline_env \<Rightarrow> string \<Rightarrow> string \<Rightarrow> 'w pipeline \<Rightarrow> 'w pipeline" where
  "ensure_session env u sid s =
     (case pe_session_exists env u sid (pl_world s) of
        (w, found) \<Rightarrow> s\<lparr>pl_world := if found then w else pe_session_create env u sid w\<rparr>)"

section \<open>Tools and skills\<close>

definition tool_decisions :: "('w, 'm, 'doc) pipeline_env \<Rightarrow> inbound_message \<Rightarrow> gate \<Rightarrow> (tool_entry \<times> tool_access_decision) list" where
  "tool_decisions env m g =
     (let canonical = show_channel (im_channel_type m) @ '':'' @ im_sender_id m
      in map (\<lambda>t. (t, wrap_tool_check (gt_access g) canonical (te_name t) None [] (pe_scopes env))) (resolve_all (pe_tools env)))"

definition allowed_of :: "(tool_entry \<times> tool_access_decision) list \<Rightarrow> tool_entry list" where
  "allowed_of ds = map fst (filter (\<lambda>d. snd d = ToolAllowed) ds)"

definition denials_of :: "(tool_entry \<times> tool_access_decision) list \<Rightarrow> string list" where
  "denials_of ds = List.map_filter (\<lambda>(t, d). case d of ToolDenied r \<Rightarrow> Some r | ToolAllowed \<Rightarrow> None) ds"

text \<open>The list of tools narrowed by the skill; nothing after this stretch reads it.\<close>

definition narrow_tools :: "tool_entry list \<Rightarrow> tool_entry list option \<Rightarrow> tool_entry list" where
  "narrow_tools allowed skill_tools =
     (case skill_tools of
        Some ts \<Rightarrow> if ts = [] then allowed else filter (\<lambda>t. te_name t \<in> set (map te_name ts)) allowed
      | None \<Rightarrow> allowed)"

definition choose_tools :: "('w, 'm, 'doc) pipeline_env \<Rightarrow> inbound_message \<Rightarrow> ('w, tool_entry list \<times> skill_context option) stretch" where
  "choose_tools env m s =
     (let ds = tool_decisions env m (pl_gate s); allowed = allowed_of ds; denials = denials_of ds in
      if denials \<noteq> [] \<and> allowed = [] \<and> resolve_all (pe_tools env) \<noteq> []
      then reply_and_finish env m (emoji_no_entry @ '' Tool access denied: '' @ join ''; '' denials) s
      else (let skill = select_skill (pe_lower env) (im_text m) (pe_skills env)
            in (s, Go (narrow_tools allowed (map_option (filter_tools (resolve_all (pe_tools env))) skill),
                       map_option (\<lambda>k. build_context k (im_text m)) skill))))"

section \<open>Where the message goes\<close>

definition registered :: "('w, 'm, 'doc) pipeline_env \<Rightarrow> string \<Rightarrow> agent_record option" where
  "registered env i = dict_get (rg_agents (pe_registry env)) i"

definition check_receive :: "('w, 'm, 'doc) pipeline_env \<Rightarrow> inbound_message \<Rightarrow> string \<Rightarrow> ('w, unit) stretch" where
  "check_receive env m i s =
     (if registered env i \<noteq> None \<and> \<not> dict_has (pe_agents env) i \<and> \<not> is_ok (check_tool (pe_rbac env) i ''message_receive'')
      then reply_and_record env m (emoji_no_entry @ '' Agent '' @ quoted i @ '' is not permitted to receive messages.'') False s
      else (s, Go ()))"

definition proxy_payload :: "string \<Rightarrow> string \<Rightarrow> string \<Rightarrow> string \<Rightarrow> json" where
  "proxy_payload app u sid txt =
     JObj [(''app_name'', JStr app), (''user_id'', JStr u), (''session_id'', JStr sid),
       (''content'', JObj [(''role'', JStr ''user''), (''parts'', JArr [JObj [(''text'', JStr txt)]])])]"

definition proxy_text :: "(string \<Rightarrow> json option) \<Rightarrow> string option \<Rightarrow> string" where
  "proxy_text parse body =
     (let b = (case body of Some b \<Rightarrow> b | None \<Rightarrow> ''Agent responded but body unreadable.'')
      in case Option.bind (Option.bind (parse b) (\<lambda>j. jget j ''text'')) as_str of Some t \<Rightarrow> t | None \<Rightarrow> b)"

definition state_text :: "lifecycle_state \<Rightarrow> string" where
  "state_text st =
     (case st of Created \<Rightarrow> ''created but not started'' | Starting \<Rightarrow> ''still starting up'' | Stopping \<Rightarrow> ''shutting down''
      | Stopped \<Rightarrow> ''stopped'' | ErrorState _ \<Rightarrow> ''in error state'' | Running \<Rightarrow> ''running but not in proxy pool'')"

definition route_to_process :: "('w, 'm, 'doc) pipeline_env \<Rightarrow> inbound_message \<Rightarrow> string \<Rightarrow> string \<Rightarrow> string \<Rightarrow> ('w, unit) stretch" where
  "route_to_process env m u sid i s =
     (if is_system_agent (pe_registry env) i then (s, Go ())
      else case get_proxy (pe_proxies env) i of
        Some p \<Rightarrow>
          (case pe_post env (rp_url p @ ''/run'') (proxy_payload (pe_app env) u sid (im_text m)) (pl_world s) of
             (w, HttpSuccess body) \<Rightarrow> reply_and_record env m (proxy_text (pe_parse_json env) body) True (s\<lparr>pl_world := w\<rparr>)
           | (w, HttpFailure status) \<Rightarrow>
               reply_and_record env m (warning_sign @ '' Agent '' @ quoted i @ '' returned an error (HTTP '' @ status @ '').'') False (s\<lparr>pl_world := w\<rparr>)
           | (w, Unreachable) \<Rightarrow>
               reply_and_record env m (warning_sign @ '' Agent '' @ quoted i @ '' is unreachable. Please try again later.'') False (s\<lparr>pl_world := w\<rparr>))
      | None \<Rightarrow>
          (case registered env i of
             Some r \<Rightarrow>
               reply_and_record env m (warning_sign @ '' Agent '' @ quoted i @ '' is unavailable ('' @ state_text (ar_state r) @ ''). Please try again later.'') False s
           | None \<Rightarrow> (s, Go ())))"

definition workflow_text :: "workflow_execution_result \<Rightarrow> string" where
  "workflow_text r =
     (case Option.bind (dict_get (wr_state r) ''response'') as_str of
        Some t \<Rightarrow> t
      | None \<Rightarrow> ''Workflow completed in '' @ show_nat (unat (wr_iterations r)) @ '' iterations.'')"

definition route_to_workflow :: "('w, 'm, 'doc) pipeline_env \<Rightarrow> inbound_message \<Rightarrow> string \<Rightarrow> ('w, unit) stretch" where
  "route_to_workflow env m i s =
     (case pe_workflow env of
        None \<Rightarrow> (s, Go ())
      | Some (g, wenv) \<Rightarrow>
          if dict_has (pe_agents env) i then (s, Go ())
          else (case execute wenv g [(''user_message'', JStr (im_text m))] (pl_world s) of
                  (w, Ok r) \<Rightarrow> reply_and_record env m (workflow_text r) True (s\<lparr>pl_world := w\<rparr>)
                | (w, Err _) \<Rightarrow> reply_and_record env m (warning_sign @ '' Workflow execution failed. Please try again later.'') False (s\<lparr>pl_world := w\<rparr>)))"

text \<open>The agent that answers: an identifier and its name; unknown identifiers go to the assistant.\<close>

definition find_agent :: "('w, 'm, 'doc) pipeline_env \<Rightarrow> string \<Rightarrow> ('w, string \<times> string) stretch" where
  "find_agent env i s =
     (case dict_get (pe_agents env) i of
        Some n \<Rightarrow> (s, Go (i, n))
      | None \<Rightarrow> (case dict_get (pe_agents env) ''assistant'' of
            Some n \<Rightarrow> (s, Go (''assistant'', n)) | None \<Rightarrow> (s, Finish (Err (''no agent: '' @ i)))))"

section \<open>The run\<close>

definition build_prompt_text :: "('w, 'm, 'doc) pipeline_env \<Rightarrow> inbound_message \<Rightarrow> string \<Rightarrow> skill_context option \<Rightarrow> 'w pipeline \<Rightarrow> 'w pipeline \<times> string" where
  "build_prompt_text env m u skill s =
     (let (mem, memory) = (case pe_memory env of
              None \<Rightarrow> (pl_memory s, [])
            | Some cfg \<Rightarrow> memory_context (pe_lower env) cfg (pe_bootstrap env (pl_world s)) u (im_text m) (pl_memory s));
          rag = (case pe_rag env of None \<Rightarrow> [] | Some search \<Rightarrow> rag_context (search (im_text m) (pl_world s)))
      in (s\<lparr>pl_memory := mem\<rparr>, augmented_text (im_text m) memory rag skill))"

definition activate_request :: "string \<Rightarrow> 'w pipeline \<Rightarrow> 'w pipeline" where
  "activate_request sender s =
     s\<lparr>pl_gate := (pl_gate s)\<lparr>gt_active_requests := List.insert sender (gt_active_requests (pl_gate s))\<rparr>\<rparr>"

definition finish_request :: "string \<Rightarrow> string \<Rightarrow> 'w pipeline \<Rightarrow> 'w pipeline" where
  "finish_request sender u s =
     s\<lparr>pl_typing := remove1 u (pl_typing s),
       pl_gate := (pl_gate s)\<lparr>gt_active_requests := removeAll sender (gt_active_requests (pl_gate s))\<rparr>\<rparr>"

definition run_agent :: "('w, 'm, 'doc) pipeline_env \<Rightarrow> inbound_message \<Rightarrow> string \<Rightarrow> string \<Rightarrow> string \<Rightarrow> string \<Rightarrow> ('w, agent_item list) stretch" where
  "run_agent env m u sid agent prompt s0 =
     (let s = activate_request (im_sender_id m) s0 in
      case pe_prepare env agent u sid (pl_world s) of
        Err e \<Rightarrow> (s, Finish (Err e))
      | Ok _ \<Rightarrow>
          (if \<not> has_fallbacks (pe_fallback env)
           then (case pe_run env agent u sid prompt (pl_world s) of
                   (w, Ok items) \<Rightarrow> (s\<lparr>pl_world := pe_report env True [] w\<rparr>, Go items)
                 | (w, Err e) \<Rightarrow> (s\<lparr>pl_world := pe_report env False (''LLM error: '' @ e) w\<rparr>, Finish (Err (''agent run failed: '' @ e))))
           else (case run_with_fallback (pe_fallback env) (pe_run_model env u sid prompt) (pl_world s) of
                   (w, Ok (items, how)) \<Rightarrow>
                     (s\<lparr>pl_world := if is_degraded how then pe_report env False ''using fallback model'' w else pe_report env True [] w\<rparr>, Go items)
                 | (w, Err _) \<Rightarrow>
                     reply_and_record env m (warning_sign @ '' All configured models are currently unavailable. Please try again later.'') False
                       (s\<lparr>pl_world := pe_report env False ''all fallback models failed'' w\<rparr>))))"

section \<open>The response\<close>

record delivery =
  dv_streaming :: bool
  dv_ref :: message_ref
  dv_state :: streaming_state

definition set_up_delivery :: "('w, 'm, 'doc) pipeline_env \<Rightarrow> inbound_message \<Rightarrow> pairing_service \<Rightarrow> delivery option" where
  "set_up_delivery env m ps =
     map_option (\<lambda>io. \<lparr>dv_streaming = selects_streaming io (resolve_stream_mode (pe_telegram_mode env) (im_channel_type m)),
          dv_ref = message_ref_for m (delivery_recipient (paired_users_list ps) m), dv_state = sd_new\<rparr>)
       (pe_channels env (key_of m))"

text \<open>Partial texts go to the strategy while the stream is read; its failures are only logged.\<close>

definition show_partial :: "'w channel_io \<Rightarrow> delivery \<Rightarrow> string \<Rightarrow> streaming_state \<times> 'w \<Rightarrow> streaming_state \<times> 'w" where
  "show_partial io d t x = (case on_partial (dv_streaming d) io (dv_ref d) t (fst x) (snd x) of (w, st, _) \<Rightarrow> (st, w))"

definition collect_response ::
  "('w, 'm, 'doc) pipeline_env \<Rightarrow> inbound_message \<Rightarrow> agent_item list \<Rightarrow> ('w, collected_response \<times> delivery option) stretch" where
  "collect_response env m items s =
     (case (set_up_delivery env m (gt_pairing (pl_gate s)), pe_channels env (key_of m)) of
        (Some d, Some io) \<Rightarrow>
          (case collect_with (pe_lower env) (Some (show_partial io d)) items (dv_state d, pl_world s) of
             ((st, w), Some c) \<Rightarrow> (s\<lparr>pl_world := w\<rparr>, Go (c, Some (d\<lparr>dv_state := st\<rparr>)))
           | ((st, w), None) \<Rightarrow> (s\<lparr>pl_world := w\<rparr>, Panic))
      | _ \<Rightarrow> (case collect (pe_lower env) items of Some c \<Rightarrow> (s, Go (c, None)) | None \<Rightarrow> (s, Panic)))"

definition final_response :: "collected_response \<Rightarrow> string" where
  "final_response c =
     (if cr_text c \<noteq> [] then cr_text c
      else if cr_max_iterations_reached c
      then ''I hit the maximum processing limit'' @ (case cr_iteration_count c of Some n \<Rightarrow> '' after '' @ show_nat n @ '' iterations'' | None \<Rightarrow> [])
        @ '' while working on your request. The task may be too complex for a single message '' @ utf8 [0xE2, 0x80, 0x94]
        @ '' try breaking it into smaller steps.''
      else if cr_tool_calls c \<noteq> []
      then ''I completed the requested actions but didn'' @ [CHR 0x27] @ ''t generate a text summary. Let me know if you need details about what was done.''
      else ''I received your message but couldn'' @ [CHR 0x27] @ ''t generate a response. This may be a temporary issue ''
        @ utf8 [0xE2, 0x80, 0x94] @ '' please try again.'')"

definition tell_tools :: "('w, 'm, 'doc) pipeline_env \<Rightarrow> tool_call_info list \<Rightarrow> 'w pipeline \<Rightarrow> 'w pipeline" where
  "tell_tools env calls s =
     fold (\<lambda>c s. (let ctx = empty_context\<lparr>hc_tool_name := Some (ti_name c), hc_metadata := Some (ti_args c)\<rparr>
                  in tell_plugins env AfterTool ctx (tell_plugins env BeforeTool ctx s))) calls s"

definition tell_of_response :: "('w, 'm, 'doc) pipeline_env \<Rightarrow> string \<Rightarrow> string \<Rightarrow> tool_call_info list \<Rightarrow> 'w pipeline \<Rightarrow> 'w pipeline" where
  "tell_of_response env agent_name response calls s =
     (let answered = empty_context\<lparr>hc_response_text := Some response\<rparr>
      in tell_plugins env AfterRun answered
           (tell_plugins env AfterAgent (answered\<lparr>hc_agent_name := Some agent_name\<rparr>)
             (tell_tools env calls
               (tell_plugins env AfterModel (answered\<lparr>hc_model_name := Some (pe_primary_model env)\<rparr>) s))))"

definition remember_exchange :: "('w, 'm, 'doc) pipeline_env \<Rightarrow> inbound_message \<Rightarrow> string \<Rightarrow> string \<Rightarrow> ('w, unit) stretch" where
  "remember_exchange env m u response s =
     (case (is_cron (im_source m), pe_memory env) of
        (False, Some cfg) \<Rightarrow>
          (case store_exchange (pe_lower env) cfg u m response (pl_memory s) of
             Some mem \<Rightarrow> (s\<lparr>pl_memory := mem\<rparr>, Go ()) | None \<Rightarrow> (s, Panic))
      | _ \<Rightarrow> (s, Go ()))"

definition audit_run :: "string \<Rightarrow> string \<Rightarrow> string \<Rightarrow> nat \<Rightarrow> 'w pipeline \<Rightarrow> 'w pipeline" where
  "audit_run u sid i calls s =
     s\<lparr>pl_audit := pl_audit s @ [\<lparr>au_user_id = u, au_session_id = sid, au_resource = i, au_tool_calls = calls\<rparr>]\<rparr>"

definition suppress_reply :: "('w, 'm, 'doc) pipeline_env \<Rightarrow> inbound_message \<Rightarrow> string \<Rightarrow> ('w, unit) stretch" where
  "suppress_reply env m response s =
     (case im_source m of
        FromCron job \<Rightarrow>
          (case suppress_keyword (pe_jobs env) job of
             Some k \<Rightarrow>
               if is_suppressed (pe_lower env) k response
               then (log_task env m event_delivered (k @ '' (suppressed)'') s, Finish (Ok ())) else (s, Go ())
           | None \<Rightarrow> (s, Go ()))
      | _ \<Rightarrow> (s, Go ()))"

definition log_delivery :: "('w, 'm, 'doc) pipeline_env \<Rightarrow> inbound_message \<Rightarrow> string \<Rightarrow> ('w, unit) stretch" where
  "log_delivery env m response s =
     (case im_source m of
        FromCron job \<Rightarrow>
          (case log_delivered (pe_timestamp env (pl_world s)) job response (pl_task_log s) of
             Some db \<Rightarrow> (s\<lparr>pl_task_log := db\<rparr>, Go ()) | None \<Rightarrow> (s, Panic))
      | _ \<Rightarrow> (s, Go ()))"

definition deliver :: "('w, 'm, 'doc) pipeline_env \<Rightarrow> inbound_message \<Rightarrow> string \<Rightarrow> image_data list \<Rightarrow> delivery option \<Rightarrow> ('w, unit) stretch" where
  "deliver env m response images delivery s =
     (case (delivery, pe_channels env (key_of m)) of
        (Some d, Some io) \<Rightarrow>
          (case split_message response (max_message_length (im_channel_type m)) of
             None \<Rightarrow> (s, Panic)
           | Some chunks \<Rightarrow>
               (case deliver_chunks (dv_streaming d) io (dv_ref d) chunks (dv_state d) (pl_world s) of
                  (w, Err e) \<Rightarrow> (s\<lparr>pl_world := w\<rparr>, Finish (Err e))
                | (w, Ok _) \<Rightarrow>
                    then_flow (log_delivery env m response (s\<lparr>pl_world := w\<rparr>))
                      (\<lambda>_ s. (on_world (fold (\<lambda>i. pe_photo env (key_of m) (mr_recipient_id (dv_ref d)) i) images) s, Go ()))))
      | _ \<Rightarrow> (log_task env m event_failed ''No delivery channel found'' s, Go ()))"

definition answer :: "('w, 'm, 'doc) pipeline_env \<Rightarrow> inbound_message \<Rightarrow> string \<Rightarrow> string \<Rightarrow> string \<Rightarrow> string \<Rightarrow> collected_response \<times> delivery option \<Rightarrow> ('w, unit) stretch" where
  "answer env m u sid i agent_name cd s0 =
     (case cd of (c, delivery) \<Rightarrow>
        (let response = final_response c;
             s = tell_of_response env agent_name response (cr_tool_calls c)
               (record_message m True (finish_request (im_sender_id m) u s0))
         in then_flow (remember_exchange env m u response s)
              (\<lambda>_ s. then_flow (suppress_reply env m response (audit_run u sid i (length (cr_tool_calls c)) s))
                 (\<lambda>_ s. deliver env m response (cr_images c) delivery s))))"

section \<open>The whole\<close>

definition consult_agent :: "('w, 'm, 'doc) pipeline_env \<Rightarrow> inbound_message \<Rightarrow> string \<Rightarrow> string \<Rightarrow> string \<Rightarrow> skill_context option \<Rightarrow> ('w, unit) stretch" where
  "consult_agent env m u sid i skill s =
     then_flow (find_agent env i s) (\<lambda>(agent, name) s.
       (let asked = empty_context\<lparr>hc_user_message := Some (im_text m), hc_agent_name := Some name\<rparr> in
        then_flow (ask_plugins env m BeforeAgent asked s) (\<lambda>_ s.
        then_flow (ask_plugins env m BeforeModel (asked\<lparr>hc_model_name := Some (pe_primary_model env)\<rparr>) s) (\<lambda>_ s.
          (case build_prompt_text env m u skill s of (s, prompt) \<Rightarrow>
             then_flow (run_agent env m u sid agent prompt s) (\<lambda>items s.
             then_flow (collect_response env m items s) (\<lambda>cd s. answer env m u sid i name cd s)))))))"

definition after_session :: "('w, 'm, 'doc) pipeline_env \<Rightarrow> inbound_message \<Rightarrow> string \<times> string \<times> string \<Rightarrow> ('w, unit) stretch" where
  "after_session env m uia s0 =
     (case uia of (u, sid, i) \<Rightarrow>
        (let s = ensure_session env u sid (start_typing env m u s0) in
         then_flow (choose_tools env m s) (\<lambda>(tools, skill) s.
         then_flow (ask_plugins env m BeforeRun (empty_context\<lparr>hc_user_message := Some (im_text m)\<rparr>) s) (\<lambda>_ s.
         then_flow (check_receive env m i s) (\<lambda>_ s.
         then_flow (route_to_process env m u sid i s) (\<lambda>_ s.
         then_flow (route_to_workflow env m i s) (\<lambda>_ s. consult_agent env m u sid i skill s)))))))"

definition process_message :: "('w, 'm, 'doc) pipeline_env \<Rightarrow> inbound_message \<Rightarrow> ('w, unit) stretch" where
  "process_message env m s =
     then_flow (pass_gate env m s) (\<lambda>_ s.
     then_flow (ask_plugins env m OnUserMessage (empty_context\<lparr>hc_user_message := Some (im_text m)\<rparr>) s) (\<lambda>_ s.
     then_flow (open_session env m s) (\<lambda>uia s. after_session env m uia s)))"

end
