(* ===== verification/PipelineProps.thy ===== *)
theory PipelineProps
  imports MessagePipeline
begin

text \<open>
  Properties of the handling of a message that span its stretches: what a refused message can change,
  that limits on tools have no effect, that only the session of the message is used, and which
  background work is left behind.
\<close>

section \<open>Sequencing\<close>

lemma then_flow_simps [simp]:
  "then_flow (s, Go a) k = k a s" "then_flow (s, Finish x) k = (s, Finish x)" "then_flow (s, Panic) k = (s, Panic)"
  by (simp_all add: then_flow_def)

lemma then_flow_cong: "(\<And>a s. snd p = Go a \<Longrightarrow> fst p = s \<Longrightarrow> k a s = k' a s) \<Longrightarrow> then_flow p k = then_flow p k'"
  by (cases p; cases "snd p") auto

section \<open>A small gateway\<close>

text \<open>One channel, one agent whose runs fail, and a world that lists what was sent.\<close>

definition demo_io :: "string list channel_io" where
  "demo_io = \<lparr>ci_send = (\<lambda>m w. (w @ [om_text m], Ok (Some ''1''))), ci_edit = (\<lambda>e w. (w, Ok ())), ci_sleep = (\<lambda>d w. w),
     ci_now = (\<lambda>w. 0), ci_supports_editing = False\<rparr>"

definition demo_env :: "(string list, unit, unit) pipeline_env" where
  "demo_env = \<lparr>pe_lower = id, pe_now = (\<lambda>w. 1), pe_timestamp = (\<lambda>w. ''t''), pe_uuid = (\<lambda>w. ''id''), pe_app = ''app'',
     pe_channels = (\<lambda>k. if ck_channel_type k = Slack then Some demo_io else None), pe_typing = (\<lambda>k r w. w),
     pe_photo = (\<lambda>k r i w. w), pe_telegram_mode = None, pe_session_exists = (\<lambda>u s w. (w, False)),
     pe_session_create = (\<lambda>u s w. w), pe_plugins = [], pe_stale = default_stale_config, pe_router = mr_new [] ''assistant'',
     pe_tools = tr_new, pe_scopes = static_resolver [], pe_skills = [], pe_agents = [(''assistant'', ''Assistant'')],
     pe_registry = rg_new [] True [], pe_rbac = [], pe_proxies = [], pe_post = (\<lambda>u j w. (w, Unreachable)),
     pe_parse_json = (\<lambda>t. None), pe_workflow = None, pe_memory = None, pe_bootstrap = (\<lambda>w. []), pe_rag = None,
     pe_primary_model = ''m'', pe_prepare = (\<lambda>a u s w. Ok ()), pe_run = (\<lambda>a u s p w. (w, Err ''down'')),
     pe_fallback = single_chain () ''m'', pe_run_model = (\<lambda>u s p m w. (w, Err ''down'')), pe_report = (\<lambda>ok t w. w), pe_jobs = []\<rparr>"

definition demo_start :: "string list pipeline" where
  "demo_start = \<lparr>pl_gate = demo_gate, pl_sessions = sb_new default_session_config ''app'', pl_task_log = task_log_open, pl_memory = (kg_new, []),
     pl_metrics = [], pl_typing = [], pl_audit = [], pl_world = []\<rparr>"

section \<open>Refused messages\<close>

text \<open>
  C11. A message that the gate does not let pass changes nothing but the gate itself, the log of tasks and
  the count of failures, and the world is as before or one reply of the gateway was sent.
\<close>

theorem refused_message_only_answered:
  assumes "process_entry m (pe_now env (pl_world s)) (pl_gate s) = (g, d)" "d \<noteq> Proceed"
    and "process_message env m s = (s1, f)"
  shows "pl_gate s1 = g \<and> pl_sessions s1 = pl_sessions s \<and> pl_memory s1 = pl_memory s \<and> pl_audit s1 = pl_audit s
    \<and> pl_typing s1 = pl_typing s
    \<and> (pl_world s1 = pl_world s \<or> (\<exists>txt. send_reply (pe_channels env) (pe_telegram_mode env) m txt (pl_world s) = Some (pl_world s1)))"
proof -
  have reply: "pl_gate s2 = pl_gate s1 \<and> pl_sessions s2 = pl_sessions s1 \<and> pl_memory s2 = pl_memory s1 \<and> pl_audit s2 = pl_audit s1
      \<and> pl_typing s2 = pl_typing s1 \<and> (\<forall>a. f \<noteq> Go a)
      \<and> (pl_world s2 = pl_world s1 \<or> send_reply (pe_channels env) (pe_telegram_mode env) m t (pl_world s1) = Some (pl_world s2))"
    if "reply_and_finish env m t s1 = (s2, f :: unit flow)" for t s1 s2 f
    using that by (auto simp: reply_and_finish_def reply_def split: option.splits)
  obtain s2 f2 where g: "pass_gate env m s = (s2, f2)" by force
  have "pl_gate s2 = g \<and> pl_sessions s2 = pl_sessions s \<and> pl_memory s2 = pl_memory s \<and> pl_audit s2 = pl_audit s
    \<and> pl_typing s2 = pl_typing s \<and> (\<forall>a. f2 \<noteq> Go a)
    \<and> (pl_world s2 = pl_world s \<or> (\<exists>txt. send_reply (pe_channels env) (pe_telegram_mode env) m txt (pl_world s) = Some (pl_world s2)))"
    using g assms(1,2) by (cases d)
      (auto simp: pass_gate_def Let_def record_message_def log_task_def split: message_source.splits dest!: reply)
  with assms(3) g show ?thesis
    by (cases f2) (auto simp: process_message_def)
qed

theorem refused_message_only_answered_witness:
  "let s1 = fst (process_message demo_env (plain_message Slack ''U1'' ''hello'') demo_start)
   in snd (process_entry (plain_message Slack ''U1'' ''hello'') 1 demo_gate) = AskForCode \<and> pl_audit s1 = [] \<and> pl_typing s1 = []"
proof -
  let ?m = "plain_message Slack ''U1'' ''hello''"
  obtain s1 f where p: "process_message demo_env ?m demo_start = (s1, f)" by force
  obtain g d where e: "process_entry ?m 1 demo_gate = (g, d)" by force
  have "d = AskForCode"
    using arg_cong [OF e, of snd] by (simp add: demo_gate_def gate_simps)
  then show ?thesis
    using refused_message_only_answered [of ?m demo_env demo_start g d s1 f] p e by (simp add: demo_env_def demo_start_def)
qed

section \<open>Limits on tools\<close>

lemma no_requirement_no_denial: "wrap_tool_check ab c t None [] sc = ToolAllowed"
  by (simp add: wrap_tool_check_def check_tool_access_def)

lemma no_denials: "denials_of (tool_decisions env m g) = []"
  by (simp add: denials_of_def tool_decisions_def Let_def no_requirement_no_denial List.map_filter_def)

lemma choose_tools_go:
  "choose_tools env m s = (s, Go (narrow_tools (allowed_of (tool_decisions env m (pl_gate s)))
       (map_option (filter_tools (resolve_all (pe_tools env))) (select_skill (pe_lower env) (im_text m) (pe_skills env))),
     map_option (\<lambda>k. build_context k (im_text m)) (select_skill (pe_lower env) (im_text m) (pe_skills env))))"
  by (simp add: choose_tools_def no_denials Let_def)

lemmas reply_defs = reply_def reply_and_finish_def reply_and_record_def
lemmas route_defs = check_receive_def route_to_process_def route_to_workflow_def registered_def
lemmas run_defs = find_agent_def run_agent_def collect_response_def set_up_delivery_def
lemmas answer_defs = answer_def tell_of_response_def tell_tools_def tell_plugins_def remember_exchange_def suppress_reply_def
  deliver_def log_delivery_def log_task_def

definition same_prompt :: "skill_context option \<Rightarrow> skill_context option \<Rightarrow> bool" where
  "same_prompt k k' \<longleftrightarrow> map_option sc_instructions k = map_option sc_instructions k' \<and> map_option sc_references k = map_option sc_references k'"

lemma consult_agent_same_prompt:
  assumes "same_prompt k k'"
  shows "consult_agent env m u sid i k = consult_agent env m u sid i k'"
proof -
  have "augmented_text t mem rag k = augmented_text t mem rag k'" for t mem rag
    using assms by (cases k; cases k') (simp_all add: augmented_text_def same_prompt_def Let_def)
  then have "build_prompt_text env m u k = build_prompt_text env m u k'"
    by (simp add: build_prompt_text_def fun_eq_iff Let_def)
  then show ?thesis by (simp add: consult_agent_def fun_eq_iff)
qed

definition relimit :: "(skill_document \<Rightarrow> string list option) \<Rightarrow> skill_document \<Rightarrow> skill_document" where
  "relimit f k = k\<lparr>sk_allowed_tools := f k\<rparr>"

lemma find_map: "find P (map f xs) = map_option f (find (P \<circ> f) xs)"
  by (induction xs) auto

lemma relimit_selection [simp]:
  "triggered lower msg (relimit f k) = triggered lower msg k" "auto_selected lower msg (relimit f k) = auto_selected lower msg k"
  by (simp_all add: triggered_def auto_selected_def relimit_def)

lemma select_relimit: "select_skill lower msg (map (relimit f) ks) = map_option (relimit f) (select_skill lower msg ks)"
  by (simp add: select_skill_def find_map comp_def split: option.split)

definition relimit_env ::
  "tool_registry \<Rightarrow> scope_resolver \<Rightarrow> (skill_document \<Rightarrow> string list option) \<Rightarrow> ('w, 'm, 'doc) pipeline_env \<Rightarrow> ('w, 'm, 'doc) pipeline_env" where
  "relimit_env ts sc f env = env\<lparr>pe_tools := ts, pe_scopes := sc, pe_skills := map (relimit f) (pe_skills env)\<rparr>"

lemma relimit_fields [simp]:
  "pe_lower (relimit_env ts sc f env) = pe_lower env" "pe_now (relimit_env ts sc f env) = pe_now env"
  "pe_timestamp (relimit_env ts sc f env) = pe_timestamp env" "pe_uuid (relimit_env ts sc f env) = pe_uuid env"
  "pe_app (relimit_env ts sc f env) = pe_app env" "pe_channels (relimit_env ts sc f env) = pe_channels env"
  "pe_typing (relimit_env ts sc f env) = pe_typing env" "pe_photo (relimit_env ts sc f env) = pe_photo env"
  "pe_telegram_mode (relimit_env ts sc f env) = pe_telegram_mode env"
  "pe_session_exists (relimit_env ts sc f env) = pe_session_exists env"
  "pe_session_create (relimit_env ts sc f env) = pe_session_create env"
  "pe_plugins (relimit_env ts sc f env) = pe_plugins env" "pe_stale (relimit_env ts sc f env) = pe_stale env"
  "pe_router (relimit_env ts sc f env) = pe_router env" "pe_agents (relimit_env ts sc f env) = pe_agents env"
  "pe_registry (relimit_env ts sc f env) = pe_registry env" "pe_rbac (relimit_env ts sc f env) = pe_rbac env"
  "pe_proxies (relimit_env ts sc f env) = pe_proxies env" "pe_post (relimit_env ts sc f env) = pe_post env"
  "pe_parse_json (relimit_env ts sc f env) = pe_parse_json env" "pe_workflow (relimit_env ts sc f env) = pe_workflow env"
  "pe_memory (relimit_env ts sc f env) = pe_memory env" "pe_bootstrap (relimit_env ts sc f env) = pe_bootstrap env"
  "pe_rag (relimit_env ts sc f env) = pe_rag env" "pe_primary_model (relimit_env ts sc f env) = pe_primary_model env"
  "pe_prepare (relimit_env ts sc f env) = pe_prepare env" "pe_run (relimit_env ts sc f env) = pe_run env"
  "pe_fallback (relimit_env ts sc f env) = pe_fallback env" "pe_run_model (relimit_env ts sc f env) = pe_run_model env"
  "pe_report (relimit_env ts sc f env) = pe_report env" "pe_jobs (relimit_env ts sc f env) = pe_jobs env"
  by (simp_all add: relimit_env_def)

lemma relimit_stretches:
  "reply (relimit_env ts sc f env) = reply env"
  "log_task (relimit_env ts sc f env) = log_task env"
  "start_typing (relimit_env ts sc f env) = start_typing env"
  "ensure_session (relimit_env ts sc f env) = ensure_session env"
  "tell_plugins (relimit_env ts sc f env) = tell_plugins env"
  "registered (relimit_env ts sc f env) = registered env"
  "set_up_delivery (relimit_env ts sc f env) = set_up_delivery env"
  "find_agent (relimit_env ts sc f env) = find_agent env"
  "build_prompt_text (relimit_env ts sc f env) = build_prompt_text env"
  by (unfold reply_def log_task_def start_typing_def ensure_session_def tell_plugins_def registered_def
      set_up_delivery_def find_agent_def build_prompt_text_def relimit_fields) (rule refl)+

lemma relimit_replies:
  "reply_and_finish (relimit_env ts sc f env) = reply_and_finish env"
  "reply_and_record (relimit_env ts sc f env) = reply_and_record env"
  by (unfold reply_and_finish_def reply_and_record_def relimit_stretches) (rule refl)+

lemma relimit_stretches2:
  "pass_gate (relimit_env ts sc f env) = pass_gate env"
  "ask_plugins (relimit_env ts sc f env) = ask_plugins env"
  "open_session (relimit_env ts sc f env) = open_session env"
  "check_receive (relimit_env ts sc f env) = check_receive env"
  "route_to_process (relimit_env ts sc f env) = route_to_process env"
  "route_to_workflow (relimit_env ts sc f env) = route_to_workflow env"
  "run_agent (relimit_env ts sc f env) = run_agent env"
  "collect_response (relimit_env ts sc f env) = collect_response env"
  by (unfold pass_gate_def ask_plugins_def open_session_def welcome_idle_user_def check_receive_def
      route_to_process_def route_to_workflow_def run_agent_def collect_response_def
      relimit_stretches relimit_replies relimit_fields) (rule refl)+

lemma relimit_answer: "answer (relimit_env ts sc f env) = answer env"
  by (unfold answer_defs relimit_stretches relimit_fields) (rule refl)+

lemma relimit_consult: "consult_agent (relimit_env ts sc f env) = consult_agent env"
  by (unfold consult_agent_def relimit_stretches relimit_stretches2 relimit_answer relimit_fields) (rule refl)+

text \<open>
  No tool is ever denied in the handling of a message, and which tools are registered, the scopes of
  the user and the tools that a skill allows make no difference to it: nothing that happens changes when
  they do.
\<close>

theorem tool_limits_have_no_effect:
  "process_message (relimit_env ts sc f env) m s = process_message env m s"
proof -
  have "after_session (relimit_env ts sc f env) m uia s = after_session env m uia s" for uia s
  proof -
    let ?sk = "select_skill (pe_lower env) (im_text m) (pe_skills env)"
    have sel: "select_skill (pe_lower env) (im_text m) (pe_skills (relimit_env ts sc f env)) = map_option (relimit f) ?sk"
      by (simp add: relimit_env_def select_relimit)
    have same: "same_prompt (map_option (\<lambda>k. build_context k t) (map_option (relimit f) ?sk)) (map_option (\<lambda>k. build_context k t) ?sk)" for t
      by (cases ?sk) (simp_all add: same_prompt_def build_context_def relimit_def)
    show ?thesis
      by (simp add: after_session_def choose_tools_go relimit_stretches relimit_stretches2 relimit_consult sel
          consult_agent_same_prompt [OF same] split: prod.split)
  qed
  then show ?thesis by (simp add: process_message_def relimit_stretches2)
qed

section \<open>Only the session of the message\<close>

text \<open>
  Any other behaviour of the session service and of the agents for all other sessions. The nodes of the
  workflow run in sessions of a user of their own (\<open>workflow_user\<close> in \<open>src/graph_workflow.rs\<close>) and may change with
  them.
\<close>

definition elsewhere ::
  "('w, 'm, 'doc) pipeline_env \<Rightarrow> string \<Rightarrow> string \<Rightarrow> ('w, 'm, 'doc) pipeline_env \<Rightarrow> ('w, 'm, 'doc) pipeline_env" where
  "elsewhere other u sid env = env\<lparr>
     pe_session_exists := (\<lambda>v i. if v = u \<and> i = sid then pe_session_exists env v i else pe_session_exists other v i),
     pe_session_create := (\<lambda>v i. if v = u \<and> i = sid then pe_session_create env v i else pe_session_create other v i),
     pe_prepare := (\<lambda>a v i. if v = u \<and> i = sid then pe_prepare env a v i else pe_prepare other a v i),
     pe_run := (\<lambda>a v i. if v = u \<and> i = sid then pe_run env a v i else pe_run other a v i),
     pe_run_model := (\<lambda>v i. if v = u \<and> i = sid then pe_run_model env v i else pe_run_model other v i),
     pe_workflow := (if pe_workflow env = None then None else pe_workflow other)\<rparr>"

lemma elsewhere_fields:
  "pe_lower (elsewhere other u sid env) = pe_lower env" "pe_now (elsewhere other u sid env) = pe_now env"
  "pe_timestamp (elsewhere other u sid env) = pe_timestamp env"
  "pe_app (elsewhere other u sid env) = pe_app env" "pe_channels (elsewhere other u sid env) = pe_channels env"
  "pe_typing (elsewhere other u sid env) = pe_typing env" "pe_photo (elsewhere other u sid env) = pe_photo env"
  "pe_telegram_mode (elsewhere other u sid env) = pe_telegram_mode env"
  "pe_plugins (elsewhere other u sid env) = pe_plugins env" "pe_skills (elsewhere other u sid env) = pe_skills env"
  "pe_tools (elsewhere other u sid env) = pe_tools env" "pe_scopes (elsewhere other u sid env) = pe_scopes env"
  "pe_agents (elsewhere other u sid env) = pe_agents env"
  "pe_registry (elsewhere other u sid env) = pe_registry env" "pe_rbac (elsewhere other u sid env) = pe_rbac env"
  "pe_proxies (elsewhere other u sid env) = pe_proxies env" "pe_post (elsewhere other u sid env) = pe_post env"
  "pe_parse_json (elsewhere other u sid env) = pe_parse_json env" "pe_uuid (elsewhere other u sid env) = pe_uuid env"
  "pe_stale (elsewhere other u sid env) = pe_stale env" "pe_router (elsewhere other u sid env) = pe_router env"
  "pe_memory (elsewhere other u sid env) = pe_memory env" "pe_bootstrap (elsewhere other u sid env) = pe_bootstrap env"
  "pe_rag (elsewhere other u sid env) = pe_rag env" "pe_primary_model (elsewhere other u sid env) = pe_primary_model env"
  "pe_fallback (elsewhere other u sid env) = pe_fallback env" "pe_report (elsewhere other u sid env) = pe_report env"
  "pe_jobs (elsewhere other u sid env) = pe_jobs env"
  "pe_session_exists (elsewhere other u sid env) u sid = pe_session_exists env u sid"
  "pe_session_create (elsewhere other u sid env) u sid = pe_session_create env u sid"
  "pe_prepare (elsewhere other u sid env) a u sid = pe_prepare env a u sid"
  "pe_run (elsewhere other u sid env) a u sid = pe_run env a u sid"
  "pe_run_model (elsewhere other u sid env) u sid = pe_run_model env u sid"
  by (simp_all add: elsewhere_def)

lemma elsewhere_stretches:
  "reply (elsewhere other u sid env) = reply env"
  "log_task (elsewhere other u sid env) = log_task env"
  "start_typing (elsewhere other u sid env) = start_typing env"
  "tell_plugins (elsewhere other u sid env) = tell_plugins env"
  "registered (elsewhere other u sid env) = registered env"
  "set_up_delivery (elsewhere other u sid env) = set_up_delivery env"
  "find_agent (elsewhere other u sid env) = find_agent env"
  "build_prompt_text (elsewhere other u sid env) = build_prompt_text env"
  "tool_decisions (elsewhere other u sid env) = tool_decisions env"
  by (unfold reply_def log_task_def start_typing_def tell_plugins_def registered_def
      set_up_delivery_def find_agent_def build_prompt_text_def tool_decisions_def elsewhere_fields) (rule refl)+

lemma elsewhere_replies:
  "reply_and_finish (elsewhere other u sid env) = reply_and_finish env"
  "reply_and_record (elsewhere other u sid env) = reply_and_record env"
  by (unfold reply_and_finish_def reply_and_record_def elsewhere_stretches) (rule refl)+

lemma elsewhere_stretches2:
  "ask_plugins (elsewhere other u sid env) = ask_plugins env"
  "choose_tools (elsewhere other u sid env) = choose_tools env"
  "check_receive (elsewhere other u sid env) = check_receive env"
  "route_to_process (elsewhere other u sid env) = route_to_process env"
  "collect_response (elsewhere other u sid env) = collect_response env"
  "answer (elsewhere other u sid env) = answer env"
  by (unfold ask_plugins_def choose_tools_def check_receive_def route_to_process_def collect_response_def
      answer_defs elsewhere_stretches elsewhere_replies elsewhere_fields) (rule refl)+

lemma elsewhere_session:
  "ensure_session (elsewhere other u sid env) u sid s = ensure_session env u sid s"
  "run_agent (elsewhere other u sid env) m u sid a p s = run_agent env m u sid a p s"
  by (unfold ensure_session_def run_agent_def elsewhere_stretches elsewhere_replies elsewhere_fields) (rule refl)+

lemma elsewhere_workflow:
  "pe_workflow env = None \<or> dict_has (pe_agents env) i \<Longrightarrow>
   route_to_workflow (elsewhere other u sid env) m i s = route_to_workflow env m i s"
  by (auto simp: route_to_workflow_def elsewhere_def split: option.split)

lemma elsewhere_entry:
  "pass_gate (elsewhere other u sid env) = pass_gate env"
  "open_session (elsewhere other u sid env) = open_session env"
  by (unfold pass_gate_def open_session_def welcome_idle_user_def elsewhere_stretches elsewhere_replies elsewhere_fields)
    (rule refl)+

text \<open>The handling up to the choice of the user, the session and the agent.\<close>

definition session_opened :: "('w, 'm, 'doc) pipeline_env \<Rightarrow> inbound_message \<Rightarrow> ('w, string \<times> string \<times> string) stretch" where
  "session_opened env m s =
     then_flow (pass_gate env m s) (\<lambda>_ s.
     then_flow (ask_plugins env m OnUserMessage (empty_context\<lparr>hc_user_message := Some (im_text m)\<rparr>) s) (\<lambda>_ s.
     open_session env m s))"

lemma then_flow_assoc: "then_flow (then_flow p k) h = then_flow p (\<lambda>a s. then_flow (k a s) h)"
  by (cases p; cases "snd p") auto

lemma process_message_session: "process_message env m s = then_flow (session_opened env m s) (\<lambda>uia. after_session env m uia)"
  by (simp add: process_message_def session_opened_def then_flow_assoc)

lemma after_session_elsewhere:
  assumes "pe_workflow env = None \<or> dict_has (pe_agents env) i"
  shows "after_session (elsewhere other u sid env) m (u, sid, i) s = after_session env m (u, sid, i) s"
proof -
  have "consult_agent (elsewhere other u sid env) m u sid j k = consult_agent env m u sid j k" for j k
    by (rule ext) (unfold consult_agent_def elsewhere_stretches elsewhere_stretches2 elsewhere_session elsewhere_fields, rule refl)
  then show ?thesis
    by (simp add: after_session_def elsewhere_stretches elsewhere_stretches2 elsewhere_session elsewhere_workflow [OF assms])
qed

text \<open>
  C12. The whole handling of a message, from the gate to the delivery, depends on no session but its
  own: let it be the session \<open>sid\<close> of user \<open>u\<close> and an agent that no workflow stands in for. Whatever
  the session service and the agents do for every other user or session, and whatever the nodes of the
  workflow do in theirs, the state, the world and the result are the same.
\<close>

theorem only_own_session_used:
  assumes "\<And>s1 v d i. session_opened env m s = (s1, Go (v, d, i)) \<Longrightarrow>
      v = u \<and> d = sid \<and> (pe_workflow env = None \<or> dict_has (pe_agents env) i)"
  shows "process_message (elsewhere other u sid env) m s = process_message env m s"
proof -
  have opened: "session_opened (elsewhere other u sid env) m s = session_opened env m s"
    by (simp add: session_opened_def elsewhere_entry elsewhere_stretches2)
  show ?thesis
  proof (cases "session_opened env m s")
    case (Pair s1 f)
    then show ?thesis
      by (cases f) (auto simp: process_message_session opened after_session_elsewhere dest: assms)
  qed
qed

definition paired_start :: "string list pipeline" where
  "paired_start = demo_start\<lparr>pl_gate := demo_gate\<lparr>gt_access := mark_paired ''slack:U1'' (gt_access demo_gate)\<rparr>\<rparr>"

lemma paired_session:
  "snd (session_opened demo_env (plain_message Slack ''U1'' ''hello'') paired_start) = Go (''slack:U1'', ''gw-id'', ''assistant'')"
proof -
  have e: "process_entry (plain_message Slack ''U1'' ''hello'') 1 (pl_gate paired_start) = (pl_gate paired_start, Proceed)"
    by (simp add: paired_start_def demo_gate_def gate_simps)
  show ?thesis
    by (simp add: session_opened_def pass_gate_def e ask_plugins_def open_session_def welcome_idle_user_def demo_env_def)
      (simp add: log_task_def paired_start_def demo_start_def sb_new_def plain_message_def default_session_config_def session_key_def
        get_last_activity_def resolve_session_def create_session_def Let_def channel_peer_def resolve_agent_def resolve_legacy_def mr_new_def)
qed

theorem only_own_session_used_witness:
  "snd (session_opened demo_env (plain_message Slack ''U1'' ''hello'') paired_start) = Go (''slack:U1'', ''gw-id'', ''assistant'') \<and>
   process_message (elsewhere (demo_env\<lparr>pe_run := (\<lambda>a u s p w. (w @ [u], Ok []))\<rparr>) ''slack:U1'' ''gw-id'' demo_env)
     (plain_message Slack ''U1'' ''hello'') paired_start
   = process_message demo_env (plain_message Slack ''U1'' ''hello'') paired_start"
  using paired_session
  by (auto intro!: only_own_session_used simp: demo_env_def)

section \<open>What is left behind\<close>

definition keeps :: "'w pipeline \<Rightarrow> 'w pipeline \<times> 'a flow \<Rightarrow> bool" where
  "keeps s r \<longleftrightarrow> pl_typing (fst r) = pl_typing s \<and> pl_audit (fst r) = pl_audit s"

definition keeps_unless_audited :: "'w pipeline \<Rightarrow> 'w pipeline \<times> 'a flow \<Rightarrow> bool" where
  "keeps_unless_audited s r \<longleftrightarrow> (\<forall>x. snd r = Finish x \<longrightarrow> pl_audit (fst r) = pl_audit s \<longrightarrow> pl_typing (fst r) = pl_typing s)"

lemma keeps_then:
  "keeps s p \<Longrightarrow> (\<And>a s'. p = (s', Go a) \<Longrightarrow> keeps s' (k a s')) \<Longrightarrow> keeps s (then_flow p k)"
  by (cases p; cases "snd p") (auto simp: keeps_def)

lemma keeps_unless_then:
  assumes "keeps s p" "\<And>a s'. p = (s', Go a) \<Longrightarrow> keeps_unless_audited s' (k a s')"
  shows "keeps_unless_audited s (then_flow p k)"
proof (cases p)
  case (Pair s' f)
  then show ?thesis using assms by (cases f) (auto simp: keeps_def keeps_unless_audited_def)
qed

lemma keeps_reply: "keeps s (reply env m t s)"
  by (simp add: keeps_def reply_def split: option.split)

lemma keeps_reply_and_finish: "keeps s (reply_and_finish env m t s)"
  unfolding reply_and_finish_def by (rule keeps_then [OF keeps_reply]) (simp add: keeps_def)

lemma keeps_reply_and_record: "keeps s (reply_and_record env m t b s)"
  unfolding reply_and_record_def by (rule keeps_then [OF keeps_reply]) (simp add: keeps_def record_message_def)

lemma keeps_world: "keeps (s\<lparr>pl_world := w\<rparr>) r = keeps s r"
  by (simp add: keeps_def)

lemma keeps_replies_world:
  "keeps s (reply_and_finish env m t (s\<lparr>pl_world := w\<rparr>))" "keeps s (reply_and_record env m t b (s\<lparr>pl_world := w\<rparr>))"
  using keeps_reply_and_finish keeps_reply_and_record by (metis keeps_world)+

lemma keeps_go: "keeps s (s, f)" "keeps s (s\<lparr>pl_world := w\<rparr>, f)"
  by (simp_all add: keeps_def)

lemmas keeps_intros = keeps_replies_world keeps_go keeps_reply_and_finish keeps_reply_and_record

lemma keeps_ask_plugins: "keeps s (ask_plugins env m h c s)"
  by (auto simp: ask_plugins_def intro: keeps_intros split: prod.split hook_result.split)

lemma keeps_check_receive: "keeps s (check_receive env m i s)"
  by (auto simp: check_receive_def intro: keeps_intros)

lemma keeps_route_to_process: "keeps s (route_to_process env m u sid i s)"
  by (auto simp: route_to_process_def intro: keeps_intros split: option.split prod.split http_answer.split)

lemma keeps_route_to_workflow: "keeps s (route_to_workflow env m i s)"
  by (auto simp: route_to_workflow_def intro: keeps_intros split: option.split prod.split sum.split)

lemma keeps_choose_tools: "keeps s (choose_tools env m s)"
  by (simp add: choose_tools_go keeps_def)

lemma keeps_find_agent: "keeps s (find_agent env i s)"
  by (simp add: find_agent_def keeps_def split: option.split)

lemma keeps_build_prompt: "keeps (fst (build_prompt_text env m u k s)) r = keeps s r"
  by (simp add: keeps_def build_prompt_text_def Let_def case_prod_beta)

lemma activate_request_fields [simp]:
  "pl_typing (activate_request x s) = pl_typing s" "pl_audit (activate_request x s) = pl_audit s"
  "pl_world (activate_request x s) = pl_world s"
  by (simp_all add: activate_request_def)

lemma keeps_activated: "keeps (activate_request x s) r = keeps s r"
  by (simp add: keeps_def)

lemma keeps_run_agent: "keeps s (run_agent env m u sid a p s)"
  by (subst keeps_activated [where x = "im_sender_id m", symmetric])
    (auto simp: run_agent_def Let_def intro: keeps_intros split: sum.split prod.split)

lemma keeps_collect_response: "keeps s (collect_response env m items s)"
  by (simp add: collect_response_def keeps_def split: option.split prod.split)

lemma tell_plugins_audit [simp]: "pl_audit (tell_plugins env h c s) = pl_audit s"
  by (simp add: tell_plugins_def)

lemma tell_tools_audit [simp]: "pl_audit (tell_tools env calls s) = pl_audit s"
  by (induction calls arbitrary: s) (simp_all add: tell_tools_def Let_def)

lemma tell_of_response_audit [simp]: "pl_audit (tell_of_response env n r calls s) = pl_audit s"
  by (simp add: tell_of_response_def Let_def)

lemma remember_exchange_audit: "pl_audit (fst (remember_exchange env m u r s)) = pl_audit s" "snd (remember_exchange env m u r s) \<noteq> Finish x"
  by (simp_all add: remember_exchange_def split: bool.split option.split)

lemma suppress_reply_audit: "pl_audit (fst (suppress_reply env m r s)) = pl_audit s"
  by (simp add: suppress_reply_def log_task_def split: message_source.split option.split)

lemma then_flow_audit:
  "pl_audit (fst p) = a \<Longrightarrow> (\<And>x s. p = (s, Go x) \<Longrightarrow> pl_audit (fst (k x s)) = a) \<Longrightarrow> pl_audit (fst (then_flow p k)) = a"
  by (cases p; cases "snd p") auto

lemma log_delivery_audit: "pl_audit (fst (log_delivery env m r s)) = pl_audit s"
  by (simp add: log_delivery_def split: message_source.split option.split)

lemma deliver_audit: "pl_audit (fst (deliver env m r images d s)) = pl_audit s"
proof -
  have "pl_audit (fst (then_flow (log_delivery env m r (s\<lparr>pl_world := w\<rparr>)) (\<lambda>_ s. (on_world f s, Go ())))) = pl_audit s" for w f
    using log_delivery_audit [of env m r "s\<lparr>pl_world := w\<rparr>"]
    by (intro then_flow_audit) (auto simp: on_world_def)
  then show ?thesis
    by (auto simp: deliver_def log_task_def split: option.split prod.split sum.split message_source.split)
qed

lemma answer_audits: "keeps_unless_audited s (answer env m u sid i n cd s)"
proof -
  obtain c d where cd: "cd = (c, d)" by force
  let ?s = "tell_of_response env n (final_response c) (cr_tool_calls c) (record_message m True (finish_request (im_sender_id m) u s))"
  let ?e = "\<lparr>au_user_id = u, au_session_id = sid, au_resource = i, au_tool_calls = length (cr_tool_calls c)\<rparr>"
  have s: "pl_audit ?s = pl_audit s" by (simp add: record_message_def finish_request_def)
  obtain s1 f where r: "remember_exchange env m u (final_response c) ?s = (s1, f)" by force
  have f: "\<And>x. f \<noteq> Finish x" "pl_audit s1 = pl_audit s"
    using remember_exchange_audit [of env m u "final_response c" ?s] r s by auto
  have "pl_audit (fst (then_flow (suppress_reply env m (final_response c) (audit_run u sid i (length (cr_tool_calls c)) s1))
      (\<lambda>_ s. deliver env m (final_response c) (cr_images c) d s))) = pl_audit s @ [?e]"
    using suppress_reply_audit [of env m "final_response c" "audit_run u sid i (length (cr_tool_calls c)) s1"] f(2)
    by (intro then_flow_audit) (auto simp: audit_run_def deliver_audit)
  then show ?thesis
    using r f(1) by (cases f) (auto simp: answer_def cd Let_def keeps_unless_audited_def)
qed

lemma keeps_unless_build_prompt:
  assumes "\<And>s2 p. keeps_unless_audited s2 (g s2 p)"
  shows "keeps_unless_audited s (case build_prompt_text env m u k s of (s2, p) \<Rightarrow> g s2 p)"
proof -
  obtain s2 p where b: "build_prompt_text env m u k s = (s2, p)" by force
  then have "pl_typing s2 = pl_typing s" "pl_audit s2 = pl_audit s"
    by (auto simp: build_prompt_text_def Let_def split: prod.splits)
  with assms [of s2 p] show ?thesis by (simp add: b keeps_unless_audited_def)
qed

lemma consult_agent_audits: "keeps_unless_audited s (consult_agent env m u sid i k s)"
  unfolding consult_agent_def
  by (auto intro!: keeps_unless_then keeps_find_agent keeps_ask_plugins keeps_run_agent keeps_collect_response answer_audits
      keeps_unless_build_prompt simp: Let_def split: prod.split)

text \<open>
  A message whose handling ends without an answer of an agent of the gateway, because a plugin answered,
  a role or the router kept it from the agent, another process or the workflow answered, or the run
  failed, leaves the task that repeats the typing notice running; nothing ends it later.
\<close>

theorem unanswered_message_keeps_typing:
  assumes "pe_channels env (key_of m) \<noteq> None" "after_session env m (u, sid, i) s = (s1, Finish x)" "pl_audit s1 = pl_audit s"
  shows "pl_typing s1 = u # pl_typing s"
proof -
  let ?s = "ensure_session env u sid (start_typing env m u s)"
  have s: "pl_typing ?s = u # pl_typing s" "pl_audit ?s = pl_audit s"
    using assms(1) by (auto simp: ensure_session_def start_typing_def on_world_def split: prod.split)
  have "keeps_unless_audited ?s (after_session env m (u, sid, i) s)"
    unfolding after_session_def Let_def prod.case
    by (auto intro!: keeps_unless_then keeps_choose_tools keeps_ask_plugins keeps_check_receive keeps_route_to_process
        keeps_route_to_workflow consult_agent_audits)
  with assms s show ?thesis by (simp add: keeps_unless_audited_def)
qed

lemma failing_demo_run:
  "run_agent demo_env m u sid a p s = (activate_request (im_sender_id m) s, Finish (Err ''agent run failed: down''))"
  by (simp add: run_agent_def demo_env_def has_fallbacks_def single_chain_def activate_request_def)

lemma demo_facts:
  "pe_plugins demo_env = []" "pe_agents demo_env = [(''assistant'', ''Assistant'')]" "registered demo_env i = None"
  "get_proxy (pe_proxies demo_env) i = None" "pe_workflow demo_env = None" "pe_memory demo_env = None" "pe_rag demo_env = None"
  "pe_typing demo_env k r w = w" "pe_session_exists demo_env u i w = (w, False)" "pe_session_create demo_env u i w = w"
  "pe_skills demo_env = []"
  by (simp_all add: demo_env_def registered_def rg_new_def dict_get_def get_proxy_def)

theorem unanswered_message_keeps_typing_witness:
  "pl_typing (fst (after_session demo_env (plain_message Slack ''U1'' ''hello'') (''U1'', ''s'', ''assistant'') demo_start)) = [''U1'']"
proof -
  let ?m = "plain_message Slack ''U1'' ''hello''"
  let ?r = "after_session demo_env ?m (''U1'', ''s'', ''assistant'') demo_start"
  have "snd ?r = Finish (Err ''agent run failed: down'') \<and> pl_audit (fst ?r) = []"
    by (simp add: after_session_def choose_tools_go consult_agent_def ask_plugins_def check_receive_def route_to_process_def
        route_to_workflow_def find_agent_def failing_demo_run build_prompt_text_def demo_facts Let_def split_beta)
      (simp add: demo_start_def ensure_session_def start_typing_def on_world_def demo_facts split_beta)
  then show ?thesis
    using unanswered_message_keeps_typing [of demo_env ?m "''U1''" "''s''" "''assistant''" demo_start "fst ?r" "Err ''agent run failed: down''"]
    by (cases ?r) (simp add: demo_env_def demo_start_def key_of_def plain_message_def)
qed

lemma reply_and_record_gate [simp]: "pl_gate (fst (reply_and_record env m t b s)) = pl_gate s"
  by (simp add: reply_and_record_def reply_def record_message_def split: option.split)

lemma run_agent_active: "im_sender_id m \<in> set (gt_active_requests (pl_gate (fst (run_agent env m u sid a p s))))"
  by (auto simp: run_agent_def activate_request_def Let_def split: sum.split prod.split)

text \<open>
  When a run ends without a response, the request stays active and its typing task runs on: a later stop
  command of the sender is answered as if it had cancelled something.
\<close>

theorem failed_run_stays_active:
  assumes "run_agent env m u sid agent prompt s = (s1, Finish x)"
    and "is_stop_command (im_text stop)" "im_sender_id stop = im_sender_id m"
  shows "snd (process_entry stop now (pl_gate s1)) = StopCancelled \<and> pl_typing s1 = pl_typing s"
  using assms run_agent_active [of m env u sid agent prompt s] keeps_run_agent [of s env m u sid agent prompt]
  by (simp add: process_entry_def handle_stop_def keeps_def)

theorem failed_run_stays_active_witness:
  "let m = plain_message Slack ''U1'' ''hello''; s1 = fst (run_agent demo_env m ''U1'' ''s'' ''assistant'' ''hello'' demo_start)
   in snd (process_entry (plain_message Slack ''U1'' ''/stop'') 2 (pl_gate s1)) = StopCancelled"
proof -
  let ?m = "plain_message Slack ''U1'' ''hello''"
  have t: "trim ''/stop'' = ''/stop''" by (simp add: trim_eval)
  show ?thesis
    using failed_run_stays_active [OF failing_demo_run, of "plain_message Slack ''U1'' ''/stop''" ?m]
    by (simp add: failing_demo_run is_stop_command_def t ascii_eval plain_message_def)
qed

end
