(* ===== verification/HealthMonitor.thy ===== *)
theory HealthMonitor
  imports Json
begin

text \<open>
  \<open>src/health_monitor.rs\<close> with its configuration in \<open>src/config.rs\<close>: the state of every monitored
  component, alerts after a streak of failures and recoveries, the delivery of both, and the loop of
  checks. Instants are nanoseconds; the requests to other servers are the parameters of \<open>health_env\<close>
  over a world \<open>'w\<close>. The counter of failures wraps at its width, as in a release build.
\<close>

section \<open>State\<close>

record health_monitor_config =
  hc_check_interval_secs :: "64 word"
  hc_failure_threshold :: "32 word"
  hc_alert_webhook_url :: "string option"
  hc_alert_telegram_admin :: "string option"

definition default_health_config :: health_monitor_config where
  "default_health_config = \<lparr>hc_check_interval_secs = 60, hc_failure_threshold = 3, hc_alert_webhook_url = None,
     hc_alert_telegram_admin = None\<rparr>"

datatype health_status = Healthy | Degraded string | Unhealthy string

fun is_healthy :: "health_status \<Rightarrow> bool" where
  "is_healthy Healthy = True"
| "is_healthy _ = False"

record component_health =
  ch_name :: string
  ch_status :: health_status
  ch_consecutive_failures :: "32 word"
  ch_last_check :: int
  ch_alerted :: bool

datatype health_event = Alert string "32 word" | Recovery string

record health_monitor =
  hm_components :: "component_health dict"
  hm_config :: health_monitor_config

definition hm_new :: "health_monitor_config \<Rightarrow> health_monitor" where
  "hm_new cfg = \<lparr>hm_components = [], hm_config = cfg\<rparr>"

section \<open>One check\<close>

definition fresh_component :: "string \<Rightarrow> int \<Rightarrow> component_health" where
  "fresh_component c now = \<lparr>ch_name = c, ch_status = Healthy, ch_consecutive_failures = 0, ch_last_check = now, ch_alerted = False\<rparr>"

definition show_word :: "'a::len word \<Rightarrow> string" where
  "show_word w = show_nat (unat w)"

definition note_result :: "32 word \<Rightarrow> bool \<Rightarrow> component_health \<Rightarrow> component_health \<times> health_event option" where
  "note_result threshold healthy h =
     (if healthy
      then (h\<lparr>ch_status := Healthy, ch_consecutive_failures := 0, ch_alerted := False\<rparr>,
            if ch_alerted h then Some (Recovery (ch_name h)) else None)
      else (let failures = ch_consecutive_failures h + 1;
                h1 = h\<lparr>ch_consecutive_failures := failures,
                  ch_status := (if threshold \<le> failures then Unhealthy (show_word failures @ '' consecutive failures'')
                                else Degraded (show_word failures @ ''/'' @ show_word threshold @ '' failures''))\<rparr>
            in if threshold \<le> failures \<and> \<not> ch_alerted h
               then (h1\<lparr>ch_alerted := True\<rparr>, Some (Alert (ch_name h) failures)) else (h1, None)))"

definition record_check :: "int \<Rightarrow> string \<Rightarrow> bool \<Rightarrow> health_monitor \<Rightarrow> health_monitor \<times> health_event option" where
  "record_check now c healthy m =
     (let h = (case dict_get (hm_components m) c of Some h \<Rightarrow> h | None \<Rightarrow> fresh_component c now)
      in case note_result (hc_failure_threshold (hm_config m)) healthy (h\<lparr>ch_last_check := now\<rparr>) of
           (h1, e) \<Rightarrow> (m\<lparr>hm_components := dict_put c h1 (hm_components m)\<rparr>, e))"

definition record_check_with_reason :: "int \<Rightarrow> string \<Rightarrow> bool \<Rightarrow> string option \<Rightarrow> health_monitor \<Rightarrow> health_monitor \<times> health_event option" where
  "record_check_with_reason now c healthy reason m = record_check now c healthy m"

definition status :: "health_monitor \<Rightarrow> component_health list" where
  "status m = map snd (hm_components m)"

definition component_status :: "health_monitor \<Rightarrow> string \<Rightarrow> component_health option" where
  "component_status m c = dict_get (hm_components m) c"

definition component_count :: "health_monitor \<Rightarrow> nat" where
  "component_count m = length (hm_components m)"

section \<open>Delivery\<close>

datatype post_answer = Accepted | Rejected string | NotSent string

record 'w health_env =
  he_now :: "'w \<Rightarrow> int"
  he_rfc3339 :: "int \<Rightarrow> string"
  he_clock :: "int \<Rightarrow> string"
  he_post :: "string \<Rightarrow> json \<Rightarrow> 'w \<Rightarrow> 'w \<times> post_answer"
  he_bot_token :: "string option"

definition alert_payload :: "string \<Rightarrow> health_event \<Rightarrow> json" where
  "alert_payload timestamp e =
     (case e of
        Alert c n \<Rightarrow> JObj [(''component'', JStr c), (''status'', JStr ''unhealthy''), (''failure_count'', JInt (uint n)),
            (''timestamp'', JStr timestamp), (''event_type'', JStr ''alert'')]
      | Recovery c \<Rightarrow> JObj [(''component'', JStr c), (''status'', JStr ''healthy''), (''failure_count'', JInt 0),
            (''timestamp'', JStr timestamp), (''event_type'', JStr ''recovery'')])"

definition delivered :: "post_answer \<Rightarrow> string \<Rightarrow> (string, unit) result" where
  "delivered a text1 = (case a of Accepted \<Rightarrow> Ok () | Rejected st \<Rightarrow> Err (text1 @ st) | NotSent e \<Rightarrow> Err e)"

definition send_webhook_alert :: "'w health_env \<Rightarrow> string \<Rightarrow> health_event \<Rightarrow> 'w \<Rightarrow> 'w \<times> (string, unit) result" where
  "send_webhook_alert env url e w =
     (case he_post env url (alert_payload (he_rfc3339 env (he_now env w)) e) w of
        (w1, a) \<Rightarrow> (w1, delivered a ''Webhook returned non-success status: ''))"

definition siren :: string where "siren = utf8 [0xF0, 0x9F, 0x9A, 0xA8]"
definition check_mark :: string where "check_mark = utf8 [0xE2, 0x9C, 0x85]"

definition in_backticks :: "string \<Rightarrow> string" where
  "in_backticks c = [CHR 0x60] @ c @ [CHR 0x60]"

definition telegram_text :: "string \<Rightarrow> health_event \<Rightarrow> string" where
  "telegram_text time e =
     (case e of
        Alert c n \<Rightarrow> siren @ '' *Health Alert*'' @ newline @ newline @ ''Component: '' @ in_backticks c @ newline
          @ ''Status: Unhealthy'' @ newline @ ''Consecutive failures: '' @ show_word n @ newline @ ''Time: '' @ time
      | Recovery c \<Rightarrow> check_mark @ '' *Recovery*'' @ newline @ newline @ ''Component: '' @ in_backticks c @ newline
          @ ''Status: Healthy'' @ newline @ ''Time: '' @ time)"

definition send_telegram_alert :: "'w health_env \<Rightarrow> string \<Rightarrow> string \<Rightarrow> health_event \<Rightarrow> 'w \<Rightarrow> 'w \<times> (string, unit) result" where
  "send_telegram_alert env token chat e w =
     (case he_post env (''https://api.telegram.org/bot'' @ token @ ''/sendMessage'')
        (JObj [(''chat_id'', JStr chat), (''text'', JStr (telegram_text (he_clock env (he_now env w)) e)),
          (''parse_mode'', JStr ''Markdown'')]) w of
        (w1, a) \<Rightarrow> (w1, delivered a ''Telegram API returned non-success status: ''))"

text \<open>Failed deliveries are only logged.\<close>

definition dispatch_event :: "'w health_env \<Rightarrow> health_monitor_config \<Rightarrow> health_event \<Rightarrow> 'w \<Rightarrow> 'w" where
  "dispatch_event env cfg e w =
     (let w1 = (case hc_alert_webhook_url cfg of Some url \<Rightarrow> fst (send_webhook_alert env url e w) | None \<Rightarrow> w)
      in case (hc_alert_telegram_admin cfg, he_bot_token env) of
           (Some chat, Some token) \<Rightarrow> fst (send_telegram_alert env token chat e w1)
         | _ \<Rightarrow> w1)"

section \<open>The loop\<close>

type_synonym 'w checks = "(string \<times> ('w \<Rightarrow> 'w \<times> bool)) list"

fun check_round :: "'w health_env \<Rightarrow> 'w checks \<Rightarrow> health_monitor \<times> 'w \<Rightarrow> health_monitor \<times> 'w" where
  "check_round env [] s = s"
| "check_round env ((c, f) # cs) (m, w) =
     (case f w of
        (w1, healthy) \<Rightarrow>
          (case record_check (he_now env w1) c healthy m of
             (m1, None) \<Rightarrow> check_round env cs (m1, w1)
           | (m1, Some e) \<Rightarrow> check_round env cs (m1, dispatch_event env (hm_config m) e w1)))"

text \<open>The rounds before the loop is cancelled; an interval of zero panics when the timer is made.\<close>

definition run_periodic_checks :: "'w health_env \<Rightarrow> 'w checks \<Rightarrow> nat \<Rightarrow> health_monitor \<times> 'w \<Rightarrow> (health_monitor \<times> 'w) option" where
  "run_periodic_checks env cs rounds s =
     (if hc_check_interval_secs (hm_config (fst s)) = 0 then None else Some ((check_round env cs ^^ rounds) s))"

definition status_text :: "health_status \<Rightarrow> string" where
  "status_text st = (case st of Healthy \<Rightarrow> ''healthy'' | Degraded r \<Rightarrow> ''degraded: '' @ r | Unhealthy r \<Rightarrow> ''unhealthy: '' @ r)"

definition build_health_response :: "(int \<Rightarrow> string) \<Rightarrow> health_monitor \<Rightarrow> json" where
  "build_health_response rfc3339 m =
     JObj [(''components'', JArr (map (\<lambda>c. JObj [(''name'', JStr (ch_name c)), (''status'', JStr (status_text (ch_status c))),
        (''consecutive_failures'', JInt (uint (ch_consecutive_failures c))), (''last_check'', JStr (rfc3339 (ch_last_check c)))]) (status m)))]"

section \<open>Streaks\<close>

type_synonym check = "int \<times> string \<times> bool"

fun apply_check :: "check \<Rightarrow> health_monitor \<Rightarrow> health_monitor" where
  "apply_check (now, c, healthy) m = fst (record_check now c healthy m)"

definition monitor_after :: "health_monitor_config \<Rightarrow> check list \<Rightarrow> health_monitor" where
  "monitor_after cfg hs = fold apply_check hs (hm_new cfg)"

text \<open>The number of failed checks of a component since its last good one.\<close>

definition streak :: "string \<Rightarrow> check list \<Rightarrow> nat" where
  "streak c hs = length (takeWhile (\<lambda>(t, d, healthy). \<not> healthy) (filter (\<lambda>(t, d, healthy). d = c) (rev hs)))"

definition alert_at :: "health_monitor_config \<Rightarrow> nat" where
  "alert_at cfg = max 1 (unat (hc_failure_threshold cfg))"

definition expected_event :: "health_monitor_config \<Rightarrow> string \<Rightarrow> bool \<Rightarrow> nat \<Rightarrow> health_event option" where
  "expected_event cfg c healthy n =
     (if healthy then (if alert_at cfg \<le> n then Some (Recovery c) else None)
      else if Suc n = alert_at cfg then Some (Alert c (of_nat (Suc n))) else None)"

definition expected_status :: "health_monitor_config \<Rightarrow> nat \<Rightarrow> health_status" where
  "expected_status cfg n =
     (if n = 0 then Healthy
      else if unat (hc_failure_threshold cfg) \<le> n then Unhealthy (show_nat n @ '' consecutive failures'')
      else Degraded (show_nat n @ ''/'' @ show_nat (unat (hc_failure_threshold cfg)) @ '' failures''))"

lemma streak_simps [simp]:
  "streak c [] = 0"
  "streak c (hs @ [(t, d, healthy)]) = (if d \<noteq> c then streak c hs else if healthy then 0 else Suc (streak c hs))"
  by (simp_all add: streak_def)

lemma streak_le: "streak c hs \<le> length hs"
  unfolding streak_def by (rule order_trans [OF length_takeWhile_le]) (metis length_filter_le length_rev)

definition tracks :: "health_monitor_config \<Rightarrow> string \<Rightarrow> nat \<Rightarrow> component_health \<Rightarrow> bool" where
  "tracks cfg c n h \<longleftrightarrow> ch_name h = c \<and> unat (ch_consecutive_failures h) = n \<and> ch_alerted h = (alert_at cfg \<le> n)
     \<and> ch_status h = expected_status cfg n"

lemma unat_plus_one: "Suc (unat (w :: 32 word)) < 4294967296 \<Longrightarrow> unat (w + 1) = Suc (unat w)"
  by (simp add: unat_word_ariths)

lemma note_result_tracks:
  assumes "tracks cfg c n h" "Suc n < 4294967296"
  shows "tracks cfg c (if healthy then 0 else Suc n) (fst (note_result (hc_failure_threshold cfg) healthy h))"
    and "snd (note_result (hc_failure_threshold cfg) healthy h) = expected_event cfg c healthy n"
proof -
  obtain f where f: "ch_consecutive_failures h + 1 = f" by simp
  have u: "unat f = Suc n"
    using assms unat_plus_one [of "ch_consecutive_failures h"] by (simp add: tracks_def f)
  have w: "of_nat (Suc n) = f" by (subst u [symmetric]) (simp del: of_nat_Suc)
  have le: "hc_failure_threshold cfg \<le> f \<longleftrightarrow> unat (hc_failure_threshold cfg) \<le> Suc n"
    by (simp add: word_le_nat_alt u)
  show "tracks cfg c (if healthy then 0 else Suc n) (fst (note_result (hc_failure_threshold cfg) healthy h))"
    using assms(1) u le by (auto simp: note_result_def tracks_def Let_def alert_at_def expected_status_def show_word_def f)
  show "snd (note_result (hc_failure_threshold cfg) healthy h) = expected_event cfg c healthy n"
    using assms(1) le unfolding expected_event_def w by (auto simp: note_result_def tracks_def Let_def alert_at_def f)
qed

lemma tracks_fresh: "tracks cfg c 0 (fresh_component c now)"
  by (simp add: tracks_def fresh_component_def alert_at_def expected_status_def)

lemma tracks_time: "tracks cfg c n (h\<lparr>ch_last_check := now\<rparr>) = tracks cfg c n h"
  by (simp add: tracks_def)

definition health_of :: "health_monitor \<Rightarrow> string \<Rightarrow> component_health" where
  "health_of m c = (case component_status m c of Some h \<Rightarrow> h | None \<Rightarrow> fresh_component c 0)"

definition monitor_ok :: "health_monitor_config \<Rightarrow> check list \<Rightarrow> health_monitor \<Rightarrow> bool" where
  "monitor_ok cfg hs m \<longleftrightarrow> hm_config m = cfg \<and> (\<forall>c. tracks cfg c (streak c hs) (health_of m c))"

lemma record_check_eq:
  "record_check now c healthy m =
     (let n = note_result (hc_failure_threshold (hm_config m)) healthy ((health_of m c)\<lparr>ch_last_check := now\<rparr>)
      in (m\<lparr>hm_components := dict_put c (fst n) (hm_components m)\<rparr>, snd n))"
  by (simp add: record_check_def health_of_def component_status_def fresh_component_def Let_def split: option.split prod.split)

lemma component_status_put:
  "component_status (m\<lparr>hm_components := dict_put c h (hm_components m)\<rparr>) d = (if d = c then Some h else component_status m d)"
  by (simp add: component_status_def)

lemma health_of_put: "health_of (m\<lparr>hm_components := dict_put c h (hm_components m)\<rparr>) d = (if d = c then h else health_of m d)"
  by (simp add: health_of_def component_status_put)

lemma record_check_ok:
  assumes "monitor_ok cfg hs m" "Suc (streak c hs) < 4294967296"
  shows "monitor_ok cfg (hs @ [(now, c, healthy)]) (fst (record_check now c healthy m))"
    and "snd (record_check now c healthy m) = expected_event cfg c healthy (streak c hs)"
proof -
  let ?h = "(health_of m c)\<lparr>ch_last_check := now\<rparr>"
  have "tracks cfg c (streak c hs) ?h" using assms(1) by (simp add: monitor_ok_def tracks_time)
  note n = note_result_tracks [OF this assms(2), where healthy = healthy]
  show "monitor_ok cfg (hs @ [(now, c, healthy)]) (fst (record_check now c healthy m))"
    using assms(1) n(1) by (auto simp: record_check_eq Let_def monitor_ok_def health_of_put)
  show "snd (record_check now c healthy m) = expected_event cfg c healthy (streak c hs)"
    using assms(1) n(2) by (simp add: record_check_eq Let_def monitor_ok_def)
qed

lemma checked_component: "component_status (fst (record_check now c healthy m)) c \<noteq> None"
  by (simp add: record_check_eq Let_def component_status_put)

lemma monitor_after_ok: "length hs < 4294967296 \<Longrightarrow> monitor_ok cfg hs (monitor_after cfg hs)"
proof (induction hs rule: rev_induct)
  case Nil
  then show ?case by (simp add: monitor_after_def monitor_ok_def hm_new_def health_of_def component_status_def tracks_fresh)
next
  case (snoc x hs)
  obtain t c b where x: "x = (t, c, b)" by (cases x)
  have "monitor_ok cfg (hs @ [(t, c, b)]) (fst (record_check t c b (monitor_after cfg hs)))"
    by (rule record_check_ok(1)) (use snoc streak_le [of c hs] in auto)
  then show ?case by (simp add: x monitor_after_def)
qed

text \<open>
  C39. In any sequence of checks of any components, an alert for a component is raised exactly by the
  failed check that makes its streak of failures as long as the threshold, a recovery exactly by the
  first good check after such a streak, and nothing else is raised; checks of other components do not
  matter.
\<close>

theorem one_alert_per_streak:
  assumes "length hs < 4294967295"
  shows "snd (record_check now c healthy (monitor_after cfg hs)) = expected_event cfg c healthy (streak c hs)"
  by (rule record_check_ok(2) [OF monitor_after_ok]) (use assms streak_le [of c hs] in auto)

theorem one_alert_per_streak_witness:
  "let hs = [(1, ''store'', False), (2, ''model'', False), (3, ''store'', False)];
       m = monitor_after default_health_config hs
   in snd (record_check 4 ''store'' False m) = Some (Alert ''store'' 3) \<and> snd (record_check 4 ''model'' False m) = None"
  using one_alert_per_streak [of "[(1, ''store'', False), (2, ''model'', False), (3, ''store'', False)]" 4 "''store''" False default_health_config]
    one_alert_per_streak [of "[(1, ''store'', False), (2, ''model'', False), (3, ''store'', False)]" 4 "''model''" False default_health_config]
  by (simp add: expected_event_def alert_at_def default_health_config_def streak_def)

text \<open>
  The status shown for a component is that of its streak: healthy with no failure since the last
  good check, unhealthy from the threshold on, degraded with the count in between.
\<close>

theorem status_follows_streak:
  assumes "length hs < 4294967296" "component_status (monitor_after cfg hs) c = Some h"
  shows "ch_status h = expected_status cfg (streak c hs) \<and> unat (ch_consecutive_failures h) = streak c hs"
  using monitor_after_ok [OF assms(1), of cfg] assms(2)
  by (auto simp: monitor_ok_def health_of_def tracks_def dest: spec [of _ c])

theorem status_follows_streak_witness:
  "ch_status (the (component_status (monitor_after default_health_config [(1, ''store'', False), (2, ''store'', True), (3, ''store'', False)]) ''store''))
     = Degraded ''1/3 failures''"
proof -
  let ?hs = "[(1, ''store'', False), (2, ''store'', True), (3, ''store'', False)]"
  have "component_status (monitor_after default_health_config ?hs) ''store'' \<noteq> None"
    by (simp only: monitor_after_def fold_simps apply_check.simps checked_component simp_thms)
  then obtain h where h: "component_status (monitor_after default_health_config ?hs) ''store'' = Some h" by blast
  then show ?thesis
    using status_follows_streak [of ?hs default_health_config "''store''" h]
    by (simp add: expected_status_def default_health_config_def streak_def show_nat.simps char_of_def bit_Suc_0_iff)
qed

end
