(* ===== verification/ConfigCrypto.thy ===== *)
theory ConfigCrypto
  imports Json
begin

text \<open>
  \<open>src/config_encryption.rs\<close>: encryption of sensitive values in the configuration. AES-GCM, base64 and
  case folding are not part of the repository: they are the fields of \<open>crypto\<close>, with what the code
  relies on as \<open>crypto_laws\<close>. The generator of nonces is a stream that is read by position. Texts are
  byte lists; \<open>cx_utf8\<close> tells which are valid.
\<close>

section \<open>The ciphers of the library\<close>

record crypto =
  cx_seal :: "string \<Rightarrow> string \<Rightarrow> string \<Rightarrow> (string, string) result"
  cx_open :: "string \<Rightarrow> string \<Rightarrow> string \<Rightarrow> (string, string) result"
  cx_encode :: "string \<Rightarrow> string"
  cx_decode :: "string \<Rightarrow> (string, string) result"
  cx_utf8 :: "string \<Rightarrow> bool"
  cx_lossy :: "string \<Rightarrow> string"
  cx_lower :: "string \<Rightarrow> string"
  cx_nonce :: "nat \<Rightarrow> string"

definition nonce_size :: nat where "nonce_size = 12"

definition encrypted_prefix :: string where "encrypted_prefix = ''enc:''"

definition sensitive_patterns :: "string list" where
  "sensitive_patterns = [''key'', ''token'', ''secret'', ''password'']"

datatype crypto_error = EncryptionFailed string | DecryptionFailed string | InvalidFormat string | MissingKey | InvalidKeyLength nat

text \<open>The encryption object is its key.\<close>

type_synonym config_key = string

definition from_slice :: "string \<Rightarrow> (crypto_error, config_key) result" where
  "from_slice bytes = (if length bytes \<noteq> 32 then Err (InvalidKeyLength (length bytes)) else Ok bytes)"

text \<open>The content of a key file, or the error of reading it.\<close>

definition from_key_file :: "crypto \<Rightarrow> (string, string) result \<Rightarrow> (crypto_error, config_key) result" where
  "from_key_file cx file =
     (case file of
        Err e \<Rightarrow> Err (DecryptionFailed (''failed to read key file: '' @ e))
      | Ok key_data \<Rightarrow>
          if length key_data = 32 then from_slice key_data
          else (case cx_decode cx (trim (cx_lossy cx key_data)) of
                  Ok decoded \<Rightarrow> if length decoded = 32 then from_slice decoded else Err (InvalidKeyLength (length decoded))
                | Err _ \<Rightarrow> Err (InvalidKeyLength (length key_data))))"

section \<open>One value\<close>

definition encrypt :: "crypto \<Rightarrow> config_key \<Rightarrow> nat \<Rightarrow> string \<Rightarrow> (crypto_error, string) result" where
  "encrypt cx key n plaintext =
     (case cx_seal cx key (cx_nonce cx n) plaintext of
        Err e \<Rightarrow> Err (EncryptionFailed e)
      | Ok ciphertext \<Rightarrow> Ok (encrypted_prefix @ cx_encode cx (cx_nonce cx n @ ciphertext)))"

definition decrypt :: "crypto \<Rightarrow> config_key \<Rightarrow> string \<Rightarrow> (crypto_error, string) result" where
  "decrypt cx key encrypted =
     (case strip_prefix encrypted_prefix encrypted of
        None \<Rightarrow> Err (InvalidFormat (''missing '' @ [CHR 0x27] @ ''enc:'' @ [CHR 0x27] @ '' prefix''))
      | Some encoded \<Rightarrow>
          (case cx_decode cx encoded of
             Err e \<Rightarrow> Err (InvalidFormat (''invalid base64: '' @ e))
           | Ok combined \<Rightarrow>
               if length combined < nonce_size then Err (InvalidFormat ''ciphertext too short to contain nonce'')
               else (case cx_open cx key (take nonce_size combined) (drop nonce_size combined) of
                       Err e \<Rightarrow> Err (DecryptionFailed (''decryption failed: '' @ e))
                     | Ok plaintext \<Rightarrow>
                         if cx_utf8 cx plaintext then Ok plaintext else Err (DecryptionFailed ''invalid UTF-8''))))"

definition is_sensitive_field :: "crypto \<Rightarrow> string \<Rightarrow> bool" where
  "is_sensitive_field cx name \<longleftrightarrow> list_ex (contains_str (cx_lower cx name)) sensitive_patterns"

definition is_encrypted :: "string \<Rightarrow> bool" where
  "is_encrypted v \<longleftrightarrow> prefix encrypted_prefix v"

section \<open>A configuration\<close>

text \<open>The number counts the nonces that have been drawn; a failed encryption has drawn its nonce too.\<close>

definition sensitive_plain :: "crypto \<Rightarrow> string option \<Rightarrow> string \<Rightarrow> bool" where
  "sensitive_plain cx field s \<longleftrightarrow> (case field of Some name \<Rightarrow> is_sensitive_field cx name \<and> \<not> is_encrypted s | None \<Rightarrow> False)"

fun walk_and_encrypt :: "crypto \<Rightarrow> config_key \<Rightarrow> string option \<Rightarrow> json \<Rightarrow> nat \<Rightarrow> nat \<times> json"
  and encrypt_members :: "crypto \<Rightarrow> config_key \<Rightarrow> (string \<times> json) list \<Rightarrow> nat \<Rightarrow> nat \<times> (string \<times> json) list"
  and encrypt_items :: "crypto \<Rightarrow> config_key \<Rightarrow> json list \<Rightarrow> nat \<Rightarrow> nat \<times> json list" where
  "walk_and_encrypt cx key field (JObj m) n = (case encrypt_members cx key m n of (n1, m1) \<Rightarrow> (n1, JObj m1))"
| "walk_and_encrypt cx key field (JArr xs) n = (case encrypt_items cx key xs n of (n1, xs1) \<Rightarrow> (n1, JArr xs1))"
| "walk_and_encrypt cx key field (JStr s) n =
     (if sensitive_plain cx field s
      then (Suc n, JStr (case encrypt cx key n s of Ok e \<Rightarrow> e | Err _ \<Rightarrow> s)) else (n, JStr s))"
| "walk_and_encrypt cx key field v n = (n, v)"
| "encrypt_members cx key [] n = (n, [])"
| "encrypt_members cx key ((k, v) # m) n =
     (case walk_and_encrypt cx key (Some k) v n of
        (n1, v1) \<Rightarrow> (case encrypt_members cx key m n1 of (n2, m1) \<Rightarrow> (n2, (k, v1) # m1)))"
| "encrypt_items cx key [] n = (n, [])"
| "encrypt_items cx key (x # xs) n =
     (case walk_and_encrypt cx key None x n of
        (n1, x1) \<Rightarrow> (case encrypt_items cx key xs n1 of (n2, xs1) \<Rightarrow> (n2, x1 # xs1)))"

definition encrypt_config :: "crypto \<Rightarrow> config_key \<Rightarrow> json \<Rightarrow> nat \<Rightarrow> nat \<times> json" where
  "encrypt_config cx key config n = walk_and_encrypt cx key None config n"

text \<open>The walk stops at the first error; what it has decrypted before stays decrypted.\<close>

fun walk_and_decrypt :: "crypto \<Rightarrow> config_key \<Rightarrow> json \<Rightarrow> json \<times> (crypto_error, unit) result"
  and decrypt_members :: "crypto \<Rightarrow> config_key \<Rightarrow> (string \<times> json) list \<Rightarrow> (string \<times> json) list \<times> (crypto_error, unit) result"
  and decrypt_items :: "crypto \<Rightarrow> config_key \<Rightarrow> json list \<Rightarrow> json list \<times> (crypto_error, unit) result" where
  "walk_and_decrypt cx key (JObj m) = (case decrypt_members cx key m of (m1, r) \<Rightarrow> (JObj m1, r))"
| "walk_and_decrypt cx key (JArr xs) = (case decrypt_items cx key xs of (xs1, r) \<Rightarrow> (JArr xs1, r))"
| "walk_and_decrypt cx key (JStr s) =
     (if is_encrypted s then (case decrypt cx key s of Ok p \<Rightarrow> (JStr p, Ok ()) | Err e \<Rightarrow> (JStr s, Err e)) else (JStr s, Ok ()))"
| "walk_and_decrypt cx key v = (v, Ok ())"
| "decrypt_members cx key [] = ([], Ok ())"
| "decrypt_members cx key ((k, v) # m) =
     (case walk_and_decrypt cx key v of
        (v1, Err e) \<Rightarrow> ((k, v1) # m, Err e)
      | (v1, Ok _) \<Rightarrow> (case decrypt_members cx key m of (m1, r) \<Rightarrow> ((k, v1) # m1, r)))"
| "decrypt_items cx key [] = ([], Ok ())"
| "decrypt_items cx key (x # xs) =
     (case walk_and_decrypt cx key x of
        (x1, Err e) \<Rightarrow> (x1 # xs, Err e)
      | (x1, Ok _) \<Rightarrow> (case decrypt_items cx key xs of (xs1, r) \<Rightarrow> (x1 # xs1, r)))"

definition decrypt_config :: "crypto \<Rightarrow> config_key \<Rightarrow> json \<Rightarrow> json \<times> (crypto_error, unit) result" where
  "decrypt_config cx key config = walk_and_decrypt cx key config"

fun has_encrypted_values :: "json \<Rightarrow> bool" where
  "has_encrypted_values (JObj m) = list_ex (\<lambda>(k, v). has_encrypted_values v) m"
| "has_encrypted_values (JArr xs) = list_ex has_encrypted_values xs"
| "has_encrypted_values (JStr s) = is_encrypted s"
| "has_encrypted_values _ = False"

fun count_sensitive_plaintext :: "crypto \<Rightarrow> string option \<Rightarrow> json \<Rightarrow> nat" where
  "count_sensitive_plaintext cx field (JObj m) = sum_list (map (\<lambda>(k, v). count_sensitive_plaintext cx (Some k) v) m)"
| "count_sensitive_plaintext cx field (JArr xs) = sum_list (map (count_sensitive_plaintext cx None) xs)"
| "count_sensitive_plaintext cx field (JStr s) = (if sensitive_plain cx field s then 1 else 0)"
| "count_sensitive_plaintext cx field _ = 0"

section \<open>Files\<close>

text \<open>A path that may not exist, and what reading it gives.\<close>

type_synonym file_lookup = "string \<Rightarrow> (string, string) result option"

definition validate_encryption_at_startup ::
  "crypto \<Rightarrow> file_lookup \<Rightarrow> json \<Rightarrow> string option \<Rightarrow> (crypto_error, config_key option) result" where
  "validate_encryption_at_startup cx files config key_file =
     (if \<not> has_encrypted_values config
      then (case Option.bind key_file files of
              Some file \<Rightarrow> (case from_key_file cx file of Ok k \<Rightarrow> Ok (Some k) | Err e \<Rightarrow> Err e)
            | None \<Rightarrow> Ok None)
      else (case Option.bind key_file files of
              None \<Rightarrow> Err MissingKey
            | Some file \<Rightarrow> (case from_key_file cx file of Ok k \<Rightarrow> Ok (Some k) | Err e \<Rightarrow> Err e)))"

text \<open>The file after the command, and the number reported; \<open>parse\<close> and \<open>pretty\<close> are the JSON library.\<close>

definition encrypt_config_file ::
  "crypto \<Rightarrow> (string \<Rightarrow> (string, json) result) \<Rightarrow> (json \<Rightarrow> string) \<Rightarrow> (string, string) result \<Rightarrow> (string, unit) result
     \<Rightarrow> (string, string) result \<Rightarrow> string option \<times> (crypto_error, nat) result" where
  "encrypt_config_file cx parse pretty file writable key_file =
     (case from_key_file cx key_file of
        Err e \<Rightarrow> (None, Err e)
      | Ok key \<Rightarrow>
          (case file of
             Err e \<Rightarrow> (None, Err (EncryptionFailed (''failed to read config file: '' @ e)))
           | Ok raw \<Rightarrow>
               (case parse raw of
                  Err e \<Rightarrow> (None, Err (EncryptionFailed (''failed to parse config file: '' @ e)))
                | Ok config \<Rightarrow>
                    (case writable of
                       Err e \<Rightarrow> (None, Err (EncryptionFailed (''failed to write config file: '' @ e)))
                     | Ok _ \<Rightarrow> (Some (pretty (snd (encrypt_config cx key config 0))), Ok (count_sensitive_plaintext cx None config))))))"

text \<open>The start of the gateway: the decrypted configuration, as far as it matters here.\<close>

definition decrypt_at_startup :: "crypto \<Rightarrow> file_lookup \<Rightarrow> json \<Rightarrow> string option \<Rightarrow> (crypto_error, json) result" where
  "decrypt_at_startup cx files config key_file =
     (if \<not> has_encrypted_values config then Ok config
      else (case validate_encryption_at_startup cx files config key_file of
              Err e \<Rightarrow> Err e
            | Ok None \<Rightarrow> Err MissingKey
            | Ok (Some key) \<Rightarrow> (case decrypt_config cx key config of (c, Ok _) \<Rightarrow> Ok c | (c, Err e) \<Rightarrow> Err e)))"

section \<open>Laws\<close>

definition crypto_laws :: "crypto \<Rightarrow> bool" where
  "crypto_laws cx \<longleftrightarrow> (\<forall>k n p c. cx_seal cx k n p = Ok c \<longrightarrow> cx_open cx k n c = Ok p)
     \<and> (\<forall>b. cx_decode cx (cx_encode cx b) = Ok b) \<and> (\<forall>i. length (cx_nonce cx i) = nonce_size)"

text \<open>A cipher for the witnesses: it puts the nonce before the text and checks it again.\<close>

definition demo_crypto :: crypto where
  "demo_crypto = \<lparr>cx_seal = (\<lambda>k n p. Ok (n @ p)),
     cx_open = (\<lambda>k n c. if take (length n) c = n then Ok (drop (length n) c) else Err ''tag''),
     cx_encode = id, cx_decode = Ok, cx_utf8 = (\<lambda>s. True), cx_lossy = id, cx_lower = map ascii_lower,
     cx_nonce = (\<lambda>i. ''0123456789ab'')\<rparr>"

lemma demo_crypto_laws: "crypto_laws demo_crypto"
  by (simp add: crypto_laws_def demo_crypto_def nonce_size_def)

fun valid_texts :: "crypto \<Rightarrow> json \<Rightarrow> bool" where
  "valid_texts cx (JObj m) = list_all (\<lambda>(k, v). valid_texts cx v) m"
| "valid_texts cx (JArr xs) = list_all (valid_texts cx) xs"
| "valid_texts cx (JStr s) = cx_utf8 cx s"
| "valid_texts cx _ = True"

lemma decrypt_encrypted:
  assumes "crypto_laws cx" "encrypt cx key n s = Ok e" "cx_utf8 cx s"
  shows "decrypt cx key e = Ok s" "is_encrypted e"
  using assms by (auto simp: encrypt_def decrypt_def crypto_laws_def is_encrypted_def split: sum.splits)

section \<open>There and back\<close>

lemma decrypt_members_back:
  assumes "\<And>k v n. (k, v) \<in> set m \<Longrightarrow> walk_and_decrypt cx key (snd (walk_and_encrypt cx key (Some k) v n)) = (v, Ok ())"
  shows "decrypt_members cx key (snd (encrypt_members cx key m n)) = (m, Ok ())"
  using assms
proof (induction m arbitrary: n)
  case (Cons kv m)
  obtain k v where kv: "kv = (k, v)" by (cases kv)
  obtain n1 v1 where w: "walk_and_encrypt cx key (Some k) v n = (n1, v1)" by force
  obtain n2 m1 where ms: "encrypt_members cx key m n1 = (n2, m1)" by force
  show ?case
    using Cons.prems [of k v n] Cons.IH [of n1] Cons.prems by (simp add: kv w ms)
qed simp

lemma decrypt_items_back:
  assumes "\<And>x n. x \<in> set xs \<Longrightarrow> walk_and_decrypt cx key (snd (walk_and_encrypt cx key None x n)) = (x, Ok ())"
  shows "decrypt_items cx key (snd (encrypt_items cx key xs n)) = (xs, Ok ())"
  using assms
proof (induction xs arbitrary: n)
  case (Cons x xs)
  obtain n1 x1 where w: "walk_and_encrypt cx key None x n = (n1, x1)" by force
  obtain n2 xs1 where rest: "encrypt_items cx key xs n1 = (n2, xs1)" by force
  show ?case
    using Cons.prems [of x n] Cons.IH [of n1] Cons.prems by (simp add: w rest)
qed simp

lemma walk_back:
  assumes "crypto_laws cx" "valid_texts cx v" "\<not> has_encrypted_values v"
  shows "walk_and_decrypt cx key (snd (walk_and_encrypt cx key field v n)) = (v, Ok ())"
  using assms(2,3)
proof (induction v arbitrary: field n rule: json_induct)
  case (str s)
  then show ?case
    using decrypt_encrypted [OF assms(1), of key n s] by (auto split: sum.split)
next
  case (arr xs)
  have "decrypt_items cx key (snd (encrypt_items cx key xs n)) = (xs, Ok ())"
    by (rule decrypt_items_back) (use arr in \<open>auto simp: list_all_iff list_ex_iff\<close>)
  then show ?case by (simp add: case_prod_beta)
next
  case (obj m)
  have "decrypt_members cx key (snd (encrypt_members cx key m n)) = (m, Ok ())"
  proof (rule decrypt_members_back)
    fix k w i
    assume kw: "(k, w) \<in> set m"
    with obj.prems have "valid_texts cx w" "\<not> has_encrypted_values w" by (auto simp: list_all_iff list_ex_iff)
    then show "walk_and_decrypt cx key (snd (walk_and_encrypt cx key (Some k) w i)) = (w, Ok ())"
      by (rule obj.IH [OF kw])
  qed
  then show ?case by (simp add: case_prod_beta)
qed simp_all

text \<open>
  C25. Encrypting a configuration without encrypted values and decrypting it with the same key gives it
  back, also where an encryption has failed and left its value as it was.
\<close>

theorem encrypted_config_roundtrip:
  assumes "crypto_laws cx" "valid_texts cx config" "\<not> has_encrypted_values config"
  shows "decrypt_config cx key (snd (encrypt_config cx key config n)) = (config, Ok ())"
  unfolding decrypt_config_def encrypt_config_def by (rule walk_back [OF assms])

definition demo_config :: json where
  "demo_config = JObj [(''telegram'', JObj [(''botToken'', JStr ''123:abc''), (''chat'', JStr ''7'')]), (''port'', JInt 80)]"

theorem encrypted_config_roundtrip_witness:
  "snd (encrypt_config demo_crypto ''k'' demo_config 0) \<noteq> demo_config
     \<and> decrypt_config demo_crypto ''k'' (snd (encrypt_config demo_crypto ''k'' demo_config 0)) = (demo_config, Ok ())"
proof -
  have "valid_texts demo_crypto demo_config" "\<not> has_encrypted_values demo_config"
    by (simp_all add: demo_config_def demo_crypto_def is_encrypted_def encrypted_prefix_def)
  moreover have "snd (encrypt_config demo_crypto ''k'' demo_config 0) \<noteq> demo_config"
    by code_simp
  ultimately show ?thesis
    using encrypted_config_roundtrip [OF demo_crypto_laws, of demo_config "''k''" 0] by simp
qed

section \<open>What is left in plain text\<close>

lemma no_secret_left:
  assumes "\<And>k n p. \<exists>c. cx_seal cx k n p = Ok c"
  shows "count_sensitive_plaintext cx field (snd (walk_and_encrypt cx key field v n)) = 0
    \<and> fst (walk_and_encrypt cx key field v n) = n + count_sensitive_plaintext cx field v"
proof (induction v arbitrary: field n rule: json_induct)
  case (str s)
  obtain c where "cx_seal cx key (cx_nonce cx n) s = Ok c" using assms by blast
  then show ?case
    by (auto simp: sensitive_plain_def encrypt_def is_encrypted_def split: option.splits)
next
  case (arr xs)
  have "count_sensitive_plaintext cx None (JArr (snd (encrypt_items cx key ys n))) = 0
      \<and> fst (encrypt_items cx key ys n) = n + count_sensitive_plaintext cx None (JArr ys)" if "set ys \<subseteq> set xs" for ys n
    using that
  proof (induction ys arbitrary: n)
    case (Cons y ys)
    then show ?case
      using arr [of y None n] Cons.IH [of "fst (walk_and_encrypt cx key None y n)"] by (simp add: case_prod_beta)
  qed simp
  from this [of xs n] show ?case by (simp add: case_prod_beta)
next
  case (obj m)
  have "count_sensitive_plaintext cx None (JObj (snd (encrypt_members cx key ys n))) = 0
      \<and> fst (encrypt_members cx key ys n) = n + count_sensitive_plaintext cx None (JObj ys)" if "set ys \<subseteq> set m" for ys n
    using that
  proof (induction ys arbitrary: n)
    case (Cons y ys)
    then show ?case
      using obj [of "fst y" "snd y" "Some (fst y)" n] Cons.IH [of "fst (walk_and_encrypt cx key (Some (fst y)) (snd y) n)"]
      by (cases y) (simp add: case_prod_beta)
  qed simp
  from this [of m n] show ?case by (simp add: case_prod_beta)
qed simp_all

text \<open>
  If no encryption fails, nothing that counts as a sensitive plain value is left, and the number that is
  reported is the number of values that were encrypted.
\<close>

theorem no_sensitive_plaintext_left:
  assumes "\<And>k n p. \<exists>c. cx_seal cx k n p = Ok c"
  shows "count_sensitive_plaintext cx None (snd (encrypt_config cx key config 0)) = 0
    \<and> fst (encrypt_config cx key config 0) = count_sensitive_plaintext cx None config"
  using no_secret_left [OF assms, of None key config 0] by (simp add: encrypt_config_def)

theorem no_sensitive_plaintext_left_witness:
  "count_sensitive_plaintext demo_crypto None (snd (encrypt_config demo_crypto ''k'' demo_config 0)) = 0"
  using no_sensitive_plaintext_left [of demo_crypto "''k''" demo_config] by (simp add: demo_crypto_def)

text \<open>
  Values in lists are no sensitive values, whatever the field is called: a list of keys or tokens stays
  as it is and is not counted.
\<close>

theorem secrets_in_lists_stay_plain:
  "walk_and_encrypt cx key (Some ''tokens'') (JArr (map JStr secrets)) n = (n, JArr (map JStr secrets))
     \<and> count_sensitive_plaintext cx (Some ''tokens'') (JArr (map JStr secrets)) = 0"
proof -
  have "encrypt_items cx key (map JStr secrets) n = (n, map JStr secrets)" for n
    by (induction secrets arbitrary: n) (simp_all add: sensitive_plain_def)
  then show ?thesis by (simp add: comp_def sensitive_plain_def)
qed

section \<open>The path of the key\<close>

definition key_path :: "json \<Rightarrow> string option" where
  "key_path j = Option.bind (Option.bind (Option.bind (jget j ''gateway'') (\<lambda>g. jget g ''encryption'')) (\<lambda>e. jget e ''keyFile'')) as_str"

lemma encrypt_members_get:
  "dict_get m k = Some v \<Longrightarrow> \<exists>i. dict_get (snd (encrypt_members cx key m n)) k = Some (snd (walk_and_encrypt cx key (Some k) v i))"
  by (induction m arbitrary: n) (auto simp: case_prod_beta split: if_splits)

lemma jget_encrypted:
  assumes "jget j k = Some v"
  shows "\<exists>i. jget (snd (walk_and_encrypt cx key field j n)) k = Some (snd (walk_and_encrypt cx key (Some k) v i))"
  using assms encrypt_members_get [of _ k v cx key n] by (cases j) (auto simp: case_prod_beta)

lemma has_encrypted_member: "jget j k = Some v \<Longrightarrow> has_encrypted_values v \<Longrightarrow> has_encrypted_values j"
  by (cases j) (auto simp: list_ex_iff dest: dict_get_mem)

text \<open>
  The path of the key is itself a field whose name contains \<open>key\<close>: encrypting a configuration that
  names its key file encrypts the path, and the gateway does not start with the result, because no file
  has that name.
\<close>

theorem encrypted_key_path_locks_out:
  assumes "key_path config = Some path" "\<not> is_encrypted path" "cx_lower cx ''keyFile'' = ''keyfile''"
    and "\<And>k n p. \<exists>c. cx_seal cx k n p = Ok c" "\<And>t. files (encrypted_prefix @ t) = None"
  shows "let config' = snd (encrypt_config cx key config n)
    in decrypt_at_startup cx files config' (key_path config') = Err MissingKey"
proof -
  obtain g e where g: "jget config ''gateway'' = Some g" "jget g ''encryption'' = Some e" "jget e ''keyFile'' = Some (JStr path)"
    using assms(1) by (auto simp: key_path_def bind_eq_Some_conv as_str_Some)
  let ?c = "snd (encrypt_config cx key config n)"
  obtain i where i: "jget ?c ''gateway'' = Some (snd (walk_and_encrypt cx key (Some ''gateway'') g i))"
    using jget_encrypted [OF g(1)] by (metis encrypt_config_def)
  obtain j where j: "jget (snd (walk_and_encrypt cx key (Some ''gateway'') g i)) ''encryption''
      = Some (snd (walk_and_encrypt cx key (Some ''encryption'') e j))"
    using jget_encrypted [OF g(2)] by metis
  obtain l where l: "jget (snd (walk_and_encrypt cx key (Some ''encryption'') e j)) ''keyFile''
      = Some (snd (walk_and_encrypt cx key (Some ''keyFile'') (JStr path) l))"
    using jget_encrypted [OF g(3)] by metis
  obtain c where c: "cx_seal cx key (cx_nonce cx l) path = Ok c" using assms(4) by blast
  have "sensitive_plain cx (Some ''keyFile'') path"
    using assms(2,3) by (simp add: sensitive_plain_def is_sensitive_field_def sensitive_patterns_def)
  with c have v: "snd (walk_and_encrypt cx key (Some ''keyFile'') (JStr path) l)
      = JStr (encrypted_prefix @ cx_encode cx (cx_nonce cx l @ c))"
    by (simp add: encrypt_def)
  have "has_encrypted_values ?c"
    using has_encrypted_member [OF i has_encrypted_member [OF j has_encrypted_member [OF l]]] v
    by (simp add: is_encrypted_def)
  moreover have "key_path ?c = Some (encrypted_prefix @ cx_encode cx (cx_nonce cx l @ c))"
    by (simp add: key_path_def i j l v del: walk_and_encrypt.simps)
  ultimately show ?thesis
    using assms(5) by (simp add: decrypt_at_startup_def validate_encryption_at_startup_def)
qed

theorem encrypted_key_path_locks_out_witness:
  "let config = JObj [(''gateway'', JObj [(''encryption'', JObj [(''keyFile'', JStr ''/etc/gateway.key'')])])];
       files = (\<lambda>p. if p = ''/etc/gateway.key'' then Some (Ok (replicate 32 CHR ''k'')) else None);
       config' = snd (encrypt_config demo_crypto (replicate 32 CHR ''k'') config 0)
   in validate_encryption_at_startup demo_crypto files config (key_path config) = Ok (Some (replicate 32 CHR ''k''))
     \<and> decrypt_at_startup demo_crypto files config' (key_path config') = Err MissingKey"
proof -
  let ?config = "JObj [(''gateway'', JObj [(''encryption'', JObj [(''keyFile'', JStr ''/etc/gateway.key'')])])]"
  let ?files = "\<lambda>p. if p = ''/etc/gateway.key'' then Some (Ok (replicate 32 CHR ''k'')) else None"
  have k: "key_path ?config = Some ''/etc/gateway.key''" by (simp add: key_path_def)
  have e: "\<not> is_encrypted ''/etc/gateway.key''" by (simp add: is_encrypted_def encrypted_prefix_def)
  have l: "cx_lower demo_crypto ''keyFile'' = ''keyfile''" by (simp add: demo_crypto_def ascii_eval)
  have "validate_encryption_at_startup demo_crypto ?files ?config (key_path ?config) = Ok (Some (replicate 32 CHR ''k''))"
    by (simp add: k validate_encryption_at_startup_def is_encrypted_def encrypted_prefix_def from_key_file_def from_slice_def)
  moreover have "let config' = snd (encrypt_config demo_crypto (replicate 32 CHR ''k'') ?config 0)
      in decrypt_at_startup demo_crypto ?files config' (key_path config') = Err MissingKey"
    by (rule encrypted_key_path_locks_out [OF k e l]) (simp_all add: demo_crypto_def encrypted_prefix_def)
  ultimately show ?thesis by (simp add: Let_def)
qed

end
