(* ===== verification/ToolProgress.thy ===== *)
theory ToolProgress
  imports Delivery RateLimiter Json
begin

text \<open>
  The callback of \<open>src/gateway.rs\<close> after a tool has run: the rate limiter, and the line that tells the user
  what the tool did (\<open>format_tool_result_preview\<close>, \<open>shorten_path\<close>, \<open>truncate_str\<close>). Slicing inside a
  character panics, which is \<open>None\<close>; \<open>home\<close> is the variable \<open>HOME\<close>, empty if it is not set.
\<close>

section \<open>Short texts\<close>

definition ellipsis :: string where "ellipsis = utf8 [0xE2, 0x80, 0xA6]"
definition tick :: string where "tick = utf8 [0xE2, 0x9C, 0x93]"
definition ballot :: string where "ballot = utf8 [0xE2, 0x9C, 0x97]"
definition cross_mark :: string where "cross_mark = utf8 [0xE2, 0x9D, 0x8C]"
definition arrow :: string where "arrow = utf8 [0xE2, 0x86, 0x92]"

definition truncate_str :: "string \<Rightarrow> nat \<Rightarrow> string option" where
  "truncate_str s max_len =
     (if length s \<le> max_len then Some s else map_option (\<lambda>t. t @ ellipsis) (slice_to (max_len - 1) s))"

definition shorten_path :: "string \<Rightarrow> string \<Rightarrow> string option" where
  "shorten_path home path =
     (let shortened = (if home \<noteq> [] \<and> prefix home path then CHR ''~'' # drop (length home) path else path) in
      if length shortened > 50
      then (let parts = split_on (CHR ''/'') shortened in
            if length parts > 4
            then Some (join ''/'' (take 2 parts) @ ''/'' @ ellipsis @ ''/'' @ join ''/'' (drop (length parts - 2) parts))
            else truncate_str shortened 50)
      else Some shortened)"

section \<open>What the tools tell\<close>

text \<open>The member of the first key that is there.\<close>

fun jget_first :: "json \<Rightarrow> string list \<Rightarrow> json option" where
  "jget_first j [] = None"
| "jget_first j (k # ks) = (case jget j k of Some v \<Rightarrow> Some v | None \<Rightarrow> jget_first j ks)"

definition or_else :: "'a option \<Rightarrow> 'a option \<Rightarrow> 'a option" where
  "or_else a b = (case a of Some x \<Rightarrow> Some x | None \<Rightarrow> b)"

definition str_member :: "json \<Rightarrow> string \<Rightarrow> string option" where
  "str_member j k = Option.bind (jget j k) as_str"

definition list_member :: "json \<Rightarrow> string \<Rightarrow> json list option" where
  "list_member j k = Option.bind (jget j k) as_array"

definition the_or :: "'a \<Rightarrow> 'a option \<Rightarrow> 'a" where
  "the_or d x = (case x of Some a \<Rightarrow> a | None \<Rightarrow> d)"

definition path_arg :: "json \<Rightarrow> string option" where
  "path_arg args = Option.bind (jget_first args [''path'', ''file'', ''dir'']) as_str"

definition shown_path :: "string \<Rightarrow> json \<Rightarrow> string \<Rightarrow> string option" where
  "shown_path home args instead = (case path_arg args of Some p \<Rightarrow> shorten_path home p | None \<Rightarrow> Some instead)"

definition error_text :: "json \<Rightarrow> string option" where
  "error_text result =
     or_else (str_member result ''error'')
       (if jget result ''error'' \<noteq> None \<or> jget result ''success'' = Some (JBool False) then str_member result ''message'' else None)"

definition script_preview :: "json \<Rightarrow> json \<Rightarrow> string option" where
  "script_preview args result =
     (let cmd = the_or ''command'' (Option.bind (jget_first args [''script'', ''command'', ''cmd'']) as_str);
          exit_code = or_else (Option.bind (jget result ''exit_code'') as_i64) (Option.bind (jget result ''code'') as_i64);
          output = the_or [] (or_else (str_member result ''output'') (or_else (str_member result ''stdout'') (as_str result)));
          first_line = the_or [] (find (\<lambda>l. trim l \<noteq> []) (str_lines output))
      in map_option (\<lambda>shown. if first_line \<noteq> [] \<and> length first_line < 50
           then ''$ '' @ shown @ newline @ ''  '' @ arrow @ '' '' @ first_line
           else ''$ '' @ shown @ '' '' @ (if exit_code = None \<or> exit_code = Some 0 then tick else ballot))
         (truncate_str (trim cmd) 60))"

definition line_count :: "string \<Rightarrow> string" where
  "line_count t = ''('' @ show_nat (length (str_lines t)) @ '' lines)''"

definition read_preview :: "string \<Rightarrow> json \<Rightarrow> json \<Rightarrow> string option" where
  "read_preview home args result =
     map_option (\<lambda>name.
       (case or_else (str_member result ''content'') (as_str result) of
          Some content \<Rightarrow>
            (case (Option.bind (jget args ''start_line'') as_u64, Option.bind (jget args ''end_line'') as_u64) of
               (Some s, Some e) \<Rightarrow> name @ '':'' @ show_int s @ ''-'' @ show_int e @ '' '' @ line_count content
             | (Some s, None) \<Rightarrow> name @ '':'' @ show_int s @ '' '' @ line_count content
             | _ \<Rightarrow> name @ '' '' @ line_count content)
        | None \<Rightarrow> name @ '' '' @ tick)) (shown_path home args ''file'')"

definition write_preview :: "string \<Rightarrow> json \<Rightarrow> string option" where
  "write_preview home args =
     map_option (\<lambda>name. case Option.bind (jget_first args [''content'', ''text'']) as_str of
         Some c \<Rightarrow> name @ '' '' @ line_count c @ '' '' @ tick | None \<Rightarrow> name @ '' '' @ tick) (shown_path home args ''file'')"

definition pwd_preview :: "string \<Rightarrow> json \<Rightarrow> string option" where
  "pwd_preview home result =
     (case or_else (as_str result) (or_else (str_member result ''path'') (str_member result ''cwd'')) of
        Some p \<Rightarrow> shorten_path home p | None \<Rightarrow> Some tick)"

definition list_preview :: "string \<Rightarrow> json \<Rightarrow> json \<Rightarrow> string option" where
  "list_preview home args result =
     map_option (\<lambda>dir.
       (case or_else (list_member result ''entries'') (or_else (list_member result ''files'') (as_array result)) of
          Some es \<Rightarrow> dir @ '' '' @ arrow @ '' '' @ show_nat (length es) @ '' items''
        | None \<Rightarrow> (case Option.bind (jget result ''count'') as_u64 of
              Some n \<Rightarrow> dir @ '' '' @ arrow @ '' '' @ show_int n @ '' items'' | None \<Rightarrow> dir @ '' '' @ tick)))
       (shown_path home args ''.'')"

text \<open>A query in quotes with the number of hits.\<close>

definition query_preview :: "string \<Rightarrow> json list option \<Rightarrow> string \<Rightarrow> string option" where
  "query_preview query hits what =
     map_option (\<lambda>q. [quote_char] @ q @ [quote_char] @ '' '' @
       (case hits of Some xs \<Rightarrow> arrow @ '' '' @ show_nat (length xs) @ '' '' @ what | None \<Rightarrow> tick)) (truncate_str query 20)"

definition browse_preview :: "json \<Rightarrow> json \<Rightarrow> string option" where
  "browse_preview args result =
     (let url = the_or ''page'' (str_member args ''url'');
          parts = split_on (CHR ''/'') url;
          short = (if length url > 40 then (if length parts > 2 then parts ! 2 else url) else url)
      in case str_member result ''title'' of
           Some title \<Rightarrow> map_option (\<lambda>t. short @ '' '' @ arrow @ '' '' @ t) (truncate_str title 30)
         | None \<Rightarrow> Some (short @ '' '' @ tick))"

definition count_preview :: "json list option \<Rightarrow> string \<Rightarrow> string" where
  "count_preview xs what = (case xs of Some ys \<Rightarrow> show_nat (length ys) @ '' '' @ what | None \<Rightarrow> tick)"

definition done_tools :: "(string list \<times> string) list" where
  "done_tools = [([''fs_mv'', ''fs_move'', ''fs_rename'', ''move_file''], ''moved ''), ([''fs_cp'', ''fs_copy'', ''copy_file''], ''copied ''),
     ([''kg_create_entities'', ''kg_add_observations'', ''kg_store''], ''remembered ''), ([''screenshot'', ''snapshot''], ''captured ''),
     ([''agent_create'', ''agent_start''], ''started ''), ([''agent_stop'', ''agent_delete''], ''stopped ''),
     ([''task_create'', ''task_add'', ''delegate_task''], ''delegated ''),
     ([''left_click'', ''right_click'', ''double_click'', ''click''], ''clicked ''), ([''type'', ''type_text''], ''typed ''),
     ([''scroll''], ''scrolled '')]"

definition format_tool_result_preview :: "string \<Rightarrow> string \<Rightarrow> json \<Rightarrow> json \<Rightarrow> string option" where
  "format_tool_result_preview home tool args result =
     (case error_text result of
        Some e \<Rightarrow> map_option (\<lambda>t. cross_mark @ '' '' @ t) (truncate_str e 80)
      | None \<Rightarrow>
          if tool \<in> set [''run_script'', ''execute'', ''shell'', ''bash'', ''exec''] then script_preview args result
          else if tool \<in> set [''fs_read'', ''fs_read_file'', ''read_file''] then read_preview home args result
          else if tool \<in> set [''fs_write'', ''fs_write_file'', ''write_file'', ''fs_create''] then write_preview home args
          else if tool = ''fs_pwd'' then pwd_preview home result
          else if tool \<in> set [''fs_list'', ''fs_ls'', ''list_directory'', ''filesystem''] then list_preview home args result
          else if tool = ''fs_tree'' then map_option (\<lambda>d. d @ '' '' @ tick) (shown_path home args ''.'')
          else if tool \<in> set [''fs_search'', ''fs_find'', ''fs_glob'', ''search_files'']
          then query_preview (the_or ''...'' (Option.bind (jget_first args [''query'', ''pattern'']) as_str))
                 (or_else (list_member result ''matches'') (or_else (list_member result ''results'') (as_array result))) ''found''
          else if tool \<in> set [''fs_mkdir'', ''fs_create_dir'', ''create_directory'']
          then map_option (\<lambda>d. d @ '' created '' @ tick) (shown_path home args ''folder'')
          else if tool \<in> set [''fs_rm'', ''fs_delete'', ''fs_remove'', ''delete_file'']
          then map_option (\<lambda>d. d @ '' deleted'') (shown_path home args ''item'')
          else if tool \<in> set [''kg_search_nodes'', ''kg_search'', ''kg_query'', ''memory_search'']
          then query_preview (the_or ''...'' (str_member args ''query'')) (or_else (list_member result ''results'') (as_array result)) ''memories''
          else if tool \<in> set [''browser_navigate'', ''scrape'', ''web_fetch''] then browse_preview args result
          else if tool \<in> set [''agent_list'', ''list_agents'']
          then Some (count_preview (or_else (list_member result ''agents'') (as_array result)) ''agents'')
          else if tool = ''task_list'' then Some (count_preview (or_else (list_member result ''tasks'') (as_array result)) ''tasks'')
          else if tool \<in> set [''key'', ''press_key'']
          then Some (the_or ''key'' (Option.bind (jget_first args [''text'', ''key'']) as_str) @ '' '' @ tick)
          else if tool = ''open_application''
          then Some (the_or ''app'' (map_option (\<lambda>b. last (split_on (CHR ''.'') b)) (str_member args ''bundle_id'')) @ '' '' @ tick)
          else Some ((case find (\<lambda>(ts, t). tool \<in> set ts) done_tools of Some (ts, t) \<Rightarrow> t | None \<Rightarrow> []) @ tick))"

section \<open>The callback\<close>

definition tool_emoji :: "string \<Rightarrow> string" where
  "tool_emoji tool =
     (if prefix ''fs_'' tool then utf8 [0xF0, 0x9F, 0x93, 0x82]
      else if prefix ''kg_'' tool then utf8 [0xF0, 0x9F, 0xA7, 0xA0]
      else if prefix ''browser_'' tool then utf8 [0xF0, 0x9F, 0x8C, 0x90]
      else if prefix ''agent_'' tool then utf8 [0xF0, 0x9F, 0xA4, 0x96]
      else if prefix ''task_'' tool then utf8 [0xF0, 0x9F, 0x93, 0x85]
      else if tool \<in> set [''screenshot'', ''snapshot''] then utf8 [0xF0, 0x9F, 0x93, 0xB8]
      else if tool = ''open_application'' then utf8 [0xF0, 0x9F, 0x9A, 0x80]
      else if tool = ''run_script'' then utf8 [0xE2, 0x9A, 0xA1]
      else if tool \<in> set [''left_click'', ''right_click'', ''double_click''] then utf8 [0xF0, 0x9F, 0x96, 0xB1, 0xEF, 0xB8, 0x8F]
      else if tool \<in> set [''type'', ''key''] then utf8 [0xE2, 0x8C, 0xA8, 0xEF, 0xB8, 0x8F]
      else if tool = ''scrape'' then utf8 [0xF0, 0x9F, 0x8C, 0x90]
      else [])"

text \<open>The state of the callback: the one limiter of the gateway and the progress messages of the users.\<close>

record tool_watch =
  tw_limiter :: rate_limiter
  tw_progress :: "string list dict"

definition push_progress :: "string \<Rightarrow> string \<Rightarrow> string list dict \<Rightarrow> string list dict" where
  "push_progress user line d = dict_put user (the_or [] (dict_get d user) @ [line]) d"

record tool_call =
  tl_user :: string
  tl_tool :: string
  tl_args :: json
  tl_result :: json
  tl_at :: instant

text \<open>
  The decision, which is a pause of that length where it is \<open>Pause\<close>, and the result that replaces that of
  the tool. The outer option is the panic of the preview, after the limiter has counted the call.
\<close>

definition after_tool :: "string \<Rightarrow> tool_call \<Rightarrow> tool_watch \<Rightarrow> tool_watch \<times> rate_limit_decision \<times> json option option" where
  "after_tool home c w =
     (case record_invocation (tl_tool c) (tl_at c) (tw_limiter w) of
        (rl, d) \<Rightarrow>
          (let w1 = w\<lparr>tw_limiter := rl\<rparr> in
           case d of
             Terminate reason \<Rightarrow>
               (w1, d, Some (Some (JObj [(''error'', JStr ''RATE_LIMIT_TERMINATED''), (''message'', JStr reason)])))
           | _ \<Rightarrow>
               if tool_emoji (tl_tool c) = [] then (w1, d, Some None)
               else (case format_tool_result_preview home (tl_tool c) (tl_args c) (tl_result c) of
                       None \<Rightarrow> (w1, d, None)
                     | Some preview \<Rightarrow>
                         (w1\<lparr>tw_progress := push_progress (tl_user c)
                            (tool_emoji (tl_tool c) @ '' '' @ tl_tool c @ '' '' @ arrow @ '' '' @ preview) (tw_progress w1)\<rparr>,
                          d, Some None))))"

text \<open>The limiter is made and reset once, when the gateway starts.\<close>

definition watch_start :: "rate_limit_config \<Rightarrow> tool_watch" where
  "watch_start cfg = \<lparr>tw_limiter = rl_reset (rl_new cfg), tw_progress = []\<rparr>"

fun after_tools :: "string \<Rightarrow> tool_call list \<Rightarrow> tool_watch \<Rightarrow> tool_watch \<times> rate_limit_decision list" where
  "after_tools home [] w = (w, [])"
| "after_tools home (c # cs) w =
     (case after_tool home c w of (w1, d, r) \<Rightarrow> (case after_tools home cs w1 of (w2, ds) \<Rightarrow> (w2, d # ds)))"

section \<open>Texts in ASCII\<close>

fun ascii_json :: "json \<Rightarrow> bool" where
  "ascii_json (JStr s) = is_ascii s"
| "ascii_json (JObj m) = list_all (\<lambda>(k, v). ascii_json v) m"
| "ascii_json _ = True"

lemma is_ascii_suffix: "suffix t s \<Longrightarrow> is_ascii s \<Longrightarrow> is_ascii t"
  by (auto simp: suffix_def)

lemma is_ascii_drop: "is_ascii s \<Longrightarrow> is_ascii (drop n s)"
  by (rule is_ascii_suffix [OF suffix_drop])

lemma truncate_ascii: "is_ascii s \<Longrightarrow> truncate_str s n \<noteq> None"
  by (auto simp: truncate_str_def slice_to_def intro: ascii_boundary)

lemma shorten_ascii: "is_ascii p \<Longrightarrow> shorten_path home p \<noteq> None"
  using truncate_ascii [of "CHR ''~'' # drop (length home) p" 50] truncate_ascii [of p 50] is_ascii_drop [of p "length home"]
  by (auto simp: shorten_path_def Let_def is_ascii_def)

lemma jget_ascii: "jget j k = Some v \<Longrightarrow> ascii_json j \<Longrightarrow> ascii_json v"
  by (cases j) (auto simp: list_all_iff dest: dict_get_mem)

lemma jget_first_ascii: "jget_first j ks = Some v \<Longrightarrow> ascii_json j \<Longrightarrow> ascii_json v"
  by (induction ks) (auto split: option.splits intro: jget_ascii)

lemma as_str_ascii: "as_str v = Some s \<Longrightarrow> ascii_json v \<Longrightarrow> is_ascii s"
  by (simp add: as_str_Some)

lemma str_member_ascii: "str_member j k = Some s \<Longrightarrow> ascii_json j \<Longrightarrow> is_ascii s"
  by (auto simp: str_member_def bind_eq_Some_conv intro: as_str_ascii jget_ascii)

lemma first_str_ascii: "Option.bind (jget_first j ks) as_str = Some s \<Longrightarrow> ascii_json j \<Longrightarrow> is_ascii s"
  by (auto simp: bind_eq_Some_conv intro: as_str_ascii jget_first_ascii)

lemma the_or_ascii: "is_ascii d \<Longrightarrow> (\<And>s. x = Some s \<Longrightarrow> is_ascii s) \<Longrightarrow> is_ascii (the_or d x)"
  by (cases x) (simp_all add: the_or_def)

lemma shown_path_ascii: "ascii_json args \<Longrightarrow> shown_path home args d \<noteq> None"
proof -
  assume "ascii_json args"
  then have "path_arg args = Some p \<Longrightarrow> is_ascii p" for p unfolding path_arg_def using first_str_ascii by blast
  then show ?thesis by (auto simp: shown_path_def shorten_ascii simp del: not_None_eq split: option.split)
qed

lemma trim_rev_suffix: "suffix (trim_rev s) s"
proof (induction s rule: trim_rev.induct)
  case (1 s)
  show ?case
  proof (cases "find (\<lambda>w. w \<noteq> [] \<and> prefix (rev w) s) ws_encodings")
    case None
    then show ?thesis by (simp add: trim_rev.simps)
  next
    case (Some w)
    then show ?thesis
      using 1 [OF Some] suffix_drop [of "length w" s] by (simp add: trim_rev.simps suffix_order.trans)
  qed
qed

lemma is_ascii_rev [simp]: "is_ascii (rev s) = is_ascii s"
  by (simp add: is_ascii_def)

lemma trim_ascii: "is_ascii s \<Longrightarrow> is_ascii (trim s)"
  unfolding trim_def trim_end_def is_ascii_rev
  by (rule is_ascii_suffix [OF trim_rev_suffix]) (simp add: is_ascii_suffix [OF trim_start_suffix])

lemma ascii_words [simp]: "is_ascii ''command''" "is_ascii ''...''" "is_ascii ''page''"
  by (simp_all add: is_ascii_def)

lemma query_ascii: "is_ascii q \<Longrightarrow> query_preview q hits what \<noteq> None"
  using truncate_ascii [of q 20] by (auto simp: query_preview_def)

lemma if_shown: "\<lbrakk>a \<noteq> None; b \<noteq> None\<rbrakk> \<Longrightarrow> (if P then a else b) \<noteq> None"
  by simp

lemma map_shown: "x \<noteq> None \<Longrightarrow> map_option f x \<noteq> None" "Some y \<noteq> None"
  by simp_all

text \<open>
  For arguments and results whose texts are ASCII the preview of every tool is shown: no slice panics.
\<close>

theorem ascii_previews_shown:
  assumes "ascii_json args" "ascii_json result"
  shows "format_tool_result_preview home tool args result \<noteq> None"
proof -
  have err: "error_text result = Some e \<Longrightarrow> is_ascii e" for e
    using assms(2) by (auto simp: error_text_def or_else_def split: option.splits if_splits dest: str_member_ascii)
  have script: "script_preview args result \<noteq> None"
    using truncate_ascii [OF trim_ascii [OF the_or_ascii [of "''command''" "Option.bind (jget_first args [''script'', ''command'', ''cmd'']) as_str"]], of 60]
      first_str_ascii [of args "[''script'', ''command'', ''cmd'']"] assms(1)
    by (auto simp: script_preview_def Let_def simp del: jget_first.simps)
  have browse: "browse_preview args result \<noteq> None"
    using truncate_ascii [OF str_member_ascii [OF _ assms(2)], of "''title''" _ 30]
    by (auto simp: browse_preview_def Let_def split: option.split)
  have pwd: "pwd_preview home result \<noteq> None"
  proof -
    have "or_else (as_str result) (or_else (str_member result ''path'') (str_member result ''cwd'')) = Some p \<Longrightarrow> is_ascii p" for p
      using assms(2) by (auto simp: or_else_def split: option.splits dest: str_member_ascii as_str_ascii)
    then show ?thesis using shorten_ascii by (auto simp: pwd_preview_def split: option.split)
  qed
  have q: "query_preview (the_or ''...'' (Option.bind (jget_first args ks) as_str)) hits what \<noteq> None"
    "query_preview (the_or ''...'' (str_member args k)) hits what \<noteq> None" for ks k hits what
    using assms(1) by (auto intro!: query_ascii [simplified] the_or_ascii dest: first_str_ascii str_member_ascii)
  note shown = shown_path_ascii [OF assms(1)]
  have "read_preview home args result \<noteq> None" "write_preview home args \<noteq> None" "list_preview home args result \<noteq> None"
    using shown by (simp_all add: read_preview_def write_preview_def list_preview_def)
  then have tools: "error_text result = None \<Longrightarrow> format_tool_result_preview home tool args result \<noteq> None"
    unfolding format_tool_result_preview_def by (simp only: option.case) (intro if_shown map_shown script browse pwd q shown)
  show ?thesis
  proof (cases "error_text result")
    case (Some e)
    then show ?thesis using truncate_ascii [OF err [OF Some], of 80] by (simp add: format_tool_result_preview_def)
  qed (rule tools)
qed

theorem ascii_previews_shown_witness:
  "format_tool_result_preview ''/root'' ''fs_read'' (JObj [(''path'', JStr ''/root/a.txt'')]) (JObj [(''content'', JStr ''x'')]) \<noteq> None"
  by (rule ascii_previews_shown) (simp_all add: is_ascii_def)

text \<open>
  A text that is shortened has at most two bytes more than the limit says.
\<close>

theorem truncated_length:
  assumes "truncate_str s n = Some t" "0 < n"
  shows "length t \<le> n + 2"
  using assms by (auto simp: truncate_str_def slice_to_def ellipsis_def utf8_def split: if_splits)

theorem truncated_length_witness:
  "truncate_str ''abcdef'' 4 = Some (''abc'' @ ellipsis) \<and> length (''abc'' @ ellipsis) \<le> 6"
proof -
  have "truncate_str ''abcdef'' 4 = Some (''abc'' @ ellipsis)"
    by (simp add: truncate_str_def slice_to_def is_char_boundary_def is_continuation_def numeral_eq_Suc)
  with truncated_length [OF this] show ?thesis by simp
qed

text \<open>
  A path in the directory of another user whose name begins with the name of this user's directory is
  shown as if it were in this user's directory.
\<close>

theorem sibling_home_shown_as_own:
  assumes "home \<noteq> []" "length rest < 50"
  shows "shorten_path home (home @ rest) = Some (CHR ''~'' # rest)"
  using assms by (simp add: shorten_path_def Let_def)

theorem sibling_home_shown_as_own_witness:
  "shorten_path ''/home/al'' ''/home/alice/notes'' = Some ''~ice/notes''"
  using sibling_home_shown_as_own [of "''/home/al''" "''ice/notes''"] by simp

text \<open>
  An error text of more than 80 bytes with a character across byte 79 makes the callback panic after
  any tool that has an emoji, unless the limiter ends the request.
\<close>

theorem long_error_preview_panics:
  assumes "str_member (tl_result c) ''error'' = Some e" "80 < length e" "\<not> is_char_boundary e 79"
    and "tool_emoji (tl_tool c) \<noteq> []" "after_tool home c w = (w1, d, r)" "d = Allow"
  shows "r = None"
proof -
  have "truncate_str e 80 = None" using assms(2,3) by (simp add: truncate_str_def slice_to_def)
  then have "format_tool_result_preview home (tl_tool c) (tl_args c) (tl_result c) = None"
    using assms(1) by (simp add: format_tool_result_preview_def error_text_def or_else_def)
  then show ?thesis
    using assms(4-6) by (auto simp: after_tool_def Let_def split: prod.splits rate_limit_decision.splits if_splits)
qed

definition demo_failed_call :: tool_call where
  "demo_failed_call = \<lparr>tl_user = ''u'', tl_tool = ''fs_read'', tl_args = JObj [],
     tl_result = JObj [(''error'', JStr (replicate 78 CHR ''a'' @ utf8 [0xC3, 0xA9] @ ''b''))], tl_at = 0\<rparr>"

theorem long_error_preview_panics_witness:
  "snd (snd (after_tool [] demo_failed_call (watch_start default_rate_limit_config))) = None"
proof -
  let ?e = "replicate 78 CHR ''a'' @ utf8 [0xC3, 0xA9] @ ''b''"
  let ?w = "watch_start default_rate_limit_config"
  obtain w1 d r where a: "after_tool [] demo_failed_call ?w = (w1, d, r)" by (cases "after_tool [] demo_failed_call ?w") auto
  have rec: "snd (record_invocation ''fs_read'' 0 (tw_limiter ?w)) = Allow"
    by (simp add: watch_start_def rl_reset_def rl_new_def record_invocation_def default_rate_limit_config_def prune_def Let_def)
  have d: "d = Allow"
    using a rec by (auto simp: after_tool_def demo_failed_call_def Let_def
        split: prod.splits if_splits option.splits)
  have b: "\<not> is_char_boundary ?e 79"
    by (simp add: is_char_boundary_def is_continuation_def utf8_def nth_append)
  have m: "str_member (tl_result demo_failed_call) ''error'' = Some ?e"
    by (simp add: demo_failed_call_def str_member_def)
  show ?thesis
    unfolding a using long_error_preview_panics [OF m _ b _ a d] by (simp add: demo_failed_call_def tool_emoji_def utf8_def)
qed

section \<open>One limiter for all\<close>

lemma after_tool_limiter: "tw_limiter (fst (after_tool home c w)) = fst (record_invocation (tl_tool c) (tl_at c) (tw_limiter w))"
  and after_tool_decision: "fst (snd (after_tool home c w)) = snd (record_invocation (tl_tool c) (tl_at c) (tw_limiter w))"
  by (auto simp: after_tool_def Let_def split: prod.split rate_limit_decision.split option.split)

lemma after_tools_decisions:
  "snd (after_tools home cs w) = snd (run_limiter (map (\<lambda>c. (tl_tool c, tl_at c)) cs) (tw_limiter w))"
proof (induction cs arbitrary: w)
  case (Cons c cs)
  obtain w1 d r where a: "after_tool home c w = (w1, d, r)" by (cases "after_tool home c w") auto
  then show ?case
    using Cons [of w1] after_tool_limiter [of home c w] after_tool_decision [of home c w]
    by (simp add: case_prod_beta)
qed simp

text \<open>
  The calls of all users count against one window: the decisions are those of one limiter that has seen
  every call of every user since the start of the gateway, whoever made it.
\<close>

theorem limit_counts_all_users:
  "snd (after_tools home cs (watch_start cfg)) = snd (run_limiter (map (\<lambda>c. (tl_tool c, tl_at c)) cs) (rl_new cfg))"
  by (simp add: after_tools_decisions watch_start_def rl_reset_def rl_new_def)

definition exhausted :: "rate_limiter \<Rightarrow> bool" where
  "exhausted rl \<longleftrightarrow> rl_max_triggers (rl_config rl) \<le> rl_trigger_count rl"

lemma exhausted_step:
  assumes "exhausted rl" "unat (rl_trigger_count rl) < 4294967295"
  shows "exhausted (fst (record_invocation t now rl))" "snd (record_invocation t now rl) \<noteq> Pause p"
    and "unat (rl_trigger_count (fst (record_invocation t now rl))) \<le> Suc (unat (rl_trigger_count rl))"
proof -
  have "unat (rl_trigger_count rl + 1) = Suc (unat (rl_trigger_count rl))"
    using assms(2) by (simp add: unat_word_ariths)
  with assms show "exhausted (fst (record_invocation t now rl))" "snd (record_invocation t now rl) \<noteq> Pause p"
    "unat (rl_trigger_count (fst (record_invocation t now rl))) \<le> Suc (unat (rl_trigger_count rl))"
    by (auto simp: record_invocation_def exhausted_def Let_def word_le_nat_alt)
qed

lemma exhausted_run:
  assumes "exhausted rl" "unat (rl_trigger_count rl) + length es < 4294967296"
  shows "list_all (\<lambda>d. d = Allow \<or> (\<exists>r. d = Terminate r)) (snd (run_limiter es rl))"
  using assms
proof (induction es arbitrary: rl)
  case (Cons e es)
  obtain t now where e: "e = (t, now)" by (cases e)
  obtain rl1 d where r: "record_invocation t now rl = (rl1, d)" by force
  note st = exhausted_step [OF Cons.prems(1), of t now]
  have "exhausted rl1" "unat (rl_trigger_count rl1) + length es < 4294967296"
    using st(1,3) Cons.prems(2) r by auto
  from Cons.IH [OF this] st(2) Cons.prems(2) show ?case
    by (cases d) (auto simp: e r split: prod.split)
qed simp

text \<open>
  Once the limiter has ended one request it never pauses again: for every user, every later call over the
  limit is ended at once, for as long as the gateway runs.
\<close>

theorem ended_once_ended_for_all:
  assumes "unat (rl_trigger_count (tw_limiter w)) + Suc (length cs) < 4294967296"
    and "after_tool home c w = (w1, Terminate reason, r)"
  shows "list_all (\<lambda>d. d = Allow \<or> (\<exists>r. d = Terminate r)) (snd (after_tools home cs w1))"
proof -
  have "exhausted (tw_limiter w1)" "unat (rl_trigger_count (tw_limiter w1)) \<le> Suc (unat (rl_trigger_count (tw_limiter w)))"
    using assms after_tool_limiter [of home c w] after_tool_decision [of home c w]
    by (auto simp: record_invocation_def exhausted_def Let_def unat_word_ariths split: if_splits)
  then show ?thesis
    using exhausted_run [of "tw_limiter w1" "map (\<lambda>c. (tl_tool c, tl_at c)) cs"] assms(1) by (simp add: after_tools_decisions)
qed

definition greedy_call :: "instant \<Rightarrow> tool_call" where
  "greedy_call t = \<lparr>tl_user = ''u'', tl_tool = ''noop'', tl_args = JNull, tl_result = JNull, tl_at = t\<rparr>"

theorem ended_once_ended_for_all_witness:
  "let cfg = \<lparr>rl_max_calls = 0, rl_window_secs = 5, rl_cooldown_secs = 3, rl_max_triggers = 1\<rparr>;
       w1 = fst (after_tool [] (greedy_call 0) (watch_start cfg))
   in list_all (\<lambda>d. d = Allow \<or> (\<exists>r. d = Terminate r)) (snd (after_tools [] [(greedy_call 1)\<lparr>tl_user := ''v''\<rparr>] w1))"
proof -
  define cfg where "cfg = \<lparr>rl_max_calls = 0, rl_window_secs = 5, rl_cooldown_secs = 3, rl_max_triggers = 1\<rparr>"
  have "after_tool [] (greedy_call 0) (watch_start cfg) =
      (fst (after_tool [] (greedy_call 0) (watch_start cfg)), Terminate (terminate_text 1 ''noop'' 1 5),
       snd (snd (after_tool [] (greedy_call 0) (watch_start cfg))))"
    by (simp add: after_tool_def greedy_call_def watch_start_def rl_reset_def rl_new_def record_invocation_def prune_def cfg_def Let_def)
  from ended_once_ended_for_all [OF _ this, of "[(greedy_call 1)\<lparr>tl_user := ''v''\<rparr>]"] show ?thesis
    by (simp add: cfg_def [symmetric] watch_start_def rl_reset_def rl_new_def Let_def)
qed

end
