(* ===== verification/McpConnections.thy ===== *)
theory McpConnections
  imports Prelude
begin

text \<open>
  \<open>src/mcp.rs\<close>: the connections to MCP servers, their tools, reconnection with a growing delay and the
  reconciliation with a new configuration. What happens when a server is launched is the argument \<open>launch\<close>.
\<close>

section \<open>Configuration and state\<close>

datatype mcp_transport = Stdio string "string list" "string dict" | Sse string

datatype mcp_auth = McpToken string | McpOAuth string string string

record mcp_server_config =
  ms_server_id :: string
  ms_transport :: mcp_transport
  ms_auth :: "mcp_auth option"
  ms_enabled :: bool

datatype connection_status = Connected | Reconnecting | Failed | Disconnected

record mcp_connection =
  mc_server_id :: string
  mc_config :: mcp_server_config
  mc_status :: connection_status
  mc_discovered_tools :: "string list"
  mc_reconnect_attempts :: "32 word"

definition mcp_connection_new :: "mcp_server_config \<Rightarrow> mcp_connection" where
  "mcp_connection_new c = \<lparr>mc_server_id = ms_server_id c, mc_config = c, mc_status = Disconnected, mc_discovered_tools = [],
     mc_reconnect_attempts = 0\<rparr>"

text \<open>The delay in seconds. The shift is below 64, so the power fits the 64 bits and is cut to the cap.\<close>

definition backoff_cap :: "64 word" where "backoff_cap = 60"

definition backoff_duration :: "32 word \<Rightarrow> 64 word" where
  "backoff_duration attempt = min (push_bit (unat (min attempt 63)) 1) backoff_cap"

text \<open>A manager is the running process of a server; of it the configuration is kept that it was started with.\<close>

record mcp_manager =
  mm_connections :: "mcp_connection dict"
  mm_managers :: "mcp_server_config dict"

definition mcp_new :: mcp_manager where
  "mcp_new = \<lparr>mm_connections = [], mm_managers = []\<rparr>"

text \<open>Launching a process fails, gives one that does not run, or a running one whose tools may be found.\<close>

datatype launch_outcome = StartFailed | NotRunning | RunningServer "string list option"

section \<open>Operations\<close>

definition open_connection :: "(mcp_server_config \<Rightarrow> launch_outcome) \<Rightarrow> mcp_server_config \<Rightarrow> mcp_connection \<times> bool" where
  "open_connection launch c =
     (let conn = mcp_connection_new c in
      case ms_transport c of
        Stdio command args env \<Rightarrow>
          (case launch c of
             RunningServer found \<Rightarrow>
               (conn\<lparr>mc_status := Connected, mc_reconnect_attempts := 0,
                     mc_discovered_tools := (case found of Some ts \<Rightarrow> ts | None \<Rightarrow> [])\<rparr>, True)
           | NotRunning \<Rightarrow> (conn\<lparr>mc_status := Failed\<rparr>, False)
           | StartFailed \<Rightarrow> (conn\<lparr>mc_status := Failed\<rparr>, False))
      | Sse url \<Rightarrow> (conn\<lparr>mc_status := Connected, mc_reconnect_attempts := 0\<rparr>, False))"

definition mcp_connect :: "(mcp_server_config \<Rightarrow> launch_outcome) \<Rightarrow> mcp_server_config \<Rightarrow> mcp_manager \<Rightarrow> mcp_manager" where
  "mcp_connect launch c m =
     (if \<not> ms_enabled c then m
      else let (conn, runs) = open_connection launch c in
        m\<lparr>mm_managers := (if runs then dict_put (ms_server_id c) c (mm_managers m) else mm_managers m),
          mm_connections := dict_put (ms_server_id c) conn (mm_connections m)\<rparr>)"

definition mcp_disconnect :: "string \<Rightarrow> mcp_manager \<Rightarrow> mcp_manager" where
  "mcp_disconnect i m = m\<lparr>mm_managers := dict_del i (mm_managers m), mm_connections := dict_del i (mm_connections m)\<rparr>"

text \<open>\<open>reconnect\<close> sleeps between its parts: the first one gives the configuration and the delay.\<close>

definition reconnect_begin :: "string \<Rightarrow> mcp_manager \<Rightarrow> mcp_manager \<times> (string, mcp_server_config \<times> 64 word) result" where
  "reconnect_begin i m =
     (case dict_get (mm_connections m) i of
        None \<Rightarrow> (m, Err (''unknown MCP server: '' @ i))
      | Some k \<Rightarrow>
          (let k1 = k\<lparr>mc_status := Reconnecting, mc_reconnect_attempts := mc_reconnect_attempts k + 1\<rparr> in
           (m\<lparr>mm_connections := dict_put i k1 (mm_connections m)\<rparr>,
            Ok (mc_config k, backoff_duration (mc_reconnect_attempts k1 - 1)))))"

definition reconnect_finish :: "(mcp_server_config \<Rightarrow> launch_outcome) \<Rightarrow> string \<Rightarrow> mcp_server_config \<Rightarrow> mcp_manager \<Rightarrow> mcp_manager" where
  "reconnect_finish launch i c m = mcp_connect launch c (m\<lparr>mm_connections := dict_del i (mm_connections m)\<rparr>)"

definition get_status :: "mcp_manager \<Rightarrow> string \<Rightarrow> connection_status option" where
  "get_status m i = map_option mc_status (dict_get (mm_connections m) i)"

definition is_tool_available :: "mcp_manager \<Rightarrow> string \<Rightarrow> bool" where
  "is_tool_available m i \<longleftrightarrow> get_status m i = Some Connected"

definition discovered_tools :: "mcp_manager \<Rightarrow> string \<Rightarrow> string list" where
  "discovered_tools m i = (case dict_get (mm_connections m) i of Some k \<Rightarrow> mc_discovered_tools k | None \<Rightarrow> [])"

definition server_ids :: "mcp_manager \<Rightarrow> string list" where
  "server_ids m = dict_keys (mm_connections m)"

definition toolsets :: "mcp_manager \<Rightarrow> mcp_server_config list" where
  "toolsets m = map snd (mm_managers m)"

definition drop_unlisted :: "mcp_server_config list \<Rightarrow> string \<Rightarrow> mcp_manager \<Rightarrow> mcp_manager" where
  "drop_unlisted cfgs i m = (if i \<in> ms_server_id ` set cfgs then m else mcp_disconnect i m)"

definition needs_connect :: "mcp_server_config \<Rightarrow> mcp_manager \<Rightarrow> bool" where
  "needs_connect c m = (case dict_get (mm_connections m) (ms_server_id c) of Some k \<Rightarrow> mc_config k \<noteq> c | None \<Rightarrow> True)"

definition reconcile_server :: "(mcp_server_config \<Rightarrow> launch_outcome) \<Rightarrow> mcp_server_config \<Rightarrow> mcp_manager \<Rightarrow> mcp_manager" where
  "reconcile_server launch c m =
     (let known = dict_has (mm_connections m) (ms_server_id c);
          closed = (if known then mcp_disconnect (ms_server_id c) m else m)
      in if \<not> ms_enabled c then closed
         else if needs_connect c m then mcp_connect launch c closed else m)"

definition mcp_reconcile :: "(mcp_server_config \<Rightarrow> launch_outcome) \<Rightarrow> mcp_server_config list \<Rightarrow> mcp_manager \<Rightarrow> mcp_manager" where
  "mcp_reconcile launch cfgs m = fold (reconcile_server launch) cfgs (fold (drop_unlisted cfgs) (server_ids m) m)"

section \<open>Backoff\<close>

text \<open>
  The delay before attempt \<open>n\<close> is two to the power of \<open>n\<close> seconds, at most a minute; no shift overflows.
\<close>

theorem backoff_exact: "unat (backoff_duration a) = min (2 ^ unat a) 60"
proof -
  have small: "unat (min a 63) = min (unat a) 63"
    by (simp add: min_def word_le_nat_alt)
  have "unat (push_bit k (1 :: 64 word)) = 2 ^ k" if "k \<le> 63" for k
  proof -
    have "(2 :: nat) ^ k < 2 ^ 64" using that by (intro power_strict_increasing) auto
    then have "unat (of_nat (2 ^ k) :: 64 word) = 2 ^ k" 
      by (simp only: unsigned_of_nat) (use that in \<open>simp add: take_bit_nat_eq_self\<close>)
    then show ?thesis by (simp add: push_bit_eq_mult)
  qed
  then have shifted: "unat (push_bit (unat (min a 63)) (1 :: 64 word)) = 2 ^ min (unat a) 63" by (simp add: small)
  have "min (2 ^ min (unat a) 63) (60 :: nat) = min (2 ^ unat a) 60"
  proof (cases "unat a \<le> 6")
    case False
    then have le: "6 \<le> min (unat a) 63" "6 \<le> unat a" by auto
    show ?thesis using power_increasing [OF le(1), of "2 :: nat"] power_increasing [OF le(2), of "2 :: nat"] by simp
  qed simp
  then show ?thesis
    using shifted by (simp add: backoff_duration_def backoff_cap_def min_def word_le_nat_alt split: if_splits)
qed

section \<open>Reconciliation\<close>

definition connection_after :: "(mcp_server_config \<Rightarrow> launch_outcome) \<Rightarrow> mcp_server_config list \<Rightarrow> mcp_manager \<Rightarrow> string \<Rightarrow> mcp_connection option" where
  "connection_after launch cfgs m i =
     (case find (\<lambda>c. ms_server_id c = i) cfgs of
        None \<Rightarrow> None
      | Some c \<Rightarrow> if \<not> ms_enabled c then None
          else case dict_get (mm_connections m) i of
            Some k \<Rightarrow> if mc_config k = c then Some k else Some (fst (open_connection launch c))
          | None \<Rightarrow> Some (fst (open_connection launch c)))"

lemma disconnect_get [simp]: "dict_get (mm_connections (mcp_disconnect j m)) i = (if i = j then None else dict_get (mm_connections m) i)"
  by (simp add: mcp_disconnect_def)

lemma dropped_get:
  "dict_get (mm_connections (fold (drop_unlisted cfgs) is m)) i =
     (if i \<in> set is \<and> i \<notin> ms_server_id ` set cfgs then None else dict_get (mm_connections m) i)"
  by (induction "is" arbitrary: m) (auto simp: drop_unlisted_def)

lemma reconcile_server_get:
  "dict_get (mm_connections (reconcile_server launch c m)) i =
     (if i = ms_server_id c then connection_after launch [c] m i else dict_get (mm_connections m) i)"
  by (auto simp: reconcile_server_def Let_def connection_after_def needs_connect_def mcp_connect_def dict_has_def split_beta
      split: option.split)

lemma connection_after_cong:
  assumes "dict_get (mm_connections m) i = dict_get (mm_connections m') i"
  shows "connection_after launch cfgs m i = connection_after launch cfgs m' i"
  unfolding connection_after_def assms by (rule refl)

lemma reconciled_get:
  "distinct (map ms_server_id cfgs) \<Longrightarrow> dict_get (mm_connections (fold (reconcile_server launch) cfgs m)) i =
     (if i \<in> ms_server_id ` set cfgs then connection_after launch cfgs m i else dict_get (mm_connections m) i)"
proof (induction cfgs arbitrary: m)
  case (Cons c cfgs)
  let ?m = "reconcile_server launch c m"
  have "connection_after launch cfgs ?m i = connection_after launch cfgs m i" if "i \<noteq> ms_server_id c"
    using that by (intro connection_after_cong) (simp add: reconcile_server_get)
  then show ?case
    using Cons by (auto simp: reconcile_server_get connection_after_def)
qed simp

text \<open>
  C33. After a reconciliation the connections are those of the enabled servers of the new configuration: a server
  whose configuration is the same keeps its connection as it is, every other one is opened afresh.
\<close>

theorem reconcile_connections_exact:
  assumes "distinct (map ms_server_id cfgs)"
  shows "dict_get (mm_connections (mcp_reconcile launch cfgs m)) = connection_after launch cfgs m"
proof
  fix i
  let ?m = "fold (drop_unlisted cfgs) (server_ids m) m"
  have absent: "dict_get (mm_connections m) i = None" if "i \<notin> set (server_ids m)"
    using that by (simp add: server_ids_def dict.keys_get)
  have same: "connection_after launch cfgs ?m i = connection_after launch cfgs m i"
    if "i \<in> ms_server_id ` set cfgs" using that by (intro connection_after_cong) (simp add: dropped_get)
  have none: "connection_after launch cfgs m i = None" if "i \<notin> ms_server_id ` set cfgs"
    using that by (auto simp: connection_after_def find_None_iff split: option.split dest!: find_Some_iff [THEN iffD1])
  show "dict_get (mm_connections (mcp_reconcile launch cfgs m)) i = connection_after launch cfgs m i"
    using absent same none by (auto simp: mcp_reconcile_def reconciled_get [OF assms] dropped_get)
qed

definition demo_server :: "string \<Rightarrow> bool \<Rightarrow> mcp_server_config" where
  "demo_server i on = \<lparr>ms_server_id = i, ms_transport = Stdio ''run'' [] [], ms_auth = None, ms_enabled = on\<rparr>"

definition demo_launch_ok :: "mcp_server_config \<Rightarrow> launch_outcome" where
  "demo_launch_ok c = RunningServer (Some [''search''])"

lemma reconcile_connections_exact_witness:
  "dict_get (mm_connections (mcp_reconcile demo_launch_ok [demo_server ''a'' True, demo_server ''b'' False] mcp_new))
     = connection_after demo_launch_ok [demo_server ''a'' True, demo_server ''b'' False] mcp_new"
  by (rule reconcile_connections_exact) (simp add: demo_server_def)

section \<open>Toolsets\<close>

text \<open>A running manager belongs to a connection that was opened with its configuration and is in use.\<close>

definition toolsets_ok :: "mcp_manager \<Rightarrow> bool" where
  "toolsets_ok m \<longleftrightarrow> (\<forall>i c. dict_get (mm_managers m) i = Some c \<longrightarrow>
     (\<exists>k. dict_get (mm_connections m) i = Some k \<and> mc_status k = Connected \<and> mc_config k = c))"

datatype mcp_op = McpReconcile "mcp_server_config \<Rightarrow> launch_outcome" "mcp_server_config list" | McpDisconnect string

fun mcp_step :: "mcp_op \<Rightarrow> mcp_manager \<Rightarrow> mcp_manager" where
  "mcp_step (McpReconcile launch cfgs) m = mcp_reconcile launch cfgs m"
| "mcp_step (McpDisconnect i) m = mcp_disconnect i m"

lemma toolsets_ok_disconnect: "toolsets_ok m \<Longrightarrow> toolsets_ok (mcp_disconnect i m)"
  by (auto simp: toolsets_ok_def mcp_disconnect_def)

lemma opened_runs: "open_connection launch c = (k, True) \<Longrightarrow> mc_status k = Connected \<and> mc_config k = c"
  by (auto simp: open_connection_def Let_def mcp_connection_new_def split: mcp_transport.splits launch_outcome.splits)

lemma toolsets_ok_connect:
  assumes "toolsets_ok m" "dict_get (mm_managers m) (ms_server_id c) = None"
  shows "toolsets_ok (mcp_connect launch c m)"
proof -
  obtain k runs where "open_connection launch c = (k, runs)" by fastforce
  then show ?thesis
    using assms opened_runs [of launch c k] by (cases runs) (auto simp: toolsets_ok_def mcp_connect_def)
qed

lemma toolsets_ok_absent: "\<lbrakk>toolsets_ok m; dict_get (mm_connections m) i = None\<rbrakk> \<Longrightarrow> dict_get (mm_managers m) i = None"
  unfolding toolsets_ok_def by (metis not_Some_eq)

lemma toolsets_ok_server: "toolsets_ok m \<Longrightarrow> toolsets_ok (reconcile_server launch c m)"
  using toolsets_ok_absent [of m "ms_server_id c"]
  by (auto simp: reconcile_server_def Let_def dict_has_def intro!: toolsets_ok_connect toolsets_ok_disconnect)
    (simp add: mcp_disconnect_def)

lemma toolsets_ok_reconcile: "toolsets_ok m \<Longrightarrow> toolsets_ok (mcp_reconcile launch cfgs m)"
proof -
  have "toolsets_ok m \<Longrightarrow> toolsets_ok (fold (drop_unlisted cfgs) is m)" for "is" m
    by (induction "is" arbitrary: m) (auto simp: drop_unlisted_def toolsets_ok_disconnect)
  moreover have "toolsets_ok m \<Longrightarrow> toolsets_ok (fold (reconcile_server launch) cs m)" for cs m
    by (induction cs arbitrary: m) (auto simp: toolsets_ok_server)
  ultimately show "toolsets_ok m \<Longrightarrow> toolsets_ok (mcp_reconcile launch cfgs m)" by (simp add: mcp_reconcile_def)
qed

lemma toolsets_ok_step: "toolsets_ok m \<Longrightarrow> toolsets_ok (mcp_step op m)"
  by (cases op) (simp_all add: toolsets_ok_reconcile toolsets_ok_disconnect)

lemma toolsets_ok_new: "toolsets_ok mcp_new"
  by (simp add: toolsets_ok_def mcp_new_def)

interpretation mcp: operation_machine mcp_new mcp_step toolsets_ok
  by unfold_locales (simp_all add: toolsets_ok_new toolsets_ok_step)

text \<open>
  After any reconciliations and disconnections the tools that agents get are those of servers that are connected
  with the configuration their process was started with.
\<close>

theorem toolsets_are_connected:
  assumes "dict_get (mm_managers (fold mcp_step ops mcp_new)) i = Some c"
  shows "is_tool_available (fold mcp_step ops mcp_new) i
    \<and> map_option mc_config (dict_get (mm_connections (fold mcp_step ops mcp_new)) i) = Some c"
  using mcp.run_ok [of ops] assms by (auto simp: toolsets_ok_def is_tool_available_def get_status_def)

lemma demo_reconciled:
  "dict_get (mm_managers (fold mcp_step [McpReconcile demo_launch_ok [demo_server ''a'' True]] mcp_new)) ''a'' = Some (demo_server ''a'' True)"
  by (simp add: mcp_reconcile_def reconcile_server_def Let_def needs_connect_def mcp_connect_def open_connection_def demo_launch_ok_def
      mcp_new_def server_ids_def dict_keys_def dict_has_def demo_server_def mcp_connection_new_def)

lemma toolsets_are_connected_witness:
  "is_tool_available (fold mcp_step [McpReconcile demo_launch_ok [demo_server ''a'' True]] mcp_new) ''a''"
  using toolsets_are_connected [of "[McpReconcile demo_launch_ok [demo_server ''a'' True]]" "''a''"] demo_reconciled
  by blast

section \<open>Reconnection\<close>

text \<open>
  The delay of a reconnection does not grow: opening the connection again sets its attempts to zero, so after any
  reconnection, successful or not, the next one waits one second again.
\<close>

theorem reconnect_delay_never_grows:
  assumes "dict_get (mm_connections m) i = Some k" and "mc_config k = c" and "ms_server_id c = i" and "ms_enabled c"
  shows "snd (reconnect_begin i (reconnect_finish launch i c (fst (reconnect_begin i m)))) = Ok (c, 1)"
proof -
  have "mc_reconnect_attempts (fst (open_connection launch c)) = 0 \<and> mc_config (fst (open_connection launch c)) = c"
    by (simp add: open_connection_def Let_def mcp_connection_new_def split: mcp_transport.split launch_outcome.split)
  then show ?thesis
    using assms by (simp add: reconnect_begin_def reconnect_finish_def mcp_connect_def split_beta backoff_duration_def backoff_cap_def)
qed

definition demo_manager :: mcp_manager where
  "demo_manager = \<lparr>mm_connections = [(''a'', (mcp_connection_new (demo_server ''a'' True))\<lparr>mc_status := Connected\<rparr>)],
     mm_managers = [(''a'', demo_server ''a'' True)]\<rparr>"

lemma reconnect_delay_never_grows_witness:
  "snd (reconnect_begin ''a'' (reconnect_finish (\<lambda>c. StartFailed) ''a'' (demo_server ''a'' True) (fst (reconnect_begin ''a'' demo_manager))))
     = Ok (demo_server ''a'' True, 1)"
  by (rule reconnect_delay_never_grows [where k = "(mcp_connection_new (demo_server ''a'' True))\<lparr>mc_status := Connected\<rparr>"])
    (simp_all add: demo_manager_def mcp_connection_new_def demo_server_def)

text \<open>
  If the process of a server does not start again, the status of the connection is failed, but the agents still
  get the tools of its old process.
\<close>

theorem failed_reconnect_keeps_toolset:
  assumes "dict_get (mm_managers m) (ms_server_id c) = Some c" and "ms_enabled c" and "ms_transport c = Stdio cmd args env"
    and "launch c = StartFailed"
  shows "get_status (reconnect_finish launch (ms_server_id c) c m) (ms_server_id c) = Some Failed
    \<and> dict_get (mm_managers (reconnect_finish launch (ms_server_id c) c m)) (ms_server_id c) = Some c"
  using assms by (simp add: reconnect_finish_def mcp_connect_def open_connection_def Let_def get_status_def mcp_connection_new_def)

lemma failed_reconnect_keeps_toolset_witness:
  "get_status (reconnect_finish (\<lambda>c. StartFailed) ''a'' (demo_server ''a'' True) demo_manager) ''a'' = Some Failed
   \<and> dict_get (mm_managers (reconnect_finish (\<lambda>c. StartFailed) ''a'' (demo_server ''a'' True) demo_manager)) ''a'' = Some (demo_server ''a'' True)"
  using failed_reconnect_keeps_toolset [of demo_manager "demo_server ''a'' True" "''run''" "[]" "[]" "\<lambda>c. StartFailed"]
  by (simp add: demo_manager_def demo_server_def)

end
