(* ===== verification/ConfigReload.thy ===== *)
theory ConfigReload
  imports AccessControl Router Cron CodingAgents McpConnections RateLimiter HealthMonitor ToolApproval
begin

text \<open>
  \<open>src/config_watcher.rs\<close>, \<open>build_channels\<close> of \<open>src/channel/mod.rs\<close> and the task of \<open>src/gateway.rs\<close> that
  applies a new configuration: validation, the watcher with its pause between reloads, and which
  component a changed section reaches. A section, or the rest of one, that is only compared is a JSON
  value. Reading and parsing the file is the argument of an event; instants are nanoseconds.
\<close>

section \<open>The configuration\<close>

record telegram_config =
  tg_enabled :: bool
  tg_bot_token :: string
  tg_dm :: dm_settings
  tg_account_id :: string
  tg_rest :: json

record slack_config =
  sl_enabled :: bool
  sl_bot_token :: string
  sl_app_token :: string
  sl_dm :: dm_settings
  sl_account_id :: string

record whatsapp_config =
  wa_enabled :: bool
  wa_account_id :: string
  wa_phone_number_id :: string
  wa_access_token :: string
  wa_rest :: json

record discord_config =
  dc_enabled :: bool
  dc_account_id :: string
  dc_bot_token :: string
  dc_rest :: json

record matrix_config =
  mx_enabled :: bool
  mx_account_id :: string
  mx_homeserver_url :: string
  mx_access_token :: string
  mx_rest :: json

record channels_config =
  cc_telegram :: "telegram_config option"
  cc_slack :: "slack_config option"
  cc_telegram_accounts :: "telegram_config list"
  cc_slack_accounts :: "slack_config list"
  cc_whatsapp :: "whatsapp_config option"
  cc_discord :: "discord_config option"
  cc_matrix :: "matrix_config option"
  cc_signal :: "json option"
  cc_imessage :: "json option"

record hooks_config =
  hk_enabled :: bool
  hk_token :: "string option"
  hk_path :: "string option"

text \<open>Of the telemetry the rotation of the log files, and the rest.\<close>

record telemetry_config =
  te_retention_days :: "32 word"
  te_max_file_size_mb :: "64 word"
  te_rest :: json

text \<open>Of an agent its identifier and whether it is the default; of an embedding its provider.\<close>

record gateway_config =
  cf_port :: "16 word"
  cf_drain_timeout_secs :: "64 word"
  cf_agents :: "(string \<times> bool \<times> json) list"
  cf_channels :: channels_config
  cf_routing :: "routing_binding list"
  cf_session :: json
  cf_hooks :: hooks_config
  cf_cron :: "cron_job list"
  cf_memory :: "(string \<times> json) option"
  cf_rag :: "(string \<times> json) option"
  cf_auth :: "(auth_config \<times> json) option"
  cf_plugins :: json
  cf_conventions :: json
  cf_telemetry :: telemetry_config
  cf_mcp_servers :: "mcp_server_config list"
  cf_coding_agents :: coding_agents_config
  cf_stale_idle_secs :: "64 word"
  cf_rate_limiter :: rate_limit_config
  cf_health_monitor :: health_monitor_config
  cf_tool_approval :: approval_config
  cf_encryption_key_file :: "string option"
  cf_other :: json

section \<open>Validation\<close>

text \<open>The first identifier that was seen before.\<close>

fun first_repeated :: "'a list \<Rightarrow> 'a list \<Rightarrow> 'a option" where
  "first_repeated seen [] = None"
| "first_repeated seen (x # xs) = (if x \<in> set seen then Some x else first_repeated (x # seen) xs)"

definition check_embedding :: "string \<Rightarrow> (string \<times> json) option \<Rightarrow> (string, unit) result" where
  "check_embedding what section =
     (case section of
        None \<Rightarrow> Ok ()
      | Some (provider, _) \<Rightarrow>
          if provider = ''gemini'' \<or> provider = ''openai'' then Ok ()
          else Err (''unknown '' @ what @ '' embedding provider: '' @ provider))"

definition check_telegram :: "telegram_config option \<Rightarrow> (string, unit) result" where
  "check_telegram tg =
     (case tg of
        Some t \<Rightarrow> if tg_bot_token t = [] then Err ''channels.telegram.bot_token is required when Telegram is enabled'' else Ok ()
      | None \<Rightarrow> Ok ())"

definition check_slack :: "slack_config option \<Rightarrow> (string, unit) result" where
  "check_slack sl =
     (case sl of
        Some s \<Rightarrow>
          if sl_bot_token s = [] then Err ''channels.slack.bot_token is required when Slack is enabled''
          else if sl_app_token s = [] then Err ''channels.slack.app_token is required when Slack is enabled''
          else Ok ()
      | None \<Rightarrow> Ok ())"

text \<open>The checks one after the other; the first error is the answer.\<close>

fun first_error :: "(string, unit) result list \<Rightarrow> (string, unit) result" where
  "first_error [] = Ok ()"
| "first_error (Inl e # rs) = Err e"
| "first_error (Inr u # rs) = first_error rs"

definition refuse_if :: "bool \<Rightarrow> string \<Rightarrow> (string, unit) result" where
  "refuse_if b e = (if b then Err e else Ok ())"

definition refuse_found :: "'a option \<Rightarrow> ('a \<Rightarrow> string) \<Rightarrow> (string, unit) result" where
  "refuse_found x f = (case x of Some a \<Rightarrow> Err (f a) | None \<Rightarrow> Ok ())"

definition validate_config :: "gateway_config \<Rightarrow> (string, unit) result" where
  "validate_config c = first_error
     [refuse_if (cf_port c = 0) ''gateway port must be non-zero'',
      refuse_found (first_repeated [] (map cj_id (cf_cron c))) (\<lambda>i. ''duplicate cron job id: '' @ i),
      refuse_found (first_repeated [] (map fst (cf_agents c))) (\<lambda>i. ''duplicate agent id: '' @ i),
      refuse_found (find (\<lambda>b. cf_agents c \<noteq> [] \<and> rb_agent_id b \<notin> fst ` set (cf_agents c)) (cf_routing c))
        (\<lambda>b. ''routing binding references unknown agent: '' @ rb_agent_id b),
      check_embedding ''RAG'' (cf_rag c), check_embedding ''memory'' (cf_memory c),
      check_telegram (cc_telegram (cf_channels c)), check_slack (cc_slack (cf_channels c)),
      refuse_if (cf_drain_timeout_secs c = 0) ''gateway.drain_timeout_secs must be > 0'',
      refuse_found (find (\<lambda>j. trim (cj_schedule j) = []) (cf_cron c))
        (\<lambda>j. ''cron job '' @ [CHR 0x27] @ cj_id j @ [CHR 0x27] @ '' has empty schedule'')]"

section \<open>What changed\<close>

record config_diff =
  df_channels :: bool
  df_routing :: bool
  df_session :: bool
  df_cron :: bool
  df_plugins :: bool
  df_auth :: bool
  df_rag :: bool
  df_memory :: bool
  df_telemetry :: bool
  df_conventions :: bool
  df_hooks :: bool
  df_coding_agents :: bool

definition compute_diff :: "gateway_config \<Rightarrow> gateway_config \<Rightarrow> config_diff" where
  "compute_diff old new =
     \<lparr>df_channels = (cf_channels old \<noteq> cf_channels new), df_routing = (cf_routing old \<noteq> cf_routing new),
      df_session = (cf_session old \<noteq> cf_session new), df_cron = (cf_cron old \<noteq> cf_cron new),
      df_plugins = (cf_plugins old \<noteq> cf_plugins new), df_auth = (cf_auth old \<noteq> cf_auth new),
      df_rag = (cf_rag old \<noteq> cf_rag new), df_memory = (cf_memory old \<noteq> cf_memory new),
      df_telemetry = (cf_telemetry old \<noteq> cf_telemetry new), df_conventions = (cf_conventions old \<noteq> cf_conventions new),
      df_hooks = (cf_hooks old \<noteq> cf_hooks new), df_coding_agents = (cf_coding_agents old \<noteq> cf_coding_agents new)\<rparr>"

definition has_changes :: "config_diff \<Rightarrow> bool" where
  "has_changes d \<longleftrightarrow> df_channels d \<or> df_routing d \<or> df_session d \<or> df_cron d \<or> df_plugins d \<or> df_auth d \<or> df_rag d
     \<or> df_memory d \<or> df_telemetry d \<or> df_conventions d \<or> df_hooks d \<or> df_coding_agents d"

section \<open>The watcher\<close>

record config_watcher =
  cw_last_reload :: int
  cw_current :: gateway_config
  cw_sent :: "gateway_config list"

text \<open>The last reload is set ten seconds into the past at the start.\<close>

definition watcher_start :: "int \<Rightarrow> gateway_config \<Rightarrow> config_watcher" where
  "watcher_start now current = \<lparr>cw_last_reload = now - 10 * 1000000000, cw_current = current, cw_sent = []\<rparr>"

text \<open>An event of the file system: when, whether it is a change or a creation, the file names it is about,
  and what loading the configuration gives at that moment.\<close>

record file_event =
  fe_at :: int
  fe_modifies :: bool
  fe_names :: "string list"
  fe_loaded :: "(string, gateway_config) result"

definition on_file_event :: "string \<Rightarrow> file_event \<Rightarrow> config_watcher \<Rightarrow> config_watcher" where
  "on_file_event config_filename ev w =
     (if \<not> fe_modifies ev \<or> config_filename \<notin> set (fe_names ev) then w
      else if fe_at ev - cw_last_reload w < 2 * 1000000000 then w
      else (let w1 = w\<lparr>cw_last_reload := fe_at ev\<rparr> in
            case fe_loaded ev of
              Err _ \<Rightarrow> w1
            | Ok new \<Rightarrow>
                (case validate_config new of
                   Err _ \<Rightarrow> w1
                 | Ok _ \<Rightarrow>
                     if has_changes (compute_diff (cw_current w1) new)
                     then w1\<lparr>cw_current := new, cw_sent := cw_sent w1 @ [new]\<rparr> else w1)))"

section \<open>Channels\<close>

datatype channel_object = TelegramChannel telegram_config | SlackChannel slack_config | WhatsAppChannel whatsapp_config
  | DiscordChannel discord_config | MatrixChannel matrix_config

type_synonym channel_map = "(channel_key \<times> channel_object) list"

definition add_channel :: "bool \<Rightarrow> channel_type \<Rightarrow> string \<Rightarrow> channel_object \<Rightarrow> channel_map \<Rightarrow> channel_map" where
  "add_channel ready t account ch m =
     (if ready then dict_put \<lparr>ck_channel_type = t, ck_account_id = account\<rparr> ch m else m)"

definition add_telegram :: "telegram_config \<Rightarrow> channel_map \<Rightarrow> channel_map" where
  "add_telegram tg = add_channel (tg_enabled tg \<and> tg_bot_token tg \<noteq> []) Telegram (tg_account_id tg) (TelegramChannel tg)"

definition add_slack :: "slack_config \<Rightarrow> channel_map \<Rightarrow> channel_map" where
  "add_slack sl = add_channel (sl_enabled sl \<and> sl_bot_token sl \<noteq> []) Slack (sl_account_id sl) (SlackChannel sl)"

definition add_opt :: "('a \<Rightarrow> channel_map \<Rightarrow> channel_map) \<Rightarrow> 'a option \<Rightarrow> channel_map \<Rightarrow> channel_map" where
  "add_opt f x m = (case x of Some a \<Rightarrow> f a m | None \<Rightarrow> m)"

definition build_channels :: "channels_config \<Rightarrow> channel_map" where
  "build_channels c =
     add_opt (\<lambda>mx. add_channel (mx_enabled mx \<and> mx_access_token mx \<noteq> [] \<and> mx_homeserver_url mx \<noteq> []) Matrix (mx_account_id mx) (MatrixChannel mx))
       (cc_matrix c)
     (add_opt (\<lambda>dc. add_channel (dc_enabled dc \<and> dc_bot_token dc \<noteq> []) Discord (dc_account_id dc) (DiscordChannel dc)) (cc_discord c)
     (add_opt (\<lambda>wa. add_channel (wa_enabled wa \<and> wa_access_token wa \<noteq> [] \<and> wa_phone_number_id wa \<noteq> []) Whatsapp (wa_account_id wa)
         (WhatsAppChannel wa)) (cc_whatsapp c)
     (fold add_slack (cc_slack_accounts c) (add_opt add_slack (cc_slack c)
     (fold add_telegram (cc_telegram_accounts c) (add_opt add_telegram (cc_telegram c) []))))))"

section \<open>Applying a configuration\<close>

definition access_settings_of :: "gateway_config \<Rightarrow> access_settings" where
  "access_settings_of c = \<lparr>as_auth = map_option fst (cf_auth c), as_telegram = map_option tg_dm (cc_telegram (cf_channels c)),
     as_slack = map_option sl_dm (cc_slack (cf_channels c))\<rparr>"

definition default_agent :: "gateway_config \<Rightarrow> string" where
  "default_agent c = (case find (\<lambda>(i, default, r). default) (cf_agents c) of Some (i, _) \<Rightarrow> i | None \<Rightarrow> ''main'')"

text \<open>The components that a reload reaches.\<close>

record live_gateway =
  lv_access :: access_bridge
  lv_cron :: cron_scheduler
  lv_router :: message_router
  lv_channels :: channel_map
  lv_mcp :: mcp_manager
  lv_hooks :: hooks_config
  lv_coding :: "coding_agent_registry option"
  lv_old :: gateway_config

text \<open>\<open>order\<close> is the order in which the paired users come out of their hash set.\<close>

definition apply_reload :: "string list \<Rightarrow> (mcp_server_config \<Rightarrow> launch_outcome) \<Rightarrow> gateway_config \<Rightarrow> live_gateway \<Rightarrow> live_gateway" where
  "apply_reload order launch new g =
     (let d = compute_diff (lv_old g) new in
      if \<not> has_changes d then g
      else g\<lparr>
        lv_access := (if df_auth d then ab_rebuild order (access_settings_of new) (lv_access g) else lv_access g),
        lv_cron := (if df_cron d then reconcile (cf_cron new) (lv_cron g) else lv_cron g),
        lv_router := (if df_routing d then mr_new (cf_routing new) (default_agent new) else lv_router g),
        lv_channels := (if df_channels d then build_channels (cf_channels new) else lv_channels g),
        lv_mcp := (if df_plugins d \<or> cf_mcp_servers new \<noteq> cf_mcp_servers (lv_old g) then mcp_reconcile launch (cf_mcp_servers new) (lv_mcp g) else lv_mcp g),
        lv_hooks := (if df_hooks d then cf_hooks new else lv_hooks g),
        lv_coding := (if df_coding_agents d then map_option (reload_from_config (cf_coding_agents new)) (lv_coding g) else lv_coding g),
        lv_old := new\<rparr>)"

text \<open>The gateway as it starts: every channel that is built is in the map, also one that fails to start.\<close>

definition gateway_start :: "(mcp_server_config \<Rightarrow> launch_outcome) \<Rightarrow> bool \<Rightarrow> string \<Rightarrow> gateway_config \<Rightarrow> live_gateway" where
  "gateway_start launch delegator heartbeat c = \<lparr>lv_access = ab_new (access_settings_of c),
     lv_cron = start_scheduler delegator heartbeat (cf_cron c), lv_router = mr_new (cf_routing c) (default_agent c),
     lv_channels = build_channels (cf_channels c),
     lv_mcp = fold (mcp_connect launch) (cf_mcp_servers c) mcp_new, lv_hooks = cf_hooks c, lv_coding = (if cac_enabled (cf_coding_agents c) then Some (from_config (cf_coding_agents c)) else None), lv_old = c\<rparr>"

definition run_reloads :: "string list \<Rightarrow> (mcp_server_config \<Rightarrow> launch_outcome) \<Rightarrow> gateway_config list \<Rightarrow> live_gateway \<Rightarrow> live_gateway" where
  "run_reloads order launch cs g = fold (apply_reload order launch) cs g"

section \<open>Valid configurations\<close>

lemma first_error_Cons: "first_error (r # rs) = Ok () \<longleftrightarrow> r = Ok () \<and> first_error rs = Ok ()"
  by (cases r) auto

lemma refuse_simps:
  "refuse_if b e = Ok () \<longleftrightarrow> \<not> b" "refuse_found x f = Ok () \<longleftrightarrow> x = None"
  by (auto simp: refuse_if_def refuse_found_def split: option.split)

lemma first_repeated_None: "first_repeated seen xs = None \<longleftrightarrow> distinct xs \<and> set seen \<inter> set xs = {}"
  by (induction xs arbitrary: seen) auto

lemma check_embedding_ok: "check_embedding what section = Ok () \<longleftrightarrow> map_option fst section \<in> {None, Some ''gemini'', Some ''openai''}"
  by (cases "section") (auto simp: check_embedding_def split: if_splits)

text \<open>
  A configuration is accepted exactly if the port and the drain time are not zero, the identifiers of jobs
  and of agents are distinct, routing names known agents where agents are listed, the embedding providers are
  known, the first accounts of Telegram and Slack have their tokens and no schedule is blank.
\<close>

theorem valid_config_exact:
  "validate_config c = Ok () \<longleftrightarrow>
     cf_port c \<noteq> 0 \<and> cf_drain_timeout_secs c \<noteq> 0 \<and> distinct (map cj_id (cf_cron c)) \<and> distinct (map fst (cf_agents c))
     \<and> (cf_agents c = [] \<or> rb_agent_id ` set (cf_routing c) \<subseteq> fst ` set (cf_agents c))
     \<and> map_option fst (cf_rag c) \<in> {None, Some ''gemini'', Some ''openai''}
     \<and> map_option fst (cf_memory c) \<in> {None, Some ''gemini'', Some ''openai''}
     \<and> map_option tg_bot_token (cc_telegram (cf_channels c)) \<noteq> Some []
     \<and> map_option sl_bot_token (cc_slack (cf_channels c)) \<noteq> Some []
     \<and> map_option sl_app_token (cc_slack (cf_channels c)) \<noteq> Some []
     \<and> [] \<notin> trim ` cj_schedule ` set (cf_cron c)"
proof -
  have tg: "check_telegram t = Ok () \<longleftrightarrow> map_option tg_bot_token t \<noteq> Some []" for t
    by (auto simp: check_telegram_def split: option.split)
  have sl: "check_slack t = Ok () \<longleftrightarrow> map_option sl_bot_token t \<noteq> Some [] \<and> map_option sl_app_token t \<noteq> Some []" for t
    by (auto simp: check_slack_def split: option.split)
  have repeated: "first_repeated [] xs = None \<longleftrightarrow> distinct xs" for xs :: "string list"
    by (simp add: first_repeated_None)
  have routed: "find (\<lambda>b. as \<noteq> [] \<and> rb_agent_id b \<notin> ids) bs = None \<longleftrightarrow> as = [] \<or> rb_agent_id ` set bs \<subseteq> ids"
    for as :: "(string \<times> bool \<times> json) list" and ids bs
    by (auto simp: find_None_iff)
  have scheduled: "find (\<lambda>j. trim (cj_schedule j) = []) js = None \<longleftrightarrow> [] \<notin> trim ` cj_schedule ` set js" for js
    by (force simp: find_None_iff)
  have none: "first_error [] = Ok ()" by simp
  show ?thesis
    unfolding validate_config_def first_error_Cons refuse_simps repeated check_embedding_ok tg sl routed scheduled
    by (simp only: none HOL.simp_thms conj_ac)
qed

section \<open>The watcher\<close>

definition watcher_ok :: "gateway_config \<Rightarrow> config_watcher \<Rightarrow> bool" where
  "watcher_ok c0 w \<longleftrightarrow> list_all (\<lambda>c. validate_config c = Ok ()) (cw_sent w) \<and> cw_current w = last (c0 # cw_sent w)"

lemma watcher_ok_parts [simp]:
  "watcher_ok c0 (w\<lparr>cw_last_reload := t\<rparr>) \<longleftrightarrow> watcher_ok c0 w"
  "watcher_ok c0 (w\<lparr>cw_last_reload := t, cw_current := c, cw_sent := cs @ [c]\<rparr>)
     \<longleftrightarrow> list_all (\<lambda>c. validate_config c = Ok ()) (cs @ [c])"
  by (simp_all add: watcher_ok_def)

lemma watcher_ok_sent: "watcher_ok c0 w \<Longrightarrow> list_all (\<lambda>c. validate_config c = Ok ()) (cw_sent w)"
  by (simp add: watcher_ok_def)

lemma watcher_ok_step: "watcher_ok c0 w \<Longrightarrow> watcher_ok c0 (on_file_event n ev w)"
  by (simp add: on_file_event_def Let_def watcher_ok_sent split: sum.split)

lemma watcher_ok_start: "watcher_ok c0 (watcher_start now c0)"
  by (simp add: watcher_ok_def watcher_start_def)

interpretation watcher: operation_machine "watcher_start now c0" "on_file_event n" "watcher_ok c0" for now c0 n
  by unfold_locales (simp_all add: watcher_ok_start watcher_ok_step)

text \<open>
  Whatever is written to the file, the configuration in use is the one at the start or a valid one, and
  the components are sent exactly the configurations that came into use.
\<close>

theorem only_valid_configs_used:
  "let w = fold (on_file_event n) evs (watcher_start now c0)
   in list_all (\<lambda>c. validate_config c = Ok ()) (cw_sent w) \<and> cw_current w = last (c0 # cw_sent w)"
  using watcher.run_ok [of c0 n evs now] by (simp add: watcher_ok_def Let_def)

text \<open>
  A change of the file less than two seconds after one that was looked at is lost: nothing looks at the
  file again until it changes once more, even if the first look met a half-written file.
\<close>

theorem quick_second_write_lost:
  assumes "fe_modifies e1" "n \<in> set (fe_names e1)" "2 * 1000000000 \<le> fe_at e1 - cw_last_reload w"
    and "fe_at e2 - fe_at e1 < 2 * 1000000000"
  shows "on_file_event n e2 (on_file_event n e1 w) = on_file_event n e1 w"
proof -
  have "cw_last_reload (on_file_event n e1 w) = fe_at e1"
    using assms(1-3) by (auto simp: on_file_event_def Let_def split: sum.split)
  then show ?thesis using assms(4) unfolding on_file_event_def [of n e2] by simp
qed

section \<open>What a reload reaches\<close>

lemma no_changes:
  "\<not> has_changes (compute_diff a b) \<longleftrightarrow>
     cf_channels a = cf_channels b \<and> cf_routing a = cf_routing b \<and> cf_session a = cf_session b \<and> cf_cron a = cf_cron b
     \<and> cf_plugins a = cf_plugins b \<and> cf_auth a = cf_auth b \<and> cf_rag a = cf_rag b \<and> cf_memory a = cf_memory b
     \<and> cf_telemetry a = cf_telemetry b \<and> cf_conventions a = cf_conventions b \<and> cf_hooks a = cf_hooks b
     \<and> cf_coding_agents a = cf_coding_agents b"
  by (auto simp: has_changes_def compute_diff_def)

definition configured_job :: "gateway_config \<Rightarrow> string \<Rightarrow> cron_job option" where
  "configured_job c i = map_of (map (\<lambda>j. (cj_id j, j)) (rev (cf_cron c))) i"

definition live_ok :: "gateway_config \<Rightarrow> live_gateway \<Rightarrow> bool" where
  "live_ok c g \<longleftrightarrow> \<not> has_changes (compute_diff (lv_old g) c) \<and> lv_hooks g = cf_hooks c \<and> lv_channels g = build_channels (cf_channels c)
     \<and> mr_bindings (lv_router g) = cf_routing c
     \<and> (\<forall>i. i \<noteq> ''heartbeat'' \<longrightarrow> active_job (lv_cron g) i = configured_job c i)"

lemma live_ok_reload: "live_ok c g \<Longrightarrow> live_ok c' (apply_reload order launch c' g)"
  by (cases "has_changes (compute_diff (lv_old g) c')")
    (auto simp: live_ok_def apply_reload_def Let_def no_changes compute_diff_def active_job_reconcile configured_job_def
      mr_new_def has_changes_def split: option.split)

lemma live_ok_reloads: "live_ok c0 g \<Longrightarrow> live_ok (last (c0 # cs)) (run_reloads order launch cs g)"
proof (induction cs arbitrary: c0 g)
  case (Cons c cs)
  show ?case using Cons.IH [OF live_ok_reload [OF Cons.prems, of c order launch]] by (simp add: run_reloads_def)
qed (simp add: run_reloads_def)

lemma active_job_schedules:
  "active_job (fold schedule_job jobs s) k =
     (case map_of (map (\<lambda>j. (cj_id j, j)) (rev jobs)) k of Some j \<Rightarrow> Some j | None \<Rightarrow> active_job s k)"
  by (induction jobs rule: rev_induct) (simp_all add: active_job_schedule)

lemma active_job_new: "active_job (sch_new d) i = None"
  by (simp add: active_job_def sch_new_def dict_get_def)

lemma active_job_start: "i \<noteq> ''heartbeat'' \<Longrightarrow> active_job (start_scheduler d h jobs) i = map_of (map (\<lambda>j. (cj_id j, j)) (rev jobs)) i"
  by (simp add: start_scheduler_def Let_def active_job_schedules active_job_schedule active_job_new heartbeat_job_def
      split: option.split)

lemma live_ok_start: "live_ok c (gateway_start launch d h c)"
  by (simp add: live_ok_def gateway_start_def no_changes mr_new_def active_job_start configured_job_def)

lemma roles_of_auth: "cf_auth a = cf_auth b \<Longrightarrow> ab_roles (ab_new (access_settings_of a)) = ab_roles (ab_new (access_settings_of b))"
  by (simp add: ab_new_def access_settings_of_def)

definition roles_of_old :: "live_gateway \<Rightarrow> bool" where
  "roles_of_old g \<longleftrightarrow> ab_roles (lv_access g) = ab_roles (ab_new (access_settings_of (lv_old g)))"

lemma roles_of_old_reload: "roles_of_old g \<Longrightarrow> roles_of_old (apply_reload order launch c g)"
proof -
  assume ok: "roles_of_old g"
  show ?thesis
  proof (cases "cf_auth (lv_old g) = cf_auth c")
    case True
    then have "lv_access (apply_reload order launch c g) = lv_access g"
      by (simp add: apply_reload_def Let_def compute_diff_def)
    moreover have "lv_old (apply_reload order launch c g) \<in> {lv_old g, c}" by (simp add: apply_reload_def Let_def)
    ultimately show ?thesis using ok roles_of_auth [OF True] by (auto simp: roles_of_old_def)
  next
    case False
    then have "lv_access (apply_reload order launch c g) = ab_rebuild order (access_settings_of c) (lv_access g)"
      "lv_old (apply_reload order launch c g) = c"
      by (simp_all add: apply_reload_def Let_def compute_diff_def has_changes_def)
    then show ?thesis by (simp add: roles_of_old_def ab_rebuild_def)
  qed
qed

lemma roles_of_old_reloads: "roles_of_old g \<Longrightarrow> roles_of_old (run_reloads order launch cs g)"
proof (induction cs arbitrary: g)
  case (Cons c cs)
  show ?case using Cons.IH [OF roles_of_old_reload [OF Cons.prems, of order launch c]] by (simp add: run_reloads_def)
qed (simp add: run_reloads_def)

text \<open>The default agent of the router is that of some configuration with the routing in use.\<close>

definition default_from :: "gateway_config list \<Rightarrow> live_gateway \<Rightarrow> bool" where
  "default_from cs g \<longleftrightarrow> (\<exists>c\<in>set cs. cf_routing c = mr_bindings (lv_router g) \<and> default_agent c = mr_default_agent_id (lv_router g))"

lemma default_from_reload: "default_from cs g \<Longrightarrow> default_from (cs @ [c]) (apply_reload order launch c g)"
  by (auto simp: default_from_def apply_reload_def Let_def mr_new_def)

lemma default_from_reloads: "default_from ds g \<Longrightarrow> default_from (ds @ cs) (run_reloads order launch cs g)"
proof (induction cs arbitrary: ds g)
  case (Cons c cs)
  show ?case using Cons.IH [OF default_from_reload [OF Cons.prems, of c order launch]] by (simp add: run_reloads_def)
qed (simp add: run_reloads_def)

text \<open>
  C24. After any series of reloads, the webhook settings, the channels, the routing rules, the roles of access control
  and the jobs that run are those of the last configuration; the heartbeat is left out. The default agent is that of
  some configuration of the series with the same routing rules: it only follows when these change.
\<close>

theorem reload_converges:
  "let g = run_reloads order launch cs (gateway_start launch d h c0);
       c = last (c0 # cs)
   in lv_hooks g = cf_hooks c \<and> lv_channels g = build_channels (cf_channels c) \<and> mr_bindings (lv_router g) = cf_routing c
      \<and> ab_roles (lv_access g) = ab_roles (ab_new (access_settings_of c))
      \<and> (\<lambda>i. if i = ''heartbeat'' then None else active_job (lv_cron g) i)
         = (\<lambda>i. if i = ''heartbeat'' then None else configured_job c i)
      \<and> (\<exists>c'\<in>set (c0 # cs). cf_routing c' = cf_routing c \<and> mr_default_agent_id (lv_router g) = default_agent c')"
proof -
  let ?g = "run_reloads order launch cs (gateway_start launch d h c0)"
  have ok: "live_ok (last (c0 # cs)) ?g" by (rule live_ok_reloads [OF live_ok_start])
  have "default_from [c0] (gateway_start launch d h c0)" by (simp add: default_from_def gateway_start_def mr_new_def)
  then have "default_from (c0 # cs) ?g" using default_from_reloads [of "[c0]" _ cs order launch] by simp
  then obtain c' where "c' \<in> set (c0 # cs)" "cf_routing c' = cf_routing (last (c0 # cs))"
      "mr_default_agent_id (lv_router ?g) = default_agent c'"
    using ok unfolding default_from_def live_ok_def by metis
  moreover have "ab_roles (lv_access ?g) = ab_roles (ab_new (access_settings_of (last (c0 # cs))))"
  proof -
    have "roles_of_old ?g" by (rule roles_of_old_reloads) (simp add: roles_of_old_def gateway_start_def)
    moreover have "cf_auth (lv_old ?g) = cf_auth (last (c0 # cs))"
      using ok unfolding live_ok_def no_changes by blast
    ultimately show ?thesis using roles_of_auth unfolding roles_of_old_def by metis
  qed
  ultimately show ?thesis using ok unfolding live_ok_def Let_def by auto
qed

lemma unwatched_unchanged:
  "\<not> has_changes (compute_diff c
     (c\<lparr>cf_mcp_servers := mcp, cf_agents := agents, cf_port := port, cf_drain_timeout_secs := drain, cf_stale_idle_secs := stale,
     cf_rate_limiter := limits, cf_health_monitor := health, cf_tool_approval := approval, cf_encryption_key_file := key, cf_other := other\<rparr>))"
  by (simp add: no_changes)

text \<open>
  A change of the MCP servers, the agents, the port, the drain time and the unlisted sections alone is neither sent by the
  watcher nor applied if it is received.
\<close>

theorem unwatched_sections_ignored:
  "let edited = \<lambda>c. c\<lparr>cf_mcp_servers := mcp, cf_agents := agents, cf_port := port, cf_drain_timeout_secs := drain, cf_stale_idle_secs := stale,
     cf_rate_limiter := limits, cf_health_monitor := health, cf_tool_approval := approval, cf_encryption_key_file := key, cf_other := other\<rparr>
   in apply_reload order launch (edited (lv_old g)) g = g
      \<and> cw_sent (on_file_event n \<lparr>fe_at = t, fe_modifies = True, fe_names = [n], fe_loaded = Ok (edited (cw_current w))\<rparr> w) = cw_sent w"
  by (simp add: apply_reload_def on_file_event_def Let_def unwatched_unchanged split: sum.split)

text \<open>
  New settings for direct messages of the channels, such as a shorter list of allowed senders, reach the channels but not the
  access control, which goes on with the old ones.
\<close>

theorem dm_policy_change_not_enforced:
  "lv_access (apply_reload order launch ((lv_old g)\<lparr>cf_channels := cs\<rparr>) g) = lv_access g"
  by (simp add: apply_reload_def Let_def compute_diff_def)

text \<open>
  A reload that changes the routing forgets the bindings that running agents registered.
\<close>

theorem reload_drops_agent_bindings:
  assumes "cf_routing (lv_old g) \<noteq> cf_routing new"
  shows "mr_agent_bindings (lv_router (apply_reload order launch new g)) = []"
  using assms by (simp add: apply_reload_def Let_def compute_diff_def has_changes_def mr_new_def)

definition plain_config :: gateway_config where
  "plain_config = \<lparr>cf_port = 8080, cf_drain_timeout_secs = 30, cf_agents = [(''main'', True, JNull)],
     cf_channels = \<lparr>cc_telegram = None, cc_slack = None, cc_telegram_accounts = [], cc_slack_accounts = [], cc_whatsapp = None,
       cc_discord = None, cc_matrix = None, cc_signal = None, cc_imessage = None\<rparr>,
     cf_routing = [], cf_session = JNull, cf_hooks = \<lparr>hk_enabled = False, hk_token = None, hk_path = None\<rparr>, cf_cron = [],
     cf_memory = None, cf_rag = None, cf_auth = None, cf_plugins = JNull, cf_conventions = JNull, 
     cf_telemetry = \<lparr>te_retention_days = 7, te_max_file_size_mb = 100, te_rest = JNull\<rparr>, cf_mcp_servers = [],
     cf_coding_agents = default_coding_agents_config, cf_stale_idle_secs = 14400, cf_rate_limiter = default_rate_limit_config,
     cf_health_monitor = default_health_config, cf_tool_approval = \<lparr>apc_require_approval = [], apc_timeout_secs = 120\<rparr>,
     cf_encryption_key_file = None, cf_other = JNull\<rparr>"

definition demo_write :: "int \<Rightarrow> (string, gateway_config) result \<Rightarrow> file_event" where
  "demo_write t c = \<lparr>fe_at = t, fe_modifies = True, fe_names = [''config.json''], fe_loaded = c\<rparr>"

lemma quick_second_write_lost_witness:
  "let w = watcher_start 0 plain_config;
       w1 = on_file_event ''config.json'' (demo_write 5 (Err ''unexpected end of file'')) w;
       new = plain_config\<lparr>cf_hooks := \<lparr>hk_enabled = True, hk_token = None, hk_path = None\<rparr>\<rparr>
   in on_file_event ''config.json'' (demo_write 1000 (Ok new)) w1 = w1"
  using quick_second_write_lost [of "demo_write 5 (Err ''unexpected end of file'')" "''config.json''"
      "watcher_start 0 plain_config" "demo_write 1000 (Ok (plain_config\<lparr>cf_hooks := \<lparr>hk_enabled = True, hk_token = None, hk_path = None\<rparr>\<rparr>))"]
  by (simp add: Let_def demo_write_def watcher_start_def)

definition demo_binding :: routing_binding where
  "demo_binding = \<lparr>rb_agent_id = ''main'', rb_match_rule = \<lparr>rm_channel = Some ''telegram'', rm_account_id = None, rm_peer = None\<rparr>\<rparr>"

lemma reload_drops_agent_bindings_witness:
  "let r = mr_new [] ''main'';
       helper = \<lparr>ab_channel_type = ''slack'', ab_account_id = None, ab_peer_filter = None, ab_agent_id = ''helper''\<rparr>;
       g = (gateway_start demo_launch_ok False [] plain_config)\<lparr>lv_router := r\<lparr>mr_agent_bindings := [helper]\<rparr>\<rparr>
   in mr_agent_bindings (lv_router (apply_reload [] demo_launch_ok (plain_config\<lparr>cf_routing := [demo_binding]\<rparr>) g)) = []"
  using reload_drops_agent_bindings [of "(gateway_start demo_launch_ok False [] plain_config)\<lparr>lv_router := (mr_new [] ''main'')\<lparr>mr_agent_bindings :=
      [\<lparr>ab_channel_type = ''slack'', ab_account_id = None, ab_peer_filter = None, ab_agent_id = ''helper''\<rparr>]\<rparr>\<rparr>"
      "plain_config\<lparr>cf_routing := [demo_binding]\<rparr>" "[]" demo_launch_ok]
  by (simp add: Let_def gateway_start_def plain_config_def)

end
