(* ===== verification/PanelConfig.thy ===== *)
theory PanelConfig
  imports ConfigReload F64
begin

text \<open>
  Handlers of the control panel that change the configuration: \<open>src/control_panel/api.rs\<close> (the whole
  configuration, scheduled tasks, MCP servers), \<open>approvals.rs\<close> and \<open>phase2_api.rs\<close>. The panel works on its own copy of
  the configuration, which is made at start-up (\<open>src/gateway_state.rs\<close>; \<open>settings.rs\<close>, \<open>channels.rs\<close> and
  \<open>agent_setup.rs\<close>, which edit the JSON of the file, renew it from there and are not modelled); the gateway and its watcher have another one,
  and both share the file. The file is the configuration that its text parses to; \<open>disk\<close> says whether a write works.
\<close>

section \<open>State\<close>

record panel_store =
  st_config :: gateway_config
  st_has_path :: bool
  st_file :: gateway_config
  st_scheduler :: "cron_scheduler option"
  st_mcp :: "mcp_manager option"

type_synonym answer = "bool \<times> string"

definition no_path :: answer where "no_path = (False, ''Config file path not configured'')"

definition in_quotes :: "string \<Rightarrow> string" where "in_quotes s = [CHR 0x27] @ s @ [CHR 0x27]"

text \<open>The end that the handlers have in common: write the file, then replace the copy of the panel.\<close>

definition write_config :: "(string, unit) result \<Rightarrow> gateway_config \<Rightarrow> panel_store \<Rightarrow> panel_store \<times> (answer, unit) result" where
  "write_config disk cfg s =
     (case disk of
        Err e \<Rightarrow> (s, Err (False, ''Failed to write config: '' @ e))
      | Ok _ \<Rightarrow> (s\<lparr>st_file := cfg, st_config := cfg\<rparr>, Ok ()))"

definition save_edit :: "(string, unit) result \<Rightarrow> (gateway_config \<Rightarrow> gateway_config) \<Rightarrow> string \<Rightarrow> panel_store \<Rightarrow> panel_store \<times> answer" where
  "save_edit disk edit msg s =
     (if \<not> st_has_path s then (s, no_path)
      else case write_config disk (edit (st_config s)) s of (s1, Err a) \<Rightarrow> (s1, a) | (s1, Ok _) \<Rightarrow> (s1, (True, msg)))"

section \<open>Settings\<close>

definition u64_arg :: "json \<Rightarrow> string \<Rightarrow> int \<Rightarrow> int" where
  "u64_arg payload k d = (case Option.bind (jget payload k) as_u64 of Some n \<Rightarrow> n | None \<Rightarrow> d)"

definition text_arg :: "json \<Rightarrow> string \<Rightarrow> string option" where
  "text_arg payload k = (case Option.bind (jget payload k) as_str of Some t \<Rightarrow> if t = [] then None else Some t | None \<Rightarrow> None)"

text \<open>The product of a float with an integer that a float holds exactly, and the saturating cast to \<open>u64\<close>.\<close>

definition f64_times :: "64 word \<Rightarrow> nat \<Rightarrow> 64 word" where
  "f64_times w n = (if f64_is_finite w then (if f64_units w = 0 then f64_sign (f64_neg w) 0 else f64_of_units (f64_units w * int n)) else w)"

definition f64_to_u64 :: "64 word \<Rightarrow> 64 word" where
  "f64_to_u64 w = (if f64_is_nan w \<or> f64_neg w then 0 else if f64_is_inf w then - 1
     else word_of_int (min (2 ^ 64 - 1) (f64_units w div 2 ^ 1074)))"

definition save_stale_context_config :: "(string, unit) result \<Rightarrow> json \<Rightarrow> panel_store \<Rightarrow> panel_store \<times> answer" where
  "save_stale_context_config disk payload s =
     (let hours = (case Option.bind (jget payload ''idle_threshold_hours'') as_f64 of Some h \<Rightarrow> h | None \<Rightarrow> f64_of_int 4)
      in save_edit disk (\<lambda>c. c\<lparr>cf_stale_idle_secs := f64_to_u64 (f64_times hours 3600)\<rparr>) ''Stale context configuration saved.'' s)"

definition save_rate_limit_config :: "(string, unit) result \<Rightarrow> json \<Rightarrow> panel_store \<Rightarrow> panel_store \<times> answer" where
  "save_rate_limit_config disk payload s =
     save_edit disk (\<lambda>c. c\<lparr>cf_rate_limiter := \<lparr>rl_max_calls = word_of_int (u64_arg payload ''max_calls'' 10),
         rl_window_secs = word_of_int (u64_arg payload ''window_secs'' 5), rl_cooldown_secs = word_of_int (u64_arg payload ''cooldown_secs'' 3),
         rl_max_triggers = word_of_int (u64_arg payload ''max_triggers'' 3)\<rparr>\<rparr>) ''Rate limiter configuration saved.'' s"

definition save_health_monitor_config :: "(string, unit) result \<Rightarrow> json \<Rightarrow> panel_store \<Rightarrow> panel_store \<times> answer" where
  "save_health_monitor_config disk payload s =
     save_edit disk (\<lambda>c. c\<lparr>cf_health_monitor := \<lparr>hc_check_interval_secs = word_of_int (u64_arg payload ''check_interval_secs'' 60),
         hc_failure_threshold = word_of_int (u64_arg payload ''failure_threshold'' 3),
         hc_alert_webhook_url = text_arg payload ''alert_webhook_url'', hc_alert_telegram_admin = text_arg payload ''alert_telegram_admin''\<rparr>\<rparr>)
       ''Health monitor configuration saved.'' s"

definition save_encryption_key_path :: "(string, unit) result \<Rightarrow> json \<Rightarrow> panel_store \<Rightarrow> panel_store \<times> answer" where
  "save_encryption_key_path disk payload s =
     (if \<not> st_has_path s then (s, no_path)
      else case Option.bind (jget payload ''key_path'') as_str of
        None \<Rightarrow> (s, (False, ''Missing '' @ in_quotes ''key_path'' @ '' field.''))
      | Some p \<Rightarrow> save_edit disk (\<lambda>c. c\<lparr>cf_encryption_key_file := Some p\<rparr>) ''Encryption key path saved.'' s)"

definition save_log_rotation_config :: "(string, unit) result \<Rightarrow> json \<Rightarrow> panel_store \<Rightarrow> panel_store \<times> answer" where
  "save_log_rotation_config disk payload s =
     save_edit disk (\<lambda>c. c\<lparr>cf_telemetry := (cf_telemetry c)\<lparr>te_retention_days := word_of_int (u64_arg payload ''retention_days'' 7),
         te_max_file_size_mb := word_of_int (u64_arg payload ''max_file_size_mb'' 100)\<rparr>\<rparr>) ''Log rotation configuration saved.'' s"

definition required_tools :: "json \<Rightarrow> string list" where
  "required_tools payload = (case Option.bind (jget payload ''require_approval'') as_array of Some xs \<Rightarrow> List.map_filter as_str xs | None \<Rightarrow> [])"

definition save_approval_config :: "(string, unit) result \<Rightarrow> json \<Rightarrow> panel_store \<Rightarrow> panel_store \<times> answer" where
  "save_approval_config disk payload s =
     (let enabled = (case Option.bind (jget payload ''enabled'') as_bool of Some b \<Rightarrow> b | None \<Rightarrow> True);
          timeout = u64_arg payload ''timeout_secs'' 120
      in if \<not> st_has_path s then (s, no_path)
         else if timeout < 30 \<or> timeout > 300 then (s, (False, ''Timeout must be between 30 and 300 seconds.''))
         else save_edit disk (\<lambda>c. c\<lparr>cf_tool_approval := \<lparr>apc_require_approval = (if enabled then required_tools payload else []),
                apc_timeout_secs = word_of_int timeout\<rparr>\<rparr>) ''Tool approval configuration saved.'' s)"

definition approval_config_shown :: "panel_store \<Rightarrow> bool \<times> string list \<times> 64 word" where
  "approval_config_shown s =
     (let c = cf_tool_approval (st_config s) in
      (apc_require_approval c \<noteq> [] \<or> apc_timeout_secs c > 0,
       if apc_require_approval c = [] then [''fs_write'', ''fs_delete'', ''shell_exec'', ''run_command''] else apc_require_approval c,
       apc_timeout_secs c))"

text \<open>\<open>parsed\<close> is what JSON and JSON5 make of the text that is saved.\<close>

definition config_save :: "(string, unit) result \<Rightarrow> (string, gateway_config) result \<Rightarrow> panel_store \<Rightarrow> panel_store \<times> answer" where
  "config_save disk parsed s =
     (if \<not> st_has_path s then (s, no_path)
      else case parsed of
        Err e \<Rightarrow> (s, (False, ''Invalid configuration: '' @ e))
      | Ok new \<Rightarrow>
          (case validate_config new of
             Err e \<Rightarrow> (s, (False, ''Configuration validation failed: config validation error: '' @ e))
           | Ok _ \<Rightarrow> save_edit disk (\<lambda>c. new) ''Configuration validated, saved, and reloaded.'' s))"

section \<open>Scheduled tasks\<close>

definition payload_delivery :: "json \<Rightarrow> cron_delivery option" where
  "payload_delivery payload =
     (case jget payload ''delivery'' of
        None \<Rightarrow> None
      | Some d \<Rightarrow>
          (case (Option.bind (jget d ''channel'') as_str, Option.bind (jget d ''target'') as_str) of
             (Some ch, Some t) \<Rightarrow> if ch = [] then None else Some \<lparr>cd_channel = ch, cd_target = t\<rparr>
           | _ \<Rightarrow> None))"

definition reschedule :: "gateway_config \<Rightarrow> panel_store \<Rightarrow> panel_store" where
  "reschedule cfg s = s\<lparr>st_scheduler := map_option (reconcile (cf_cron cfg)) (st_scheduler s)\<rparr>"

definition runs_already :: "string \<Rightarrow> panel_store \<Rightarrow> bool" where
  "runs_already i s = (case st_scheduler s of Some sch \<Rightarrow> is_active sch i | None \<Rightarrow> False)"

definition scheduled_task_create :: "(string, unit) result \<Rightarrow> json \<Rightarrow> panel_store \<Rightarrow> panel_store \<times> answer" where
  "scheduled_task_create disk payload s =
     (let i = trimmed_arg payload ''id''; sched = trimmed_arg payload ''schedule''; msg = trimmed_arg payload ''message'';
          job = \<lparr>cj_id = i, cj_schedule = sched, cj_message = msg, cj_deliver_to = payload_delivery payload,
                 cj_suppress_keyword = text_arg payload ''suppress_keyword'', cj_target = None, cj_workspace = None\<rparr>;
          cfg = (st_config s)\<lparr>cf_cron := cf_cron (st_config s) @ [job]\<rparr>
      in if i = [] \<or> sched = [] \<or> msg = []
         then (s, (False, ''Fields '' @ in_quotes ''id'' @ '', '' @ in_quotes ''schedule'' @ '', and '' @ in_quotes ''message'' @ '' are required.''))
         else if \<not> st_has_path s then (s, no_path)
         else if i \<in> cj_id ` set (cf_cron (st_config s))
         then (s, (False, ''A scheduled task with ID '' @ in_quotes i @ '' already exists.''))
         else if runs_already i s then (s, (False, ''A scheduled task with ID '' @ in_quotes i @ '' is already running.''))
         else case write_config disk cfg s of
             (s1, Err a) \<Rightarrow> (s1, a)
           | (s1, Ok _) \<Rightarrow> (reschedule cfg s1, (True, ''Scheduled task '' @ in_quotes i @ '' created.'')))"

definition scheduled_task_cancel :: "string \<Rightarrow> panel_store \<Rightarrow> panel_store \<times> answer" where
  "scheduled_task_cancel i s =
     (if runs_already i s
      then (s\<lparr>st_scheduler := map_option (cancel_job i) (st_scheduler s)\<rparr>, (True, ''Scheduled task '' @ in_quotes i @ '' paused.''))
      else (s, (False, ''Task '' @ in_quotes i @ '' not found or already paused.'')))"

definition default_heartbeat :: cron_job where
  "default_heartbeat = \<lparr>cj_id = ''heartbeat'', cj_schedule = ''@every 1h'',
     cj_message = ''ask:Read HEARTBEAT.md if it exists. Follow it strictly. If nothing needs attention, reply with just HEARTBEAT_OK.'',
     cj_deliver_to = Some \<lparr>cd_channel = ''telegram'', cd_target = ''last''\<rparr>, cj_suppress_keyword = Some ''HEARTBEAT_OK'',
     cj_target = None, cj_workspace = None\<rparr>"

text \<open>The definition to resume with: that of the configuration, of the scheduler, or the default heartbeat.\<close>

definition job_to_resume :: "string \<Rightarrow> panel_store \<Rightarrow> cron_job option" where
  "job_to_resume i s =
     (case find (\<lambda>j. cj_id j = i) (cf_cron (st_config s)) of
        Some j \<Rightarrow> Some j
      | None \<Rightarrow>
          (case Option.bind (st_scheduler s) (\<lambda>sch. map_option fst (find (\<lambda>(j, st). cj_id j = i) (list_all_jobs sch))) of
             Some j \<Rightarrow> Some j
           | None \<Rightarrow> if i = ''heartbeat'' then Some default_heartbeat else None))"

definition scheduled_task_resume :: "string \<Rightarrow> panel_store \<Rightarrow> panel_store \<times> answer" where
  "scheduled_task_resume i s =
     (case job_to_resume i s of
        Some j \<Rightarrow> (s\<lparr>st_scheduler := map_option (schedule_job j) (st_scheduler s)\<rparr>, (True, ''Scheduled task '' @ in_quotes i @ '' resumed.''))
      | None \<Rightarrow> (s, (False, ''Task '' @ in_quotes i @ '' not found.'')))"

text \<open>A failed write is ignored here: the copy of the panel changes all the same.\<close>

definition scheduled_task_delete :: "(string, unit) result \<Rightarrow> string \<Rightarrow> panel_store \<Rightarrow> panel_store \<times> answer" where
  "scheduled_task_delete disk i s =
     (let known = (case st_scheduler s of Some sch \<Rightarrow> i \<in> cj_id ` fst ` set (list_all_jobs sch) | None \<Rightarrow> False);
          s1 = (if known then s\<lparr>st_scheduler := map_option (cancel_job i) (st_scheduler s)\<rparr> else s);
          cfg = (st_config s1)\<lparr>cf_cron := filter (\<lambda>j. cj_id j \<noteq> i) (cf_cron (st_config s1))\<rparr>;
          listed = st_has_path s1 \<and> length (cf_cron cfg) < length (cf_cron (st_config s1));
          s2 = (if listed
                then reschedule cfg (s1\<lparr>st_file := (case disk of Ok _ \<Rightarrow> cfg | Err _ \<Rightarrow> st_file s1), st_config := cfg\<rparr>) else s1)
      in if \<not> known \<and> \<not> listed then (s2, (False, ''Scheduled task '' @ in_quotes i @ '' not found.''))
         else (s2, (True, ''Scheduled task '' @ in_quotes i @ '' deleted.'')))"

section \<open>MCP servers\<close>

record add_mcp_payload =
  ap_server_id :: string
  ap_transport :: string
  ap_command :: "string option"
  ap_args :: "string list"
  ap_env :: "string dict"
  ap_url :: "string option"
  ap_disabled :: bool

definition payload_transport :: "add_mcp_payload \<Rightarrow> (string, mcp_transport) result" where
  "payload_transport p =
     (if ap_transport p = ''stdio''
      then (case ap_command p of Some c \<Rightarrow> Ok (Stdio c (ap_args p) (ap_env p)) | None \<Rightarrow> Err ''command is required for stdio transport'')
      else if ap_transport p = ''http'' \<or> ap_transport p = ''sse''
      then (case ap_url p of Some u \<Rightarrow> Ok (Sse u) | None \<Rightarrow> Err ''url is required for http/sse transport'')
      else Err (''unknown transport type: '' @ ap_transport p))"

definition reconnect_all :: "(mcp_server_config \<Rightarrow> launch_outcome) \<Rightarrow> gateway_config \<Rightarrow> panel_store \<Rightarrow> panel_store" where
  "reconnect_all launch cfg s = s\<lparr>st_mcp := map_option (mcp_reconcile launch (cf_mcp_servers cfg)) (st_mcp s)\<rparr>"

definition store_servers :: "(mcp_server_config \<Rightarrow> launch_outcome) \<Rightarrow> (string, unit) result \<Rightarrow> mcp_server_config list \<Rightarrow> string
    \<Rightarrow> panel_store \<Rightarrow> panel_store \<times> answer" where
  "store_servers launch disk servers msg s =
     (let cfg = (st_config s)\<lparr>cf_mcp_servers := servers\<rparr> in
      case write_config disk cfg s of (s1, Err a) \<Rightarrow> (s1, a) | (s1, Ok _) \<Rightarrow> (reconnect_all launch cfg s1, (True, msg)))"

definition mcp_add :: "(mcp_server_config \<Rightarrow> launch_outcome) \<Rightarrow> (string, unit) result \<Rightarrow> add_mcp_payload \<Rightarrow> panel_store \<Rightarrow> panel_store \<times> answer" where
  "mcp_add launch disk p s =
     (case payload_transport p of
        Err e \<Rightarrow> (s, (False, e))
      | Ok t \<Rightarrow>
          if \<not> st_has_path s then (s, no_path)
          else store_servers launch disk (filter (\<lambda>c. ms_server_id c \<noteq> ap_server_id p) (cf_mcp_servers (st_config s))
                   @ [\<lparr>ms_server_id = ap_server_id p, ms_transport = t, ms_auth = None, ms_enabled = (\<not> ap_disabled p)\<rparr>])
                 (''MCP server '' @ in_quotes (ap_server_id p) @ '' added.'') s)"

definition mcp_remove :: "(mcp_server_config \<Rightarrow> launch_outcome) \<Rightarrow> (string, unit) result \<Rightarrow> string \<Rightarrow> panel_store \<Rightarrow> panel_store \<times> answer" where
  "mcp_remove launch disk i s =
     (let kept = filter (\<lambda>c. ms_server_id c \<noteq> i) (cf_mcp_servers (st_config s)) in
      if \<not> st_has_path s then (s, no_path)
      else if length kept = length (cf_mcp_servers (st_config s)) then (s, (False, ''MCP server '' @ in_quotes i @ '' not found.''))
      else store_servers launch disk kept (''MCP server '' @ in_quotes i @ '' removed.'') s)"

fun toggle_first :: "string \<Rightarrow> mcp_server_config list \<Rightarrow> mcp_server_config list" where
  "toggle_first i [] = []"
| "toggle_first i (c # cs) = (if ms_server_id c = i then c\<lparr>ms_enabled := \<not> ms_enabled c\<rparr> # cs else c # toggle_first i cs)"

definition mcp_toggle :: "(mcp_server_config \<Rightarrow> launch_outcome) \<Rightarrow> (string, unit) result \<Rightarrow> string \<Rightarrow> panel_store \<Rightarrow> panel_store \<times> answer" where
  "mcp_toggle launch disk i s =
     (if \<not> st_has_path s then (s, no_path)
      else case find (\<lambda>c. ms_server_id c = i) (cf_mcp_servers (st_config s)) of
        None \<Rightarrow> (s, (False, ''MCP server '' @ in_quotes i @ '' not found.''))
      | Some c \<Rightarrow> store_servers launch disk (toggle_first i (cf_mcp_servers (st_config s)))
                    (''MCP server '' @ in_quotes i @ '' '' @ (if ms_enabled c then ''disabled'' else ''enabled'') @ ''.'') s)"

section \<open>Requests\<close>

datatype panel_request =
    SaveStale json | SaveRateLimit json | SaveHealth json | SaveKeyPath json | SaveLogRotation json | SaveApproval json
  | SaveConfig "(string, gateway_config) result"
  | CreateTask json | CancelTask string | ResumeTask string | DeleteTask string
  | AddServer add_mcp_payload | RemoveServer string | ToggleServer string

fun handle :: "(mcp_server_config \<Rightarrow> launch_outcome) \<Rightarrow> (string, unit) result \<Rightarrow> panel_request \<Rightarrow> panel_store \<Rightarrow> panel_store \<times> answer" where
  "handle launch disk (SaveStale p) s = save_stale_context_config disk p s"
| "handle launch disk (SaveRateLimit p) s = save_rate_limit_config disk p s"
| "handle launch disk (SaveHealth p) s = save_health_monitor_config disk p s"
| "handle launch disk (SaveKeyPath p) s = save_encryption_key_path disk p s"
| "handle launch disk (SaveLogRotation p) s = save_log_rotation_config disk p s"
| "handle launch disk (SaveApproval p) s = save_approval_config disk p s"
| "handle launch disk (SaveConfig p) s = config_save disk p s"
| "handle launch disk (CreateTask p) s = scheduled_task_create disk p s"
| "handle launch disk (CancelTask i) s = scheduled_task_cancel i s"
| "handle launch disk (ResumeTask i) s = scheduled_task_resume i s"
| "handle launch disk (DeleteTask i) s = scheduled_task_delete disk i s"
| "handle launch disk (AddServer p) s = mcp_add launch disk p s"
| "handle launch disk (RemoveServer i) s = mcp_remove launch disk i s"
| "handle launch disk (ToggleServer i) s = mcp_toggle launch disk i s"

section \<open>Two copies of the configuration\<close>


text \<open>The handlers that only save an edit.\<close>

lemma save_edit_file: "st_file (fst (save_edit disk edit msg s)) = st_file s \<or> st_file (fst (save_edit disk edit msg s)) = st_config (fst (save_edit disk edit msg s))"
  by (simp add: save_edit_def write_config_def split: sum.split)

lemma save_edit_config:
  "st_config (fst (save_edit disk edit msg s)) = (if st_has_path s \<and> is_ok disk then edit (st_config s) else st_config s)"
  by (simp add: save_edit_def write_config_def is_ok_def split: sum.split)

lemmas edit_defs = save_stale_context_config_def save_rate_limit_config_def save_health_monitor_config_def save_log_rotation_config_def

lemma store_servers_file:
  "st_file (fst (store_servers launch disk servers msg s)) = st_file s
   \<or> st_file (fst (store_servers launch disk servers msg s)) = st_config (fst (store_servers launch disk servers msg s))"
  by (cases disk) (simp_all add: store_servers_def write_config_def reconnect_all_def Let_def)

lemma handle_file: "st_file (fst (handle launch disk r s)) \<in> {st_file s, st_config (fst (handle launch disk r s))}"
proof (cases r)
  case (SaveKeyPath p)
  then show ?thesis using save_edit_file by (auto simp: save_encryption_key_path_def split: option.split)
next
  case (SaveApproval p)
  then show ?thesis using save_edit_file by (auto simp: save_approval_config_def Let_def)
next
  case (SaveConfig p)
  then show ?thesis using save_edit_file by (auto simp: config_save_def split: sum.split)
next
  case (CreateTask p)
  then show ?thesis by (auto simp: scheduled_task_create_def Let_def write_config_def reschedule_def split: sum.split)
next
  case (CancelTask i)
  then show ?thesis by (simp add: scheduled_task_cancel_def)
next
  case (ResumeTask i)
  then show ?thesis by (simp add: scheduled_task_resume_def split: option.split)
next
  case (DeleteTask i)
  then show ?thesis by (auto simp: scheduled_task_delete_def Let_def reschedule_def split: sum.split)
next
  case (AddServer p)
  then show ?thesis using store_servers_file by (auto simp: mcp_add_def split: sum.split)
next
  case (RemoveServer i)
  then show ?thesis using store_servers_file by (auto simp: mcp_remove_def Let_def)
next
  case (ToggleServer i)
  then show ?thesis using store_servers_file by (auto simp: mcp_toggle_def split: option.split)
qed (use save_edit_file in \<open>auto simp: edit_defs Let_def\<close>)

lemma save_edit_blind: "st_config (fst (save_edit disk edit msg (s\<lparr>st_file := f\<rparr>))) = st_config (fst (save_edit disk edit msg s))"
  by (simp add: save_edit_config)

lemma store_servers_blind:
  "st_config (fst (store_servers launch disk servers msg (s\<lparr>st_file := f\<rparr>))) = st_config (fst (store_servers launch disk servers msg s))"
  by (cases disk) (simp_all add: store_servers_def write_config_def reconnect_all_def Let_def)

lemma blind_fields:
  "st_config (s\<lparr>st_file := f\<rparr>) = st_config s" "st_has_path (s\<lparr>st_file := f\<rparr>) = st_has_path s"
  "st_scheduler (s\<lparr>st_file := f\<rparr>) = st_scheduler s" "st_mcp (s\<lparr>st_file := f\<rparr>) = st_mcp s"
  "st_config (s\<lparr>st_config := c\<rparr>) = c" "st_config (s\<lparr>st_scheduler := x\<rparr>) = st_config s" "st_has_path (s\<lparr>st_scheduler := x\<rparr>) = st_has_path s"
  by simp_all

lemma runs_blind [simp]: "runs_already i (s\<lparr>st_file := f\<rparr>) = runs_already i s" "job_to_resume i (s\<lparr>st_file := f\<rparr>) = job_to_resume i s"
  unfolding runs_already_def job_to_resume_def blind_fields by (rule refl)+

lemma create_blind:
  "st_config (fst (scheduled_task_create disk p (s\<lparr>st_file := f\<rparr>))) = st_config (fst (scheduled_task_create disk p s))"
  unfolding scheduled_task_create_def Let_def
  by (cases disk) (simp_all only: write_config_def sum.case prod.case runs_blind blind_fields if_distrib [of fst] if_distrib [of st_config]
      fst_conv reschedule_def)

lemma delete_blind:
  "st_config (fst (scheduled_task_delete disk i (s\<lparr>st_file := f\<rparr>))) = st_config (fst (scheduled_task_delete disk i s))"
  unfolding scheduled_task_delete_def Let_def
  by (simp only: if_distrib [of fst] if_distrib [of st_config] if_distrib [of st_has_path] fst_conv reschedule_def blind_fields)

lemma handle_blind: "st_config (fst (handle launch disk r (s\<lparr>st_file := f\<rparr>))) = st_config (fst (handle launch disk r s))"
proof (cases r)
  case (SaveKeyPath p)
  then show ?thesis by (simp add: save_encryption_key_path_def save_edit_blind split: option.split)
next
  case (SaveApproval p)
  then show ?thesis by (simp add: save_approval_config_def Let_def save_edit_blind)
next
  case (SaveConfig p)
  then show ?thesis by (simp add: config_save_def save_edit_blind split: sum.split)
next
  case (CancelTask i)
  then show ?thesis by (simp add: scheduled_task_cancel_def)
next
  case (ResumeTask i)
  then show ?thesis by (simp add: scheduled_task_resume_def split: option.split)
next
  case (AddServer p)
  then show ?thesis by (simp add: mcp_add_def store_servers_blind split: sum.split)
next
  case (RemoveServer i)
  then show ?thesis by (simp add: mcp_remove_def Let_def store_servers_blind)
next
  case (ToggleServer i)
  then show ?thesis by (simp add: mcp_toggle_def store_servers_blind split: option.split)
qed (simp_all add: edit_defs Let_def save_edit_blind create_blind delete_blind)

text \<open>
  Every request to these handlers leaves the file as it is or overwrites it with the copy of the panel, and this copy
  never depends on what the file says: what was written to the file by others is lost.
\<close>

theorem panel_never_reads_file:
  "st_file (fst (handle launch disk r s)) \<in> {st_file s, st_config (fst (handle launch disk r s))}
   \<and> st_config (fst (handle launch disk r (s\<lparr>st_file := f\<rparr>))) = st_config (fst (handle launch disk r s))"
  by (simp only: handle_file handle_blind HOL.simp_thms)

lemma validate_edits [simp]:
  "validate_config (c\<lparr>cf_rate_limiter := r\<rparr>) = validate_config c" "validate_config (c\<lparr>cf_hooks := h\<rparr>) = validate_config c"
  by (simp_all add: validate_config_def)






definition demo_store :: panel_store where
  "demo_store = \<lparr>st_config = plain_config, st_has_path = True, st_file = plain_config, st_scheduler = None, st_mcp = None\<rparr>"




section \<open>What saved settings change\<close>

lemma reload_same: "\<not> has_changes (compute_diff (lv_old g) c) \<Longrightarrow> apply_reload order launch c g = g"
  by (simp add: apply_reload_def)

text \<open>
  Saving the idle time, the limits of tools, the health checks, the key file or the tool approval in the panel does
  not change anything in the running gateway: a reload with the saved configuration leaves it as it is.
\<close>

theorem panel_settings_not_applied:
  "let s = s0\<lparr>st_config := lv_old g\<rparr>;
       saved = \<lambda>r. st_config (fst (handle launch disk r s))
   in apply_reload order launch (saved (SaveStale p)) g = g \<and> apply_reload order launch (saved (SaveRateLimit p)) g = g
      \<and> apply_reload order launch (saved (SaveHealth p)) g = g \<and> apply_reload order launch (saved (SaveKeyPath p)) g = g
      \<and> apply_reload order launch (saved (SaveApproval p)) g = g"
  unfolding Let_def
  by (intro conjI reload_same) (simp_all add: edit_defs save_encryption_key_path_def save_approval_config_def Let_def save_edit_config no_changes
      split: option.split)

lemma dangerous_match: "tool \<in> set default_dangerous_tools \<Longrightarrow> matches_pattern tool tool"
  by (auto simp: default_dangerous_tools_def matches_pattern_def starts_with_star_def ends_with_star_def suffix_def)

text \<open>
  Switching tool approval off in the panel leaves the four dangerous tools of the default under approval, and the
  panel shows it as switched on.
\<close>

theorem disabled_approval_stays_on:
  assumes "st_has_path s" and "jget payload ''enabled'' = Some (JBool False)"
    and "30 \<le> u64_arg payload ''timeout_secs'' 120" and "u64_arg payload ''timeout_secs'' 120 \<le> 300" and "tool \<in> set default_dangerous_tools"
  shows "let s' = fst (save_approval_config (Ok ()) payload s)
    in check_requires_approval tool (cf_tool_approval (st_config s')) = Required \<and> fst (approval_config_shown s')"
proof -
  let ?t = "u64_arg payload ''timeout_secs'' 120"
  have "\<not> (?t < 30 \<or> ?t > 300)" using assms(3,4) by simp
  then have cfg: "cf_tool_approval (st_config (fst (save_approval_config (Ok ()) payload s))) =
      \<lparr>apc_require_approval = [], apc_timeout_secs = word_of_int ?t\<rparr>"
    using assms(1,2) by (simp add: save_approval_config_def Let_def save_edit_config)
  have "(word_of_int ?t :: 64 word) \<noteq> 0"
  proof
    assume "(word_of_int ?t :: 64 word) = 0"
    then have "uint (word_of_int ?t :: 64 word) = 0" by simp
    then show False using assms(3,4) by (simp add: unsigned_of_int take_bit_int_eq_self)
  qed
  then have "fst (approval_config_shown (fst (save_approval_config (Ok ()) payload s)))"
    unfolding approval_config_shown_def Let_def cfg by (simp add: word_gt_0)
  moreover have "check_requires_approval tool \<lparr>apc_require_approval = [], apc_timeout_secs = word_of_int ?t\<rparr> = Required"
    using assms(5) dangerous_match by (auto simp: check_requires_approval_def)
  ultimately show ?thesis unfolding Let_def cfg by blast
qed

lemma disabled_approval_stays_on_witness:
  "let s' = fst (save_approval_config (Ok ()) (JObj [(''enabled'', JBool False)]) demo_store)
   in check_requires_approval ''shell_exec'' (cf_tool_approval (st_config s')) = Required \<and> fst (approval_config_shown s')"
  by (rule disabled_approval_stays_on) (simp_all add: demo_store_def jget_def u64_arg_def default_dangerous_tools_def)

section \<open>Tasks\<close>

definition active_in :: "cron_scheduler option \<Rightarrow> string \<Rightarrow> cron_job option" where
  "active_in sch i = Option.bind sch (\<lambda>s. active_job s i)"

lemma active_in_reconciled:
  "active_in (map_option (reconcile jobs) (Some sch)) k =
     (case map_of (map (\<lambda>j. (cj_id j, j)) (rev jobs)) k of
        Some j \<Rightarrow> Some j | None \<Rightarrow> if k = ''heartbeat'' then active_job sch k else None)"
  by (simp add: active_in_def active_job_reconcile)

lemma created_task:
  assumes "scheduled_task_create disk payload s = (s', (True, m))"
  shows "st_scheduler s' = map_option (reconcile (cf_cron (st_config s'))) (st_scheduler s)"
    and "cj_id ` set (cf_cron (st_config s')) = insert (trimmed_arg payload ''id'') (cj_id ` set (cf_cron (st_config s)))"
    and "trimmed_arg payload ''id'' \<notin> cj_id ` set (cf_cron (st_config s))"
  using assms unfolding scheduled_task_create_def Let_def write_config_def reschedule_def
  by (auto simp: no_path_def split: if_splits sum.splits)

text \<open>
  A task that an agent has scheduled with its tool stops running as soon as a task is created in the panel: the
  scheduler is reconciled with the copy of the panel, which does not have it.
\<close>

theorem panel_task_cancels_agent_task:
  assumes "task_create None args t = (t', Ok r)" and "ts_scheduler t = Some sch" and "trimmed_arg args ''id'' = k" and "k \<noteq> ''heartbeat''"
    and "k \<notin> cj_id ` set (cf_cron (st_config s))" and "k \<noteq> trimmed_arg payload ''id''"
    and "scheduled_task_create (Ok ()) payload (s\<lparr>st_scheduler := ts_scheduler t'\<rparr>) = (s', (True, m))"
  shows "active_in (ts_scheduler t') k \<noteq> None \<and> active_in (st_scheduler s') k = None"
proof -
  obtain job where t': "ts_scheduler t' = map_option (reconcile (ts_jobs t @ [job])) (ts_scheduler t)" "cj_id job = k"
    using assms(1,3) by (auto simp: task_create_def Let_def store_jobs_def split: if_splits)
  have "active_in (ts_scheduler t') k = Some job"
    unfolding t'(1) assms(2) active_in_reconciled using t'(2) by simp
  moreover have "active_in (st_scheduler s') k = None"
  proof -
    have "map_of (map (\<lambda>j. (cj_id j, j)) (rev (cf_cron (st_config s')))) k = None"
      using assms(5,6) created_task(2) [OF assms(7)] by (auto simp: map_of_eq_None_iff image_iff)
    then show ?thesis
      using created_task(1) [OF assms(7)] assms(2,4) t'(1) active_in_reconciled by simp
  qed
  ultimately show ?thesis by simp
qed

definition demo_task :: "string \<Rightarrow> json" where
  "demo_task i = JObj [(''id'', JStr i), (''schedule'', JStr ''h''), (''message'', JStr ''m'')]"

definition demo_tasks :: task_state where
  "demo_tasks = \<lparr>ts_scheduler = Some (sch_new False), ts_jobs = [], ts_file = []\<rparr>"

lemma demo_task_args:
  "trimmed_arg (demo_task ''a'') ''id'' = ''a''" "trimmed_arg (demo_task ''b'') ''id'' = ''b''"
  "trimmed_arg (demo_task i) ''schedule'' = ''h''" "trimmed_arg (demo_task i) ''message'' = ''m''"
  by (simp_all add: trimmed_arg_def demo_task_def str_param_def jget_def trim_eval)

lemma demo_task_rest: "task_delivery (demo_task i) = None" "jget (demo_task i) ''suppress_keyword'' = None"
  by (simp_all add: task_delivery_def demo_task_def jget_def)

lemma panel_task_cancels_agent_task_witness:
  "let t' = fst (task_create None (demo_task ''a'') demo_tasks);
       s' = fst (scheduled_task_create (Ok ()) (demo_task ''b'') (demo_store\<lparr>st_scheduler := ts_scheduler t'\<rparr>))
   in active_in (ts_scheduler t') ''a'' \<noteq> None \<and> active_in (st_scheduler s') ''a'' = None"
proof -
  obtain t' r where t': "task_create None (demo_task ''a'') demo_tasks = (t', Ok r)"
    unfolding task_create_def Let_def demo_task_args demo_task_rest by (simp add: demo_tasks_def store_jobs_def)
  then have "ts_scheduler t' = Some (schedule_job \<lparr>cj_id = ''a'', cj_schedule = ''h'', cj_message = ''m'', cj_deliver_to = None,
      cj_suppress_keyword = None, cj_target = None, cj_workspace = None\<rparr> (sch_new False))"
    by (auto simp: task_create_def demo_task_args demo_task_rest Let_def demo_tasks_def store_jobs_def reconcile_def sch_new_def dict_keys_def
        add_or_update_def)
  then have "\<not> runs_already ''b'' (demo_store\<lparr>st_scheduler := ts_scheduler t'\<rparr>)"
    by (simp add: runs_already_def is_active_iff active_job_schedule active_job_new)
  then obtain s' m where s': "scheduled_task_create (Ok ()) (demo_task ''b'') (demo_store\<lparr>st_scheduler := ts_scheduler t'\<rparr>) = (s', (True, m))"
    by (simp add: scheduled_task_create_def demo_task_args Let_def write_config_def demo_store_def plain_config_def)
  show ?thesis
    using panel_task_cancels_agent_task [OF t' _ demo_task_args(1) _ _ _ s'] t' s'
    by (simp add: demo_tasks_def demo_task_args demo_store_def plain_config_def)
qed

text \<open>
  If the file cannot be written, deleting a task of the configuration is reported as done all the same, while the
  file still has the task, so that it is back after the next start.
\<close>

theorem unwritten_delete_reported:
  assumes "st_has_path s" and "i \<in> cj_id ` set (cf_cron (st_config s))"
  shows "fst (snd (scheduled_task_delete (Err e) i s)) \<and> st_file (fst (scheduled_task_delete (Err e) i s)) = st_file s"
proof -
  have "length (filter (\<lambda>j. cj_id j \<noteq> i) (cf_cron (st_config s))) < length (cf_cron (st_config s))"
    using assms(2) by (auto intro: length_filter_less)
  then show ?thesis
    using assms(1) unfolding scheduled_task_delete_def Let_def reschedule_def by (simp split: if_split)
qed

lemma unwritten_delete_reported_witness:
  "let s = demo_store\<lparr>st_config := plain_config\<lparr>cf_cron := [default_heartbeat]\<rparr>\<rparr>
   in fst (snd (scheduled_task_delete (Err ''disk full'') ''heartbeat'' s)) \<and> st_file (fst (scheduled_task_delete (Err ''disk full'') ''heartbeat'' s)) = st_file s"
  unfolding Let_def by (rule unwritten_delete_reported) (simp_all add: demo_store_def default_heartbeat_def)

section \<open>MCP servers\<close>

lemma toggle_twice: "toggle_first i (toggle_first i cs) = cs"
  by (induction i cs rule: toggle_first.induct) auto

lemma toggle_none: "find (\<lambda>c. ms_server_id c = i) cs = None \<Longrightarrow> toggle_first i cs = cs"
  by (induction cs) (auto split: if_splits)

lemma toggle_config:
  "st_config (fst (mcp_toggle launch (Ok ()) i s)) = (if st_has_path s
     then (st_config s)\<lparr>cf_mcp_servers := toggle_first i (cf_mcp_servers (st_config s))\<rparr> else st_config s)"
  by (simp add: mcp_toggle_def store_servers_def write_config_def reconnect_all_def Let_def toggle_none split: option.split)

lemma toggle_path: "st_has_path (fst (mcp_toggle launch (Ok ()) i s)) = st_has_path s"
  by (simp add: mcp_toggle_def store_servers_def write_config_def reconnect_all_def Let_def split: option.split)

text \<open>
  Switching a server twice gives the configuration back, whatever its processes do.
\<close>

theorem toggle_roundtrip:
  "st_config (fst (mcp_toggle launch' (Ok ()) i (fst (mcp_toggle launch (Ok ()) i s)))) = st_config s"
  by (simp add: toggle_config toggle_path toggle_twice)

end
