(* ===== verification/PanelDelegation.thy ===== *)
theory PanelDelegation
  imports Json
begin

text \<open>
  \<open>src/control_panel/delegation.rs\<close>: which agent may delegate to which, the breadth-first search for a circular
  chain, and the three handlers of the control panel. The store is the list behind its lock; the time of a rule is
  the text that the clock gives.
\<close>

section \<open>Rules and the search\<close>

record delegation_rule =
  dr_caller_id :: string
  dr_target_id :: string
  dr_created_at :: string

type_synonym delegation_store = "delegation_rule list"

definition targets_of :: "delegation_store \<Rightarrow> string \<Rightarrow> string list" where
  "targets_of rules node = map dr_target_id (filter (\<lambda>r. dr_caller_id r = node) rules)"

definition unseen_callers :: "delegation_store \<Rightarrow> string list \<Rightarrow> nat" where
  "unseen_callers rules visited = card (dr_caller_id ` set rules - set visited)"

lemma unseen_callers_step:
  assumes "node \<notin> set visited"
  shows "unseen_callers rules (node # visited) < unseen_callers rules visited
    \<or> unseen_callers rules (node # visited) = unseen_callers rules visited \<and> targets_of rules node = []"
proof (cases "node \<in> dr_caller_id ` set rules")
  case True
  then have "dr_caller_id ` set rules - set (node # visited) \<subset> dr_caller_id ` set rules - set visited"
    using assms by auto
  then show ?thesis by (simp add: unseen_callers_def psubset_card_mono)
next
  case False
  then have "dr_caller_id ` set rules - set (node # visited) = dr_caller_id ` set rules - set visited" by auto
  then show ?thesis using False by (auto simp: unseen_callers_def targets_of_def filter_empty_conv)
qed

text \<open>The queue with the visited nodes. A node that calls nobody leaves the measure of the callers as it is and
  shortens the queue.\<close>

function cycle_search :: "delegation_store \<Rightarrow> string \<Rightarrow> string list \<Rightarrow> string list \<Rightarrow> bool" where
  "cycle_search rules caller visited [] = False"
| "cycle_search rules caller visited (node # queue) =
     (if node = caller then True
      else if node \<in> set visited then cycle_search rules caller visited queue
      else cycle_search rules caller (node # visited) (queue @ targets_of rules node))"
  by pat_completeness auto
termination
  by (relation "measures [\<lambda>(rules, c, visited, queue). unseen_callers rules visited, \<lambda>(rules, c, visited, queue). length queue]")
    (auto dest: unseen_callers_step)

definition would_create_cycle :: "delegation_store \<Rightarrow> string \<Rightarrow> string \<Rightarrow> bool" where
  "would_create_cycle rules caller target \<longleftrightarrow> caller = target \<or> cycle_search rules caller [] [target]"

section \<open>Handlers\<close>

definition answer_json :: "bool \<Rightarrow> string \<Rightarrow> json" where
  "answer_json ok msg = JObj [(''ok'', JBool ok), (''message'', JStr msg)]"

definition right_arrow :: string where "right_arrow = utf8 [0xE2, 0x86, 0x92]"

definition rule_json :: "delegation_rule \<Rightarrow> json" where
  "rule_json r = JObj [(''caller_id'', JStr (dr_caller_id r)), (''target_id'', JStr (dr_target_id r)), (''created_at'', JStr (dr_created_at r))]"

definition api_delegation_list :: "delegation_store \<Rightarrow> json" where
  "api_delegation_list store = JObj [(''ok'', JBool True), (''data'', JArr (map rule_json store))]"

definition same_pair :: "string \<Rightarrow> string \<Rightarrow> delegation_rule \<Rightarrow> bool" where
  "same_pair caller target r \<longleftrightarrow> dr_caller_id r = caller \<and> dr_target_id r = target"

definition api_delegation_add :: "string \<Rightarrow> string \<Rightarrow> string \<Rightarrow> delegation_store \<Rightarrow> delegation_store \<times> json" where
  "api_delegation_add now caller_arg target_arg store =
     (let caller = trim caller_arg; target = trim target_arg in
      if caller = [] \<or> target = [] then (store, answer_json False ''Both caller_id and target_id are required'')
      else if list_ex (same_pair caller target) store then (store, answer_json False ''Delegation permission already exists'')
      else if would_create_cycle store caller target
      then (store, answer_json False (''Cannot add delegation '' @ caller @ '' '' @ right_arrow @ '' '' @ target
             @ '': would create a circular chain''))
      else (store @ [\<lparr>dr_caller_id = caller, dr_target_id = target, dr_created_at = now\<rparr>],
            answer_json True (''Delegation permission added: '' @ caller @ '' '' @ right_arrow @ '' '' @ target)))"

definition api_delegation_remove :: "string \<Rightarrow> string \<Rightarrow> delegation_store \<Rightarrow> delegation_store \<times> json" where
  "api_delegation_remove caller_arg target_arg store =
     (let caller = trim caller_arg; target = trim target_arg;
          kept = filter (\<lambda>r. \<not> same_pair caller target r) store
      in if length kept < length store
         then (kept, answer_json True (''Delegation permission removed: '' @ caller @ '' '' @ right_arrow @ '' '' @ target))
         else (kept, answer_json False ''Delegation permission not found''))"

section \<open>The search decides reachability\<close>

definition delegates :: "delegation_store \<Rightarrow> (string \<times> string) set" where
  "delegates rules = (\<lambda>r. (dr_caller_id r, dr_target_id r)) ` set rules"

lemma targets_of_delegates: "t \<in> set (targets_of rules n) \<longleftrightarrow> (n, t) \<in> delegates rules"
  by (auto simp: targets_of_def delegates_def)

lemma leaves_visited:
  assumes "(v, c) \<in> E\<^sup>*" and "v \<in> V" and "c \<notin> V" and "\<And>a b. a \<in> V \<Longrightarrow> (a, b) \<in> E \<Longrightarrow> b \<in> V \<union> Q"
  shows "\<exists>q \<in> Q. (q, c) \<in> E\<^sup>*"
  using assms(1,2)
proof (induction rule: converse_rtrancl_induct)
  case base
  then show ?case using assms(3) by simp
next
  case (step a b)
  then show ?case using assms(4) [of a b] by blast
qed

lemma cycle_search_reaches:
  assumes "c \<notin> set visited" and "\<And>a b. a \<in> set visited \<Longrightarrow> (a, b) \<in> delegates rules \<Longrightarrow> b \<in> set visited \<union> set queue"
  shows "cycle_search rules c visited queue \<longleftrightarrow> (\<exists>n \<in> set queue. (n, c) \<in> (delegates rules)\<^sup>*)"
  using assms
proof (induction rules c visited queue rule: cycle_search.induct)
  case (2 rules c visited node queue)
  consider "node = c" | "node \<noteq> c" "node \<in> set visited" | "node \<noteq> c" "node \<notin> set visited" by blast
  then show ?case
  proof cases
    case 1
    then show ?thesis by auto
  next
    case 2
    have closed: "b \<in> set visited \<union> set queue" if "a \<in> set visited" "(a, b) \<in> delegates rules" for a b
      using "2.prems"(2) [OF that] 2 by auto
    have "\<exists>n \<in> set queue. (n, c) \<in> (delegates rules)\<^sup>*" if "(node, c) \<in> (delegates rules)\<^sup>*"
      by (rule leaves_visited [OF that 2(2) "2.prems"(1)]) (use closed in blast)
    moreover have "cycle_search rules c visited queue \<longleftrightarrow> (\<exists>n \<in> set queue. (n, c) \<in> (delegates rules)\<^sup>*)"
      by (rule "2.IH"(1) [OF 2 "2.prems"(1)]) (use closed in blast)
    ultimately show ?thesis using 2 by auto
  next
    case 3
    have closed: "b \<in> set (node # visited) \<union> set (queue @ targets_of rules node)"
      if "a \<in> set (node # visited)" "(a, b) \<in> delegates rules" for a b
      using "2.prems"(2) [of a b] that by (auto simp: targets_of_delegates)
    have "(node, c) \<in> (delegates rules)\<^sup>* \<longleftrightarrow> (\<exists>t \<in> set (targets_of rules node). (t, c) \<in> (delegates rules)\<^sup>*)"
      unfolding targets_of_delegates Bex_def using 3(1) by (meson converse_rtranclE converse_rtrancl_into_rtrancl)
    moreover have "cycle_search rules c (node # visited) (queue @ targets_of rules node)
        \<longleftrightarrow> (\<exists>n \<in> set (queue @ targets_of rules node). (n, c) \<in> (delegates rules)\<^sup>*)"
      by (rule "2.IH"(2) [OF 3]) (use closed 3 "2.prems"(1) in \<open>auto\<close>)
    ultimately show ?thesis using 3 by auto
  qed
qed simp

text \<open>
  C26. The search says that a permission would close a circle exactly if the target can already delegate to the
  caller over any number of permissions.
\<close>

theorem cycle_search_exact:
  "would_create_cycle rules caller target \<longleftrightarrow> (target, caller) \<in> (delegates rules)\<^sup>*"
  using cycle_search_reaches [of caller "[]" rules "[target]"] by (auto simp: would_create_cycle_def)

section \<open>No circular chains\<close>

datatype delegation_op = AddRule string string string | RemoveRule string string

fun delegation_step :: "delegation_op \<Rightarrow> delegation_store \<Rightarrow> delegation_store" where
  "delegation_step (AddRule now c t) store = fst (api_delegation_add now c t store)"
| "delegation_step (RemoveRule c t) store = fst (api_delegation_remove c t store)"

definition delegations_ok :: "delegation_store \<Rightarrow> bool" where
  "delegations_ok store \<longleftrightarrow> acyclic (delegates store) \<and> distinct (map (\<lambda>r. (dr_caller_id r, dr_target_id r)) store)"

lemma delegates_append: "delegates (store @ [r]) = insert (dr_caller_id r, dr_target_id r) (delegates store)"
  by (auto simp: delegates_def)

lemma delegations_ok_add: "delegations_ok store \<Longrightarrow> delegations_ok (fst (api_delegation_add now c t store))"
  using cycle_search_exact [of store "trim c" "trim t"]
  by (auto simp: api_delegation_add_def Let_def delegations_ok_def delegates_append acyclic_insert same_pair_def list_ex_iff)

lemma delegations_ok_remove: "delegations_ok store \<Longrightarrow> delegations_ok (fst (api_delegation_remove c t store))"
  unfolding delegations_ok_def api_delegation_remove_def Let_def
  by (auto simp: delegates_def distinct_map inj_on_def intro: acyclic_subset)

lemma delegations_ok_step: "delegations_ok store \<Longrightarrow> delegations_ok (delegation_step op store)"
  by (cases op) (simp_all add: delegations_ok_add delegations_ok_remove)

interpretation delegation: operation_machine "[]" delegation_step delegations_ok
  by unfold_locales (simp_all add: delegations_ok_step, simp add: delegations_ok_def delegates_def acyclic_def)

text \<open>
  C19. Whatever permissions are added and removed, no agent can delegate to itself over any number of agents.
\<close>

theorem delegations_acyclic: "acyclic (delegates (fold delegation_step ops []))"
  using delegation.run_ok [of ops] by (simp add: delegations_ok_def)

text \<open>
  A permission is refused exactly if a name is blank, if it is there already or if it would close a circle, and
  what was permitted before stays permitted.
\<close>

theorem delegation_added_exact:
  "fst (api_delegation_add now c t store) =
     (if trim c = [] \<or> trim t = [] \<or> (trim c, trim t) \<in> delegates store \<or> (trim t, trim c) \<in> (delegates store)\<^sup>*
      then store else store @ [\<lparr>dr_caller_id = trim c, dr_target_id = trim t, dr_created_at = now\<rparr>])"
  using cycle_search_exact [of store "trim c" "trim t"]
  by (force simp: api_delegation_add_def Let_def same_pair_def list_ex_iff delegates_def)

end
