(* ===== verification/PanelAgents.thy ===== *)
theory PanelAgents
  imports AgentManagement
begin

text \<open>
  The agent pages of the control panel: \<open>src/control_panel/agents.rs\<close>, the log buffers of
  \<open>src/control_panel/mod.rs\<close> and the events of \<open>src/audit.rs\<close>. The handlers work on the registry of the same
  gateway that the agent management tools drive, whose state is that of \<open>AgentManagement\<close>.
\<close>

section \<open>Logs and audit\<close>

record log_entry =
  le_timestamp :: string
  le_level :: string
  le_message :: string
  le_target :: "string option"

datatype audit_event_type = ToolAccess | AgentAccess | Login | PairingAttempt | PermissionCheck

datatype audit_outcome = AuditAllowed | AuditDenied | AuditError

record audit_event =
  ae_timestamp :: string
  ae_user_id :: string
  ae_session_id :: "string option"
  ae_channel_type :: "channel_type option"
  ae_event_type :: audit_event_type
  ae_resource :: string
  ae_outcome :: audit_outcome
  ae_details :: "string option"

datatype ws_event = WsLog log_entry | WsAgentState string string

text \<open>The sink, if there is one, holds the events; \<open>pn_ws\<close> are the events sent to the browsers.\<close>

record 'doc panel =
  pn_gateway :: "'doc agents_state"
  pn_has_registry :: bool
  pn_agent_logs :: "log_entry list dict"
  pn_logs :: "log_entry list"
  pn_audit :: "audit_event list option"
  pn_ws :: "ws_event list"

definition capped :: "nat \<Rightarrow> 'a list \<Rightarrow> 'a list" where
  "capped n xs = drop (length xs - n) xs"

definition push_agent_log :: "string \<Rightarrow> log_entry \<Rightarrow> 'doc panel \<Rightarrow> 'doc panel" where
  "push_agent_log i e p =
     (let logs = (case dict_get (pn_agent_logs p) i of Some l \<Rightarrow> l | None \<Rightarrow> []) @ [e] in
      p\<lparr>pn_agent_logs := dict_put i (if length logs > 200 then capped 200 logs else logs) (pn_agent_logs p)\<rparr>)"

definition agent_logs :: "string \<Rightarrow> nat \<Rightarrow> 'doc panel \<Rightarrow> log_entry list" where
  "agent_logs i limit p = (case dict_get (pn_agent_logs p) i of Some l \<Rightarrow> capped limit l | None \<Rightarrow> [])"

definition push_log :: "log_entry \<Rightarrow> 'doc panel \<Rightarrow> 'doc panel" where
  "push_log e p =
     (let logs = pn_logs p @ [e] in
      p\<lparr>pn_ws := pn_ws p @ [WsLog e], pn_logs := (if length logs > 1000 then capped 1000 logs else logs)\<rparr>)"

definition recent_logs :: "nat \<Rightarrow> 'doc panel \<Rightarrow> log_entry list" where
  "recent_logs limit p = capped limit (pn_logs p)"

definition send_ws :: "ws_event \<Rightarrow> 'doc panel \<Rightarrow> 'doc panel" where
  "send_ws e p = p\<lparr>pn_ws := pn_ws p @ [e]\<rparr>"

text \<open>The clock as text, how the standard library quotes a text, and the input and output of the registry.\<close>

record 'doc panel_env =
  pv_io :: "'doc mgmt_io"
  pv_time :: string
  pv_debug :: "string \<Rightarrow> string"

definition em_dash :: string where "em_dash = utf8 [0xE2, 0x80, 0x94]"

definition with_details :: "string \<Rightarrow> string option \<Rightarrow> string" where
  "with_details sep details = (case details of Some d \<Rightarrow> sep @ d | None \<Rightarrow> [])"

definition log_level :: "string \<Rightarrow> string" where
  "log_level outcome = (if outcome = ''error'' then ''ERROR'' else ''INFO'')"

definition outcome_of :: "string \<Rightarrow> audit_outcome" where
  "outcome_of outcome = (if outcome = ''allowed'' \<or> outcome = ''success'' then AuditAllowed
     else if outcome = ''denied'' then AuditDenied else AuditError)"

definition audit_agent_op :: "'doc panel_env \<Rightarrow> string \<Rightarrow> string \<Rightarrow> string \<Rightarrow> string option \<Rightarrow> 'doc panel \<Rightarrow> 'doc panel" where
  "audit_agent_op env i action outcome details p =
     (let entry = (\<lambda>msg. \<lparr>le_timestamp = pv_time env, le_level = log_level outcome, le_message = msg,
                           le_target = Some ''agent_management''\<rparr>);
          p1 = push_agent_log i (entry (''['' @ action @ ''] '' @ outcome @ '' '' @ em_dash @ '' '' @ i @ with_details '': '' details)) p;
          p2 = push_log (entry (''agent.'' @ action @ '': '' @ outcome @ '' '' @ em_dash @ '' '' @ i @ with_details '': '' details)) p1
      in p2\<lparr>pn_audit := map_option (\<lambda>evs. evs @ [\<lparr>ae_timestamp = pv_time env, ae_user_id = ''system'', ae_session_id = None,
             ae_channel_type = None, ae_event_type = AgentAccess, ae_resource = ''agent:'' @ i, ae_outcome = outcome_of outcome,
             ae_details = Some (''action='' @ action @ with_details '', '' details)\<rparr>]) (pn_audit p2)\<rparr>)"

section \<open>Texts of the registry\<close>

definition state_debug :: "(string \<Rightarrow> string) \<Rightarrow> lifecycle_state \<Rightarrow> string" where
  "state_debug dbg st = (case st of Created \<Rightarrow> ''Created'' | Starting \<Rightarrow> ''Starting'' | Running \<Rightarrow> ''Running''
     | Stopping \<Rightarrow> ''Stopping'' | Stopped \<Rightarrow> ''Stopped'' | ErrorState m \<Rightarrow> ''Error { message: '' @ dbg m @ '' }'')"

definition quoted :: "string \<Rightarrow> string" where
  "quoted s = [CHR 0x27] @ s @ [CHR 0x27]"

definition long_arrow :: string where "long_arrow = utf8 [0xE2, 0x86, 0x92]"

definition registry_error_text :: "(string \<Rightarrow> string) \<Rightarrow> registry_error \<Rightarrow> string" where
  "registry_error_text dbg e = (case e of
       AlreadyExists i \<Rightarrow> ''agent with id '' @ quoted i @ '' already exists''
     | SystemAgentExists \<Rightarrow> ''a system agent already exists''
     | AgentNotFound i \<Rightarrow> ''agent '' @ quoted i @ '' not found''
     | InvalidTransition i a b \<Rightarrow> ''invalid state transition for '' @ quoted i @ '': '' @ state_debug dbg a @ '' '' @ long_arrow
         @ '' '' @ state_debug dbg b
     | IdMismatch a b \<Rightarrow> ''config id '' @ quoted a @ '' does not match agent id '' @ quoted b
     | CannotDelete i st \<Rightarrow> ''cannot delete agent '' @ quoted i @ '' in state '' @ state_debug dbg st @ '' '' @ em_dash
         @ '' must be Stopped or Error''
     | IoFailed f \<Rightarrow> ''writing '' @ dbg f
     | ParseFailed f \<Rightarrow> ''parsing '' @ dbg f)"

section \<open>Handlers\<close>

type_synonym settings_response = "bool \<times> string"

record create_payload =
  cp_name :: string
  cp_model :: string
  cp_description :: string
  cp_api_key_env :: string
  cp_instruction :: string
  cp_tools :: "string list"
  cp_channel_bindings :: "(string \<times> string option) list"
  cp_agent_type :: string
  cp_auto_start :: bool

definition no_registry :: settings_response where
  "no_registry = (False, ''Agent registry not available'')"

definition agent_type_of :: "string \<Rightarrow> agent_type" where
  "agent_type_of t = (if t = ''Sequential'' then SequentialAgent else if t = ''Parallel'' then ParallelAgent
     else if t = ''Loop'' then LoopAgent else if t = ''Router'' then RouterAgent else if t = ''Graph'' then GraphAgent else LlmAgent)"

definition panel_config :: "(string \<Rightarrow> string) \<Rightarrow> create_payload \<Rightarrow> agent_config" where
  "panel_config unicode c =
     (let name = trim (cp_name c) in
      \<lparr>ac_id = slug unicode name, ac_name = name, ac_description = cp_description c, ac_agent_type = agent_type_of (cp_agent_type c),
       ac_model = cp_model c, ac_api_key_env = cp_api_key_env c, ac_instruction = cp_instruction c, ac_tools = cp_tools c,
       ac_action_nodes = [], ac_workflow_edges = [], ac_sub_agents = [], ac_role = \<lparr>role_allow = cp_tools c, role_deny = []\<rparr>,
       ac_channel_bindings = map (\<lambda>(t, a). \<lparr>cb_channel_type = t, cb_account_id = a, cb_peer_filter = None\<rparr>) (cp_channel_bindings c),
       ac_auto_start = cp_auto_start c, ac_temperature = None, ac_max_output_tokens = None, ac_model_override = None\<rparr>)"

definition pn_registry :: "'doc panel \<Rightarrow> 'doc registry" where
  "pn_registry p = ga_registry (pn_gateway p)"

definition set_registry :: "'doc registry \<Rightarrow> 'doc panel \<Rightarrow> 'doc panel" where
  "set_registry rg p = p\<lparr>pn_gateway := (pn_gateway p)\<lparr>ga_registry := rg\<rparr>\<rparr>"

definition api_agents_create :: "'doc panel_env \<Rightarrow> create_payload \<Rightarrow> 'doc panel \<Rightarrow> 'doc panel \<times> settings_response" where
  "api_agents_create env c p =
     (let io = pv_io env; cfg = panel_config (io_unicode_slug io) c in
      if \<not> pn_has_registry p then (p, no_registry)
      else if ac_name cfg = [] then (p, (False, ''Agent name is required''))
      else if trim (cp_model c) = [] then (p, (False, ''Model is required''))
      else if length (ac_name cfg) > 128 then (p, (False, ''Agent name must be 128 characters or fewer''))
      else case create_agent (io_ser io) (io_write io 0) (io_now io) cfg (pn_registry p) of
        (rg, Inr i) \<Rightarrow> (audit_agent_op env i ''create'' ''success'' (Some (''model='' @ cp_model c)) (set_registry rg p),
                        (True, ''Agent '' @ quoted i @ '' created.''))
      | (rg, Inl e) \<Rightarrow> (audit_agent_op env (ac_id cfg) ''create'' ''error'' (Some (registry_error_text (pv_debug env) e)) (set_registry rg p),
                        (False, ''Failed to create agent: '' @ registry_error_text (pv_debug env) e)))"

text \<open>A transition of the handler: write \<open>n\<close> to the file of the agent.\<close>

definition panel_transition :: "'doc panel_env \<Rightarrow> nat \<Rightarrow> string \<Rightarrow> lifecycle_state \<Rightarrow> 'doc panel
    \<Rightarrow> 'doc panel \<times> (registry_error, unit) result" where
  "panel_transition env n i st p =
     (let io = pv_io env; (rg, r) = transition (io_ser io) (io_write io n) (io_now io) i st (pn_registry p)
      in (set_registry rg p, r))"

definition api_agents_start :: "'doc panel_env \<Rightarrow> string \<Rightarrow> 'doc panel \<Rightarrow> 'doc panel \<times> settings_response" where
  "api_agents_start env i p =
     (if \<not> pn_has_registry p then (p, no_registry)
      else case panel_transition env 0 i Starting p of
        (p1, Inr _) \<Rightarrow>
          (let p2 = send_ws (WsAgentState i ''starting'') (audit_agent_op env i ''start'' ''success'' (Some ''transitioning to Starting'') p1);
               p3 = send_ws (WsAgentState i ''running'') (fst (panel_transition env 1 i Running p2))
           in (audit_agent_op env i ''start'' ''success'' (Some ''state=Running'') p3, (True, ''Agent '' @ quoted i @ '' started.'')))
      | (p1, Inl e) \<Rightarrow> (audit_agent_op env i ''start'' ''error'' (Some (registry_error_text (pv_debug env) e)) p1,
                        (False, ''Failed to start agent: '' @ registry_error_text (pv_debug env) e)))"

definition api_agents_stop :: "'doc panel_env \<Rightarrow> string \<Rightarrow> 'doc panel \<Rightarrow> 'doc panel \<times> settings_response" where
  "api_agents_stop env i p =
     (if \<not> pn_has_registry p then (p, no_registry)
      else case panel_transition env 0 i Stopping p of
        (p1, Inr _) \<Rightarrow>
          (let p2 = send_ws (WsAgentState i ''stopped'') (fst (panel_transition env 1 i Stopped (send_ws (WsAgentState i ''stopping'') p1)))
           in (audit_agent_op env i ''stop'' ''success'' (Some ''state=Stopped'') p2, (True, ''Agent '' @ quoted i @ '' stopped.'')))
      | (p1, Inl e) \<Rightarrow> (audit_agent_op env i ''stop'' ''error'' (Some (registry_error_text (pv_debug env) e)) p1,
                        (False, ''Failed to stop agent: '' @ registry_error_text (pv_debug env) e)))"

definition api_agents_delete :: "'doc panel_env \<Rightarrow> string \<Rightarrow> 'doc panel \<Rightarrow> 'doc panel \<times> settings_response" where
  "api_agents_delete env i p =
     (let io = pv_io env in
      if \<not> pn_has_registry p then (p, no_registry)
      else case delete_agent (io_move io) (io_remove io) (io_stamp io) i (pn_registry p) of
        (rg, Inr _) \<Rightarrow> (audit_agent_op env i ''delete'' ''success'' (Some ''workspace archived'') (set_registry rg p),
                        (True, ''Agent '' @ quoted i @ '' deleted and workspace archived.''))
      | (rg, Inl e) \<Rightarrow> (audit_agent_op env i ''delete'' ''error'' (Some (registry_error_text (pv_debug env) e)) (set_registry rg p),
                        (False, ''Failed to delete agent: '' @ registry_error_text (pv_debug env) e)))"

definition api_agents_logs :: "string \<Rightarrow> 'doc panel \<Rightarrow> json" where
  "api_agents_logs i p = JObj [(''agent_id'', JStr i), (''logs'', JArr (map (\<lambda>l. JObj [(''timestamp'', JStr (le_timestamp l)),
     (''level'', JStr (le_level l)), (''message'', JStr (le_message l))]) (agent_logs i 100 p)))]"

record configure_payload =
  fp_model :: "string option"
  fp_instruction :: "string option"
  fp_tools :: "string list option"
  fp_channel_bindings :: "string option"
  fp_auto_start :: "bool option"

definition binding_of_text :: "string \<Rightarrow> channel_binding" where
  "binding_of_text s = (case split_once (CHR '':'') s of
     Some (t, a) \<Rightarrow> \<lparr>cb_channel_type = t, cb_account_id = Some a, cb_peer_filter = None\<rparr>
   | None \<Rightarrow> \<lparr>cb_channel_type = s, cb_account_id = None, cb_peer_filter = None\<rparr>)"

definition bindings_of_text :: "string \<Rightarrow> channel_binding list" where
  "bindings_of_text s = map binding_of_text (filter (\<lambda>t. t \<noteq> []) (map trim (split_on (CHR '','') s)))"

definition given :: "'a option \<Rightarrow> ('a \<Rightarrow> agent_config \<Rightarrow> agent_config) \<Rightarrow> agent_config \<Rightarrow> agent_config" where
  "given x f cfg = (case x of Some a \<Rightarrow> f a cfg | None \<Rightarrow> cfg)"

definition configured :: "configure_payload \<Rightarrow> agent_config \<Rightarrow> agent_config" where
  "configured c cfg =
     given (fp_channel_bindings c) (\<lambda>b cfg. cfg\<lparr>ac_channel_bindings := bindings_of_text b\<rparr>)
     (given (fp_auto_start c) (\<lambda>a cfg. cfg\<lparr>ac_auto_start := a\<rparr>)
     (given (fp_tools c) (\<lambda>ts cfg. cfg\<lparr>ac_tools := ts, ac_role := (ac_role cfg)\<lparr>role_allow := ts\<rparr>\<rparr>)
     (given (fp_instruction c) (\<lambda>t cfg. cfg\<lparr>ac_instruction := t\<rparr>)
     (given (fp_model c) (\<lambda>m cfg. cfg\<lparr>ac_model := m\<rparr>) cfg))))"

definition api_agents_configure :: "'doc panel_env \<Rightarrow> string \<Rightarrow> configure_payload \<Rightarrow> 'doc panel \<Rightarrow> 'doc panel \<times> settings_response" where
  "api_agents_configure env i c p =
     (let io = pv_io env in
      if \<not> pn_has_registry p then (p, no_registry)
      else case dict_get (rg_agents (pn_registry p)) i of
        None \<Rightarrow> (p, (False, ''Agent '' @ quoted i @ '' not found''))
      | Some r \<Rightarrow>
          if map_option trim (fp_model c) = Some [] then (p, (False, ''Model cannot be empty''))
          else (case update_config (io_ser io) (io_write io 0) (io_now io) i (configured c (ar_config r)) (pn_registry p) of
              (rg, Inr _) \<Rightarrow> (audit_agent_op env i ''configure'' ''success'' (Some ''config updated'') (set_registry rg p),
                              (True, ''Agent '' @ quoted i @ '' configuration updated.''))
            | (rg, Inl e) \<Rightarrow> (audit_agent_op env i ''configure'' ''error'' (Some (registry_error_text (pv_debug env) e)) (set_registry rg p),
                              (False, ''Failed to configure agent: '' @ registry_error_text (pv_debug env) e))))"

section \<open>Only the registry changes\<close>

lemma log_fields [simp]:
  "pn_gateway (push_agent_log i e p) = pn_gateway p" "pn_gateway (push_log e p) = pn_gateway p" "pn_gateway (send_ws w p) = pn_gateway p"
  "pn_gateway (audit_agent_op env i a out d p) = pn_gateway p"
  "pn_has_registry (push_agent_log i e p) = pn_has_registry p" "pn_has_registry (push_log e p) = pn_has_registry p"
  "pn_has_registry (send_ws w p) = pn_has_registry p" "pn_has_registry (audit_agent_op env i a out d p) = pn_has_registry p"
  by (simp_all add: push_agent_log_def push_log_def send_ws_def audit_agent_op_def Let_def)

definition managers :: "'doc agents_state \<Rightarrow> process_manager \<times> proxy_pool \<times> rbac \<times> message_router" where
  "managers s = (ga_pm s, ga_proxies s, ga_rbac s, ga_router s)"

lemma registry_set [simp]:
  "pn_registry (set_registry rg p) = rg" "managers (pn_gateway (set_registry rg p)) = managers (pn_gateway p)"
  "pn_has_registry (set_registry rg p) = pn_has_registry p" "pn_registry (send_ws w p) = pn_registry p"
  "pn_registry (audit_agent_op env i a out d p) = pn_registry p"
  by (simp_all add: pn_registry_def set_registry_def managers_def)

lemma transition_managers:
  "panel_transition env n i st p = (p', r) \<Longrightarrow> managers (pn_gateway p') = managers (pn_gateway p)"
  "panel_transition env n i st p = (p', r) \<Longrightarrow> pn_has_registry p' = pn_has_registry p"
  by (auto simp: panel_transition_def Let_def split: prod.splits)

lemma transition_managers' [simp]: "managers (pn_gateway (fst (panel_transition env n i st p))) = managers (pn_gateway p)"
  by (metis transition_managers(1) surj_pair fst_conv)

lemma create_managers: "managers (pn_gateway (fst (api_agents_create env c p))) = managers (pn_gateway p)"
  unfolding api_agents_create_def Let_def by (simp split: sum.split prod.split)

lemma start_managers: "managers (pn_gateway (fst (api_agents_start env i p))) = managers (pn_gateway p)"
  unfolding api_agents_start_def Let_def by (simp add: transition_managers split: sum.split prod.split)

lemma stop_managers: "managers (pn_gateway (fst (api_agents_stop env i p))) = managers (pn_gateway p)"
  unfolding api_agents_stop_def Let_def by (simp add: transition_managers split: sum.split prod.split)

lemma delete_managers: "managers (pn_gateway (fst (api_agents_delete env i p))) = managers (pn_gateway p)"
  unfolding api_agents_delete_def Let_def by (simp split: sum.split prod.split)

lemma configure_managers: "managers (pn_gateway (fst (api_agents_configure env i f p))) = managers (pn_gateway p)"
  unfolding api_agents_configure_def Let_def by (simp split: sum.split prod.split option.split)

text \<open>
  Whatever an administrator does on the agent pages of the control panel, the processes, proxies, roles and
  routes of the gateway stay as they are.
\<close>

theorem panel_changes_registry_only:
  "managers (pn_gateway (fst (api_agents_create env c p))) = managers (pn_gateway p)
   \<and> managers (pn_gateway (fst (api_agents_start env i p))) = managers (pn_gateway p)
   \<and> managers (pn_gateway (fst (api_agents_stop env i p))) = managers (pn_gateway p)
   \<and> managers (pn_gateway (fst (api_agents_delete env i p))) = managers (pn_gateway p)
   \<and> managers (pn_gateway (fst (api_agents_configure env i f p))) = managers (pn_gateway p)"
  by (intro conjI create_managers start_managers stop_managers delete_managers configure_managers)

lemma transition_done:
  assumes "clean_io (pv_io env)" "rst (pn_registry p) i = Some st" "is_valid_transition st t"
  shows "\<exists>p'. panel_transition env n i t p = (p', Ok ()) \<and> rst (pn_registry p') i = Some t"
  using assms
  by (auto simp: panel_transition_def Let_def clean_io_def rst_def transition_def store_entry_def split: prod.split)

lemma start_done:
  assumes "pn_has_registry p" "clean_io (pv_io env)" "rst (pn_registry p) i = Some st" "is_valid_transition st Starting"
  shows "fst (snd (api_agents_start env i p))" and "rst (pn_registry (fst (api_agents_start env i p))) i = Some Running"
proof -
  obtain p1 where p1: "panel_transition env 0 i Starting p = (p1, Ok ())" "rst (pn_registry p1) i = Some Starting"
    using transition_done [OF assms(2-4)] by blast
  let ?p2 = "send_ws (WsAgentState i ''starting'') (audit_agent_op env i ''start'' ''success'' (Some ''transitioning to Starting'') p1)"
  obtain p3 where p3: "panel_transition env 1 i Running ?p2 = (p3, Ok ())" "rst (pn_registry p3) i = Some Running"
    using transition_done [OF assms(2), of ?p2 i Starting Running 1] p1(2) by (auto simp: is_valid_transition_def)
  show "fst (snd (api_agents_start env i p))" using assms(1) p1 by (simp add: api_agents_start_def Let_def)
  show "rst (pn_registry (fst (api_agents_start env i p))) i = Some Running"
    using assms(1) p1 p3 by (simp add: api_agents_start_def Let_def)
qed

lemma stop_done:
  assumes "pn_has_registry p" "clean_io (pv_io env)" "rst (pn_registry p) i = Some Running"
  shows "rst (pn_registry (fst (api_agents_stop env i p))) i = Some Stopped" and "pn_has_registry (fst (api_agents_stop env i p))"
proof -
  obtain p1 where p1: "panel_transition env 0 i Stopping p = (p1, Ok ())" "rst (pn_registry p1) i = Some Stopping"
    using transition_done [OF assms(2,3), of Stopping 0] by (auto simp: is_valid_transition_def)
  let ?p2 = "send_ws (WsAgentState i ''stopping'') p1"
  obtain p3 where p3: "panel_transition env 1 i Stopped ?p2 = (p3, Ok ())" "rst (pn_registry p3) i = Some Stopped"
    using transition_done [OF assms(2), of ?p2 i Stopping Stopped 1] p1(2) by (auto simp: is_valid_transition_def)
  show "rst (pn_registry (fst (api_agents_stop env i p))) i = Some Stopped"
    using assms(1) p1 p3 by (simp add: api_agents_stop_def Let_def)
  show "pn_has_registry (fst (api_agents_stop env i p))"
    using assms(1) p1 p3 transition_managers(2) [OF p1(1)] transition_managers(2) [OF p3(1)] by (simp add: api_agents_stop_def Let_def)
qed

lemma delete_done:
  assumes "pn_has_registry p" "rst (pn_registry p) i = Some Stopped"
  shows "\<not> dict_has (rg_agents (pn_registry (fst (api_agents_delete env i p)))) i"
  using assms
  by (auto simp: api_agents_delete_def Let_def delete_agent_def rst_def deletable_def dict_has_def)

section \<open>Properties\<close>

text \<open>
  Starting an idle agent in the control panel reports success and leaves the agent Running in the registry,
  although no process of it exists and no request can be proxied to it.
\<close>

theorem panel_start_runs_nothing:
  assumes "fresh_gateway s0" and "exec call_step s0 calls (pn_gateway p)" and "pn_has_registry p" and "clean_io (pv_io env)"
    and "rst (pn_registry p) i = Some st" and "is_valid_transition st Starting"
  shows "let (p', r) = api_agents_start env i p
    in fst r \<and> rst (pn_registry p') i = Some Running \<and> ports (ga_pm (pn_gateway p')) i = None \<and> px (ga_proxies (pn_gateway p')) i = None"
proof -
  have "mg_inv (pn_gateway p)" by (rule mg.reachable_inv [OF assms(1,2)])
  moreover have "st \<noteq> Running" using assms(6) by (auto simp: is_valid_transition_def)
  ultimately have "ports (ga_pm (pn_gateway p)) i = None" "px (ga_proxies (pn_gateway p)) i = None"
    using assms(5) by (auto simp: mg_inv_def agent_ok_def pn_registry_def)
  then show ?thesis
    using start_done [OF assms(3-6)] start_managers [of env i p] by (simp add: managers_def split_beta)
qed

text \<open>
  Stopping and deleting a running agent in the control panel removes it from the registry and leaves its
  process, its proxy and its routes behind.
\<close>

theorem panel_delete_orphans_process:
  assumes "fresh_gateway s0" and "exec call_step s0 calls (pn_gateway p)" and "pn_has_registry p" and "clean_io (pv_io env)"
    and "px (ga_proxies (pn_gateway p)) i = Some port"
  shows "let p' = fst (api_agents_delete env i (fst (api_agents_stop env i p)))
    in \<not> dict_has (rg_agents (pn_registry p')) i \<and> ports (ga_pm (pn_gateway p')) i = Some port
       \<and> px (ga_proxies (pn_gateway p')) i = Some port \<and> ga_router (pn_gateway p') = ga_router (pn_gateway p)"
proof -
  have ok: "agent_ok (pn_gateway p) i"
    using mg.reachable_inv [OF assms(1,2)] by (simp add: mg_inv_def)
  then have running: "rst (pn_registry p) i = Some Running" and port: "ports (ga_pm (pn_gateway p)) i = Some port"
    using assms(5) by (auto simp: agent_ok_def pn_registry_def)
  note stop = stop_done [OF assms(3,4) running]
  have "managers (pn_gateway (fst (api_agents_delete env i (fst (api_agents_stop env i p))))) = managers (pn_gateway p)"
    by (simp only: delete_managers stop_managers)
  then show ?thesis using delete_done [OF stop(2,1)] assms(5) port by (simp add: managers_def Let_def)
qed

text \<open>
  Taking tools away from an agent in the control panel changes its configuration, not what it may use: the role
  that is checked at each call stays the old one.
\<close>

theorem panel_revoked_tools_stay_allowed:
  "check_tool (ga_rbac (pn_gateway (fst (api_agents_configure env i f p)))) i t = check_tool (ga_rbac (pn_gateway p)) i t"
  using configure_managers [of env i f p] by (simp add: managers_def)

definition demo_panel :: "agent_record agents_state \<Rightarrow> agent_record panel" where
  "demo_panel s = \<lparr>pn_gateway = s, pn_has_registry = True, pn_agent_logs = [], pn_logs = [], pn_audit = None, pn_ws = []\<rparr>"

definition demo_panel_env :: "agent_record panel_env" where
  "demo_panel_env = \<lparr>pv_io = demo_io undefined, pv_time = ''t'', pv_debug = id\<rparr>"

lemma panel_start_runs_nothing_witness:
  "\<exists>p :: agent_record panel. fst (snd (api_agents_start demo_panel_env ''a'' p))
     \<and> rst (pn_registry (fst (api_agents_start demo_panel_env ''a'' p))) ''a'' = Some Running
     \<and> ports (ga_pm (pn_gateway (fst (api_agents_start demo_panel_env ''a'' p)))) ''a'' = None"
proof -
  obtain s1 where s1: "call_step demo_gateway (demo_io undefined, CallCreate (JObj [(''name'', JStr ''A'')])) s1"
    "rst (ga_registry s1) ''a'' = Some Created"
    using demo_create by blast
  have run: "exec call_step demo_gateway [(demo_io undefined, CallCreate (JObj [(''name'', JStr ''A'')]))] (pn_gateway (demo_panel s1))"
    using s1 by (auto simp: demo_panel_def intro: exec.intros)
  have "rst (pn_registry (demo_panel s1)) ''a'' = Some Created" using s1 by (simp add: demo_panel_def pn_registry_def)
  from panel_start_runs_nothing [OF demo_fresh run _ _ this, of demo_panel_env] show ?thesis
    by (auto simp: demo_panel_def demo_panel_env_def is_valid_transition_def split_beta)
qed

lemma panel_delete_orphans_process_witness:
  "\<exists>p :: agent_record panel. let p' = fst (api_agents_delete demo_panel_env ''a'' (fst (api_agents_stop demo_panel_env ''a'' p)))
     in \<not> dict_has (rg_agents (pn_registry p')) ''a'' \<and> ports (ga_pm (pn_gateway p')) ''a'' = Some 100"
proof -
  obtain s1 where s1: "call_step demo_gateway (demo_io undefined, CallCreate (JObj [(''name'', JStr ''A'')])) s1"
    "rst (ga_registry s1) ''a'' = Some Created" "ga_pm s1 = pm_new 100 110" "ga_proxies s1 = []"
    using demo_create by blast
  obtain s2 where s2: "call_step s1 (demo_io undefined, CallStart (JObj [(''agent_id'', JStr ''a'')])) s2"
    "px (ga_proxies s2) ''a'' = Some 100"
    using demo_start [OF s1(2-4)] by blast
  have run: "exec call_step demo_gateway [(demo_io undefined, CallCreate (JObj [(''name'', JStr ''A'')])),
      (demo_io undefined, CallStart (JObj [(''agent_id'', JStr ''a'')]))] (pn_gateway (demo_panel s2))"
    using s1 s2 by (auto simp: demo_panel_def intro: exec.intros)
  from panel_delete_orphans_process [OF demo_fresh run, of demo_panel_env "''a''" 100] s2(2) show ?thesis
    by (auto simp: demo_panel_def demo_panel_env_def Let_def)
qed

section \<open>Bounded logs\<close>

datatype log_op = PushLog log_entry | PushAgentLog string log_entry | AuditOp string string string "string option"

fun log_step :: "'doc panel_env \<Rightarrow> log_op \<Rightarrow> 'doc panel \<Rightarrow> 'doc panel" where
  "log_step env (PushLog e) p = push_log e p"
| "log_step env (PushAgentLog i e) p = push_agent_log i e p"
| "log_step env (AuditOp i a out d) p = audit_agent_op env i a out d p"

definition logs_ok :: "'doc panel \<Rightarrow> bool" where
  "logs_ok p \<longleftrightarrow> length (pn_logs p) \<le> 1000 \<and> (\<forall>i l. dict_get (pn_agent_logs p) i = Some l \<longrightarrow> length l \<le> 200)"

lemma logs_ok_push: "logs_ok p \<Longrightarrow> logs_ok (push_log e p)" "logs_ok p \<Longrightarrow> logs_ok (push_agent_log i e p)"
  by (auto simp: logs_ok_def push_log_def push_agent_log_def capped_def Let_def split: option.splits)

lemma logs_ok_audit [simp]: "logs_ok (p\<lparr>pn_audit := a\<rparr>) \<longleftrightarrow> logs_ok p"
  by (simp add: logs_ok_def)

lemma logs_ok_step: "logs_ok p \<Longrightarrow> logs_ok (log_step env op p)"
  by (cases op) (simp_all add: audit_agent_op_def Let_def logs_ok_push)

definition panel_start :: "'doc agents_state \<Rightarrow> bool \<Rightarrow> audit_event list option \<Rightarrow> 'doc panel" where
  "panel_start s reg audit = \<lparr>pn_gateway = s, pn_has_registry = reg, pn_agent_logs = [], pn_logs = [], pn_audit = audit, pn_ws = []\<rparr>"

interpretation panel_logs: operation_machine "panel_start s reg audit" "log_step env" logs_ok for s reg audit env
  by unfold_locales (simp_all add: logs_ok_step, simp add: logs_ok_def panel_start_def)

text \<open>
  The control panel never keeps more than a thousand log entries, nor more than two hundred of one agent.
\<close>

theorem panel_logs_bounded:
  "let p = fold (log_step env) ops (panel_start s reg audit)
   in length (recent_logs n p) \<le> min n 1000 \<and> length (agent_logs i n p) \<le> min n 200"
proof -
  have "logs_ok (fold (log_step env) ops (panel_start s reg audit))" by (rule panel_logs.run_ok)
  then have "length (pn_logs (fold (log_step env) ops (panel_start s reg audit))) \<le> 1000"
    and "\<And>l. dict_get (pn_agent_logs (fold (log_step env) ops (panel_start s reg audit))) i = Some l \<Longrightarrow> length l \<le> 200"
    by (auto simp: logs_ok_def)
  then show ?thesis by (force simp: recent_logs_def agent_logs_def capped_def Let_def split: option.split)
qed

end
