(* ===== verification/PanelAuth.thy ===== *)
theory PanelAuth
  imports Json
begin

text \<open>
  The sessions of the control panel: the guard of \<open>src/control_panel/auth.rs\<close> and the handlers for login, logout
  and the check of the status in \<open>src/control_panel/api.rs\<close>. Instants are nanoseconds; the random token of a login
  is an argument; a request has the text of its cookie header, empty if it has none.
\<close>

section \<open>Configuration and sessions\<close>

datatype auth_mode = TokenMode | PasswordMode | NoAuthMode

record panel_secrets =
  ps_mode :: auth_mode
  ps_token :: "string option"
  ps_password :: "string option"

record ui_session =
  us_token :: string
  us_created_at :: int

type_synonym ui_sessions = "ui_session dict"

record ui_response =
  ur_status :: nat
  ur_body :: json
  ur_set_cookie :: "string option"

definition cookie_name :: string where "cookie_name = ''adk_ui_session''"

definition session_max_age :: int where "session_max_age = 24 * 60 * 60 * 1000000000"

definition auth_required :: "panel_secrets option \<Rightarrow> bool" where
  "auth_required auth = (case auth of
     Some a \<Rightarrow> ps_mode a \<noteq> NoAuthMode \<and> (ps_password a \<noteq> None \<or> ps_token a \<noteq> None) | None \<Rightarrow> False)"

definition cookie_value :: "string \<Rightarrow> string \<Rightarrow> string option" where
  "cookie_value name pair = Option.bind (strip_prefix name (trim pair)) (strip_prefix ''='')"

definition extract_cookie :: "string \<Rightarrow> string \<Rightarrow> string option" where
  "extract_cookie header name =
     (case find (\<lambda>p. cookie_value name p \<noteq> None) (split_on (CHR '';'') header) of
        Some p \<Rightarrow> cookie_value name p | None \<Rightarrow> None)"

definition refusal :: "string \<Rightarrow> ui_response" where
  "refusal msg = \<lparr>ur_status = 401, ur_body = JObj [(''ok'', JBool False), (''message'', JStr msg)], ur_set_cookie = None\<rparr>"

section \<open>Handlers\<close>

text \<open>The guard lets the request through (\<open>None\<close>) or answers it itself.\<close>

definition auth_guard :: "panel_secrets option \<Rightarrow> int \<Rightarrow> string \<Rightarrow> string \<Rightarrow> ui_sessions \<Rightarrow> ui_sessions \<times> ui_response option" where
  "auth_guard auth now path cookie sessions =
     (if \<not> auth_required auth then (sessions, None)
      else if path = ''/ui/api/login'' \<or> path = ''/ui/api/auth/check'' then (sessions, None)
      else case extract_cookie cookie cookie_name of
        None \<Rightarrow> (sessions, Some (refusal ''Authentication required''))
      | Some token \<Rightarrow>
          (case dict_get sessions token of
             None \<Rightarrow> (sessions, Some (refusal ''Authentication required''))
           | Some session \<Rightarrow>
               if us_token session = token \<and> now - us_created_at session < session_max_age then (sessions, None)
               else (dict_del token sessions, Some (refusal ''Authentication required''))))"

definition mode_text :: "panel_secrets option \<Rightarrow> string" where
  "mode_text auth = (case auth of None \<Rightarrow> ''none''
     | Some a \<Rightarrow> (case ps_mode a of PasswordMode \<Rightarrow> ''password'' | TokenMode \<Rightarrow> ''token'' | NoAuthMode \<Rightarrow> ''none''))"

definition authenticated :: "panel_secrets option \<Rightarrow> string \<Rightarrow> ui_sessions \<Rightarrow> bool" where
  "authenticated auth cookie sessions =
     (if \<not> auth_required auth then True
      else case extract_cookie cookie cookie_name of Some token \<Rightarrow> dict_has sessions token | None \<Rightarrow> False)"

definition auth_check :: "panel_secrets option \<Rightarrow> string \<Rightarrow> ui_sessions \<Rightarrow> json" where
  "auth_check auth cookie sessions =
     JObj [(''authenticated'', JBool (authenticated auth cookie sessions)), (''mode'', JStr (mode_text auth))]"

definition expected_secret :: "panel_secrets option \<Rightarrow> string" where
  "expected_secret auth =
     (case Option.bind auth (\<lambda>a. case ps_mode a of PasswordMode \<Rightarrow> ps_password a | TokenMode \<Rightarrow> ps_token a | NoAuthMode \<Rightarrow> None) of
        Some e \<Rightarrow> e | None \<Rightarrow> [])"

definition api_login :: "panel_secrets option \<Rightarrow> int \<Rightarrow> string \<Rightarrow> string \<Rightarrow> ui_sessions \<Rightarrow> ui_sessions \<times> ui_response" where
  "api_login auth now token password sessions =
     (let expected = expected_secret auth;
          valid = (if length password = length expected then password = expected else False)
      in if \<not> valid \<or> expected = [] then (sessions, refusal ''Invalid credentials'')
         else (dict_put token \<lparr>us_token = token, us_created_at = now\<rparr> sessions,
               \<lparr>ur_status = 200, ur_body = JObj [(''ok'', JBool True), (''message'', JStr ''Login successful'')],
                ur_set_cookie = Some (cookie_name @ ''='' @ token @ ''; HttpOnly; SameSite=Strict; Path=/; Max-Age=86400'')\<rparr>))"

definition api_logout :: "string \<Rightarrow> ui_sessions \<Rightarrow> ui_sessions \<times> ui_response" where
  "api_logout cookie sessions =
     ((case extract_cookie cookie cookie_name of Some token \<Rightarrow> dict_del token sessions | None \<Rightarrow> sessions),
      \<lparr>ur_status = 200, ur_body = JObj [(''ok'', JBool True), (''message'', JStr ''Logged out'')],
       ur_set_cookie = Some (cookie_name @ ''=; HttpOnly; SameSite=Strict; Path=/; Max-Age=0'')\<rparr>)"

section \<open>Runs\<close>

datatype ui_event = UiLogin int string string | UiLogout string | UiRequest int string string

fun ui_step :: "panel_secrets option \<Rightarrow> ui_event \<Rightarrow> ui_sessions \<Rightarrow> ui_sessions" where
  "ui_step auth (UiLogin now token password) s = fst (api_login auth now token password s)"
| "ui_step auth (UiLogout cookie) s = fst (api_logout cookie s)"
| "ui_step auth (UiRequest now path cookie) s = fst (auth_guard auth now path cookie s)"

definition right_password :: "panel_secrets option \<Rightarrow> string \<Rightarrow> bool" where
  "right_password auth password \<longleftrightarrow> password = expected_secret auth \<and> password \<noteq> []"

definition logs_out :: "string \<Rightarrow> ui_event \<Rightarrow> bool" where
  "logs_out token e \<longleftrightarrow> (case e of UiLogout cookie \<Rightarrow> extract_cookie cookie cookie_name = Some token | _ \<Rightarrow> False)"

text \<open>The events have a login at \<open>t\<close> that gave out the token, and no logout with it afterwards.\<close>

definition logged_in :: "panel_secrets option \<Rightarrow> ui_event list \<Rightarrow> string \<Rightarrow> int \<Rightarrow> bool" where
  "logged_in auth evs token t \<longleftrightarrow>
     (\<exists>pre pw post. evs = pre @ UiLogin t token pw # post \<and> right_password auth pw \<and> \<not> list_ex (logs_out token) post)"

lemma logged_in_snoc: "\<lbrakk>logged_in auth evs token t; \<not> logs_out token e\<rbrakk> \<Longrightarrow> logged_in auth (evs @ [e]) token t"
  by (fastforce simp: logged_in_def)

lemma logged_in_login: "right_password auth pw \<Longrightarrow> logged_in auth (evs @ [UiLogin t token pw]) token t"
  by (fastforce simp: logged_in_def)

lemma sessions_logged_in:
  assumes "dict_get (fold (ui_step auth) evs []) token = Some s"
  shows "us_token s = token \<and> logged_in auth evs token (us_created_at s)"
  using assms
proof (induction evs arbitrary: s rule: rev_induct)
  case Nil
  then show ?case by simp
next
  case (snoc e evs)
  let ?d = "fold (ui_step auth) evs []"
  show ?case
  proof (cases e)
    case (UiLogin now tok pw)
    have "(right_password auth pw \<and> tok = token \<and> s = \<lparr>us_token = token, us_created_at = now\<rparr>) \<or> dict_get ?d token = Some s"
      using snoc.prems UiLogin by (auto simp: api_login_def Let_def right_password_def split: if_splits)
    then show ?thesis
      using snoc.IH [of s] UiLogin logged_in_login logged_in_snoc [of auth evs token "us_created_at s" e]
      by (auto simp: logs_out_def)
  next
    case (UiLogout cookie)
    have "\<not> logs_out token e \<and> dict_get ?d token = Some s"
      using snoc.prems UiLogout by (auto simp: api_logout_def logs_out_def split: option.splits if_splits)
    then show ?thesis using snoc.IH [of s] logged_in_snoc by blast
  next
    case (UiRequest now path cookie)
    have "dict_get ?d token = Some s"
      using snoc.prems UiRequest by (auto simp: auth_guard_def split: option.splits if_splits)
    then show ?thesis using snoc.IH [of s] logged_in_snoc [of auth evs token "us_created_at s" e] UiRequest by (auto simp: logs_out_def)
  qed
qed

section \<open>Properties\<close>

text \<open>
  C18. If credentials are required, a request for a protected path is let through only if its cookie has a token that
  a login with the right secret gave out less than 24 hours before, without a logout with this token since.
\<close>

theorem admitted_only_after_login:
  assumes "auth_required auth" and "path \<noteq> ''/ui/api/login''" and "path \<noteq> ''/ui/api/auth/check''"
    and "snd (auth_guard auth now path cookie (fold (ui_step auth) evs [])) = None"
  shows "\<exists>token t. extract_cookie cookie cookie_name = Some token \<and> logged_in auth evs token t \<and> now - t < session_max_age"
proof -
  obtain token s where "extract_cookie cookie cookie_name = Some token" "dict_get (fold (ui_step auth) evs []) token = Some s"
    "now - us_created_at s < session_max_age"
    using assms by (auto simp: auth_guard_def split: option.splits if_splits)
  then show ?thesis using sessions_logged_in by blast
qed

definition demo_secrets :: panel_secrets where
  "demo_secrets = \<lparr>ps_mode = PasswordMode, ps_token = None, ps_password = Some ''pw''\<rparr>"

lemma demo_cookie: "extract_cookie ''adk_ui_session=T'' cookie_name = Some ''T''"
  by (simp add: extract_cookie_def cookie_value_def strip_prefix_def cookie_name_def trim_eval)

lemma demo_login: "fold (ui_step (Some demo_secrets)) [UiLogin 0 ''T'' ''pw''] [] = [(''T'', \<lparr>us_token = ''T'', us_created_at = 0\<rparr>)]"
  by (simp add: api_login_def demo_secrets_def expected_secret_def)

lemma admitted_only_after_login_witness:
  "snd (auth_guard (Some demo_secrets) 5 ''/ui/api/config'' ''adk_ui_session=T'' (fold (ui_step (Some demo_secrets)) [UiLogin 0 ''T'' ''pw''] [])) = None
   \<and> (\<exists>token t. extract_cookie ''adk_ui_session=T'' cookie_name = Some token
        \<and> logged_in (Some demo_secrets) [UiLogin 0 ''T'' ''pw''] token t \<and> 5 - t < session_max_age)"
proof -
  have "snd (auth_guard (Some demo_secrets) 5 ''/ui/api/config'' ''adk_ui_session=T'' (fold (ui_step (Some demo_secrets)) [UiLogin 0 ''T'' ''pw''] [])) = None"
    unfolding demo_login by (simp add: auth_guard_def demo_cookie auth_required_def demo_secrets_def session_max_age_def dict_get_def)
  with admitted_only_after_login [OF _ _ _ this] show ?thesis by (simp add: auth_required_def demo_secrets_def)
qed

text \<open>
  Once a session is 24 hours old, the status check still reports it as authenticated, while every request with
  it is refused.
\<close>

theorem expired_session_reported_valid:
  assumes "auth_required auth" and "extract_cookie cookie cookie_name = Some token" and "dict_get sessions token = Some s"
    and "session_max_age \<le> now - us_created_at s" and "path \<noteq> ''/ui/api/login''" and "path \<noteq> ''/ui/api/auth/check''"
  shows "jget (auth_check auth cookie sessions) ''authenticated'' = Some (JBool True)
    \<and> snd (auth_guard auth now path cookie sessions) = Some (refusal ''Authentication required'')"
  using assms by (simp add: auth_check_def authenticated_def jget_def dict_has_def auth_guard_def)

lemma expired_session_reported_valid_witness:
  "jget (auth_check (Some demo_secrets) ''adk_ui_session=T'' [(''T'', \<lparr>us_token = ''T'', us_created_at = 0\<rparr>)]) ''authenticated'' = Some (JBool True)
   \<and> snd (auth_guard (Some demo_secrets) session_max_age ''/ui/api/config'' ''adk_ui_session=T'' [(''T'', \<lparr>us_token = ''T'', us_created_at = 0\<rparr>)])
       = Some (refusal ''Authentication required'')"
  by (rule expired_session_reported_valid [where s = "\<lparr>us_token = ''T'', us_created_at = 0\<rparr>" and token = "''T''"])
    (simp_all add: demo_cookie auth_required_def demo_secrets_def dict_get_def)

text \<open>
  In password mode without a password the panel is open to everyone, and if a token is configured in addition
  it is closed for everyone: no login succeeds.
\<close>

theorem password_mode_without_password:
  "snd (auth_guard (Some \<lparr>ps_mode = PasswordMode, ps_token = None, ps_password = None\<rparr>) now path cookie sessions) = None
   \<and> auth_required (Some \<lparr>ps_mode = PasswordMode, ps_token = Some t, ps_password = None\<rparr>)
   \<and> api_login (Some \<lparr>ps_mode = PasswordMode, ps_token = Some t, ps_password = None\<rparr>) now token password sessions
       = (sessions, refusal ''Invalid credentials'')"
  by (simp add: auth_guard_def auth_required_def api_login_def expected_secret_def Let_def)

end
