(* ===== verification/SsoTokens.thy ===== *)
theory SsoTokens
  imports Json
begin

text \<open>
  \<open>src/jwt.rs\<close>: the cache of the keys of an identity provider, the check of a bearer token against it, and
  the middleware in front of the protected routes. The HTTP fetch is an input of each operation; decoding of
  tokens and RSA keys is the library's, collected in a record of functions. A look-up in the cache with its
  fetch is one step: other requests come before or after it.
\<close>

section \<open>Keys\<close>

record jwk =
  jw_kty :: string
  jw_kid :: "string option"
  jw_alg :: "string option"
  jw_n :: "string option"
  jw_e :: "string option"
  jw_use :: "string option"

datatype fetch_outcome = FetchFailed string | HttpStatus string | BadDocument string | Fetched "jwk list"

datatype jwt_error = JwksFetchFailed string | UnknownKid string | InvalidToken string

fun jwt_error_text :: "jwt_error \<Rightarrow> string" where
  "jwt_error_text (JwksFetchFailed e) = ''JWKS fetch failed: '' @ e"
| "jwt_error_text (UnknownKid k) = ''unknown kid: '' @ k"
| "jwt_error_text (InvalidToken e) = ''invalid token: '' @ e"

record 'k jwks_cache =
  jc_url :: string
  jc_ttl :: duration
  jc_keys :: "'k dict"
  jc_last_refresh :: "instant option"

definition jc_new :: "string \<Rightarrow> duration \<Rightarrow> 'k jwks_cache" where
  "jc_new url ttl = \<lparr>jc_url = url, jc_ttl = ttl, jc_keys = [], jc_last_refresh = None\<rparr>"

definition with_default_ttl :: "string \<Rightarrow> 'k jwks_cache" where
  "with_default_ttl url = jc_new url (from_secs 3600)"

definition decoding_key_from_jwk :: "(string \<Rightarrow> string \<Rightarrow> 'k option) \<Rightarrow> jwk \<Rightarrow> 'k option" where
  "decoding_key_from_jwk from_rsa j =
     (if jw_kty j \<noteq> ''RSA'' then None
      else case jw_n j of None \<Rightarrow> None | Some n \<Rightarrow> (case jw_e j of None \<Rightarrow> None | Some e \<Rightarrow> from_rsa n e))"

definition add_jwk :: "(string \<Rightarrow> string \<Rightarrow> 'k option) \<Rightarrow> jwk \<Rightarrow> 'k dict \<Rightarrow> 'k dict" where
  "add_jwk from_rsa j keys =
     (case jw_kid j of None \<Rightarrow> keys
      | Some kid \<Rightarrow> (case decoding_key_from_jwk from_rsa j of None \<Rightarrow> keys | Some k \<Rightarrow> dict_put kid k keys))"

definition document_keys :: "(string \<Rightarrow> string \<Rightarrow> 'k option) \<Rightarrow> jwk list \<Rightarrow> 'k dict" where
  "document_keys from_rsa doc = fold (add_jwk from_rsa) doc []"

definition refresh ::
  "(string \<Rightarrow> string \<Rightarrow> 'k option) \<Rightarrow> fetch_outcome \<Rightarrow> instant \<Rightarrow> 'k jwks_cache \<Rightarrow> (jwt_error, unit) result \<times> 'k jwks_cache" where
  "refresh from_rsa out t c = (case out of
     FetchFailed e \<Rightarrow> (Err (JwksFetchFailed e), c)
   | HttpStatus s \<Rightarrow> (Err (JwksFetchFailed (''HTTP '' @ s)), c)
   | BadDocument e \<Rightarrow> (Err (JwksFetchFailed e), c)
   | Fetched doc \<Rightarrow> (Ok (), c\<lparr>jc_keys := document_keys from_rsa doc, jc_last_refresh := Some t\<rparr>))"

definition set_keys :: "'k dict \<Rightarrow> instant \<Rightarrow> 'k jwks_cache \<Rightarrow> 'k jwks_cache" where
  "set_keys keys t c = c\<lparr>jc_keys := keys, jc_last_refresh := Some t\<rparr>"

definition needs_refresh :: "instant \<Rightarrow> 'k jwks_cache \<Rightarrow> bool" where
  "needs_refresh now c = (case jc_last_refresh c of Some t \<Rightarrow> jc_ttl c \<le> duration_since now t | None \<Rightarrow> True)"

definition cached_key :: "instant \<Rightarrow> string \<Rightarrow> 'k jwks_cache \<Rightarrow> 'k option" where
  "cached_key now kid c = (if needs_refresh now c then None else dict_get (jc_keys c) kid)"

text \<open>
  \<open>out\<close> and \<open>t\<close> are the outcome of the fetch, should there be one, and the instant after it. The last
  component says whether the provider was asked.
\<close>

definition get_key ::
  "(string \<Rightarrow> string \<Rightarrow> 'k option) \<Rightarrow> instant \<Rightarrow> fetch_outcome \<Rightarrow> instant \<Rightarrow> string \<Rightarrow> 'k jwks_cache
     \<Rightarrow> (jwt_error, 'k) result \<times> 'k jwks_cache \<times> bool" where
  "get_key from_rsa now out t kid c = (case cached_key now kid c of
     Some k \<Rightarrow> (Ok k, c, False)
   | None \<Rightarrow> (case refresh from_rsa out t c of
       (Err e, c1) \<Rightarrow> (Err e, c1, True)
     | (Ok _, c1) \<Rightarrow>
         ((case dict_get (jc_keys c1) kid of Some k \<Rightarrow> Ok k | None \<Rightarrow> Err (UnknownKid kid)), c1, True)))"

section \<open>Claims\<close>

record jwt_claims =
  jt_sub :: string
  jt_email :: "string option"
  jt_roles :: "string list"
  jt_scopes :: "string list"
  jt_iss :: "string option"
  jt_aud :: "string option"

record raw_claims =
  rw_sub :: string
  rw_email :: "string option"
  rw_roles :: "string list"
  rw_scope :: "string option"
  rw_iss :: "string option"
  rw_aud :: "json option"

text \<open>
  \<open>str::split_whitespace\<close> in one pass over the bytes: \<open>n\<close> bytes of a separator are still to be skipped, and
  \<open>acc\<close> is the word so far.
\<close>

definition flush :: "string \<Rightarrow> string list" where
  "flush acc = (if acc = [] then [] else [acc])"

fun split_ws :: "nat \<Rightarrow> string \<Rightarrow> string \<Rightarrow> string list" where
  "split_ws n acc [] = flush acc"
| "split_ws (Suc n) acc (c # s) = split_ws n acc s"
| "split_ws 0 acc (c # s) = (case find (\<lambda>w. prefix w (c # s)) ws_encodings of
     Some w \<Rightarrow> flush acc @ split_ws (length w - 1) [] s
   | None \<Rightarrow> split_ws 0 (acc @ [c]) s)"

definition split_whitespace :: "string \<Rightarrow> string list" where
  "split_whitespace s = split_ws 0 [] s"

definition audience_text :: "(json \<Rightarrow> string) \<Rightarrow> json \<Rightarrow> string" where
  "audience_text show_json v = (case v of JStr s \<Rightarrow> s | other \<Rightarrow> show_json other)"

definition into_jwt_claims :: "(json \<Rightarrow> string) \<Rightarrow> raw_claims \<Rightarrow> jwt_claims" where
  "into_jwt_claims show_json r =
     \<lparr>jt_sub = rw_sub r, jt_email = rw_email r, jt_roles = rw_roles r,
      jt_scopes = (case rw_scope r of Some s \<Rightarrow> split_whitespace s | None \<Rightarrow> []),
      jt_iss = rw_iss r, jt_aud = map_option (audience_text show_json) (rw_aud r)\<rparr>"

section \<open>Validation\<close>

record token_header =
  th_alg :: string
  th_kid :: "string option"

text \<open>\<open>Validation::new(alg)\<close> with the issuer and the audience set; the rest of it keeps the library's defaults.\<close>

record token_rules =
  tr_alg :: string
  tr_issuer :: string
  tr_audience :: string

record 'k token_library =
  tl_decode_header :: "string \<Rightarrow> (string, token_header) result"
  tl_decode :: "string \<Rightarrow> 'k \<Rightarrow> token_rules \<Rightarrow> (string, raw_claims) result"
  tl_from_rsa :: "string \<Rightarrow> string \<Rightarrow> 'k option"
  tl_show_json :: "json \<Rightarrow> string"

record 'k jwt_validator =
  jv_cache :: "'k jwks_cache"
  jv_issuer :: string
  jv_audience :: string

record sso_config =
  ss_jwks_url :: string
  ss_issuer :: string
  ss_audience :: string

definition from_sso_config :: "sso_config \<Rightarrow> 'k jwt_validator" where
  "from_sso_config s =
     \<lparr>jv_cache = with_default_ttl (ss_jwks_url s), jv_issuer = ss_issuer s, jv_audience = ss_audience s\<rparr>"

text \<open>The circumstances of a request: when it is checked, and what a fetch would bring, by when.\<close>

record fetch_env =
  fe_now :: instant
  fe_outcome :: fetch_outcome
  fe_fetched_at :: instant

definition validate_jwt ::
  "'k token_library \<Rightarrow> fetch_env \<Rightarrow> string \<Rightarrow> 'k jwt_validator \<Rightarrow> (jwt_error, jwt_claims) result \<times> 'k jwt_validator \<times> bool" where
  "validate_jwt lib env token v = (case tl_decode_header lib token of
     Err e \<Rightarrow> (Err (InvalidToken e), v, False)
   | Ok h \<Rightarrow> (case th_kid h of
       None \<Rightarrow> (Err (InvalidToken ''missing kid in JWT header''), v, False)
     | Some kid \<Rightarrow>
         (case get_key (tl_from_rsa lib) (fe_now env) (fe_outcome env) (fe_fetched_at env) kid (jv_cache v) of
            (Err e, c, asked) \<Rightarrow> (Err e, v\<lparr>jv_cache := c\<rparr>, asked)
          | (Ok key, c, asked) \<Rightarrow>
              ((case tl_decode lib token key
                       \<lparr>tr_alg = th_alg h, tr_issuer = jv_issuer v, tr_audience = jv_audience v\<rparr> of
                  Err e \<Rightarrow> Err (InvalidToken e)
                | Ok raw \<Rightarrow> Ok (into_jwt_claims (tl_show_json lib) raw)),
               v\<lparr>jv_cache := c\<rparr>, asked))))"

section \<open>Middleware\<close>

text \<open>\<open>HeaderValue::to_str\<close> accepts visible ASCII and tabs.\<close>

definition header_text :: "string \<Rightarrow> string option" where
  "header_text v = (if \<forall>c\<in>set v. (32 \<le> (of_char c :: nat) \<and> (of_char c :: nat) < 127) \<or> c = CHR 0x09 then Some v else None)"

definition bearer_token :: "string option \<Rightarrow> string option" where
  "bearer_token auth = Option.bind (Option.bind auth header_text) (strip_prefix ''Bearer '')"

datatype guard_result = PassedOn jwt_claims | Unauthorized string

definition jwt_auth_middleware ::
  "'k token_library \<Rightarrow> fetch_env \<Rightarrow> string option \<Rightarrow> 'k jwt_validator \<Rightarrow> guard_result \<times> 'k jwt_validator \<times> bool" where
  "jwt_auth_middleware lib env auth v = (case bearer_token auth of
     None \<Rightarrow> (Unauthorized ''missing Authorization: Bearer <token> header'', v, False)
   | Some token \<Rightarrow> (case validate_jwt lib env token v of
       (Ok claims, v1, asked) \<Rightarrow> (PassedOn claims, v1, asked)
     | (Err e, v1, asked) \<Rightarrow> (Unauthorized (''invalid token: '' @ jwt_error_text e), v1, asked)))"

text \<open>The extractor reads the claims that the middleware left, if it was there.\<close>

definition extract_claims :: "jwt_claims option \<Rightarrow> (nat \<times> string, jwt_claims) result" where
  "extract_claims ext = (case ext of Some c \<Rightarrow> Ok c | None \<Rightarrow> Err (401, ''missing or invalid JWT token''))"

section \<open>The cache is the last document\<close>

text \<open>The documents that the checks in fact asked for, in order, with the instants of their arrival.\<close>

definition fetched_document :: "fetch_env \<Rightarrow> bool \<Rightarrow> (jwk list \<times> instant) list" where
  "fetched_document env asked =
     (if asked then (case fe_outcome env of Fetched doc \<Rightarrow> [(doc, fe_fetched_at env)] | _ \<Rightarrow> []) else [])"

fun sso_run ::
  "'k token_library \<Rightarrow> (fetch_env \<times> string option) list \<Rightarrow> 'k jwt_validator
     \<Rightarrow> 'k jwt_validator \<times> (jwk list \<times> instant) list \<times> guard_result list" where
  "sso_run lib [] v = (v, [], [])"
| "sso_run lib ((env, auth) # rs) v =
     (let (g, v1, asked) = jwt_auth_middleware lib env auth v; (v2, docs, gs) = sso_run lib rs v1
      in (v2, fetched_document env asked @ docs, g # gs))"

definition put_document :: "(string \<Rightarrow> string \<Rightarrow> 'k option) \<Rightarrow> jwk list \<times> instant \<Rightarrow> 'k jwks_cache \<Rightarrow> 'k jwks_cache" where
  "put_document from_rsa d c = c\<lparr>jc_keys := document_keys from_rsa (fst d), jc_last_refresh := Some (snd d)\<rparr>"

lemma put_documents:
  "fold (put_document from_rsa) ds c = (if ds = [] then c else put_document from_rsa (last ds) c)"
  by (induction ds arbitrary: c) (auto simp: put_document_def)

lemma get_key_cache:
  "get_key from_rsa (fe_now env) (fe_outcome env) (fe_fetched_at env) kid c = (r, c1, asked) \<Longrightarrow>
     c1 = fold (put_document from_rsa) (fetched_document env asked) c"
  by (auto simp: get_key_def fetched_document_def refresh_def put_document_def
      split: option.splits fetch_outcome.splits)

lemma validate_jwt_cache:
  assumes "validate_jwt lib env token v = (r, v1, asked)"
  shows "v1 = v\<lparr>jv_cache := fold (put_document (tl_from_rsa lib)) (fetched_document env asked) (jv_cache v)\<rparr>"
  using assms
  by (auto simp: validate_jwt_def fetched_document_def [of env False] split: sum.splits option.splits prod.splits
      dest!: get_key_cache)

lemma middleware_cache:
  assumes "jwt_auth_middleware lib env auth v = (g, v1, asked)"
  shows "v1 = v\<lparr>jv_cache := fold (put_document (tl_from_rsa lib)) (fetched_document env asked) (jv_cache v)\<rparr>"
  using assms
  by (auto simp: jwt_auth_middleware_def fetched_document_def split: option.splits prod.splits sum.splits
      dest: validate_jwt_cache)

lemma sso_run_cache:
  "sso_run lib rs v = (v1, docs, gs) \<Longrightarrow>
     v1 = v\<lparr>jv_cache := fold (put_document (tl_from_rsa lib)) docs (jv_cache v)\<rparr>"
proof (induction rs arbitrary: v v1 docs gs)
  case Nil
  then show ?case by simp
next
  case (Cons r rs)
  obtain env auth where r: "r = (env, auth)" by (cases r)
  obtain g w asked where m: "jwt_auth_middleware lib env auth v = (g, w, asked)" by (metis prod_cases3)
  obtain v2 docs2 gs2 where rest: "sso_run lib rs w = (v2, docs2, gs2)" by (metis prod_cases3)
  have "v1 = v2" "docs = fetched_document env asked @ docs2"
    using Cons.prems by (simp_all add: r m rest)
  then show ?case
    using Cons.IH [OF rest] middleware_cache [OF m] by simp
qed

text \<open>What a key that the cache gives out is.\<close>

lemma get_key_Ok:
  assumes "get_key from_rsa (fe_now env) (fe_outcome env) (fe_fetched_at env) kid (fold (put_document from_rsa) docs (jc_new url ttl))
             = (Ok key, c, asked)"
  shows "docs @ fetched_document env asked \<noteq> []
     \<and> dict_get (document_keys from_rsa (fst (last (docs @ fetched_document env asked)))) kid = Some key
     \<and> (asked \<or> duration_since (fe_now env) (snd (last docs)) < ttl)"
proof (cases "cached_key (fe_now env) kid (fold (put_document from_rsa) docs (jc_new url ttl))")
  case None
  then obtain doc where "fe_outcome env = Fetched doc" "asked" "dict_get (document_keys from_rsa doc) kid = Some key"
    using assms by (auto simp: get_key_def refresh_def split: fetch_outcome.splits option.splits)
  then show ?thesis by (simp add: fetched_document_def)
next
  case (Some k)
  then have "k = key" "\<not> asked" using assms by (simp_all add: get_key_def)
  moreover have "docs \<noteq> []" "dict_get (document_keys from_rsa (fst (last docs))) kid = Some k"
    "duration_since (fe_now env) (snd (last docs)) < ttl"
    using Some
    by (auto simp: cached_key_def needs_refresh_def put_documents put_document_def jc_new_def split: if_splits)
  ultimately show ?thesis by (simp add: fetched_document_def)
qed

lemma middleware_PassedOn:
  assumes "jwt_auth_middleware lib env auth v = (PassedOn claims, v1, asked)"
  obtains token h kid key c raw where
    "bearer_token auth = Some token" "tl_decode_header lib token = Ok h" "th_kid h = Some kid"
    "get_key (tl_from_rsa lib) (fe_now env) (fe_outcome env) (fe_fetched_at env) kid (jv_cache v) = (Ok key, c, asked)"
    "tl_decode lib token key \<lparr>tr_alg = th_alg h, tr_issuer = jv_issuer v, tr_audience = jv_audience v\<rparr> = Ok raw"
    "claims = into_jwt_claims (tl_show_json lib) raw"
  using assms
  by (auto simp: jwt_auth_middleware_def validate_jwt_def split: option.splits prod.splits sum.splits)

text \<open>
  C38. After any requests to a gateway with single sign-on, a request that the middleware lets through has a bearer
  token whose header names a key of the last document fetched from the provider; the document was fetched for this
  very request or less than an hour before it, and the token decodes under this key for the configured issuer and
  audience to the claims that are passed on.
\<close>

theorem token_needs_current_key:
  assumes "sso_run lib rs (from_sso_config sso) = (v, docs, gs)"
    and "jwt_auth_middleware lib env auth v = (PassedOn claims, v1, asked)"
  shows "\<exists>token h kid key raw. bearer_token auth = Some token \<and> tl_decode_header lib token = Ok h \<and> th_kid h = Some kid
     \<and> docs @ fetched_document env asked \<noteq> []
     \<and> dict_get (document_keys (tl_from_rsa lib) (fst (last (docs @ fetched_document env asked)))) kid = Some key
     \<and> (asked \<or> duration_since (fe_now env) (snd (last docs)) < 3600 * 1000000000)
     \<and> tl_decode lib token key \<lparr>tr_alg = th_alg h, tr_issuer = ss_issuer sso, tr_audience = ss_audience sso\<rparr> = Ok raw
     \<and> claims = into_jwt_claims (tl_show_json lib) raw"
proof -
  have v: "jv_issuer v = ss_issuer sso" "jv_audience v = ss_audience sso"
    "jv_cache v = fold (put_document (tl_from_rsa lib)) docs (jc_new (ss_jwks_url sso) (3600 * 1000000000))"
    using sso_run_cache [OF assms(1)] by (simp_all add: from_sso_config_def with_default_ttl_def from_secs_def)
  obtain token h kid key c raw where t: "bearer_token auth = Some token" "tl_decode_header lib token = Ok h"
      "th_kid h = Some kid"
    and k: "get_key (tl_from_rsa lib) (fe_now env) (fe_outcome env) (fe_fetched_at env) kid (jv_cache v) = (Ok key, c, asked)"
    and d: "tl_decode lib token key \<lparr>tr_alg = th_alg h, tr_issuer = jv_issuer v, tr_audience = jv_audience v\<rparr> = Ok raw"
      "claims = into_jwt_claims (tl_show_json lib) raw"
    by (rule middleware_PassedOn [OF assms(2)])
  show ?thesis using t d [unfolded v] get_key_Ok [OF k [unfolded v]] by blast
qed

definition demo_library :: "string token_library" where
  "demo_library =
     \<lparr>tl_decode_header = (\<lambda>t. if t = ''secret'' then Err ''InvalidToken'' else Ok \<lparr>th_alg = ''RS256'', th_kid = Some t\<rparr>),
      tl_decode = (\<lambda>t k r. if k = t @ ''-key'' then Ok \<lparr>rw_sub = t, rw_email = None, rw_roles = [],
        rw_scope = Some ''read write'', rw_iss = Some (tr_issuer r), rw_aud = None\<rparr> else Err ''InvalidSignature''),
      tl_from_rsa = (\<lambda>n e. Some (n @ ''-'' @ e)), tl_show_json = (\<lambda>j. [])\<rparr>"

definition demo_jwk :: "string \<Rightarrow> jwk" where
  "demo_jwk kid = \<lparr>jw_kty = ''RSA'', jw_kid = Some kid, jw_alg = None, jw_n = Some kid, jw_e = Some ''key'', jw_use = None\<rparr>"

definition demo_sso :: sso_config where
  "demo_sso = \<lparr>ss_jwks_url = ''https://idp/keys'', ss_issuer = ''idp'', ss_audience = ''gw''\<rparr>"

definition demo_env :: "instant \<Rightarrow> fetch_env" where
  "demo_env t = \<lparr>fe_now = t, fe_outcome = Fetched [demo_jwk ''ann'', demo_jwk ''bob''], fe_fetched_at = t + 5\<rparr>"

lemmas demo_sso_defs = demo_library_def demo_jwk_def demo_sso_def demo_env_def

lemmas sso_defs = jwt_auth_middleware_def validate_jwt_def get_key_def cached_key_def needs_refresh_def
  duration_since_def refresh_def document_keys_def add_jwk_def decoding_key_from_jwk_def from_sso_config_def
  with_default_ttl_def jc_new_def from_secs_def

lemma bearer_eval:
  "bearer_token (Some ''Bearer ann'') = Some ''ann''" "bearer_token (Some ''Bearer bob'') = Some ''bob''"
  "bearer_token (Some ''Bearer secret'') = Some ''secret''"
  by (simp_all add: bearer_token_def header_text_def strip_prefix_def)

lemma token_needs_current_key_witness:
  "\<exists>v docs gs claims v1 asked.
     sso_run demo_library [(demo_env 100, Some ''Bearer ann'')] (from_sso_config demo_sso) = (v, docs, gs)
     \<and> jwt_auth_middleware demo_library (demo_env 200) (Some ''Bearer bob'') v = (PassedOn claims, v1, asked)
     \<and> \<not> asked \<and> length docs = 1
     \<and> (asked \<or> duration_since (fe_now (demo_env 200)) (snd (last docs)) < 3600 * 1000000000)"
proof -
  obtain v docs gs where r: "sso_run demo_library [(demo_env 100, Some ''Bearer ann'')] (from_sso_config demo_sso) = (v, docs, gs)"
    by (metis prod_cases3)
  have v: "v = \<lparr>jv_cache = \<lparr>jc_url = ''https://idp/keys'', jc_ttl = 3600 * 1000000000,
        jc_keys = [(''ann'', ''ann-key''), (''bob'', ''bob-key'')], jc_last_refresh = Some 105\<rparr>,
        jv_issuer = ''idp'', jv_audience = ''gw''\<rparr>" "length docs = 1"
    using r by (auto simp: demo_sso_defs sso_defs bearer_eval fetched_document_def)
  have m: "jwt_auth_middleware demo_library (demo_env 200) (Some ''Bearer bob'') v =
      (PassedOn (into_jwt_claims (\<lambda>j. []) \<lparr>rw_sub = ''bob'', rw_email = None, rw_roles = [],
        rw_scope = Some ''read write'', rw_iss = Some ''idp'', rw_aud = None\<rparr>), v, False)"
    by (simp add: v demo_sso_defs sso_defs bearer_eval)
  show ?thesis using r m v(2) token_needs_current_key [OF r m] by blast
qed

section \<open>Unknown keys\<close>

lemma get_key_unknown:
  assumes "dict_get (jc_keys c) kid = None"
    and "\<And>doc. out = Fetched doc \<Longrightarrow> dict_get (document_keys from_rsa doc) kid = None"
  shows "\<exists>e c1. get_key from_rsa now out t kid c = (Err e, c1, True)
     \<and> (jc_keys c1 = jc_keys c \<or> (\<exists>doc. out = Fetched doc \<and> jc_keys c1 = document_keys from_rsa doc))"
  using assms by (auto simp: get_key_def cached_key_def refresh_def split: fetch_outcome.split)

definition names_unknown_key :: "'k token_library \<Rightarrow> string option \<Rightarrow> string \<Rightarrow> bool" where
  "names_unknown_key lib auth kid \<longleftrightarrow>
     (case bearer_token auth of None \<Rightarrow> False
      | Some token \<Rightarrow> (case tl_decode_header lib token of Err e \<Rightarrow> False | Ok h \<Rightarrow> th_kid h = Some kid))"

fun asked_of :: "'k token_library \<Rightarrow> (fetch_env \<times> string option) list \<Rightarrow> 'k jwt_validator \<Rightarrow> bool list" where
  "asked_of lib [] v = []"
| "asked_of lib ((env, auth) # rs) v =
     (let (g, v1, asked) = jwt_auth_middleware lib env auth v in asked # asked_of lib rs v1)"

text \<open>
  Tokens that name a key which no document has are refused, but each of them makes the gateway ask the
  identity provider again, however recently it did: there is no pause between fetches.
\<close>

theorem unknown_kid_always_asks:
  assumes "dict_get (jc_keys (jv_cache v)) kid = None"
    and "\<forall>r\<in>set rs. names_unknown_key lib (snd r) kid
           \<and> (\<forall>doc. fe_outcome (fst r) = Fetched doc \<longrightarrow> dict_get (document_keys (tl_from_rsa lib) doc) kid = None)"
  shows "asked_of lib rs v = replicate (length rs) True"
  using assms
proof (induction rs arbitrary: v)
  case Nil
  then show ?case by simp
next
  case (Cons r rs)
  obtain env auth where r: "r = (env, auth)" by (cases r)
  obtain token h where t: "bearer_token auth = Some token" "tl_decode_header lib token = Ok h" "th_kid h = Some kid"
    using Cons.prems(2) by (auto simp: r names_unknown_key_def split: option.splits sum.splits)
  obtain e c1 where k: "get_key (tl_from_rsa lib) (fe_now env) (fe_outcome env) (fe_fetched_at env) kid (jv_cache v) = (Err e, c1, True)"
      and c1: "jc_keys c1 = jc_keys (jv_cache v) \<or> (\<exists>doc. fe_outcome env = Fetched doc \<and> jc_keys c1 = document_keys (tl_from_rsa lib) doc)"
    using get_key_unknown [OF Cons.prems(1), of "fe_outcome env" "tl_from_rsa lib"] Cons.prems(2) by (fastforce simp: r)
  have "dict_get (jc_keys c1) kid = None" using c1 Cons.prems by (auto simp: r)
  then have "asked_of lib rs (v\<lparr>jv_cache := c1\<rparr>) = replicate (length rs) True"
    using Cons.prems(2) by (intro Cons.IH) auto
  then show ?case by (simp add: r jwt_auth_middleware_def validate_jwt_def t k)
qed

lemma unknown_kid_always_asks_witness:
  "asked_of demo_library [(demo_env 10, Some ''Bearer eve''), (demo_env 11, Some ''Bearer eve'')] (from_sso_config demo_sso)
     = [True, True]"
proof -
  have "bearer_token (Some ''Bearer eve'') = Some ''eve''"
    by (simp add: bearer_token_def header_text_def strip_prefix_def)
  then show ?thesis
    using unknown_kid_always_asks [of "from_sso_config demo_sso" "''eve''"
      "[(demo_env 10, Some ''Bearer eve''), (demo_env 11, Some ''Bearer eve'')]" demo_library]
    by (simp add: names_unknown_key_def demo_sso_defs sso_defs numeral_2_eq_2)
qed

section \<open>Scopes\<close>

definition graphic :: "char \<Rightarrow> bool" where
  "graphic c \<longleftrightarrow> 32 < (of_char c :: nat) \<and> (of_char c :: nat) < 127"

lemma ws_not_graphic: "w \<in> set ws_encodings \<Longrightarrow> \<exists>d r. w = d # r \<and> \<not> graphic d"
  by (auto simp: ws_encodings_def graphic_def)

lemma graphic_no_space: "graphic c \<Longrightarrow> find (\<lambda>w. prefix w (c # s)) ws_encodings = None"
  using ws_not_graphic by (fastforce simp: find_None_iff prefix_Cons)

lemma split_ws_word: "list_all graphic w \<Longrightarrow> split_ws 0 acc (w @ s) = split_ws 0 (acc @ w) s"
  by (induction w arbitrary: acc) (simp_all add: graphic_no_space)

lemma split_ws_space: "split_ws 0 acc (CHR '' '' # s) = flush acc @ split_ws 0 [] s"
  by (simp add: ws_encodings_def char_of_eq_iff)

text \<open>
  A scope claim that joins its scopes with single blanks is taken apart into exactly these scopes.
\<close>

theorem scopes_roundtrip:
  assumes "\<forall>w\<in>set ws. w \<noteq> [] \<and> list_all graphic w"
  shows "split_whitespace (join '' '' ws) = ws"
proof -
  have "\<lbrakk>\<forall>w\<in>set ws. w \<noteq> [] \<and> list_all graphic w; ws \<noteq> []\<rbrakk> \<Longrightarrow> split_ws 0 [] (join '' '' ws) = ws"
  proof (induction "'' ''" ws rule: join.induct)
    case (2 w)
    then show ?case using split_ws_word [of w "[]" "[]"] by (simp add: flush_def)
  next
    case (3 w x xs)
    then show ?case using split_ws_word [of w "[]" "CHR '' '' # join '' '' (x # xs)"]
      by (simp add: split_ws_space flush_def del: split_ws.simps(3))
  qed simp
  then show ?thesis using assms by (cases "ws = []") (simp_all add: split_whitespace_def flush_def)
qed

lemma scopes_roundtrip_witness: "split_whitespace (join '' '' [''read'', ''tools:call'']) = [''read'', ''tools:call'']"
  by (rule scopes_roundtrip) (simp add: graphic_def)

end
