(* ===== verification/InboundHook.thy ===== *)
theory InboundHook
  imports ConfigReload MessageGate SessionBridge SsoTokens
begin

text \<open>
  The inbound webhook: the handler of \<open>src/webhook.rs\<close>, the route in front of it and its layers from
  \<open>src/gateway_routes.rs\<close>. Instants are nanoseconds; identifiers and the wall clock are arguments. Slicing a key
  inside a character panics: the request has no response (\<open>None\<close>). The queue to the gateway takes every message
  while its receiver is there; waiting for room in it is not modelled.
\<close>

section \<open>Handler\<close>

record webhook_request =
  wq_text :: string
  wq_channel :: "string option"
  wq_target :: "string option"
  wq_metadata :: "json dict option"

record webhook_response =
  wr_status :: string
  wr_response :: "string option"
  wr_request_id :: "string option"

datatype webhook_error = ChannelClosed | HookUnauthorized | HookDisabled | PayloadTooLarge string nat

definition max_webhook_text_length :: nat where "max_webhook_text_length = 65536"
definition max_metadata_entries :: nat where "max_metadata_entries = 32"
definition max_metadata_string_length :: nat where "max_metadata_string_length = 1024"

fun webhook_error_text :: "webhook_error \<Rightarrow> string" where
  "webhook_error_text ChannelClosed = ''inbound channel closed''"
| "webhook_error_text HookUnauthorized = ''unauthorized''"
| "webhook_error_text HookDisabled = ''webhooks disabled''"
| "webhook_error_text (PayloadTooLarge f n) = ''payload too large: '' @ f @ '' exceeds max '' @ show_nat n"

record webhook_handler =
  wh_config :: hooks_config
  wh_receiving :: bool
  wh_sent :: "inbound_message list"

definition update_hooks :: "hooks_config \<Rightarrow> webhook_handler \<Rightarrow> webhook_handler" where
  "update_hooks new w = w\<lparr>wh_config := new\<rparr>"

definition hook_path :: "webhook_handler \<Rightarrow> string" where
  "hook_path w = (case hk_path (wh_config w) of Some p \<Rightarrow> p | None \<Rightarrow> ''/hooks/inbound'')"

definition is_enabled :: "webhook_handler \<Rightarrow> bool" where
  "is_enabled w = hk_enabled (wh_config w)"

definition validate_token :: "string option \<Rightarrow> webhook_handler \<Rightarrow> (unit, unit) result" where
  "validate_token auth w = (case hk_token (wh_config w) of
     None \<Rightarrow> Ok ()
   | Some expected \<Rightarrow> (case Option.bind auth (strip_prefix ''Bearer '') of
       Some token \<Rightarrow> if length token = length expected \<and> token = expected then Ok () else Err ()
     | None \<Rightarrow> Err ()))"

text \<open>\<open>&k[..k.len().min(32)]\<close> between quotes.\<close>

definition quoted_key :: "string \<Rightarrow> string \<Rightarrow> string option" where
  "quoted_key what k =
     map_option (\<lambda>t. what @ '' '' @ [CHR 0x27] @ t @ [CHR 0x27]) (slice_to (min (length k) 32) k)"

definition too_long :: "string \<Rightarrow> string \<Rightarrow> (webhook_error, unit) result option" where
  "too_long what k = map_option (\<lambda>f. Err (PayloadTooLarge f max_metadata_string_length)) (quoted_key what k)"

fun check_entries :: "json dict \<Rightarrow> (webhook_error, unit) result option" where
  "check_entries [] = Some (Ok ())"
| "check_entries ((k, v) # d) =
     (if length k > max_metadata_string_length then too_long ''metadata key'' k
      else case as_str v of
        Some s \<Rightarrow> if length s > max_metadata_string_length then too_long ''metadata value for'' k else check_entries d
      | None \<Rightarrow> check_entries d)"

definition validate_request :: "webhook_request \<Rightarrow> (webhook_error, unit) result option" where
  "validate_request req =
     (if length (wq_text req) > max_webhook_text_length
        then Some (Err (PayloadTooLarge ''text'' max_webhook_text_length))
      else case wq_metadata req of
        None \<Rightarrow> Some (Ok ())
      | Some meta \<Rightarrow>
          if length meta > max_metadata_entries
            then Some (Err (PayloadTooLarge ''metadata entries'' max_metadata_entries))
          else check_entries meta)"

definition insert_opt :: "string \<Rightarrow> string option \<Rightarrow> json dict \<Rightarrow> json dict" where
  "insert_opt k v d = (case v of Some s \<Rightarrow> dict_put k (JStr s) d | None \<Rightarrow> d)"

definition hook_message :: "string \<Rightarrow> int \<Rightarrow> webhook_request \<Rightarrow> inbound_message" where
  "hook_message uuid utc req =
     \<lparr>im_channel_type = Webhook, im_account_id = [], im_sender_id = ''webhook'', im_sender_name = Some ''webhook'',
      im_text = wq_text req, im_is_group = False, im_group_id = None, im_is_mention = False,
      im_platform_message_id = uuid,
      im_metadata = insert_opt ''webhook_target'' (wq_target req) (insert_opt ''webhook_channel'' (wq_channel req)
        (case wq_metadata req of Some d \<Rightarrow> d | None \<Rightarrow> [])),
      im_source = FromWebhook uuid, im_timestamp = utc\<rparr>"

definition process_request ::
  "string \<Rightarrow> int \<Rightarrow> webhook_request \<Rightarrow> webhook_handler \<Rightarrow> (webhook_error, string) result option \<times> webhook_handler" where
  "process_request uuid utc req w = (case validate_request req of
     None \<Rightarrow> (None, w)
   | Some (Err e) \<Rightarrow> (Some (Err e), w)
   | Some (Ok _) \<Rightarrow>
       if wh_receiving w then (Some (Ok uuid), w\<lparr>wh_sent := wh_sent w @ [hook_message uuid utc req]\<rparr>)
       else (Some (Err ChannelClosed), w))"

section \<open>Route\<close>

record hook_route =
  hr_handler :: webhook_handler
  hr_count :: "64 word"
  hr_window_start :: instant

definition max_requests_per_minute :: "64 word" where "max_requests_per_minute = 60"

definition minute :: duration where "minute = 60 * 1000000000"

definition status_only :: "nat \<Rightarrow> string \<Rightarrow> nat \<times> webhook_response" where
  "status_only code s = (code, \<lparr>wr_status = s, wr_response = None, wr_request_id = None\<rparr>)"

text \<open>The counter is read, increased and compared under the lock of the start of the window.\<close>

definition count_request :: "instant \<Rightarrow> hook_route \<Rightarrow> bool \<times> hook_route" where
  "count_request now r =
     (let r1 = (if duration_since now (hr_window_start r) > minute
                then r\<lparr>hr_window_start := now, hr_count := 0\<rparr> else r)
      in (hr_count r1 < max_requests_per_minute, r1\<lparr>hr_count := hr_count r1 + 1\<rparr>))"

record hook_call =
  hc_now :: instant
  hc_utc :: int
  hc_uuid :: string
  hc_auth :: "string option"
  hc_body :: "(nat, webhook_request) result"

definition route_answer :: "(webhook_error, string) result \<Rightarrow> nat \<times> webhook_response" where
  "route_answer res = (case res of
     Ok rid \<Rightarrow> (200, \<lparr>wr_status = ''ok'', wr_response = None, wr_request_id = Some rid\<rparr>)
   | Err e \<Rightarrow> status_only (case e of PayloadTooLarge f n \<Rightarrow> 413 | _ \<Rightarrow> 500) (''error: '' @ webhook_error_text e))"

definition webhook_route ::
  "hook_call \<Rightarrow> webhook_request \<Rightarrow> hook_route \<Rightarrow> (nat \<times> webhook_response) option \<times> hook_route" where
  "webhook_route call body r =
     (let (admitted, r1) = count_request (hc_now call) r in
      if \<not> admitted then (Some (status_only 429 ''rate limited''), r1)
      else if \<not> is_enabled (hr_handler r1) then (Some (status_only 503 ''disabled''), r1)
      else if validate_token (Option.bind (hc_auth call) header_text) (hr_handler r1) = Err ()
        then (Some (status_only 401 ''unauthorized''), r1)
      else let (res, w) = process_request (hc_uuid call) (hc_utc call) body (hr_handler r1)
           in (map_option route_answer res, r1\<lparr>hr_handler := w\<rparr>))"

text \<open>
  What the outside sees: the middleware of single sign-on, if it is configured, then the extractor of the body,
  which answers a body that is not such a request itself, then the route.
\<close>

datatype hook_answer = Answer nat string | Dropped

definition shown :: "(nat \<times> webhook_response) option \<Rightarrow> hook_answer" where
  "shown res = (case res of None \<Rightarrow> Dropped | Some (code, w) \<Rightarrow> Answer code (wr_status w))"

definition post_hook ::
  "'k token_library \<Rightarrow> fetch_env \<Rightarrow> hook_call \<Rightarrow> 'k jwt_validator option \<times> hook_route
     \<Rightarrow> hook_answer \<times> 'k jwt_validator option \<times> hook_route" where
  "post_hook lib env call s =
     (let (guard, v1) =
        (case fst s of None \<Rightarrow> (None, None)
         | Some v \<Rightarrow> (case jwt_auth_middleware lib env (hc_auth call) v of
             (Unauthorized msg, v', _) \<Rightarrow> (Some msg, Some v') | (PassedOn claims, v', _) \<Rightarrow> (None, Some v')))
      in case guard of Some msg \<Rightarrow> (Answer 401 msg, v1, snd s)
       | None \<Rightarrow> (case hc_body call of Err code \<Rightarrow> (Answer code [], v1, snd s)
           | Ok body \<Rightarrow> (let (res, r) = webhook_route call body (snd s) in (shown res, v1, r))))"

fun run_hook ::
  "'k token_library \<Rightarrow> (fetch_env \<times> hook_call) list \<Rightarrow> 'k jwt_validator option \<times> hook_route
     \<Rightarrow> hook_answer list \<times> 'k jwt_validator option \<times> hook_route" where
  "run_hook lib [] s = ([], s)"
| "run_hook lib ((env, call) # cs) s =
     (let (a, s1) = post_hook lib env call s; (as, s2) = run_hook lib cs s1 in (a # as, s2))"

section \<open>What one request does\<close>

abbreviation accepted_answer :: hook_answer where "accepted_answer \<equiv> Answer 200 ''ok''"

definition guarded :: "'k token_library \<Rightarrow> fetch_env \<Rightarrow> hook_call \<Rightarrow> 'k jwt_validator option \<Rightarrow> bool" where
  "guarded lib env call vo = (case vo of None \<Rightarrow> True
     | Some v \<Rightarrow> (case fst (jwt_auth_middleware lib env (hc_auth call) v) of PassedOn claims \<Rightarrow> True | Unauthorized e \<Rightarrow> False))"

definition deliverable :: "hook_call \<Rightarrow> webhook_request \<Rightarrow> hook_route \<Rightarrow> bool" where
  "deliverable call body r \<longleftrightarrow>
     fst (count_request (hc_now call) r) \<and> is_enabled (hr_handler r)
     \<and> validate_token (Option.bind (hc_auth call) header_text) (hr_handler r) = Ok ()
     \<and> validate_request body = Some (Ok ()) \<and> wh_receiving (hr_handler r)"

lemma count_request_handler [simp]: "hr_handler (snd (count_request now r)) = hr_handler r"
  by (simp add: count_request_def Let_def)

lemma unit_result: "(x :: (unit, unit) result) = Err () \<longleftrightarrow> x \<noteq> Ok ()"
  by (cases x) auto

lemma shown_answer: "shown (map_option route_answer res) = accepted_answer \<longleftrightarrow> (\<exists>rid. res = Some (Ok rid))"
  by (cases res; cases "the res") (auto simp: shown_def route_answer_def status_only_def split: webhook_error.split)

lemma process_request_parts:
  "snd (process_request uuid utc body w) =
     (if validate_request body = Some (Ok ()) \<and> wh_receiving w
      then w\<lparr>wh_sent := wh_sent w @ [hook_message uuid utc body]\<rparr> else w)"
  "(\<exists>rid. fst (process_request uuid utc body w) = Some (Ok rid)) \<longleftrightarrow> validate_request body = Some (Ok ()) \<and> wh_receiving w"
  by (auto simp: process_request_def split: option.split sum.split)

lemma webhook_route_parts:
  "snd (webhook_route call body r) = (snd (count_request (hc_now call) r))\<lparr>hr_handler :=
     (if deliverable call body r
      then (hr_handler r)\<lparr>wh_sent := wh_sent (hr_handler r) @ [hook_message (hc_uuid call) (hc_utc call) body]\<rparr>
      else hr_handler r)\<rparr>"
  "shown (fst (webhook_route call body r)) = accepted_answer \<longleftrightarrow> deliverable call body r"
proof -
  obtain adm r1 where c: "count_request (hc_now call) r = (adm, r1)" by (cases "count_request (hc_now call) r")
  have h: "hr_handler r = hr_handler r1" using count_request_handler [of "hc_now call" r] by (simp add: c)
  obtain res w where pr: "process_request (hc_uuid call) (hc_utc call) body (hr_handler r1) = (res, w)"
    by (cases "process_request (hc_uuid call) (hc_utc call) body (hr_handler r1)")
  note parts = process_request_parts [of "hc_uuid call" "hc_utc call" body "hr_handler r1", unfolded pr fst_conv snd_conv]
  have rej: "shown (Some (status_only n t)) = Answer n t" for n t by (simp add: shown_def status_only_def)
  show "snd (webhook_route call body r) = (snd (count_request (hc_now call) r))\<lparr>hr_handler :=
     (if deliverable call body r
      then (hr_handler r)\<lparr>wh_sent := wh_sent (hr_handler r) @ [hook_message (hc_uuid call) (hc_utc call) body]\<rparr>
      else hr_handler r)\<rparr>"
    by (simp add: webhook_route_def deliverable_def unit_result c h pr parts)
  show "shown (fst (webhook_route call body r)) = accepted_answer \<longleftrightarrow> deliverable call body r"
    by (simp add: webhook_route_def deliverable_def unit_result c h pr rej shown_answer parts)
qed

lemma post_hook_parts:
  "snd (snd (post_hook lib env call (vo, r))) =
     (if guarded lib env call vo
      then (case hc_body call of Ok body \<Rightarrow> snd (webhook_route call body r) | Err code \<Rightarrow> r) else r)"
  "fst (post_hook lib env call (vo, r)) = accepted_answer \<longleftrightarrow>
     guarded lib env call vo \<and> (\<exists>body. hc_body call = Ok body \<and> deliverable call body r)"
  by (auto simp: post_hook_def guarded_def Let_def webhook_route_parts(2) [symmetric]
      split: option.split prod.split guard_result.split sum.split)

section \<open>Who gets a message in\<close>

lemma post_hook_sent:
  "wh_sent (hr_handler (snd (snd (post_hook lib env call (vo, r))))) =
     wh_sent (hr_handler r) @
       (if fst (post_hook lib env call (vo, r)) = accepted_answer
        then (case hc_body call of Ok body \<Rightarrow> [hook_message (hc_uuid call) (hc_utc call) body] | Err code \<Rightarrow> []) else [])"
  by (auto simp: post_hook_parts webhook_route_parts split: sum.split)

lemma post_hook_config:
  "wh_config (hr_handler (snd (snd (post_hook lib env call (vo, r))))) = wh_config (hr_handler r)"
  by (simp add: post_hook_parts webhook_route_parts split: sum.split)

lemma token_accepted:
  assumes "hk_token (wh_config w) = Some tok" "validate_token (Option.bind auth header_text) w = Ok ()"
  shows "auth = Some (''Bearer '' @ tok)"
  using assms
  by (auto simp: validate_token_def header_text_def strip_prefix_Some bind_eq_Some_conv split: option.splits if_splits)

lemma deliverable_bearer:
  "\<lbrakk>deliverable call body r; hk_token (wh_config (hr_handler r)) = Some tok\<rbrakk> \<Longrightarrow> bearer_token (hc_auth call) = Some tok"
  unfolding deliverable_def validate_token_def bearer_token_def
  by (auto split: option.splits if_splits)

text \<open>The calls that were answered with success, in order.\<close>

definition accepted_calls :: "(fetch_env \<times> hook_call) list \<Rightarrow> hook_answer list \<Rightarrow> hook_call list" where
  "accepted_calls cs as = map (snd \<circ> fst) (filter (\<lambda>p. snd p = accepted_answer) (zip cs as))"

definition message_of_call :: "hook_call \<Rightarrow> inbound_message" where
  "message_of_call call = hook_message (hc_uuid call) (hc_utc call)
     (case hc_body call of Ok body \<Rightarrow> body | Err code \<Rightarrow> \<lparr>wq_text = [], wq_channel = None, wq_target = None, wq_metadata = None\<rparr>)"

definition within_limits :: "webhook_request \<Rightarrow> bool" where
  "within_limits body \<longleftrightarrow> length (wq_text body) \<le> 65536
     \<and> (\<forall>meta. wq_metadata body = Some meta \<longrightarrow> length meta \<le> 32
          \<and> (\<forall>(k, v)\<in>set meta. length k \<le> 1024 \<and> (\<forall>s. v = JStr s \<longrightarrow> length s \<le> 1024)))"

lemma check_entries_Ok:
  "check_entries d = Some (Ok ()) \<longleftrightarrow> (\<forall>(k, v)\<in>set d. length k \<le> 1024 \<and> (\<forall>s. v = JStr s \<longrightarrow> length s \<le> 1024))"
proof (induction d)
  case Nil
  then show ?case by simp
next
  case (Cons kv d)
  obtain k v where kv: "kv = (k, v)" by (cases kv)
  have "too_long what k \<noteq> Some (Ok ())" for what by (simp add: too_long_def)
  then show ?case using Cons.IH by (cases v) (auto simp: kv max_metadata_string_length_def)
qed

lemma validate_request_Ok: "validate_request body = Some (Ok ()) \<longleftrightarrow> within_limits body"
  by (auto simp: validate_request_def within_limits_def check_entries_Ok max_webhook_text_length_def
      max_metadata_entries_def split: option.splits)

lemma run_hook_accepted:
  "run_hook lib cs (vo, r) = (as, vo', r') \<Longrightarrow>
     length as = length cs \<and> wh_config (hr_handler r') = wh_config (hr_handler r)
     \<and> wh_sent (hr_handler r') = wh_sent (hr_handler r) @ map message_of_call (accepted_calls cs as)
     \<and> (\<forall>call\<in>set (accepted_calls cs as). (\<exists>body. hc_body call = Ok body \<and> within_limits body)
          \<and> (\<forall>tok. hk_token (wh_config (hr_handler r)) = Some tok \<longrightarrow> hc_auth call = Some (''Bearer '' @ tok)))"
proof (induction cs arbitrary: vo r as vo' r')
  case Nil
  then show ?case by (auto simp: accepted_calls_def)
next
  case (Cons c cs)
  obtain env call where c: "c = (env, call)" by (cases c)
  obtain a vo1 r1 where p: "post_hook lib env call (vo, r) = (a, vo1, r1)" by (metis prod_cases3)
  obtain bs vo2 r2 where rest: "run_hook lib cs (vo1, r1) = (bs, vo2, r2)" by (metis prod_cases3)
  have eq: "as = a # bs" "vo' = vo2" "r' = r2" using Cons.prems by (simp_all add: c p rest)
  note IH = Cons.IH [OF rest]
  have cfg: "wh_config (hr_handler r1) = wh_config (hr_handler r)"
    using post_hook_config [of lib env call vo r] by (simp add: p)
  have acc: "a = accepted_answer \<longleftrightarrow> guarded lib env call vo \<and> (\<exists>body. hc_body call = Ok body \<and> deliverable call body r)"
    using post_hook_parts(2) [of lib env call vo r] by (simp add: p)
  have sent: "wh_sent (hr_handler r1) = wh_sent (hr_handler r) @ (if a = accepted_answer then [message_of_call call] else [])"
    using post_hook_sent [of lib env call vo r] acc by (auto simp: p message_of_call_def)
  show ?case
    using IH cfg sent acc
    by (auto simp: eq accepted_calls_def c deliverable_def validate_request_Ok dest: token_accepted)
qed

text \<open>
  C14. Over any requests, the messages that the webhook hands to the gateway are those of the requests it answers
  with success, in order; each of them came with a well-formed body within the limits and, when the hooks have a
  token, with exactly this token.
\<close>

theorem hook_messages_authorized:
  assumes "run_hook lib cs (vo, r) = (as, vo', r')"
  shows "wh_sent (hr_handler r') = wh_sent (hr_handler r) @ map message_of_call (accepted_calls cs as)
     \<and> (\<forall>call\<in>set (accepted_calls cs as). (\<exists>body. hc_body call = Ok body \<and> within_limits body)
          \<and> (\<forall>tok. hk_token (wh_config (hr_handler r)) = Some tok \<longrightarrow> hc_auth call = Some (''Bearer '' @ tok)))"
  using run_hook_accepted [OF assms] by blast

definition hook_route_new :: "hooks_config \<Rightarrow> instant \<Rightarrow> hook_route" where
  "hook_route_new cfg now =
     \<lparr>hr_handler = \<lparr>wh_config = cfg, wh_receiving = True, wh_sent = []\<rparr>, hr_count = 0, hr_window_start = now\<rparr>"

definition demo_hooks :: hooks_config where
  "demo_hooks = \<lparr>hk_enabled = True, hk_token = Some ''secret'', hk_path = None\<rparr>"

definition demo_call :: "instant \<Rightarrow> string option \<Rightarrow> hook_call" where
  "demo_call t auth = \<lparr>hc_now = t, hc_utc = 0, hc_uuid = ''u'', hc_auth = auth,
     hc_body = Ok \<lparr>wq_text = ''deploy'', wq_channel = None, wq_target = Some ''ops'', wq_metadata = None\<rparr>\<rparr>"

lemmas demo_hook_defs = hook_route_new_def demo_hooks_def demo_call_def

lemma header_text_eval: "header_text ''Bearer secret'' = Some ''Bearer secret''" "header_text ''Bearer guess'' = Some ''Bearer guess''"
  by (simp_all add: header_text_def)

lemmas hook_eval = post_hook_def webhook_route_def count_request_def max_requests_per_minute_def minute_def
  duration_since_def is_enabled_def validate_token_def strip_prefix_def process_request_def validate_request_def
  max_webhook_text_length_def shown_def route_answer_def status_only_def header_text_eval

lemma demo_hook_run:
  "run_hook demo_library [(demo_env 1, demo_call 1 (Some ''Bearer guess'')), (demo_env 2, demo_call 2 (Some ''Bearer secret''))]
     (None, hook_route_new demo_hooks 0) =
     ([Answer 401 ''unauthorized'', Answer 200 ''ok''], None,
      \<lparr>hr_handler = \<lparr>wh_config = demo_hooks, wh_receiving = True, wh_sent = [message_of_call (demo_call 2 None)]\<rparr>,
       hr_count = 2, hr_window_start = 0\<rparr>)"
  by (simp add: demo_hook_defs hook_eval message_of_call_def)

lemma hook_messages_authorized_witness:
  "accepted_calls [(demo_env 1, demo_call 1 (Some ''Bearer guess'')), (demo_env 2, demo_call 2 (Some ''Bearer secret''))]
       [Answer 401 ''unauthorized'', Answer 200 ''ok''] = [demo_call 2 (Some ''Bearer secret'')]
   \<and> hc_auth (demo_call 2 (Some ''Bearer secret'')) = Some (''Bearer '' @ ''secret'')"
  using hook_messages_authorized [OF demo_hook_run]
  by (simp add: accepted_calls_def demo_hook_defs)

section \<open>Single sign-on in front of the webhook\<close>

text \<open>Some key verifies the token for the issuer and the audience of the gateway.\<close>

definition verified_by :: "'k token_library \<Rightarrow> sso_config \<Rightarrow> string \<Rightarrow> 'k dict \<Rightarrow> bool" where
  "verified_by lib sso token keys \<longleftrightarrow>
     (case tl_decode_header lib token of Err e \<Rightarrow> False
      | Ok h \<Rightarrow> (case Option.bind (th_kid h) (dict_get keys) of None \<Rightarrow> False
        | Some key \<Rightarrow> (case tl_decode lib token key \<lparr>tr_alg = th_alg h, tr_issuer = ss_issuer sso, tr_audience = ss_audience sso\<rparr> of
            Err e \<Rightarrow> False | Ok raw \<Rightarrow> True)))"

definition issued_by :: "'k token_library \<Rightarrow> sso_config \<Rightarrow> string \<Rightarrow> jwk list \<Rightarrow> bool" where
  "issued_by lib sso token doc \<longleftrightarrow> verified_by lib sso token (document_keys (tl_from_rsa lib) doc)"

definition never_issued :: "'k token_library \<Rightarrow> sso_config \<Rightarrow> string \<Rightarrow> fetch_env \<Rightarrow> bool" where
  "never_issued lib sso token env \<longleftrightarrow> (case fe_outcome env of Fetched doc \<Rightarrow> \<not> issued_by lib sso token doc | _ \<Rightarrow> True)"

definition locked_for :: "'k token_library \<Rightarrow> sso_config \<Rightarrow> string \<Rightarrow> 'k jwt_validator \<Rightarrow> bool" where
  "locked_for lib sso token v \<longleftrightarrow>
     jv_issuer v = ss_issuer sso \<and> jv_audience v = ss_audience sso \<and> \<not> verified_by lib sso token (jc_keys (jv_cache v))"

lemma get_key_source:
  "get_key from_rsa now out t kid c = (Ok key, c1, asked) \<Longrightarrow>
     dict_get (jc_keys c) kid = Some key \<or> (\<exists>doc. out = Fetched doc \<and> dict_get (document_keys from_rsa doc) kid = Some key)"
  by (auto simp: get_key_def cached_key_def refresh_def split: option.splits fetch_outcome.splits if_splits)

lemma locked_refuses:
  assumes "locked_for lib sso tok v" "never_issued lib sso tok env" "bearer_token auth = Some tok"
    and "jwt_auth_middleware lib env auth v = (g, v1, asked)"
  shows "g \<noteq> PassedOn claims"
proof
  assume "g = PassedOn claims"
  then obtain token h kid key c raw where t: "bearer_token auth = Some token" "tl_decode_header lib token = Ok h" "th_kid h = Some kid"
    and k: "get_key (tl_from_rsa lib) (fe_now env) (fe_outcome env) (fe_fetched_at env) kid (jv_cache v) = (Ok key, c, asked)"
    and d: "tl_decode lib token key \<lparr>tr_alg = th_alg h, tr_issuer = jv_issuer v, tr_audience = jv_audience v\<rparr> = Ok raw"
    using assms(4) by (metis middleware_PassedOn)
  have tok: "token = tok" using t(1) assms(3) by simp
  show False
    using get_key_source [OF k] assms(1,2) t(2,3) d
    by (auto simp: tok locked_for_def never_issued_def issued_by_def verified_by_def)
qed

lemma locked_stays:
  assumes "locked_for lib sso tok v" "never_issued lib sso tok env" "jwt_auth_middleware lib env auth v = (g, v1, asked)"
  shows "locked_for lib sso tok v1"
  using assms(1,2)
  by (auto simp: middleware_cache [OF assms(3)] locked_for_def never_issued_def issued_by_def fetched_document_def put_document_def
      split: fetch_outcome.splits)

lemma locked_post_hook:
  assumes "locked_for lib sso tok v" "never_issued lib sso tok env" "hk_token (wh_config (hr_handler r)) = Some tok"
    and "post_hook lib env call (Some v, r) = (a, vo1, r1)"
  shows "a \<noteq> accepted_answer \<and> (\<exists>v1. vo1 = Some v1 \<and> locked_for lib sso tok v1)"
proof
  obtain g w asked where m: "jwt_auth_middleware lib env (hc_auth call) v = (g, w, asked)" by (metis prod_cases3)
  have "\<not> guarded lib env call (Some v)" if "deliverable call body r" for body
    using locked_refuses [OF assms(1,2) deliverable_bearer [OF that assms(3)] m]
    by (simp add: guarded_def m split: guard_result.split)
  then show "a \<noteq> accepted_answer" using post_hook_parts(2) [of lib env call "Some v" r] assms(4) by auto
  have "vo1 = Some w" using assms(4) by (auto simp: post_hook_def Let_def m split: prod.splits guard_result.splits sum.splits)
  then show "\<exists>v1. vo1 = Some v1 \<and> locked_for lib sso tok v1" using locked_stays [OF assms(1,2) m] by blast
qed

lemma locked_hook_run:
  "\<lbrakk>run_hook lib cs (Some v, r) = (as, s); locked_for lib sso tok v; hk_token (wh_config (hr_handler r)) = Some tok;
    \<forall>c\<in>set cs. never_issued lib sso tok (fst c)\<rbrakk> \<Longrightarrow> accepted_answer \<notin> set as"
proof (induction cs arbitrary: v r as)
  case Nil
  then show ?case by simp
next
  case (Cons c cs)
  obtain env call where c: "c = (env, call)" by (cases c)
  obtain a vo1 r1 where p: "post_hook lib env call (Some v, r) = (a, vo1, r1)" by (metis prod_cases3)
  have env: "never_issued lib sso tok env" using Cons.prems(4) by (simp add: c)
  obtain v1 where v1: "a \<noteq> accepted_answer" "vo1 = Some v1" "locked_for lib sso tok v1"
    using locked_post_hook [OF Cons.prems(2) env Cons.prems(3) p] by blast
  obtain bs s2 where rest: "run_hook lib cs (Some v1, r1) = (bs, s2)" by (metis surj_pair)
  have cfg: "hk_token (wh_config (hr_handler r1)) = Some tok"
    using post_hook_config [of lib env call "Some v" r] Cons.prems(3) by (simp add: p)
  have eq: "as = a # bs" "s2 = s" using Cons.prems(1) by (simp_all add: c p v1 rest)
  show ?case using Cons.IH [OF rest [unfolded eq(2)] v1(3) cfg] Cons.prems(4) v1(1) by (simp add: eq(1))
qed

text \<open>
  C13. With single sign-on the webhook is locked: the middleware and the handler read the same header, so that the
  token of the hooks would have to be one that the identity provider issued. As long as it is not, that is, no key
  of the documents the provider serves verifies it for the configured issuer and audience, no request of anyone to
  a gateway just started is accepted and no message gets in.
\<close>

theorem sso_locks_out_hook:
  assumes "hk_token (wh_config (hr_handler r)) = Some tok"
    and "\<forall>c\<in>set cs. \<forall>doc. fe_outcome (fst c) = Fetched doc \<longrightarrow> \<not> issued_by lib sso tok doc"
    and "run_hook lib cs (Some (from_sso_config sso), r) = (as, vo', r')"
  shows "accepted_answer \<notin> set as \<and> wh_sent (hr_handler r') = wh_sent (hr_handler r)"
proof -
  have "verified_by lib sso tok [] = False"
    by (auto simp: verified_by_def dict_get_def bind_eq_Some_conv split: sum.split option.split)
  then have "locked_for lib sso tok (from_sso_config sso)"
    by (simp add: locked_for_def from_sso_config_def with_default_ttl_def jc_new_def)
  then have no: "accepted_answer \<notin> set as"
    by (rule locked_hook_run [OF assms(3) _ assms(1)]) (use assms(2) in \<open>auto simp: never_issued_def split: fetch_outcome.split\<close>)
  then have "accepted_calls cs as = []"
    by (auto simp: accepted_calls_def filter_empty_conv dest: set_zip_rightD)
  with no show ?thesis using run_hook_accepted [OF assms(3)] by simp
qed

definition foreign_library :: "string token_library" where
  "foreign_library = demo_library\<lparr>tl_decode_header := (\<lambda>t. Ok \<lparr>th_alg = ''RS256'', th_kid = Some ''ann''\<rparr>)\<rparr>"

lemma sso_locks_out_hook_witness:
  "\<exists>as vo r'. run_hook foreign_library [(demo_env 2, demo_call 2 (Some ''Bearer secret''))]
       (Some (from_sso_config demo_sso), hook_route_new demo_hooks 0) = (as, vo, r') \<and> accepted_answer \<notin> set as"
proof -
  obtain as vo r' where r: "run_hook foreign_library [(demo_env 2, demo_call 2 (Some ''Bearer secret''))]
       (Some (from_sso_config demo_sso), hook_route_new demo_hooks 0) = (as, vo, r')" by (metis prod_cases3)
  have "hk_token (wh_config (hr_handler (hook_route_new demo_hooks 0))) = Some ''secret''"
    by (simp add: demo_hook_defs)
  moreover have "\<not> issued_by foreign_library demo_sso ''secret'' [demo_jwk ''ann'', demo_jwk ''bob'']"
    by (simp add: issued_by_def verified_by_def foreign_library_def demo_sso_defs document_keys_def add_jwk_def decoding_key_from_jwk_def)
  ultimately show ?thesis
    using sso_locks_out_hook [of "hook_route_new demo_hooks 0" "''secret''"
        "[(demo_env 2, demo_call 2 (Some ''Bearer secret''))]" foreign_library demo_sso as vo r'] r
    by (auto simp: demo_env_def)
qed

section \<open>The limit of requests\<close>

definition calls_left :: "hook_route \<Rightarrow> nat" where
  "calls_left r = 60 - min 60 (unat (hr_count r))"

lemma count_request_in_window:
  assumes "\<not> duration_since now (hr_window_start r) > minute" "unat (hr_count r) < 2 ^ 64 - 1"
  shows "unat (hr_count (snd (count_request now r))) = Suc (unat (hr_count r))"
    and "hr_window_start (snd (count_request now r)) = hr_window_start r"
    and "fst (count_request now r) \<longleftrightarrow> unat (hr_count r) < 60"
proof -
  have "unat (hr_count r + 1) = Suc (unat (hr_count r))"
    using assms(2) by (simp add: unat_plus_if_size word_size)
  then show "unat (hr_count (snd (count_request now r))) = Suc (unat (hr_count r))"
    using assms(1) by (simp add: count_request_def)
qed (use assms(1) in \<open>simp_all add: count_request_def max_requests_per_minute_def word_less_nat_alt\<close>)

text \<open>A request leaves the counter alone or counts itself; it has success only if the counter admits it.\<close>

lemma post_hook_counts:
  assumes "post_hook lib env call (vo, r) = (a, vo1, r1)"
  shows "(hr_count r1 = hr_count r \<and> hr_window_start r1 = hr_window_start r \<and> a \<noteq> accepted_answer)
     \<or> (hr_count r1 = hr_count (snd (count_request (hc_now call) r))
        \<and> hr_window_start r1 = hr_window_start (snd (count_request (hc_now call) r))
        \<and> (a = accepted_answer \<longrightarrow> fst (count_request (hc_now call) r)))"
proof -
  have r1: "r1 = (if guarded lib env call vo
      then (case hc_body call of Ok body \<Rightarrow> snd (webhook_route call body r) | Err code \<Rightarrow> r) else r)"
    and a: "a = accepted_answer \<longleftrightarrow> guarded lib env call vo \<and> (\<exists>body. hc_body call = Ok body \<and> deliverable call body r)"
    using post_hook_parts [of lib env call vo r] by (simp_all add: assms)
  show ?thesis
    using a unfolding r1 by (cases "hc_body call") (auto simp: webhook_route_parts deliverable_def)
qed

definition successes :: "hook_answer list \<Rightarrow> nat" where
  "successes as = count_if (\<lambda>a. a = accepted_answer) as"

lemma successes_simps [simp]: "successes [] = 0" "successes (a # as) = (if a = accepted_answer then 1 else 0) + successes as"
  by (simp_all add: successes_def count_if_def)

lemma successes_in_window:
  assumes "run_hook lib cs (vo, r) = (as, s)" "unat (hr_count r) + length cs < 2 ^ 64"
    and "\<forall>c\<in>set cs. \<not> duration_since (hc_now (snd c)) (hr_window_start r) > minute"
  shows "successes as \<le> calls_left r"
  using assms
proof (induction cs arbitrary: vo r as s)
  case Nil
  then show ?case by simp
next
  case (Cons c cs)
  obtain env call where c: "c = (env, call)" by (cases c)
  obtain a vo1 r1 where p: "post_hook lib env call (vo, r) = (a, vo1, r1)" by (metis prod_cases3)
  obtain bs s2 where rest: "run_hook lib cs (vo1, r1) = (bs, s2)" by (metis surj_pair)
  have eq: "as = a # bs" using Cons.prems(1) by (simp add: c p rest)
  have "\<not> duration_since (hc_now call) (hr_window_start r) > minute" "unat (hr_count r) < 2 ^ 64 - 1"
    using Cons.prems by (simp_all add: c)
  note cnt = count_request_in_window [OF this]
  consider "hr_count r1 = hr_count r" "hr_window_start r1 = hr_window_start r" "a \<noteq> accepted_answer"
    | "unat (hr_count r1) = Suc (unat (hr_count r))" "hr_window_start r1 = hr_window_start r"
      "a = accepted_answer \<longrightarrow> unat (hr_count r) < 60"
    using post_hook_counts [OF p] cnt by fastforce
  then show ?case
  proof cases
    case 1
    then have "successes bs \<le> calls_left r1" using Cons.prems by (intro Cons.IH [OF rest]) (simp_all add: c)
    then show ?thesis using 1 by (simp add: eq calls_left_def)
  next
    case 2
    then have "successes bs \<le> calls_left r1" using Cons.prems by (intro Cons.IH [OF rest]) (simp_all add: c)
    then show ?thesis using 2 by (auto simp: eq calls_left_def)
  qed
qed

text \<open>
  Whatever is sent to the webhook, at most 120 requests of any minute are accepted: the window of sixty
  requests starts again at most once within a minute.
\<close>

theorem hook_accepts_at_most_120_a_minute:
  assumes "run_hook lib cs (vo, r) = (as, s)" "unat (hr_count r) + length cs < 2 ^ 64"
    and "\<forall>c\<in>set cs. a \<le> hc_now (snd c) \<and> hc_now (snd c) \<le> a + minute"
  shows "successes as \<le> 120"
proof -
  have "successes as \<le> calls_left r + 60"
    using assms
  proof (induction cs arbitrary: vo r as s)
    case Nil
    then show ?case by simp
  next
    case (Cons c cs)
    obtain env call where c: "c = (env, call)" by (cases c)
    obtain b vo1 r1 where p: "post_hook lib env call (vo, r) = (b, vo1, r1)" by (metis prod_cases3)
    obtain bs s2 where rest: "run_hook lib cs (vo1, r1) = (bs, s2)" by (metis surj_pair)
    have eq: "as = b # bs" using Cons.prems(1) by (simp add: c p rest)
    have now: "a \<le> hc_now call" "\<forall>c\<in>set cs. hc_now (snd c) \<le> a + minute" using Cons.prems(3) by (auto simp: c)
    show ?case
    proof (cases "duration_since (hc_now call) (hr_window_start r) > minute")
      case True
      then have cr: "snd (count_request (hc_now call) r) = r\<lparr>hr_window_start := hc_now call, hr_count := 1\<rparr>"
        by (simp add: count_request_def)
      from post_hook_counts [OF p] show ?thesis
      proof
        assume kept: "hr_count r1 = hr_count r \<and> hr_window_start r1 = hr_window_start r \<and> b \<noteq> accepted_answer"
        then have "successes bs \<le> calls_left r1 + 60" using Cons.prems by (intro Cons.IH [OF rest]) (simp_all add: c)
        then show ?thesis using kept by (simp add: eq calls_left_def)
      next
        assume "hr_count r1 = hr_count (snd (count_request (hc_now call) r))
          \<and> hr_window_start r1 = hr_window_start (snd (count_request (hc_now call) r))
          \<and> (b = accepted_answer \<longrightarrow> fst (count_request (hc_now call) r))"
        then have r1: "hr_count r1 = 1" "hr_window_start r1 = hc_now call" by (simp_all add: cr)
        have "successes bs \<le> calls_left r1"
          using Cons.prems(2) now
          by (intro successes_in_window [OF rest]) (auto simp: c r1 duration_since_def)
        then show ?thesis by (auto simp: eq calls_left_def r1 min_def)
      qed
    next
      case False
      have "unat (hr_count r) < 2 ^ 64 - 1" using Cons.prems(2) by simp
      note cnt = count_request_in_window [OF False this]
      consider "hr_count r1 = hr_count r" "b \<noteq> accepted_answer"
        | "unat (hr_count r1) = Suc (unat (hr_count r))" "b = accepted_answer \<longrightarrow> unat (hr_count r) < 60"
        using post_hook_counts [OF p] cnt by fastforce
      then show ?thesis
      proof cases
        case 1
        then have "successes bs \<le> calls_left r1 + 60" using Cons.prems by (intro Cons.IH [OF rest]) (simp_all add: c)
        then show ?thesis using 1 by (simp add: eq calls_left_def)
      next
        case 2
        then have "successes bs \<le> calls_left r1 + 60" using Cons.prems by (intro Cons.IH [OF rest]) (simp_all add: c)
        then show ?thesis using 2 by (auto simp: eq calls_left_def)
      qed
    qed
  qed
  then show ?thesis by (simp add: calls_left_def)
qed

lemma hook_accepts_at_most_120_a_minute_witness:
  "successes [Answer 401 ''unauthorized'', Answer 200 ''ok''] \<le> 120"
  by (rule hook_accepts_at_most_120_a_minute [OF demo_hook_run, of 0])
    (simp_all add: demo_hook_defs minute_def)

text \<open>
  The counter is raised before the token is checked: sixty requests of anyone, with or without the token, are
  enough to have the owner refused for the rest of the minute.
\<close>

theorem strangers_use_up_the_limit:
  assumes "fst s = None" "hr_window_start (snd s) = t" "unat (hr_count (snd s)) \<le> 60"
    and "length cs = 60" "\<forall>c\<in>set cs. hc_now (snd c) \<le> t + minute \<and> is_ok (hc_body (snd c))"
    and "hc_now call \<le> t + minute" "is_ok (hc_body call)"
  shows "fst (post_hook lib env call (snd (run_hook lib cs s))) = Answer 429 ''rate limited''"
proof -
  have "fst (snd (run_hook lib cs s)) = None \<and> hr_window_start (snd (snd (run_hook lib cs s))) = t
      \<and> unat (hr_count (snd (snd (run_hook lib cs s)))) = unat (hr_count (snd s)) + length cs"
    if "fst s = None" "hr_window_start (snd s) = t" "unat (hr_count (snd s)) + length cs \<le> 120"
      "\<forall>c\<in>set cs. hc_now (snd c) \<le> t + minute \<and> is_ok (hc_body (snd c))" for cs s
    using that
  proof (induction cs arbitrary: s)
    case Nil
    then show ?case by simp
  next
    case (Cons c cs)
    obtain env call where c: "c = (env, call)" by (cases c)
    obtain r where s: "s = (None, r)" using Cons.prems(1) by (cases s) simp
    obtain body where body: "hc_body call = Ok body" using Cons.prems(4) by (auto simp: c is_ok_def split: sum.splits)
    obtain a vo1 r1 where p: "post_hook lib env call (None, r) = (a, vo1, r1)" by (metis prod_cases3)
    have r1: "r1 = snd (webhook_route call body r)" "vo1 = None"
      using post_hook_parts(1) [of lib env call None r] p
      by (auto simp: guarded_def body post_hook_def split: prod.splits)
    have "\<not> duration_since (hc_now call) (hr_window_start r) > minute" "unat (hr_count r) < 2 ^ 64 - 1"
      using Cons.prems by (auto simp: c s duration_since_def)
    note cnt = count_request_in_window [OF this]
    have "hr_count r1 = hr_count (snd (count_request (hc_now call) r))" "hr_window_start r1 = hr_window_start r"
      using cnt(2) by (simp_all add: r1 webhook_route_parts)
    then show ?case
      using Cons.IH [of "(None, r1)"] Cons.prems cnt(1) by (auto simp: c s p r1(2) split: prod.splits)
  qed
  from this [of s cs] assms have f: "fst (snd (run_hook lib cs s)) = None"
    "hr_window_start (snd (snd (run_hook lib cs s))) = t" "unat (hr_count (snd (snd (run_hook lib cs s)))) \<ge> 60"
    "unat (hr_count (snd (snd (run_hook lib cs s)))) < 2 ^ 64 - 1"
    by auto
  obtain r where r: "snd (run_hook lib cs s) = (None, r)" using f(1) by (metis prod.collapse)
  obtain body where body: "hc_body call = Ok body" using assms(7) by (auto simp: is_ok_def split: sum.splits)
  have "\<not> fst (count_request (hc_now call) r)"
    using f assms(6) by (subst count_request_in_window) (auto simp: r duration_since_def)
  then obtain r1 where "count_request (hc_now call) r = (False, r1)" by (metis (full_types) prod.collapse)
  then show ?thesis by (simp add: r post_hook_def body webhook_route_def shown_def status_only_def)
qed

lemma strangers_use_up_the_limit_witness:
  "fst (post_hook demo_library (demo_env 9) (demo_call 9 (Some ''Bearer secret''))
     (snd (run_hook demo_library (replicate 60 (demo_env 1, demo_call 1 None)) (None, hook_route_new demo_hooks 0))))
   = Answer 429 ''rate limited''"
  by (rule strangers_use_up_the_limit [where t = 0]) (simp_all add: demo_hook_defs is_ok_def minute_def)

section \<open>Names of metadata that end the request\<close>

text \<open>
  A name of metadata that is too long and has a character across its byte 32 ends the request in a panic
  instead of an answer that says what is too long.
\<close>

theorem long_name_panics:
  assumes "length (wq_text body) \<le> 65536" "wq_metadata body = Some [(k, v)]"
    and "1024 < length k" "is_continuation (k ! 32)"
    and "count_request (hc_now call) r = (True, r1)" "is_enabled (hr_handler r1)"
    and "validate_token (Option.bind (hc_auth call) header_text) (hr_handler r1) = Ok ()"
  shows "fst (webhook_route call body r) = None"
proof -
  have "slice_to 32 k = None" using assms(3,4) by (simp add: slice_to_def is_char_boundary_def)
  then have "validate_request body = None"
    using assms(1-3)
    by (simp add: validate_request_def max_webhook_text_length_def max_metadata_entries_def
        max_metadata_string_length_def too_long_def quoted_key_def min_def)
  then show ?thesis using assms(5-) by (simp add: webhook_route_def process_request_def)
qed

definition long_name :: string where
  "long_name = replicate 31 (CHR ''a'') @ [CHR 0xE2, CHR 0x82, CHR 0xAC] @ replicate 1000 (CHR ''b'')"

lemma long_name_panics_witness:
  "fst (webhook_route (demo_call 1 (Some ''Bearer secret''))
     \<lparr>wq_text = [], wq_channel = None, wq_target = None, wq_metadata = Some [(long_name, JNull)]\<rparr>
     (hook_route_new demo_hooks 0)) = None"
proof -
  have c: "count_request (hc_now (demo_call 1 (Some ''Bearer secret''))) (hook_route_new demo_hooks 0) =
      (True, (hook_route_new demo_hooks 0)\<lparr>hr_count := 1\<rparr>)"
    by (simp add: demo_hook_defs hook_eval)
  show ?thesis
    by (rule long_name_panics [OF _ _ _ _ c, where k = long_name and v = JNull])
      (simp_all add: long_name_def is_continuation_def nth_append demo_hook_defs hook_eval)
qed

section \<open>All callers are one user\<close>

definition from_hook :: "inbound_message \<Rightarrow> bool" where
  "from_hook m \<longleftrightarrow> (\<exists>uuid utc body. m = hook_message uuid utc body)"

lemma from_hook_fields:
  assumes "from_hook m"
  shows "im_channel_type m = Webhook" "im_sender_id m = ''webhook''" "im_account_id m = []"
    "\<not> is_cron (im_source m)" "ai_canonical_id (map_identity m) = ''webhook:webhook''"
  using assms by (auto simp: from_hook_def hook_message_def map_identity_def)

text \<open>Without settings of their own in the configuration, webhooks are subject to pairing.\<close>

definition hooks_need_pairing :: "access_bridge \<Rightarrow> bool" where
  "hooks_need_pairing ab \<longleftrightarrow> cp_dm_policy (policy_for ab Webhook) = Pairing"

lemma fresh_hooks_need_pairing: "as_auth c = None \<Longrightarrow> hooks_need_pairing (ab_new c)"
  by (simp add: hooks_need_pairing_def policy_for_def ab_new_def build_channel_policies_def Let_def or_insert_def
      dict_has_def split: option.split)

lemma hook_entry:
  assumes "from_hook m" "hooks_need_pairing (gt_access g)"
  shows "snd (process_entry m now g) = Proceed \<longleftrightarrow>
     \<not> is_stop_command (im_text m) \<and> is_paired (gt_access g) ''webhook:webhook''"
  using assms(2) from_hook_fields [OF assms(1)]
  by (auto simp: process_entry_def handle_stop_def access_gate_def check_message_access_def evaluate_policy_def hooks_need_pairing_def
      is_paired_def pairing_dialogue_def Let_def split: prod.splits pairing_result.splits)

text \<open>A run of the gate in which a caller of the webhook entered a code.\<close>

definition hook_code_entered :: "(inbound_message \<times> int) list \<Rightarrow> gate_outcome list \<Rightarrow> bool" where
  "hook_code_entered ms outs \<longleftrightarrow>
     (\<exists>(mt, out)\<in>set (zip ms outs). out = PairedOk \<and> im_channel_type (fst mt) = Webhook \<and> im_sender_id (fst mt) = ''webhook'')"

lemma hook_identity:
  "ai_canonical_id (map_identity m) = ''webhook:webhook'' \<longleftrightarrow> im_channel_type m = Webhook \<and> im_sender_id m = ''webhook''"
  using canonical_id_inj [of m "hook_message [] 0 undefined"] by (simp add: hook_message_def map_identity_def)

lemma hook_pairing_run:
  "hooks_need_pairing (gt_access g) \<Longrightarrow>
     hooks_need_pairing (gt_access (fst (run_gate ms g)))
     \<and> (is_paired (gt_access (fst (run_gate ms g))) ''webhook:webhook'' \<longleftrightarrow>
          is_paired (gt_access g) ''webhook:webhook'' \<or> hook_code_entered ms (snd (run_gate ms g)))"
proof (induction ms arbitrary: g)
  case Nil
  then show ?case by (simp add: hook_code_entered_def)
next
  case (Cons mt ms)
  obtain m t where mt: "mt = (m, t)" by (cases mt)
  obtain g1 out where e: "process_entry m t g = (g1, out)" by (cases "process_entry m t g")
  have "hooks_need_pairing (gt_access g1)"
    using Cons.prems policy_for_entry [of m t g] by (simp add: hooks_need_pairing_def e)
  note IH = Cons.IH [OF this]
  have g1: "is_paired (gt_access g1) ''webhook:webhook'' \<longleftrightarrow>
      is_paired (gt_access g) ''webhook:webhook''
      \<or> out = PairedOk \<and> im_channel_type m = Webhook \<and> im_sender_id m = ''webhook''"
    using process_entry_paired [of m t g] hook_identity [of m] by (simp add: is_paired_def e) metis
  obtain g2 outs where rest: "run_gate ms g1 = (g2, outs)" by (cases "run_gate ms g1")
  have all: "run_gate (mt # ms) g = (g2, out # outs)" by (simp add: mt e rest)
  have "hook_code_entered (mt # ms) (out # outs) \<longleftrightarrow>
      (out = PairedOk \<and> im_channel_type m = Webhook \<and> im_sender_id m = ''webhook'') \<or> hook_code_entered ms outs"
    by (simp add: hook_code_entered_def mt)
  then show ?case using IH g1 unfolding all rest by simp
qed

text \<open>
  C17. Let the configuration say nothing of who may use the webhook, and any messages of any channels come in. A
  message of the webhook then reaches an agent exactly when it is not a stop command and some message of the webhook
  has entered a pairing code before. So the first code that a caller enters lets in all callers, as one user with
  one conversation.
\<close>

theorem one_code_admits_all_callers:
  assumes "hooks_need_pairing (gt_access g)" "\<not> is_paired (gt_access g) ''webhook:webhook''"
    and "from_hook m" "from_hook m'"
  shows "(snd (process_entry m now (fst (run_gate ms g))) = Proceed \<longleftrightarrow>
            \<not> is_stop_command (im_text m) \<and> hook_code_entered ms (snd (run_gate ms g)))
     \<and> session_key cfg m = session_key cfg m'"
  using hook_pairing_run [OF assms(1), of ms] assms(2) hook_entry [OF assms(3)]
    from_hook_fields [OF assms(3)] from_hook_fields [OF assms(4)]
  by (auto simp: session_key_def channel_peer_def)

definition hook_text :: "string \<Rightarrow> string \<Rightarrow> inbound_message" where
  "hook_text uuid txt = hook_message uuid 0 \<lparr>wq_text = txt, wq_channel = None, wq_target = None, wq_metadata = None\<rparr>"

text \<open>A caller asks, one enters the code, and the next one is admitted.\<close>

lemma one_code_admits_all_callers_witness:
  "snd (process_entry (hook_text ''u1'' ''hello'') 0 demo_gate) \<noteq> Proceed
   \<and> snd (process_entry (hook_text ''u3'' ''hello'') 2 (fst (run_gate [(hook_text ''u2'' ''ABC234'', 1)] demo_gate))) = Proceed"
proof -
  have n1: "hooks_need_pairing (gt_access demo_gate)" by (simp add: demo_gate_def fresh_hooks_need_pairing)
  have n2: "\<not> is_paired (gt_access demo_gate) ''webhook:webhook''"
    by (simp add: demo_gate_def is_paired_def ab_new_def)
  have h: "from_hook (hook_text u t)" for u t unfolding from_hook_def hook_text_def by blast
  have words: "im_text (hook_text u t) = t" for u t by (simp add: hook_text_def hook_message_def)
  have "hook_code_entered [(hook_text ''u2'' ''ABC234'', 1)] (snd (run_gate [(hook_text ''u2'' ''ABC234'', 1)] demo_gate))"
    by (simp add: hook_code_entered_def hook_text_def hook_message_def demo_gate_def gate_simps)
  then show ?thesis
    using one_code_admits_all_callers [OF n1 n2 h h, of "''u1''" "''hello''" 0 "[]"]
      one_code_admits_all_callers [OF n1 n2 h h, of "''u3''" "''hello''" 2 "[(hook_text ''u2'' ''ABC234'', 1)]"]
    by (simp add: words demo_stop hook_code_entered_def)
qed

end
