(* ===== verification/AgentSessions.thy ===== *)
theory AgentSessions
  imports CodingStreaming DmPairing Json
begin

text \<open>
  The long-lived sessions of coding agents (\<open>src/coding_agent/acp_client.rs\<close>), their requests for permission
  (\<open>src/coding_agent/hitl_permissions.rs\<close>), what \<open>src/gateway_state.rs\<close> and the button handler of
  \<open>src/channel/telegram.rs\<close> make of them, and the two handlers of the control panel that connect and disconnect
  an agent. The ACP library and the processes it starts are an environment with a state of their own.
\<close>

section \<open>Requests for permission\<close>

record permission_request =
  pq_title :: string
  pq_options :: "string list"

datatype permission_decision = Allow string | AllowOnce | Deny

text \<open>
  A pending request is the entry of the map together with the thread that is blocked on it. An entry that is
  overwritten drops its sender, and the blocked thread denies.
\<close>

record hitl_manager =
  hm_pending :: "permission_request dict"
  hm_bot_token :: string
  hm_chat_id :: string
  hm_sent :: "(string \<times> string \<times> string list) list"
  hm_decided :: "(string \<times> permission_decision) list"

definition hm_new :: "string \<Rightarrow> string \<Rightarrow> hitl_manager" where
  "hm_new token chat = \<lparr>hm_pending = [], hm_bot_token = token, hm_chat_id = chat, hm_sent = [], hm_decided = []\<rparr>"

definition request_text :: "string \<Rightarrow> string" where
  "request_text title = utf8 [0xF0, 0x9F, 0x94, 0x90] @ '' *Coding Agent Permission Request*'' @ newline @ newline
     @ title @ newline @ newline @ ''_Waiting for your decision..._''"

definition ask_permission :: "string \<Rightarrow> permission_request \<Rightarrow> hitl_manager \<Rightarrow> hitl_manager" where
  "ask_permission i req m =
     m\<lparr>hm_pending := dict_put i req (hm_pending m),
       hm_sent := hm_sent m @ [(hm_chat_id m, request_text (pq_title req), [''perm_allow:'' @ i, ''perm_deny:'' @ i])],
       hm_decided := hm_decided m @ (if dict_has (hm_pending m) i then [(i, Deny)] else [])\<rparr>"

definition decision_of :: "permission_request \<Rightarrow> bool \<Rightarrow> permission_decision" where
  "decision_of req approved =
     (if approved then (case pq_options req of o1 # os \<Rightarrow> Allow o1 | [] \<Rightarrow> AllowOnce) else Deny)"

definition parse_perm_callback :: "string \<Rightarrow> (string \<times> bool) option" where
  "parse_perm_callback data = (case strip_prefix ''perm_allow:'' data of
     Some i \<Rightarrow> Some (i, True)
   | None \<Rightarrow> map_option (\<lambda>i. (i, False)) (strip_prefix ''perm_deny:'' data))"

definition is_perm_callback :: "string \<Rightarrow> bool" where
  "is_perm_callback data \<longleftrightarrow> prefix ''perm_allow:'' data \<or> prefix ''perm_deny:'' data"

definition handle_callback :: "string \<Rightarrow> hitl_manager \<Rightarrow> hitl_manager \<times> bool" where
  "handle_callback data m = (case parse_perm_callback data of
     None \<Rightarrow> (m, False)
   | Some (i, approved) \<Rightarrow> (case dict_get (hm_pending m) i of
       None \<Rightarrow> (m, False)
     | Some req \<Rightarrow> (m\<lparr>hm_pending := dict_del i (hm_pending m),
                       hm_decided := hm_decided m @ [(i, decision_of req approved)]\<rparr>, True)))"

text \<open>
  The button handler answers the query, so that the button stops spinning, and writes a line to the log. It does not
  reach the manager of requests: nothing in the gateway calls \<open>handle_callback\<close>.
\<close>

datatype button_note = PermissionPressed string | ApprovalPressed string

definition on_button :: "string option \<Rightarrow> button_note option" where
  "on_button data = (case data of
     None \<Rightarrow> None
   | Some d \<Rightarrow> if is_perm_callback d then Some (PermissionPressed d)
       else if prefix ''approve:'' d \<or> prefix ''reject:'' d then Some (ApprovalPressed d) else None)"

section \<open>Whether anyone is asked\<close>

text \<open>
  \<open>paired_users.json\<close> as \<open>persist\<close> writes it: the derived serialization of the paired users, with the times in the
  format of the library. Reading and parsing give the same value back.
\<close>

definition user_json :: "(int \<Rightarrow> string) \<Rightarrow> paired_user \<Rightarrow> json" where
  "user_json show_time u =
     JObj [(''user_id'', JStr (pu_user_id u)), (''paired_at'', JStr (show_time (pu_paired_at u))),
           (''channel_type'', JStr (pu_channel_type u))]"

definition persisted_users :: "(int \<Rightarrow> string) \<Rightarrow> pairing_service \<Rightarrow> json" where
  "persisted_users show_time ps = JArr (map (user_json show_time) (paired_users_list ps))"

text \<open>The chat of the first user of the file, if the file is there and is JSON.\<close>

definition permission_chat :: "json option \<Rightarrow> string" where
  "permission_chat file =
     (case Option.bind (Option.bind file as_array)
             (\<lambda>users. case users of u # us \<Rightarrow> Option.bind (jget u ''chat_id'') as_str | [] \<Rightarrow> None) of
        Some c \<Rightarrow> c | None \<Rightarrow> [])"

section \<open>Sessions\<close>

record session_launch =
  sl_command :: string
  sl_working_dir :: string
  sl_auto_approve :: bool
  sl_env :: "(string \<times> string) list"
  sl_policy :: permission_policy

record 'w session_env =
  se_start :: "session_launch \<Rightarrow> 'w \<Rightarrow> 'w \<times> (string, nat) result"
  se_active :: "nat \<Rightarrow> 'w \<Rightarrow> bool"
  se_prompt :: "nat \<Rightarrow> string \<Rightarrow> 'w \<Rightarrow> 'w \<times> (string, string) result \<times> 64 word"
  se_cancel :: "nat \<Rightarrow> 'w \<Rightarrow> 'w \<times> (string, unit) result"
  se_close :: "nat \<Rightarrow> 'w \<Rightarrow> 'w"

text \<open>The pool with the registry it updates, and the state of the environment.\<close>

record 'w session_pool =
  po_sessions :: "nat dict"
  po_registry :: coding_agent_registry
  po_manager :: "hitl_manager option"
  po_world :: 'w

definition pool_new :: "coding_agent_registry \<Rightarrow> 'w \<Rightarrow> 'w session_pool" where
  "pool_new r w = \<lparr>po_sessions = [], po_registry = r, po_manager = None, po_world = w\<rparr>"

definition pool_with_hitl :: "coding_agent_registry \<Rightarrow> hitl_manager \<Rightarrow> 'w \<Rightarrow> 'w session_pool" where
  "pool_with_hitl r m w = (pool_new r w)\<lparr>po_manager := Some m\<rparr>"

definition build_pool :: "string option \<Rightarrow> json option \<Rightarrow> coding_agent_registry \<Rightarrow> 'w \<Rightarrow> 'w session_pool" where
  "build_pool telegram_token file r w = (case telegram_token of
     Some token \<Rightarrow>
       (let chat = permission_chat file
        in if chat \<noteq> [] then pool_with_hitl r (hm_new token chat) w else pool_new r w)
   | None \<Rightarrow> pool_new r w)"

definition pool_policy :: "'w session_pool \<Rightarrow> permission_policy" where
  "pool_policy p = (case po_manager p of Some m \<Rightarrow> CustomPolicy | None \<Rightarrow> AutoApprove)"

definition set_agent_status :: "int \<Rightarrow> string \<Rightarrow> agent_connection_status \<Rightarrow> 'w session_pool \<Rightarrow> 'w session_pool" where
  "set_agent_status now i s p = p\<lparr>po_registry := fst (update_status now i s (po_registry p))\<rparr>"

definition quoted_agent :: "string \<Rightarrow> string" where
  "quoted_agent i = ''Agent '' @ [CHR 0x27] @ i @ [CHR 0x27]"

definition session_launch_of :: "permission_policy \<Rightarrow> coding_agent_instance_config \<Rightarrow> session_launch option" where
  "session_launch_of policy c = (case cai_transport c of
     Some (Stdio command args envs) \<Rightarrow> Some
       \<lparr>sl_command = (if args = [] then command else command @ '' '' @ join '' '' args),
        sl_working_dir = (case cai_workspaces c of d # ds \<Rightarrow> d | [] \<Rightarrow> ''.''),
        sl_auto_approve = True,
        sl_env = envs @ (case Option.bind (cai_auth c) aac_credentials of Some k \<Rightarrow> [(''AGENT_API_KEY'', k)] | None \<Rightarrow> []),
        sl_policy = policy\<rparr>
   | _ \<Rightarrow> None)"

definition create_agent_session ::
  "'w session_env \<Rightarrow> int \<Rightarrow> string \<Rightarrow> coding_agent_instance_config \<Rightarrow> 'w session_pool
     \<Rightarrow> 'w session_pool \<times> (task_error, nat) result" where
  "create_agent_session env now i c p = (case session_launch_of (pool_policy p) c of
     None \<Rightarrow> (p, Err (ExecutionError (quoted_agent i @ (case cai_transport c of
         None \<Rightarrow> '' has no transport configured''
       | Some t \<Rightarrow> '' has non-stdio transport '' @ utf8 [0xE2, 0x80, 0x94] @ '' use HTTP executor'')) None))
   | Some launch \<Rightarrow> (case se_start env launch (po_world p) of
       (w, Err e) \<Rightarrow> (p\<lparr>po_world := w\<rparr>, Err (TaskAgentDisconnected i))
     | (w, Ok n) \<Rightarrow> (set_agent_status now i Connected (p\<lparr>po_world := w\<rparr>), Ok n)))"

definition get_or_create ::
  "'w session_env \<Rightarrow> int \<Rightarrow> string \<Rightarrow> coding_agent_instance_config \<Rightarrow> 'w session_pool
     \<Rightarrow> 'w session_pool \<times> (task_error, nat) result" where
  "get_or_create env now i c p = (case dict_get (po_sessions p) i of
     Some n \<Rightarrow>
       if se_active env n (po_world p) then (p, Ok n)
       else (case create_agent_session env now i c (p\<lparr>po_sessions := dict_del i (po_sessions p)\<rparr>) of
           (p1, Err e) \<Rightarrow> (p1, Err e)
         | (p1, Ok k) \<Rightarrow> (p1\<lparr>po_sessions := dict_put i k (po_sessions p1)\<rparr>, Ok k))
   | None \<Rightarrow> (case create_agent_session env now i c p of
         (p1, Err e) \<Rightarrow> (p1, Err e)
       | (p1, Ok k) \<Rightarrow> (p1\<lparr>po_sessions := dict_put i k (po_sessions p1)\<rparr>, Ok k)))"

definition pool_execute ::
  "'w session_env \<Rightarrow> int \<Rightarrow> string \<Rightarrow> coding_agent_instance_config \<Rightarrow> task_request \<Rightarrow> 'w session_pool
     \<Rightarrow> 'w session_pool \<times> (task_error, task_result) result" where
  "pool_execute env now i c req p = (case get_or_create env now i c p of
     (p1, Err e) \<Rightarrow> (p1, Err e)
   | (p1, Ok n) \<Rightarrow> (case se_prompt env n (build_prompt req) (po_world p1) of
       (w, Ok text, ms) \<Rightarrow> (p1\<lparr>po_world := w\<rparr>,
         Ok \<lparr>tk_output = text, tk_modified_files = [], tk_duration_ms = ms, tk_token_usage = None\<rparr>)
     | (w, Err e, ms) \<Rightarrow> (set_agent_status now i (Disconnected now)
           (p1\<lparr>po_world := w, po_sessions := dict_del i (po_sessions p1)\<rparr>),
         Err (ExecutionError (''ACP error: '' @ e) None))))"

definition pool_cancel :: "'w session_env \<Rightarrow> string \<Rightarrow> 'w session_pool \<Rightarrow> 'w session_pool \<times> (task_error, unit) result" where
  "pool_cancel env i p = (case dict_get (po_sessions p) i of
     None \<Rightarrow> (p, Err (ExecutionError (''No active session for agent '' @ [CHR 0x27] @ i @ [CHR 0x27]) None))
   | Some n \<Rightarrow> (case se_cancel env n (po_world p) of
       (w, Ok _) \<Rightarrow> (p\<lparr>po_world := w\<rparr>, Ok ())
     | (w, Err e) \<Rightarrow> (p\<lparr>po_world := w\<rparr>, Err (ExecutionError (''Cancel failed: '' @ e) None))))"

definition close_all :: "'w session_env \<Rightarrow> 'w session_pool \<Rightarrow> 'w session_pool" where
  "close_all env p = p\<lparr>po_world := fold (\<lambda>e. se_close env (snd e)) (po_sessions p) (po_world p), po_sessions := []\<rparr>"

definition has_session :: "string \<Rightarrow> 'w session_pool \<Rightarrow> bool" where
  "has_session i p = dict_has (po_sessions p) i"

definition close_session :: "'w session_env \<Rightarrow> string \<Rightarrow> 'w session_pool \<Rightarrow> 'w session_pool" where
  "close_session env i p = (case dict_get (po_sessions p) i of
     Some n \<Rightarrow> p\<lparr>po_sessions := dict_del i (po_sessions p), po_world := se_close env n (po_world p)\<rparr>
   | None \<Rightarrow> p)"

section \<open>Handlers of the control panel\<close>

definition panel_says :: "bool \<Rightarrow> string \<Rightarrow> json" where
  "panel_says ok msg = JObj [(''ok'', JBool ok), (''message'', JStr msg)]"

definition connect_agent ::
  "(task_error \<Rightarrow> string) \<Rightarrow> 'w session_env \<Rightarrow> int \<Rightarrow> string \<Rightarrow> 'w session_pool option \<Rightarrow> 'w session_pool option \<times> json" where
  "connect_agent show_error env now i pool = (case pool of
     None \<Rightarrow> (None, panel_says False ''Coding agent subsystem is not enabled'')
   | Some p \<Rightarrow> (case get_agent i (po_registry p) of
       None \<Rightarrow> (Some p, panel_says False (quoted_agent i @ '' not found''))
     | Some a \<Rightarrow>
         if cai_transport (ra_config a) = None
         then (Some p, panel_says False ''Agent has no stdio transport configured. Cannot connect.'')
         else (case get_or_create env now i (ra_config a) p of
             (p1, Ok _) \<Rightarrow> (Some p1, panel_says True (quoted_agent i @ '' connected successfully''))
           | (p1, Err e) \<Rightarrow> (Some p1, panel_says False
               (''Failed to connect agent '' @ [CHR 0x27] @ i @ [CHR 0x27] @ '': '' @ show_error e)))))"

definition disconnect_agent ::
  "'w session_env \<Rightarrow> int \<Rightarrow> string \<Rightarrow> 'w session_pool option \<Rightarrow> 'w session_pool option \<times> json" where
  "disconnect_agent env now i pool = (case pool of
     None \<Rightarrow> (None, panel_says False ''Coding agent subsystem is not enabled'')
   | Some p \<Rightarrow>
       if \<not> has_session i p then (Some p, panel_says False (quoted_agent i @ '' has no active session''))
       else (Some (set_agent_status now i (Disconnected now) (close_session env i p)),
             panel_says True (quoted_agent i @ '' disconnected'')))"

section \<open>Nobody is asked\<close>

lemma permission_chat_persisted: "permission_chat (Some (persisted_users show_time ps)) = []"
  by (cases "paired_users_list ps") (simp_all add: permission_chat_def persisted_users_def user_json_def)

text \<open>
  C28. Whoever is paired and whatever Telegram account is configured: the file of paired users that the gateway
  itself writes has no chat to ask in, so that the pool has no manager of permissions and each session it starts
  approves every request of its agent by itself, as the sessions of delegated tasks do anyway.
\<close>

theorem permissions_always_granted:
  "po_manager (build_pool telegram (Some (persisted_users show_time ps)) r w) = None
   \<and> map_option sl_policy (session_launch_of (pool_policy (build_pool telegram (Some (persisted_users show_time ps)) r w)) c)
       \<in> {None, Some AutoApprove}
   \<and> default_policy = AutoApprove"
proof -
  have "po_manager (build_pool telegram (Some (persisted_users show_time ps)) r w) = None"
    by (simp add: build_pool_def permission_chat_persisted pool_new_def split: option.split)
  then show ?thesis
    by (auto simp: session_launch_of_def pool_policy_def default_policy_def split: option.split agent_transport.split)
qed

section \<open>Answers to requests\<close>

definition demo_request :: permission_request where
  "demo_request = \<lparr>pq_title = ''rm -rf build'', pq_options = [''allow_once'', ''allow_always'']\<rparr>"

text \<open>
  The manager itself would decide each request once, with the answer of the first button: a second button for
  the same request is not accepted and changes nothing.
\<close>

theorem callback_decides_once:
  assumes "dict_get (hm_pending m) i = Some req"
    and "parse_perm_callback data = Some (i, approved)" "parse_perm_callback data' = Some (i, approved')"
  shows "\<exists>m'. handle_callback data m = (m', True)
     \<and> hm_decided m' = hm_decided m @ [(i, decision_of req approved)] \<and> handle_callback data' m' = (m', False)"
  using assms by (simp add: handle_callback_def)

lemma callback_decides_once_witness:
  "\<exists>m'. handle_callback ''perm_deny:p1'' (ask_permission ''p1'' demo_request (hm_new ''t'' ''42'')) = (m', True)
     \<and> hm_decided m' = [(''p1'', Deny)]"
  using callback_decides_once [of "ask_permission ''p1'' demo_request (hm_new ''t'' ''42'')" "''p1''" demo_request
      "''perm_deny:p1''" False "''perm_allow:p1''" True]
  by (auto simp: ask_permission_def hm_new_def dict_has_def parse_perm_callback_def strip_prefix_def decision_of_def)

section \<open>Sessions that last\<close>

lemma create_agent_session_sessions:
  "create_agent_session env now i c p = (p1, res) \<Longrightarrow> po_sessions p1 = po_sessions p"
  by (auto simp: create_agent_session_def set_agent_status_def split: option.splits prod.splits sum.splits)

lemma get_or_create_sessions:
  assumes "get_or_create env now i c p = (p1, res)"
  shows "dict_get (po_sessions p1) i = (case res of Ok n \<Rightarrow> Some n | Err e \<Rightarrow> None)"
    and "j \<noteq> i \<Longrightarrow> dict_get (po_sessions p1) j = dict_get (po_sessions p) j"
  using assms
  by (auto simp: get_or_create_def split: option.splits prod.splits sum.splits if_splits
      dest!: create_agent_session_sessions)

text \<open>
  A task that fails leaves no session of its agent behind, so that the next one starts the agent again, and it
  leaves the sessions of all other agents as they were.
\<close>

theorem failed_task_drops_session:
  assumes "pool_execute env now i c req p = (p1, Err e)"
  shows "\<not> has_session i p1 \<and> (\<forall>j. j \<noteq> i \<longrightarrow> dict_get (po_sessions p1) j = dict_get (po_sessions p) j)"
  using assms
  by (auto simp: pool_execute_def has_session_def dict_has_def set_agent_status_def get_or_create_sessions
      split: prod.splits sum.splits)

definition demo_session_env :: "unit session_env" where
  "demo_session_env = \<lparr>se_start = (\<lambda>l w. (w, Ok 7)), se_active = (\<lambda>n w. True), se_prompt = (\<lambda>n t w. (w, Err ''gone'', 5)),
     se_cancel = (\<lambda>n w. (w, Ok ())), se_close = (\<lambda>n w. w)\<rparr>"

definition local_agent :: coding_agent_instance_config where
  "local_agent = \<lparr>cai_id = ''a'', cai_backend_type = ''claude'', cai_endpoint = [], cai_transport = Some (Stdio ''claude'' [''--acp''] []),
     cai_workspaces = [''/w''], cai_timeout_secs = None, cai_cost_cap_usd = None, cai_monthly_budget_usd = None,
     cai_alias = None, cai_auth = None\<rparr>"

definition demo_prompt :: task_request where
  "demo_prompt = \<lparr>tr_description = ''fix'', tr_trigger = FromCronJob ''j'', tr_workspace = None, tr_file_context = None,
     tr_reply_to = \<lparr>rt_channel_type = [], rt_channel_id = [], rt_message_id = None\<rparr>\<rparr>"

lemma failed_task_drops_session_witness:
  "\<exists>p1 e. pool_execute demo_session_env 0 ''a'' local_agent demo_prompt (pool_new cr_new ()) = (p1, Err e) \<and> \<not> has_session ''a'' p1"
proof -
  have "\<exists>p1 e. pool_execute demo_session_env 0 ''a'' local_agent demo_prompt (pool_new cr_new ()) = (p1, Err e)"
    by (simp add: pool_execute_def get_or_create_def create_agent_session_def session_launch_of_def pool_policy_def
        demo_session_env_def local_agent_def pool_new_def set_agent_status_def)
  then show ?thesis using failed_task_drops_session by metis
qed

text \<open>
  An agent that is configured anew keeps its old session: as long as the process lives, every task goes to the
  session that was started with the earlier command, workspace and credentials.
\<close>

theorem new_configuration_not_used:
  assumes "get_or_create env now i c p = (p1, Ok n)" "se_active env n (po_world p1)"
  shows "get_or_create env later i c' (p1\<lparr>po_registry := r'\<rparr>) = (p1\<lparr>po_registry := r'\<rparr>, Ok n)"
  using get_or_create_sessions(1) [OF assms(1)] assms(2) by (simp add: get_or_create_def)

lemma new_configuration_not_used_witness:
  "\<exists>p1. get_or_create demo_session_env 0 ''a'' local_agent (pool_new cr_new ()) = (p1, Ok 7)
     \<and> get_or_create demo_session_env 9 ''a'' (local_agent\<lparr>cai_workspaces := [''/other'']\<rparr>) (p1\<lparr>po_registry := cr_new\<rparr>)
         = (p1\<lparr>po_registry := cr_new\<rparr>, Ok 7)"
proof -
  obtain p1 where p1: "get_or_create demo_session_env 0 ''a'' local_agent (pool_new cr_new ()) = (p1, Ok 7)"
    by (simp add: get_or_create_def create_agent_session_def session_launch_of_def pool_policy_def
        demo_session_env_def local_agent_def pool_new_def set_agent_status_def)
  then show ?thesis using new_configuration_not_used [OF p1] by (simp add: demo_session_env_def)
qed

end
