(* ===== verification/Spec2Isabelle.thy ===== *)
theory Spec2Isabelle
  imports RedisSessions FirestoreSessions SessionBackend CodingTasks RateLimiter Reconnect Shutdown MessageGate AgentManagement SchemaSanitizer ToolApproval TaskQueue GraphWorkflow KnowledgeGraph MultiUser FallbackChain Cron PipelineProps SkillFiles HealthMonitor ConfigCrypto ToolProgress PanelConfig PanelDelegation PanelAgents PanelAuth InboundHook AgentSessions
begin

text \<open>
  A verification development for \<open>adk-gateway\<close>, the gateway that connects messaging channels (Telegram, Slack,
  WhatsApp, Discord, Matrix, web hooks, HTTP) to language model agents. All paths are under \<open>src/src\<close>.

  \<^bold>\<open>The program and the parts that are modelled.\<close>
  A channel adapter turns what it receives into an \<open>InboundMessage\<close> and puts it on one queue. The main loop takes a
  message, gets a slot of the shutdown coordinator, and runs \<open>process_message\<close> of \<open>gateway.rs\<close>. That function is the
  spine of the program: it checks access and pairing, asks the plugins, opens a session, picks skills and tools, routes
  to an agent (of the gateway, of another process, or a workflow), runs the model, collects the events, remembers the
  exchange and delivers the response. Around it stand the managers that agents call as tools (agents, tasks, coding
  tasks), the background services (cron, heartbeat, health, reload) and the stores (sessions, knowledge graph, log).

  \<^bold>\<open>Foundations.\<close>
  \<^item> \<open>Prelude\<close>: results (errors are \<open>Inl\<close>, answers \<open>Inr\<close>), Rust strings as lists of bytes with slices that
    are \<open>None\<close> where Rust panics, association lists as hash maps behind the locale \<open>keyed_store\<close>, and the two locales
    of invariants: \<open>invariant_machine\<close> for step relations and \<open>operation_machine\<close> for operations that are functions
    (the second is a sublocale of the first).
  \<^item> \<open>Json\<close>, \<open>F64\<close>: \<open>serde_json::Value\<close> with printing and access, and IEEE doubles as 64-bit words.

  \<^bold>\<open>Messages in and out.\<close>
  \<^item> \<open>Channel\<close> (\<open>channel/mod.rs\<close>), \<open>AccessControl\<close> (\<open>access_control.rs\<close>), \<open>DmPairing\<close> (\<open>pairing.rs\<close>) and
    \<open>MessageGate\<close>, their composition at the entry of \<open>process_message\<close>: who is admitted, in which sense a code is used
    once, that guesses are bounded.
  \<^item> \<open>SessionBridge\<close>, \<open>SessionStores\<close>, \<open>RedisSessions\<close>, \<open>FirestoreSessions\<close>, \<open>SessionBackend\<close>
    (\<open>session_bridge.rs\<close>): session keys and resets, and four stores behind one contract, the locales
    \<open>session_store\<close> and \<open>session_store_bulk\<close>, interpreted for SQLite, Postgres, Redis and Firestore. What a JSONB
    column of Postgres makes of a state is a parameter.
  \<^item> \<open>Plugins\<close>, \<open>StaleContext\<close>, \<open>SkillFiles\<close>, \<open>ToolRegistry\<close>, \<open>PromptContext\<close>, \<open>EventStream\<close>,
    \<open>ReplyDelivery\<close>, \<open>TaskLog\<close>, \<open>Delivery\<close>: the stretches of the pipeline, one theory for each module or function.
  \<^item> \<open>MessagePipeline\<close> composes all of them into \<open>process_message\<close> over one state record and one environment;
    \<open>PipelineProps\<close> holds what is true of the composition (a refused message changes nothing, only the session of the
    message is used, tool limits have no effect, which background work is left behind).
  \<^item> \<open>SsoTokens\<close> (\<open>jwt.rs\<close>): the keys of an identity provider and the middleware in front of the protected
    routes. \<open>InboundHook\<close> (\<open>webhook.rs\<close>, \<open>gateway_routes.rs\<close>): the web hook behind this middleware, with its token
    and its limits, and what \<open>MessageGate\<close> makes of its messages.
  \<^item> \<open>ToolProgress\<close> (\<open>gateway.rs\<close>): the callback after a tool, on \<open>RateLimiter\<close> (\<open>rate_limiter.rs\<close>).

  \<^bold>\<open>Agents, models and tools.\<close>
  \<^item> \<open>ModelConfig\<close>, \<open>ModelFactory\<close>, \<open>FallbackChain\<close>, \<open>AgentConfig\<close>: choice and construction of models.
  \<^item> \<open>AgentRegistry\<close>, \<open>ProcessManager\<close>, \<open>RbacBridge\<close>, \<open>Router\<close> and \<open>AgentManagement\<close> (the tools of
    \<open>executable_tools.rs\<close> that change all four): the lifecycle of agents, ports, roles and routes, and that they agree.
  \<^item> \<open>SchemaSanitizer\<close>: the locale \<open>schema_sanitizer\<close> says what a sanitizer promises to a model; it is interpreted for
    the identity, Gemini and OpenAI.
  \<^item> \<open>ToolApproval\<close>, \<open>GraphWorkflow\<close>, \<open>WorkflowActions\<close>, \<open>KnowledgeGraph\<close>, \<open>MultiUser\<close>, \<open>Heartbeat\<close>,
    \<open>Cron\<close>: one theory per module, with their steps as operations or as a step relation where calls interleave.
  \<^item> \<open>CodingModels\<close>, \<open>CodingAgents\<close>, \<open>TaskQueue\<close>, \<open>CodingStreaming\<close>, \<open>CodingTasks\<close>
    (\<open>coding_agent/\<close>): the registry and its monitor, the queue with its semaphore, the ACP update stream, delegation
    and the executor. \<open>AgentSessions\<close> (\<open>acp_client.rs\<close>, \<open>hitl_permissions.rs\<close>): the pool of long-lived
    sessions, and whom an agent asks for permission.

  \<^bold>\<open>Running the gateway.\<close>
  \<^item> \<open>Shutdown\<close>, \<open>Reconnect\<close>, \<open>HealthMonitor\<close>, \<open>ConfigReload\<close> (\<open>config_watcher.rs\<close>, \<open>build_channels\<close>
    and the reload task) and \<open>ConfigCrypto\<close> (\<open>config_encryption.rs\<close>).

  \<^bold>\<open>The control panel.\<close>
  \<^item> \<open>PanelAuth\<close> (\<open>control_panel/auth.rs\<close>, \<open>api.rs\<close>): the sessions of administrators. \<open>PanelDelegation\<close>
    (\<open>delegation.rs\<close>): the permissions between agents and the search for circular chains, with its termination.
  \<^item> \<open>PanelAgents\<close> (\<open>agents.rs\<close>): the agent pages, on the same state as the agent tools of \<open>AgentManagement\<close>.
  \<^item> \<open>PanelConfig\<close> (\<open>api.rs\<close>, \<open>approvals.rs\<close>, \<open>phase2_api.rs\<close>): the handlers that change the configuration of the panel and
    write it to the file, composed
    with the watcher and the reload of \<open>ConfigReload\<close>, the scheduler of \<open>Cron\<close> and the servers of
    \<open>McpConnections\<close> (\<open>mcp.rs\<close>).

  \<^bold>\<open>How code becomes definitions.\<close>
  A struct is a record and an enum a datatype with the same constructors; machine integers are words where their width
  matters; instants and durations are integers in the unit that the text of the theory names. A method that takes a lock
  for its whole body is one function on the state; a method that gives the lock up in between is split into the parts
  between which other calls can run, and the parts are the steps of an inductive relation (\<open>Shutdown\<close>, \<open>TaskQueue\<close>,
  \<open>ToolApproval\<close>, the executor of \<open>CodingTasks\<close>) or of a machine of events whose calls overlap lock by lock
  (\<open>DmPairing\<close>; \<open>MessageGate\<close> runs each of its calls as a whole). An error is a value of a sum, an early return a
  branch, and a panic is \<open>None\<close> or a constructor of its own where the code can reach it. Libraries (model clients,
  databases, ciphers, the HTTP client, base64, the clock) are fields of an environment record or arguments. Where a
  property needs more of them than their type, it says so in a hypothesis, and a witness shows a concrete function that
  satisfies it. The order of a hash map is the order of an association list; where it can be observed the order is an
  argument.

  \<^bold>\<open>Bounds and fuel.\<close>
  The number of steps of a workflow is the bound of the code itself; \<open>GraphWorkflow\<close> proves that it is enough for
  acyclic graphs. The free-port search of \<open>ProcessManager\<close> runs for as many rounds as there are ports. A loop that never
  ends by itself (the monitor ticks, the rounds of \<open>HealthMonitor\<close>, the event loop of the gateway) is a fold over the
  events that arrive or takes the number of rounds. Every other recursion is structural or has a proved measure.

  \<^bold>\<open>What the lemmas show.\<close>
  Each theory has the functional behaviour of its operations on all branches, then the invariant and that each operation
  keeps it (through one of the two machine locales), then the properties. The properties fall into groups: who may reach
  an agent and its sessions (\<open>MessageGate\<close>, \<open>PipelineProps\<close>, \<open>SessionBridge\<close>, \<open>AccessControl\<close>, \<open>PanelAuth\<close>, \<open>SsoTokens\<close>, \<open>InboundHook\<close>); that resources are
  conserved (\<open>TaskQueue\<close>, \<open>ProcessManager\<close>, \<open>Shutdown\<close>, \<open>Cron\<close>, \<open>CodingTasks\<close>, \<open>McpConnections\<close>); that optimised or stateful code
  agrees with a simple description (\<open>RateLimiter\<close>, \<open>Reconnect\<close>, \<open>HealthMonitor\<close>, \<open>EventStream\<close>, \<open>SessionStores\<close>,
  \<open>ConfigReload\<close>); round trips (\<open>ModelConfig\<close>, \<open>AgentRegistry\<close>, \<open>FirestoreSessions\<close>, \<open>ConfigCrypto\<close>,
  \<open>SkillFiles\<close>); and what goes wrong where the code does not do what it means to (\<open>PipelineProps\<close>, \<open>EventStream\<close>,
  \<open>ToolProgress\<close>, \<open>ReplyDelivery\<close>, \<open>RedisSessions\<close>, \<open>PanelAgents\<close>, \<open>PanelConfig\<close>, \<open>InboundHook\<close>, \<open>AgentSessions\<close>).

  \<^bold>\<open>Not modelled.\<close>
  The adapters of the channels (network clients of Telegram, Slack, WhatsApp, Discord and Matrix), the listings,
  placeholders and installers of the control panel, the other HTTP routes and the start-up code that only connects
  components, the parsing of the configuration (derived \<open>serde\<close> code), the processes of the ACP library, browsers, the progress reports and
  formats of the coding agents that nothing calls,
  document search, SQLite persistence of coding histories, generated agent projects, metrics, telemetry and the audit
  file: they format, forward or call libraries, and their answers are arguments of the parts above. The interleaving of two
  messages of one sender is modelled for pairing, approval, queue and shutdown, not for the whole of \<open>process_message\<close>.
\<close>

end
